(* ===== verification/Prelude.thy ===== *)
theory Prelude
  imports Main "HOL-Library.Word"
begin

unbundle bit_operations_syntax

text \<open>
  Shared vocabulary of the development: the machine integers of the C++ code, little-endian
  loads and stores on a byte memory (\<^verbatim>\<open>blake2/endian.h\<close>), sign extension
  (\<^verbatim>\<open>intrin_portable.h\<close>), and the generic lemmas on words, memories and loops that
  several components use.

  A memory block (\<^verbatim>\<open>uint8_t*\<close>) is a function from offsets to bytes. C++ does not check
  offsets, so the model does not either; that every offset stays inside its block is proved
  for the components that compute offsets.
\<close>

section \<open>Machine integers\<close>

type_synonym u8 = "8 word"
type_synonym u16 = "16 word"
type_synonym u32 = "32 word"
type_synonym u64 = "64 word"
type_synonym mem = "nat \<Rightarrow> u8"

named_theorems mem_simps \<open>loads of stores\<close>
named_theorems mask_bounds \<open>upper bounds of masked words\<close>

lemma bit_iff_odd_unat: "bit (x::'a::len word) n \<longleftrightarrow> odd (unat x div 2 ^ n)"
proof -
  have "bit x n \<longleftrightarrow> bit (unat x) n" by (simp add: bit_unsigned_iff)
  then show ?thesis by (simp add: bit_iff_odd)
qed

lemma bit_u8_ge: "8 \<le> n \<Longrightarrow> bit (x::u8) n = False"
  using bit_imp_le_length [of x n] by auto

lemma unat_u8_less [simp]: "unat (x::u8) < 256"
  using unsigned_less [of x] by simp

lemma unat_u32_less [simp]: "unat (x::u32) < 4294967296"
  using unsigned_less [of x] by simp

lemma unat_u64_less [simp]: "unat (x::u64) < 18446744073709551616"
  using unsigned_less [of x] by simp

text \<open>A masked word is at most its mask, and keeps the alignment of the mask.\<close>

lemma unat_and_le1 [mask_bounds]: "unat (x AND m) \<le> unat (m::'a::len word)"
  by (simp add: word_le_nat_alt [symmetric] word_and_le1)

lemma unat_and_le2 [mask_bounds]: "unat (m AND x) \<le> unat (m::'a::len word)"
  by (simp add: word_le_nat_alt [symmetric] word_and_le2)

lemma unat_eq_drop_bit_div: "unat (drop_bit n (x::'a::len word)) = unat x div 2 ^ n"
  by (simp only: unat_drop_bit_eq) (simp add: drop_bit_eq_div)

lemma unat_push_bit: "unat (push_bit n (x::'a::len word)) = unat x * 2 ^ n mod 2 ^ LENGTH('a)"
  by (simp only: unsigned_push_bit_eq) (simp add: take_bit_eq_mod push_bit_eq_mult)

lemma unat_and_mask: "unat ((x::'a::len word) AND mask n) = unat x mod 2 ^ n"
  by (simp only: take_bit_eq_mask [symmetric] unsigned_take_bit_eq) (simp add: take_bit_eq_mod)

section \<open>Sign extension\<close>

text \<open>
  \<^verbatim>\<open>signExtend2sCompl\<close>: the cast on a two's complement machine, and the portable branch
  of the conditional expression, which the two's complement test never selects.
\<close>

definition signExtend2sCompl :: "u32 \<Rightarrow> u64" where
  "signExtend2sCompl x = scast x"

definition signExtend2sCompl_portable :: "u32 \<Rightarrow> u64" where
  "signExtend2sCompl_portable x =
     (if x > 0x7fffffff then ucast x OR 0xffffffff00000000 else ucast x)"

lemma bit31_iff: "bit (x::u32) 31 \<longleftrightarrow> x > 0x7fffffff"
proof -
  have "unat x < 2 ^ 32" by simp
  then have "unat x div 2^31 = (if unat x < 2^31 then 0 else 1)"
    by (cases "unat x < 2^31") (simp_all add: div_nat_eqI)
  then show ?thesis by (auto simp add: bit_iff_odd_unat word_less_nat_alt split: if_splits)
qed

lemma bit_high_mask: "bit (0xffffffff00000000 :: u64) n \<longleftrightarrow> 32 \<le> n \<and> n < 64"
proof -
  have k: "(0xffffffff00000000 :: u64) = push_bit 32 (mask 32)"
    by (simp add: mask_eq_decr_exp push_bit_eq_mult)
  show ?thesis unfolding k by (auto simp: bit_push_bit_iff bit_mask_iff)
qed

lemma signExtend2sCompl_portable_eq: "signExtend2sCompl_portable x = signExtend2sCompl x"
proof (rule bit_word_eqI)
  fix n assume n: "n < LENGTH(64)"
  have "bit (signExtend2sCompl x) n = (bit x n \<or> 32 \<le> n \<and> bit x 31)"
    using n by (simp add: signExtend2sCompl_def bit_word_scast_iff)
  moreover have "bit (signExtend2sCompl_portable x) n = (bit x n \<or> 32 \<le> n \<and> bit x 31)"
    using n bit_high_mask [of n]
    by (auto simp: signExtend2sCompl_portable_def bit31_iff [symmetric] bit_or_iff bit_ucast_iff
        simp del: bit_numeral_simps)
  ultimately show "bit (signExtend2sCompl_portable x) n = bit (signExtend2sCompl x) n" by simp
qed

section \<open>Little-endian loads and stores\<close>

definition load32 :: "mem \<Rightarrow> nat \<Rightarrow> u32" where
  "load32 m a = ucast (m a) OR push_bit 8 (ucast (m (a + 1))) OR push_bit 16 (ucast (m (a + 2)))
    OR push_bit 24 (ucast (m (a + 3)))"

definition load64 :: "mem \<Rightarrow> nat \<Rightarrow> u64" where
  "load64 m a = ucast (m a) OR push_bit 8 (ucast (m (a + 1))) OR push_bit 16 (ucast (m (a + 2)))
    OR push_bit 24 (ucast (m (a + 3))) OR push_bit 32 (ucast (m (a + 4)))
    OR push_bit 40 (ucast (m (a + 5))) OR push_bit 48 (ucast (m (a + 6)))
    OR push_bit 56 (ucast (m (a + 7)))"

definition store32 :: "mem \<Rightarrow> nat \<Rightarrow> u32 \<Rightarrow> mem" where
  "store32 m a w = m(a := ucast w, a + 1 := ucast (drop_bit 8 w), a + 2 := ucast (drop_bit 16 w),
     a + 3 := ucast (drop_bit 24 w))"

definition store64 :: "mem \<Rightarrow> nat \<Rightarrow> u64 \<Rightarrow> mem" where
  "store64 m a w = m(a := ucast w, a + 1 := ucast (drop_bit 8 w), a + 2 := ucast (drop_bit 16 w),
     a + 3 := ucast (drop_bit 24 w), a + 4 := ucast (drop_bit 32 w), a + 5 := ucast (drop_bit 40 w),
     a + 6 := ucast (drop_bit 48 w), a + 7 := ucast (drop_bit 56 w))"

lemma split_byte_index: obtains q r where "n = 8 * q + r" "r < (8::nat)"
  by (metis mod_less_divisor mult_div_mod_eq zero_less_numeral)

lemma bit_load32: "bit (load32 m a) n \<longleftrightarrow> n < 32 \<and> bit (m (a + n div 8)) (n mod 8)"
proof -
  obtain q r where n: "n = 8 * q + r" "r < 8" by (rule split_byte_index)
  then have qr: "n div 8 = q" "n mod 8 = r" by simp_all
  show ?thesis
  proof (cases "q < 4")
    case True
    then consider "q = 0" | "q = 1" | "q = 2" | "q = 3" by linarith
    then show ?thesis unfolding qr
      by cases (use n in \<open>simp_all add: load32_def bit_or_iff bit_ucast_iff bit_push_bit_iff bit_u8_ge\<close>)
  next
    case False
    with n have "32 \<le> n" by linarith
    then show ?thesis using bit_imp_le_length [of "load32 m a" n] by auto
  qed
qed

lemma bit_load64: "bit (load64 m a) n \<longleftrightarrow> n < 64 \<and> bit (m (a + n div 8)) (n mod 8)"
proof -
  obtain q r where n: "n = 8 * q + r" "r < 8" by (rule split_byte_index)
  then have qr: "n div 8 = q" "n mod 8 = r" by simp_all
  show ?thesis
  proof (cases "q < 8")
    case True
    then consider "q = 0" | "q = 1" | "q = 2" | "q = 3" | "q = 4" | "q = 5" | "q = 6" | "q = 7"
      by linarith
    then show ?thesis unfolding qr
      by cases (use n in \<open>simp_all add: load64_def bit_or_iff bit_ucast_iff bit_push_bit_iff bit_u8_ge\<close>)
  next
    case False
    with n have "64 \<le> n" by linarith
    then show ?thesis using bit_imp_le_length [of "load64 m a" n] by auto
  qed
qed

lemma store32_byte: "k < 4 \<Longrightarrow> store32 m a w (a + k) = ucast (drop_bit (8 * k) w)"
proof -
  assume "k < 4"
  then consider "k = 0" | "k = 1" | "k = 2" | "k = 3" by linarith
  then show ?thesis by cases (simp_all add: store32_def)
qed

lemma store64_byte: "k < 8 \<Longrightarrow> store64 m a w (a + k) = ucast (drop_bit (8 * k) w)"
proof -
  assume "k < 8"
  then consider "k = 0" | "k = 1" | "k = 2" | "k = 3" | "k = 4" | "k = 5" | "k = 6" | "k = 7"
    by linarith
  then show ?thesis by cases (simp_all add: store64_def)
qed

text \<open>
  The interface of a word-sized cell: what a client of the loads and stores relies on. The
  frame and commutation lemmas are proved once, from these laws.
\<close>

locale cell_access =
  fixes width :: nat
    and load :: "mem \<Rightarrow> nat \<Rightarrow> 'w"
    and store :: "mem \<Rightarrow> nat \<Rightarrow> 'w \<Rightarrow> mem"
  assumes load_store_same: "load (store m a w) a = w"
    and store_load_same: "store m a (load m a) = m"
    and store_outside: "i < a \<or> a + width \<le> i \<Longrightarrow> store m a w i = m i"
    and store_inside: "a \<le> i \<Longrightarrow> i < a + width \<Longrightarrow> store m a w i = store m' a w i"
    and load_cong: "(\<And>i. a \<le> i \<Longrightarrow> i < a + width \<Longrightarrow> m i = m' i) \<Longrightarrow> load m a = load m' a"
begin

lemma load_store_other: "b + width \<le> a \<or> a + width \<le> b \<Longrightarrow> load (store m a w) b = load m b"
  by (rule load_cong) (auto intro!: store_outside)

lemma store_store_same: "store (store m a v) a w = store m a w"
proof
  fix i show "store (store m a v) a w i = store m a w i"
    by (cases "a \<le> i \<and> i < a + width") (auto simp: store_outside intro: store_inside)
qed

lemma store_commute:
  assumes "b + width \<le> a \<or> a + width \<le> b"
  shows "store (store m a v) b w = store (store m b w) a v"
proof
  fix i
  consider "a \<le> i \<and> i < a + width" | "b \<le> i \<and> i < b + width"
    | "\<not> (a \<le> i \<and> i < a + width)" "\<not> (b \<le> i \<and> i < b + width)" by blast
  then show "store (store m a v) b w i = store (store m b w) a v i"
  proof cases
    case 1
    then have "i < b \<or> b + width \<le> i" using assms by linarith
    with 1 show ?thesis by (simp add: store_outside) (blast intro: store_inside)
  next
    case 2
    then have "i < a \<or> a + width \<le> i" using assms by linarith
    with 2 show ?thesis by (simp add: store_outside) (blast intro: store_inside)
  next
    case 3
    then have "i < a \<or> a + width \<le> i" "i < b \<or> b + width \<le> i" by linarith+
    then show ?thesis by (simp add: store_outside)
  qed
qed

lemma store_agree:
  assumes "\<And>i. i \<in> S \<Longrightarrow> m i = m' i" "i \<in> S"
  shows "store m a w i = store m' a w i"
  using assms by (cases "a \<le> i \<and> i < a + width") (auto simp: store_outside intro: store_inside)

end

interpretation c64: cell_access 8 load64 store64
proof unfold_locales
  show "load64 (store64 m a w) a = w" for m a w
    by (rule bit_word_eqI) (simp add: bit_load64 store64_byte bit_ucast_iff bit_drop_bit_eq)
  show other: "store64 m a w i = m i" if "i < a \<or> a + 8 \<le> i" for i a m w
    using that by (auto simp: store64_def)
  have inside: "store64 m a w i = ucast (drop_bit (8 * (i - a)) w)" if "a \<le> i" "i < a + 8" for m a w i
    using store64_byte [of "i - a" m a w] that by simp
  show "store64 m a w i = store64 m' a w i" if "a \<le> i" "i < a + 8" for m m' a w i
    using that by (simp add: inside)
  show "load64 m a = load64 m' a" if "\<And>i. a \<le> i \<Longrightarrow> i < a + 8 \<Longrightarrow> m i = m' i" for m m' a
    by (rule bit_word_eqI) (simp add: bit_load64 that)
  show "store64 m a (load64 m a) = m" for m a
  proof
    fix i show "store64 m a (load64 m a) i = m i"
    proof (cases "a \<le> i \<and> i < a + 8")
      case True
      then have k: "8 * (i - a) + r < 64" if "r < 8" for r using that by linarith
      from True show ?thesis
        by (simp add: inside, intro bit_word_eqI)
           (simp add: bit_ucast_iff bit_drop_bit_eq bit_load64 k)
    qed (simp add: other not_le not_less)
  qed
qed

interpretation c32: cell_access 4 load32 store32
proof unfold_locales
  show "load32 (store32 m a w) a = w" for m a w
    by (rule bit_word_eqI) (simp add: bit_load32 store32_byte bit_ucast_iff bit_drop_bit_eq)
  show other: "store32 m a w i = m i" if "i < a \<or> a + 4 \<le> i" for i a m w
    using that by (auto simp: store32_def)
  have inside: "store32 m a w i = ucast (drop_bit (8 * (i - a)) w)" if "a \<le> i" "i < a + 4" for m a w i
    using store32_byte [of "i - a" m a w] that by simp
  show "store32 m a w i = store32 m' a w i" if "a \<le> i" "i < a + 4" for m m' a w i
    using that by (simp add: inside)
  show "load32 m a = load32 m' a" if "\<And>i. a \<le> i \<Longrightarrow> i < a + 4 \<Longrightarrow> m i = m' i" for m m' a
    by (rule bit_word_eqI) (simp add: bit_load32 that)
  show "store32 m a (load32 m a) = m" for m a
  proof
    fix i show "store32 m a (load32 m a) i = m i"
    proof (cases "a \<le> i \<and> i < a + 4")
      case True
      then have k: "8 * (i - a) + r < 32" if "r < 8" for r using that by linarith
      from True show ?thesis
        by (simp add: inside, intro bit_word_eqI)
           (simp add: bit_ucast_iff bit_drop_bit_eq bit_load32 k)
    qed (simp add: other not_le not_less)
  qed
qed

lemmas cell_simps =
  c64.load_store_same c64.store_load_same c64.load_store_other
  c32.load_store_same c32.store_load_same c32.load_store_other

declare cell_simps [mem_simps]

text \<open>A byte list laid out in a memory block (\<^verbatim>\<open>memcpy\<close> of a buffer), and read back.\<close>

definition read_bytes :: "mem \<Rightarrow> nat \<Rightarrow> nat \<Rightarrow> u8 list" where
  "read_bytes m a n = map (\<lambda>i. m (a + i)) [0..<n]"

definition write_bytes :: "mem \<Rightarrow> nat \<Rightarrow> u8 list \<Rightarrow> mem" where
  "write_bytes m a bs = (\<lambda>i. if a \<le> i \<and> i < a + length bs then bs ! (i - a) else m i)"

lemma length_read_bytes [simp]: "length (read_bytes m a n) = n"
  by (simp add: read_bytes_def)

lemma read_write_bytes [mem_simps]: "read_bytes (write_bytes m a bs) a (length bs) = bs"
  by (rule nth_equalityI) (simp_all add: read_bytes_def write_bytes_def)

lemma write_bytes_outside: "i < a \<or> a + length bs \<le> i \<Longrightarrow> write_bytes m a bs i = m i"
  by (auto simp: write_bytes_def)

lemma read_bytes_cong: "(\<And>i. a \<le> i \<Longrightarrow> i < a + n \<Longrightarrow> m i = m' i) \<Longrightarrow> read_bytes m a n = read_bytes m' a n"
  by (simp add: read_bytes_def)

section \<open>Loops over an index range\<close>

text \<open>\<^verbatim>\<open>for (i = a; i < b; ++i) s = f(i, s)\<close>.\<close>

definition for_range :: "nat \<Rightarrow> nat \<Rightarrow> (nat \<Rightarrow> 's \<Rightarrow> 's) \<Rightarrow> 's \<Rightarrow> 's" where
  "for_range a b f s = fold f [a..<b] s"

lemma for_range_empty [simp]: "b \<le> a \<Longrightarrow> for_range a b f s = s"
  by (simp add: for_range_def)

lemma for_range_Suc [simp]: "a \<le> b \<Longrightarrow> for_range a (Suc b) f s = f b (for_range a b f s)"
  by (simp add: for_range_def)

lemma for_range_split: "a \<le> b \<Longrightarrow> b \<le> c \<Longrightarrow> for_range a c f s = for_range b c f (for_range a b f s)"
proof -
  assume "a \<le> b" "b \<le> c"
  then have "[a..<c] = [a..<b] @ [b..<c]" by (metis le_Suc_ex upt_add_eq_append)
  then show ?thesis by (simp add: for_range_def)
qed

lemma for_range_cong:
  "(\<And>i t. a \<le> i \<Longrightarrow> i < b \<Longrightarrow> f i t = g i t) \<Longrightarrow> for_range a b f s = for_range a b g s"
proof (induction b)
  case (Suc b)
  then show ?case by (cases "a \<le> b") simp_all
qed simp

lemma for_range_invariant:
  assumes "P s" "\<And>i s. a \<le> i \<Longrightarrow> i < b \<Longrightarrow> P s \<Longrightarrow> P (f i s)"
  shows "P (for_range a b f s)"
  using assms by (induction b) (auto simp: for_range_def not_less_eq_eq le_less_Suc_eq)

lemma for_range_induct [consumes 1, case_names init step]:
  assumes "a \<le> b" "P a s" "\<And>i s. a \<le> i \<Longrightarrow> i < b \<Longrightarrow> P i s \<Longrightarrow> P (Suc i) (f i s)"
  shows "P b (for_range a b f s)"
  using assms
proof (induction b rule: dec_induct)
  case (step n)
  then show ?case by simp
qed simp

end
