(* ===== verification/Config.thy ===== *)
theory Config
  imports Prelude
begin

text \<open>
  The compile-time parameters (\<^verbatim>\<open>configuration.h\<close>), the constants derived from them
  (\<^verbatim>\<open>common.hpp\<close>), the flags of \<^verbatim>\<open>randomx.h\<close>, and the opcode ceilings of
  \<^verbatim>\<open>bytecode_machine.hpp\<close>. Sizes and counts are \<open>nat\<close>, masks are words of the width the code
  gives them. Every constant is in the collection \<open>config\<close>. The \<^verbatim>\<open>static_assert\<close>s of
  \<^verbatim>\<open>common.hpp\<close> are the predicate \<open>config_asserts\<close>, which is proved.
\<close>

named_theorems config \<open>values of the configuration constants\<close>

section \<open>configuration.h\<close>

definition RANDOMX_ARGON_MEMORY :: nat where [config]: "RANDOMX_ARGON_MEMORY = 262144"
definition RANDOMX_ARGON_ITERATIONS :: nat where [config]: "RANDOMX_ARGON_ITERATIONS = 3"
definition RANDOMX_ARGON_LANES :: nat where [config]: "RANDOMX_ARGON_LANES = 1"
definition RANDOMX_ARGON_SALT :: "u8 list" where [config]:
  "RANDOMX_ARGON_SALT = [0x52, 0x61, 0x6e, 0x64, 0x6f, 0x6d, 0x58, 0x03]"
definition RANDOMX_CACHE_ACCESSES :: nat where [config]: "RANDOMX_CACHE_ACCESSES = 8"
definition RANDOMX_SUPERSCALAR_LATENCY :: nat where [config]: "RANDOMX_SUPERSCALAR_LATENCY = 170"
definition RANDOMX_DATASET_BASE_SIZE :: nat where [config]: "RANDOMX_DATASET_BASE_SIZE = 2147483648"
definition RANDOMX_DATASET_EXTRA_SIZE :: nat where [config]: "RANDOMX_DATASET_EXTRA_SIZE = 33554368"
definition RANDOMX_PROGRAM_SIZE_V1 :: nat where [config]: "RANDOMX_PROGRAM_SIZE_V1 = 256"
definition RANDOMX_PROGRAM_SIZE_V2 :: nat where [config]: "RANDOMX_PROGRAM_SIZE_V2 = 384"
definition RANDOMX_PROGRAM_MAX_SIZE :: nat where [config]: "RANDOMX_PROGRAM_MAX_SIZE = 384"
definition RANDOMX_PROGRAM_ITERATIONS :: nat where [config]: "RANDOMX_PROGRAM_ITERATIONS = 2048"
definition RANDOMX_PROGRAM_COUNT :: nat where [config]: "RANDOMX_PROGRAM_COUNT = 8"
definition RANDOMX_SCRATCHPAD_L3 :: nat where [config]: "RANDOMX_SCRATCHPAD_L3 = 2097152"
definition RANDOMX_SCRATCHPAD_L2 :: nat where [config]: "RANDOMX_SCRATCHPAD_L2 = 262144"
definition RANDOMX_SCRATCHPAD_L1 :: nat where [config]: "RANDOMX_SCRATCHPAD_L1 = 16384"
definition RANDOMX_JUMP_BITS :: nat where [config]: "RANDOMX_JUMP_BITS = 8"
definition RANDOMX_JUMP_OFFSET :: nat where [config]: "RANDOMX_JUMP_OFFSET = 8"

definition RANDOMX_FREQ_IADD_RS :: nat where [config]: "RANDOMX_FREQ_IADD_RS = 16"
definition RANDOMX_FREQ_IADD_M :: nat where [config]: "RANDOMX_FREQ_IADD_M = 7"
definition RANDOMX_FREQ_ISUB_R :: nat where [config]: "RANDOMX_FREQ_ISUB_R = 16"
definition RANDOMX_FREQ_ISUB_M :: nat where [config]: "RANDOMX_FREQ_ISUB_M = 7"
definition RANDOMX_FREQ_IMUL_R :: nat where [config]: "RANDOMX_FREQ_IMUL_R = 16"
definition RANDOMX_FREQ_IMUL_M :: nat where [config]: "RANDOMX_FREQ_IMUL_M = 4"
definition RANDOMX_FREQ_IMULH_R :: nat where [config]: "RANDOMX_FREQ_IMULH_R = 4"
definition RANDOMX_FREQ_IMULH_M :: nat where [config]: "RANDOMX_FREQ_IMULH_M = 1"
definition RANDOMX_FREQ_ISMULH_R :: nat where [config]: "RANDOMX_FREQ_ISMULH_R = 4"
definition RANDOMX_FREQ_ISMULH_M :: nat where [config]: "RANDOMX_FREQ_ISMULH_M = 1"
definition RANDOMX_FREQ_IMUL_RCP :: nat where [config]: "RANDOMX_FREQ_IMUL_RCP = 8"
definition RANDOMX_FREQ_INEG_R :: nat where [config]: "RANDOMX_FREQ_INEG_R = 2"
definition RANDOMX_FREQ_IXOR_R :: nat where [config]: "RANDOMX_FREQ_IXOR_R = 15"
definition RANDOMX_FREQ_IXOR_M :: nat where [config]: "RANDOMX_FREQ_IXOR_M = 5"
definition RANDOMX_FREQ_IROR_R :: nat where [config]: "RANDOMX_FREQ_IROR_R = 8"
definition RANDOMX_FREQ_IROL_R :: nat where [config]: "RANDOMX_FREQ_IROL_R = 2"
definition RANDOMX_FREQ_ISWAP_R :: nat where [config]: "RANDOMX_FREQ_ISWAP_R = 4"
definition RANDOMX_FREQ_FSWAP_R :: nat where [config]: "RANDOMX_FREQ_FSWAP_R = 4"
definition RANDOMX_FREQ_FADD_R :: nat where [config]: "RANDOMX_FREQ_FADD_R = 16"
definition RANDOMX_FREQ_FADD_M :: nat where [config]: "RANDOMX_FREQ_FADD_M = 5"
definition RANDOMX_FREQ_FSUB_R :: nat where [config]: "RANDOMX_FREQ_FSUB_R = 16"
definition RANDOMX_FREQ_FSUB_M :: nat where [config]: "RANDOMX_FREQ_FSUB_M = 5"
definition RANDOMX_FREQ_FSCAL_R :: nat where [config]: "RANDOMX_FREQ_FSCAL_R = 6"
definition RANDOMX_FREQ_FMUL_R :: nat where [config]: "RANDOMX_FREQ_FMUL_R = 32"
definition RANDOMX_FREQ_FDIV_M :: nat where [config]: "RANDOMX_FREQ_FDIV_M = 4"
definition RANDOMX_FREQ_FSQRT_R :: nat where [config]: "RANDOMX_FREQ_FSQRT_R = 6"
definition RANDOMX_FREQ_CBRANCH :: nat where [config]: "RANDOMX_FREQ_CBRANCH = 25"
definition RANDOMX_FREQ_CFROUND :: nat where [config]: "RANDOMX_FREQ_CFROUND = 1"
definition RANDOMX_FREQ_ISTORE :: nat where [config]: "RANDOMX_FREQ_ISTORE = 16"
definition RANDOMX_FREQ_NOP :: nat where [config]: "RANDOMX_FREQ_NOP = 0"

section \<open>randomx.h: sizes and flags\<close>

definition RANDOMX_HASH_SIZE :: nat where [config]: "RANDOMX_HASH_SIZE = 32"
definition RANDOMX_DATASET_ITEM_SIZE :: nat where [config]: "RANDOMX_DATASET_ITEM_SIZE = 64"
definition RANDOMX_FLAG_DEFAULT :: u32 where [config]: "RANDOMX_FLAG_DEFAULT = 0"
definition RANDOMX_FLAG_LARGE_PAGES :: u32 where [config]: "RANDOMX_FLAG_LARGE_PAGES = 1"
definition RANDOMX_FLAG_HARD_AES :: u32 where [config]: "RANDOMX_FLAG_HARD_AES = 2"
definition RANDOMX_FLAG_FULL_MEM :: u32 where [config]: "RANDOMX_FLAG_FULL_MEM = 4"
definition RANDOMX_FLAG_JIT :: u32 where [config]: "RANDOMX_FLAG_JIT = 8"
definition RANDOMX_FLAG_SECURE :: u32 where [config]: "RANDOMX_FLAG_SECURE = 16"
definition RANDOMX_FLAG_ARGON2_SSSE3 :: u32 where [config]: "RANDOMX_FLAG_ARGON2_SSSE3 = 32"
definition RANDOMX_FLAG_ARGON2_AVX2 :: u32 where [config]: "RANDOMX_FLAG_ARGON2_AVX2 = 64"
definition RANDOMX_FLAG_ARGON2 :: u32 where [config]: "RANDOMX_FLAG_ARGON2 = 96"
definition RANDOMX_FLAG_V2 :: u32 where [config]: "RANDOMX_FLAG_V2 = 128"

text \<open>\<^verbatim>\<open>if (flags & FLAG)\<close>.\<close>

definition has_flag :: "u32 \<Rightarrow> u32 \<Rightarrow> bool" where
  "has_flag flags f = (flags AND f \<noteq> 0)"

section \<open>common.hpp: derived constants\<close>

definition wtSum :: nat where [config]:
  "wtSum =
      RANDOMX_FREQ_IADD_RS + RANDOMX_FREQ_IADD_M + RANDOMX_FREQ_ISUB_R + RANDOMX_FREQ_ISUB_M +
      RANDOMX_FREQ_IMUL_R + RANDOMX_FREQ_IMUL_M + RANDOMX_FREQ_IMULH_R + RANDOMX_FREQ_IMULH_M +
      RANDOMX_FREQ_ISMULH_R + RANDOMX_FREQ_ISMULH_M + RANDOMX_FREQ_IMUL_RCP + RANDOMX_FREQ_INEG_R +
      RANDOMX_FREQ_IXOR_R + RANDOMX_FREQ_IXOR_M + RANDOMX_FREQ_IROR_R + RANDOMX_FREQ_IROL_R +
      RANDOMX_FREQ_ISWAP_R + RANDOMX_FREQ_FSWAP_R + RANDOMX_FREQ_FADD_R + RANDOMX_FREQ_FADD_M +
      RANDOMX_FREQ_FSUB_R + RANDOMX_FREQ_FSUB_M + RANDOMX_FREQ_FSCAL_R + RANDOMX_FREQ_FMUL_R +
      RANDOMX_FREQ_FDIV_M + RANDOMX_FREQ_FSQRT_R + RANDOMX_FREQ_CBRANCH + RANDOMX_FREQ_CFROUND +
      RANDOMX_FREQ_ISTORE + RANDOMX_FREQ_NOP"
definition ArgonBlockSize :: nat where [config]: "ArgonBlockSize = 1024"
definition ArgonSaltSize :: nat where [config]: "ArgonSaltSize = length RANDOMX_ARGON_SALT"
definition SuperscalarMaxSize :: nat where [config]: "SuperscalarMaxSize = 3 * RANDOMX_SUPERSCALAR_LATENCY + 2"
definition CacheLineSize :: nat where [config]: "CacheLineSize = RANDOMX_DATASET_ITEM_SIZE"
definition ScratchpadSize :: nat where [config]: "ScratchpadSize = RANDOMX_SCRATCHPAD_L3"
definition CacheLineAlignMask :: u32 where "CacheLineAlignMask = (of_nat RANDOMX_DATASET_BASE_SIZE - 1) AND NOT (of_nat CacheLineSize - 1)"
definition CacheSize :: nat where [config]: "CacheSize = RANDOMX_ARGON_MEMORY * ArgonBlockSize"
definition DatasetSize :: nat where [config]: "DatasetSize = RANDOMX_DATASET_BASE_SIZE + RANDOMX_DATASET_EXTRA_SIZE"
definition DatasetExtraItems :: nat where [config]: "DatasetExtraItems = RANDOMX_DATASET_EXTRA_SIZE div RANDOMX_DATASET_ITEM_SIZE"
definition ConditionMask :: u32 where "ConditionMask = push_bit RANDOMX_JUMP_BITS 1 - 1"
definition ConditionOffset :: nat where [config]: "ConditionOffset = RANDOMX_JUMP_OFFSET"
definition StoreL3Condition :: nat where [config]: "StoreL3Condition = 14"
definition ScratchpadL1 :: nat where [config]: "ScratchpadL1 = RANDOMX_SCRATCHPAD_L1 div 8"
definition ScratchpadL2 :: nat where [config]: "ScratchpadL2 = RANDOMX_SCRATCHPAD_L2 div 8"
definition ScratchpadL3 :: nat where [config]: "ScratchpadL3 = RANDOMX_SCRATCHPAD_L3 div 8"
definition ScratchpadL1Mask :: u32 where "ScratchpadL1Mask = (of_nat ScratchpadL1 - 1) * 8"
definition ScratchpadL2Mask :: u32 where "ScratchpadL2Mask = (of_nat ScratchpadL2 - 1) * 8"
definition ScratchpadL1Mask16 :: u32 where [config]: "ScratchpadL1Mask16 = (of_nat (ScratchpadL1 div 2) - 1) * 16"
definition ScratchpadL2Mask16 :: u32 where [config]: "ScratchpadL2Mask16 = (of_nat (ScratchpadL2 div 2) - 1) * 16"
definition ScratchpadL3Mask :: u32 where "ScratchpadL3Mask = (of_nat ScratchpadL3 - 1) * 8"
definition ScratchpadL3Mask64 :: u32 where "ScratchpadL3Mask64 = (of_nat (ScratchpadL3 div 8) - 1) * 64"
definition RegistersCount :: nat where [config]: "RegistersCount = 8"
definition RegisterCountFlt :: nat where [config]: "RegisterCountFlt = RegistersCount div 2"
definition RegisterNeedsDisplacement :: nat where [config]: "RegisterNeedsDisplacement = 5"
definition RegisterNeedsSib :: nat where [config]: "RegisterNeedsSib = 4"
definition mantissaSize :: nat where [config]: "mantissaSize = 52"
definition exponentSize :: nat where [config]: "exponentSize = 11"
definition mantissaMask :: u64 where "mantissaMask = push_bit mantissaSize 1 - 1"
definition exponentMask :: u64 where "exponentMask = push_bit exponentSize 1 - 1"
definition exponentBias :: u64 where [config]: "exponentBias = 1023"
definition dynamicExponentBits :: nat where [config]: "dynamicExponentBits = 4"
definition staticExponentBits :: nat where [config]: "staticExponentBits = 4"
definition constExponentBits :: u64 where [config]: "constExponentBits = 0x300"
definition dynamicMantissaMask :: u64 where "dynamicMantissaMask = push_bit (mantissaSize + dynamicExponentBits) 1 - 1"

definition isZeroOrPowerOf2 :: "u64 \<Rightarrow> bool" where
  "isZeroOrPowerOf2 x = (x AND (x - 1) = 0)"

text \<open>The \<^verbatim>\<open>static_assert\<close>s over these constants.\<close>

definition config_asserts :: bool where
  "config_asserts = (
     RANDOMX_ARGON_MEMORY \<ge> 8 \<and> RANDOMX_ARGON_MEMORY \<le> 2097152 \<and>
     RANDOMX_ARGON_MEMORY AND (RANDOMX_ARGON_MEMORY - 1) = 0 \<and>
     RANDOMX_ARGON_ITERATIONS > 0 \<and> RANDOMX_ARGON_ITERATIONS < 4294967295 \<and>
     RANDOMX_ARGON_LANES > 0 \<and> RANDOMX_ARGON_LANES \<le> 16777215 \<and>
     RANDOMX_DATASET_BASE_SIZE \<ge> 64 \<and>
     RANDOMX_DATASET_BASE_SIZE AND (RANDOMX_DATASET_BASE_SIZE - 1) = 0 \<and>
     RANDOMX_DATASET_BASE_SIZE \<le> 4294967296 \<and> RANDOMX_DATASET_EXTRA_SIZE mod 64 = 0 \<and>
     RANDOMX_DATASET_BASE_SIZE + RANDOMX_DATASET_EXTRA_SIZE \<le> 17179869184 \<and>
     RANDOMX_PROGRAM_SIZE_V1 > 0 \<and> RANDOMX_PROGRAM_SIZE_V1 \<le> 32768 \<and>
     RANDOMX_PROGRAM_SIZE_V2 > 0 \<and> RANDOMX_PROGRAM_SIZE_V2 \<le> 32768 \<and>
     RANDOMX_PROGRAM_ITERATIONS > 0 \<and> RANDOMX_PROGRAM_COUNT > 0 \<and>
     RANDOMX_SCRATCHPAD_L3 AND (RANDOMX_SCRATCHPAD_L3 - 1) = 0 \<and>
     RANDOMX_SCRATCHPAD_L3 \<ge> RANDOMX_SCRATCHPAD_L2 \<and>
     RANDOMX_SCRATCHPAD_L2 AND (RANDOMX_SCRATCHPAD_L2 - 1) = 0 \<and>
     RANDOMX_SCRATCHPAD_L2 \<ge> RANDOMX_SCRATCHPAD_L1 \<and> RANDOMX_SCRATCHPAD_L1 \<ge> 64 \<and>
     RANDOMX_SCRATCHPAD_L1 AND (RANDOMX_SCRATCHPAD_L1 - 1) = 0 \<and>
     RANDOMX_CACHE_ACCESSES > 1 \<and>
     RANDOMX_SUPERSCALAR_LATENCY > 0 \<and> RANDOMX_SUPERSCALAR_LATENCY \<le> 10000 \<and>
     RANDOMX_JUMP_BITS > 0 \<and> RANDOMX_JUMP_OFFSET \<ge> 0 \<and>
     RANDOMX_JUMP_BITS + RANDOMX_JUMP_OFFSET \<le> 16 \<and> wtSum = 256 \<and> ArgonSaltSize \<ge> 8 \<and>
     ArgonBlockSize * RANDOMX_CACHE_ACCESSES * RANDOMX_ARGON_MEMORY + 33554432
       \<ge> RANDOMX_DATASET_BASE_SIZE + RANDOMX_DATASET_EXTRA_SIZE \<and>
     (128 + RANDOMX_PROGRAM_SIZE_V1 * RANDOMX_FREQ_ISTORE div 256) *
       (RANDOMX_PROGRAM_COUNT * RANDOMX_PROGRAM_ITERATIONS) \<ge> RANDOMX_SCRATCHPAD_L3 \<and>
     (128 + RANDOMX_PROGRAM_SIZE_V2 * RANDOMX_FREQ_ISTORE div 256) *
       (RANDOMX_PROGRAM_COUNT * RANDOMX_PROGRAM_ITERATIONS) \<ge> RANDOMX_SCRATCHPAD_L3 \<and>
     RANDOMX_PROGRAM_COUNT > 1 \<and> RANDOMX_PROGRAM_SIZE_V1 \<ge> 64 \<and>
     RANDOMX_PROGRAM_SIZE_V2 \<ge> 64 \<and> RANDOMX_PROGRAM_ITERATIONS \<ge> 400)"

lemma config_asserts: config_asserts
  by (simp add: config_asserts_def config)

section \<open>bytecode\_machine.hpp: opcode ceilings\<close>

text \<open>\<^verbatim>\<open>OPCODE_CEIL_DECLARE\<close>: the first opcode above the block of each instruction.\<close>

definition ceil_IADD_RS :: nat where [config]: "ceil_IADD_RS = 0 + RANDOMX_FREQ_IADD_RS"
definition ceil_IADD_M :: nat where [config]: "ceil_IADD_M = ceil_IADD_RS + RANDOMX_FREQ_IADD_M"
definition ceil_ISUB_R :: nat where [config]: "ceil_ISUB_R = ceil_IADD_M + RANDOMX_FREQ_ISUB_R"
definition ceil_ISUB_M :: nat where [config]: "ceil_ISUB_M = ceil_ISUB_R + RANDOMX_FREQ_ISUB_M"
definition ceil_IMUL_R :: nat where [config]: "ceil_IMUL_R = ceil_ISUB_M + RANDOMX_FREQ_IMUL_R"
definition ceil_IMUL_M :: nat where [config]: "ceil_IMUL_M = ceil_IMUL_R + RANDOMX_FREQ_IMUL_M"
definition ceil_IMULH_R :: nat where [config]: "ceil_IMULH_R = ceil_IMUL_M + RANDOMX_FREQ_IMULH_R"
definition ceil_IMULH_M :: nat where [config]: "ceil_IMULH_M = ceil_IMULH_R + RANDOMX_FREQ_IMULH_M"
definition ceil_ISMULH_R :: nat where [config]: "ceil_ISMULH_R = ceil_IMULH_M + RANDOMX_FREQ_ISMULH_R"
definition ceil_ISMULH_M :: nat where [config]: "ceil_ISMULH_M = ceil_ISMULH_R + RANDOMX_FREQ_ISMULH_M"
definition ceil_IMUL_RCP :: nat where [config]: "ceil_IMUL_RCP = ceil_ISMULH_M + RANDOMX_FREQ_IMUL_RCP"
definition ceil_INEG_R :: nat where [config]: "ceil_INEG_R = ceil_IMUL_RCP + RANDOMX_FREQ_INEG_R"
definition ceil_IXOR_R :: nat where [config]: "ceil_IXOR_R = ceil_INEG_R + RANDOMX_FREQ_IXOR_R"
definition ceil_IXOR_M :: nat where [config]: "ceil_IXOR_M = ceil_IXOR_R + RANDOMX_FREQ_IXOR_M"
definition ceil_IROR_R :: nat where [config]: "ceil_IROR_R = ceil_IXOR_M + RANDOMX_FREQ_IROR_R"
definition ceil_IROL_R :: nat where [config]: "ceil_IROL_R = ceil_IROR_R + RANDOMX_FREQ_IROL_R"
definition ceil_ISWAP_R :: nat where [config]: "ceil_ISWAP_R = ceil_IROL_R + RANDOMX_FREQ_ISWAP_R"
definition ceil_FSWAP_R :: nat where [config]: "ceil_FSWAP_R = ceil_ISWAP_R + RANDOMX_FREQ_FSWAP_R"
definition ceil_FADD_R :: nat where [config]: "ceil_FADD_R = ceil_FSWAP_R + RANDOMX_FREQ_FADD_R"
definition ceil_FADD_M :: nat where [config]: "ceil_FADD_M = ceil_FADD_R + RANDOMX_FREQ_FADD_M"
definition ceil_FSUB_R :: nat where [config]: "ceil_FSUB_R = ceil_FADD_M + RANDOMX_FREQ_FSUB_R"
definition ceil_FSUB_M :: nat where [config]: "ceil_FSUB_M = ceil_FSUB_R + RANDOMX_FREQ_FSUB_M"
definition ceil_FSCAL_R :: nat where [config]: "ceil_FSCAL_R = ceil_FSUB_M + RANDOMX_FREQ_FSCAL_R"
definition ceil_FMUL_R :: nat where [config]: "ceil_FMUL_R = ceil_FSCAL_R + RANDOMX_FREQ_FMUL_R"
definition ceil_FDIV_M :: nat where [config]: "ceil_FDIV_M = ceil_FMUL_R + RANDOMX_FREQ_FDIV_M"
definition ceil_FSQRT_R :: nat where [config]: "ceil_FSQRT_R = ceil_FDIV_M + RANDOMX_FREQ_FSQRT_R"
definition ceil_CBRANCH :: nat where [config]: "ceil_CBRANCH = ceil_FSQRT_R + RANDOMX_FREQ_CBRANCH"
definition ceil_CFROUND :: nat where [config]: "ceil_CFROUND = ceil_CBRANCH + RANDOMX_FREQ_CFROUND"
definition ceil_ISTORE :: nat where [config]: "ceil_ISTORE = ceil_CFROUND + RANDOMX_FREQ_ISTORE"
definition ceil_NOP :: nat where [config]: "ceil_NOP = ceil_ISTORE + RANDOMX_FREQ_NOP"

text \<open>The values the constants evaluate to, for proofs that compute with them.\<close>

lemma mask_values [config]:
  "CacheLineAlignMask = 0x7fffffc0" "ConditionMask = 255"
  "ScratchpadL1Mask = 16376" "ScratchpadL2Mask = 262136" "ScratchpadL3Mask = 2097144"
  "ScratchpadL3Mask64 = 2097088" "mantissaMask = 0xfffffffffffff" "exponentMask = 0x7ff"
  "dynamicMantissaMask = 0xffffffffffffff"
  by (simp_all add: config CacheLineAlignMask_def ConditionMask_def ScratchpadL1Mask_def ScratchpadL2Mask_def ScratchpadL3Mask_def ScratchpadL3Mask64_def mantissaMask_def exponentMask_def dynamicMantissaMask_def)

end
