(* ===== verification/Instr.thy ===== *)
theory Instr
  imports Config
begin

text \<open>
  The RandomX instruction word (\<^verbatim>\<open>instruction.hpp\<close>), the tables indexed by opcode that
  \<^verbatim>\<open>instruction_weights.hpp\<close> builds, and the disassembler (\<^verbatim>\<open>instruction.cpp\<close>).
  An output stream is the string written to it.
\<close>

section \<open>Instruction words\<close>

datatype InstructionType =
  IADD_RS | IADD_M | ISUB_R | ISUB_M | IMUL_R | IMUL_M | IMULH_R | IMULH_M | ISMULH_R | ISMULH_M
  | IMUL_RCP | INEG_R | IXOR_R | IXOR_M | IROR_R | IROL_R | ISWAP_R | FSWAP_R | FADD_R | FADD_M
  | FSUB_R | FSUB_M | FSCAL_R | FMUL_R | FDIV_M | FSQRT_R | CBRANCH | CFROUND | ISTORE | NOP

record Instruction =
  i_opcode :: u8
  i_dst :: u8
  i_src :: u8
  i_mod :: u8
  i_imm32 :: u32

definition getImm32 :: "Instruction \<Rightarrow> u32" where "getImm32 i = i_imm32 i"
definition setImm32 :: "u32 \<Rightarrow> Instruction \<Rightarrow> Instruction" where "setImm32 v i = i\<lparr>i_imm32 := v\<rparr>"
definition setMod :: "u8 \<Rightarrow> Instruction \<Rightarrow> Instruction" where "setMod v i = i\<lparr>i_mod := v\<rparr>"
definition getModMem :: "Instruction \<Rightarrow> nat" where "getModMem i = unat (i_mod i) mod 4"
definition getModShift :: "Instruction \<Rightarrow> nat" where "getModShift i = unat (drop_bit 2 (i_mod i)) mod 4"
definition getModCond :: "Instruction \<Rightarrow> nat" where "getModCond i = unat (drop_bit 4 (i_mod i))"

text \<open>\<^verbatim>\<open>dst % RegistersCount\<close> and its variants.\<close>

definition dst_int :: "Instruction \<Rightarrow> nat" where "dst_int i = unat (i_dst i) mod RegistersCount"
definition src_int :: "Instruction \<Rightarrow> nat" where "src_int i = unat (i_src i) mod RegistersCount"
definition dst_flt :: "Instruction \<Rightarrow> nat" where "dst_flt i = unat (i_dst i) mod RegisterCountFlt"
definition src_flt :: "Instruction \<Rightarrow> nat" where "src_flt i = unat (i_src i) mod RegisterCountFlt"

lemma index_bounds [simp]:
  "dst_int i < 8" "src_int i < 8" "dst_flt i < 4" "src_flt i < 4"
  by (simp_all add: dst_int_def src_int_def dst_flt_def src_flt_def config)

lemma getModShift_less [simp]: "getModShift i < 4"
  by (simp add: getModShift_def)

lemma getModCond_less [simp]: "getModCond i < 16"
proof -
  have "unat (i_mod i) div 16 < 16" using unat_u8_less [of "i_mod i"] by linarith
  then show ?thesis unfolding getModCond_def unat_eq_drop_bit_div by simp
qed

section \<open>Opcode tables\<close>

text \<open>
  \<^verbatim>\<open>REPN(f(x), WT(x))\<close> for every instruction: a table of 256 entries in which each
  instruction occupies as many places as its frequency.
\<close>

fun freq :: "InstructionType \<Rightarrow> nat" where
  "freq IADD_RS = RANDOMX_FREQ_IADD_RS"
| "freq IADD_M = RANDOMX_FREQ_IADD_M"
| "freq ISUB_R = RANDOMX_FREQ_ISUB_R"
| "freq ISUB_M = RANDOMX_FREQ_ISUB_M"
| "freq IMUL_R = RANDOMX_FREQ_IMUL_R"
| "freq IMUL_M = RANDOMX_FREQ_IMUL_M"
| "freq IMULH_R = RANDOMX_FREQ_IMULH_R"
| "freq IMULH_M = RANDOMX_FREQ_IMULH_M"
| "freq ISMULH_R = RANDOMX_FREQ_ISMULH_R"
| "freq ISMULH_M = RANDOMX_FREQ_ISMULH_M"
| "freq IMUL_RCP = RANDOMX_FREQ_IMUL_RCP"
| "freq INEG_R = RANDOMX_FREQ_INEG_R"
| "freq IXOR_R = RANDOMX_FREQ_IXOR_R"
| "freq IXOR_M = RANDOMX_FREQ_IXOR_M"
| "freq IROR_R = RANDOMX_FREQ_IROR_R"
| "freq IROL_R = RANDOMX_FREQ_IROL_R"
| "freq ISWAP_R = RANDOMX_FREQ_ISWAP_R"
| "freq FSWAP_R = RANDOMX_FREQ_FSWAP_R"
| "freq FADD_R = RANDOMX_FREQ_FADD_R"
| "freq FADD_M = RANDOMX_FREQ_FADD_M"
| "freq FSUB_R = RANDOMX_FREQ_FSUB_R"
| "freq FSUB_M = RANDOMX_FREQ_FSUB_M"
| "freq FSCAL_R = RANDOMX_FREQ_FSCAL_R"
| "freq FMUL_R = RANDOMX_FREQ_FMUL_R"
| "freq FDIV_M = RANDOMX_FREQ_FDIV_M"
| "freq FSQRT_R = RANDOMX_FREQ_FSQRT_R"
| "freq CBRANCH = RANDOMX_FREQ_CBRANCH"
| "freq CFROUND = RANDOMX_FREQ_CFROUND"
| "freq ISTORE = RANDOMX_FREQ_ISTORE"
| "freq NOP = RANDOMX_FREQ_NOP"

definition all_types :: "InstructionType list" where
  "all_types = [IADD_RS, IADD_M, ISUB_R, ISUB_M, IMUL_R, IMUL_M, IMULH_R, IMULH_M, ISMULH_R, ISMULH_M,
    IMUL_RCP, INEG_R, IXOR_R, IXOR_M, IROR_R, IROL_R, ISWAP_R, FSWAP_R, FADD_R, FADD_M,
    FSUB_R, FSUB_M, FSCAL_R, FMUL_R, FDIV_M, FSQRT_R, CBRANCH, CFROUND, ISTORE, NOP]"

definition inst_table :: "(InstructionType \<Rightarrow> 'a) \<Rightarrow> 'a list" where
  "inst_table f = concat (map (\<lambda>t. replicate (freq t) (f t)) all_types)"

text \<open>The chain of comparisons with the opcode ceilings.\<close>

definition type_of_opcode :: "nat \<Rightarrow> InstructionType option" where
  "type_of_opcode op =
    (if op < ceil_IADD_RS then Some IADD_RS
     else if op < ceil_IADD_M then Some IADD_M
     else if op < ceil_ISUB_R then Some ISUB_R
     else if op < ceil_ISUB_M then Some ISUB_M
     else if op < ceil_IMUL_R then Some IMUL_R
     else if op < ceil_IMUL_M then Some IMUL_M
     else if op < ceil_IMULH_R then Some IMULH_R
     else if op < ceil_IMULH_M then Some IMULH_M
     else if op < ceil_ISMULH_R then Some ISMULH_R
     else if op < ceil_ISMULH_M then Some ISMULH_M
     else if op < ceil_IMUL_RCP then Some IMUL_RCP
     else if op < ceil_INEG_R then Some INEG_R
     else if op < ceil_IXOR_R then Some IXOR_R
     else if op < ceil_IXOR_M then Some IXOR_M
     else if op < ceil_IROR_R then Some IROR_R
     else if op < ceil_IROL_R then Some IROL_R
     else if op < ceil_ISWAP_R then Some ISWAP_R
     else if op < ceil_FSWAP_R then Some FSWAP_R
     else if op < ceil_FADD_R then Some FADD_R
     else if op < ceil_FADD_M then Some FADD_M
     else if op < ceil_FSUB_R then Some FSUB_R
     else if op < ceil_FSUB_M then Some FSUB_M
     else if op < ceil_FSCAL_R then Some FSCAL_R
     else if op < ceil_FMUL_R then Some FMUL_R
     else if op < ceil_FDIV_M then Some FDIV_M
     else if op < ceil_FSQRT_R then Some FSQRT_R
     else if op < ceil_CBRANCH then Some CBRANCH
     else if op < ceil_CFROUND then Some CFROUND
     else if op < ceil_ISTORE then Some ISTORE
     else if op < ceil_NOP then Some NOP
     else None)"

lemma all_types_complete: "t \<in> set all_types"
  by (cases t) (simp_all add: all_types_def)

lemma length_inst_table: "length (inst_table f) = 256"
  by (simp add: inst_table_def all_types_def config)

text \<open>
  The table and the chain select the same instruction: the table entry of an opcode is the
  entry of the type that the ceilings give it.
\<close>

definition ceil_prefix :: "InstructionType list \<Rightarrow> nat" where
  "ceil_prefix ts = sum_list (map freq ts)"

lemma nth_concat_replicate:
  assumes "k < sum_list (map freq ts)"
  shows "concat (map (\<lambda>t. replicate (freq t) (f t)) ts) ! k = f (concat (map (\<lambda>t. replicate (freq t) t) ts) ! k)"
  using assms by (induction ts arbitrary: k) (auto simp: nth_append)

fun select_type :: "InstructionType list \<Rightarrow> nat \<Rightarrow> nat \<Rightarrow> InstructionType option" where
  "select_type [] base op = None"
| "select_type (t # ts) base op =
     (if op < base + freq t then Some t else select_type ts (base + freq t) op)"

lemma select_type_table:
  "base \<le> op \<Longrightarrow> op < base + sum_list (map freq ts) \<Longrightarrow>
   select_type ts base op = Some (concat (map (\<lambda>t. replicate (freq t) t) ts) ! (op - base))"
proof (induction ts arbitrary: base)
  case Nil
  then show ?case by simp
next
  case (Cons t ts)
  show ?case
  proof (cases "op < base + freq t")
    case True
    then show ?thesis using Cons.prems(1) by (simp add: nth_append less_diff_conv2)
  next
    case False
    then show ?thesis using Cons.IH [of "base + freq t"] Cons.prems
      by (simp add: nth_append not_less less_diff_conv2)
  qed
qed

lemma type_of_opcode_select: "type_of_opcode op = select_type all_types 0 op"
  by (simp add: type_of_opcode_def all_types_def config)

lemma inst_table_type: "op < 256 \<Longrightarrow> Some (inst_table f ! op) = map_option f (type_of_opcode op)"
proof -
  assume op: "op < 256"
  have s: "sum_list (map freq all_types) = 256" by (simp add: all_types_def config)
  have "select_type all_types 0 op = Some (concat (map (\<lambda>t. replicate (freq t) t) all_types) ! op)"
    using op s select_type_table [of 0 op all_types] by simp
  then show ?thesis
    using op s nth_concat_replicate [of op all_types f]
    by (simp only: type_of_opcode_select inst_table_def option.map)
qed

lemma type_of_opcode_total: "op < 256 \<Longrightarrow> \<exists>t. type_of_opcode op = Some t"
  using inst_table_type [of op id] by (metis map_option_eq_Some)

section \<open>Formatted output\<close>

definition endl :: string where "endl = [CHR 0x0A]"

fun show_digits :: "nat \<Rightarrow> nat \<Rightarrow> string" where
  "show_digits 0 n = []"
| "show_digits (Suc k) n =
     (if n < 10 then [char_of (48 + n)] else show_digits k (n div 10) @ [char_of (48 + n mod 10)])"

text \<open>Twenty digits hold every 64-bit value.\<close>

definition show_nat :: "nat \<Rightarrow> string" where "show_nat n = show_digits 20 n"

definition show_int :: "int \<Rightarrow> string" where
  "show_int x = (if x < 0 then ''-'' @ show_nat (nat (- x)) else show_nat (nat x))"

text \<open>With \<^verbatim>\<open>std::showpos\<close>.\<close>

definition show_int_pos :: "int \<Rightarrow> string" where
  "show_int_pos x = (if x < 0 then show_int x else ''+'' @ show_int x)"

text \<open>\<^verbatim>\<open>(int32_t)getImm32()\<close>.\<close>

definition simm32 :: "Instruction \<Rightarrow> int" where "simm32 i = sint (getImm32 i)"

text \<open>Reading a decimal number back: the printed form determines the number.\<close>

definition read_nat :: "string \<Rightarrow> nat" where
  "read_nat s = foldl (\<lambda>a c. 10 * a + (of_char c - 48)) 0 s"

lemma read_show_digits: "n < 10 ^ Suc k \<Longrightarrow> read_nat (show_digits (Suc k) n) = n"
proof (induction k arbitrary: n)
  case 0
  then show ?case by (simp add: read_nat_def of_char_of)
next
  case (Suc k)
  show ?case
  proof (cases "n < 10")
    case True
    then show ?thesis by (simp add: read_nat_def of_char_of)
  next
    case False
    have "n div 10 < 10 ^ Suc k" using Suc.prems by (simp add: less_mult_imp_div_less mult.commute)
    then have "read_nat (show_digits (Suc k) (n div 10)) = n div 10" by (rule Suc.IH)
    then show ?thesis using False
      by (simp add: read_nat_def of_char_of del: show_digits.simps(2)) (simp add: read_nat_def of_char_of)
  qed
qed

lemma read_show_nat: "n < 10 ^ 20 \<Longrightarrow> read_nat (show_nat n) = n"
  using read_show_digits [of n 19] by (simp add: show_nat_def)

section \<open>Disassembler\<close>

definition genAddressReg :: "Instruction \<Rightarrow> nat \<Rightarrow> string" where
  "genAddressReg i srcIndex =
     (if getModMem i \<noteq> 0 then ''L1'' else ''L2'') @ ''[r'' @ show_nat srcIndex @ show_int_pos (simm32 i) @ '']''"

definition genAddressRegDst :: "Instruction \<Rightarrow> nat \<Rightarrow> string" where
  "genAddressRegDst i dstIndex =
     (if getModCond i < StoreL3Condition then (if getModMem i \<noteq> 0 then ''L1'' else ''L2'') else ''L3'')
     @ ''[r'' @ show_nat dstIndex @ show_int_pos (simm32 i) @ '']''"

definition genAddressImm :: "Instruction \<Rightarrow> string" where
  "genAddressImm i = ''L3'' @ ''['' @ show_nat (unat (getImm32 i AND ScratchpadL3Mask)) @ '']''"

definition h_IADD_RS :: "Instruction \<Rightarrow> string" where
  "h_IADD_RS i = ''r'' @ show_nat (dst_int i) @ '', r'' @ show_nat (src_int i)
     @ (if dst_int i = RegisterNeedsDisplacement then '', '' @ show_int (simm32 i) else [])
     @ '', SHFT '' @ show_nat (getModShift i) @ endl"
definition h_IADD_M :: "Instruction \<Rightarrow> string" where
  "h_IADD_M i = (if dst_int i \<noteq> src_int i
     then ''r'' @ show_nat (dst_int i) @ '', '' @ genAddressReg i (src_int i) @ endl
     else ''r'' @ show_nat (dst_int i) @ '', '' @ genAddressImm i @ endl)"
definition h_ISUB_R :: "Instruction \<Rightarrow> string" where
  "h_ISUB_R i = (if dst_int i \<noteq> src_int i
     then ''r'' @ show_nat (dst_int i) @ '', r'' @ show_nat (src_int i) @ endl
     else ''r'' @ show_nat (dst_int i) @ '', '' @ show_int (simm32 i) @ endl)"
definition h_ISUB_M :: "Instruction \<Rightarrow> string" where
  "h_ISUB_M i = (if dst_int i \<noteq> src_int i
     then ''r'' @ show_nat (dst_int i) @ '', '' @ genAddressReg i (src_int i) @ endl
     else ''r'' @ show_nat (dst_int i) @ '', '' @ genAddressImm i @ endl)"
definition h_IMUL_R :: "Instruction \<Rightarrow> string" where
  "h_IMUL_R i = (if dst_int i \<noteq> src_int i
     then ''r'' @ show_nat (dst_int i) @ '', r'' @ show_nat (src_int i) @ endl
     else ''r'' @ show_nat (dst_int i) @ '', '' @ show_int (simm32 i) @ endl)"
definition h_IMUL_M :: "Instruction \<Rightarrow> string" where
  "h_IMUL_M i = (if dst_int i \<noteq> src_int i
     then ''r'' @ show_nat (dst_int i) @ '', '' @ genAddressReg i (src_int i) @ endl
     else ''r'' @ show_nat (dst_int i) @ '', '' @ genAddressImm i @ endl)"
definition h_IMULH_R :: "Instruction \<Rightarrow> string" where
  "h_IMULH_R i = ''r'' @ show_nat (dst_int i) @ '', r'' @ show_nat (src_int i) @ endl"
definition h_IMULH_M :: "Instruction \<Rightarrow> string" where
  "h_IMULH_M i = (if dst_int i \<noteq> src_int i
     then ''r'' @ show_nat (dst_int i) @ '', '' @ genAddressReg i (src_int i) @ endl
     else ''r'' @ show_nat (dst_int i) @ '', '' @ genAddressImm i @ endl)"
definition h_ISMULH_R :: "Instruction \<Rightarrow> string" where
  "h_ISMULH_R i = ''r'' @ show_nat (dst_int i) @ '', r'' @ show_nat (src_int i) @ endl"
definition h_ISMULH_M :: "Instruction \<Rightarrow> string" where
  "h_ISMULH_M i = (if dst_int i \<noteq> src_int i
     then ''r'' @ show_nat (dst_int i) @ '', '' @ genAddressReg i (src_int i) @ endl
     else ''r'' @ show_nat (dst_int i) @ '', '' @ genAddressImm i @ endl)"
definition h_INEG_R :: "Instruction \<Rightarrow> string" where
  "h_INEG_R i = ''r'' @ show_nat (dst_int i) @ endl"
definition h_IXOR_R :: "Instruction \<Rightarrow> string" where
  "h_IXOR_R i = (if dst_int i \<noteq> src_int i
     then ''r'' @ show_nat (dst_int i) @ '', r'' @ show_nat (src_int i) @ endl
     else ''r'' @ show_nat (dst_int i) @ '', '' @ show_int (simm32 i) @ endl)"
definition h_IXOR_M :: "Instruction \<Rightarrow> string" where
  "h_IXOR_M i = (if dst_int i \<noteq> src_int i
     then ''r'' @ show_nat (dst_int i) @ '', '' @ genAddressReg i (src_int i) @ endl
     else ''r'' @ show_nat (dst_int i) @ '', '' @ genAddressImm i @ endl)"
definition h_IROR_R :: "Instruction \<Rightarrow> string" where
  "h_IROR_R i = (if dst_int i \<noteq> src_int i
     then ''r'' @ show_nat (dst_int i) @ '', r'' @ show_nat (src_int i) @ endl
     else ''r'' @ show_nat (dst_int i) @ '', '' @ show_nat (unat (getImm32 i AND 63)) @ endl)"
definition h_IROL_R :: "Instruction \<Rightarrow> string" where
  "h_IROL_R i = (if dst_int i \<noteq> src_int i
     then ''r'' @ show_nat (dst_int i) @ '', r'' @ show_nat (src_int i) @ endl
     else ''r'' @ show_nat (dst_int i) @ '', '' @ show_nat (unat (getImm32 i AND 63)) @ endl)"
definition h_IMUL_RCP :: "Instruction \<Rightarrow> string" where
  "h_IMUL_RCP i = ''r'' @ show_nat (dst_int i) @ '', '' @ show_nat (unat (getImm32 i)) @ endl"
definition h_ISWAP_R :: "Instruction \<Rightarrow> string" where
  "h_ISWAP_R i = ''r'' @ show_nat (dst_int i) @ '', r'' @ show_nat (src_int i) @ endl"
definition h_FSWAP_R :: "Instruction \<Rightarrow> string" where
  "h_FSWAP_R i = (if dst_int i \<ge> RegisterCountFlt then ''e'' else ''f'') @ show_nat (dst_int i mod RegisterCountFlt) @ endl"
definition h_FADD_R :: "Instruction \<Rightarrow> string" where
  "h_FADD_R i = ''f'' @ show_nat (dst_flt i) @ '', a'' @ show_nat (src_flt i) @ endl"
definition h_FADD_M :: "Instruction \<Rightarrow> string" where
  "h_FADD_M i = ''f'' @ show_nat (dst_flt i) @ '', '' @ genAddressReg i (src_int i) @ endl"
definition h_FSUB_R :: "Instruction \<Rightarrow> string" where
  "h_FSUB_R i = ''f'' @ show_nat (dst_flt i) @ '', a'' @ show_nat (src_flt i) @ endl"
definition h_FSUB_M :: "Instruction \<Rightarrow> string" where
  "h_FSUB_M i = ''f'' @ show_nat (dst_flt i) @ '', '' @ genAddressReg i (src_int i) @ endl"
definition h_FSCAL_R :: "Instruction \<Rightarrow> string" where
  "h_FSCAL_R i = ''f'' @ show_nat (dst_flt i) @ endl"
definition h_FMUL_R :: "Instruction \<Rightarrow> string" where
  "h_FMUL_R i = ''e'' @ show_nat (dst_flt i) @ '', a'' @ show_nat (src_flt i) @ endl"
definition h_FDIV_M :: "Instruction \<Rightarrow> string" where
  "h_FDIV_M i = ''e'' @ show_nat (dst_flt i) @ '', '' @ genAddressReg i (src_int i) @ endl"
definition h_FSQRT_R :: "Instruction \<Rightarrow> string" where
  "h_FSQRT_R i = ''e'' @ show_nat (dst_flt i) @ endl"
definition h_CFROUND :: "Instruction \<Rightarrow> string" where
  "h_CFROUND i = ''r'' @ show_nat (src_int i) @ '', '' @ show_nat (unat (getImm32 i AND 63)) @ endl"
definition h_CBRANCH :: "Instruction \<Rightarrow> string" where
  "h_CBRANCH i = ''r'' @ show_nat (dst_int i) @ '', '' @ show_int (simm32 i) @ '', COND '' @ show_nat (getModCond i) @ endl"
definition h_ISTORE :: "Instruction \<Rightarrow> string" where
  "h_ISTORE i = genAddressRegDst i (dst_int i) @ '', r'' @ show_nat (src_int i) @ endl"
definition h_NOP :: "Instruction \<Rightarrow> string" where
  "h_NOP i = endl"

fun type_name :: "InstructionType \<Rightarrow> string" where
  "type_name IADD_RS = ''IADD_RS''"
| "type_name IADD_M = ''IADD_M''"
| "type_name ISUB_R = ''ISUB_R''"
| "type_name ISUB_M = ''ISUB_M''"
| "type_name IMUL_R = ''IMUL_R''"
| "type_name IMUL_M = ''IMUL_M''"
| "type_name IMULH_R = ''IMULH_R''"
| "type_name IMULH_M = ''IMULH_M''"
| "type_name ISMULH_R = ''ISMULH_R''"
| "type_name ISMULH_M = ''ISMULH_M''"
| "type_name IMUL_RCP = ''IMUL_RCP''"
| "type_name INEG_R = ''INEG_R''"
| "type_name IXOR_R = ''IXOR_R''"
| "type_name IXOR_M = ''IXOR_M''"
| "type_name IROR_R = ''IROR_R''"
| "type_name IROL_R = ''IROL_R''"
| "type_name ISWAP_R = ''ISWAP_R''"
| "type_name FSWAP_R = ''FSWAP_R''"
| "type_name FADD_R = ''FADD_R''"
| "type_name FADD_M = ''FADD_M''"
| "type_name FSUB_R = ''FSUB_R''"
| "type_name FSUB_M = ''FSUB_M''"
| "type_name FSCAL_R = ''FSCAL_R''"
| "type_name FMUL_R = ''FMUL_R''"
| "type_name FDIV_M = ''FDIV_M''"
| "type_name FSQRT_R = ''FSQRT_R''"
| "type_name CBRANCH = ''CBRANCH''"
| "type_name CFROUND = ''CFROUND''"
| "type_name ISTORE = ''ISTORE''"
| "type_name NOP = ''NOP''"

fun type_handler :: "InstructionType \<Rightarrow> Instruction \<Rightarrow> string" where
  "type_handler IADD_RS = h_IADD_RS"
| "type_handler IADD_M = h_IADD_M"
| "type_handler ISUB_R = h_ISUB_R"
| "type_handler ISUB_M = h_ISUB_M"
| "type_handler IMUL_R = h_IMUL_R"
| "type_handler IMUL_M = h_IMUL_M"
| "type_handler IMULH_R = h_IMULH_R"
| "type_handler IMULH_M = h_IMULH_M"
| "type_handler ISMULH_R = h_ISMULH_R"
| "type_handler ISMULH_M = h_ISMULH_M"
| "type_handler IMUL_RCP = h_IMUL_RCP"
| "type_handler INEG_R = h_INEG_R"
| "type_handler IXOR_R = h_IXOR_R"
| "type_handler IXOR_M = h_IXOR_M"
| "type_handler IROR_R = h_IROR_R"
| "type_handler IROL_R = h_IROL_R"
| "type_handler ISWAP_R = h_ISWAP_R"
| "type_handler FSWAP_R = h_FSWAP_R"
| "type_handler FADD_R = h_FADD_R"
| "type_handler FADD_M = h_FADD_M"
| "type_handler FSUB_R = h_FSUB_R"
| "type_handler FSUB_M = h_FSUB_M"
| "type_handler FSCAL_R = h_FSCAL_R"
| "type_handler FMUL_R = h_FMUL_R"
| "type_handler FDIV_M = h_FDIV_M"
| "type_handler FSQRT_R = h_FSQRT_R"
| "type_handler CBRANCH = h_CBRANCH"
| "type_handler CFROUND = h_CFROUND"
| "type_handler ISTORE = h_ISTORE"
| "type_handler NOP = h_NOP"

definition names :: "string list" where "names = inst_table type_name"
definition engine :: "(Instruction \<Rightarrow> string) list" where "engine = inst_table type_handler"

definition getName :: "Instruction \<Rightarrow> string" where
  "getName i = names ! unat (i_opcode i)"

definition print :: "Instruction \<Rightarrow> string" where
  "print i = names ! unat (i_opcode i) @ '' '' @ (engine ! unat (i_opcode i)) i"

lemma print_decode:
  "\<exists>t. type_of_opcode (unat (i_opcode i)) = Some t \<and> print i = type_name t @ '' '' @ type_handler t i"
proof -
  have op: "unat (i_opcode i) < 256" by simp
  obtain t where t: "type_of_opcode (unat (i_opcode i)) = Some t" using type_of_opcode_total [OF op] by blast
  then show ?thesis using inst_table_type [OF op, of type_name] inst_table_type [OF op, of type_handler]
    by (simp add: print_def names_def engine_def)
qed

end
