(* ===== verification/Portable_Arith.thy ===== *)
theory Portable_Arith
  imports Config
begin

text \<open>
  The integer helpers of the virtual machine: 64-bit high multiplication and rotation
  (\<^verbatim>\<open>instructions_portable.cpp\<close>, the \<^verbatim>\<open>__int128\<close> branch and the portable
  branch), and the division-free reciprocal (\<^verbatim>\<open>reciprocal.c\<close>). The lemmas show that both
  branches agree, what each computes as a number, and that rotations are inverse.
\<close>

section \<open>High multiplication\<close>

definition LO :: "u64 \<Rightarrow> u64" where "LO x = x AND 0xffffffff"
definition HI :: "u64 \<Rightarrow> u64" where "HI x = drop_bit 32 x"

text \<open>The branch with \<^verbatim>\<open>__int128\<close>.\<close>

definition mulh :: "u64 \<Rightarrow> u64 \<Rightarrow> u64" where
  "mulh a b = ucast (drop_bit 64 (ucast a * ucast b :: 128 word))"

definition smulh :: "u64 \<Rightarrow> u64 \<Rightarrow> u64" where
  "smulh a b = ucast (signed_drop_bit 64 (scast a * scast b :: 128 word))"

text \<open>The portable branch.\<close>

definition mulh_portable :: "u64 \<Rightarrow> u64 \<Rightarrow> u64" where
  "mulh_portable a b =
    (let ah = HI a; al = LO a; bh = HI b; bl = LO b;
         x00 = al * bl; x01 = al * bh; x10 = ah * bl; x11 = ah * bh;
         m1 = LO x10 + LO x01 + HI x00;
         m2 = HI x10 + HI x01 + LO x11 + HI m1;
         m3 = HI x11 + HI m2
     in push_bit 32 m3 + LO m2)"

definition smulh_portable :: "u64 \<Rightarrow> u64 \<Rightarrow> u64" where
  "smulh_portable a b =
    (let hi = mulh_portable a b;
         hi1 = (if sint a < 0 then hi - b else hi)
     in if sint b < 0 then hi1 - a else hi1)"

lemma unat_mulh: "unat (mulh a b) = unat a * unat b div 2 ^ 64"
proof -
  have lt: "unat a * unat b < 2 ^ 128"
    using mult_strict_mono' [of "unat a" "2 ^ 64" "unat b" "2 ^ 64"] by simp
  have "unat (ucast a * ucast b :: 128 word) = unat a * unat b"
  proof -
    have "take_bit 128 (unat x) = unat x" for x :: u64
      by (rule take_bit_nat_eq_self) (rule less_trans [OF unat_u64_less], simp)
    then show ?thesis using lt by (simp add: unat_word_ariths unsigned_ucast_eq)
  qed
  then have "unat (drop_bit 64 (ucast a * ucast b :: 128 word)) = unat a * unat b div 2 ^ 64"
    by (simp add: unat_eq_drop_bit_div del: drop_bit_eq_div)
  moreover have "unat a * unat b div 2 ^ 64 < 2 ^ 64" using lt by (simp add: less_mult_imp_div_less)
  ultimately show ?thesis
    by (simp add: mulh_def unsigned_ucast_eq take_bit_nat_eq_self)
qed

lemma unat_HI: "unat (HI x) = unat x div 2 ^ 32"
  by (simp only: HI_def unat_eq_drop_bit_div)

lemma unat_LO: "unat (LO x) = unat x mod 2 ^ 32"
proof -
  have "(0xffffffff :: u64) = mask 32" by (simp add: mask_eq_decr_exp)
  then show ?thesis by (simp only: LO_def unat_and_mask)
qed

lemma unat_add_u64: "unat x + unat y < 18446744073709551616 \<Longrightarrow> unat (x + y) = unat x + unat (y::u64)"
  by (simp add: unat_word_ariths)

lemma unat_push_add:
  "unat (push_bit 32 (x + y) + z) = ((unat x + unat y) * 2 ^ 32 + unat z) mod 2 ^ 64" for x y z :: u64
  by (simp add: push_bit_eq_mult unat_word_ariths mod_simps)

text \<open>Schoolbook multiplication in 32-bit digits, on natural numbers.\<close>

lemma high_mult_digits:
  fixes a b B :: nat
  assumes B: "B > 0"
  defines "ah \<equiv> a div B" and "al \<equiv> a mod B" and "bh \<equiv> b div B" and "bl \<equiv> b mod B"
  defines "m1 \<equiv> ah * bl mod B + al * bh mod B + al * bl div B"
  defines "m2 \<equiv> ah * bl div B + al * bh div B + ah * bh mod B + m1 div B"
  shows "(ah * bh div B + m2 div B) * B + m2 mod B = a * b div (B * B)"
proof -
  have a: "a = ah * B + al" and b: "b = bh * B + bl"
    by (simp_all add: ah_def al_def bh_def bl_def)
  have "(ah * bh div B + m2 div B) * B + m2 mod B = ah * bh div B * B + m2"
    by (simp add: algebra_simps)
  also have "\<dots> = ah * bh + ah * bl div B + al * bh div B + m1 div B"
    by (simp add: m2_def)
  also have "\<dots> = (ah * bh * B + ah * bl + al * bh + al * bl div B) div B"
  proof -
    have "ah * bh * B + ah * bl + al * bh + al * bl div B =
      m1 + (ah * bh + ah * bl div B + al * bh div B) * B"
      using div_mult_mod_eq [of "ah * bl" B] div_mult_mod_eq [of "al * bh" B]
      by (simp add: m1_def algebra_simps)
    then show ?thesis using B by simp
  qed
  also have "\<dots> = ((ah * bh * B + ah * bl + al * bh) * B + al * bl) div B div B"
    using B by (simp add: div_mult_self3 add.commute)
  also have "(ah * bh * B + ah * bl + al * bh) * B + al * bl = (ah * B + al) * (bh * B + bl)"
    by (simp add: algebra_simps)
  also have "\<dots> = a * b" by (simp only: a [symmetric] b [symmetric])
  finally show ?thesis by (simp add: div_mult2_eq)
qed

lemma unat_mulh_portable: "unat (mulh_portable a b) = unat a * unat b div 2 ^ 64"
proof -
  let ?B = "2 ^ 32 :: nat"
  let ?ah = "unat a div ?B" and ?al = "unat a mod ?B" and ?bh = "unat b div ?B" and ?bl = "unat b mod ?B"
  have lt: "?ah < ?B" "?al < ?B" "?bh < ?B" "?bl < ?B"
    by (simp_all add: less_mult_imp_div_less)
  have pr: "x * y \<le> (?B - 1) * (?B - 1)" if "x < ?B" "y < ?B" for x y
    using that by (intro mult_le_mono) auto
  have mul: "unat (x * y) = unat x * unat y" if "unat x < ?B" "unat y < ?B" for x y :: u64
    using pr [OF that] by (simp add: unat_word_ariths)
  define X where "X = unat (HI a * LO b)"
  define Y where "Y = unat (LO a * HI b)"
  define Z where "Z = unat (LO a * LO b)"
  define W where "W = unat (HI a * HI b)"
  have x: "X = ?ah * ?bl" "Y = ?al * ?bh" "Z = ?al * ?bl" "W = ?ah * ?bh"
    using lt by (simp_all add: X_def Y_def Z_def W_def mul unat_HI unat_LO)
  have bd: "X \<le> (?B - 1) * (?B - 1)" "Y \<le> (?B - 1) * (?B - 1)" "Z \<le> (?B - 1) * (?B - 1)" "W \<le> (?B - 1) * (?B - 1)"
    unfolding x by (rule pr; fact lt)+
  have dv: "V div ?B \<le> ?B - 2" if "V \<le> (?B - 1) * (?B - 1)" for V
  proof -
    have "V div ?B \<le> (?B - 1) * (?B - 1) div ?B" using that by (rule div_le_mono)
    then show ?thesis by simp
  qed
  have md: "V mod ?B \<le> ?B - 1" for V using mod_less_divisor [of ?B V] by simp
  define M1 where "M1 = LO (HI a * LO b) + LO (LO a * HI b) + HI (LO a * LO b)"
  have m1: "unat M1 = X mod ?B + Y mod ?B + Z div ?B"
    using md [of X] md [of Y] dv [OF bd(3)]
    by (simp add: M1_def unat_add_u64 unat_LO unat_HI X_def [symmetric] Y_def [symmetric] Z_def [symmetric])
  define M2 where "M2 = HI (HI a * LO b) + HI (LO a * HI b) + LO (HI a * HI b) + HI M1"
  have m1b: "unat M1 div ?B \<le> 2"
    using md [of X] md [of Y] dv [OF bd(3)] by (simp add: m1)
  have m2: "unat M2 = X div ?B + Y div ?B + W mod ?B + unat M1 div ?B"
    using md [of W] dv [OF bd(1)] dv [OF bd(2)] m1b
    by (simp add: M2_def unat_add_u64 unat_LO unat_HI X_def [symmetric] Y_def [symmetric] W_def [symmetric])
  have m2b: "unat M2 div ?B \<le> 3"
    using md [of W] dv [OF bd(1)] dv [OF bd(2)] m1b by (simp add: m2)
  have fin: "(W div ?B + unat M2 div ?B) * ?B + unat M2 mod ?B = unat a * unat b div (?B * ?B)"
    unfolding m2 m1 x by (rule high_mult_digits) simp
  have "unat a * unat b div (?B * ?B) < 2 ^ 64"
  proof -
    have "unat a * unat b < 2 ^ 64 * 2 ^ 64"
      by (rule mult_strict_mono') simp_all
    then show ?thesis by (simp add: less_mult_imp_div_less)
  qed
  then have lt64: "(W div ?B + unat M2 div ?B) * ?B + unat M2 mod ?B < 2 ^ 64" unfolding fin .
  have "unat (push_bit 32 (HI (HI a * HI b) + HI M2) + LO M2)
    = ((W div ?B + unat M2 div ?B) * ?B + unat M2 mod ?B) mod 2 ^ 64"
    by (simp only: unat_push_add unat_LO unat_HI W_def)
  then have "unat (push_bit 32 (HI (HI a * HI b) + HI M2) + LO M2) = unat a * unat b div (?B * ?B)"
    using lt64 fin by simp
  then show ?thesis by (simp add: mulh_portable_def Let_def M1_def M2_def)
qed

lemma mulh_portable_eq: "mulh_portable a b = mulh a b"
  by (rule unsigned_word_eqI [where 'a = nat]) (simp only: unat_mulh_portable unat_mulh)

text \<open>The signed product: both branches give the high half of the exact product.\<close>

lemma smulh_eq_word_of_int: "smulh a b = word_of_int (sint a * sint b div 2 ^ 64)"
proof -
  let ?p = "scast a * scast b :: 128 word"
  have p: "?p = word_of_int (sint a * sint b)"
    by simp
  have "smulh a b = ucast (drop_bit 64 ?p)"
    unfolding smulh_def
    by (rule bit_word_eqI) (simp add: bit_ucast_iff bit_signed_drop_bit_iff bit_drop_bit_eq)
  also have "\<dots> = word_of_int (uint ?p div 2 ^ 64)"
  proof -
    have "uint (drop_bit 64 ?p) = uint ?p div 2 ^ 64"
      by (simp only: uint_nat unat_eq_drop_bit_div) (simp add: zdiv_int)
    then show ?thesis by (metis of_int_uint)
  qed
  finally have "smulh a b = word_of_int (uint ?p div 2 ^ 64)" .
  moreover have "uint ?p = (sint a * sint b) mod 2 ^ 128"
    by (simp only: p uint_word_of_int) simp
  moreover have "word_of_int ((x mod 2 ^ 128) div 2 ^ 64) = (word_of_int (x div 2 ^ 64) :: u64)" for x :: int
  proof -
    have "(x mod 2 ^ 128) div 2 ^ 64 = (x div 2 ^ 64) mod 2 ^ 64"
      by (simp add: zmod_zmult2_eq [of "2 ^ 64" x "2 ^ 64", simplified])
    then show ?thesis
      by (simp only: word_of_int_eq_iff take_bit_eq_mod) simp
  qed
  ultimately show ?thesis by simp
qed

lemma uint_eq_sint: "uint (a::u64) = (if sint a < 0 then sint a + 2 ^ 64 else sint a)"
proof -
  have "- (2 ^ 63) \<le> sint a" "sint a < 2 ^ 63" using sint_range_size [of a] by (simp_all add: word_size)
  moreover have "uint a = sint a mod 2 ^ 64" by (simp add: uint_sint take_bit_eq_mod)
  moreover have "sint a mod 2 ^ 64 = sint a + 2 ^ 64" if "sint a < 0"
  proof -
    have "(sint a + 2 ^ 64) mod 2 ^ 64 = sint a + 2 ^ 64"
      using calculation(1) that by (intro mod_pos_pos_trivial) simp_all
    then show ?thesis by simp
  qed
  ultimately show ?thesis by simp
qed

lemma mulh_eq_word_of_int: "mulh a b = word_of_int (uint a * uint b div 2 ^ 64)"
proof -
  have "int (unat (mulh a b)) = uint a * uint b div 2 ^ 64"
    by (simp only: unat_mulh) (simp add: zdiv_int)
  then show ?thesis by (metis of_int_uint uint_nat word_of_int_uint)
qed

lemma smulh_portable_eq: "smulh_portable a b = smulh a b"
proof -
  let ?M = "2 ^ 64 :: int"
  have one: "word_of_int ((x * y + ?M * z) div ?M) = (word_of_int (x * y div ?M) + word_of_int z :: u64)" for x y z
    by (simp add: div_mult_self2 add.commute)
  have prod: "(sint a + ?M) * (sint b + ?M) = sint a * sint b + ?M * (sint a + sint b + ?M)"
    "(sint a + ?M) * sint b = sint a * sint b + ?M * sint b"
    "sint a * (sint b + ?M) = sint a * sint b + ?M * sint a"
    by (simp_all add: algebra_simps)
  show ?thesis
    unfolding smulh_portable_def mulh_portable_eq mulh_eq_word_of_int smulh_eq_word_of_int uint_eq_sint Let_def
    by (cases "sint a < 0"; cases "sint b < 0") (simp_all only: if_True if_False prod one, simp_all)
qed

section \<open>Rotation\<close>

text \<open>
  \<^verbatim>\<open>(a >> b) | (a << (-b & 63))\<close>. The callers pass a count below 64: shifting a
  64-bit value by more is undefined in C++.
\<close>

definition rotr :: "u64 \<Rightarrow> u32 \<Rightarrow> u64" where
  "rotr a b = drop_bit (unat b) a OR push_bit (unat (- b AND 63)) a"

definition rotl :: "u64 \<Rightarrow> u32 \<Rightarrow> u64" where
  "rotl a b = push_bit (unat b) a OR drop_bit (unat (- b AND 63)) a"

lemma unat_neg_and_63: "unat b < 64 \<Longrightarrow> unat (- b AND 63 :: u32) = (if b = 0 then 0 else 64 - unat b)"
proof -
  assume b: "unat b < 64"
  have "(63 :: u32) = mask 6" by (simp add: mask_eq_decr_exp)
  then have "unat (- b AND 63 :: u32) = unat (- b) mod 64"
    by (simp only: unat_and_mask) simp
  moreover have "unat (- b) = (if b = 0 then 0 else 2 ^ 32 - unat b)"
    using unat_sub_if' [of 0 b] by (auto simp: unat_eq_zero)
  moreover have "(2 ^ 32 - unat b) mod 64 = 64 - unat b" if "b \<noteq> 0"
  proof -
    have "0 < unat b" using that by (simp add: unat_gt_0)
    have "2 ^ 32 - unat b = (64 - unat b) + 64 * (2 ^ 26 - 1)" using b by simp
    then show ?thesis using \<open>0 < unat b\<close> by (simp only: mod_mult_self2) simp
  qed
  ultimately show ?thesis by simp
qed

lemma rotr_eq_word_rotr:
  assumes "unat b < 64"
  shows "rotr a b = word_rotr (unat b) a"
proof (rule bit_word_eqI)
  fix n assume n: "n < LENGTH(64)"
  show "bit (rotr a b) n = bit (word_rotr (unat b) a) n"
  proof (cases "n + unat b < 64")
    case True
    then show ?thesis using n assms bit_imp_le_length [of a]
      by (auto simp: rotr_def bit_or_iff bit_drop_bit_eq bit_push_bit_iff bit_word_rotr_iff
          unat_neg_and_63 add.commute)
  next
    case False
    then have m: "(n + unat b) mod 64 = n + unat b - 64"
      using n assms by (simp add: mod_if)
    have "b \<noteq> 0" using False n by auto
    then show ?thesis using False n assms m bit_imp_le_length [of a "unat b + n"]
      by (auto simp: rotr_def bit_or_iff bit_drop_bit_eq bit_push_bit_iff bit_word_rotr_iff
          unat_neg_and_63)
  qed
qed

lemma rotl_eq_word_rotl:
  assumes "unat b < 64"
  shows "rotl a b = word_rotl (unat b) a"
proof (rule bit_word_eqI)
  fix n assume n: "n < LENGTH(64)"
  have mb: "unat b mod 64 = unat b" using assms by simp
  show "bit (rotl a b) n = bit (word_rotl (unat b) a) n"
  proof (cases "n < unat b")
    case True
    then have m: "(n + (64 - unat b)) mod 64 = n + (64 - unat b)" using assms by simp
    have "b \<noteq> 0" using True by auto
    moreover have "64 - unat b + n = n + (64 - unat b)" by simp
    ultimately show ?thesis using True n assms m mb
      by (simp add: rotl_def bit_or_iff bit_drop_bit_eq bit_push_bit_iff bit_word_rotl_iff
          unat_neg_and_63 del: add_diff_assoc add_diff_assoc2 diff_add_assoc diff_add_assoc2)
         (simp only: add.commute)
  next
    case False
    then have m: "(n + (64 - unat b)) mod 64 = n - unat b"
      using n assms by (simp add: mod_if)
    show ?thesis using False n assms m mb bit_imp_le_length [of a "64 - unat b + n"]
      by (auto simp: rotl_def bit_or_iff bit_drop_bit_eq bit_push_bit_iff bit_word_rotl_iff
          unat_neg_and_63)
  qed
qed

lemma rotl_rotr_inverse: "unat b < 64 \<Longrightarrow> rotl (rotr a b) b = a"
  by (simp add: rotr_eq_word_rotr rotl_eq_word_rotl)

section \<open>Reciprocal\<close>

text \<open>
  \<^verbatim>\<open>64 - __builtin_clzll(divisor)\<close> is the bit length of the divisor; the other
  branch of the \<^verbatim>\<open>#ifdef\<close> counts down from 32 while the tested bit is clear.
\<close>

definition clz64 :: "u64 \<Rightarrow> nat" where
  "clz64 x = length (takeWhile (\<lambda>i. \<not> bit x (63 - i)) [0..<64])"

function shift_loop :: "u32 \<Rightarrow> u32 \<Rightarrow> nat \<Rightarrow> nat" where
  "shift_loop d k shift =
     (if k = 0 then shift else if k AND d = 0 then shift_loop d (drop_bit 1 k) (shift - 1) else shift)"
  by pat_completeness auto
termination
proof (relation "measure (\<lambda>(d, k, shift). unat k)")
  fix d k :: u32 and shift :: nat
  assume "k \<noteq> 0"
  then have "0 < unat k" by (simp add: unat_gt_0)
  moreover have "unat (drop_bit 1 k) = unat k div 2" by (subst unat_eq_drop_bit_div) simp
  ultimately show "((d, drop_bit 1 k, shift - 1), d, k, shift) \<in> measure (\<lambda>(d, k, shift). unat k)"
    by simp
qed simp

declare shift_loop.simps [simp del]

definition reciprocal_with_shift :: "nat \<Rightarrow> u32 \<Rightarrow> u64" where
  "reciprocal_with_shift shift divisor =
    (let p2exp63 = push_bit 63 (1::u64);
         q = p2exp63 div ucast divisor;
         r = p2exp63 mod ucast divisor
     in push_bit shift q + push_bit shift r div ucast divisor)"

definition randomx_reciprocal :: "u32 \<Rightarrow> u64" where
  "randomx_reciprocal divisor = reciprocal_with_shift (64 - clz64 (ucast divisor)) divisor"

definition randomx_reciprocal_loop :: "u32 \<Rightarrow> u64" where
  "randomx_reciprocal_loop divisor = reciprocal_with_shift (shift_loop divisor (push_bit 31 1) 32) divisor"

definition randomx_reciprocal_fast :: "u32 \<Rightarrow> u64" where
  "randomx_reciprocal_fast divisor = randomx_reciprocal divisor"

text \<open>The number of significant bits, which both branches compute.\<close>

definition bitlen_of :: "nat \<Rightarrow> nat \<Rightarrow> bool" where
  "bitlen_of n d \<longleftrightarrow> 2 ^ (n - 1) \<le> d \<and> d < 2 ^ n \<and> 0 < n"

lemma bitlen_of_unique: "bitlen_of n d \<Longrightarrow> bitlen_of m d \<Longrightarrow> n = m"
proof (rule ccontr)
  assume a: "bitlen_of n d" "bitlen_of m d" "n \<noteq> m"
  then consider "n \<le> m - 1" | "m \<le> n - 1" unfolding bitlen_of_def by linarith
  then show False
  proof cases
    case 1
    then have "(2::nat) ^ n \<le> 2 ^ (m - 1)" by (simp add: power_increasing)
    with a show False unfolding bitlen_of_def by linarith
  next
    case 2
    then have "(2::nat) ^ m \<le> 2 ^ (n - 1)" by (simp add: power_increasing)
    with a show False unfolding bitlen_of_def by linarith
  qed
qed

lemma unat_top_bit:
  fixes x :: "'a::len word"
  assumes "bit x k" "\<And>i. k < i \<Longrightarrow> \<not> bit x i"
  shows "2 ^ k \<le> unat x \<and> unat x < 2 ^ Suc k"
proof -
  have "x = take_bit (Suc k) x"
    by (rule bit_word_eqI) (use assms(2) in \<open>auto simp: bit_take_bit_iff dest: not_less_eq [THEN iffD1]\<close>)
  then have "unat x = unat x mod 2 ^ Suc k"
    by (metis take_bit_eq_mod unsigned_take_bit_eq)
  then have "unat x < 2 ^ Suc k" by (metis mod_less_divisor zero_less_numeral zero_less_power)
  moreover have "unat x div 2 ^ k \<noteq> 0"
    using assms(1) unfolding bit_iff_odd_unat by (metis even_zero)
  then have "2 ^ k \<le> unat x" by (simp add: div_eq_0_iff not_less)
  ultimately show ?thesis by simp
qed

lemma bitlen_of_clz64: "x \<noteq> 0 \<Longrightarrow> bitlen_of (64 - clz64 x) (unat x)"
proof -
  assume "x \<noteq> 0"
  define n where "n = clz64 x"
  have tw: "\<forall>i < n. \<not> bit x (63 - i)" "n \<le> 64"
    unfolding n_def clz64_def
    using nth_length_takeWhile set_takeWhileD
    by (metis (no_types, lifting) length_takeWhile_le length_upt diff_zero nth_mem takeWhile_nth nth_upt add_0 order_less_le_trans)
       (metis length_takeWhile_le length_upt diff_zero)
  have "n < 64"
  proof (rule ccontr)
    assume "\<not> n < 64"
    then have "\<not> bit x j" if "j < 64" for j using tw(1) [rule_format, of "63 - j"] that by simp
    then have "x = 0" by (intro bit_word_eqI) simp
    with \<open>x \<noteq> 0\<close> show False by simp
  qed
  then have "bit x (63 - n)"
    using nth_length_takeWhile [of "\<lambda>i. \<not> bit x (63 - i)" "[0..<64]"] by (simp add: n_def clz64_def)
  moreover have "\<not> bit x i" if "63 - n < i" for i
  proof (cases "i < 64")
    case True
    then show ?thesis using tw(1) [rule_format, of "63 - i"] that by simp
  next
    case False
    then show ?thesis using bit_imp_le_length [of x i] by auto
  qed
  ultimately have "2 ^ (63 - n) \<le> unat x \<and> unat x < 2 ^ Suc (63 - n)" by (rule unat_top_bit)
  with \<open>n < 64\<close> show ?thesis by (simp add: bitlen_of_def n_def [symmetric] Suc_diff_le [symmetric])
qed

lemma shift_loop_bitlen:
  assumes "d \<noteq> 0" "s \<le> 32" "0 < s" "\<And>i. s \<le> i \<Longrightarrow> \<not> bit d i"
  shows "bitlen_of (shift_loop d (push_bit (s - 1) 1) s) (unat d)"
  using assms
proof (induction s)
  case 0
  then show ?case by simp
next
  case (Suc s)
  let ?k = "push_bit s 1 :: u32"
  have kb: "bit ?k i \<longleftrightarrow> i = s" for i
    using Suc.prems(2) by (simp add: push_bit_of_1 bit_exp_iff possible_bit_def) auto
  have k0: "?k \<noteq> 0" using kb [of s] by (metis bit_0_eq bot_apply bot_bool_def)
  have test: "?k AND d = 0 \<longleftrightarrow> \<not> bit d s"
  proof
    assume "?k AND d = 0"
    then have "\<not> bit (?k AND d) s" by simp
    then show "\<not> bit d s" using kb [of s] by (simp add: bit_and_iff)
  next
    assume "\<not> bit d s"
    then show "?k AND d = 0"
      by (intro bit_word_eqI) (simp only: bit_and_iff kb bit_0_eq, auto)
  qed
  show ?case
  proof (cases "bit d s")
    case True
    then have "shift_loop d ?k (Suc s) = Suc s" using k0 test by (subst shift_loop.simps) simp
    moreover have "2 ^ s \<le> unat d \<and> unat d < 2 ^ Suc s"
      using True Suc.prems(4) by (intro unat_top_bit) (simp_all add: Suc_le_eq)
    ultimately show ?thesis by (simp add: bitlen_of_def)
  next
    case False
    have s0: "0 < s"
    proof (rule ccontr)
      assume "\<not> 0 < s"
      then have "\<not> bit d i" for i using False Suc.prems(4) [of i] by (cases i) auto
      then have "d = 0" by (intro bit_word_eqI) simp
      with Suc.prems(1) show False by simp
    qed
    have dr: "drop_bit 1 ?k = push_bit (s - 1) 1"
      by (rule bit_word_eqI) (use s0 Suc.prems(2) in \<open>auto simp: bit_drop_bit_eq bit_exp_iff\<close>)
    have "shift_loop d ?k (Suc s) = shift_loop d (push_bit (s - 1) 1) s"
      using k0 test False by (subst shift_loop.simps) (simp only: if_False if_True dr diff_Suc_1 simp_thms)
    moreover have "\<not> bit d i" if "s \<le> i" for i
      using False Suc.prems(4) [of i] that by (cases "i = s") auto
    ultimately show ?thesis using Suc.IH [OF Suc.prems(1) _ s0] Suc.prems(2) by simp
  qed
qed

lemma randomx_reciprocal_loop_eq: "d \<noteq> 0 \<Longrightarrow> randomx_reciprocal_loop d = randomx_reciprocal d"
proof -
  assume d: "d \<noteq> 0"
  have "bitlen_of (shift_loop d (push_bit (32 - 1) 1) 32) (unat d)"
    using d by (intro shift_loop_bitlen) (auto dest: bit_imp_le_length)
  moreover have "unat (ucast d :: u64) = unat d"
    by (simp add: unsigned_ucast_eq take_bit_nat_eq_self less_trans [OF unat_u32_less])
  then have "bitlen_of (64 - clz64 (ucast d)) (unat d)"
    using bitlen_of_clz64 [of "ucast d"] d by (metis unat_eq_zero unat_0)
  ultimately have "shift_loop d (push_bit (32 - 1) 1) 32 = 64 - clz64 (ucast d)"
    by (rule bitlen_of_unique)
  then show ?thesis by (simp add: randomx_reciprocal_loop_def randomx_reciprocal_def)
qed

lemma bit_top_iff: "2 ^ k \<le> unat x \<Longrightarrow> unat x < 2 ^ Suc k \<Longrightarrow> bit (x::'a::len word) k"
proof -
  assume "2 ^ k \<le> unat x" "unat x < 2 ^ Suc k"
  then have "unat x div 2 ^ k = 1" by (intro div_nat_eqI) simp_all
  then show "bit x k" by (simp add: bit_iff_odd_unat)
qed

lemma isZeroOrPowerOf2_iff:
  "isZeroOrPowerOf2 x \<longleftrightarrow> x = 0 \<or> (\<exists>k. unat x = 2 ^ k)"
proof (cases "x = 0")
  case True
  then show ?thesis by (simp add: isZeroOrPowerOf2_def)
next
  case False
  then obtain n where n: "2 ^ n \<le> unat x" "unat x < 2 ^ Suc n"
    using bitlen_of_clz64 [of x] by (metis bitlen_of_def Suc_pred')
  have m1: "unat (x - 1) = unat x - 1" using False by (simp add: unat_minus_one)
  show ?thesis
  proof (cases "unat x = 2 ^ n")
    case True
    have "n < 64"
      using True power_less_imp_less_exp [of 2 n 64] unat_u64_less [of x] by simp
    have "x = of_nat (unat x)" by simp
    also have "\<dots> = push_bit n 1" by (simp only: True push_bit_of_1) simp
    finally have "x = push_bit n 1" .
    then have "x AND (x - 1) = push_bit n 1 AND mask n"
      by (simp add: mask_eq_decr_exp push_bit_of_1)
    also have "\<dots> = 0"
      by (rule bit_word_eqI) (simp only: bit_and_iff bit_push_bit_iff bit_mask_iff bit_0_eq, simp)
    finally show ?thesis using True by (auto simp: isZeroOrPowerOf2_def)
  next
    case neq: False
    then have "bit (x - 1) n" using n m1 by (intro bit_top_iff) simp_all
    moreover have "bit x n" using n by (rule bit_top_iff)
    ultimately have "bit (x AND (x - 1)) n" by (simp add: bit_and_iff)
    then have "\<not> isZeroOrPowerOf2 x" by (auto simp: isZeroOrPowerOf2_def)
    moreover have "unat x \<noteq> 2 ^ k" for k
    proof
      assume "unat x = 2 ^ k"
      with n have "(2::nat) ^ n \<le> 2 ^ k" "(2::nat) ^ k < 2 ^ Suc n" by simp_all
      then have "n \<le> k" "k < Suc n" by (simp_all only: power_increasing_iff power_strict_increasing_iff one_less_numeral_iff semiring_norm)
      then show False using neq \<open>unat x = 2 ^ k\<close> by simp
    qed
    ultimately show ?thesis using False by blast
  qed
qed

lemma reciprocal_exact:
  assumes "\<not> isZeroOrPowerOf2 (ucast d)"
  defines "n \<equiv> 64 - clz64 (ucast d)"
  shows "unat (randomx_reciprocal d) = 2 ^ (63 + n) div unat d"
    and "2 ^ 63 \<le> unat (randomx_reciprocal d)"
    and "2 ^ (63 + n) div unat d < 2 ^ 64"
proof -
  let ?d = "unat d" and ?x = "ucast d :: u64"
  have ux: "unat ?x = ?d"
    by (simp add: unsigned_ucast_eq take_bit_nat_eq_self less_trans [OF unat_u32_less])
  have np: "?x \<noteq> 0" "\<And>k. ?d \<noteq> 2 ^ k"
    using assms(1) by (auto simp: isZeroOrPowerOf2_iff ux)
  have bl: "2 ^ (n - 1) < ?d" "?d < 2 ^ n" "0 < n"
    using bitlen_of_clz64 [OF np(1)] np(2) [of "n - 1"] by (auto simp: bitlen_of_def ux n_def)
  have d32: "?d < 2 ^ 32" by simp
  have n32: "n \<le> 32"
  proof (rule ccontr)
    assume "\<not> n \<le> 32"
    then have "(2::nat) ^ 32 \<le> 2 ^ (n - 1)" by (intro power_increasing) simp_all
    with bl(1) d32 show False by linarith
  qed
  have two_n: "2 ^ n < 2 * ?d" using bl(1,3) by (cases n) simp_all
  define q where "q = 2 ^ 63 div ?d"
  define r where "r = 2 ^ 63 mod ?d"
  have qr: "q * ?d + r = 2 ^ 63" "r < ?d" using bl by (simp_all add: q_def r_def)
  have e1: "2 ^ (63 + n) = q * 2 ^ n * ?d + r * 2 ^ n"
  proof -
    have "2 ^ (63 + n) = (q * ?d + r) * 2 ^ n" by (simp only: power_add qr(1))
    then show ?thesis by (simp add: algebra_simps)
  qed
  have q64: "q * 2 ^ n < 2 ^ 64"
  proof -
    have "0 < q" using d32 bl by (simp add: q_def div_greater_zero_iff del: unat_u32_less)
    then have "q * 2 ^ n < q * (2 * ?d)" using two_n by simp
    also have "\<dots> \<le> 2 * 2 ^ 63" using qr by (simp add: algebra_simps)
    finally show ?thesis by simp
  qed
  have r64: "r * 2 ^ n < 2 ^ 64"
  proof -
    have "r < 2 ^ 32" using qr(2) d32 by linarith
    moreover have "(2::nat) ^ n \<le> 2 ^ 32" using n32 by (rule power_increasing) simp
    ultimately have "r * 2 ^ n < 2 ^ 32 * 2 ^ 32" by (intro mult_less_le_imp_less) simp_all
    then show ?thesis by simp
  qed
  have val: "q * 2 ^ n + r * 2 ^ n div ?d = 2 ^ (63 + n) div ?d"
    unfolding e1 using bl by (simp add: add.commute)
  have lt: "2 ^ (63 + n) div ?d < 2 ^ 64"
  proof -
    have "2 ^ (63 + n) < 2 ^ 64 * ?d" using two_n by (simp add: power_add)
    then show ?thesis by (simp add: less_mult_imp_div_less)
  qed
  have p63: "unat (push_bit 63 1 :: u64) = 2 ^ 63" by simp
  have uq: "unat (push_bit n (push_bit 63 1 div ?x)) = q * 2 ^ n"
    using q64 unfolding q_def by (simp only: unat_push_bit unat_div_distrib p63 ux) simp
  have ur: "unat (push_bit n (push_bit 63 1 mod ?x)) = r * 2 ^ n"
    using r64 unfolding r_def by (simp only: unat_push_bit unat_mod_distrib p63 ux) simp
  have "unat (randomx_reciprocal d) = (q * 2 ^ n + r * 2 ^ n div ?d) mod 2 ^ 64"
    unfolding randomx_reciprocal_def reciprocal_with_shift_def Let_def n_def [symmetric]
    by (simp only: unat_word_ariths(1) unat_div_distrib uq ur ux) simp
  then show m: "unat (randomx_reciprocal d) = 2 ^ (63 + n) div ?d"
    using lt by (simp add: val)
  show "2 ^ (63 + n) div ?d < 2 ^ 64" by (rule lt)
  have "2 ^ 63 * ?d \<le> 2 ^ (63 + n)" using bl(2) by (simp add: power_add)
  then show "2 ^ 63 \<le> unat (randomx_reciprocal d)"
    unfolding m using bl by (simp add: less_eq_div_iff_mult_less_eq)
qed

end
