(* ===== verification/Bytecode.thy ===== *)
theory Bytecode
  imports Instr Portable_Arith "HOL-Library.Monad_Syntax"
begin

text \<open>
  The bytecode machine (\<^verbatim>\<open>bytecode_machine.hpp\<close>, \<^verbatim>\<open>bytecode_machine.cpp\<close>): the
  compiler from instruction words to bytecode, with its register usage table, and the
  interpreter.

  Pointers into the register file are register references. The two unions of operand
  pointers are sums, the union of the branch target and the shift is one 16-bit field that
  both read. Undefined behaviour (\<^verbatim>\<open>UNREACHABLE\<close>, an operand pointer of the wrong kind)
  is the result \<open>None\<close>; that compiled code never reaches it is proved in
  \<open>Bytecode_Facts\<close>.

  A vector register is the pair of its two 64-bit lanes, low lane first. The floating-point
  unit is not under \<^verbatim>\<open>src/\<close> (its operations are the SIMD intrinsics that
  \<^verbatim>\<open>intrin_portable.h\<close> names): the record \<open>fpu\<close> is a parameter of every definition
  that computes with it, one operation per intrinsic, each given the rounding mode in force.
\<close>

section \<open>State\<close>

type_synonym vec128 = "u64 \<times> u64"

record fpu =
  fp_add :: "u32 \<Rightarrow> u64 \<Rightarrow> u64 \<Rightarrow> u64"
  fp_sub :: "u32 \<Rightarrow> u64 \<Rightarrow> u64 \<Rightarrow> u64"
  fp_mul :: "u32 \<Rightarrow> u64 \<Rightarrow> u64 \<Rightarrow> u64"
  fp_div :: "u32 \<Rightarrow> u64 \<Rightarrow> u64 \<Rightarrow> u64"
  fp_sqrt :: "u32 \<Rightarrow> u64 \<Rightarrow> u64"
  fp_of_int32 :: "u32 \<Rightarrow> u64"

record ProgramConfiguration =
  eMask0 :: u64
  eMask1 :: u64
  readReg0 :: nat
  readReg1 :: nat
  readReg2 :: nat
  readReg3 :: nat

datatype dst_ref = DstR nat | DstF nat | DstE nat
datatype src_ref = SrcR nat | SrcZero | SrcImm | SrcA nat

record InstructionByteCode =
  bc_dst :: dst_ref
  bc_src :: src_ref
  bc_imm :: u64
  bc_type :: InstructionType
  bc_target_shift :: u16
  bc_memMask :: u32

text \<open>\<^verbatim>\<open>NativeRegisterFile\<close>, the scratchpad and the rounding mode.\<close>

record bstate =
  b_r :: "nat \<Rightarrow> u64"
  b_f :: "nat \<Rightarrow> vec128"
  b_e :: "nat \<Rightarrow> vec128"
  b_a :: "nat \<Rightarrow> vec128"
  b_mem :: mem
  b_rm :: u32

type_synonym usage = "nat \<Rightarrow> int"

section \<open>Compilation\<close>

definition beginCompilation :: usage where
  "beginCompilation = (\<lambda>_. -1)"

definition setTarget :: "int \<Rightarrow> InstructionByteCode \<Rightarrow> InstructionByteCode" where
  "setTarget t b = b\<lparr>bc_target_shift := word_of_int t\<rparr>"

definition setShift :: "nat \<Rightarrow> InstructionByteCode \<Rightarrow> InstructionByteCode" where
  "setShift s b = b\<lparr>bc_target_shift := of_nat s\<rparr>"

definition target :: "InstructionByteCode \<Rightarrow> int" where "target b = sint (bc_target_shift b)"
definition shift :: "InstructionByteCode \<Rightarrow> nat" where "shift b = unat (bc_target_shift b)"

text \<open>\<^verbatim>\<open>instr.getModMem() ? ScratchpadL1Mask : ScratchpadL2Mask\<close>.\<close>

definition modMemMask :: "Instruction \<Rightarrow> u32" where
  "modMemMask i = (if getModMem i \<noteq> 0 then ScratchpadL1Mask else ScratchpadL2Mask)"

definition gen_IADD_RS :: "Instruction \<Rightarrow> nat \<Rightarrow> InstructionByteCode \<Rightarrow> usage \<Rightarrow> InstructionByteCode \<times> usage" where
  "gen_IADD_RS instr i ibc u =
    (let dst = dst_int instr; src = src_int instr;
         b1 = ibc\<lparr>bc_type := IADD_RS, bc_dst := DstR dst\<rparr>;
         b2 = (if dst \<noteq> RegisterNeedsDisplacement
               then (setShift (getModShift instr) (b1\<lparr>bc_src := SrcR src\<rparr>))\<lparr>bc_imm := 0\<rparr>
               else (setShift (getModShift instr) (b1\<lparr>bc_src := SrcR src\<rparr>))
                      \<lparr>bc_imm := signExtend2sCompl (getImm32 instr)\<rparr>)
     in (b2, u(dst := int i)))"

definition gen_IADD_M :: "Instruction \<Rightarrow> nat \<Rightarrow> InstructionByteCode \<Rightarrow> usage \<Rightarrow> InstructionByteCode \<times> usage" where
  "gen_IADD_M instr i ibc u =
    (let dst = dst_int instr; src = src_int instr;
         b1 = ibc\<lparr>bc_type := IADD_M, bc_dst := DstR dst, bc_imm := signExtend2sCompl (getImm32 instr)\<rparr>;
         b2 = (if src \<noteq> dst then b1\<lparr>bc_src := SrcR src, bc_memMask := modMemMask instr\<rparr>
               else b1\<lparr>bc_src := SrcZero, bc_memMask := ScratchpadL3Mask\<rparr>)
     in (b2, u(dst := int i)))"

definition gen_ISUB_R :: "Instruction \<Rightarrow> nat \<Rightarrow> InstructionByteCode \<Rightarrow> usage \<Rightarrow> InstructionByteCode \<times> usage" where
  "gen_ISUB_R instr i ibc u =
    (let dst = dst_int instr; src = src_int instr;
         b1 = ibc\<lparr>bc_type := ISUB_R, bc_dst := DstR dst\<rparr>;
         b2 = (if src \<noteq> dst then b1\<lparr>bc_src := SrcR src\<rparr>
               else b1\<lparr>bc_imm := signExtend2sCompl (getImm32 instr), bc_src := SrcImm\<rparr>)
     in (b2, u(dst := int i)))"

definition gen_ISUB_M :: "Instruction \<Rightarrow> nat \<Rightarrow> InstructionByteCode \<Rightarrow> usage \<Rightarrow> InstructionByteCode \<times> usage" where
  "gen_ISUB_M instr i ibc u =
    (let dst = dst_int instr; src = src_int instr;
         b1 = ibc\<lparr>bc_type := ISUB_M, bc_dst := DstR dst, bc_imm := signExtend2sCompl (getImm32 instr)\<rparr>;
         b2 = (if src \<noteq> dst then b1\<lparr>bc_src := SrcR src, bc_memMask := modMemMask instr\<rparr>
               else b1\<lparr>bc_src := SrcZero, bc_memMask := ScratchpadL3Mask\<rparr>)
     in (b2, u(dst := int i)))"

definition gen_IMUL_R :: "Instruction \<Rightarrow> nat \<Rightarrow> InstructionByteCode \<Rightarrow> usage \<Rightarrow> InstructionByteCode \<times> usage" where
  "gen_IMUL_R instr i ibc u =
    (let dst = dst_int instr; src = src_int instr;
         b1 = ibc\<lparr>bc_type := IMUL_R, bc_dst := DstR dst\<rparr>;
         b2 = (if src \<noteq> dst then b1\<lparr>bc_src := SrcR src\<rparr>
               else b1\<lparr>bc_imm := signExtend2sCompl (getImm32 instr), bc_src := SrcImm\<rparr>)
     in (b2, u(dst := int i)))"

definition gen_IMUL_M :: "Instruction \<Rightarrow> nat \<Rightarrow> InstructionByteCode \<Rightarrow> usage \<Rightarrow> InstructionByteCode \<times> usage" where
  "gen_IMUL_M instr i ibc u =
    (let dst = dst_int instr; src = src_int instr;
         b1 = ibc\<lparr>bc_type := IMUL_M, bc_dst := DstR dst, bc_imm := signExtend2sCompl (getImm32 instr)\<rparr>;
         b2 = (if src \<noteq> dst then b1\<lparr>bc_src := SrcR src, bc_memMask := modMemMask instr\<rparr>
               else b1\<lparr>bc_src := SrcZero, bc_memMask := ScratchpadL3Mask\<rparr>)
     in (b2, u(dst := int i)))"

definition gen_IMULH_R :: "Instruction \<Rightarrow> nat \<Rightarrow> InstructionByteCode \<Rightarrow> usage \<Rightarrow> InstructionByteCode \<times> usage" where
  "gen_IMULH_R instr i ibc u =
    (let dst = dst_int instr; src = src_int instr;
         b1 = ibc\<lparr>bc_type := IMULH_R, bc_dst := DstR dst, bc_src := SrcR src\<rparr>
     in (b1, u(dst := int i)))"

definition gen_IMULH_M :: "Instruction \<Rightarrow> nat \<Rightarrow> InstructionByteCode \<Rightarrow> usage \<Rightarrow> InstructionByteCode \<times> usage" where
  "gen_IMULH_M instr i ibc u =
    (let dst = dst_int instr; src = src_int instr;
         b1 = ibc\<lparr>bc_type := IMULH_M, bc_dst := DstR dst, bc_imm := signExtend2sCompl (getImm32 instr)\<rparr>;
         b2 = (if src \<noteq> dst then b1\<lparr>bc_src := SrcR src, bc_memMask := modMemMask instr\<rparr>
               else b1\<lparr>bc_src := SrcZero, bc_memMask := ScratchpadL3Mask\<rparr>)
     in (b2, u(dst := int i)))"

definition gen_ISMULH_R :: "Instruction \<Rightarrow> nat \<Rightarrow> InstructionByteCode \<Rightarrow> usage \<Rightarrow> InstructionByteCode \<times> usage" where
  "gen_ISMULH_R instr i ibc u =
    (let dst = dst_int instr; src = src_int instr;
         b1 = ibc\<lparr>bc_type := ISMULH_R, bc_dst := DstR dst, bc_src := SrcR src\<rparr>
     in (b1, u(dst := int i)))"

definition gen_ISMULH_M :: "Instruction \<Rightarrow> nat \<Rightarrow> InstructionByteCode \<Rightarrow> usage \<Rightarrow> InstructionByteCode \<times> usage" where
  "gen_ISMULH_M instr i ibc u =
    (let dst = dst_int instr; src = src_int instr;
         b1 = ibc\<lparr>bc_type := ISMULH_M, bc_dst := DstR dst, bc_imm := signExtend2sCompl (getImm32 instr)\<rparr>;
         b2 = (if src \<noteq> dst then b1\<lparr>bc_src := SrcR src, bc_memMask := modMemMask instr\<rparr>
               else b1\<lparr>bc_src := SrcZero, bc_memMask := ScratchpadL3Mask\<rparr>)
     in (b2, u(dst := int i)))"

definition gen_IMUL_RCP :: "Instruction \<Rightarrow> nat \<Rightarrow> InstructionByteCode \<Rightarrow> usage \<Rightarrow> InstructionByteCode \<times> usage" where
  "gen_IMUL_RCP instr i ibc u =
    (let divisor = getImm32 instr
     in if \<not> isZeroOrPowerOf2 (ucast divisor)
        then let dst = dst_int instr
             in (ibc\<lparr>bc_type := IMUL_R, bc_dst := DstR dst, bc_imm := randomx_reciprocal divisor,
                   bc_src := SrcImm\<rparr>, u(dst := int i))
        else (ibc\<lparr>bc_type := NOP\<rparr>, u))"

definition gen_INEG_R :: "Instruction \<Rightarrow> nat \<Rightarrow> InstructionByteCode \<Rightarrow> usage \<Rightarrow> InstructionByteCode \<times> usage" where
  "gen_INEG_R instr i ibc u =
    (let dst = dst_int instr
     in (ibc\<lparr>bc_type := INEG_R, bc_dst := DstR dst\<rparr>, u(dst := int i)))"

definition gen_IXOR_R :: "Instruction \<Rightarrow> nat \<Rightarrow> InstructionByteCode \<Rightarrow> usage \<Rightarrow> InstructionByteCode \<times> usage" where
  "gen_IXOR_R instr i ibc u =
    (let dst = dst_int instr; src = src_int instr;
         b1 = ibc\<lparr>bc_type := IXOR_R, bc_dst := DstR dst\<rparr>;
         b2 = (if src \<noteq> dst then b1\<lparr>bc_src := SrcR src\<rparr>
               else b1\<lparr>bc_imm := signExtend2sCompl (getImm32 instr), bc_src := SrcImm\<rparr>)
     in (b2, u(dst := int i)))"

definition gen_IXOR_M :: "Instruction \<Rightarrow> nat \<Rightarrow> InstructionByteCode \<Rightarrow> usage \<Rightarrow> InstructionByteCode \<times> usage" where
  "gen_IXOR_M instr i ibc u =
    (let dst = dst_int instr; src = src_int instr;
         b1 = ibc\<lparr>bc_type := IXOR_M, bc_dst := DstR dst, bc_imm := signExtend2sCompl (getImm32 instr)\<rparr>;
         b2 = (if src \<noteq> dst then b1\<lparr>bc_src := SrcR src, bc_memMask := modMemMask instr\<rparr>
               else b1\<lparr>bc_src := SrcZero, bc_memMask := ScratchpadL3Mask\<rparr>)
     in (b2, u(dst := int i)))"

definition gen_IROR_R :: "Instruction \<Rightarrow> nat \<Rightarrow> InstructionByteCode \<Rightarrow> usage \<Rightarrow> InstructionByteCode \<times> usage" where
  "gen_IROR_R instr i ibc u =
    (let dst = dst_int instr; src = src_int instr;
         b1 = ibc\<lparr>bc_type := IROR_R, bc_dst := DstR dst\<rparr>;
         b2 = (if src \<noteq> dst then b1\<lparr>bc_src := SrcR src\<rparr>
               else b1\<lparr>bc_imm := ucast (getImm32 instr), bc_src := SrcImm\<rparr>)
     in (b2, u(dst := int i)))"

definition gen_IROL_R :: "Instruction \<Rightarrow> nat \<Rightarrow> InstructionByteCode \<Rightarrow> usage \<Rightarrow> InstructionByteCode \<times> usage" where
  "gen_IROL_R instr i ibc u =
    (let dst = dst_int instr; src = src_int instr;
         b1 = ibc\<lparr>bc_type := IROL_R, bc_dst := DstR dst\<rparr>;
         b2 = (if src \<noteq> dst then b1\<lparr>bc_src := SrcR src\<rparr>
               else b1\<lparr>bc_imm := ucast (getImm32 instr), bc_src := SrcImm\<rparr>)
     in (b2, u(dst := int i)))"

definition gen_ISWAP_R :: "Instruction \<Rightarrow> nat \<Rightarrow> InstructionByteCode \<Rightarrow> usage \<Rightarrow> InstructionByteCode \<times> usage" where
  "gen_ISWAP_R instr i ibc u =
    (let dst = dst_int instr; src = src_int instr
     in if src \<noteq> dst
        then (ibc\<lparr>bc_dst := DstR dst, bc_src := SrcR src, bc_type := ISWAP_R\<rparr>,
              u(dst := int i, src := int i))
        else (ibc\<lparr>bc_type := NOP\<rparr>, u))"

definition gen_FSWAP_R :: "Instruction \<Rightarrow> nat \<Rightarrow> InstructionByteCode \<Rightarrow> usage \<Rightarrow> InstructionByteCode \<times> usage" where
  "gen_FSWAP_R instr i ibc u =
    (let dst = dst_int instr
     in if dst < RegisterCountFlt then (ibc\<lparr>bc_type := FSWAP_R, bc_dst := DstF dst\<rparr>, u)
        else (ibc\<lparr>bc_type := FSWAP_R, bc_dst := DstE (dst - RegisterCountFlt)\<rparr>, u))"

definition gen_FADD_R :: "Instruction \<Rightarrow> nat \<Rightarrow> InstructionByteCode \<Rightarrow> usage \<Rightarrow> InstructionByteCode \<times> usage" where
  "gen_FADD_R instr i ibc u =
    (let dst = dst_flt instr; src = src_flt instr
     in (ibc\<lparr>bc_type := FADD_R, bc_dst := DstF dst, bc_src := SrcA src\<rparr>, u))"

definition gen_FADD_M :: "Instruction \<Rightarrow> nat \<Rightarrow> InstructionByteCode \<Rightarrow> usage \<Rightarrow> InstructionByteCode \<times> usage" where
  "gen_FADD_M instr i ibc u =
    (let dst = dst_flt instr; src = src_int instr
     in (ibc\<lparr>bc_type := FADD_M, bc_dst := DstF dst, bc_src := SrcR src, bc_memMask := modMemMask instr,
           bc_imm := signExtend2sCompl (getImm32 instr)\<rparr>, u))"

definition gen_FSUB_R :: "Instruction \<Rightarrow> nat \<Rightarrow> InstructionByteCode \<Rightarrow> usage \<Rightarrow> InstructionByteCode \<times> usage" where
  "gen_FSUB_R instr i ibc u =
    (let dst = dst_flt instr; src = src_flt instr
     in (ibc\<lparr>bc_type := FSUB_R, bc_dst := DstF dst, bc_src := SrcA src\<rparr>, u))"

definition gen_FSUB_M :: "Instruction \<Rightarrow> nat \<Rightarrow> InstructionByteCode \<Rightarrow> usage \<Rightarrow> InstructionByteCode \<times> usage" where
  "gen_FSUB_M instr i ibc u =
    (let dst = dst_flt instr; src = src_int instr
     in (ibc\<lparr>bc_type := FSUB_M, bc_dst := DstF dst, bc_src := SrcR src, bc_memMask := modMemMask instr,
           bc_imm := signExtend2sCompl (getImm32 instr)\<rparr>, u))"

definition gen_FSCAL_R :: "Instruction \<Rightarrow> nat \<Rightarrow> InstructionByteCode \<Rightarrow> usage \<Rightarrow> InstructionByteCode \<times> usage" where
  "gen_FSCAL_R instr i ibc u =
    ((ibc\<lparr>bc_dst := DstF (dst_flt instr), bc_type := FSCAL_R\<rparr>, u))"

definition gen_FMUL_R :: "Instruction \<Rightarrow> nat \<Rightarrow> InstructionByteCode \<Rightarrow> usage \<Rightarrow> InstructionByteCode \<times> usage" where
  "gen_FMUL_R instr i ibc u =
    (let dst = dst_flt instr; src = src_flt instr
     in (ibc\<lparr>bc_type := FMUL_R, bc_dst := DstE dst, bc_src := SrcA src\<rparr>, u))"

definition gen_FDIV_M :: "Instruction \<Rightarrow> nat \<Rightarrow> InstructionByteCode \<Rightarrow> usage \<Rightarrow> InstructionByteCode \<times> usage" where
  "gen_FDIV_M instr i ibc u =
    (let dst = dst_flt instr; src = src_int instr
     in (ibc\<lparr>bc_type := FDIV_M, bc_dst := DstE dst, bc_src := SrcR src, bc_memMask := modMemMask instr,
           bc_imm := signExtend2sCompl (getImm32 instr)\<rparr>, u))"

definition gen_FSQRT_R :: "Instruction \<Rightarrow> nat \<Rightarrow> InstructionByteCode \<Rightarrow> usage \<Rightarrow> InstructionByteCode \<times> usage" where
  "gen_FSQRT_R instr i ibc u =
    ((ibc\<lparr>bc_type := FSQRT_R, bc_dst := DstE (dst_flt instr)\<rparr>, u))"

definition gen_CBRANCH :: "Instruction \<Rightarrow> nat \<Rightarrow> InstructionByteCode \<Rightarrow> usage \<Rightarrow> InstructionByteCode \<times> usage" where
  "gen_CBRANCH instr i ibc u =
    (let creg = dst_int instr;
         sh = getModCond instr + ConditionOffset;
         imm = signExtend2sCompl (getImm32 instr) OR push_bit sh 1;
         imm' = (if ConditionOffset > 0 \<or> sh > 0 then imm AND NOT (push_bit (sh - 1) 1) else imm);
         b1 = ibc\<lparr>bc_type := CBRANCH, bc_dst := DstR creg, bc_imm := imm',
                  bc_memMask := push_bit sh ConditionMask\<rparr>
     in (setTarget (u creg) b1, (\<lambda>j. if j < RegistersCount then int i else u j)))"

definition gen_CFROUND :: "Instruction \<Rightarrow> nat \<Rightarrow> InstructionByteCode \<Rightarrow> usage \<Rightarrow> InstructionByteCode \<times> usage" where
  "gen_CFROUND instr i ibc u =
    ((ibc\<lparr>bc_src := SrcR (src_int instr), bc_type := CFROUND, bc_imm := ucast (getImm32 instr AND 63)\<rparr>, u))"

definition gen_ISTORE :: "Instruction \<Rightarrow> nat \<Rightarrow> InstructionByteCode \<Rightarrow> usage \<Rightarrow> InstructionByteCode \<times> usage" where
  "gen_ISTORE instr i ibc u =
    ((ibc\<lparr>bc_type := ISTORE, bc_dst := DstR (dst_int instr), bc_src := SrcR (src_int instr),
          bc_imm := signExtend2sCompl (getImm32 instr),
          bc_memMask := (if getModCond instr < StoreL3Condition then modMemMask instr else ScratchpadL3Mask)\<rparr>, u))"

definition gen_NOP :: "Instruction \<Rightarrow> nat \<Rightarrow> InstructionByteCode \<Rightarrow> usage \<Rightarrow> InstructionByteCode \<times> usage" where
  "gen_NOP instr i ibc u =
    ((ibc\<lparr>bc_type := NOP\<rparr>, u))"

definition compileInstruction :: "Instruction \<Rightarrow> nat \<Rightarrow> InstructionByteCode \<Rightarrow> usage
    \<Rightarrow> (InstructionByteCode \<times> usage) option" where
  "compileInstruction instr i ibc u =
    (let opcode = unat (i_opcode instr)
     in if opcode < ceil_IADD_RS then Some (gen_IADD_RS instr i ibc u)
     else if opcode < ceil_IADD_M then Some (gen_IADD_M instr i ibc u)
     else if opcode < ceil_ISUB_R then Some (gen_ISUB_R instr i ibc u)
     else if opcode < ceil_ISUB_M then Some (gen_ISUB_M instr i ibc u)
     else if opcode < ceil_IMUL_R then Some (gen_IMUL_R instr i ibc u)
     else if opcode < ceil_IMUL_M then Some (gen_IMUL_M instr i ibc u)
     else if opcode < ceil_IMULH_R then Some (gen_IMULH_R instr i ibc u)
     else if opcode < ceil_IMULH_M then Some (gen_IMULH_M instr i ibc u)
     else if opcode < ceil_ISMULH_R then Some (gen_ISMULH_R instr i ibc u)
     else if opcode < ceil_ISMULH_M then Some (gen_ISMULH_M instr i ibc u)
     else if opcode < ceil_IMUL_RCP then Some (gen_IMUL_RCP instr i ibc u)
     else if opcode < ceil_INEG_R then Some (gen_INEG_R instr i ibc u)
     else if opcode < ceil_IXOR_R then Some (gen_IXOR_R instr i ibc u)
     else if opcode < ceil_IXOR_M then Some (gen_IXOR_M instr i ibc u)
     else if opcode < ceil_IROR_R then Some (gen_IROR_R instr i ibc u)
     else if opcode < ceil_IROL_R then Some (gen_IROL_R instr i ibc u)
     else if opcode < ceil_ISWAP_R then Some (gen_ISWAP_R instr i ibc u)
     else if opcode < ceil_FSWAP_R then Some (gen_FSWAP_R instr i ibc u)
     else if opcode < ceil_FADD_R then Some (gen_FADD_R instr i ibc u)
     else if opcode < ceil_FADD_M then Some (gen_FADD_M instr i ibc u)
     else if opcode < ceil_FSUB_R then Some (gen_FSUB_R instr i ibc u)
     else if opcode < ceil_FSUB_M then Some (gen_FSUB_M instr i ibc u)
     else if opcode < ceil_FSCAL_R then Some (gen_FSCAL_R instr i ibc u)
     else if opcode < ceil_FMUL_R then Some (gen_FMUL_R instr i ibc u)
     else if opcode < ceil_FDIV_M then Some (gen_FDIV_M instr i ibc u)
     else if opcode < ceil_FSQRT_R then Some (gen_FSQRT_R instr i ibc u)
     else if opcode < ceil_CBRANCH then Some (gen_CBRANCH instr i ibc u)
     else if opcode < ceil_CFROUND then Some (gen_CFROUND instr i ibc u)
     else if opcode < ceil_ISTORE then Some (gen_ISTORE instr i ibc u)
     else if opcode < ceil_NOP then Some (gen_NOP instr i ibc u)
     else None)"

text \<open>
  \<^verbatim>\<open>compileProgram\<close>: the loop over the first \<open>n\<close> instructions, on the bytecode
  array and the usage table; \<open>None\<close> once an instruction was not compiled.
\<close>

definition program_size :: "u32 \<Rightarrow> nat" where
  "program_size flags =
     (if has_flag flags RANDOMX_FLAG_V2 then RANDOMX_PROGRAM_SIZE_V2 else RANDOMX_PROGRAM_SIZE_V1)"

definition compile_step ::
  "Instruction list \<Rightarrow> nat \<Rightarrow> (InstructionByteCode list \<times> usage) option
     \<Rightarrow> (InstructionByteCode list \<times> usage) option" where
  "compile_step prog i s =
    do { (bc, u) \<leftarrow> s;
         (ibc, u') \<leftarrow> compileInstruction (prog ! i) i (bc ! i) u;
         Some (bc[i := ibc], u') }"

definition compileProgram ::
  "Instruction list \<Rightarrow> InstructionByteCode list \<Rightarrow> u32 \<Rightarrow> InstructionByteCode list option" where
  "compileProgram prog bytecode flags =
    map_option fst (for_range 0 (program_size flags) (compile_step prog) (Some (bytecode, beginCompilation)))"

section \<open>Execution\<close>

definition isrc_val :: "InstructionByteCode \<Rightarrow> bstate \<Rightarrow> u64 option" where
  "isrc_val ibc st = (case bc_src ibc of SrcR k \<Rightarrow> Some (b_r st k) | SrcZero \<Rightarrow> Some 0
      | SrcImm \<Rightarrow> Some (bc_imm ibc) | SrcA _ \<Rightarrow> None)"

definition fsrc_val :: "InstructionByteCode \<Rightarrow> bstate \<Rightarrow> vec128 option" where
  "fsrc_val ibc st = (case bc_src ibc of SrcA k \<Rightarrow> Some (b_a st k) | _ \<Rightarrow> None)"

definition idst_val :: "InstructionByteCode \<Rightarrow> bstate \<Rightarrow> u64 option" where
  "idst_val ibc st = (case bc_dst ibc of DstR k \<Rightarrow> Some (b_r st k) | _ \<Rightarrow> None)"

definition upd_idst :: "InstructionByteCode \<Rightarrow> (u64 \<Rightarrow> u64) \<Rightarrow> bstate \<Rightarrow> bstate option" where
  "upd_idst ibc g st = (case bc_dst ibc of
      DstR k \<Rightarrow> Some (st\<lparr>b_r := (b_r st)(k := g (b_r st k))\<rparr>) | _ \<Rightarrow> None)"

definition upd_fdst :: "InstructionByteCode \<Rightarrow> (vec128 \<Rightarrow> vec128) \<Rightarrow> bstate \<Rightarrow> bstate option" where
  "upd_fdst ibc g st = (case bc_dst ibc of DstR _ \<Rightarrow> None
      | DstF k \<Rightarrow> Some (st\<lparr>b_f := (b_f st)(k := g (b_f st k))\<rparr>)
      | DstE k \<Rightarrow> Some (st\<lparr>b_e := (b_e st)(k := g (b_e st k))\<rparr>))"

definition getScratchpadAddress :: "InstructionByteCode \<Rightarrow> bstate \<Rightarrow> nat option" where
  "getScratchpadAddress ibc st =
    do { s \<leftarrow> isrc_val ibc st; Some (unat (ucast ((s + bc_imm ibc) AND ucast (bc_memMask ibc)) :: u32)) }"

definition load_src :: "InstructionByteCode \<Rightarrow> bstate \<Rightarrow> u64 option" where
  "load_src ibc st = map_option (load64 (b_mem st)) (getScratchpadAddress ibc st)"

text \<open>The vector intrinsics: lane by lane, in the rounding mode in force.\<close>

definition lanes2 :: "(u64 \<Rightarrow> u64 \<Rightarrow> u64) \<Rightarrow> vec128 \<Rightarrow> vec128 \<Rightarrow> vec128" where
  "lanes2 g x y = (g (fst x) (fst y), g (snd x) (snd y))"

definition rx_swap_vec_f128 :: "vec128 \<Rightarrow> vec128" where "rx_swap_vec_f128 x = (snd x, fst x)"
definition rx_xor_vec_f128 :: "vec128 \<Rightarrow> vec128 \<Rightarrow> vec128" where "rx_xor_vec_f128 = lanes2 (XOR)"
definition rx_and_vec_f128 :: "vec128 \<Rightarrow> vec128 \<Rightarrow> vec128" where "rx_and_vec_f128 = lanes2 (AND)"
definition rx_or_vec_f128 :: "vec128 \<Rightarrow> vec128 \<Rightarrow> vec128" where "rx_or_vec_f128 = lanes2 (OR)"
definition rx_set1_vec_f128 :: "u64 \<Rightarrow> vec128" where "rx_set1_vec_f128 x = (x, x)"

definition rx_cvt_packed_int_vec_f128 :: "fpu \<Rightarrow> mem \<Rightarrow> nat \<Rightarrow> vec128" where
  "rx_cvt_packed_int_vec_f128 fp m a = (fp_of_int32 fp (load32 m a), fp_of_int32 fp (load32 m (a + 4)))"

definition maskRegisterExponentMantissa :: "ProgramConfiguration \<Rightarrow> vec128 \<Rightarrow> vec128" where
  "maskRegisterExponentMantissa cfg x =
    (let x1 = rx_and_vec_f128 x (dynamicMantissaMask, dynamicMantissaMask)
     in rx_or_vec_f128 x1 (eMask0 cfg, eMask1 cfg))"

definition cvt_src :: "fpu \<Rightarrow> InstructionByteCode \<Rightarrow> bstate \<Rightarrow> vec128 option" where
  "cvt_src fp ibc st = map_option (rx_cvt_packed_int_vec_f128 fp (b_mem st)) (getScratchpadAddress ibc st)"

definition exe_IADD_RS :: "InstructionByteCode \<Rightarrow> bstate \<Rightarrow> bstate option" where
  "exe_IADD_RS ibc st = do { s \<leftarrow> isrc_val ibc st; upd_idst ibc (\<lambda>d. d + (push_bit (shift ibc) s + bc_imm ibc)) st }"

definition exe_IADD_M :: "InstructionByteCode \<Rightarrow> bstate \<Rightarrow> bstate option" where
  "exe_IADD_M ibc st = do { s \<leftarrow> load_src ibc st; upd_idst ibc (\<lambda>d. d + s) st }"

definition exe_ISUB_R :: "InstructionByteCode \<Rightarrow> bstate \<Rightarrow> bstate option" where
  "exe_ISUB_R ibc st = do { s \<leftarrow> isrc_val ibc st; upd_idst ibc (\<lambda>d. d - s) st }"

definition exe_ISUB_M :: "InstructionByteCode \<Rightarrow> bstate \<Rightarrow> bstate option" where
  "exe_ISUB_M ibc st = do { s \<leftarrow> load_src ibc st; upd_idst ibc (\<lambda>d. d - s) st }"

definition exe_IMUL_R :: "InstructionByteCode \<Rightarrow> bstate \<Rightarrow> bstate option" where
  "exe_IMUL_R ibc st = do { s \<leftarrow> isrc_val ibc st; upd_idst ibc (\<lambda>d. d * s) st }"

definition exe_IMUL_M :: "InstructionByteCode \<Rightarrow> bstate \<Rightarrow> bstate option" where
  "exe_IMUL_M ibc st = do { s \<leftarrow> load_src ibc st; upd_idst ibc (\<lambda>d. d * s) st }"

definition exe_IMULH_R :: "InstructionByteCode \<Rightarrow> bstate \<Rightarrow> bstate option" where
  "exe_IMULH_R ibc st = do { s \<leftarrow> isrc_val ibc st; upd_idst ibc (\<lambda>d. mulh d s) st }"

definition exe_IMULH_M :: "InstructionByteCode \<Rightarrow> bstate \<Rightarrow> bstate option" where
  "exe_IMULH_M ibc st = do { s \<leftarrow> load_src ibc st; upd_idst ibc (\<lambda>d. mulh d s) st }"

definition exe_ISMULH_R :: "InstructionByteCode \<Rightarrow> bstate \<Rightarrow> bstate option" where
  "exe_ISMULH_R ibc st = do { s \<leftarrow> isrc_val ibc st; upd_idst ibc (\<lambda>d. smulh d s) st }"

definition exe_ISMULH_M :: "InstructionByteCode \<Rightarrow> bstate \<Rightarrow> bstate option" where
  "exe_ISMULH_M ibc st = do { s \<leftarrow> load_src ibc st; upd_idst ibc (\<lambda>d. smulh d s) st }"

definition exe_IXOR_R :: "InstructionByteCode \<Rightarrow> bstate \<Rightarrow> bstate option" where
  "exe_IXOR_R ibc st = do { s \<leftarrow> isrc_val ibc st; upd_idst ibc (\<lambda>d. d XOR s) st }"

definition exe_IXOR_M :: "InstructionByteCode \<Rightarrow> bstate \<Rightarrow> bstate option" where
  "exe_IXOR_M ibc st = do { s \<leftarrow> load_src ibc st; upd_idst ibc (\<lambda>d. d XOR s) st }"

definition exe_INEG_R :: "InstructionByteCode \<Rightarrow> bstate \<Rightarrow> bstate option" where
  "exe_INEG_R ibc st = upd_idst ibc (\<lambda>d. NOT d + 1) st"

definition exe_IROR_R :: "InstructionByteCode \<Rightarrow> bstate \<Rightarrow> bstate option" where
  "exe_IROR_R ibc st = do { s \<leftarrow> isrc_val ibc st; upd_idst ibc (\<lambda>d. rotr d (ucast (s AND 63))) st }"

definition exe_IROL_R :: "InstructionByteCode \<Rightarrow> bstate \<Rightarrow> bstate option" where
  "exe_IROL_R ibc st = do { s \<leftarrow> isrc_val ibc st; upd_idst ibc (\<lambda>d. rotl d (ucast (s AND 63))) st }"

definition exe_ISWAP_R :: "InstructionByteCode \<Rightarrow> bstate \<Rightarrow> bstate option" where
  "exe_ISWAP_R ibc st = (case (bc_dst ibc, bc_src ibc) of
      (DstR d, SrcR s) \<Rightarrow>
        let temp = b_r st s; st1 = st\<lparr>b_r := (b_r st)(s := b_r st d)\<rparr>
        in Some (st1\<lparr>b_r := (b_r st1)(d := temp)\<rparr>)
    | _ \<Rightarrow> None)"

definition exe_FSWAP_R :: "InstructionByteCode \<Rightarrow> bstate \<Rightarrow> bstate option" where
  "exe_FSWAP_R ibc st = upd_fdst ibc rx_swap_vec_f128 st"

definition exe_FADD_R :: "fpu \<Rightarrow> InstructionByteCode \<Rightarrow> bstate \<Rightarrow> bstate option" where
  "exe_FADD_R fp ibc st = do { s \<leftarrow> fsrc_val ibc st; upd_fdst ibc (\<lambda>d. lanes2 (fp_add fp (b_rm st)) d s) st }"

definition exe_FADD_M :: "fpu \<Rightarrow> InstructionByteCode \<Rightarrow> bstate \<Rightarrow> bstate option" where
  "exe_FADD_M fp ibc st = do { s \<leftarrow> cvt_src fp ibc st; upd_fdst ibc (\<lambda>d. lanes2 (fp_add fp (b_rm st)) d s) st }"

definition exe_FSUB_R :: "fpu \<Rightarrow> InstructionByteCode \<Rightarrow> bstate \<Rightarrow> bstate option" where
  "exe_FSUB_R fp ibc st = do { s \<leftarrow> fsrc_val ibc st; upd_fdst ibc (\<lambda>d. lanes2 (fp_sub fp (b_rm st)) d s) st }"

definition exe_FSUB_M :: "fpu \<Rightarrow> InstructionByteCode \<Rightarrow> bstate \<Rightarrow> bstate option" where
  "exe_FSUB_M fp ibc st = do { s \<leftarrow> cvt_src fp ibc st; upd_fdst ibc (\<lambda>d. lanes2 (fp_sub fp (b_rm st)) d s) st }"

definition exe_FSCAL_R :: "InstructionByteCode \<Rightarrow> bstate \<Rightarrow> bstate option" where
  "exe_FSCAL_R ibc st = upd_fdst ibc (\<lambda>d. rx_xor_vec_f128 d (rx_set1_vec_f128 0x80F0000000000000)) st"

definition exe_FMUL_R :: "fpu \<Rightarrow> InstructionByteCode \<Rightarrow> bstate \<Rightarrow> bstate option" where
  "exe_FMUL_R fp ibc st = do { s \<leftarrow> fsrc_val ibc st; upd_fdst ibc (\<lambda>d. lanes2 (fp_mul fp (b_rm st)) d s) st }"

definition exe_FDIV_M :: "fpu \<Rightarrow> ProgramConfiguration \<Rightarrow> InstructionByteCode \<Rightarrow> bstate \<Rightarrow> bstate option" where
  "exe_FDIV_M fp cfg ibc st = do { s \<leftarrow> map_option (maskRegisterExponentMantissa cfg) (cvt_src fp ibc st);
      upd_fdst ibc (\<lambda>d. lanes2 (fp_div fp (b_rm st)) d s) st }"

definition exe_FSQRT_R :: "fpu \<Rightarrow> InstructionByteCode \<Rightarrow> bstate \<Rightarrow> bstate option" where
  "exe_FSQRT_R fp ibc st = upd_fdst ibc (\<lambda>d. (fp_sqrt fp (b_rm st) (fst d), fp_sqrt fp (b_rm st) (snd d))) st"

definition exe_CBRANCH :: "InstructionByteCode \<Rightarrow> int \<Rightarrow> bstate \<Rightarrow> (int \<times> bstate) option" where
  "exe_CBRANCH ibc pc st =
    do { st1 \<leftarrow> upd_idst ibc (\<lambda>d. d + bc_imm ibc) st;
         d \<leftarrow> idst_val ibc st1;
         Some (if d AND ucast (bc_memMask ibc) = 0 then target ibc else pc, st1) }"

definition exe_CFROUND :: "u32 \<Rightarrow> InstructionByteCode \<Rightarrow> bstate \<Rightarrow> bstate option" where
  "exe_CFROUND flags ibc st = do { s \<leftarrow> isrc_val ibc st;
      let isrc = rotr s (ucast (bc_imm ibc));
      Some (if \<not> has_flag flags RANDOMX_FLAG_V2 \<or> isrc AND 60 = 0
            then st\<lparr>b_rm := ucast (isrc AND 3)\<rparr> else st) }"

definition exe_ISTORE :: "InstructionByteCode \<Rightarrow> bstate \<Rightarrow> bstate option" where
  "exe_ISTORE ibc st = do { d \<leftarrow> idst_val ibc st; s \<leftarrow> isrc_val ibc st;
      Some (st\<lparr>b_mem := store64 (b_mem st) (unat ((d + bc_imm ibc) AND ucast (bc_memMask ibc))) s\<rparr>) }"

definition executeInstruction ::
  "fpu \<Rightarrow> ProgramConfiguration \<Rightarrow> u32 \<Rightarrow> InstructionByteCode \<Rightarrow> int \<Rightarrow> bstate \<Rightarrow> (int \<times> bstate) option" where
  "executeInstruction fp cfg flags ibc pc st =
    (case bc_type ibc of
      CBRANCH \<Rightarrow> exe_CBRANCH ibc pc st
    | NOP \<Rightarrow> Some (pc, st)
    | IMUL_RCP \<Rightarrow> None
    | IADD_RS \<Rightarrow> map_option (Pair pc) (exe_IADD_RS ibc st)
    | IADD_M \<Rightarrow> map_option (Pair pc) (exe_IADD_M ibc st)
    | ISUB_R \<Rightarrow> map_option (Pair pc) (exe_ISUB_R ibc st)
    | ISUB_M \<Rightarrow> map_option (Pair pc) (exe_ISUB_M ibc st)
    | IMUL_R \<Rightarrow> map_option (Pair pc) (exe_IMUL_R ibc st)
    | IMUL_M \<Rightarrow> map_option (Pair pc) (exe_IMUL_M ibc st)
    | IMULH_R \<Rightarrow> map_option (Pair pc) (exe_IMULH_R ibc st)
    | IMULH_M \<Rightarrow> map_option (Pair pc) (exe_IMULH_M ibc st)
    | ISMULH_R \<Rightarrow> map_option (Pair pc) (exe_ISMULH_R ibc st)
    | ISMULH_M \<Rightarrow> map_option (Pair pc) (exe_ISMULH_M ibc st)
    | INEG_R \<Rightarrow> map_option (Pair pc) (exe_INEG_R ibc st)
    | IXOR_R \<Rightarrow> map_option (Pair pc) (exe_IXOR_R ibc st)
    | IXOR_M \<Rightarrow> map_option (Pair pc) (exe_IXOR_M ibc st)
    | IROR_R \<Rightarrow> map_option (Pair pc) (exe_IROR_R ibc st)
    | IROL_R \<Rightarrow> map_option (Pair pc) (exe_IROL_R ibc st)
    | ISWAP_R \<Rightarrow> map_option (Pair pc) (exe_ISWAP_R ibc st)
    | FSWAP_R \<Rightarrow> map_option (Pair pc) (exe_FSWAP_R ibc st)
    | FADD_R \<Rightarrow> map_option (Pair pc) (exe_FADD_R fp ibc st)
    | FADD_M \<Rightarrow> map_option (Pair pc) (exe_FADD_M fp ibc st)
    | FSUB_R \<Rightarrow> map_option (Pair pc) (exe_FSUB_R fp ibc st)
    | FSUB_M \<Rightarrow> map_option (Pair pc) (exe_FSUB_M fp ibc st)
    | FSCAL_R \<Rightarrow> map_option (Pair pc) (exe_FSCAL_R ibc st)
    | FMUL_R \<Rightarrow> map_option (Pair pc) (exe_FMUL_R fp ibc st)
    | FDIV_M \<Rightarrow> map_option (Pair pc) (exe_FDIV_M fp cfg ibc st)
    | FSQRT_R \<Rightarrow> map_option (Pair pc) (exe_FSQRT_R fp ibc st)
    | CFROUND \<Rightarrow> map_option (Pair pc) (exe_CFROUND flags ibc st)
    | ISTORE \<Rightarrow> map_option (Pair pc) (exe_ISTORE ibc st))"

text \<open>
  \<^verbatim>\<open>executeBytecode\<close>: \<^verbatim>\<open>for (pc = 0; pc < n; ++pc)\<close>, where a branch assigns
  \<^verbatim>\<open>pc\<close>. Nothing in the loop bounds its number of rounds, so the model counts them: a run
  out of rounds is \<open>Running\<close>, a read outside the array or undefined behaviour is \<open>Undefined\<close>.
\<close>

datatype 'a run = Finished 'a | Running | Undefined

fun exec_loop :: "nat \<Rightarrow> fpu \<Rightarrow> ProgramConfiguration \<Rightarrow> u32 \<Rightarrow> InstructionByteCode list \<Rightarrow> nat
    \<Rightarrow> int \<Rightarrow> bstate \<Rightarrow> bstate run" where
  "exec_loop 0 fp cfg flags bc n pc st = (if int n \<le> pc then Finished st else Running)"
| "exec_loop (Suc k) fp cfg flags bc n pc st =
     (if int n \<le> pc then Finished st
      else if pc < 0 \<or> int (length bc) \<le> pc then Undefined
      else case executeInstruction fp cfg flags (bc ! nat pc) pc st of
             None \<Rightarrow> Undefined
           | Some (pc', st') \<Rightarrow> exec_loop k fp cfg flags bc n (pc' + 1) st')"

text \<open>Three rounds for every instruction are enough for compiled code, as \<open>Bytecode_Facts\<close> shows.\<close>

definition executeBytecode ::
  "fpu \<Rightarrow> ProgramConfiguration \<Rightarrow> u32 \<Rightarrow> InstructionByteCode list \<Rightarrow> bstate \<Rightarrow> bstate run" where
  "executeBytecode fp cfg flags bc st =
     exec_loop (3 * program_size flags) fp cfg flags bc (program_size flags) 0 st"

lemma exec_loop_more:
  "exec_loop k fp cfg flags bc n pc st = Finished st' \<Longrightarrow> k \<le> k' \<Longrightarrow>
   exec_loop k' fp cfg flags bc n pc st = Finished st'"
proof (induction k arbitrary: k' pc st)
  case 0
  then show ?case by (cases k') (auto split: if_splits)
next
  case (Suc k)
  then obtain m where "k' = Suc m" "k \<le> m" by (cases k') auto
  with Suc show ?case by (auto split: if_splits option.splits)
qed

end
