(* ===== verification/Bytecode_Facts.thy ===== *)
theory Bytecode_Facts
  imports Bytecode
begin

text \<open>
  The facts that make the bytecode machine correct: compilation dispatches exactly as the
  instruction table does and always succeeds on a whole program; the code it produces is
  well formed, so that execution never meets undefined behaviour and never leaves the
  scratchpad; a branch goes back at most to the last write of its condition register and is
  taken at most twice in a row, so that execution ends within three rounds per instruction.
\<close>

section \<open>Compilation dispatches by the instruction table\<close>

fun gen_of :: "InstructionType \<Rightarrow> Instruction \<Rightarrow> nat \<Rightarrow> InstructionByteCode \<Rightarrow> usage
    \<Rightarrow> InstructionByteCode \<times> usage" where
  "gen_of IADD_RS = gen_IADD_RS" | "gen_of IADD_M = gen_IADD_M" | "gen_of ISUB_R = gen_ISUB_R"
| "gen_of ISUB_M = gen_ISUB_M" | "gen_of IMUL_R = gen_IMUL_R" | "gen_of IMUL_M = gen_IMUL_M"
| "gen_of IMULH_R = gen_IMULH_R" | "gen_of IMULH_M = gen_IMULH_M" | "gen_of ISMULH_R = gen_ISMULH_R"
| "gen_of ISMULH_M = gen_ISMULH_M" | "gen_of IMUL_RCP = gen_IMUL_RCP" | "gen_of INEG_R = gen_INEG_R"
| "gen_of IXOR_R = gen_IXOR_R" | "gen_of IXOR_M = gen_IXOR_M" | "gen_of IROR_R = gen_IROR_R"
| "gen_of IROL_R = gen_IROL_R" | "gen_of ISWAP_R = gen_ISWAP_R" | "gen_of FSWAP_R = gen_FSWAP_R"
| "gen_of FADD_R = gen_FADD_R" | "gen_of FADD_M = gen_FADD_M" | "gen_of FSUB_R = gen_FSUB_R"
| "gen_of FSUB_M = gen_FSUB_M" | "gen_of FSCAL_R = gen_FSCAL_R" | "gen_of FMUL_R = gen_FMUL_R"
| "gen_of FDIV_M = gen_FDIV_M" | "gen_of FSQRT_R = gen_FSQRT_R" | "gen_of CBRANCH = gen_CBRANCH"
| "gen_of CFROUND = gen_CFROUND" | "gen_of ISTORE = gen_ISTORE" | "gen_of NOP = gen_NOP"

lemmas gen_defs =
  gen_IADD_RS_def gen_IADD_M_def gen_ISUB_R_def gen_ISUB_M_def gen_IMUL_R_def gen_IMUL_M_def
  gen_IMULH_R_def gen_IMULH_M_def gen_ISMULH_R_def gen_ISMULH_M_def gen_IMUL_RCP_def gen_INEG_R_def
  gen_IXOR_R_def gen_IXOR_M_def gen_IROR_R_def gen_IROL_R_def gen_ISWAP_R_def gen_FSWAP_R_def
  gen_FADD_R_def gen_FADD_M_def gen_FSUB_R_def gen_FSUB_M_def gen_FSCAL_R_def gen_FMUL_R_def
  gen_FDIV_M_def gen_FSQRT_R_def gen_CBRANCH_def gen_CFROUND_def gen_ISTORE_def gen_NOP_def

lemma compileInstruction_gen_of:
  "compileInstruction instr i ibc u =
     map_option (\<lambda>t. gen_of t instr i ibc u) (type_of_opcode (unat (i_opcode instr)))"
  by (simp only: compileInstruction_def type_of_opcode_def Let_def if_distrib [of "map_option _"]
      option.map gen_of.simps)

lemma compileInstruction_total: "\<exists>p. compileInstruction instr i ibc u = Some p"
  using type_of_opcode_total [of "unat (i_opcode instr)"] by (auto simp: compileInstruction_gen_of)

section \<open>Well-formed bytecode\<close>

text \<open>
  The instruction classes. A well-formed instruction has operands of the kind its handler
  reads, register numbers inside the register file, and a memory mask that keeps the eight
  bytes at any masked address inside the scratchpad.
\<close>

definition int_types :: "InstructionType list" where
  "int_types = [IADD_RS, IADD_M, ISUB_R, ISUB_M, IMUL_R, IMUL_M, IMULH_R, IMULH_M, ISMULH_R, ISMULH_M,
     INEG_R, IXOR_R, IXOR_M, IROR_R, IROL_R, ISWAP_R, CBRANCH, ISTORE]"

definition mem_types :: "InstructionType list" where
  "mem_types = [IADD_M, ISUB_M, IMUL_M, IMULH_M, ISMULH_M, IXOR_M, FADD_M, FSUB_M, FDIV_M, ISTORE]"

fun dst_ok :: "InstructionType \<Rightarrow> dst_ref \<Rightarrow> bool" where
  "dst_ok t (DstR k) = (t \<in> set int_types \<and> k < 8 \<or> t \<in> {CFROUND, NOP})"
| "dst_ok t (DstF k) = (t \<in> {FSWAP_R, FADD_R, FADD_M, FSUB_R, FSUB_M, FSCAL_R} \<and> k < 4 \<or> t \<in> {CFROUND, NOP})"
| "dst_ok t (DstE k) = (t \<in> {FSWAP_R, FMUL_R, FDIV_M, FSQRT_R} \<and> k < 4 \<or> t \<in> {CFROUND, NOP})"

fun src_ok :: "InstructionType \<Rightarrow> src_ref \<Rightarrow> bool" where
  "src_ok t s = (t \<in> {INEG_R, FSWAP_R, FSCAL_R, FSQRT_R, CBRANCH, NOP} \<or> (case s of
      SrcR k \<Rightarrow> k < 8 \<and> t \<notin> {FADD_R, FSUB_R, FMUL_R}
    | SrcZero \<Rightarrow> t \<in> {IADD_M, ISUB_M, IMUL_M, IMULH_M, ISMULH_M, IXOR_M}
    | SrcImm \<Rightarrow> t \<in> {ISUB_R, IMUL_R, IXOR_R, IROR_R, IROL_R}
    | SrcA k \<Rightarrow> k < 4 \<and> t \<in> {FADD_R, FSUB_R, FMUL_R}))"

definition mask_ok :: "u32 \<Rightarrow> bool" where
  "mask_ok m = (m \<in> {ScratchpadL1Mask, ScratchpadL2Mask, ScratchpadL3Mask})"

definition wf_ibc :: "InstructionByteCode \<Rightarrow> bool" where
  "wf_ibc ibc = (bc_type ibc \<noteq> IMUL_RCP \<and> dst_ok (bc_type ibc) (bc_dst ibc) \<and>
     src_ok (bc_type ibc) (bc_src ibc) \<and> (bc_type ibc \<in> set mem_types \<longrightarrow> mask_ok (bc_memMask ibc)))"

text \<open>The integer registers an instruction may change.\<close>

definition writes :: "InstructionByteCode \<Rightarrow> nat set" where
  "writes ibc = (if bc_type ibc \<in> {ISTORE, NOP, CFROUND} then {} else case bc_dst ibc of
      DstR d \<Rightarrow> if bc_type ibc = ISWAP_R then insert d (case bc_src ibc of SrcR s \<Rightarrow> {s} | _ \<Rightarrow> {}) else {d}
    | _ \<Rightarrow> {})"

lemma mask_ok_modMem [simp]: "mask_ok (modMemMask i)" "mask_ok ScratchpadL3Mask"
  by (simp_all add: mask_ok_def modMemMask_def)

lemma masked_in_scratchpad:
  assumes "mask_ok m"
  shows "unat (x AND ucast m :: u64) + 8 \<le> ScratchpadSize"
proof -
  have "unat (x AND ucast m) \<le> unat (ucast m :: u64)" by (rule unat_and_le1)
  also have "unat (ucast m :: u64) + 8 \<le> ScratchpadSize"
    using assms by (auto simp: mask_ok_def config)
  finally show ?thesis by simp
qed

lemma index_8 [simp]: "dst_int i < 8" "src_int i < 8" "dst_flt i < 4" "src_flt i < 4"
  by (simp_all add: dst_int_def src_int_def dst_flt_def src_flt_def config)

lemma dst_ok_stale [simp]: "dst_ok NOP d" "dst_ok CFROUND d"
  by (cases d; simp)+

lemma dst_flt_sub [simp]: "dst_int i - 4 < 4"
  using index_8(1) [of i] by linarith

lemma gen_of_wf: "wf_ibc (fst (gen_of t instr i ibc u))"
  by (cases t; simp add: gen_defs Let_def setShift_def setTarget_def wf_ibc_def int_types_def
      mem_types_def RegisterCountFlt_def RegistersCount_def RegisterNeedsDisplacement_def)

lemma gen_of_branch: "bc_type (fst (gen_of t instr i ibc u)) = CBRANCH \<longleftrightarrow> t = CBRANCH"
  by (cases t; simp add: gen_defs Let_def setShift_def setTarget_def)

text \<open>Compilation records every write: what a register's usage says afterwards.\<close>

lemma gen_of_usage:
  assumes "k < 8"
  shows "snd (gen_of t instr i ibc u) k =
    (if k \<in> writes (fst (gen_of t instr i ibc u)) \<or> bc_type (fst (gen_of t instr i ibc u)) = CBRANCH
     then int i else u k)"
  using assms
  by (cases t; simp add: gen_defs Let_def setShift_def setTarget_def writes_def RegistersCount_def)

section \<open>Branch targets\<close>

text \<open>
  What compilation promises of a branch at \<open>j\<close>: it goes back, at most to the start, and no
  instruction between its target and the branch is a branch or writes its condition register;
  its immediate has the lowest bit of the condition field set and the bit below it clear.
\<close>

definition branch_ok :: "InstructionByteCode list \<Rightarrow> nat \<Rightarrow> bool" where
  "branch_ok bc j = (\<exists>c sh. bc_dst (bc ! j) = DstR c \<and> c < 8 \<and> 8 \<le> sh \<and> sh < 24 \<and>
     bit (bc_imm (bc ! j)) sh \<and> \<not> bit (bc_imm (bc ! j)) (sh - 1) \<and>
     bc_memMask (bc ! j) = push_bit sh 255 \<and> -1 \<le> target (bc ! j) \<and> target (bc ! j) < int j \<and>
     (\<forall>k<j. target (bc ! j) < int k \<longrightarrow> c \<notin> writes (bc ! k) \<and> bc_type (bc ! k) \<noteq> CBRANCH))"

definition code_ok :: "InstructionByteCode list \<Rightarrow> nat \<Rightarrow> bool" where
  "code_ok bc n = (n \<le> length bc \<and>
     (\<forall>j<n. wf_ibc (bc ! j) \<and> (bc_type (bc ! j) = CBRANCH \<longrightarrow> branch_ok bc j)))"

definition usage_ok :: "InstructionByteCode list \<Rightarrow> usage \<Rightarrow> nat \<Rightarrow> bool" where
  "usage_ok bc u n = (\<forall>k<8. -1 \<le> u k \<and> u k < int n \<and>
     (\<forall>j<n. u k < int j \<longrightarrow> k \<notin> writes (bc ! j) \<and> bc_type (bc ! j) \<noteq> CBRANCH))"

lemma gen_CBRANCH_fields:
  assumes "gen_CBRANCH instr i ibc u = (b, u')" "-1 \<le> u (dst_int instr)" "u (dst_int instr) < 32768"
  shows "\<exists>sh. bc_dst b = DstR (dst_int instr) \<and> 8 \<le> sh \<and> sh < 24 \<and> bit (bc_imm b) sh \<and>
    \<not> bit (bc_imm b) (sh - 1) \<and> bc_memMask b = push_bit sh 255 \<and> target b = u (dst_int instr)"
proof (intro exI conjI)
  let ?sh = "getModCond instr + ConditionOffset"
  have off: "ConditionOffset = 8" by (simp add: config)
  have lt: "?sh < 24" "8 \<le> ?sh" using getModCond_less [of instr] off by linarith+
  then show "?sh < 24" "8 \<le> ?sh" by blast+
  have b: "b = setTarget (u (dst_int instr)) (ibc\<lparr>bc_type := CBRANCH, bc_dst := DstR (dst_int instr),
       bc_imm := (signExtend2sCompl (getImm32 instr) OR push_bit ?sh 1) AND NOT (push_bit (?sh - 1) 1),
       bc_memMask := push_bit ?sh ConditionMask\<rparr>)"
    using assms(1) by (simp add: gen_CBRANCH_def Let_def off split: if_splits)
  show "bc_dst b = DstR (dst_int instr)" "bc_memMask b = push_bit ?sh 255"
    by (simp_all add: b setTarget_def config)
  have "bit (push_bit m (1::u64)) n \<longleftrightarrow> n = m" if "m < 64" for m n
    using that by (auto simp: bit_exp_iff)
  with lt show "bit (bc_imm b) ?sh" "\<not> bit (bc_imm b) (?sh - 1)"
    by (auto simp: b setTarget_def bit_or_iff bit_and_iff bit_not_iff)
  show "target b = u (dst_int instr)"
    using assms(2,3) by (simp add: b setTarget_def target_def signed_of_int signed_take_bit_int_eq_self)
qed

lemma branch_ok_cong:
  assumes "\<And>k. k \<le> j \<Longrightarrow> bc' ! k = bc ! k" "branch_ok bc j"
  shows "branch_ok bc' j"
  using assms unfolding branch_ok_def by (metis le_refl less_imp_le)

lemma branch_ok_gen:
  assumes g: "gen_CBRANCH instr i (bc ! i) u = (b, u')" and u: "usage_ok bc u i"
    and i: "i < length bc" "i \<le> 32768"
  shows "branch_ok (bc[i := b]) i"
proof -
  let ?c = "dst_int instr"
  have c: "?c < 8" by simp
  then have c': "-1 \<le> u ?c" "u ?c < int i"
    and free: "\<And>j. j < i \<Longrightarrow> u ?c < int j \<Longrightarrow> ?c \<notin> writes (bc ! j) \<and> bc_type (bc ! j) \<noteq> CBRANCH"
    using u unfolding usage_ok_def by blast+
  obtain sh where "bc_dst b = DstR ?c" "8 \<le> sh" "sh < 24" "bit (bc_imm b) sh"
    "\<not> bit (bc_imm b) (sh - 1)" "bc_memMask b = push_bit sh 255" "target b = u ?c"
    using gen_CBRANCH_fields [OF g c'(1)] c'(2) i(2) by auto
  with c c' i(1) free show ?thesis unfolding branch_ok_def
    by (intro exI [of _ ?c] exI [of _ sh]) simp
qed

lemma compile_step_code_ok:
  assumes ok: "code_ok bc i" "usage_ok bc u i" and i: "i < length bc" "i \<le> 32768"
  shows "\<exists>bc' u'. compile_step prog i (Some (bc, u)) = Some (bc', u') \<and> length bc' = length bc \<and>
    code_ok bc' (Suc i) \<and> usage_ok bc' u' (Suc i)"
proof -
  obtain t where t: "type_of_opcode (unat (i_opcode (prog ! i))) = Some t"
    using type_of_opcode_total [of "unat (i_opcode (prog ! i))"] by auto
  obtain b u' where g: "gen_of t (prog ! i) i (bc ! i) u = (b, u')" by fastforce
  have wf: "wf_ibc b" using gen_of_wf [of t "prog ! i" i "bc ! i" u] g by simp
  have use: "u' k = (if k \<in> writes b \<or> bc_type b = CBRANCH then int i else u k)" if "k < 8" for k
    using gen_of_usage [OF that, of t "prog ! i" i "bc ! i" u] g by simp
  let ?bc = "bc[i := b]"
  have step: "compile_step prog i (Some (bc, u)) = Some (?bc, u')"
    using t g by (simp add: compile_step_def compileInstruction_gen_of)
  have branch: "branch_ok ?bc i" if "bc_type b = CBRANCH"
  proof -
    have "t = CBRANCH" using that gen_of_branch [of t "prog ! i" i "bc ! i" u] g by simp
    then show ?thesis using branch_ok_gen [of "prog ! i" i bc u b u'] g ok(2) i by simp
  qed
  have old: "branch_ok ?bc j" if "j < i" "bc_type (bc ! j) = CBRANCH" for j
    by (rule branch_ok_cong [of _ _ bc]) (use that ok(1) in \<open>auto simp: code_ok_def\<close>)
  have "code_ok ?bc (Suc i)"
    using ok(1) wf branch old i by (auto simp: code_ok_def less_Suc_eq)
  moreover have "usage_ok ?bc u' (Suc i)"
    using ok(2) i by (auto simp: usage_ok_def use less_Suc_eq split: if_splits)
  ultimately show ?thesis using step by (intro exI conjI) (auto intro: step)
qed

lemma program_size_bounds: "program_size flags \<le> 384"
  by (simp add: program_size_def config)

text \<open>Compilation of any program succeeds and yields good code.\<close>

lemma compileProgram_code_ok:
  assumes "program_size flags \<le> length bc"
  shows "\<exists>bc'. compileProgram prog bc flags = Some bc' \<and> length bc' = length bc \<and>
    code_ok bc' (program_size flags)"
proof -
  let ?n = "program_size flags"
  let ?P = "\<lambda>i s. \<exists>bc' u. s = Some (bc', u) \<and> length bc' = length bc \<and> code_ok bc' i \<and> usage_ok bc' u i"
  have "0 \<le> ?n" by simp
  then have "?P ?n (for_range 0 ?n (compile_step prog) (Some (bc, beginCompilation)))"
  proof (induction rule: for_range_induct)
    case init
    show ?case by (auto simp: code_ok_def usage_ok_def beginCompilation_def)
  next
    case (step i s)
    then obtain bc' u where s: "s = Some (bc', u)" "length bc' = length bc" "code_ok bc' i" "usage_ok bc' u i"
      by blast
    with step(2) assms program_size_bounds [of flags] have "i < length bc'" "i \<le> 32768" by linarith+
    from compile_step_code_ok [OF s(3,4) this, of prog] s(1,2) show ?case by auto
  qed
  then show ?thesis by (auto simp: compileProgram_def)
qed

text \<open>Every entry of the bytecode is the translation of the instruction of the same index.\<close>

lemma compileProgram_pointwise:
  assumes "compileProgram prog bc flags = Some code" "program_size flags \<le> length bc" "j < program_size flags"
  shows "\<exists>t u. type_of_opcode (unat (i_opcode (prog ! j))) = Some t \<and>
    code ! j = fst (gen_of t (prog ! j) j (bc ! j) u)"
proof -
  let ?n = "program_size flags"
  let ?T = "\<lambda>c j. \<exists>t u. type_of_opcode (unat (i_opcode (prog ! j))) = Some t \<and>
    c ! j = fst (gen_of t (prog ! j) j (bc ! j) u)"
  let ?P = "\<lambda>i s. \<exists>c u. s = Some (c, u) \<and> length c = length bc \<and> (\<forall>j<i. ?T c j) \<and> (\<forall>j\<ge>i. c ! j = bc ! j)"
  have "0 \<le> ?n" by simp
  then have "?P ?n (for_range 0 ?n (compile_step prog) (Some (bc, beginCompilation)))"
  proof (induction rule: for_range_induct)
    case init
    show ?case by simp
  next
    case (step i s)
    then obtain c u where s: "s = Some (c, u)" "length c = length bc" "\<forall>j<i. ?T c j" "\<forall>j\<ge>i. c ! j = bc ! j"
      by blast
    obtain t where t: "type_of_opcode (unat (i_opcode (prog ! i))) = Some t"
      using type_of_opcode_total [of "unat (i_opcode (prog ! i))"] by auto
    obtain b u' where g: "gen_of t (prog ! i) i (bc ! i) u = (b, u')" by fastforce
    have "compile_step prog i s = Some (c[i := b], u')"
      using t g s by (simp add: compile_step_def compileInstruction_gen_of)
    moreover have "?T (c[i := b]) j" if "j < Suc i" for j
    proof (cases "j = i")
      case True
      have "c[i := b] ! i = fst (gen_of t (prog ! i) i (bc ! i) u)"
        using g s(2) step(2) assms(2) by simp
      with t True show ?thesis by blast
    next
      case False
      with that s(3) show ?thesis by simp
    qed
    ultimately show ?case using s(2,4) by (intro exI [of _ "c[i := b]"] exI [of _ u']) simp
  qed
  with assms(1,3) show ?thesis by (auto simp: compileProgram_def)
qed

lemma compileProgram_branch_iff:
  assumes "compileProgram prog bc flags = Some code" "program_size flags \<le> length bc" "j < program_size flags"
  shows "bc_type (code ! j) = CBRANCH \<longleftrightarrow> type_of_opcode (unat (i_opcode (prog ! j))) = Some CBRANCH"
proof -
  obtain t u where "type_of_opcode (unat (i_opcode (prog ! j))) = Some t"
    "code ! j = fst (gen_of t (prog ! j) j (bc ! j) u)"
    using compileProgram_pointwise [OF assms] by blast
  then show ?thesis by (simp add: gen_of_branch)
qed

section \<open>Execution of well-formed code\<close>

lemmas exe_defs =
  exe_IADD_RS_def exe_IADD_M_def exe_ISUB_R_def exe_ISUB_M_def exe_IMUL_R_def exe_IMUL_M_def
  exe_IMULH_R_def exe_IMULH_M_def exe_ISMULH_R_def exe_ISMULH_M_def exe_INEG_R_def
  exe_IXOR_R_def exe_IXOR_M_def exe_IROR_R_def exe_IROL_R_def exe_ISWAP_R_def exe_FSWAP_R_def
  exe_FADD_R_def exe_FADD_M_def exe_FSUB_R_def exe_FSUB_M_def exe_FSCAL_R_def exe_FMUL_R_def
  exe_FDIV_M_def exe_FSQRT_R_def exe_CBRANCH_def exe_CFROUND_def exe_ISTORE_def

lemmas operand_defs =
  isrc_val_def fsrc_val_def idst_val_def upd_idst_def upd_fdst_def load_src_def cvt_src_def
  getScratchpadAddress_def

lemma wf_ibc_operands:
  assumes "wf_ibc ibc"
  shows "bc_type ibc \<noteq> IMUL_RCP" "dst_ok (bc_type ibc) (bc_dst ibc)" "src_ok (bc_type ibc) (bc_src ibc)"
    "bc_type ibc \<in> set mem_types \<Longrightarrow> mask_ok (bc_memMask ibc)"
  using assms by (auto simp: wf_ibc_def)

lemma bit_iff_mod: "bit (x::'a::len word) n \<longleftrightarrow> 2 ^ n \<le> unat x mod 2 ^ Suc n"
proof -
  have "unat x mod 2 ^ Suc n = 2 ^ n * (unat x div 2 ^ n mod 2) + unat x mod 2 ^ n"
    by (metis mod_mult2_eq mult.commute power_Suc)
  moreover obtain r where "unat x mod 2 ^ n = r" "r < 2 ^ n" by simp
  ultimately show ?thesis
    by (cases "odd (unat x div 2 ^ n)") (simp_all add: bit_iff_odd_unat odd_iff_mod_2_eq_one even_iff_mod_2_eq_zero)
qed

lemma unat_add_mod: "m \<le> 64 \<Longrightarrow> unat (a + b :: u64) mod 2 ^ m = (unat a + unat b) mod 2 ^ m"
proof -
  assume "m \<le> 64"
  then have "(2::nat) ^ m dvd 2 ^ 64" by (rule le_imp_power_dvd)
  then show ?thesis by (simp add: unat_word_ariths mod_mod_cancel)
qed

text \<open>
  The condition register grows by the immediate at every jump. The immediate has bit \<open>sh\<close>
  set and the bit below clear, so of three successive sums one has bit \<open>sh\<close> set.
\<close>

lemma no_three_clear:
  fixes x imm :: u64
  assumes sh: "0 < sh" "sh < 63" and imm: "bit imm sh" "\<not> bit imm (sh - 1)"
  shows "bit x sh \<or> bit (x + imm) sh \<or> bit (x + imm + imm) sh"
proof (rule ccontr)
  assume clear: "\<not> ?thesis"
  define h :: nat where "h = 2 ^ (sh - 1)"
  have p: "2 ^ sh = 2 * h" "2 ^ Suc sh = 4 * h"
    using sh(1) by (simp_all add: h_def power_eq_if)
  define r where "r = unat imm mod (4 * h)"
  have hpos: "0 < h" by (simp add: h_def)
  have r1: "2 * h \<le> r" using imm(1) by (simp add: bit_iff_mod p r_def)
  have "r < 3 * h"
  proof -
    have "unat imm mod (2 * h) = r mod (2 * h)" unfolding r_def
      by (simp add: mod_mod_cancel)
    moreover have "unat imm mod 2 ^ Suc (sh - 1) < h"
      using imm(2) by (simp only: bit_iff_mod not_le h_def)
    then have "unat imm mod (2 * h) < h" using sh(1) by (simp add: p)
    moreover have "r < 4 * h" using hpos by (simp add: r_def)
    ultimately show ?thesis using r1 by (simp add: mod_if split: if_splits)
  qed
  have add: "unat (y + imm) mod (4 * h) = (unat y mod (4 * h) + r) mod (4 * h)" for y
    using unat_add_mod [of "Suc sh" y imm] sh(2) by (simp add: p r_def mod_add_eq)
  define a where "a = unat x mod (4 * h)"
  define b where "b = unat (x + imm) mod (4 * h)"
  define c where "c = unat (x + imm + imm) mod (4 * h)"
  have small: "a < 2 * h" "b < 2 * h" "c < 2 * h"
    using clear by (simp_all add: bit_iff_mod p a_def b_def c_def)
  have eqs: "b = (a + r) mod (4 * h)" "c = (b + r) mod (4 * h)"
    using add [of x] add [of "x + imm"] by (simp_all add: a_def b_def c_def)
  have "b = a + r - 4 * h \<or> b = a + r"
    using small(1) \<open>r < 3 * h\<close> eqs(1) by (auto simp: mod_if)
  then have "b < h" using small r1 \<open>r < 3 * h\<close> by linarith
  then have "c = b + r" using eqs(2) \<open>r < 3 * h\<close> by simp
  with r1 small(3) show False by linarith
qed

text \<open>An instruction other than a branch runs, keeps the counter and changes only its writes.\<close>

lemma execute_straight:
  assumes "wf_ibc ibc" "bc_type ibc \<noteq> CBRANCH"
  shows "\<exists>st'. executeInstruction fp cfg flags ibc pc st = Some (pc, st') \<and>
    (\<forall>k. k \<notin> writes ibc \<longrightarrow> b_r st' k = b_r st k)"
  using assms wf_ibc_operands [OF assms(1)]
  by (cases "bc_type ibc"; cases "bc_dst ibc"; cases "bc_src ibc";
      simp add: executeInstruction_def exe_defs operand_defs writes_def int_types_def Let_def)

text \<open>A branch adds its immediate to its condition register, then tests the condition field.\<close>

lemma execute_branch:
  assumes "bc_type ibc = CBRANCH" "bc_dst ibc = DstR c"
  shows "executeInstruction fp cfg flags ibc pc st =
    (let r = b_r st c + bc_imm ibc
     in Some (if r AND ucast (bc_memMask ibc) = 0 then target ibc else pc,
              st\<lparr>b_r := (b_r st)(c := r)\<rparr>))"
  using assms by (simp add: executeInstruction_def exe_CBRANCH_def upd_idst_def idst_val_def Let_def)

lemma condition_bit:
  assumes "(r :: u64) AND ucast (push_bit sh 255 :: u32) = 0" "sh < 24"
  shows "\<not> bit r sh"
proof
  assume "bit r sh"
  moreover have "bit (ucast (push_bit sh 255 :: u32) :: u64) sh"
    using assms(2) by (simp add: bit_ucast_iff bit_push_bit_iff)
  ultimately have "bit (r AND ucast (push_bit sh 255 :: u32)) sh" by (simp add: bit_and_iff)
  with assms(1) show False by simp
qed

section \<open>Termination\<close>

definition reaches :: "fpu \<Rightarrow> ProgramConfiguration \<Rightarrow> u32 \<Rightarrow> InstructionByteCode list \<Rightarrow> nat \<Rightarrow>
    nat \<Rightarrow> int \<Rightarrow> bstate \<Rightarrow> int \<Rightarrow> bstate \<Rightarrow> bool" where
  "reaches fp cfg flags bc n m pc st pc' st' \<longleftrightarrow>
     (\<forall>k. exec_loop (m + k) fp cfg flags bc n pc st = exec_loop k fp cfg flags bc n pc' st')"

lemma reaches_refl: "reaches fp cfg flags bc n 0 pc st pc st"
  by (simp add: reaches_def)

lemma reaches_trans:
  "reaches fp cfg flags bc n m pc st pc' st' \<Longrightarrow> reaches fp cfg flags bc n m' pc' st' pc'' st'' \<Longrightarrow>
   reaches fp cfg flags bc n (m + m') pc st pc'' st''"
  by (simp add: reaches_def add.assoc)

lemma reaches_step:
  assumes "0 \<le> pc" "pc < int n" "n \<le> length bc"
    "executeInstruction fp cfg flags (bc ! nat pc) pc st = Some (pc', st')"
  shows "reaches fp cfg flags bc n 1 pc st (pc' + 1) st'"
  using assms by (simp add: reaches_def)

lemma straight_run:
  assumes "code_ok bc n" "j \<le> n" "i \<le> j" "\<And>k. i \<le> k \<Longrightarrow> k < j \<Longrightarrow> bc_type (bc ! k) \<noteq> CBRANCH"
  shows "\<exists>st'. reaches fp cfg flags bc n (j - i) (int i) st (int j) st' \<and>
    (\<forall>c. (\<forall>k. i \<le> k \<and> k < j \<longrightarrow> c \<notin> writes (bc ! k)) \<longrightarrow> b_r st' c = b_r st c)"
  using assms(3,2,4)
proof (induction j rule: dec_induct)
  case base
  show ?case using reaches_refl [of fp cfg flags bc n "int i" st] by (intro exI [of _ st]) simp
next
  case (step j)
  then obtain st1 where 1: "reaches fp cfg flags bc n (j - i) (int i) st (int j) st1"
    "\<And>c. (\<forall>k. i \<le> k \<and> k < j \<longrightarrow> c \<notin> writes (bc ! k)) \<Longrightarrow> b_r st1 c = b_r st c"
    by force
  have j: "j < n" "bc_type (bc ! j) \<noteq> CBRANCH" using step by auto
  with assms(1) have "wf_ibc (bc ! j)" "n \<le> length bc" by (auto simp: code_ok_def)
  with execute_straight [OF this(1) j(2)] j obtain st2 where
    2: "executeInstruction fp cfg flags (bc ! j) (int j) st1 = Some (int j, st2)"
      "\<And>c. c \<notin> writes (bc ! j) \<Longrightarrow> b_r st2 c = b_r st1 c"
    by metis
  have "reaches fp cfg flags bc n 1 (int j) st1 (int (Suc j)) st2"
    using reaches_step [of "int j" n bc fp cfg flags st1 "int j" st2] 2(1) j(1) \<open>n \<le> length bc\<close>
    by (simp add: add.commute)
  from reaches_trans [OF 1(1) this] 1(2) 2(2) step(1) show ?case
    by (intro exI [of _ st2]) (simp add: Suc_diff_le)
qed

text \<open>
  One visit of a branch: it falls through, or control comes back to it with the condition
  register grown by the immediate and bit \<open>sh\<close> of it clear.
\<close>

lemma branch_visit:
  assumes ok: "code_ok bc n" and j: "j < n" "bc_type (bc ! j) = CBRANCH"
  shows "\<exists>c sh. 0 < sh \<and> sh < 63 \<and> bit (bc_imm (bc ! j)) sh \<and> \<not> bit (bc_imm (bc ! j)) (sh - 1) \<and>
    (\<forall>st. (\<exists>st'. reaches fp cfg flags bc n 1 (int j) st (int (Suc j)) st') \<or>
      (\<exists>st'. reaches fp cfg flags bc n (Suc j - nat (target (bc ! j) + 1)) (int j) st (int j) st' \<and>
        b_r st' c = b_r st c + bc_imm (bc ! j) \<and> \<not> bit (b_r st' c) sh))"
proof -
  from ok j have "branch_ok bc j" and len: "n \<le> length bc" by (auto simp: code_ok_def)
  then obtain c sh where c: "bc_dst (bc ! j) = DstR c" and sh: "8 \<le> sh" "sh < 24"
    and imm: "bit (bc_imm (bc ! j)) sh" "\<not> bit (bc_imm (bc ! j)) (sh - 1)"
    and mask: "bc_memMask (bc ! j) = push_bit sh 255"
    and t: "-1 \<le> target (bc ! j)" "target (bc ! j) < int j"
    and free: "\<And>k. k < j \<Longrightarrow> target (bc ! j) < int k \<Longrightarrow> c \<notin> writes (bc ! k) \<and> bc_type (bc ! k) \<noteq> CBRANCH"
    unfolding branch_ok_def by blast
  define s where "s = nat (target (bc ! j) + 1)"
  have s: "s \<le> j" "int s = target (bc ! j) + 1" using t by (auto simp: s_def)
  have visit: "(\<exists>st'. reaches fp cfg flags bc n 1 (int j) st (int (Suc j)) st') \<or>
      (\<exists>st'. reaches fp cfg flags bc n (Suc j - s) (int j) st (int j) st' \<and>
        b_r st' c = b_r st c + bc_imm (bc ! j) \<and> \<not> bit (b_r st' c) sh)" for st
  proof -
    define r where "r = b_r st c + bc_imm (bc ! j)"
    let ?st1 = "st\<lparr>b_r := (b_r st)(c := r)\<rparr>"
    have ex: "executeInstruction fp cfg flags (bc ! nat (int j)) (int j) st =
        Some (if r AND ucast (push_bit sh 255 :: u32) = 0 then target (bc ! j) else int j, ?st1)"
      by (simp add: execute_branch [OF j(2) c] Let_def r_def mask)
    have one: "reaches fp cfg flags bc n 1 (int j) st
        ((if r AND ucast (push_bit sh 255 :: u32) = 0 then target (bc ! j) else int j) + 1) ?st1"
      by (rule reaches_step [OF _ _ len ex]) (use j in simp_all)
    show ?thesis
    proof (cases "r AND ucast (push_bit sh 255 :: u32) = 0")
      case False
      with one show ?thesis by (simp add: add.commute) blast
    next
      case True
      obtain st' where st': "reaches fp cfg flags bc n (j - s) (int s) ?st1 (int j) st'"
        "b_r st' c = b_r ?st1 c"
        using straight_run [OF ok _ s(1), of fp cfg flags ?st1] j(1) free s(2) by auto
      from one True s(2) have "reaches fp cfg flags bc n 1 (int j) st (int s) ?st1" by simp
      from reaches_trans [OF this st'(1)] st'(2) condition_bit [OF True sh(2)] s(1)
      show ?thesis by (auto simp: r_def Suc_diff_le)
    qed
  qed
  show ?thesis
    by (rule exI [of _ c], rule exI [of _ sh])
       (use sh imm visit in \<open>simp add: s_def [symmetric]\<close>)
qed

text \<open>So a branch is taken at most twice in a row.\<close>

lemma branch_exit:
  assumes ok: "code_ok bc n" and j: "j < n" "bc_type (bc ! j) = CBRANCH"
  shows "\<exists>m st'. m \<le> 1 + 2 * (Suc j - nat (target (bc ! j) + 1)) \<and>
    reaches fp cfg flags bc n m (int j) st (int (Suc j)) st'"
proof -
  let ?R = "reaches fp cfg flags bc n" and ?I = "bc_imm (bc ! j)"
  let ?d = "Suc j - nat (target (bc ! j) + 1)"
  obtain c sh where sh: "0 < sh" "sh < 63" "bit ?I sh" "\<not> bit ?I (sh - 1)"
    and visit: "\<forall>st. (\<exists>st'. ?R 1 (int j) st (int (Suc j)) st') \<or>
      (\<exists>st'. ?R ?d (int j) st (int j) st' \<and> b_r st' c = b_r st c + ?I \<and> \<not> bit (b_r st' c) sh)"
    using branch_visit [OF ok j, of fp cfg flags] by (elim exE conjE)
  show ?thesis
  proof (cases "\<exists>st'. ?R 1 (int j) st (int (Suc j)) st'")
    case True
    then show ?thesis by (meson le_add1)
  next
    case False
    then obtain st1 where 1: "?R ?d (int j) st (int j) st1" "b_r st1 c = b_r st c + ?I"
      "\<not> bit (b_r st1 c) sh" using visit by blast
    show ?thesis
    proof (cases "\<exists>st'. ?R 1 (int j) st1 (int (Suc j)) st'")
      case True
      then obtain st' where "?R 1 (int j) st1 (int (Suc j)) st'" by blast
      from reaches_trans [OF 1(1) this] show ?thesis by (intro exI conjI) auto
    next
      case False
      then obtain st2 where 2: "?R ?d (int j) st1 (int j) st2" "b_r st2 c = b_r st1 c + ?I"
        "\<not> bit (b_r st2 c) sh" using visit by blast
      have "\<exists>st'. ?R 1 (int j) st2 (int (Suc j)) st'"
        using visit [rule_format, of st2] no_three_clear [OF sh, of "b_r st1 c"] 1(3) 2(2,3) by auto
      then obtain st' where "?R 1 (int j) st2 (int (Suc j)) st'" by blast
      from reaches_trans [OF reaches_trans [OF 1(1) 2(1)] this] show ?thesis by (intro exI conjI) auto
    qed
  qed
qed

lemma run_to_end:
  assumes ok: "code_ok bc n"
  shows "i \<le> n \<Longrightarrow> (\<And>j. i \<le> j \<Longrightarrow> j < n \<Longrightarrow> bc_type (bc ! j) = CBRANCH \<Longrightarrow> int i \<le> target (bc ! j) + 1) \<Longrightarrow>
    \<exists>m st'. m \<le> 3 * (n - i) \<and> reaches fp cfg flags bc n m (int i) st (int n) st'"
proof (induction "n - i" arbitrary: i st rule: less_induct)
  case less
  show ?case
  proof (cases "\<exists>j. i \<le> j \<and> j < n \<and> bc_type (bc ! j) = CBRANCH")
    case False
    with straight_run [OF ok le_refl less.prems(1), of fp cfg flags st] obtain st' where
      "reaches fp cfg flags bc n (n - i) (int i) st (int n) st'" by blast
    then show ?thesis by (intro exI conjI) auto
  next
    case True
    define j where "j = (LEAST j. i \<le> j \<and> j < n \<and> bc_type (bc ! j) = CBRANCH)"
    from LeastI_ex [OF True] have j: "i \<le> j" "j < n" "bc_type (bc ! j) = CBRANCH" by (auto simp: j_def)
    have "bc_type (bc ! k) \<noteq> CBRANCH" if "i \<le> k" "k < j" for k
      using not_less_Least [of k, folded j_def] that j(2) unfolding j_def [symmetric]
      by (metis (mono_tags, lifting) j_def less_trans not_less_Least)
    with straight_run [OF ok less_imp_le [OF j(2)] j(1), of fp cfg flags st] obtain st1 where
      1: "reaches fp cfg flags bc n (j - i) (int i) st (int j) st1" by blast
    from branch_exit [OF ok j(2,3)] obtain m2 st2 where
      2: "m2 \<le> 1 + 2 * (Suc j - nat (target (bc ! j) + 1))"
         "reaches fp cfg flags bc n m2 (int j) st1 (int (Suc j)) st2" by blast
    have later: "int (Suc j) \<le> target (bc ! k) + 1" if "Suc j \<le> k" "k < n" "bc_type (bc ! k) = CBRANCH" for k
    proof (rule ccontr)
      assume "\<not> int (Suc j) \<le> target (bc ! k) + 1"
      then have "target (bc ! k) < int j" "j < k" using that by auto
      moreover have "branch_ok bc k" using ok that by (auto simp: code_ok_def)
      ultimately show False using j(3) unfolding branch_ok_def by blast
    qed
    have "n - Suc j < n - i" "Suc j \<le> n" using j by linarith+
    from less.hyps [OF this later] obtain m3 st3 where
      3: "m3 \<le> 3 * (n - Suc j)" "reaches fp cfg flags bc n m3 (int (Suc j)) st2 (int n) st3" by blast
    have "Suc j - nat (target (bc ! j) + 1) \<le> Suc j - i"
      using less.prems(2) [OF j] by linarith
    then have "j - i + m2 + m3 \<le> 3 * (n - i)" using 2(1) 3(1) j by linarith
    with reaches_trans [OF reaches_trans [OF 1 2(2)] 3(2)] show ?thesis by blast
  qed
qed

text \<open>Code that compilation produced runs to its end within three rounds for every instruction.\<close>

lemma exec_loop_finishes:
  assumes "code_ok bc n"
  shows "\<exists>st'. exec_loop (3 * n) fp cfg flags bc n 0 st = Finished st'"
proof -
  have "int 0 \<le> target (bc ! j) + 1" if "j < n" "bc_type (bc ! j) = CBRANCH" for j
    using assms that by (auto simp: code_ok_def branch_ok_def)
  with run_to_end [OF assms, of 0 fp cfg flags st] obtain m st' where
    m: "m \<le> 3 * n" "reaches fp cfg flags bc n m 0 st (int n) st'" by auto
  have "exec_loop m fp cfg flags bc n 0 st = Finished st'"
    using m(2) [unfolded reaches_def, rule_format, of 0] by simp
  from exec_loop_more [OF this m(1)] show ?thesis by blast
qed

section \<open>Memory safety\<close>

text \<open>
  \<open>overlay st m\<close> replaces everything outside the scratchpad by \<open>m\<close>. Execution commutes with
  it: it neither reads nor writes outside the scratchpad.
\<close>

definition splice :: "mem \<Rightarrow> mem \<Rightarrow> mem" where
  "splice m1 m = (\<lambda>i. if i < ScratchpadSize then m1 i else m i)"

definition overlay :: "bstate \<Rightarrow> mem \<Rightarrow> bstate" where
  "overlay st m = st\<lparr>b_mem := splice (b_mem st) m\<rparr>"

lemma overlay_simps [simp]:
  "b_r (overlay st m) = b_r st" "b_f (overlay st m) = b_f st" "b_e (overlay st m) = b_e st"
  "b_a (overlay st m) = b_a st" "b_rm (overlay st m) = b_rm st"
  "b_mem (overlay st m) = splice (b_mem st) m"
  "(overlay st m)\<lparr>b_r := r\<rparr> = overlay (st\<lparr>b_r := r\<rparr>) m"
  "(overlay st m)\<lparr>b_f := f\<rparr> = overlay (st\<lparr>b_f := f\<rparr>) m"
  "(overlay st m)\<lparr>b_e := f\<rparr> = overlay (st\<lparr>b_e := f\<rparr>) m"
  "(overlay st m)\<lparr>b_rm := v\<rparr> = overlay (st\<lparr>b_rm := v\<rparr>) m"
  "(overlay st m)\<lparr>b_mem := splice m1 m\<rparr> = overlay (st\<lparr>b_mem := m1\<rparr>) m"
  by (simp_all add: overlay_def)

lemma overlay_self: "overlay st (b_mem st) = st"
  by (simp add: overlay_def splice_def)

lemma unat_ucast_u32_le: "unat (ucast (x::u64) :: u32) \<le> unat x"
  by (simp add: unsigned_ucast_eq take_bit_eq_mod)

lemma splice_cells:
  assumes "a + 8 \<le> ScratchpadSize"
  shows "load64 (splice m1 m) a = load64 m1 a" "load32 (splice m1 m) a = load32 m1 a"
    "load32 (splice m1 m) (a + 4) = load32 m1 (a + 4)"
    "store64 (splice m1 m) a v = splice (store64 m1 a v) m"
proof -
  show "load64 (splice m1 m) a = load64 m1 a" "load32 (splice m1 m) a = load32 m1 a"
    "load32 (splice m1 m) (a + 4) = load32 m1 (a + 4)"
    using assms by (auto intro!: c64.load_cong c32.load_cong simp: splice_def)
  show "store64 (splice m1 m) a v = splice (store64 m1 a v) m"
  proof
    fix i show "store64 (splice m1 m) a v i = splice (store64 m1 a v) m i"
      using assms by (cases "a \<le> i \<and> i < a + 8")
        (auto simp: c64.store_outside splice_def intro: c64.store_inside)
  qed
qed

lemma isrc_val_overlay [simp]: "isrc_val ibc (overlay st m) = isrc_val ibc st"
  "fsrc_val ibc (overlay st m) = fsrc_val ibc st" "idst_val ibc (overlay st m) = idst_val ibc st"
  by (auto simp: isrc_val_def fsrc_val_def idst_val_def split: src_ref.splits dst_ref.splits)

lemma upd_overlay [simp]:
  "upd_idst ibc g (overlay st m) = map_option (\<lambda>s. overlay s m) (upd_idst ibc g st)"
  "upd_fdst ibc h (overlay st m) = map_option (\<lambda>s. overlay s m) (upd_fdst ibc h st)"
  by (auto simp: upd_idst_def upd_fdst_def split: dst_ref.splits)

lemma address_in_scratchpad:
  assumes "mask_ok (bc_memMask ibc)" "getScratchpadAddress ibc st = Some a"
  shows "a + 8 \<le> ScratchpadSize"
proof -
  obtain s where "a = unat (ucast ((s + bc_imm ibc) AND ucast (bc_memMask ibc)) :: u32)"
    using assms(2) by (auto simp: getScratchpadAddress_def bind_eq_Some_conv)
  also have "\<dots> \<le> unat ((s + bc_imm ibc) AND ucast (bc_memMask ibc))" by (rule unat_ucast_u32_le)
  finally show ?thesis using masked_in_scratchpad [OF assms(1), of "s + bc_imm ibc"] by linarith
qed

lemma getScratchpadAddress_overlay [simp]:
  "getScratchpadAddress ibc (overlay st m) = getScratchpadAddress ibc st"
  by (simp add: getScratchpadAddress_def)

lemma loads_overlay:
  assumes "mask_ok (bc_memMask ibc)"
  shows "load_src ibc (overlay st m) = load_src ibc st"
    "cvt_src fp ibc (overlay st m) = cvt_src fp ibc st"
  using address_in_scratchpad [OF assms]
  by (cases "getScratchpadAddress ibc st";
      simp add: load_src_def cvt_src_def rx_cvt_packed_int_vec_f128_def splice_cells)+

lemma map_option_bind_out: "map_option f (Option.bind x g) = Option.bind x (\<lambda>y. map_option f (g y))"
  by (cases x) simp_all

lemma bind_map_option_in: "Option.bind (map_option f x) g = Option.bind x (\<lambda>y. g (f y))"
  by (cases x) simp_all

lemma execute_overlay:
  assumes "wf_ibc ibc"
  shows "executeInstruction fp cfg flags ibc pc (overlay st m) =
    map_option (\<lambda>(pc', s). (pc', overlay s m)) (executeInstruction fp cfg flags ibc pc st)"
  using wf_ibc_operands(1,4) [OF assms]
  by (cases "bc_type ibc"; simp add: executeInstruction_def exe_defs mem_types_def option.map_comp o_def
      map_option_bind_out bind_map_option_in loads_overlay splice_cells masked_in_scratchpad Let_def;
      cases "isrc_val ibc st"; simp add: exe_ISWAP_R_def split: dst_ref.splits src_ref.splits)

lemma exec_loop_overlay:
  assumes "code_ok bc n"
  shows "exec_loop k fp cfg flags bc n pc (overlay st m) =
    map_run (\<lambda>s. overlay s m) (exec_loop k fp cfg flags bc n pc st)"
proof (induction k arbitrary: pc st)
  case (Suc k)
  show ?case
  proof (cases "0 \<le> pc \<and> pc < int n")
    case True
    then have "wf_ibc (bc ! nat pc)" using assms by (auto simp: code_ok_def)
    then show ?thesis by (auto simp: execute_overlay Suc.IH split: option.splits)
  qed auto
qed simp

lemma exec_loop_frame:
  assumes "code_ok bc n" "exec_loop k fp cfg flags bc n pc st = Finished st'" "ScratchpadSize \<le> i"
  shows "b_mem st' i = b_mem st i"
proof -
  have "Finished st' = Finished (overlay st' (b_mem st))"
    using exec_loop_overlay [OF assms(1), of k fp cfg flags pc st "b_mem st"] assms(2)
    by (simp only: overlay_self run.map)
  then show ?thesis using assms(3) by (metis linorder_not_less overlay_simps(6) run.inject splice_def)
qed

section \<open>Properties of compiled programs\<close>

text \<open>A concrete program and bytecode array, for the witnesses: a branch to the start and a store.\<close>

definition instr0 :: Instruction where
  "instr0 = \<lparr>i_opcode = 0xd6, i_dst = 0, i_src = 0, i_mod = 0, i_imm32 = 0\<rparr>"

definition ibc0 :: InstructionByteCode where
  "ibc0 = \<lparr>bc_dst = DstR 0, bc_src = SrcZero, bc_imm = 0, bc_type = NOP, bc_target_shift = 0, bc_memMask = 0\<rparr>"

definition fpu0 :: fpu where
  "fpu0 = \<lparr>fp_add = (\<lambda>_ x _. x), fp_sub = (\<lambda>_ x _. x), fp_mul = (\<lambda>_ x _. x), fp_div = (\<lambda>_ x _. x),
     fp_sqrt = (\<lambda>_ x. x), fp_of_int32 = ucast\<rparr>"

definition cfg0 :: ProgramConfiguration where
  "cfg0 = \<lparr>eMask0 = 0, eMask1 = 0, readReg0 = 0, readReg1 = 2, readReg2 = 4, readReg3 = 6\<rparr>"

definition bstate0 :: bstate where
  "bstate0 = \<lparr>b_r = (\<lambda>_. 0), b_f = (\<lambda>_. (0, 0)), b_e = (\<lambda>_. (0, 0)), b_a = (\<lambda>_. (0, 0)),
     b_mem = (\<lambda>_. 0), b_rm = 0\<rparr>"

text \<open>C14: Compilation of any program into a bytecode array that is long enough succeeds, and
  running the result from any machine state ends, without undefined behaviour, within three
  rounds of the interpreter loop for every instruction of the program.\<close>

theorem compiled_program_terminates:
  assumes "program_size flags \<le> length bc"
  shows "\<exists>code st'. compileProgram prog bc flags = Some code \<and>
    exec_loop (3 * program_size flags) fp cfg flags code (program_size flags) 0 st = Finished st' \<and>
    executeBytecode fp cfg flags code st = Finished st'"
  using compileProgram_code_ok [OF assms, of prog] exec_loop_finishes [of _ "program_size flags" fp cfg flags st]
  by (auto simp: executeBytecode_def)

theorem compiled_program_terminates_witness:
  "\<exists>code st'. compileProgram (replicate 256 instr0) (replicate 384 ibc0) 0 = Some code \<and>
    exec_loop (3 * program_size 0) fpu0 cfg0 0 code (program_size 0) 0 bstate0 = Finished st' \<and>
    executeBytecode fpu0 cfg0 0 code bstate0 = Finished st'"
  by (rule compiled_program_terminates) (simp add: program_size_def config has_flag_def)

text \<open>C15: Compiled code is memory safe: a run neither reads nor writes outside the scratchpad.
  With the memory outside it replaced by anything, the run ends with the same registers and
  scratchpad, and leaves the replacement as it was.\<close>

theorem compiled_program_memory_safe:
  assumes "program_size flags \<le> length bc" "compileProgram prog bc flags = Some code"
  shows "\<exists>st'. executeBytecode fp cfg flags code st = Finished st' \<and>
    executeBytecode fp cfg flags code (overlay st m) = Finished (overlay st' m) \<and>
    (\<forall>i. ScratchpadSize \<le> i \<longrightarrow> b_mem st' i = b_mem st i)"
proof -
  have ok: "code_ok code (program_size flags)"
    using compileProgram_code_ok [OF assms(1), of prog] assms(2) by auto
  obtain st' where st': "executeBytecode fp cfg flags code st = Finished st'"
    using exec_loop_finishes [OF ok, of fp cfg flags st] by (auto simp: executeBytecode_def)
  with exec_loop_overlay [OF ok] exec_loop_frame [OF ok] show ?thesis
    unfolding executeBytecode_def by (metis (no_types, lifting) run.map(1))
qed

theorem compiled_program_memory_safe_witness:
  "\<exists>code st'. compileProgram (replicate 256 instr0) (replicate 384 ibc0) 0 = Some code \<and>
    executeBytecode fpu0 cfg0 0 code (overlay bstate0 (\<lambda>_. 7)) = Finished (overlay st' (\<lambda>_. 7))"
proof -
  have size: "program_size 0 \<le> length (replicate 384 ibc0)"
    by (simp add: program_size_def config has_flag_def)
  then obtain code where "compileProgram (replicate 256 instr0) (replicate 384 ibc0) 0 = Some code"
    using compileProgram_code_ok by blast
  with compiled_program_memory_safe [OF size this] show ?thesis by blast
qed


lemma example_compiled:
  obtains code where "compileProgram (replicate 256 instr0) (replicate 384 ibc0) 0 = Some code"
    "program_size 0 \<le> length (replicate 384 ibc0)" "7 < program_size 0" "bc_type (code ! 7) = CBRANCH"
proof -
  have size: "program_size 0 \<le> length (replicate 384 ibc0)" "7 < program_size 0"
    by (simp_all add: program_size_def config has_flag_def)
  then obtain code where code: "compileProgram (replicate 256 instr0) (replicate 384 ibc0) 0 = Some code"
    using compileProgram_code_ok by blast
  have "type_of_opcode (unat (i_opcode (replicate 256 instr0 ! 7))) = Some CBRANCH"
    by (simp add: instr0_def type_of_opcode_def config)
  with compileProgram_branch_iff [OF code size] that code size show ?thesis by blast
qed


text \<open>A branch of compiled code is not taken three times in a row: when it is executed
  three times and nothing else writes its condition register in between, one of the three
  executions falls through (\<^verbatim>\<open>clear the bit below the condition mask\<close>).\<close>

theorem at_most_two_successive_jumps:
  assumes "program_size flags \<le> length bc" "compileProgram prog bc flags = Some code"
    "j < program_size flags" "bc_type (code ! j) = CBRANCH" "bc_dst (code ! j) = DstR c"
    "exe_CBRANCH (code ! j) (int j) st1 = Some (pc1, st1')"
    "exe_CBRANCH (code ! j) (int j) st2 = Some (pc2, st2')" "b_r st2 c = b_r st1' c"
    "exe_CBRANCH (code ! j) (int j) st3 = Some (pc3, st3')" "b_r st3 c = b_r st2' c"
  shows "pc1 = int j \<or> pc2 = int j \<or> pc3 = int j"
proof -
  have "code_ok code (program_size flags)"
    using compileProgram_code_ok [OF assms(1), of prog] assms(2) by auto
  then have "branch_ok code j" using assms(3,4) by (simp add: code_ok_def)
  then obtain sh where sh: "8 \<le> sh" "sh < 24" "bit (bc_imm (code ! j)) sh"
    "\<not> bit (bc_imm (code ! j)) (sh - 1)" "bc_memMask (code ! j) = push_bit sh 255"
    by (auto simp: branch_ok_def)
  have jump: "pc = int j \<or> \<not> bit (b_r st c + bc_imm (code ! j)) sh" "b_r st' c = b_r st c + bc_imm (code ! j)"
    if "exe_CBRANCH (code ! j) (int j) st = Some (pc, st')" for pc st st'
    using that condition_bit [OF _ sh(2)]
    by (auto simp: exe_CBRANCH_def upd_idst_def idst_val_def assms(5) sh(5) split: if_splits)
  have "0 < sh" "sh < 63" using sh by auto
  from no_three_clear [OF this sh(3,4), of "b_r st1 c + bc_imm (code ! j)"]
  show ?thesis using jump [OF assms(6)] jump [OF assms(7)] jump [OF assms(9)] assms(8,10) by auto
qed

theorem at_most_two_successive_jumps_witness:
  "\<exists>code pc1 pc2 pc3 st1 st2 st3.
     compileProgram (replicate 256 instr0) (replicate 384 ibc0) 0 = Some code \<and>
     exe_CBRANCH (code ! 7) 7 bstate0 = Some (pc1, st1) \<and> exe_CBRANCH (code ! 7) 7 st1 = Some (pc2, st2) \<and>
     exe_CBRANCH (code ! 7) 7 st2 = Some (pc3, st3) \<and> (pc1 = 7 \<or> pc2 = 7 \<or> pc3 = 7)"
proof -
  obtain code where ex: "compileProgram (replicate 256 instr0) (replicate 384 ibc0) 0 = Some code"
    "program_size 0 \<le> length (replicate 384 ibc0)" "7 < program_size 0" "bc_type (code ! 7) = CBRANCH"
    by (rule example_compiled)
  then obtain c where c: "bc_dst (code ! 7) = DstR c" using
    compileProgram_code_ok [OF ex(2), of "replicate 256 instr0"] by (auto simp: code_ok_def branch_ok_def)
  have run: "\<exists>pc st'. exe_CBRANCH (code ! 7) 7 st = Some (pc, st')" for st
    by (simp add: exe_CBRANCH_def upd_idst_def idst_val_def c)
  obtain pc1 st1 pc2 st2 pc3 st3 where
    "exe_CBRANCH (code ! 7) 7 bstate0 = Some (pc1, st1)" "exe_CBRANCH (code ! 7) 7 st1 = Some (pc2, st2)"
    "exe_CBRANCH (code ! 7) 7 st2 = Some (pc3, st3)" using run by metis
  with at_most_two_successive_jumps [OF ex(2,1,3,4) c, of bstate0 pc1 st1 st1 pc2 st2 st2 pc3 st3] ex(1)
  show ?thesis by auto
qed

end
