(* ===== verification/Aes_Hash.thy ===== *)
theory Aes_Hash
  imports Soft_Aes
begin

text \<open>
  The AES based hash and generators of \<^verbatim>\<open>aes_hash.cpp\<close>: \<^verbatim>\<open>hashAes1Rx4\<close>,
  \<^verbatim>\<open>fillAes1Rx4\<close>, \<^verbatim>\<open>fillAes4Rx4\<close> and the fused \<^verbatim>\<open>hashAndFillAes1Rx4\<close>, in the
  portable version. The template parameter \<^verbatim>\<open>softAes\<close> is an argument; the two rounds of
  the processor are the argument \<open>hw\<close>. Buffers that do not overlap in the code are separate
  memories, a pointer is an offset.
\<close>

section \<open>Vector memory access\<close>

definition rx_load_vec_i128 :: "mem \<Rightarrow> nat \<Rightarrow> vec_i128" where
  "rx_load_vec_i128 m a = (load32 m a, load32 m (a + 4), load32 m (a + 8), load32 m (a + 12))"

definition rx_store_vec_i128 :: "mem \<Rightarrow> nat \<Rightarrow> vec_i128 \<Rightarrow> mem" where
  "rx_store_vec_i128 m a v =
     store32 (store32 (store32 (store32 m a (fst v)) (a + 4) (fst (snd v))) (a + 8) (fst (snd (snd v))))
       (a + 12) (snd (snd (snd v)))"

text \<open>Sixteen bytes behave as a memory cell.\<close>

interpretation c128: cell_access 16 rx_load_vec_i128 rx_store_vec_i128
proof unfold_locales
  show "rx_load_vec_i128 (rx_store_vec_i128 m a v) a = v" for m a v
    by (cases v) (simp add: rx_load_vec_i128_def rx_store_vec_i128_def c32.load_store_same c32.load_store_other)
  show "rx_store_vec_i128 m a (rx_load_vec_i128 m a) = m" for m a
    by (simp add: rx_load_vec_i128_def rx_store_vec_i128_def c32.store_load_same)
  show "rx_store_vec_i128 m a v i = m i" if "i < a \<or> a + 16 \<le> i" for i a m v
    using that by (auto simp: rx_store_vec_i128_def c32.store_outside)
  show "rx_store_vec_i128 m a v i = rx_store_vec_i128 m' a v i" if "a \<le> i" "i < a + 16" for m m' a v i
  proof -
    consider "i < a + 4" | "a + 4 \<le> i" "i < a + 8" | "a + 8 \<le> i" "i < a + 12" | "a + 12 \<le> i"
      by linarith
    then show ?thesis
      by cases (insert that, simp_all add: rx_store_vec_i128_def c32.store_outside, (rule c32.store_inside; simp)+)
  qed
  show "rx_load_vec_i128 m a = rx_load_vec_i128 m' a" if "\<And>i. a \<le> i \<Longrightarrow> i < a + 16 \<Longrightarrow> m i = m' i" for m m' a
    unfolding rx_load_vec_i128_def by (intro arg_cong2 [of _ _ _ _ Pair] c32.load_cong that) auto
qed

section \<open>Rounds and lanes\<close>

type_synonym aes_hw = "(vec_i128 \<Rightarrow> vec_i128 \<Rightarrow> vec_i128) \<times> (vec_i128 \<Rightarrow> vec_i128 \<Rightarrow> vec_i128)"

definition aesenc :: "bool \<Rightarrow> aes_hw \<Rightarrow> vec_i128 \<Rightarrow> vec_i128 \<Rightarrow> vec_i128" where
  "aesenc soft hw v key = (if soft then soft_aesenc v key else fst hw v key)"

definition aesdec :: "bool \<Rightarrow> aes_hw \<Rightarrow> vec_i128 \<Rightarrow> vec_i128 \<Rightarrow> vec_i128" where
  "aesdec soft hw v key = (if soft then soft_aesdec v key else snd hw v key)"

text \<open>The four state registers of a function.\<close>

datatype lanes4 = Lanes (lane0: vec_i128) (lane1: vec_i128) (lane2: vec_i128) (lane3: vec_i128)

definition load_lanes :: "mem \<Rightarrow> nat \<Rightarrow> lanes4" where
  "load_lanes m p = Lanes (rx_load_vec_i128 m p) (rx_load_vec_i128 m (p + 16))
     (rx_load_vec_i128 m (p + 32)) (rx_load_vec_i128 m (p + 48))"

definition store_lanes :: "mem \<Rightarrow> nat \<Rightarrow> lanes4 \<Rightarrow> mem" where
  "store_lanes m p s = rx_store_vec_i128 (rx_store_vec_i128 (rx_store_vec_i128 (rx_store_vec_i128 m
     p (lane0 s)) (p + 16) (lane1 s)) (p + 32) (lane2 s)) (p + 48) (lane3 s)"

interpretation c512: cell_access 64 load_lanes store_lanes
proof unfold_locales
  show "load_lanes (store_lanes m a v) a = v" for m a v
    by (cases v) (simp add: load_lanes_def store_lanes_def c128.load_store_same c128.load_store_other)
  show "store_lanes m a (load_lanes m a) = m" for m a
    by (simp add: load_lanes_def store_lanes_def c128.store_load_same)
  show "store_lanes m a v i = m i" if "i < a \<or> a + 64 \<le> i" for i a m v
    using that by (auto simp: store_lanes_def c128.store_outside)
  show "store_lanes m a v i = store_lanes m' a v i" if "a \<le> i" "i < a + 64" for m m' a v i
  proof -
    consider "i < a + 16" | "a + 16 \<le> i" "i < a + 32" | "a + 32 \<le> i" "i < a + 48" | "a + 48 \<le> i"
      by linarith
    then show ?thesis
      by cases (insert that, simp_all add: store_lanes_def c128.store_outside, (rule c128.store_inside; simp)+)
  qed
  show "load_lanes m a = load_lanes m' a" if "\<And>i. a \<le> i \<Longrightarrow> i < a + 64 \<Longrightarrow> m i = m' i" for m m' a
    by (simp add: load_lanes_def c128.load_cong [of a m m'] c128.load_cong [of "a + 16" m m']
        c128.load_cong [of "a + 32" m m'] c128.load_cong [of "a + 48" m m'] that)
qed

text \<open>Lanes 0 and 2 encrypt and lanes 1 and 3 decrypt in the hash, the reverse in the generators.\<close>

definition hash_round :: "bool \<Rightarrow> aes_hw \<Rightarrow> lanes4 \<Rightarrow> lanes4 \<Rightarrow> lanes4" where
  "hash_round soft hw s k = Lanes (aesenc soft hw (lane0 s) (lane0 k)) (aesdec soft hw (lane1 s) (lane1 k))
     (aesenc soft hw (lane2 s) (lane2 k)) (aesdec soft hw (lane3 s) (lane3 k))"

definition fill_round :: "bool \<Rightarrow> aes_hw \<Rightarrow> lanes4 \<Rightarrow> lanes4 \<Rightarrow> lanes4" where
  "fill_round soft hw s k = Lanes (aesdec soft hw (lane0 s) (lane0 k)) (aesenc soft hw (lane1 s) (lane1 k))
     (aesdec soft hw (lane2 s) (lane2 k)) (aesenc soft hw (lane3 s) (lane3 k))"

section \<open>Constants\<close>

definition AES_HASH_1R_STATE0 :: vec_i128 where
  "AES_HASH_1R_STATE0 = rx_set_int_vec_i128 0xd7983aad 0xcc82db47 0x9fa856de 0x92b52c0d"
definition AES_HASH_1R_STATE1 :: vec_i128 where
  "AES_HASH_1R_STATE1 = rx_set_int_vec_i128 0xace78057 0xf59e125a 0x15c7b798 0x338d996e"
definition AES_HASH_1R_STATE2 :: vec_i128 where
  "AES_HASH_1R_STATE2 = rx_set_int_vec_i128 0xe8a07ce4 0x5079506b 0xae62c7d0 0x6a770017"
definition AES_HASH_1R_STATE3 :: vec_i128 where
  "AES_HASH_1R_STATE3 = rx_set_int_vec_i128 0x7e994948 0x79a10005 0x07ad828d 0x630a240c"
definition AES_HASH_1R_XKEY0 :: vec_i128 where
  "AES_HASH_1R_XKEY0 = rx_set_int_vec_i128 0x06890201 0x90dc56bf 0x8b24949f 0xf6fa8389"
definition AES_HASH_1R_XKEY1 :: vec_i128 where
  "AES_HASH_1R_XKEY1 = rx_set_int_vec_i128 0xed18f99b 0xee1043c6 0x51f4e03c 0x61b263d1"
definition AES_GEN_1R_KEY0 :: vec_i128 where
  "AES_GEN_1R_KEY0 = rx_set_int_vec_i128 0xb4f44917 0xdbb5552b 0x62716609 0x6daca553"
definition AES_GEN_1R_KEY1 :: vec_i128 where
  "AES_GEN_1R_KEY1 = rx_set_int_vec_i128 0x0da1dc4e 0x1725d378 0x846a710d 0x6d7caf07"
definition AES_GEN_1R_KEY2 :: vec_i128 where
  "AES_GEN_1R_KEY2 = rx_set_int_vec_i128 0x3e20e345 0xf4c0794f 0x9f947ec6 0x3f1262f1"
definition AES_GEN_1R_KEY3 :: vec_i128 where
  "AES_GEN_1R_KEY3 = rx_set_int_vec_i128 0x49169154 0x16314c88 0xb1ba317c 0x6aef8135"
definition AES_GEN_4R_KEY0 :: vec_i128 where
  "AES_GEN_4R_KEY0 = rx_set_int_vec_i128 0x99e5d23f 0x2f546d2b 0xd1833ddb 0x6421aadd"
definition AES_GEN_4R_KEY1 :: vec_i128 where
  "AES_GEN_4R_KEY1 = rx_set_int_vec_i128 0xa5dfcde5 0x06f79d53 0xb6913f55 0xb20e3450"
definition AES_GEN_4R_KEY2 :: vec_i128 where
  "AES_GEN_4R_KEY2 = rx_set_int_vec_i128 0x171c02bf 0x0aa4679f 0x515e7baf 0x5c3ed904"
definition AES_GEN_4R_KEY3 :: vec_i128 where
  "AES_GEN_4R_KEY3 = rx_set_int_vec_i128 0xd8ded291 0xcd673785 0xe78f5d08 0x85623763"
definition AES_GEN_4R_KEY4 :: vec_i128 where
  "AES_GEN_4R_KEY4 = rx_set_int_vec_i128 0x229effb4 0x3d518b6d 0xe3d6a7a6 0xb5826f73"
definition AES_GEN_4R_KEY5 :: vec_i128 where
  "AES_GEN_4R_KEY5 = rx_set_int_vec_i128 0xb272b7d2 0xe9024d4e 0x9c10b3d9 0xc7566bf3"
definition AES_GEN_4R_KEY6 :: vec_i128 where
  "AES_GEN_4R_KEY6 = rx_set_int_vec_i128 0xf63befa7 0x2ba9660a 0xf765a38b 0xf273c9e7"
definition AES_GEN_4R_KEY7 :: vec_i128 where
  "AES_GEN_4R_KEY7 = rx_set_int_vec_i128 0xc0b0762d 0x0c06d1fd 0x915839de 0x7a7cd609"

definition hash_init :: lanes4 where
  "hash_init = Lanes AES_HASH_1R_STATE0 AES_HASH_1R_STATE1 AES_HASH_1R_STATE2 AES_HASH_1R_STATE3"

definition gen_1R_keys :: lanes4 where
  "gen_1R_keys = Lanes AES_GEN_1R_KEY0 AES_GEN_1R_KEY1 AES_GEN_1R_KEY2 AES_GEN_1R_KEY3"

section \<open>The functions\<close>

function hash_loop :: "bool \<Rightarrow> aes_hw \<Rightarrow> mem \<Rightarrow> nat \<Rightarrow> nat \<Rightarrow> lanes4 \<Rightarrow> lanes4" where
  "hash_loop soft hw m inptr inputEnd s =
     (if inptr < inputEnd
      then hash_loop soft hw m (inptr + 64) inputEnd (hash_round soft hw s (load_lanes m inptr)) else s)"
  by pat_completeness auto
termination by (relation "measure (\<lambda>(_, _, _, p, e, _). e - p)") auto

declare hash_loop.simps [simp del]

text \<open>The two extra rounds.\<close>

definition hash_finish :: "bool \<Rightarrow> aes_hw \<Rightarrow> lanes4 \<Rightarrow> lanes4" where
  "hash_finish soft hw s =
    (let s1 = hash_round soft hw s (Lanes AES_HASH_1R_XKEY0 AES_HASH_1R_XKEY0 AES_HASH_1R_XKEY0 AES_HASH_1R_XKEY0)
     in hash_round soft hw s1 (Lanes AES_HASH_1R_XKEY1 AES_HASH_1R_XKEY1 AES_HASH_1R_XKEY1 AES_HASH_1R_XKEY1))"

definition hashAes1Rx4 :: "bool \<Rightarrow> aes_hw \<Rightarrow> mem \<Rightarrow> nat \<Rightarrow> mem \<Rightarrow> mem" where
  "hashAes1Rx4 soft hw input inputSize hash =
     store_lanes hash 0 (hash_finish soft hw (hash_loop soft hw input 0 inputSize hash_init))"

function fill_loop :: "(lanes4 \<Rightarrow> lanes4) \<Rightarrow> nat \<Rightarrow> nat \<Rightarrow> lanes4 \<Rightarrow> mem \<Rightarrow> lanes4 \<times> mem" where
  "fill_loop step outptr outputEnd s m =
     (if outptr < outputEnd
      then fill_loop step (outptr + 64) outputEnd (step s) (store_lanes m outptr (step s)) else (s, m))"
  by pat_completeness auto
termination by (relation "measure (\<lambda>(_, p, e, _, _). e - p)") auto

declare fill_loop.simps [simp del]

definition gen_1R :: "bool \<Rightarrow> aes_hw \<Rightarrow> lanes4 \<Rightarrow> lanes4" where
  "gen_1R soft hw s = fill_round soft hw s gen_1R_keys"

definition gen_4R :: "bool \<Rightarrow> aes_hw \<Rightarrow> lanes4 \<Rightarrow> lanes4" where
  "gen_4R soft hw s =
    (let s1 = fill_round soft hw s (Lanes AES_GEN_4R_KEY0 AES_GEN_4R_KEY0 AES_GEN_4R_KEY4 AES_GEN_4R_KEY4);
         s2 = fill_round soft hw s1 (Lanes AES_GEN_4R_KEY1 AES_GEN_4R_KEY1 AES_GEN_4R_KEY5 AES_GEN_4R_KEY5);
         s3 = fill_round soft hw s2 (Lanes AES_GEN_4R_KEY2 AES_GEN_4R_KEY2 AES_GEN_4R_KEY6 AES_GEN_4R_KEY6)
     in fill_round soft hw s3 (Lanes AES_GEN_4R_KEY3 AES_GEN_4R_KEY3 AES_GEN_4R_KEY7 AES_GEN_4R_KEY7))"

text \<open>\<^verbatim>\<open>fillAes1Rx4(state, outputSize, buffer)\<close>, \<^verbatim>\<open>buffer\<close> at the offset \<open>outp\<close>:
  the new state and the new buffer. \<^verbatim>\<open>fillAes4Rx4\<close> does not write the state back.\<close>

definition fillAes1Rx4 :: "bool \<Rightarrow> aes_hw \<Rightarrow> mem \<Rightarrow> nat \<Rightarrow> nat \<Rightarrow> mem \<Rightarrow> mem \<times> mem" where
  "fillAes1Rx4 soft hw st outputSize outp buffer =
    (case fill_loop (gen_1R soft hw) outp (outp + outputSize) (load_lanes st 0) buffer of
       (s, buffer') \<Rightarrow> (store_lanes st 0 s, buffer'))"

definition fillAes4Rx4 :: "bool \<Rightarrow> aes_hw \<Rightarrow> mem \<Rightarrow> nat \<Rightarrow> mem \<Rightarrow> mem" where
  "fillAes4Rx4 soft hw st outputSize buffer =
     snd (fill_loop (gen_4R soft hw) 0 outputSize (load_lanes st 0) buffer)"

text \<open>The fused loop; its end pointer is at first 4096 bytes before the end of the scratchpad and
  may lie before its start.\<close>

function fused_loop :: "bool \<Rightarrow> aes_hw \<Rightarrow> nat \<Rightarrow> int \<Rightarrow> lanes4 \<Rightarrow> lanes4 \<Rightarrow> mem
    \<Rightarrow> nat \<times> lanes4 \<times> lanes4 \<times> mem" where
  "fused_loop soft hw p e hs fs m =
     (if int p < e
      then let hs' = hash_round soft hw hs (load_lanes m p); fs' = fill_round soft hw fs gen_1R_keys
           in fused_loop soft hw (p + 64) e hs' fs' (store_lanes m p fs')
      else (p, hs, fs, m))"
  by pat_completeness auto
termination by (relation "measure (\<lambda>(_, _, p, e, _, _, _). nat (e - int p))") auto

declare fused_loop.simps [simp del]

definition PREFETCH_DISTANCE :: nat where "PREFETCH_DISTANCE = 4096"

definition hashAndFillAes1Rx4 :: "bool \<Rightarrow> aes_hw \<Rightarrow> mem \<Rightarrow> nat \<Rightarrow> mem \<Rightarrow> mem \<Rightarrow> mem \<times> mem \<times> mem" where
  "hashAndFillAes1Rx4 soft hw scratchpad scratchpadSize hash fill_state =
    (let e = int scratchpadSize - int PREFETCH_DISTANCE in
     case fused_loop soft hw 0 e hash_init (load_lanes fill_state 0) scratchpad of (p1, hs1, fs1, m1) \<Rightarrow>
     case fused_loop soft hw p1 (e + int PREFETCH_DISTANCE) hs1 fs1 m1 of (p2, hs2, fs2, m2) \<Rightarrow>
       (m2, store_lanes hash 0 (hash_finish soft hw hs2), store_lanes fill_state 0 fs2))"

section \<open>The generators\<close>

lemma fill_loop_done [simp]: "e \<le> p \<Longrightarrow> fill_loop step p e s m = (s, m)"
  by (subst fill_loop.simps) simp

lemma fill_loop_step: "p < e \<Longrightarrow>
    fill_loop step p e s m = fill_loop step (p + 64) e (step s) (store_lanes m p (step s))"
  by (subst fill_loop.simps) simp

text \<open>The address after the last block that begins before the end.\<close>

definition blocks_end :: "nat \<Rightarrow> nat \<Rightarrow> nat" where
  "blocks_end p e = p + 64 * ((e - p + 63) div 64)"

lemma blocks_end_step: "p < e \<Longrightarrow> blocks_end p e = blocks_end (p + 64) e"
  by (cases "e - p \<ge> 64") (auto simp: blocks_end_def div_if)

lemma blocks_end_done: "e \<le> p \<Longrightarrow> blocks_end p e = p"
  by (simp add: blocks_end_def)

lemma blocks_end_le: "p \<le> blocks_end p e" "p \<le> e \<Longrightarrow> e \<le> blocks_end p e"
proof -
  show "p \<le> blocks_end p e" by (simp add: blocks_end_def)
  have "e - p \<le> 64 * ((e - p + 63) div 64)" by linarith
  then show "p \<le> e \<Longrightarrow> e \<le> blocks_end p e" by (simp add: blocks_end_def)
qed

lemma fill_loop_outside:
  "i < p \<or> blocks_end p e \<le> i \<Longrightarrow> snd (fill_loop step p e s m) i = m i"
proof (induction step p e s m rule: fill_loop.induct)
  case (1 step p e s m)
  show ?case
  proof (cases "p < e")
    case True
    with 1 blocks_end_le(1) [of "p + 64" e] show ?thesis
      by (auto simp: fill_loop_step blocks_end_step c512.store_outside)
  qed simp
qed

lemma fill_loop_split:
  "e1 \<le> e2 \<Longrightarrow> fill_loop step p e2 s m =
    (case fill_loop step p e1 s m of (s1, m1) \<Rightarrow> fill_loop step (blocks_end p e1) e2 s1 m1)"
proof (induction step p e1 s m rule: fill_loop.induct)
  case (1 step p e1 s m)
  show ?case
  proof (cases "p < e1")
    case True
    have "fill_loop step p e2 s m = fill_loop step (p + 64) e2 (step s) (store_lanes m p (step s))"
      by (rule fill_loop_step) (use True 1(2) in simp)
    also have "\<dots> = (case fill_loop step (p + 64) e1 (step s) (store_lanes m p (step s)) of
        (s1, m1) \<Rightarrow> fill_loop step (blocks_end (p + 64) e1) e2 s1 m1)"
      by (rule 1(1) [OF True 1(2)])
    finally show ?thesis
      by (simp only: fill_loop_step [OF True, symmetric] blocks_end_step [OF True, symmetric])
  qed (simp add: blocks_end_done)
qed

lemma blocks_end_aligned: "blocks_end p (p + 64 * n) = p + 64 * n"
  by (simp add: blocks_end_def)

text \<open>Block \<open>k\<close> of the output is the state after \<open>k + 1\<close> steps.\<close>

lemma fill_loop_blocks:
  "fst (fill_loop step p (p + 64 * n) s m) = (step ^^ n) s \<and>
   (\<forall>k<n. load_lanes (snd (fill_loop step p (p + 64 * n) s m)) (p + 64 * k) = (step ^^ Suc k) s)"
proof (induction n)
  case (Suc n)
  obtain s1 m1 where before: "fill_loop step p (p + 64 * n) s m = (s1, m1)" by fastforce
  have split: "fill_loop step p (p + 64 * Suc n) s m =
      (step s1, store_lanes m1 (p + 64 * n) (step s1))"
    using fill_loop_split [of "p + 64 * n" "p + 64 * Suc n" step p s m] before
    by (simp add: blocks_end_aligned fill_loop_step)
  show ?case
  proof (intro conjI allI impI)
    show "fst (fill_loop step p (p + 64 * Suc n) s m) = (step ^^ Suc n) s"
      using Suc.IH before split by simp
    fix k assume "k < Suc n"
    then consider "k < n" | "k = n" by linarith
    then show "load_lanes (snd (fill_loop step p (p + 64 * Suc n) s m)) (p + 64 * k) = (step ^^ Suc k) s"
    proof cases
      case 1
      then have "load_lanes (store_lanes m1 (p + 64 * n) (step s1)) (p + 64 * k) = load_lanes m1 (p + 64 * k)"
        by (intro c512.load_store_other) simp
      with 1 Suc.IH before split show ?thesis by simp
    next
      case 2
      with Suc.IH before split show ?thesis by (simp add: c512.load_store_same)
    qed
  qed
qed simp

section \<open>The hash\<close>

lemma hash_loop_done [simp]: "e \<le> p \<Longrightarrow> hash_loop soft hw m p e s = s"
  by (subst hash_loop.simps) simp

lemma hash_loop_step: "p < e \<Longrightarrow>
    hash_loop soft hw m p e s = hash_loop soft hw m (p + 64) e (hash_round soft hw s (load_lanes m p))"
  by (subst hash_loop.simps) simp

lemma hash_loop_cong:
  "(\<And>i. p \<le> i \<Longrightarrow> m i = m' i) \<Longrightarrow> hash_loop soft hw m p e s = hash_loop soft hw m' p e s"
proof (induction soft hw m p e s rule: hash_loop.induct)
  case (1 soft hw m p e s)
  have "load_lanes m p = load_lanes m' p" by (rule c512.load_cong) (simp add: "1.prems")
  with 1 show ?case by (cases "p < e") (simp_all add: hash_loop_step)
qed

lemma hash_loop_split:
  "e1 \<le> e2 \<Longrightarrow>
    hash_loop soft hw m p e2 s = hash_loop soft hw m (blocks_end p e1) e2 (hash_loop soft hw m p e1 s)"
proof (induction soft hw m p e1 s rule: hash_loop.induct)
  case (1 soft hw m p e1 s)
  show ?case
  proof (cases "p < e1")
    case True
    have "hash_loop soft hw m p e2 s = hash_loop soft hw m (p + 64) e2 (hash_round soft hw s (load_lanes m p))"
      by (rule hash_loop_step) (use True 1(2) in simp)
    also have "\<dots> = hash_loop soft hw m (blocks_end (p + 64) e1) e2
        (hash_loop soft hw m (p + 64) e1 (hash_round soft hw s (load_lanes m p)))"
      by (rule 1(1) [OF True 1(2)])
    finally show ?thesis
      by (simp only: hash_loop_step [OF True, symmetric] blocks_end_step [OF True, symmetric])
  qed (simp add: blocks_end_done)
qed

section \<open>The fused function\<close>

text \<open>The fused loop writes a block only after it has read it.\<close>

lemma gen_1R_eta: "gen_1R soft hw = (\<lambda>s. fill_round soft hw s gen_1R_keys)"
  by (rule ext) (simp add: gen_1R_def)

lemma fused_loop_eq:
  "fused_loop soft hw p e hs fs m =
    (blocks_end p (nat e), hash_loop soft hw m p (nat e) hs,
     fst (fill_loop (gen_1R soft hw) p (nat e) fs m), snd (fill_loop (gen_1R soft hw) p (nat e) fs m))"
proof (induction soft hw p e hs fs m rule: fused_loop.induct)
  case (1 soft hw p e hs fs m)
  let ?fs = "fill_round soft hw fs gen_1R_keys"
  show ?case
  proof (cases "int p < e")
    case True
    then have p: "p < nat e" by simp
    have "hash_loop soft hw (store_lanes m p ?fs) (p + 64) (nat e) h = hash_loop soft hw m (p + 64) (nat e) h" for h
      by (rule hash_loop_cong) (simp add: c512.store_outside)
    with 1 True p show ?thesis
      by (subst fused_loop.simps)
        (simp add: Let_def hash_loop_step fill_loop_step blocks_end_step gen_1R_eta)
  next
    case False
    then have "nat e \<le> p" by simp
    with False show ?thesis by (subst fused_loop.simps) (simp add: blocks_end_done)
  qed
qed

lemma hashAndFill_eq:
  "hashAndFillAes1Rx4 soft hw scratchpad n hash st =
    (case fillAes1Rx4 soft hw st n 0 scratchpad of (st', scratchpad') \<Rightarrow>
       (scratchpad', hashAes1Rx4 soft hw scratchpad n hash, st'))"
proof -
  let ?g = "gen_1R soft hw" let ?e1 = "nat (int n - int PREFETCH_DISTANCE)"
  obtain fs1 m1 where fill1: "fill_loop ?g 0 ?e1 (load_lanes st 0) scratchpad = (fs1, m1)" by fastforce
  obtain fs2 m2 where fill2: "fill_loop ?g (blocks_end 0 ?e1) n fs1 m1 = (fs2, m2)" by fastforce
  have fill: "fill_loop ?g 0 n (load_lanes st 0) scratchpad = (fs2, m2)"
    using fill_loop_split [of ?e1 n ?g 0 "load_lanes st 0" scratchpad] fill1 fill2 by simp
  have "m1 i = scratchpad i" if "blocks_end 0 ?e1 \<le> i" for i
    using fill_loop_outside [of i 0 ?e1 ?g "load_lanes st 0" scratchpad] fill1 that by simp
  then have "hash_loop soft hw m1 (blocks_end 0 ?e1) n s = hash_loop soft hw scratchpad (blocks_end 0 ?e1) n s" for s
    by (rule hash_loop_cong)
  then have hash: "hash_loop soft hw m1 (blocks_end 0 ?e1) n (hash_loop soft hw scratchpad 0 ?e1 hash_init) =
      hash_loop soft hw scratchpad 0 n hash_init"
    using hash_loop_split [of ?e1 n soft hw scratchpad 0 hash_init] by simp
  show ?thesis
    by (simp add: hashAndFillAes1Rx4_def fused_loop_eq Let_def fill1 fill2 hash fill fillAes1Rx4_def hashAes1Rx4_def)
qed

text \<open>C27: the fused function does what the two separate functions do one after the other: it
  returns the hash of the old scratchpad and refills the scratchpad and the generator state as
  \<open>fillAes1Rx4\<close> does, for every scratchpad size and both AES implementations.\<close>

theorem hashAndFill_is_hash_then_fill:
  "hashAndFillAes1Rx4 soft hw scratchpad n hash st =
    (case fillAes1Rx4 soft hw st n 0 scratchpad of (st', scratchpad') \<Rightarrow>
       (scratchpad', hashAes1Rx4 soft hw scratchpad n hash, st'))"
  by (rule hashAndFill_eq)

text \<open>\<open>fillAes1Rx4\<close> can be continued: filling \<open>64 n\<close> bytes and then, with the state that was
  written back, \<open>k\<close> bytes behind them gives the state and the buffer of a single call for
  \<open>64 n + k\<close> bytes.\<close>

theorem fill_resumes:
  "fillAes1Rx4 soft hw st (64 * n + k) outp buf =
    (case fillAes1Rx4 soft hw st (64 * n) outp buf of
       (st', buf') \<Rightarrow> fillAes1Rx4 soft hw st' k (outp + 64 * n) buf')"
proof -
  let ?g = "gen_1R soft hw"
  obtain s1 m1 where one: "fill_loop ?g outp (outp + 64 * n) (load_lanes st 0) buf = (s1, m1)" by fastforce
  have "fill_loop ?g outp (outp + (64 * n + k)) (load_lanes st 0) buf = fill_loop ?g (outp + 64 * n) (outp + 64 * n + k) s1 m1"
    using fill_loop_split [of "outp + 64 * n" "outp + (64 * n + k)" ?g outp "load_lanes st 0" buf] one
    by (simp add: blocks_end_aligned add.assoc)
  then show ?thesis
    by (simp add: fillAes1Rx4_def one c512.load_store_same c512.store_store_same add.assoc split: prod.splits)
qed

text \<open>the output of the generator: block \<open>k\<close> is the state after \<open>k + 1\<close> rounds, the state written
  back is the one of the last block, and no byte outside the buffer changes.\<close>

theorem fill_output:
  "case fillAes1Rx4 soft hw st (64 * n) outp buf of (st', buf') \<Rightarrow>
     load_lanes st' 0 = (gen_1R soft hw ^^ n) (load_lanes st 0) \<and>
     (\<forall>k<n. load_lanes buf' (outp + 64 * k) = (gen_1R soft hw ^^ Suc k) (load_lanes st 0)) \<and>
     (\<forall>i. i < outp \<or> outp + 64 * n \<le> i \<longrightarrow> buf' i = buf i)"
proof -
  obtain s1 m1 where run: "fill_loop (gen_1R soft hw) outp (outp + 64 * n) (load_lanes st 0) buf = (s1, m1)"
    by fastforce
  have outside: "m1 i = buf i" if "i < outp \<or> outp + 64 * n \<le> i" for i
    using fill_loop_outside [of i outp "outp + 64 * n" "gen_1R soft hw" "load_lanes st 0" buf] run that
    by (simp add: blocks_end_aligned)
  show ?thesis
    using fill_loop_blocks [of "gen_1R soft hw" outp n "load_lanes st 0" buf] outside
    by (auto simp: fillAes1Rx4_def run c512.load_store_same)
qed

theorem fill_output_witness:
  "load_lanes (snd (fillAes1Rx4 True (aes_round, aes_inv_round) (\<lambda>_. 7) (64 * 4) 0 (\<lambda>_. 0))) (64 * 3) =
     (gen_1R True (aes_round, aes_inv_round) ^^ Suc 3) (load_lanes (\<lambda>_. 7) 0)"
proof -
  obtain st' buf' where run: "fillAes1Rx4 True (aes_round, aes_inv_round) (\<lambda>_. 7) (64 * 4) 0 (\<lambda>_. 0) = (st', buf')"
    by fastforce
  show ?thesis
    using fill_output [where n = 4 and soft = True and hw = "(aes_round, aes_inv_round)" and st = "\<lambda>_. 7"
        and outp = 0 and buf = "\<lambda>_. 0"]
    unfolding run prod.case snd_conv by (elim conjE allE [of _ 3]) simp
qed

section \<open>Any AES unit gives the same results\<close>

lemma xor_left_cancel: "k XOR a = k XOR b \<longleftrightarrow> a = (b :: 'a::len word)"
  by (metis xor_right_cancel xor.commute)

context aes_unit begin

lemma aesenc_any: "aesenc soft (enc, dec) = aesenc True hw"
  by (intro ext) (simp add: aesenc_def soft_aes.enc_round enc_round)

lemma aesdec_any: "aesdec soft (enc, dec) = aesdec True hw"
  by (intro ext) (simp add: aesdec_def soft_aes.dec_round dec_round)

lemma rounds_any: "hash_round soft (enc, dec) = hash_round True hw" "fill_round soft (enc, dec) = fill_round True hw"
  by (intro ext; simp add: hash_round_def fill_round_def aesenc_any [of soft hw] aesdec_any [of soft hw])+

lemma hash_loop_any: "hash_loop soft (enc, dec) m p e s = hash_loop True hw m p e s"
proof (induction soft "(enc, dec)" m p e s rule: hash_loop.induct)
  case (1 soft m p e s)
  then show ?case by (cases "p < e") (simp_all add: hash_loop_step rounds_any [of soft hw])
qed

lemma gens_any: "gen_1R soft (enc, dec) = gen_1R True hw" "gen_4R soft (enc, dec) = gen_4R True hw"
  by (intro ext; simp add: gen_1R_def gen_4R_def rounds_any [of soft hw])+

lemma functions_any:
  "hashAes1Rx4 soft (enc, dec) m n h = hashAes1Rx4 True hw m n h"
  "fillAes1Rx4 soft (enc, dec) st n p buf = fillAes1Rx4 True hw st n p buf"
  "fillAes4Rx4 soft (enc, dec) st n buf = fillAes4Rx4 True hw st n buf"
  by (simp_all add: hashAes1Rx4_def hash_finish_def hash_loop_any [of soft _ _ _ _ hw] rounds_any [of soft hw]
      fillAes1Rx4_def fillAes4Rx4_def gens_any [of soft hw])

lemma key_inject: "enc v k = enc v k' \<longleftrightarrow> k = k'" "dec v k = dec v k' \<longleftrightarrow> k = k'"
  by (cases v; cases k; cases k'; simp add: enc_round dec_round aes_round_def aes_inv_round_def lane_def
      Let_def xor_left_cancel)+

end

text \<open>software and hardware AES are interchangeable: with a processor whose two instructions
  are the rounds of FIPS-197, the hash and both generators return the same bytes whatever
  \<open>softAes\<close> is.\<close>

theorem soft_and_hard_aes_agree:
  assumes "\<And>v k. hw_enc v k = aes_round v k" "\<And>v k. hw_dec v k = aes_inv_round v k"
  shows "hashAes1Rx4 soft (hw_enc, hw_dec) m n h = hashAes1Rx4 True hw' m n h \<and>
    fillAes1Rx4 soft (hw_enc, hw_dec) st n p buf = fillAes1Rx4 True hw' st n p buf \<and>
    fillAes4Rx4 soft (hw_enc, hw_dec) st n buf = fillAes4Rx4 True hw' st n buf \<and>
    hashAndFillAes1Rx4 soft (hw_enc, hw_dec) m n h st = hashAndFillAes1Rx4 True hw' m n h st"
proof -
  have unit: "aes_unit hw_enc hw_dec" by unfold_locales (simp_all add: assms)
  note any = aes_unit.functions_any [OF unit, of soft]
  show ?thesis by (simp add: any [where hw = hw'] hashAndFill_eq)
qed

theorem soft_and_hard_aes_agree_witness:
  "hashAes1Rx4 False (aes_round, aes_inv_round) (\<lambda>i. of_nat i) 128 (\<lambda>_. 0) =
   hashAes1Rx4 True (\<lambda>v _. v, \<lambda>v _. v) (\<lambda>i. of_nat i) 128 (\<lambda>_. 0)"
  using soft_and_hard_aes_agree [where hw_enc = aes_round and hw_dec = aes_inv_round] by blast

section \<open>Differences survive\<close>

context aes_unit begin

lemma round_inject:
  "aesenc soft (enc, dec) v k = aesenc soft (enc, dec) v' k \<longleftrightarrow> v = v'"
  "aesdec soft (enc, dec) v k = aesdec soft (enc, dec) v' k \<longleftrightarrow> v = v'"
  "aesenc soft (enc, dec) v k = aesenc soft (enc, dec) v k' \<longleftrightarrow> k = k'"
  "aesdec soft (enc, dec) v k = aesdec soft (enc, dec) v k' \<longleftrightarrow> k = k'"
  by (simp_all add: aesenc_def aesdec_def enc_inject dec_inject key_inject
      soft_aes.enc_inject soft_aes.dec_inject soft_aes.key_inject)

lemma lanes_inject:
  "hash_round soft (enc, dec) s k = hash_round soft (enc, dec) s' k \<longleftrightarrow> s = s'"
  "fill_round soft (enc, dec) s k = fill_round soft (enc, dec) s' k \<longleftrightarrow> s = s'"
  "hash_round soft (enc, dec) s k = hash_round soft (enc, dec) s k' \<longleftrightarrow> k = k'"
  by (cases s; cases s'; cases k; cases k'; simp add: hash_round_def fill_round_def round_inject)+

lemma gen_power_inject: "(gen_1R soft (enc, dec) ^^ n) s = (gen_1R soft (enc, dec) ^^ n) s' \<longleftrightarrow> s = s'"
  by (induction n) (simp_all add: gen_1R_def lanes_inject)

lemma hash_loop_inject:
  "hash_loop soft (enc, dec) m p e s = hash_loop soft (enc, dec) m p e s' \<longleftrightarrow> s = s'"
proof (induction soft "(enc, dec)" m p e s arbitrary: s' rule: hash_loop.induct)
  case (1 soft m p e s)
  then show ?case by (cases "p < e") (simp_all add: hash_loop_step lanes_inject)
qed

lemma hash_loop_blocks:
  "(\<And>j. j < n \<Longrightarrow> load_lanes m (p + 64 * j) = load_lanes m' (p + 64 * j)) \<Longrightarrow>
    hash_loop soft (enc, dec) m p (p + 64 * n) s = hash_loop soft (enc, dec) m' p (p + 64 * n) s"
proof (induction n arbitrary: p s)
  case (Suc n)
  have same: "load_lanes m p = load_lanes m' p" using Suc.prems [of 0] by simp
  have "hash_loop soft (enc, dec) m (p + 64) (p + 64 + 64 * n) t
      = hash_loop soft (enc, dec) m' (p + 64) (p + 64 + 64 * n) t" for t
    by (rule Suc.IH) (use Suc.prems [of "Suc j" for j] in \<open>simp add: add.assoc\<close>)
  then show ?case by (simp add: hash_loop_step same add.assoc)
qed simp

lemma hash_differs:
  assumes "k < n" "load_lanes m (64 * k) \<noteq> load_lanes m' (64 * k)"
    and others: "\<And>j. j < n \<Longrightarrow> j \<noteq> k \<Longrightarrow> load_lanes m (64 * j) = load_lanes m' (64 * j)"
  shows "hash_loop soft (enc, dec) m 0 (64 * n) s \<noteq> hash_loop soft (enc, dec) m' 0 (64 * n) s"
proof -
  define r where "r = n - Suc k"
  then have n: "64 * n = 64 * k + 64 + 64 * r" using assms(1) by simp
  let ?h = "hash_loop soft (enc, dec)"
  have split: "?h x 0 (64 * n) s =
      ?h x (64 * k + 64) (64 * k + 64 + 64 * r) (hash_round soft (enc, dec) (?h x 0 (64 * k) s) (load_lanes x (64 * k)))" for x
    using hash_loop_split [of "64 * k" "64 * n" soft "(enc, dec)" x 0 s] blocks_end_aligned [of 0 k] n
    by (simp add: hash_loop_step)
  have before: "?h m 0 (64 * k) s = ?h m' 0 (64 * k) s"
    using hash_loop_blocks [of k m 0 m'] others assms(1) by simp
  have after: "?h m (64 * k + 64) (64 * k + 64 + 64 * r) t = ?h m' (64 * k + 64) (64 * k + 64 + 64 * r) t" for t
    by (rule hash_loop_blocks) (use others [of "k + 1 + j" for j] n in \<open>simp add: algebra_simps\<close>)
  show ?thesis by (simp add: split before after hash_loop_inject lanes_inject assms(2))
qed

end

text \<open>two generator states that differ give buffers that differ in every 64-byte block.\<close>

theorem distinct_seeds_distinct_blocks:
  assumes "load_lanes st 0 \<noteq> load_lanes st' 0" "k < n"
  shows "load_lanes (snd (fillAes1Rx4 True hw st (64 * n) 0 buf)) (64 * k) \<noteq>
    load_lanes (snd (fillAes1Rx4 True hw st' (64 * n) 0 buf')) (64 * k)"
proof -
  have out: "load_lanes (snd (fillAes1Rx4 True hw x (64 * n) 0 b)) (64 * k) = (gen_1R True hw ^^ Suc k) (load_lanes x 0)" for x b
    using fill_loop_blocks [of "gen_1R True hw" 0 n "load_lanes x 0" b] assms(2)
    by (auto simp: fillAes1Rx4_def split: prod.splits)
  have "gen_1R True hw = gen_1R True (soft_aesenc, soft_aesdec)"
    by (rule soft_aes.gens_any(1) [symmetric])
  then show ?thesis using assms(1) by (simp only: out soft_aes.gen_power_inject not_False_eq_True)
qed

theorem distinct_seeds_distinct_blocks_witness:
  "load_lanes (snd (fillAes1Rx4 True (aes_round, aes_inv_round) (\<lambda>_. 1) (64 * 32768) 0 (\<lambda>_. 0))) (64 * 5) \<noteq>
   load_lanes (snd (fillAes1Rx4 True (aes_round, aes_inv_round) (\<lambda>_. 2) (64 * 32768) 0 (\<lambda>_. 0))) (64 * 5)"
  by (rule distinct_seeds_distinct_blocks)
    (simp_all add: load_lanes_def rx_load_vec_i128_def load32_def)

text \<open>the hash notices every change of a single 64-byte block of its input: if two inputs
  of \<open>n\<close> blocks differ in one block only, their hashes differ.\<close>

theorem hash_detects_block_change:
  assumes "k < n" "load_lanes m (64 * k) \<noteq> load_lanes m' (64 * k)"
    "\<And>j. j < n \<Longrightarrow> j \<noteq> k \<Longrightarrow> load_lanes m (64 * j) = load_lanes m' (64 * j)"
  shows "load_lanes (hashAes1Rx4 True hw m (64 * n) h) 0 \<noteq> load_lanes (hashAes1Rx4 True hw m' (64 * n) h') 0"
proof -
  have "hashAes1Rx4 True hw x (64 * n) y = hashAes1Rx4 True (soft_aesenc, soft_aesdec) x (64 * n) y" for x y
    by (rule soft_aes.functions_any(1) [symmetric])
  then show ?thesis
    using soft_aes.hash_differs [OF assms]
    by (simp add: hashAes1Rx4_def c512.load_store_same hash_finish_def soft_aes.lanes_inject)
qed

theorem hash_detects_block_change_witness:
  "load_lanes (hashAes1Rx4 True (aes_round, aes_inv_round) (\<lambda>_. 0) (64 * 4) (\<lambda>_. 0)) 0 \<noteq>
   load_lanes (hashAes1Rx4 True (aes_round, aes_inv_round) ((\<lambda>_. 0)(64 := 1)) (64 * 4) (\<lambda>_. 0)) 0"
proof (rule hash_detects_block_change [where k = 1])
  fix j :: nat assume "j \<noteq> 1"
  then have "64 * j + 64 \<le> 64 \<or> 64 < 64 * j" by linarith
  then show "load_lanes (\<lambda>_. 0) (64 * j) = load_lanes ((\<lambda>_. 0)(64 := 1)) (64 * j)"
    by (intro c512.load_cong) auto
qed (simp_all add: load_lanes_def rx_load_vec_i128_def load32_def)

end
