(* ===== verification/Blake2b.thy ===== *)
theory Blake2b
  imports Prelude
begin

text \<open>
  BLAKE2b (\<^verbatim>\<open>blake2/blake2b.c\<close>, \<^verbatim>\<open>blake2/blake2.h\<close>) on the integer path: the
  compression function, the streaming interface, the one-shot hash and the variable-length
  hash. Buffers are byte lists; a null pointer is not modelled; the return code -1 is the
  result \<open>None\<close>. The field \<^verbatim>\<open>buf\<close> keeps the stale bytes beyond \<^verbatim>\<open>buflen\<close> as the
  code does.

  The lemmas show that the streaming interface does not depend on how the input is cut into
  calls, and that the hash is the fold of the compression function over the padded blocks.
\<close>

definition BLAKE2B_BLOCKBYTES :: nat where "BLAKE2B_BLOCKBYTES = 128"
definition BLAKE2B_OUTBYTES :: nat where "BLAKE2B_OUTBYTES = 64"
definition BLAKE2B_KEYBYTES :: nat where "BLAKE2B_KEYBYTES = 64"

lemmas blake_sizes = BLAKE2B_BLOCKBYTES_def BLAKE2B_OUTBYTES_def BLAKE2B_KEYBYTES_def

definition blake2b_IV :: "u64 list" where
  "blake2b_IV = [0x6a09e667f3bcc908, 0xbb67ae8584caa73b, 0x3c6ef372fe94f82b, 0xa54ff53a5f1d36f1,
     0x510e527fade682d1, 0x9b05688c2b3e6c1f, 0x1f83d9abfb41bd6b, 0x5be0cd19137e2179]"

definition blake2b_sigma :: "nat list list" where
  "blake2b_sigma = [
    [0, 1, 2, 3, 4, 5, 6, 7, 8, 9, 10, 11, 12, 13, 14, 15],
    [14, 10, 4, 8, 9, 15, 13, 6, 1, 12, 0, 2, 11, 7, 5, 3],
    [11, 8, 12, 0, 5, 2, 15, 13, 10, 14, 3, 6, 7, 1, 9, 4],
    [7, 9, 3, 1, 13, 12, 11, 14, 2, 6, 5, 10, 4, 0, 15, 8],
    [9, 0, 5, 7, 2, 4, 10, 15, 14, 1, 11, 12, 6, 8, 3, 13],
    [2, 12, 6, 10, 0, 11, 8, 3, 4, 13, 7, 5, 15, 14, 1, 9],
    [12, 5, 1, 15, 14, 13, 4, 10, 0, 7, 6, 3, 9, 2, 8, 11],
    [13, 11, 7, 14, 12, 1, 3, 9, 5, 0, 15, 4, 8, 6, 2, 10],
    [6, 15, 14, 9, 11, 3, 0, 8, 12, 2, 13, 7, 1, 4, 10, 5],
    [10, 2, 8, 4, 7, 6, 1, 5, 15, 11, 9, 14, 3, 12, 13, 0],
    [0, 1, 2, 3, 4, 5, 6, 7, 8, 9, 10, 11, 12, 13, 14, 15],
    [14, 10, 4, 8, 9, 15, 13, 6, 1, 12, 0, 2, 11, 7, 5, 3]]"

record blake2b_state =
  b2_h :: "u64 list"
  b2_t0 :: u64
  b2_t1 :: u64
  b2_f0 :: u64
  b2_f1 :: u64
  b2_buf :: "u8 list"
  b2_buflen :: nat
  b2_outlen :: nat
  b2_last_node :: u8

section \<open>Compression\<close>

definition rotr64 :: "u64 \<Rightarrow> nat \<Rightarrow> u64" where
  "rotr64 w c = drop_bit c w OR push_bit (64 - c) w"

text \<open>A buffer as memory, for the word loads.\<close>

definition bytes_mem :: "u8 list \<Rightarrow> mem" where
  "bytes_mem bs = (\<lambda>i. if i < length bs then bs ! i else 0)"

definition blake_G :: "u64 list \<Rightarrow> nat \<Rightarrow> nat \<Rightarrow> nat \<Rightarrow> nat \<Rightarrow> nat \<Rightarrow> nat \<Rightarrow> u64 list \<Rightarrow> u64 list" where
  "blake_G m r i a b c d v =
    (let v = v[a := v ! a + v ! b + m ! (blake2b_sigma ! r ! (2 * i + 0))];
         v = v[d := rotr64 (v ! d XOR v ! a) 32];
         v = v[c := v ! c + v ! d];
         v = v[b := rotr64 (v ! b XOR v ! c) 24];
         v = v[a := v ! a + v ! b + m ! (blake2b_sigma ! r ! (2 * i + 1))];
         v = v[d := rotr64 (v ! d XOR v ! a) 16];
         v = v[c := v ! c + v ! d];
         v = v[b := rotr64 (v ! b XOR v ! c) 63]
     in v)"

definition blake_ROUND :: "u64 list \<Rightarrow> nat \<Rightarrow> u64 list \<Rightarrow> u64 list" where
  "blake_ROUND m r v =
    (let v = blake_G m r 0 0 4 8 12 v; v = blake_G m r 1 1 5 9 13 v;
         v = blake_G m r 2 2 6 10 14 v; v = blake_G m r 3 3 7 11 15 v;
         v = blake_G m r 4 0 5 10 15 v; v = blake_G m r 5 1 6 11 12 v;
         v = blake_G m r 6 2 7 8 13 v; v = blake_G m r 7 3 4 9 14 v
     in v)"

definition blake2b_compress_words :: "u64 list \<Rightarrow> u64 \<Rightarrow> u64 \<Rightarrow> u64 \<Rightarrow> u64 \<Rightarrow> u8 list \<Rightarrow> u64 list" where
  "blake2b_compress_words hs c0 c1 l0 l1 block =
    (let m = map (\<lambda>i. load64 (bytes_mem block) (i * 8)) [0..<16];
         v = take 8 hs @ [blake2b_IV ! 0, blake2b_IV ! 1, blake2b_IV ! 2, blake2b_IV ! 3,
               blake2b_IV ! 4 XOR c0, blake2b_IV ! 5 XOR c1, blake2b_IV ! 6 XOR l0, blake2b_IV ! 7 XOR l1];
         v' = for_range 0 12 (blake_ROUND m) v
     in map (\<lambda>i. hs ! i XOR v' ! i XOR v' ! (i + 8)) [0..<8])"

definition randomx_blake2b_compress_integer :: "blake2b_state \<Rightarrow> u8 list \<Rightarrow> blake2b_state" where
  "randomx_blake2b_compress_integer S block =
     S\<lparr>b2_h := blake2b_compress_words (b2_h S) (b2_t0 S) (b2_t1 S) (b2_f0 S) (b2_f1 S) block\<rparr>"

section \<open>Streaming interface\<close>

definition blake2b_set_lastnode :: "blake2b_state \<Rightarrow> blake2b_state" where
  "blake2b_set_lastnode S = S\<lparr>b2_f1 := -1\<rparr>"

definition blake2b_set_lastblock :: "blake2b_state \<Rightarrow> blake2b_state" where
  "blake2b_set_lastblock S =
    (let S = (if b2_last_node S \<noteq> 0 then blake2b_set_lastnode S else S) in S\<lparr>b2_f0 := -1\<rparr>)"

definition blake2b_increment_counter :: "nat \<Rightarrow> blake2b_state \<Rightarrow> blake2b_state" where
  "blake2b_increment_counter inc S =
    (let S = S\<lparr>b2_t0 := b2_t0 S + of_nat inc\<rparr> in S\<lparr>b2_t1 := b2_t1 S + (if b2_t0 S < of_nat inc then 1 else 0)\<rparr>)"

definition blake2b_init0 :: blake2b_state where
  "blake2b_init0 = \<lparr>b2_h = blake2b_IV, b2_t0 = 0, b2_t1 = 0, b2_f0 = 0, b2_f1 = 0, b2_buf = replicate 128 0,
     b2_buflen = 0, b2_outlen = 0, b2_last_node = 0\<rparr>"

text \<open>The parameter block \<^verbatim>\<open>blake2b_param\<close>, packed, as its 64 bytes.\<close>

definition blake2b_param :: "nat \<Rightarrow> nat \<Rightarrow> u8 list" where
  "blake2b_param digest_length key_length =
     [of_nat digest_length, of_nat key_length, 1, 1] @ replicate 4 0 @ replicate 8 0 @ [0, 0] @
     replicate 14 0 @ replicate 16 0 @ replicate 16 0"

definition blake2b_init_param :: "u8 list \<Rightarrow> blake2b_state" where
  "blake2b_init_param p =
    (let S = blake2b_init0
     in S\<lparr>b2_h := map (\<lambda>i. b2_h S ! i XOR load64 (bytes_mem p) (i * 8)) [0..<8], b2_outlen := unat (p ! 0)\<rparr>)"

definition blake2b_init :: "nat \<Rightarrow> blake2b_state option" where
  "blake2b_init n = (if n = 0 \<or> n > BLAKE2B_OUTBYTES then None
     else Some (blake2b_init_param (blake2b_param n 0)))"

text \<open>\<^verbatim>\<open>memcpy(&S->buf[at], pin, ...)\<close>.\<close>

definition buf_copy :: "nat \<Rightarrow> u8 list \<Rightarrow> blake2b_state \<Rightarrow> blake2b_state" where
  "buf_copy at bs S = S\<lparr>b2_buf := take at (b2_buf S) @ bs @ drop (at + length bs) (b2_buf S)\<rparr>"

function blake2b_blocks :: "blake2b_state \<Rightarrow> u8 list \<Rightarrow> blake2b_state \<times> u8 list" where
  "blake2b_blocks S pin =
    (if length pin > BLAKE2B_BLOCKBYTES
     then blake2b_blocks (randomx_blake2b_compress_integer
            (blake2b_increment_counter BLAKE2B_BLOCKBYTES S) (take BLAKE2B_BLOCKBYTES pin))
            (drop BLAKE2B_BLOCKBYTES pin)
     else (S, pin))"
  by auto
termination by (relation "measure (\<lambda>(_, pin). length pin)") (auto simp: BLAKE2B_BLOCKBYTES_def)

declare blake2b_blocks.simps [simp del]

definition blake2b_update :: "blake2b_state \<Rightarrow> u8 list \<Rightarrow> blake2b_state option" where
  "blake2b_update S pin =
    (if pin = [] then Some S
     else if b2_f0 S \<noteq> 0 then None
     else let (S, pin) =
            (if b2_buflen S + length pin > BLAKE2B_BLOCKBYTES
             then let left = b2_buflen S; fill = BLAKE2B_BLOCKBYTES - left;
                      S = buf_copy left (take fill pin) S;
                      S = blake2b_increment_counter BLAKE2B_BLOCKBYTES S;
                      S = randomx_blake2b_compress_integer S (b2_buf S);
                      S = S\<lparr>b2_buflen := 0\<rparr>
                  in blake2b_blocks S (drop fill pin)
             else (S, pin));
            S = buf_copy (b2_buflen S) pin S
          in Some (S\<lparr>b2_buflen := b2_buflen S + length pin\<rparr>))"

definition blake2b_final :: "blake2b_state \<Rightarrow> nat \<Rightarrow> u8 list option" where
  "blake2b_final S n =
    (if n < b2_outlen S then None
     else if b2_f0 S \<noteq> 0 then None
     else let S = blake2b_increment_counter (b2_buflen S) S;
              S = blake2b_set_lastblock S;
              S = buf_copy (b2_buflen S) (replicate (BLAKE2B_BLOCKBYTES - b2_buflen S) 0) S;
              S = randomx_blake2b_compress_integer S (b2_buf S);
              buffer = for_range 0 8 (\<lambda>i m. store64 m (8 * i) (b2_h S ! i)) (\<lambda>_. 0)
          in Some (read_bytes buffer 0 (b2_outlen S)))"

definition blake2b_init_key :: "nat \<Rightarrow> u8 list \<Rightarrow> blake2b_state option" where
  "blake2b_init_key n key =
    (if n = 0 \<or> n > BLAKE2B_OUTBYTES then None
     else if key = [] \<or> length key > BLAKE2B_KEYBYTES then None
     else blake2b_update (blake2b_init_param (blake2b_param n (length key)))
            (key @ replicate (BLAKE2B_BLOCKBYTES - length key) 0))"

definition blake2b :: "nat \<Rightarrow> u8 list \<Rightarrow> u8 list \<Rightarrow> u8 list option" where
  "blake2b n inp key =
    (if n = 0 \<or> n > BLAKE2B_OUTBYTES then None
     else if length key > BLAKE2B_KEYBYTES then None
     else case (if key \<noteq> [] then blake2b_init_key n key else blake2b_init n) of
            None \<Rightarrow> None
          | Some S \<Rightarrow> (case blake2b_update S inp of None \<Rightarrow> None | Some S \<Rightarrow> blake2b_final S n))"

section \<open>Variable-length hash\<close>

definition blake2b_of2 :: "nat \<Rightarrow> u8 list \<Rightarrow> u8 list \<Rightarrow> u8 list option" where
  "blake2b_of2 n a b = (case blake2b_init n of None \<Rightarrow> None
     | Some S \<Rightarrow> (case blake2b_update S a of None \<Rightarrow> None
       | Some S \<Rightarrow> (case blake2b_update S b of None \<Rightarrow> None | Some S \<Rightarrow> blake2b_final S n)))"

function blake2b_long_loop :: "nat \<Rightarrow> u8 list \<Rightarrow> u8 list \<Rightarrow> u8 list option" where
  "blake2b_long_loop toproduce out_buffer out =
    (if toproduce > BLAKE2B_OUTBYTES
     then case blake2b BLAKE2B_OUTBYTES out_buffer [] of None \<Rightarrow> None
          | Some out_buffer \<Rightarrow> blake2b_long_loop (toproduce - BLAKE2B_OUTBYTES div 2) out_buffer
              (out @ take (BLAKE2B_OUTBYTES div 2) out_buffer)
     else case blake2b toproduce out_buffer [] of None \<Rightarrow> None
          | Some out_buffer \<Rightarrow> Some (out @ out_buffer))"
  by auto
termination by (relation "measure (\<lambda>(n, _). n)") (auto simp: BLAKE2B_OUTBYTES_def)

declare blake2b_long_loop.simps [simp del]

definition blake2b_long :: "nat \<Rightarrow> u8 list \<Rightarrow> u8 list option" where
  "blake2b_long n inp =
    (if n > 4294967295 then None
     else let outlen_bytes = read_bytes (store32 (\<lambda>_. 0) 0 (of_nat n)) 0 4
          in if n \<le> BLAKE2B_OUTBYTES then blake2b_of2 n outlen_bytes inp
             else case blake2b_of2 BLAKE2B_OUTBYTES outlen_bytes inp of None \<Rightarrow> None
                  | Some out_buffer \<Rightarrow> blake2b_long_loop (n - BLAKE2B_OUTBYTES div 2) out_buffer
                      (take (BLAKE2B_OUTBYTES div 2) out_buffer))"

section \<open>The stream does not depend on how it is cut\<close>

definition blake_step :: "blake2b_state \<Rightarrow> u8 list \<Rightarrow> blake2b_state" where
  "blake_step S block = randomx_blake2b_compress_integer (blake2b_increment_counter BLAKE2B_BLOCKBYTES S) block"

text \<open>The input cut into the blocks that are compressed at once and the block that is kept.\<close>

function full_blocks :: "u8 list \<Rightarrow> u8 list list" where
  "full_blocks d = (if length d > 128 then take 128 d # full_blocks (drop 128 d) else [])"
  by auto
termination by (relation "measure length") auto

function last_block :: "u8 list \<Rightarrow> u8 list" where
  "last_block d = (if length d > 128 then last_block (drop 128 d) else d)"
  by auto
termination by (relation "measure length") auto

declare full_blocks.simps [simp del] last_block.simps [simp del]

lemma last_block_le: "length (last_block d) \<le> 128"
  by (induction d rule: last_block.induct) (simp add: last_block.simps)

lemma full_blocks_append: "full_blocks (d @ e) = full_blocks d @ full_blocks (last_block d @ e)"
  and last_block_append: "last_block (d @ e) = last_block (last_block d @ e)"
proof (induction d rule: last_block.induct)
  case (1 d)
  { case 1 then show ?case using "1.IH"
      by (cases "length d > 128") (simp_all add: full_blocks.simps [of d] last_block.simps [of d]
          full_blocks.simps [of "d @ e"])
  next
    case 2 then show ?case using "1.IH"
      by (cases "length d > 128") (simp_all add: last_block.simps [of d] last_block.simps [of "d @ e"])
  }
qed

lemma concat_blocks: "concat (full_blocks d) @ last_block d = d"
  by (induction d rule: last_block.induct) (simp add: full_blocks.simps last_block.simps)

lemma blake2b_blocks_eq: "blake2b_blocks S pin = (foldl blake_step S (full_blocks pin), last_block pin)"
  by (induction S pin rule: blake2b_blocks.induct)
     (simp add: blake2b_blocks.simps full_blocks.simps last_block.simps blake_step_def BLAKE2B_BLOCKBYTES_def)

text \<open>The part of the state that compression uses; it ignores the buffer.\<close>

definition core :: "blake2b_state \<Rightarrow> blake2b_state" where
  "core S = S\<lparr>b2_buf := [], b2_buflen := 0\<rparr>"

lemma core_step: "core (blake_step S b) = blake_step (core S) b"
  by (simp add: core_def blake_step_def randomx_blake2b_compress_integer_def blake2b_increment_counter_def Let_def)

lemma core_fold: "core (foldl blake_step S bs) = foldl blake_step (core S) bs"
  by (induction bs arbitrary: S) (simp_all add: core_step)

lemma core_simps [simp]:
  "core (buf_copy n bs S) = core S" "core (S\<lparr>b2_buflen := k\<rparr>) = core S" "core (S\<lparr>b2_buf := bs\<rparr>) = core S"
  by (simp_all add: core_def buf_copy_def)

lemma core_fields:
  "b2_h (core S) = b2_h S" "b2_t0 (core S) = b2_t0 S" "b2_t1 (core S) = b2_t1 S" "b2_f0 (core S) = b2_f0 S"
  "b2_f1 (core S) = b2_f1 S" "b2_outlen (core S) = b2_outlen S" "b2_last_node (core S) = b2_last_node S"
  by (simp_all add: core_def)

lemma step_fields [simp]:
  "b2_buf (blake_step S b) = b2_buf S" "b2_buflen (blake_step S b) = b2_buflen S"
  "b2_f0 (blake_step S b) = b2_f0 S" "b2_f1 (blake_step S b) = b2_f1 S"
  "b2_outlen (blake_step S b) = b2_outlen S" "b2_last_node (blake_step S b) = b2_last_node S"
  by (simp_all add: blake_step_def randomx_blake2b_compress_integer_def blake2b_increment_counter_def Let_def)

lemma fold_fields [simp]:
  "b2_buf (foldl blake_step S bs) = b2_buf S" "b2_buflen (foldl blake_step S bs) = b2_buflen S"
  "b2_f0 (foldl blake_step S bs) = b2_f0 S" "b2_f1 (foldl blake_step S bs) = b2_f1 S"
  "b2_outlen (foldl blake_step S bs) = b2_outlen S" "b2_last_node (foldl blake_step S bs) = b2_last_node S"
  by (induction bs arbitrary: S) simp_all

text \<open>\<open>absorbed S0 S d\<close>: the state \<open>S\<close> is what \<open>S0\<close> becomes after the bytes \<open>d\<close>.\<close>

definition absorbed :: "blake2b_state \<Rightarrow> blake2b_state \<Rightarrow> u8 list \<Rightarrow> bool" where
  "absorbed S0 S d \<longleftrightarrow> core S = foldl blake_step (core S0) (full_blocks d) \<and> b2_f0 S = 0 \<and>
     length (b2_buf S) = 128 \<and> b2_buflen S = length (last_block d) \<and> take (b2_buflen S) (b2_buf S) = last_block d"

lemma absorbed_start:
  "b2_f0 S = 0 \<Longrightarrow> length (b2_buf S) = 128 \<Longrightarrow> b2_buflen S = 0 \<Longrightarrow> absorbed S S []"
  by (simp add: absorbed_def full_blocks.simps last_block.simps)

lemma update_absorbed:
  assumes "absorbed S0 S d"
  shows "\<exists>S'. blake2b_update S pin = Some S' \<and> absorbed S0 S' (d @ pin)"
proof (cases "pin = []")
  case True
  then show ?thesis using assms by (simp add: blake2b_update_def)
next
  case False
  let ?l = "last_block d"
  have l: "b2_buflen S = length ?l" "take (length ?l) (b2_buf S) = ?l" "length ?l \<le> 128"
    and S: "b2_f0 S = 0" "length (b2_buf S) = 128" "core S = foldl blake_step (core S0) (full_blocks d)"
    using assms last_block_le [of d] by (auto simp: absorbed_def)
  show ?thesis
  proof (cases "length ?l + length pin > 128")
    case small: False
    define S' where "S' = (buf_copy (length ?l) pin S)\<lparr>b2_buflen := length ?l + length pin\<rparr>"
    have "blake2b_update S pin = Some S'"
      using False small S(1) by (simp add: blake2b_update_def l(1) BLAKE2B_BLOCKBYTES_def S'_def Let_def)
        (simp add: buf_copy_def l(1))
    moreover have "absorbed S0 S' (d @ pin)"
      using small S l by (simp add: absorbed_def S'_def full_blocks_append [of d pin] last_block_append [of d pin]
          full_blocks.simps [of "?l @ pin"] last_block.simps [of "?l @ pin"])
        (simp add: buf_copy_def)
    ultimately show ?thesis by blast
  next
    case big: True
    let ?fill = "128 - length ?l"
    define first where "first = ?l @ take ?fill pin"
    define rest where "rest = drop ?fill pin"
    have len: "length first = 128" using big l(3) by (simp add: first_def)
    have split: "full_blocks (?l @ pin) = first # full_blocks rest" "last_block (?l @ pin) = last_block rest"
      using big l(3) by (simp_all add: full_blocks.simps [of "?l @ pin"] last_block.simps [of "?l @ pin"]
          first_def rest_def)
    define S1 where "S1 = (buf_copy (length ?l) (take ?fill pin) S)"
    have buf1: "b2_buf S1 = first" using l(2,3) big S(2) by (simp add: S1_def buf_copy_def first_def)
    define S2 where "S2 = (blake_step S1 first)\<lparr>b2_buflen := 0\<rparr>"
    define S3 where "S3 = foldl blake_step S2 (full_blocks rest)"
    define S' where "S' = (buf_copy 0 (last_block rest) S3)\<lparr>b2_buflen := length (last_block rest)\<rparr>"
    have "blake2b_update S pin = Some S'"
      using False big S(1) buf1 by (simp add: blake2b_update_def l(1) BLAKE2B_BLOCKBYTES_def Let_def
          blake2b_blocks_eq S1_def [symmetric] rest_def [symmetric] S3_def S2_def blake_step_def
          blake2b_increment_counter_def S'_def split: prod.splits)
        (simp add: buf_copy_def randomx_blake2b_compress_integer_def)
    moreover have "absorbed S0 S' (d @ pin)"
      using S l len buf1 last_block_le [of rest]
      by (simp add: absorbed_def S'_def full_blocks_append [of d pin] last_block_append [of d pin] split S3_def core_fold S2_def
          core_step)
        (simp add: buf_copy_def S1_def)
    ultimately show ?thesis by blast
  qed
qed

text \<open>The digest after \<open>d\<close>, from the state after the full blocks.\<close>

definition digest_of :: "blake2b_state \<Rightarrow> u8 list \<Rightarrow> nat \<Rightarrow> u8 list option" where
  "digest_of S0 d n =
    (if n < b2_outlen S0 then None
     else let S = foldl blake_step (core S0) (full_blocks d);
              S = blake2b_set_lastblock (blake2b_increment_counter (length (last_block d)) S);
              hs = blake2b_compress_words (b2_h S) (b2_t0 S) (b2_t1 S) (b2_f0 S) (b2_f1 S)
                     (last_block d @ replicate (128 - length (last_block d)) 0)
          in Some (read_bytes (for_range 0 8 (\<lambda>i m. store64 m (8 * i) (hs ! i)) (\<lambda>_. 0)) 0 (b2_outlen S0)))"

lemma final_absorbed:
  assumes "absorbed S0 S d"
  shows "blake2b_final S n = digest_of S0 d n"
proof -
  let ?l = "last_block d" and ?F = "foldl blake_step (core S0) (full_blocks d)"
  have S: "core S = ?F" "b2_f0 S = 0" "length (b2_buf S) = 128" "b2_buflen S = length ?l"
    "take (length ?l) (b2_buf S) = ?l"
    using assms by (auto simp: absorbed_def)
  have fields: "b2_h S = b2_h ?F" "b2_t0 S = b2_t0 ?F" "b2_t1 S = b2_t1 ?F" "b2_f1 S = b2_f1 ?F"
    "b2_last_node S = b2_last_node ?F" "b2_outlen S = b2_outlen S0"
    by (simp_all only: S(1)[symmetric] core_fields) (use arg_cong [OF S(1), of b2_outlen] in \<open>simp add: core_fields\<close>)
  have pad: "take (length ?l) (b2_buf S) @ replicate (128 - length ?l) 0 @
      drop (length ?l + (128 - length ?l)) (b2_buf S) = ?l @ replicate (128 - length ?l) 0"
    using S(3,5) last_block_le [of d] by simp
  let ?S1 = "blake2b_set_lastblock (blake2b_increment_counter (length ?l) S)"
  let ?F1 = "blake2b_set_lastblock (blake2b_increment_counter (length ?l) ?F)"
  have marked: "b2_h ?S1 = b2_h ?F1" "b2_t0 ?S1 = b2_t0 ?F1" "b2_t1 ?S1 = b2_t1 ?F1" "b2_f0 ?S1 = b2_f0 ?F1"
    "b2_f1 ?S1 = b2_f1 ?F1" "b2_buf ?S1 = b2_buf S" "b2_buflen ?S1 = length ?l" "b2_outlen ?S1 = b2_outlen S0"
    by (simp_all add: blake2b_set_lastblock_def blake2b_set_lastnode_def blake2b_increment_counter_def
        Let_def fields S(4) del: fold_fields)
  show ?thesis
    using S(2) pad [simplified]
    by (simp add: blake2b_final_def digest_of_def Let_def fields(6) S(4) BLAKE2B_BLOCKBYTES_def
        buf_copy_def marked randomx_blake2b_compress_integer_def)
qed

section \<open>Reference definition\<close>

text \<open>
  The hash as RFC 7693 states it: the chained compression of the blocks with the byte count
  as a 128-bit counter, the last block padded with zeros and flagged. A key is a first block.
\<close>

definition ref_h0 :: "nat \<Rightarrow> nat \<Rightarrow> u64 list" where
  "ref_h0 n k = map (\<lambda>i. blake2b_IV ! i XOR (if i = 0 then of_nat n OR push_bit 8 (of_nat k) OR 0x01010000 else 0)) [0..<8]"

definition ref_compress :: "u64 list \<Rightarrow> nat \<Rightarrow> bool \<Rightarrow> u8 list \<Rightarrow> u64 list" where
  "ref_compress hs t is_last block =
     blake2b_compress_words hs (of_nat t) (of_nat (t div 2 ^ 64)) (if is_last then -1 else 0) 0 block"

definition ref_chain :: "u64 list \<Rightarrow> u8 list list \<Rightarrow> u64 list \<times> nat" where
  "ref_chain h0 bs = foldl (\<lambda>(hs, t) b. (ref_compress hs (t + 128) False b, t + 128)) (h0, 0) bs"

definition ref_blake2b :: "nat \<Rightarrow> nat \<Rightarrow> u8 list \<Rightarrow> u8 list" where
  "ref_blake2b n k d =
    (let hs = ref_compress (fst (ref_chain (ref_h0 n k) (full_blocks d))) (length d) True
                (last_block d @ replicate (128 - length (last_block d)) 0)
     in map (\<lambda>i. ucast (drop_bit (8 * (i mod 8)) (hs ! (i div 8)))) [0..<n])"

lemma counter_carry:
  assumes "inc < 2 ^ 64"
  shows "(of_nat (t div 2 ^ 64) :: u64) + (if (of_nat t :: u64) + of_nat inc < of_nat inc then 1 else 0)
    = of_nat ((t + inc) div 2 ^ 64)"
proof -
  let ?m = "2 ^ 64 :: nat"
  have d: "(t + inc) div ?m = t div ?m + (t mod ?m + inc) div ?m"
    by (metis div_mult_self3 mod_div_mult_eq add.assoc add.commute zero_neq_numeral power_not_zero)
  have "(of_nat t :: u64) + of_nat inc < of_nat inc \<longleftrightarrow> (t mod ?m + inc) mod ?m < inc"
    using assms by (simp add: word_less_nat_alt unsigned_of_nat take_bit_eq_mod unat_word_ariths)
  also have "\<dots> \<longleftrightarrow> ?m \<le> t mod ?m + inc"
  proof (cases "?m \<le> t mod ?m + inc")
    case True
    have "t mod ?m < ?m" by simp
    then have "t mod ?m + inc - ?m < ?m" using assms by linarith
    then have "(t mod ?m + inc) mod ?m = t mod ?m + inc - ?m"
      using True by (simp add: le_mod_geq)
    then show ?thesis using True \<open>t mod ?m < ?m\<close> by linarith
  next
    case False
    then show ?thesis by simp
  qed
  also have "\<dots> \<longleftrightarrow> (t mod ?m + inc) div ?m = 1"
  proof -
    have "t mod ?m < ?m" by simp
    then have "t mod ?m + inc < 2 * ?m" using assms by linarith
    then show ?thesis by (auto simp: div_nat_eqI dest: div_less)
  qed
  finally have "(if (of_nat t :: u64) + of_nat inc < of_nat inc then 1 else 0 :: nat) = (t mod ?m + inc) div ?m"
  proof -
    assume eq: "((of_nat t :: u64) + of_nat inc < of_nat inc) = ((t mod ?m + inc) div ?m = 1)"
    have "t mod ?m < ?m" by simp
    then have "t mod ?m + inc < 2 * ?m" using assms by linarith
    then have "(t mod ?m + inc) div ?m < 2" by (simp add: less_mult_imp_div_less)
    then show ?thesis using eq by auto
  qed
  from arg_cong [OF this, of "of_nat :: nat \<Rightarrow> u64"]
  have "(if (of_nat t :: u64) + of_nat inc < of_nat inc then 1 else 0 :: u64) =
      of_nat ((t mod ?m + inc) div ?m)"
    by (cases "(of_nat t :: u64) + of_nat inc < of_nat inc") (simp_all only: if_True if_False of_nat_simps(1) of_nat_1)
  then show ?thesis by (simp only: d of_nat_add)
qed

lemma increment_counter:
  assumes "b2_t0 S = of_nat t" "b2_t1 S = of_nat (t div 2 ^ 64)" "inc < 2 ^ 64"
  shows "b2_t0 (blake2b_increment_counter inc S) = of_nat (t + inc)"
    "b2_t1 (blake2b_increment_counter inc S) = of_nat ((t + inc) div 2 ^ 64)"
  using counter_carry [OF assms(3), of t] assms(1,2)
  by (simp_all add: blake2b_increment_counter_def Let_def)

lemma chain_ref:
  assumes "b2_t0 S = 0" "b2_t1 S = 0" "b2_f0 S = 0" "b2_f1 S = 0"
  shows "b2_h (foldl blake_step S bs) = fst (ref_chain (b2_h S) bs) \<and>
    snd (ref_chain (b2_h S) bs) = 128 * length bs \<and>
    b2_t0 (foldl blake_step S bs) = of_nat (128 * length bs) \<and>
    b2_t1 (foldl blake_step S bs) = of_nat (128 * length bs div 2 ^ 64)"
proof (induction bs rule: rev_induct)
  case Nil
  then show ?case using assms by (simp add: ref_chain_def)
next
  case (snoc b bs)
  let ?F = "foldl blake_step S bs"
  have t: "b2_t0 ?F = of_nat (128 * length bs)" "b2_t1 ?F = of_nat (128 * length bs div 2 ^ 64)"
    and h: "b2_h ?F = fst (ref_chain (b2_h S) bs)" "snd (ref_chain (b2_h S) bs) = 128 * length bs"
    using snoc by auto
  note inc = increment_counter [OF t, of 128, simplified]
  have chain: "ref_chain (b2_h S) (bs @ [b]) =
     (ref_compress (b2_h ?F) (128 * length bs + 128) False b, 128 * length bs + 128)"
    using h by (cases "ref_chain (b2_h S) bs") (simp add: ref_chain_def)
  have f: "b2_f0 ?F = 0" "b2_f1 ?F = 0" using assms by simp_all
  have keep: "b2_h (blake2b_increment_counter 128 ?F) = b2_h ?F" "b2_f0 (blake2b_increment_counter 128 ?F) = 0"
    "b2_f1 (blake2b_increment_counter 128 ?F) = 0"
    using f by (simp_all add: blake2b_increment_counter_def Let_def)
  have step: "foldl blake_step S (bs @ [b]) =
      randomx_blake2b_compress_integer (blake2b_increment_counter 128 ?F) b"
    by (simp add: blake_step_def BLAKE2B_BLOCKBYTES_def)
  show ?case unfolding step chain
    by (simp add: randomx_blake2b_compress_integer_def ref_compress_def keep inc algebra_simps)
qed

lemma length_split: "length d = 128 * length (full_blocks d) + length (last_block d)"
proof (induction d rule: last_block.induct)
  case (1 d)
  then show ?case
    by (cases "length d > 128") (simp_all add: full_blocks.simps [of d] last_block.simps [of d])
qed

lemma output_bytes:
  assumes "n \<le> 64"
  shows "read_bytes (for_range 0 8 (\<lambda>i m. store64 m (8 * i) (hs ! i)) m0) 0 n =
    map (\<lambda>i. ucast (drop_bit (8 * (i mod 8)) (hs ! (i div 8)))) [0..<n]"
proof -
  let ?out = "\<lambda>j. for_range 0 j (\<lambda>i m. store64 m (8 * i) (hs ! i)) m0"
  have "k < 8 * j \<longrightarrow> ?out j k = ucast (drop_bit (8 * (k mod 8)) (hs ! (k div 8)))" for k j
  proof (induction j)
    case (Suc j)
    show ?case
    proof (intro impI)
      assume k: "k < 8 * Suc j"
      show "?out (Suc j) k = ucast (drop_bit (8 * (k mod 8)) (hs ! (k div 8)))"
      proof (cases "k < 8 * j")
        case True
        then show ?thesis using Suc by (simp add: c64.store_outside)
      next
        case False
        then have "k div 8 = j" "k = 8 * j + k mod 8" "k mod 8 < 8" using k by presburger+
        then show ?thesis using store64_byte [of "k mod 8" "?out j" "8 * j" "hs ! j"] by simp
      qed
    qed
  qed simp
  then show ?thesis using assms by (simp add: read_bytes_def)
qed

lemma param_words:
  assumes "i < 8" "n < 256" "k < 256"
  shows "load64 (bytes_mem (blake2b_param n k)) (i * 8) =
    (if i = 0 then of_nat n OR push_bit 8 (of_nat k) OR 0x01010000 else 0)"
proof -
  have u: "(ucast (of_nat m :: u8) :: u64) = of_nat m" if "m < 256" for m
    using that by (simp add: unsigned_of_nat take_bit_nat_eq_self)
  from assms(1) consider "i = 0" | "i = 1" | "i = 2" | "i = 3" | "i = 4" | "i = 5" | "i = 6" | "i = 7" by linarith
  then show ?thesis
    by cases (simp_all add: load64_def bytes_mem_def blake2b_param_def nth_append u assms)
qed

lemma init_param_fields:
  "b2_t0 (blake2b_init_param p) = 0" "b2_t1 (blake2b_init_param p) = 0" "b2_f0 (blake2b_init_param p) = 0"
  "b2_f1 (blake2b_init_param p) = 0" "b2_last_node (blake2b_init_param p) = 0"
  "absorbed (blake2b_init_param p) (blake2b_init_param p) []"
  by (simp_all add: blake2b_init_param_def blake2b_init0_def absorbed_start)

lemma init_param_digest:
  assumes "n \<le> 64" "k \<le> 64"
  shows "b2_h (blake2b_init_param (blake2b_param n k)) = ref_h0 n k"
    "b2_outlen (blake2b_init_param (blake2b_param n k)) = n"
proof -
  show "b2_h (blake2b_init_param (blake2b_param n k)) = ref_h0 n k"
    using assms by (simp add: blake2b_init_param_def ref_h0_def Let_def param_words)
      (simp add: blake2b_init0_def)
  show "b2_outlen (blake2b_init_param (blake2b_param n k)) = n"
    using assms by (simp add: blake2b_init_param_def Let_def blake2b_param_def unsigned_of_nat take_bit_nat_eq_self)
qed

lemma digest_ref:
  assumes "1 \<le> n" "n \<le> 64" "k \<le> 64"
  shows "digest_of (blake2b_init_param (blake2b_param n k)) d n = Some (ref_blake2b n k d)"
proof -
  define S0 where "S0 = core (blake2b_init_param (blake2b_param n k))"
  let ?F = "foldl blake_step S0 (full_blocks d)" and ?l = "last_block d"
  have z: "b2_t0 S0 = 0" "b2_t1 S0 = 0" "b2_f0 S0 = 0" "b2_f1 S0 = 0" "b2_last_node S0 = 0" "b2_h S0 = ref_h0 n k"
    using init_param_digest(1) [OF assms(2,3)] by (simp_all add: S0_def core_fields init_param_fields)
  note chain = chain_ref [OF z(1-4), of "full_blocks d", unfolded z(6)]
  have "length d = 128 * length (full_blocks d) + length ?l" by (rule length_split)
  moreover have "length ?l < 2 ^ 64" using last_block_le [of d] by simp
  ultimately have t: "b2_t0 (blake2b_increment_counter (length ?l) ?F) = of_nat (length d)"
    "b2_t1 (blake2b_increment_counter (length ?l) ?F) = of_nat (length d div 2 ^ 64)"
    using increment_counter [of ?F "128 * length (full_blocks d)" "length ?l"] chain by metis+
  have keep: "b2_h (blake2b_increment_counter (length ?l) ?F) = b2_h ?F"
    "b2_f1 (blake2b_increment_counter (length ?l) ?F) = 0"
    "b2_last_node (blake2b_increment_counter (length ?l) ?F) = 0"
    using z by (simp_all add: blake2b_increment_counter_def Let_def)
  have h: "b2_h ?F = fst (ref_chain (ref_h0 n k) (full_blocks d))" using chain by blast
  show ?thesis unfolding digest_of_def S0_def [symmetric]
    by (simp add: Let_def init_param_digest(2) [OF assms(2,3)] output_bytes [OF assms(2)] ref_blake2b_def
        ref_compress_def blake2b_set_lastblock_def keep t h)
qed

lemma blake2b_is_ref:
  "blake2b n inp key =
     (if n = 0 \<or> 64 < n \<or> 64 < length key then None
      else Some (ref_blake2b n (length key)
             ((if key = [] then [] else key @ replicate (128 - length key) 0) @ inp)))"
proof (cases "n = 0 \<or> 64 < n \<or> 64 < length key")
  case True
  then show ?thesis by (auto simp: blake2b_def blake_sizes)
next
  case False
  then have n: "1 \<le> n" "n \<le> 64" "length key \<le> 64" by auto
  define S0 where "S0 = blake2b_init_param (blake2b_param n (length key))"
  let ?pre = "if key = [] then [] else key @ replicate (128 - length key) 0"
  obtain S1 where S1: "(if key \<noteq> [] then blake2b_init_key n key else blake2b_init n) = Some S1"
    "absorbed S0 S1 ?pre"
    using update_absorbed [OF init_param_fields(6), of "blake2b_param n (length key)"
        "key @ replicate (128 - length key) 0"] False init_param_fields(6)
    by (cases "key = []") (auto simp: S0_def blake2b_init_key_def blake2b_init_def blake_sizes)
  obtain S2 where S2: "blake2b_update S1 inp = Some S2" "absorbed S0 S2 (?pre @ inp)"
    using update_absorbed [OF S1(2)] by blast
  have "blake2b n inp key = blake2b_final S2 n"
    using n S1(1) S2(1) by (simp add: blake2b_def blake_sizes)
  also have "\<dots> = Some (ref_blake2b n (length key) (?pre @ inp))"
    using final_absorbed [OF S2(2)] digest_ref [OF n] by (simp add: S0_def)
  finally show ?thesis using False by simp
qed


lemma blake2b_of2_append:
  "blake2b_of2 n a b = blake2b n (a @ b) []"
proof (cases "n = 0 \<or> 64 < n")
  case True
  then show ?thesis by (auto simp: blake2b_of2_def blake2b_init_def blake2b_def blake_sizes)
next
  case False
  define S0 where "S0 = blake2b_init_param (blake2b_param n 0)"
  have init: "blake2b_init n = Some S0" using False by (simp add: blake2b_init_def S0_def blake_sizes)
  obtain S1 where S1: "blake2b_update S0 a = Some S1" "absorbed S0 S1 a"
    using update_absorbed [OF init_param_fields(6), of "blake2b_param n 0" a] by (auto simp: S0_def)
  obtain S2 where S2: "blake2b_update S1 b = Some S2" "absorbed S0 S2 (a @ b)"
    using update_absorbed [OF S1(2)] by blast
  have "blake2b_of2 n a b = digest_of S0 (a @ b) n"
    using final_absorbed [OF S2(2)] by (simp add: blake2b_of2_def init S1(1) S2(1))
  then show ?thesis using digest_ref [of n 0 "a @ b"] False
    by (simp add: blake2b_is_ref S0_def)
qed

text \<open>Feeding a message in two calls gives the same digest as feeding it in one, wherever
  it is cut.\<close>

theorem blake2b_stream_cut:
  "blake2b_of2 n a b = blake2b n (a @ b) []"
  by (rule blake2b_of2_append)

lemma blake2b_some: "1 \<le> n \<Longrightarrow> n \<le> 64 \<Longrightarrow> \<exists>out. blake2b n d [] = Some out \<and> length out = n"
  by (simp add: blake2b_is_ref ref_blake2b_def Let_def)

text \<open>The variable-length hash returns exactly as many bytes as asked for, whatever the
  length from 1 to the largest 32-bit value.\<close>

theorem blake2b_long_length:
  assumes "1 \<le> n" "n \<le> 4294967295"
  shows "\<exists>out. blake2b_long n inp = Some out \<and> length out = n"
proof -
  have of2: "\<exists>out. blake2b_of2 m a b = Some out \<and> length out = m" if "1 \<le> m" "m \<le> 64" for m a b
    using blake2b_some [OF that] by (simp add: blake2b_of2_append)
  have loop: "32 \<le> m \<Longrightarrow> \<exists>res. blake2b_long_loop m ob out = Some res \<and> length res = length out + m" for m ob out
  proof (induction m ob out rule: blake2b_long_loop.induct)
    case (1 m ob out)
    show ?case
    proof (cases "m > 64")
      case True
      obtain ob' where ob': "blake2b 64 ob [] = Some ob'" "length ob' = 64"
        using blake2b_some [of 64 ob] by auto
      with "1.IH" True show ?thesis
        by (subst blake2b_long_loop.simps) (auto simp: blake_sizes)
    next
      case False
      with blake2b_some [of m ob] "1.prems" show ?thesis
        by (subst blake2b_long_loop.simps) (auto simp: blake_sizes)
    qed
  qed
  show ?thesis
  proof (cases "n \<le> 64")
    case True
    with of2 [of n] assms show ?thesis by (simp add: blake2b_long_def blake_sizes Let_def)
  next
    case False
    define ol where "ol = read_bytes (store32 (\<lambda>_. 0) 0 (of_nat n)) 0 4"
    obtain ob where ob: "blake2b_of2 64 ol inp = Some ob" "length ob = 64"
      using of2 [of 64 ol inp] by auto
    with loop [of "n - 32" ob "take 32 ob"] False assms show ?thesis
      by (auto simp: blake2b_long_def blake_sizes Let_def ol_def)
  qed
qed

theorem blake2b_long_length_witness: "\<exists>out. blake2b_long 1024 [1, 2, 3] = Some out \<and> length out = 1024"
  by (rule blake2b_long_length) simp_all

end
