(* ===== verification/Blake2_Gen.thy ===== *)
theory Blake2_Gen
  imports Blake2b
begin

text \<open>
  The random byte source of the program generator (\<^verbatim>\<open>blake2_generator.cpp\<close>): a 64-byte
  buffer and an index, refilled by hashing the buffer. The hash is a parameter \<open>H\<close> of the
  operations; \<open>blake_refill\<close> is the instance of the code, and the generator of the program is
  the one at \<open>blake_refill\<close>.
\<close>

definition maxSeedSize :: nat where "maxSeedSize = 60"

record Blake2Generator =
  g_data :: "u8 list"
  g_dataIndex :: nat

text \<open>\<^verbatim>\<open>blake2b(data, sizeof(data), data, sizeof(data), nullptr, 0)\<close>, its return code dropped.\<close>

definition blake_refill :: "u8 list \<Rightarrow> u8 list" where
  "blake_refill d = (case blake2b 64 d [] of None \<Rightarrow> d | Some out \<Rightarrow> out)"

definition Blake2Generator_init :: "u8 list \<Rightarrow> u32 \<Rightarrow> Blake2Generator" where
  "Blake2Generator_init seed nonce =
    (let used = (if length seed > maxSeedSize then maxSeedSize else length seed);
         zeroed = (\<lambda>_. 0 :: u8);
         filled = write_bytes zeroed 0 (take used seed)
     in \<lparr>g_data = read_bytes (store32 filled maxSeedSize nonce) 0 64, g_dataIndex = 64\<rparr>)"

definition checkData :: "(u8 list \<Rightarrow> u8 list) \<Rightarrow> nat \<Rightarrow> Blake2Generator \<Rightarrow> Blake2Generator" where
  "checkData H bytesNeeded g =
    (if g_dataIndex g + bytesNeeded > 64 then \<lparr>g_data = H (g_data g), g_dataIndex = 0\<rparr> else g)"

definition getByte :: "(u8 list \<Rightarrow> u8 list) \<Rightarrow> Blake2Generator \<Rightarrow> u8 \<times> Blake2Generator" where
  "getByte H g = (let g = checkData H 1 g in (g_data g ! g_dataIndex g, g\<lparr>g_dataIndex := g_dataIndex g + 1\<rparr>))"

definition getUInt32 :: "(u8 list \<Rightarrow> u8 list) \<Rightarrow> Blake2Generator \<Rightarrow> u32 \<times> Blake2Generator" where
  "getUInt32 H g = (let g = checkData H 4 g
     in (load32 (bytes_mem (g_data g)) (g_dataIndex g), g\<lparr>g_dataIndex := g_dataIndex g + 4\<rparr>))"

text \<open>The index stays inside the buffer, so that every read is in range.\<close>

definition gen_ok :: "Blake2Generator \<Rightarrow> bool" where
  "gen_ok g = (length (g_data g) = 64 \<and> g_dataIndex g \<le> 64)"

definition refill_ok :: "(u8 list \<Rightarrow> u8 list) \<Rightarrow> bool" where
  "refill_ok H = (\<forall>d. length d = 64 \<longrightarrow> length (H d) = 64)"

lemma blake_refill_ok: "refill_ok blake_refill"
proof -
  have "length (blake_refill d) = 64" for d
    using blake2b_some [of 64 d] by (auto simp: blake_refill_def)
  then show ?thesis by (simp add: refill_ok_def)
qed

lemma gen_init_ok: "gen_ok (Blake2Generator_init seed nonce)"
  by (simp add: gen_ok_def Blake2Generator_init_def Let_def)

lemma checkData_ok:
  assumes "gen_ok g" "refill_ok H" "n \<le> 64"
  shows "gen_ok (checkData H n g)" "g_dataIndex (checkData H n g) + n \<le> 64"
  using assms by (auto simp: gen_ok_def refill_ok_def checkData_def)

lemma getByte_ok: "gen_ok g \<Longrightarrow> refill_ok H \<Longrightarrow> gen_ok (snd (getByte H g))"
  using checkData_ok [of g H 1] by (simp add: gen_ok_def getByte_def Let_def)

lemma getUInt32_ok: "gen_ok g \<Longrightarrow> refill_ok H \<Longrightarrow> gen_ok (snd (getUInt32 H g))"
  using checkData_ok [of g H 4] by (simp add: gen_ok_def getUInt32_def Let_def)

datatype draw = Draw_byte | Draw_u32

fun draw_step :: "(u8 list \<Rightarrow> u8 list) \<Rightarrow> draw \<Rightarrow> Blake2Generator \<Rightarrow> Blake2Generator" where
  "draw_step H Draw_byte g = snd (getByte H g)"
| "draw_step H Draw_u32 g = snd (getUInt32 H g)"

fun draw_width :: "draw \<Rightarrow> nat" where
  "draw_width Draw_byte = 1" | "draw_width Draw_u32 = 4"

lemma draws_ok: "gen_ok g \<Longrightarrow> refill_ok H \<Longrightarrow> gen_ok (fold (draw_step H) ds g)"
proof (induction ds arbitrary: g)
  case (Cons d ds)
  then show ?case using getByte_ok getUInt32_ok by (cases d) simp_all
qed simp

text \<open>The byte source never reads outside its buffer: from construction on, whatever the
  order of the calls, the index leaves room for the bytes that are read.\<close>

theorem generator_in_bounds:
  "let g = checkData blake_refill (draw_width d)
             (fold (draw_step blake_refill) ds (Blake2Generator_init seed nonce))
   in g_dataIndex g + draw_width d \<le> length (g_data g)"
  using checkData_ok [OF draws_ok [OF gen_init_ok blake_refill_ok, of ds seed nonce] blake_refill_ok, of "draw_width d"]
  by (cases d) (simp_all add: Let_def gen_ok_def)

end
