(* ===== verification/Superscalar.thy ===== *)
theory Superscalar
  imports Blake2_Gen Config Instr Portable_Arith "HOL-Library.Monad_Syntax"
begin

text \<open>
  The generator and interpreter of superscalar programs (\<^verbatim>\<open>superscalar.cpp\<close>,
  \<^verbatim>\<open>superscalar.hpp\<close>, \<^verbatim>\<open>superscalar_program.hpp\<close>): the macro-operation and
  decoder tables, the creation of instructions, the choice of operands, the scheduling on
  execution ports, the generator loop and the execution of a finished program.

  An execution port is busy when its entry is not 0. The \<^verbatim>\<open>int\<close> counters are naturals
  where the code never makes them negative; a scheduling cycle of -1 is \<open>None\<close>. Two loops of
  the generator draw random values until one is accepted. They are partial functions, so
  that a generator that never accepts has the result \<open>None\<close>; a switch that reaches
  \<^verbatim>\<open>UNREACHABLE\<close> has the result \<open>None\<close> too. The trace output and the statistic
  \<^verbatim>\<open>ipc\<close> are left out.
\<close>

section \<open>Tables\<close>

datatype SuperscalarInstructionType =
    S_ISUB_R | S_IXOR_R | S_IADD_RS | S_IMUL_R | S_IROR_C | S_IADD_C7 | S_IXOR_C7 | S_IADD_C8
  | S_IXOR_C8 | S_IADD_C9 | S_IXOR_C9 | S_IMULH_R | S_ISMULH_R | S_IMUL_RCP | S_INVALID

fun stype_code :: "SuperscalarInstructionType \<Rightarrow> int" where
  "stype_code S_ISUB_R = 0" | "stype_code S_IXOR_R = 1" | "stype_code S_IADD_RS = 2"
| "stype_code S_IMUL_R = 3" | "stype_code S_IROR_C = 4" | "stype_code S_IADD_C7 = 5"
| "stype_code S_IXOR_C7 = 6" | "stype_code S_IADD_C8 = 7" | "stype_code S_IXOR_C8 = 8"
| "stype_code S_IADD_C9 = 9" | "stype_code S_IXOR_C9 = 10" | "stype_code S_IMULH_R = 11"
| "stype_code S_ISMULH_R = 12" | "stype_code S_IMUL_RCP = 13" | "stype_code S_INVALID = -1"

definition isMultiplication :: "SuperscalarInstructionType \<Rightarrow> bool" where
  "isMultiplication t = (t = S_IMUL_R \<or> t = S_IMULH_R \<or> t = S_ISMULH_R \<or> t = S_IMUL_RCP)"

definition Port_Null :: nat where "Port_Null = 0"
definition P0 :: nat where "P0 = 1"
definition P1 :: nat where "P1 = 2"
definition P5 :: nat where "P5 = 4"
definition P01 :: nat where "P01 = P0 OR P1"
definition P05 :: nat where "P05 = P0 OR P5"
definition P015 :: nat where "P015 = P0 OR P1 OR P5"

lemmas port_defs = Port_Null_def P0_def P1_def P5_def P01_def P05_def P015_def

record MacroOp =
  mop_name :: string
  mop_size :: nat
  mop_latency :: nat
  mop_uop1 :: nat
  mop_uop2 :: nat
  mop_dependent :: bool

definition mop2 :: "string \<Rightarrow> nat \<Rightarrow> nat \<Rightarrow> nat \<Rightarrow> nat \<Rightarrow> MacroOp" where
  "mop2 name sz lat u1 u2 = \<lparr>mop_name = name, mop_size = sz, mop_latency = lat, mop_uop1 = u1,
     mop_uop2 = u2, mop_dependent = False\<rparr>"

definition mop1 :: "string \<Rightarrow> nat \<Rightarrow> nat \<Rightarrow> nat \<Rightarrow> MacroOp" where
  "mop1 name sz lat u = mop2 name sz lat u Port_Null"

definition mop0 :: "string \<Rightarrow> nat \<Rightarrow> MacroOp" where
  "mop0 name sz = mop2 name sz 0 Port_Null Port_Null"

definition isSimple :: "MacroOp \<Rightarrow> bool" where "isSimple m = (mop_uop2 m = Port_Null)"
definition isEliminated :: "MacroOp \<Rightarrow> bool" where "isEliminated m = (mop_uop1 m = Port_Null)"

definition Sub_rr :: MacroOp where "Sub_rr = mop1 ''sub r,r'' 3 1 P015"
definition Xor_rr :: MacroOp where "Xor_rr = mop1 ''xor r,r'' 3 1 P015"
definition Imul_r :: MacroOp where "Imul_r = mop2 ''imul r'' 3 4 P1 P5"
definition Mul_r :: MacroOp where "Mul_r = mop2 ''mul r'' 3 4 P1 P5"
definition Mov_rr :: MacroOp where "Mov_rr = mop0 ''mov r,r'' 3"
definition Lea_sib :: MacroOp where "Lea_sib = mop1 ''lea r,r+r*s'' 4 1 P01"
definition Imul_rr :: MacroOp where "Imul_rr = mop1 ''imul r,r'' 4 3 P1"
definition Ror_ri :: MacroOp where "Ror_ri = mop1 ''ror r,i'' 4 1 P05"
definition Add_ri :: MacroOp where "Add_ri = mop1 ''add r,i'' 7 1 P015"
definition Xor_ri :: MacroOp where "Xor_ri = mop1 ''xor r,i'' 7 1 P015"
definition Mov_ri64 :: MacroOp where "Mov_ri64 = mop1 ''mov rax,i64'' 10 1 P015"

record SuperscalarInstructionInfo =
  info_name :: string
  info_type :: SuperscalarInstructionType
  info_ops :: "MacroOp list"
  info_latency :: nat
  info_resultOp :: int
  info_dstOp :: int
  info_srcOp :: int

definition info1 :: "string \<Rightarrow> SuperscalarInstructionType \<Rightarrow> MacroOp \<Rightarrow> int \<Rightarrow> SuperscalarInstructionInfo" where
  "info1 name t op srcOp = \<lparr>info_name = name, info_type = t, info_ops = [op], info_latency = mop_latency op,
     info_resultOp = 0, info_dstOp = 0, info_srcOp = srcOp\<rparr>"

definition infoN :: "string \<Rightarrow> SuperscalarInstructionType \<Rightarrow> MacroOp list \<Rightarrow> int \<Rightarrow> int \<Rightarrow> int
    \<Rightarrow> SuperscalarInstructionInfo" where
  "infoN name t arr resultOp dstOp srcOp = \<lparr>info_name = name, info_type = t, info_ops = arr,
     info_latency = sum_list (map mop_latency arr), info_resultOp = resultOp, info_dstOp = dstOp,
     info_srcOp = srcOp\<rparr>"

definition info_ISUB_R :: SuperscalarInstructionInfo where "info_ISUB_R = info1 ''ISUB_R'' S_ISUB_R Sub_rr 0"
definition info_IXOR_R :: SuperscalarInstructionInfo where "info_IXOR_R = info1 ''IXOR_R'' S_IXOR_R Xor_rr 0"
definition info_IADD_RS :: SuperscalarInstructionInfo where "info_IADD_RS = info1 ''IADD_RS'' S_IADD_RS Lea_sib 0"
definition info_IMUL_R :: SuperscalarInstructionInfo where "info_IMUL_R = info1 ''IMUL_R'' S_IMUL_R Imul_rr 0"
definition info_IROR_C :: SuperscalarInstructionInfo where "info_IROR_C = info1 ''IROR_C'' S_IROR_C Ror_ri (-1)"
definition info_IADD_C7 :: SuperscalarInstructionInfo where "info_IADD_C7 = info1 ''IADD_C7'' S_IADD_C7 Add_ri (-1)"
definition info_IXOR_C7 :: SuperscalarInstructionInfo where "info_IXOR_C7 = info1 ''IXOR_C7'' S_IXOR_C7 Xor_ri (-1)"
definition info_IADD_C8 :: SuperscalarInstructionInfo where "info_IADD_C8 = info1 ''IADD_C8'' S_IADD_C8 Add_ri (-1)"
definition info_IXOR_C8 :: SuperscalarInstructionInfo where "info_IXOR_C8 = info1 ''IXOR_C8'' S_IXOR_C8 Xor_ri (-1)"
definition info_IADD_C9 :: SuperscalarInstructionInfo where "info_IADD_C9 = info1 ''IADD_C9'' S_IADD_C9 Add_ri (-1)"
definition info_IXOR_C9 :: SuperscalarInstructionInfo where "info_IXOR_C9 = info1 ''IXOR_C9'' S_IXOR_C9 Xor_ri (-1)"
definition info_IMULH_R :: SuperscalarInstructionInfo where
  "info_IMULH_R = infoN ''IMULH_R'' S_IMULH_R [Mov_rr, Mul_r, Mov_rr] 1 0 1"
definition info_ISMULH_R :: SuperscalarInstructionInfo where
  "info_ISMULH_R = infoN ''ISMULH_R'' S_ISMULH_R [Mov_rr, Imul_r, Mov_rr] 1 0 1"
definition info_IMUL_RCP :: SuperscalarInstructionInfo where
  "info_IMUL_RCP = infoN ''IMUL_RCP'' S_IMUL_RCP [Mov_ri64, Imul_rr\<lparr>mop_dependent := True\<rparr>] 1 1 (-1)"
definition info_NOP :: SuperscalarInstructionInfo where
  "info_NOP = \<lparr>info_name = ''NOP'', info_type = S_INVALID, info_ops = [], info_latency = 0,
     info_resultOp = 0, info_dstOp = 0, info_srcOp = 0\<rparr>"

definition info_size :: "SuperscalarInstructionInfo \<Rightarrow> nat" where "info_size i = length (info_ops i)"

record DecoderBuffer =
  db_name :: string
  db_index :: int
  db_counts :: "nat list"

definition db_size :: "DecoderBuffer \<Rightarrow> nat" where "db_size d = length (db_counts d)"

definition decodeBuffer484 :: DecoderBuffer where
  "decodeBuffer484 = \<lparr>db_name = ''4,8,4'', db_index = 0, db_counts = [4, 8, 4]\<rparr>"
definition decodeBuffer7333 :: DecoderBuffer where
  "decodeBuffer7333 = \<lparr>db_name = ''7,3,3,3'', db_index = 1, db_counts = [7, 3, 3, 3]\<rparr>"
definition decodeBuffer3733 :: DecoderBuffer where
  "decodeBuffer3733 = \<lparr>db_name = ''3,7,3,3'', db_index = 2, db_counts = [3, 7, 3, 3]\<rparr>"
definition decodeBuffer493 :: DecoderBuffer where
  "decodeBuffer493 = \<lparr>db_name = ''4,9,3'', db_index = 3, db_counts = [4, 9, 3]\<rparr>"
definition decodeBuffer4444 :: DecoderBuffer where
  "decodeBuffer4444 = \<lparr>db_name = ''4,4,4,4'', db_index = 4, db_counts = [4, 4, 4, 4]\<rparr>"
definition decodeBuffer3310 :: DecoderBuffer where
  "decodeBuffer3310 = \<lparr>db_name = ''3,3,10'', db_index = 5, db_counts = [3, 3, 10]\<rparr>"

definition decodeBuffers :: "DecoderBuffer list" where
  "decodeBuffers = [decodeBuffer484, decodeBuffer7333, decodeBuffer3733, decodeBuffer493]"

lemmas buffer_defs = decodeBuffer484_def decodeBuffer7333_def decodeBuffer3733_def decodeBuffer493_def
  decodeBuffer4444_def decodeBuffer3310_def

definition fetchNextDefault :: "(u8 list \<Rightarrow> u8 list) \<Rightarrow> Blake2Generator \<Rightarrow> DecoderBuffer \<times> Blake2Generator" where
  "fetchNextDefault H g = (let (b, g) = getByte H g in (decodeBuffers ! unat (b AND 3), g))"

definition fetchNext :: "(u8 list \<Rightarrow> u8 list) \<Rightarrow> SuperscalarInstructionType \<Rightarrow> nat \<Rightarrow> nat \<Rightarrow> Blake2Generator
    \<Rightarrow> DecoderBuffer \<times> Blake2Generator" where
  "fetchNext H instrType cycle mulCount g =
    (if instrType = S_IMULH_R \<or> instrType = S_ISMULH_R then (decodeBuffer3310, g)
     else if mulCount < cycle + 1 then (decodeBuffer4444, g)
     else if instrType = S_IMUL_RCP
          then let (b, g) = getByte H g in (if b AND 1 \<noteq> 0 then decodeBuffer484 else decodeBuffer493, g)
     else fetchNextDefault H g)"

definition slot_3 :: "SuperscalarInstructionInfo list" where "slot_3 = [info_ISUB_R, info_IXOR_R]"
definition slot_3L :: "SuperscalarInstructionInfo list" where
  "slot_3L = [info_ISUB_R, info_IXOR_R, info_IMULH_R, info_ISMULH_R]"
definition slot_4 :: "SuperscalarInstructionInfo list" where "slot_4 = [info_IROR_C, info_IADD_RS]"
definition slot_7 :: "SuperscalarInstructionInfo list" where "slot_7 = [info_IXOR_C7, info_IADD_C7]"
definition slot_8 :: "SuperscalarInstructionInfo list" where "slot_8 = [info_IXOR_C8, info_IADD_C8]"
definition slot_9 :: "SuperscalarInstructionInfo list" where "slot_9 = [info_IXOR_C9, info_IADD_C9]"
definition slot_10 :: SuperscalarInstructionInfo where "slot_10 = info_IMUL_RCP"

section \<open>Instructions\<close>

definition selectRegister :: "(u8 list \<Rightarrow> u8 list) \<Rightarrow> nat list \<Rightarrow> Blake2Generator \<Rightarrow> nat option \<times> Blake2Generator" where
  "selectRegister H availableRegisters g =
    (if length availableRegisters = 0 then (None, g)
     else if length availableRegisters > 1
          then let (v, g) = getUInt32 H g
               in (Some (availableRegisters ! (unat v mod length availableRegisters)), g)
          else (Some (availableRegisters ! 0), g))"

record RegisterInfo =
  ri_latency :: nat
  ri_lastOpGroup :: SuperscalarInstructionType
  ri_lastOpPar :: int
  ri_value :: int

definition RegisterInfo_init :: RegisterInfo where
  "RegisterInfo_init = \<lparr>ri_latency = 0, ri_lastOpGroup = S_INVALID, ri_lastOpPar = -1, ri_value = 0\<rparr>"

record SuperscalarInstruction =
  si_info :: SuperscalarInstructionInfo
  si_src :: int
  si_dst :: int
  si_mod :: int
  si_imm32 :: u32
  si_opGroup :: SuperscalarInstructionType
  si_opGroupPar :: int
  si_canReuse :: bool
  si_groupParIsSource :: bool

text \<open>The fields the constructor leaves uninitialised are zero here; nothing reads them before
  \<open>create\<close> or \<open>selectSource\<close> has set them.\<close>

definition SI_Null :: SuperscalarInstruction where
  "SI_Null = \<lparr>si_info = info_NOP, si_src = -1, si_dst = -1, si_mod = 0, si_imm32 = 0,
     si_opGroup = S_INVALID, si_opGroupPar = 0, si_canReuse = False, si_groupParIsSource = False\<rparr>"

definition si_reset :: "SuperscalarInstruction \<Rightarrow> SuperscalarInstruction" where
  "si_reset s = s\<lparr>si_src := -1, si_dst := -1, si_canReuse := False, si_groupParIsSource := False\<rparr>"

definition toInstr :: "SuperscalarInstruction \<Rightarrow> Instruction \<Rightarrow> Instruction" where
  "toInstr s i = setImm32 (si_imm32 s) (setMod (word_of_int (si_mod s))
     (i\<lparr>i_opcode := word_of_int (stype_code (info_type (si_info s))), i_dst := word_of_int (si_dst s),
        i_src := word_of_int (if si_src s \<ge> 0 then si_src s else si_dst s)\<rparr>))"

partial_function (option) draw_rotation ::
  "(u8 list \<Rightarrow> u8 list) \<Rightarrow> Blake2Generator \<Rightarrow> (u32 \<times> Blake2Generator) option" where
  "draw_rotation H g =
    (case getByte H g of (b, g') \<Rightarrow>
       (if (ucast b :: u32) AND 63 = 0 then draw_rotation H g' else Some (ucast b AND 63, g')))"

partial_function (option) draw_divisor ::
  "(u8 list \<Rightarrow> u8 list) \<Rightarrow> Blake2Generator \<Rightarrow> (u32 \<times> Blake2Generator) option" where
  "draw_divisor H g =
    (case getUInt32 H g of (v, g') \<Rightarrow>
       (if isZeroOrPowerOf2 (ucast v) then draw_divisor H g' else Some (v, g')))"

definition si_create :: "(u8 list \<Rightarrow> u8 list) \<Rightarrow> SuperscalarInstructionInfo \<Rightarrow> SuperscalarInstruction
    \<Rightarrow> Blake2Generator \<Rightarrow> (SuperscalarInstruction \<times> Blake2Generator) option" where
  "si_create H info s g =
    (let s = si_reset (s\<lparr>si_info := info\<rparr>)
     in case info_type info of
       S_ISUB_R \<Rightarrow> Some (s\<lparr>si_mod := 0, si_imm32 := 0, si_opGroup := S_IADD_RS, si_groupParIsSource := True\<rparr>, g)
     | S_IXOR_R \<Rightarrow> Some (s\<lparr>si_mod := 0, si_imm32 := 0, si_opGroup := S_IXOR_R, si_groupParIsSource := True\<rparr>, g)
     | S_IADD_RS \<Rightarrow> (let (b, g) = getByte H g
         in Some (s\<lparr>si_mod := int (unat b), si_imm32 := 0, si_opGroup := S_IADD_RS, si_groupParIsSource := True\<rparr>, g))
     | S_IMUL_R \<Rightarrow> Some (s\<lparr>si_mod := 0, si_imm32 := 0, si_opGroup := S_IMUL_R, si_groupParIsSource := True\<rparr>, g)
     | S_IROR_C \<Rightarrow> (case draw_rotation H g of None \<Rightarrow> None
         | Some (v, g) \<Rightarrow> Some (s\<lparr>si_mod := 0, si_imm32 := v, si_opGroup := S_IROR_C, si_opGroupPar := -1\<rparr>, g))
     | S_IMULH_R \<Rightarrow> (let (v, g) = getUInt32 H g
         in Some (s\<lparr>si_canReuse := True, si_mod := 0, si_imm32 := 0, si_opGroup := S_IMULH_R,
                    si_opGroupPar := sint v\<rparr>, g))
     | S_ISMULH_R \<Rightarrow> (let (v, g) = getUInt32 H g
         in Some (s\<lparr>si_canReuse := True, si_mod := 0, si_imm32 := 0, si_opGroup := S_ISMULH_R,
                    si_opGroupPar := sint v\<rparr>, g))
     | S_IMUL_RCP \<Rightarrow> (case draw_divisor H g of None \<Rightarrow> None
         | Some (v, g) \<Rightarrow> Some (s\<lparr>si_mod := 0, si_imm32 := v, si_opGroup := S_IMUL_RCP, si_opGroupPar := -1\<rparr>, g))
     | S_INVALID \<Rightarrow> Some (s, g)
     | t \<Rightarrow> (let (v, g) = getUInt32 H g
         in if t = S_IADD_C7 \<or> t = S_IADD_C8 \<or> t = S_IADD_C9
            then Some (s\<lparr>si_mod := 0, si_imm32 := v, si_opGroup := S_IADD_C7, si_opGroupPar := -1\<rparr>, g)
            else Some (s\<lparr>si_mod := 0, si_imm32 := v, si_opGroup := S_IXOR_C7, si_opGroupPar := -1\<rparr>, g)))"

definition createForSlot :: "(u8 list \<Rightarrow> u8 list) \<Rightarrow> nat \<Rightarrow> int \<Rightarrow> bool \<Rightarrow> SuperscalarInstruction
    \<Rightarrow> Blake2Generator \<Rightarrow> (SuperscalarInstruction \<times> Blake2Generator) option" where
  "createForSlot H slotSize fetchType isLast s g =
    (if slotSize = 3 then
       (let (b, g) = getByte H g
        in if isLast then si_create H (slot_3L ! unat (b AND 3)) s g
           else si_create H (slot_3 ! unat (b AND 1)) s g)
     else if slotSize = 4 then
       (if fetchType = 4 \<and> \<not> isLast then si_create H info_IMUL_R s g
        else let (b, g) = getByte H g in si_create H (slot_4 ! unat (b AND 1)) s g)
     else if slotSize = 7 then (let (b, g) = getByte H g in si_create H (slot_7 ! unat (b AND 1)) s g)
     else if slotSize = 8 then (let (b, g) = getByte H g in si_create H (slot_8 ! unat (b AND 1)) s g)
     else if slotSize = 9 then (let (b, g) = getByte H g in si_create H (slot_9 ! unat (b AND 1)) s g)
     else if slotSize = 10 then si_create H slot_10 s g
     else None)"

definition dst_candidates :: "nat \<Rightarrow> bool \<Rightarrow> (nat \<Rightarrow> RegisterInfo) \<Rightarrow> SuperscalarInstruction \<Rightarrow> nat list" where
  "dst_candidates cycle allowChainedMul registers s =
     filter (\<lambda>i. ri_latency (registers i) \<le> cycle \<and> (si_canReuse s \<or> int i \<noteq> si_src s) \<and>
       (allowChainedMul \<or> si_opGroup s \<noteq> S_IMUL_R \<or> ri_lastOpGroup (registers i) \<noteq> S_IMUL_R) \<and>
       (ri_lastOpGroup (registers i) \<noteq> si_opGroup s \<or> ri_lastOpPar (registers i) \<noteq> si_opGroupPar s) \<and>
       (info_type (si_info s) \<noteq> S_IADD_RS \<or> i \<noteq> RegisterNeedsDisplacement)) [0..<8]"

definition selectDestination :: "(u8 list \<Rightarrow> u8 list) \<Rightarrow> nat \<Rightarrow> bool \<Rightarrow> (nat \<Rightarrow> RegisterInfo)
    \<Rightarrow> SuperscalarInstruction \<Rightarrow> Blake2Generator \<Rightarrow> bool \<times> SuperscalarInstruction \<times> Blake2Generator" where
  "selectDestination H cycle allowChainedMul registers s g =
    (case selectRegister H (dst_candidates cycle allowChainedMul registers s) g of
       (None, g) \<Rightarrow> (False, s, g)
     | (Some r, g) \<Rightarrow> (True, s\<lparr>si_dst := int r\<rparr>, g))"

definition selectSource :: "(u8 list \<Rightarrow> u8 list) \<Rightarrow> nat \<Rightarrow> (nat \<Rightarrow> RegisterInfo)
    \<Rightarrow> SuperscalarInstruction \<Rightarrow> Blake2Generator \<Rightarrow> bool \<times> SuperscalarInstruction \<times> Blake2Generator" where
  "selectSource H cycle registers s g =
    (let available = filter (\<lambda>i. ri_latency (registers i) \<le> cycle) [0..<8]
     in if length available = 2 \<and> info_type (si_info s) = S_IADD_RS \<and>
           (available ! 0 = RegisterNeedsDisplacement \<or> available ! 1 = RegisterNeedsDisplacement)
        then (True, s\<lparr>si_src := int RegisterNeedsDisplacement, si_opGroupPar := int RegisterNeedsDisplacement\<rparr>, g)
        else case selectRegister H available g of
               (None, g) \<Rightarrow> (False, s, g)
             | (Some r, g) \<Rightarrow> (True, (if si_groupParIsSource s
                 then s\<lparr>si_src := int r, si_opGroupPar := int r\<rparr> else s\<lparr>si_src := int r\<rparr>), g))"

section \<open>Scheduling\<close>

definition CYCLE_MAP_SIZE :: nat where "CYCLE_MAP_SIZE = RANDOMX_SUPERSCALAR_LATENCY + 4"
definition LOOK_FORWARD_CYCLES :: nat where "LOOK_FORWARD_CYCLES = 4"
definition MAX_THROWAWAY_COUNT :: nat where "MAX_THROWAWAY_COUNT = 256"

type_synonym ports = "nat \<Rightarrow> nat \<Rightarrow> nat"

definition mark_port :: "bool \<Rightarrow> nat \<Rightarrow> nat \<Rightarrow> nat \<Rightarrow> ports \<Rightarrow> ports" where
  "mark_port commit uop cycle p portBusy =
     (if commit then portBusy(cycle := (portBusy cycle)(p := uop)) else portBusy)"

function scheduleUop :: "bool \<Rightarrow> nat \<Rightarrow> ports \<Rightarrow> nat \<Rightarrow> nat option \<times> ports" where
  "scheduleUop commit uop portBusy cycle =
    (if cycle < CYCLE_MAP_SIZE then
       if uop AND P5 \<noteq> 0 \<and> portBusy cycle 2 = 0 then (Some cycle, mark_port commit uop cycle 2 portBusy)
       else if uop AND P0 \<noteq> 0 \<and> portBusy cycle 0 = 0 then (Some cycle, mark_port commit uop cycle 0 portBusy)
       else if uop AND P1 \<noteq> 0 \<and> portBusy cycle 1 = 0 then (Some cycle, mark_port commit uop cycle 1 portBusy)
       else scheduleUop commit uop portBusy (cycle + 1)
     else (None, portBusy))"
  by auto
termination by (relation "measure (\<lambda>(_, _, _, c). CYCLE_MAP_SIZE - c)") auto

declare scheduleUop.simps [simp del]

function scheduleMop2 :: "bool \<Rightarrow> MacroOp \<Rightarrow> ports \<Rightarrow> nat \<Rightarrow> nat option \<times> ports" where
  "scheduleMop2 commit mop portBusy cycle =
    (if cycle < CYCLE_MAP_SIZE then
       let cycle1 = fst (scheduleUop False (mop_uop1 mop) portBusy cycle);
           cycle2 = fst (scheduleUop False (mop_uop2 mop) portBusy cycle)
       in case (cycle1, cycle2) of
            (Some c1, Some c2) \<Rightarrow>
              if c1 = c2
              then if commit
                   then (Some c1, snd (scheduleUop True (mop_uop2 mop)
                                        (snd (scheduleUop True (mop_uop1 mop) portBusy c1)) c2))
                   else (Some c1, portBusy)
              else scheduleMop2 commit mop portBusy (cycle + 1)
          | _ \<Rightarrow> scheduleMop2 commit mop portBusy (cycle + 1)
     else (None, portBusy))"
  by pat_completeness auto
termination by (relation "measure (\<lambda>(_, _, _, c). CYCLE_MAP_SIZE - c)") auto

declare scheduleMop2.simps [simp del]

definition scheduleMop :: "bool \<Rightarrow> MacroOp \<Rightarrow> ports \<Rightarrow> nat \<Rightarrow> nat \<Rightarrow> nat option \<times> ports" where
  "scheduleMop commit mop portBusy cycle depCycle =
    (let cycle = (if mop_dependent mop then max cycle depCycle else cycle)
     in if isEliminated mop then (Some cycle, portBusy)
        else if isSimple mop then scheduleUop commit (mop_uop1 mop) portBusy cycle
        else scheduleMop2 commit mop portBusy cycle)"

section \<open>Generator loop\<close>

record gstate =
  s_portBusy :: ports
  s_registers :: "nat \<Rightarrow> RegisterInfo"
  s_cur :: SuperscalarInstruction
  s_macroOpIndex :: nat
  s_codeSize :: nat
  s_macroOpCount :: nat
  s_cycle :: nat
  s_depCycle :: nat
  s_retireCycle :: nat
  s_portsSaturated :: bool
  s_programSize :: nat
  s_mulCount :: nat
  s_throwAwayCount :: nat
  s_gen :: Blake2Generator
  s_prog :: "Instruction list"

definition cur_info :: "gstate \<Rightarrow> SuperscalarInstructionInfo" where "cur_info st = si_info (s_cur st)"

text \<open>The two search loops \<^verbatim>\<open>for (forward = 0; forward < LOOK_FORWARD_CYCLES && !select...\<close>:
  whether a register was found, and the scheduling cycle reached.\<close>

fun forward_source :: "(u8 list \<Rightarrow> u8 list) \<Rightarrow> nat \<Rightarrow> nat \<Rightarrow> gstate \<Rightarrow> bool \<times> nat \<times> gstate" where
  "forward_source H 0 scheduleCycle st = (False, scheduleCycle, st)"
| "forward_source H (Suc n) scheduleCycle st =
    (case selectSource H scheduleCycle (s_registers st) (s_cur st) (s_gen st) of
       (True, s, g) \<Rightarrow> (True, scheduleCycle, st\<lparr>s_cur := s, s_gen := g\<rparr>)
     | (False, s, g) \<Rightarrow> forward_source H n (scheduleCycle + 1)
                          (st\<lparr>s_cur := s, s_gen := g, s_cycle := s_cycle st + 1\<rparr>))"

fun forward_destination :: "(u8 list \<Rightarrow> u8 list) \<Rightarrow> nat \<Rightarrow> nat \<Rightarrow> gstate \<Rightarrow> bool \<times> nat \<times> gstate" where
  "forward_destination H 0 scheduleCycle st = (False, scheduleCycle, st)"
| "forward_destination H (Suc n) scheduleCycle st =
    (case selectDestination H scheduleCycle (s_throwAwayCount st > 0) (s_registers st) (s_cur st) (s_gen st) of
       (True, s, g) \<Rightarrow> (True, scheduleCycle, st\<lparr>s_cur := s, s_gen := g\<rparr>)
     | (False, s, g) \<Rightarrow> forward_destination H n (scheduleCycle + 1)
                          (st\<lparr>s_cur := s, s_gen := g, s_cycle := s_cycle st + 1\<rparr>))"

definition pick_source :: "(u8 list \<Rightarrow> u8 list) \<Rightarrow> nat \<Rightarrow> gstate \<Rightarrow> bool \<times> nat \<times> gstate" where
  "pick_source H scheduleCycle st =
    (if int (s_macroOpIndex st) = info_srcOp (cur_info st)
     then forward_source H LOOK_FORWARD_CYCLES scheduleCycle st else (True, scheduleCycle, st))"

definition pick_destination :: "(u8 list \<Rightarrow> u8 list) \<Rightarrow> nat \<Rightarrow> gstate \<Rightarrow> bool \<times> nat \<times> gstate" where
  "pick_destination H scheduleCycle st =
    (if int (s_macroOpIndex st) = info_dstOp (cur_info st)
     then forward_destination H LOOK_FORWARD_CYCLES scheduleCycle st else (True, scheduleCycle, st))"

text \<open>One round of the inner loop ends by going on at a slot (\<^verbatim>\<open>continue\<close> or the end of the
  body) or by leaving the decode buffer (\<^verbatim>\<open>break\<close>).\<close>

datatype slot_result = Slot nat gstate | Leave gstate

definition throw_away :: "nat \<Rightarrow> gstate \<Rightarrow> slot_result" where
  "throw_away bufferIndex st =
    (if s_throwAwayCount st < MAX_THROWAWAY_COUNT
     then Slot bufferIndex (st\<lparr>s_throwAwayCount := s_throwAwayCount st + 1,
            s_macroOpIndex := info_size (cur_info st)\<rparr>)
     else Leave (st\<lparr>s_cur := SI_Null\<rparr>))"

definition retire :: "nat \<Rightarrow> gstate \<Rightarrow> gstate" where
  "retire depCycle st =
    (if int (s_macroOpIndex st) = info_resultOp (cur_info st)
     then let dst = nat (si_dst (s_cur st))
          in st\<lparr>s_retireCycle := depCycle,
                s_registers := (s_registers st)(dst := (s_registers st dst)\<lparr>ri_latency := depCycle,
                  ri_lastOpGroup := si_opGroup (s_cur st), ri_lastOpPar := si_opGroupPar (s_cur st)\<rparr>)\<rparr>
     else st)"

definition emit :: "gstate \<Rightarrow> gstate" where
  "emit st =
    (if s_macroOpIndex st \<ge> info_size (cur_info st)
     then st\<lparr>s_prog := (s_prog st)[s_programSize st := toInstr (s_cur st) (s_prog st ! s_programSize st)],
             s_programSize := s_programSize st + 1,
             s_mulCount := s_mulCount st + (if isMultiplication (info_type (cur_info st)) then 1 else 0)\<rparr>
     else st)"

definition issue :: "nat \<Rightarrow> nat \<Rightarrow> nat \<Rightarrow> gstate \<Rightarrow> slot_result" where
  "issue bufferIndex topCycle scheduleCycle st =
    (let mop = info_ops (cur_info st) ! s_macroOpIndex st;
         st = st\<lparr>s_throwAwayCount := 0\<rparr>
     in case scheduleMop True mop (s_portBusy st) scheduleCycle scheduleCycle of
          (None, pb) \<Rightarrow> Leave (st\<lparr>s_portBusy := pb, s_portsSaturated := True\<rparr>)
        | (Some scheduleCycle, pb) \<Rightarrow>
            (let depCycle = scheduleCycle + mop_latency mop;
                 st = st\<lparr>s_portBusy := pb, s_depCycle := depCycle\<rparr>;
                 st = retire depCycle st;
                 st = st\<lparr>s_codeSize := s_codeSize st + mop_size mop, s_macroOpIndex := s_macroOpIndex st + 1,
                        s_macroOpCount := s_macroOpCount st + 1\<rparr>;
                 st = (if scheduleCycle \<ge> RANDOMX_SUPERSCALAR_LATENCY then st\<lparr>s_portsSaturated := True\<rparr> else st);
                 st = st\<lparr>s_cycle := topCycle\<rparr>
             in Slot (bufferIndex + 1) (emit st)))"

definition place :: "(u8 list \<Rightarrow> u8 list) \<Rightarrow> nat \<Rightarrow> nat \<Rightarrow> gstate \<Rightarrow> slot_result" where
  "place H bufferIndex topCycle st =
    (let mop = info_ops (cur_info st) ! s_macroOpIndex st
     in case fst (scheduleMop False mop (s_portBusy st) (s_cycle st) (s_depCycle st)) of
          None \<Rightarrow> Leave (st\<lparr>s_portsSaturated := True\<rparr>)
        | Some scheduleCycle \<Rightarrow>
            (case pick_source H scheduleCycle st of
               (False, _, st) \<Rightarrow> throw_away bufferIndex st
             | (True, scheduleCycle, st) \<Rightarrow>
                 (case pick_destination H scheduleCycle st of
                    (False, _, st) \<Rightarrow> throw_away bufferIndex st
                  | (True, scheduleCycle, st) \<Rightarrow> issue bufferIndex topCycle scheduleCycle st)))"

definition slot_step :: "(u8 list \<Rightarrow> u8 list) \<Rightarrow> DecoderBuffer \<Rightarrow> nat \<Rightarrow> gstate \<Rightarrow> slot_result option" where
  "slot_step H db bufferIndex st =
    (let topCycle = s_cycle st
     in if s_macroOpIndex st \<ge> info_size (cur_info st)
        then if s_portsSaturated st \<or> s_programSize st \<ge> SuperscalarMaxSize then Some (Leave st)
             else case createForSlot H (db_counts db ! bufferIndex) (db_index db)
                         (db_size db = bufferIndex + 1) (s_cur st) (s_gen st) of
                    None \<Rightarrow> None
                  | Some (s, g) \<Rightarrow> Some (place H bufferIndex topCycle
                                     (st\<lparr>s_cur := s, s_gen := g, s_macroOpIndex := 0\<rparr>))
        else Some (place H bufferIndex topCycle st))"

text \<open>A slot is filled or an instruction is thrown away: that is the measure of the inner loop.\<close>

definition slot_measure :: "DecoderBuffer \<Rightarrow> nat \<Rightarrow> gstate \<Rightarrow> nat" where
  "slot_measure db bufferIndex st =
     (db_size db - bufferIndex) * (MAX_THROWAWAY_COUNT + 1) + (MAX_THROWAWAY_COUNT - s_throwAwayCount st)"

lemma forward_keeps:
  "forward_source H n c st = (b, c', st') \<Longrightarrow> s_throwAwayCount st' = s_throwAwayCount st"
  "forward_destination H n c st = (b, c', st') \<Longrightarrow> s_throwAwayCount st' = s_throwAwayCount st"
  by (induction n arbitrary: c st) (auto split: prod.splits bool.splits)

lemma throw_away_measure:
  "throw_away bi st = Slot bi' st' \<Longrightarrow> bi' = bi \<and> s_throwAwayCount st < MAX_THROWAWAY_COUNT \<and>
     s_throwAwayCount st' = s_throwAwayCount st + 1"
  by (auto simp: throw_away_def split: if_splits)

lemma issue_measure: "issue bi tc c st = Slot bi' st' \<Longrightarrow> bi' = bi + 1 \<and> s_throwAwayCount st' = 0"
  by (auto simp: issue_def Let_def emit_def retire_def split: prod.splits option.splits if_splits)

lemma place_measure:
  assumes "place H bi tc st = Slot bi' st'" "bi < db_size db"
  shows "slot_measure db bi' st' < slot_measure db bi st"
proof -
  have "(bi' = bi \<and> s_throwAwayCount st < MAX_THROWAWAY_COUNT \<and> s_throwAwayCount st' = s_throwAwayCount st + 1)
    \<or> (bi' = bi + 1 \<and> s_throwAwayCount st' = 0)"
    using assms(1) unfolding place_def pick_source_def pick_destination_def Let_def
    by (auto split: option.splits prod.splits if_splits bool.splits
        dest!: forward_keeps throw_away_measure issue_measure)
  then show ?thesis
  proof
    assume "bi' = bi + 1 \<and> s_throwAwayCount st' = 0"
    moreover obtain k where k: "db_size db - bi = Suc k" using assms(2) by (metis Suc_diff_Suc)
    then have "db_size db - (bi + 1) = k" by linarith
    ultimately show ?thesis by (simp only: slot_measure_def k) simp
  qed (auto simp: slot_measure_def)
qed

lemma slot_step_measure:
  assumes "slot_step H db bi st = Some (Slot bi' st')" "bi < db_size db"
  shows "slot_measure db bi' st' < slot_measure db bi st"
  using assms(1) by (auto simp: slot_step_def Let_def slot_measure_def split: if_splits option.splits
      dest!: place_measure [OF _ assms(2)])

text \<open>\<^verbatim>\<open>while (bufferIndex < decodeBuffer->getSize())\<close>.\<close>

function fill_buffer :: "(u8 list \<Rightarrow> u8 list) \<Rightarrow> DecoderBuffer \<Rightarrow> nat \<Rightarrow> gstate \<Rightarrow> gstate option" where
  "fill_buffer H db bufferIndex st =
    (if bufferIndex < db_size db
     then case slot_step H db bufferIndex st of
            None \<Rightarrow> None
          | Some (Leave st) \<Rightarrow> Some st
          | Some (Slot bi st) \<Rightarrow> fill_buffer H db bi st
     else Some st)"
  by pat_completeness auto
termination
  by (relation "measure (\<lambda>(_, db, bi, st). slot_measure db bi st)") (auto dest: slot_step_measure)

declare fill_buffer.simps [simp del]

text \<open>The decode cycles; the first argument counts the cycles left before the latency limit.\<close>

fun decode_loop :: "(u8 list \<Rightarrow> u8 list) \<Rightarrow> nat \<Rightarrow> nat \<Rightarrow> gstate \<Rightarrow> (nat \<times> gstate) option" where
  "decode_loop H 0 decodeCycle st = Some (decodeCycle, st)"
| "decode_loop H (Suc n) decodeCycle st =
    (if s_portsSaturated st \<or> s_programSize st \<ge> SuperscalarMaxSize then Some (decodeCycle, st)
     else case fetchNext H (info_type (cur_info st)) decodeCycle (s_mulCount st) (s_gen st) of
       (db, g) \<Rightarrow> (case fill_buffer H db 0 (st\<lparr>s_gen := g\<rparr>) of
          None \<Rightarrow> None
        | Some st \<Rightarrow> decode_loop H n (decodeCycle + 1) (st\<lparr>s_cycle := s_cycle st + 1\<rparr>)))"

definition gstate_init :: "Instruction list \<Rightarrow> Blake2Generator \<Rightarrow> gstate" where
  "gstate_init prog g = \<lparr>s_portBusy = (\<lambda>_ _. 0), s_registers = (\<lambda>_. RegisterInfo_init), s_cur = SI_Null,
     s_macroOpIndex = 0, s_codeSize = 0, s_macroOpCount = 0, s_cycle = 0, s_depCycle = 0, s_retireCycle = 0,
     s_portsSaturated = False, s_programSize = 0, s_mulCount = 0, s_throwAwayCount = 0, s_gen = g, s_prog = prog\<rparr>"

record SuperscalarProgram =
  sp_buffer :: "Instruction list"
  sp_size :: nat
  sp_addrReg :: nat
  sp_codeSize :: nat
  sp_macroOps :: nat
  sp_decodeCycles :: nat
  sp_cpuLatency :: nat
  sp_asicLatency :: nat
  sp_mulCount :: nat
  sp_cpuLatencies :: "nat \<Rightarrow> nat"
  sp_asicLatencies :: "nat \<Rightarrow> nat"

definition asic_step :: "Instruction list \<Rightarrow> nat \<Rightarrow> (nat \<Rightarrow> nat) \<Rightarrow> nat \<Rightarrow> nat" where
  "asic_step prog i lat =
    (let d = unat (i_dst (prog ! i)); s = unat (i_src (prog ! i));
         latDst = lat d + 1; latSrc = (if d \<noteq> s then lat s + 1 else 0)
     in lat(d := max latDst latSrc))"

definition address_step :: "(nat \<Rightarrow> nat) \<Rightarrow> nat \<Rightarrow> nat \<times> nat \<Rightarrow> nat \<times> nat" where
  "address_step lat i s = (let (m, r) = s in if lat i > m then (lat i, i) else (m, r))"

definition generateSuperscalar :: "(u8 list \<Rightarrow> u8 list) \<Rightarrow> Instruction list \<Rightarrow> Blake2Generator
    \<Rightarrow> (SuperscalarProgram \<times> Blake2Generator) option" where
  "generateSuperscalar H prog g =
    (case decode_loop H RANDOMX_SUPERSCALAR_LATENCY 0 (gstate_init prog g) of
       None \<Rightarrow> None
     | Some (decodeCycle, st) \<Rightarrow>
         (let asic = for_range 0 (s_programSize st) (asic_step (s_prog st)) (\<lambda>_. 0);
              (asicLatencyMax, addressReg) = for_range 0 8 (address_step asic) (0, 0)
          in Some (\<lparr>sp_buffer = s_prog st, sp_size = s_programSize st, sp_addrReg = addressReg,
               sp_codeSize = s_codeSize st, sp_macroOps = s_macroOpCount st, sp_decodeCycles = decodeCycle,
               sp_cpuLatency = s_retireCycle st, sp_asicLatency = asicLatencyMax, sp_mulCount = s_mulCount st,
               sp_cpuLatencies = (\<lambda>i. if i < 8 then ri_latency (s_registers st i) else 0),
               sp_asicLatencies = asic\<rparr>, s_gen st)))"

section \<open>Execution\<close>

definition stype_of :: "nat \<Rightarrow> SuperscalarInstructionType option" where
  "stype_of n = (if n < 14 then Some ([S_ISUB_R, S_IXOR_R, S_IADD_RS, S_IMUL_R, S_IROR_C, S_IADD_C7, S_IXOR_C7,
     S_IADD_C8, S_IXOR_C8, S_IADD_C9, S_IXOR_C9, S_IMULH_R, S_ISMULH_R, S_IMUL_RCP] ! n) else None)"

text \<open>\<open>None\<close> is \<^verbatim>\<open>UNREACHABLE\<close> or a read outside the reciprocal cache.\<close>

definition execute_super :: "u64 list option \<Rightarrow> Instruction \<Rightarrow> (nat \<Rightarrow> u64) \<Rightarrow> (nat \<Rightarrow> u64) option" where
  "execute_super reciprocals instr r =
    (let d = unat (i_dst instr); s = unat (i_src instr)
     in case stype_of (unat (i_opcode instr)) of
       None \<Rightarrow> None
     | Some t \<Rightarrow> (case t of
         S_ISUB_R \<Rightarrow> Some (r(d := r d - r s))
       | S_IXOR_R \<Rightarrow> Some (r(d := r d XOR r s))
       | S_IADD_RS \<Rightarrow> Some (r(d := r d + push_bit (getModShift instr) (r s)))
       | S_IMUL_R \<Rightarrow> Some (r(d := r d * r s))
       | S_IROR_C \<Rightarrow> Some (r(d := rotr (r d) (getImm32 instr)))
       | S_IADD_C7 \<Rightarrow> Some (r(d := r d + signExtend2sCompl (getImm32 instr)))
       | S_IADD_C8 \<Rightarrow> Some (r(d := r d + signExtend2sCompl (getImm32 instr)))
       | S_IADD_C9 \<Rightarrow> Some (r(d := r d + signExtend2sCompl (getImm32 instr)))
       | S_IXOR_C7 \<Rightarrow> Some (r(d := r d XOR signExtend2sCompl (getImm32 instr)))
       | S_IXOR_C8 \<Rightarrow> Some (r(d := r d XOR signExtend2sCompl (getImm32 instr)))
       | S_IXOR_C9 \<Rightarrow> Some (r(d := r d XOR signExtend2sCompl (getImm32 instr)))
       | S_IMULH_R \<Rightarrow> Some (r(d := mulh (r d) (r s)))
       | S_ISMULH_R \<Rightarrow> Some (r(d := smulh (r d) (r s)))
       | S_IMUL_RCP \<Rightarrow> (case reciprocals of
             Some cache \<Rightarrow> if unat (getImm32 instr) < length cache
                          then Some (r(d := r d * (cache ! unat (getImm32 instr)))) else None
           | None \<Rightarrow> Some (r(d := r d * randomx_reciprocal (getImm32 instr))))
       | S_INVALID \<Rightarrow> None))"

definition executeSuperscalar :: "u64 list option \<Rightarrow> SuperscalarProgram \<Rightarrow> (nat \<Rightarrow> u64) \<Rightarrow> (nat \<Rightarrow> u64) option" where
  "executeSuperscalar reciprocals prog r =
     for_range 0 (sp_size prog) (\<lambda>j s. Option.bind s (execute_super reciprocals (sp_buffer prog ! j))) (Some r)"

end
