(* ===== verification/Superscalar_Facts.thy ===== *)
theory Superscalar_Facts
  imports Superscalar
begin

text \<open>
  What makes the superscalar generator correct: every program it returns fits its buffer and
  consists of valid instructions with register operands in range and without the operand
  combinations the generator excludes; it ends whenever the byte source keeps delivering
  acceptable values; execution ports are never booked twice; a finished program always runs.
\<close>

section \<open>Instructions the generator may produce\<close>

definition all_infos :: "SuperscalarInstructionInfo list" where
  "all_infos = [info_ISUB_R, info_IXOR_R, info_IADD_RS, info_IMUL_R, info_IROR_C, info_IADD_C7, info_IXOR_C7,
     info_IADD_C8, info_IXOR_C8, info_IADD_C9, info_IXOR_C9, info_IMULH_R, info_ISMULH_R, info_IMUL_RCP]"

lemmas info_defs = info_ISUB_R_def info_IXOR_R_def info_IADD_RS_def info_IMUL_R_def info_IROR_C_def
  info_IADD_C7_def info_IXOR_C7_def info_IADD_C8_def info_IXOR_C8_def info_IADD_C9_def info_IXOR_C9_def
  info_IMULH_R_def info_ISMULH_R_def info_IMUL_RCP_def

lemmas slot_defs = slot_3_def slot_3L_def slot_4_def slot_7_def slot_8_def slot_9_def slot_10_def

definition super_instr_ok :: "Instruction \<Rightarrow> bool" where
  "super_instr_ok i \<longleftrightarrow> (\<exists>t. stype_of (unat (i_opcode i)) = Some t \<and> unat (i_dst i) < 8 \<and> unat (i_src i) < 8 \<and>
     (t \<in> {S_ISUB_R, S_IXOR_R, S_IADD_RS, S_IMUL_R} \<longrightarrow> i_dst i \<noteq> i_src i) \<and>
     (t = S_IADD_RS \<longrightarrow> unat (i_dst i) \<noteq> RegisterNeedsDisplacement) \<and>
     (t = S_IMUL_RCP \<longrightarrow> \<not> isZeroOrPowerOf2 (ucast (getImm32 i))) \<and>
     (t = S_IROR_C \<longrightarrow> 0 < unat (getImm32 i) \<and> unat (getImm32 i) < 64))"

text \<open>The instruction under construction: the source is chosen once the macro-operation
  \<open>i\<close> is past the source operation, the destination once \<open>j\<close> is past the destination operation.\<close>

definition dst_chosen :: "SuperscalarInstruction \<Rightarrow> bool" where
  "dst_chosen s \<longleftrightarrow> (\<exists>r<8. si_dst s = int r \<and> (si_canReuse s \<or> int r \<noteq> si_src s) \<and>
     (info_type (si_info s) = S_IADD_RS \<longrightarrow> r \<noteq> RegisterNeedsDisplacement))"

definition cur_ok :: "SuperscalarInstruction \<Rightarrow> nat \<Rightarrow> nat \<Rightarrow> bool" where
  "cur_ok s i j \<longleftrightarrow> si_info s \<in> set all_infos \<and> 0 \<le> si_mod s \<and> si_mod s < 256 \<and>
     (si_canReuse s \<longleftrightarrow> info_type (si_info s) \<in> {S_IMULH_R, S_ISMULH_R}) \<and>
     (info_type (si_info s) = S_IROR_C \<longrightarrow> 0 < unat (si_imm32 s) \<and> unat (si_imm32 s) < 64) \<and>
     (info_type (si_info s) = S_IMUL_RCP \<longrightarrow> \<not> isZeroOrPowerOf2 (ucast (si_imm32 s))) \<and>
     (info_srcOp (si_info s) < 0 \<longrightarrow> si_src s = -1) \<and>
     (0 \<le> info_srcOp (si_info s) \<and> info_srcOp (si_info s) < int i \<longrightarrow> (\<exists>r<8. si_src s = int r)) \<and>
     (info_dstOp (si_info s) < int j \<longrightarrow> dst_chosen s)"

lemma draw_rotation_ok:
  assumes "draw_rotation H g = Some r"
  shows "0 < unat (fst r) \<and> unat (fst r) < 64"
proof (rule draw_rotation.raw_induct [of "\<lambda>_ _ r. 0 < unat (fst r) \<and> unat (fst r) < 64", OF _ assms])
  fix f :: "(u8 list \<Rightarrow> u8 list) \<Rightarrow> Blake2Generator \<Rightarrow> (u32 \<times> Blake2Generator) option" and H g r
  assume IH: "\<And>H g r. f H g = Some r \<Longrightarrow> 0 < unat (fst r) \<and> unat (fst r) < 64"
    and eq: "(case getByte H g of (b, g') \<Rightarrow>
      if (ucast b :: u32) AND 63 = 0 then f H g' else Some (ucast b AND 63, g')) = Some r"
  obtain b g' where b: "getByte H g = (b, g')" by fastforce
  have "unat ((ucast b :: u32) AND 63) \<le> unat (63 :: u32)" by (rule unat_and_le1)
  then have "unat ((ucast b :: u32) AND 63) < 64" by simp
  with IH [of H g' r] eq b show "0 < unat (fst r) \<and> unat (fst r) < 64"
    by (auto simp: unat_gt_0 split: if_splits)
qed

lemma draw_divisor_ok:
  assumes "draw_divisor H g = Some r"
  shows "\<not> isZeroOrPowerOf2 (ucast (fst r))"
proof (rule draw_divisor.raw_induct [of "\<lambda>_ _ r. \<not> isZeroOrPowerOf2 (ucast (fst r))", OF _ assms])
  fix f :: "(u8 list \<Rightarrow> u8 list) \<Rightarrow> Blake2Generator \<Rightarrow> (u32 \<times> Blake2Generator) option" and H g r
  assume IH: "\<And>H g r. f H g = Some r \<Longrightarrow> \<not> isZeroOrPowerOf2 (ucast (fst r))"
    and eq: "(case getUInt32 H g of (v, g') \<Rightarrow>
      if isZeroOrPowerOf2 (ucast v) then f H g' else Some (v, g')) = Some r"
  obtain v g' where v: "getUInt32 H g = (v, g')" by fastforce
  show "\<not> isZeroOrPowerOf2 (ucast (fst r))"
  proof (cases "isZeroOrPowerOf2 (ucast v)")
    case True
    with eq v have "f H g' = Some r" by simp
    then show ?thesis by (rule IH)
  next
    case False
    with eq v have "r = (v, g')" by simp
    with False show ?thesis by simp
  qed
qed

lemmas create_simps = si_create_def si_reset_def Let_def

lemma si_create_fields:
  assumes "si_create H info s g = Some (s', g')"
  shows "si_info s' = info" "si_src s' = -1"
    "info_type info \<noteq> S_INVALID \<Longrightarrow> 0 \<le> si_mod s' \<and> si_mod s' < 256"
    "si_canReuse s' \<longleftrightarrow> info_type info \<in> {S_IMULH_R, S_ISMULH_R}"
    "info_type info = S_IROR_C \<Longrightarrow> 0 < unat (si_imm32 s') \<and> unat (si_imm32 s') < 64"
    "info_type info = S_IMUL_RCP \<Longrightarrow> \<not> isZeroOrPowerOf2 (ucast (si_imm32 s'))"
proof -
  have byte: "int (unat (b :: u8)) < 256" for b using unat_u8_less [of b] by linarith
  obtain b gb v gv where draws: "getByte H g = (b, gb)" "getUInt32 H g = (v, gv)" by fastforce
  note pick = assms draws
  show "si_info s' = info" using pick
    by (cases "info_type info") (auto simp: create_simps split: option.splits)
  show "si_src s' = -1" using pick
    by (cases "info_type info") (auto simp: create_simps split: option.splits)
  show "0 \<le> si_mod s' \<and> si_mod s' < 256" if "info_type info \<noteq> S_INVALID" using pick byte [of b] that
    by (cases "info_type info") (auto simp: create_simps split: option.splits)
  show "si_canReuse s' \<longleftrightarrow> info_type info \<in> {S_IMULH_R, S_ISMULH_R}" using pick
    by (cases "info_type info") (auto simp: create_simps split: option.splits)
  show "0 < unat (si_imm32 s') \<and> unat (si_imm32 s') < 64" if "info_type info = S_IROR_C"
    using pick that draw_rotation_ok [of H g] by (auto simp: create_simps split: option.splits)
  show "\<not> isZeroOrPowerOf2 (ucast (si_imm32 s'))" if "info_type info = S_IMUL_RCP"
    using pick that draw_divisor_ok [of H g] by (auto simp: create_simps split: option.splits)
qed

lemma all_infos_ok:
  assumes "info \<in> set all_infos"
  shows "info_type info \<noteq> S_INVALID" "0 \<le> info_dstOp info" "info_dstOp info < int (info_size info)"
    "info_srcOp info < int (info_size info)" "0 < info_size info" "info_size info \<le> 3"
    "info_srcOp info < 0 \<longleftrightarrow> info_type info \<in> {S_IROR_C, S_IADD_C7, S_IXOR_C7, S_IADD_C8, S_IXOR_C8,
       S_IADD_C9, S_IXOR_C9, S_IMUL_RCP}"
    "info_dstOp info < info_srcOp info \<Longrightarrow> info_type info \<in> {S_IMULH_R, S_ISMULH_R}"
  using assms by (auto simp: all_infos_def info_defs info1_def infoN_def info_size_def)

lemma si_create_ok:
  assumes "si_create H info s g = Some (s', g')" "info \<in> set all_infos"
  shows "cur_ok s' 0 0"
  using si_create_fields [OF assms(1)] all_infos_ok [OF assms(2)] assms(2)
  by (auto simp: cur_ok_def)

lemma createForSlot_ok:
  assumes "createForSlot H n t l s g = Some (s', g')"
  shows "cur_ok s' 0 0"
proof -
  have less: "unat (b AND 3 :: u8) < 4" "unat (b AND 1 :: u8) < 2" for b
    using unat_and_le1 [of b 3] unat_and_le1 [of b 1] by simp_all
  have sub: "set slot_3L \<union> set slot_3 \<union> set slot_4 \<union> set slot_7 \<union> set slot_8 \<union> set slot_9 \<union> {slot_10, info_IMUL_R}
      \<subseteq> set all_infos" by (simp add: all_infos_def slot_defs)
  have len: "length slot_3L = 4" "length slot_3 = 2" "length slot_4 = 2" "length slot_7 = 2"
    "length slot_8 = 2" "length slot_9 = 2" by (simp_all add: slot_defs)
  have "slot_3L ! unat (b AND 3 :: u8) \<in> set slot_3L" "slot_3 ! unat (b AND 1 :: u8) \<in> set slot_3"
    "slot_4 ! unat (b AND 1 :: u8) \<in> set slot_4" "slot_7 ! unat (b AND 1 :: u8) \<in> set slot_7"
    "slot_8 ! unat (b AND 1 :: u8) \<in> set slot_8" "slot_9 ! unat (b AND 1 :: u8) \<in> set slot_9" for b
    by (simp_all only: nth_mem len less)
  then have member: "slot_3L ! unat (b AND 3 :: u8) \<in> set all_infos" "slot_3 ! unat (b AND 1 :: u8) \<in> set all_infos"
    "slot_4 ! unat (b AND 1 :: u8) \<in> set all_infos" "slot_7 ! unat (b AND 1 :: u8) \<in> set all_infos"
    "slot_8 ! unat (b AND 1 :: u8) \<in> set all_infos" "slot_9 ! unat (b AND 1 :: u8) \<in> set all_infos"
    "slot_10 \<in> set all_infos" "info_IMUL_R \<in> set all_infos" for b
    using sub by blast+
  obtain b g1 where "getByte H g = (b, g1)" by fastforce
  with assms show ?thesis
    by (auto simp: createForSlot_def split: if_splits intro: si_create_ok [OF _ member(1)] si_create_ok [OF _ member(2)]
        si_create_ok [OF _ member(3)] si_create_ok [OF _ member(4)] si_create_ok [OF _ member(5)]
        si_create_ok [OF _ member(6)] si_create_ok [OF _ member(7)] si_create_ok [OF _ member(8)])
qed

section \<open>Operands\<close>

lemma selectRegister_in: "selectRegister H av g = (Some r, g') \<Longrightarrow> r \<in> set av"
proof -
  assume a: "selectRegister H av g = (Some r, g')"
  obtain v gv where "getUInt32 H g = (v, gv)" by fastforce
  with a show ?thesis by (auto simp: selectRegister_def split: if_splits intro!: nth_mem)
qed

definition source_set :: "SuperscalarInstruction \<Rightarrow> SuperscalarInstruction \<Rightarrow> bool" where
  "source_set s s' \<longleftrightarrow> (\<exists>r<8. \<exists>p. s' = s\<lparr>si_src := int r, si_opGroupPar := p\<rparr>)"

lemma source_setI: "r < 8 \<Longrightarrow> source_set s (s\<lparr>si_src := int r, si_opGroupPar := p\<rparr>)"
  by (auto simp: source_set_def)

lemma selectSource_ok:
  assumes "selectSource H c regs s g = (b, s', g')"
  shows "if b then source_set s s' else s' = s"
proof -
  let ?av = "filter (\<lambda>i. ri_latency (regs i) \<le> c) [0..<8]"
  obtain q gq where q: "selectRegister H ?av g = (q, gq)" by fastforce
  show ?thesis
  proof (cases "length ?av = 2 \<and> info_type (si_info s) = S_IADD_RS \<and>
      (?av ! 0 = RegisterNeedsDisplacement \<or> ?av ! 1 = RegisterNeedsDisplacement)")
    case True
    then have "b" "s' = s\<lparr>si_src := int RegisterNeedsDisplacement, si_opGroupPar := int RegisterNeedsDisplacement\<rparr>"
      using assms by (simp_all only: selectSource_def Let_def if_True prod.inject simp_thms)
    moreover have "RegisterNeedsDisplacement < 8" by (simp add: RegisterNeedsDisplacement_def)
    ultimately show ?thesis by (simp only: if_True source_setI)
  next
    case False
    then have sel: "(case q of None \<Rightarrow> (False, s, gq) | Some r \<Rightarrow> (True, (if si_groupParIsSource s
        then s\<lparr>si_src := int r, si_opGroupPar := int r\<rparr> else s\<lparr>si_src := int r\<rparr>), gq)) = (b, s', g')"
      using assms by (simp only: selectSource_def Let_def if_False q prod.case)
    show ?thesis
    proof (cases q)
      case None
      with sel show ?thesis by simp
    next
      case (Some r)
      have "r \<in> set ?av" using selectRegister_in q Some by blast
      then have r: "r < 8" by simp
      have "source_set s (s\<lparr>si_src := int r\<rparr>)"
        using source_setI [OF r, of s "si_opGroupPar s"] by simp
      with sel Some source_setI [OF r] show ?thesis by (auto split: if_splits)
    qed
  qed
qed

lemma selectDestination_ok:
  assumes "selectDestination H c allow regs s g = (b, s', g')"
  shows "b \<Longrightarrow> \<exists>r<8. s' = s\<lparr>si_dst := int r\<rparr> \<and> (si_canReuse s \<or> int r \<noteq> si_src s) \<and>
      (info_type (si_info s) = S_IADD_RS \<longrightarrow> r \<noteq> RegisterNeedsDisplacement)"
    "\<not> b \<Longrightarrow> s' = s"
proof -
  let ?av = "dst_candidates c allow regs s"
  obtain q gq where q: "selectRegister H ?av g = (q, gq)" by fastforce
  have sel: "(b, s', g') = (case q of None \<Rightarrow> (False, s, gq) | Some r \<Rightarrow> (True, s\<lparr>si_dst := int r\<rparr>, gq))"
    using assms by (simp only: selectDestination_def q prod.case)
  show "\<not> b \<Longrightarrow> s' = s" using sel by (cases q) simp_all
  assume b
  then obtain r where r: "q = Some r" "s' = s\<lparr>si_dst := int r\<rparr>" using sel by (cases q) simp_all
  have "r \<in> set ?av" using selectRegister_in q r(1) by blast
  then show "\<exists>r<8. s' = s\<lparr>si_dst := int r\<rparr> \<and> (si_canReuse s \<or> int r \<noteq> si_src s) \<and>
      (info_type (si_info s) = S_IADD_RS \<longrightarrow> r \<noteq> RegisterNeedsDisplacement)"
    using r(2) by (auto simp: dst_candidates_def)
qed

lemma source_cur_ok:
  assumes "selectSource H c regs s g = (b, s', g')" "cur_ok s i i" "int i = info_srcOp (si_info s)"
  shows "b \<Longrightarrow> cur_ok s' (i + 1) i" "\<not> b \<Longrightarrow> s' = s"
proof -
  show "\<not> b \<Longrightarrow> s' = s" using selectSource_ok [OF assms(1)] by simp
  assume b
  then obtain r p where r: "r < 8" "s' = s\<lparr>si_src := int r, si_opGroupPar := p\<rparr>"
    using selectSource_ok [OF assms(1)] by (auto simp: source_set_def)
  have "dst_chosen s'" if "info_dstOp (si_info s) < int i"
  proof -
    have "si_canReuse s" using that assms(2,3) all_infos_ok(8) [of "si_info s"] by (auto simp: cur_ok_def)
    moreover have "dst_chosen s" using that assms(2) by (simp add: cur_ok_def)
    ultimately show ?thesis using r by (auto simp: dst_chosen_def)
  qed
  moreover have "0 \<le> info_srcOp (si_info s)" using assms(3) by simp
  ultimately show "cur_ok s' (i + 1) i" using assms(2) r by (auto simp: cur_ok_def)
qed

lemma destination_cur_ok:
  assumes "selectDestination H c allow regs s g = (b, s', g')" "cur_ok s (i + 1) i"
  shows "b \<Longrightarrow> cur_ok s' (i + 1) (i + 1)" "\<not> b \<Longrightarrow> s' = s"
proof -
  show "\<not> b \<Longrightarrow> s' = s" using selectDestination_ok(2) [OF assms(1)] .
  assume b
  then obtain r where "r < 8" "s' = s\<lparr>si_dst := int r\<rparr>" "si_canReuse s \<or> int r \<noteq> si_src s"
      "info_type (si_info s) = S_IADD_RS \<longrightarrow> r \<noteq> RegisterNeedsDisplacement"
    using selectDestination_ok(1) [OF assms(1)] by blast
  moreover from this have "dst_chosen s'" by (auto simp: dst_chosen_def)
  ultimately show "cur_ok s' (i + 1) (i + 1)" using assms(2) by (simp add: cur_ok_def)
qed

section \<open>The invariant of the generator\<close>

text \<open>What a search changes: only the instruction, the byte source and the cycle.\<close>

definition same_work :: "gstate \<Rightarrow> gstate \<Rightarrow> bool" where
  "same_work st st' \<longleftrightarrow> s_macroOpIndex st' = s_macroOpIndex st \<and> s_programSize st' = s_programSize st \<and>
     s_prog st' = s_prog st \<and> si_info (s_cur st') = si_info (s_cur st)"

lemma forward_source_ok:
  assumes "forward_source H n c st = (b, c', st')" "cur_ok (s_cur st) i i" "int i = info_srcOp (cur_info st)"
  shows "same_work st st' \<and> (b \<longrightarrow> cur_ok (s_cur st') (i + 1) i)"
  using assms
proof (induction n arbitrary: c st)
  case 0
  then show ?case by (simp add: same_work_def)
next
  case (Suc n)
  obtain f s g where sel: "selectSource H c (s_registers st) (s_cur st) (s_gen st) = (f, s, g)"
    by (metis prod_cases3)
  note ok = source_cur_ok [OF sel Suc.prems(2) Suc.prems(3) [unfolded cur_info_def]]
  show ?case
  proof (cases f)
    case True
    then show ?thesis using Suc.prems(1) sel ok(1) selectSource_ok [OF sel]
      by (auto simp: same_work_def source_set_def)
  next
    case False
    with Suc.prems sel ok(2) Suc.IH [of "c + 1" "st\<lparr>s_cur := s, s_gen := g, s_cycle := s_cycle st + 1\<rparr>"]
    show ?thesis by (auto simp: same_work_def cur_info_def)
  qed
qed

lemma forward_destination_ok:
  assumes "forward_destination H n c st = (b, c', st')" "cur_ok (s_cur st) (i + 1) i"
  shows "same_work st st' \<and> (b \<longrightarrow> cur_ok (s_cur st') (i + 1) (i + 1))"
  using assms
proof (induction n arbitrary: c st)
  case 0
  then show ?case by (simp add: same_work_def)
next
  case (Suc n)
  obtain f s g where sel: "selectDestination H c (s_throwAwayCount st > 0) (s_registers st) (s_cur st) (s_gen st)
      = (f, s, g)" by (metis prod_cases3)
  note ok = destination_cur_ok [OF sel Suc.prems(2)]
  show ?case
  proof (cases f)
    case True
    then show ?thesis using Suc.prems(1) sel ok(1) selectDestination_ok(1) [OF sel]
      by (auto simp: same_work_def)
  next
    case False
    with Suc.prems sel ok(2) Suc.IH [of "c + 1" "st\<lparr>s_cur := s, s_gen := g, s_cycle := s_cycle st + 1\<rparr>"]
    show ?thesis by (auto simp: same_work_def)
  qed
qed

lemma pick_source_ok:
  assumes "pick_source H c st = (b, c', st')" "cur_ok (s_cur st) (s_macroOpIndex st) (s_macroOpIndex st)"
  shows "same_work st st'" "b \<Longrightarrow> cur_ok (s_cur st') (s_macroOpIndex st + 1) (s_macroOpIndex st)"
proof -
  let ?i = "s_macroOpIndex st"
  have "same_work st st' \<and> (b \<longrightarrow> cur_ok (s_cur st') (?i + 1) ?i)"
  proof (cases "int ?i = info_srcOp (cur_info st)")
    case True
    then show ?thesis using assms forward_source_ok [of H LOOK_FORWARD_CYCLES c st b c' st' ?i]
      by (simp add: pick_source_def)
  next
    case False
    then have "cur_ok (s_cur st) (?i + 1) ?i" using assms(2) by (auto simp: cur_ok_def cur_info_def)
    then show ?thesis using assms(1) False by (auto simp: pick_source_def same_work_def)
  qed
  then show "same_work st st'" "b \<Longrightarrow> cur_ok (s_cur st') (?i + 1) ?i" by auto
qed

lemma pick_destination_ok:
  assumes "pick_destination H c st = (b, c', st')" "cur_ok (s_cur st) (s_macroOpIndex st + 1) (s_macroOpIndex st)"
  shows "same_work st st'" "b \<Longrightarrow> cur_ok (s_cur st') (s_macroOpIndex st + 1) (s_macroOpIndex st + 1)"
proof -
  let ?i = "s_macroOpIndex st"
  have "same_work st st' \<and> (b \<longrightarrow> cur_ok (s_cur st') (?i + 1) (?i + 1))"
  proof (cases "int ?i = info_dstOp (cur_info st)")
    case True
    then show ?thesis using assms forward_destination_ok [of H LOOK_FORWARD_CYCLES c st b c' st' ?i]
      by (simp add: pick_destination_def)
  next
    case False
    then have "cur_ok (s_cur st) (?i + 1) (?i + 1)" using assms(2) by (auto simp: cur_ok_def cur_info_def)
    then show ?thesis using assms(1) False by (auto simp: pick_destination_def same_work_def)
  qed
  then show "same_work st st'" "b \<Longrightarrow> cur_ok (s_cur st') (?i + 1) (?i + 1)" by auto
qed

definition gs_ok :: "gstate \<Rightarrow> bool" where
  "gs_ok st \<longleftrightarrow> s_programSize st \<le> SuperscalarMaxSize \<and> length (s_prog st) = SuperscalarMaxSize \<and>
     (\<forall>j < s_programSize st. super_instr_ok (s_prog st ! j)) \<and>
     (s_macroOpIndex st < info_size (cur_info st) \<longrightarrow>
        s_programSize st < SuperscalarMaxSize \<and> cur_ok (s_cur st) (s_macroOpIndex st) (s_macroOpIndex st))"

lemma stype_roundtrip: "t \<noteq> S_INVALID \<Longrightarrow> stype_of (unat (word_of_int (stype_code t) :: u8)) = Some t"
  by (cases t) (simp_all add: stype_of_def)

lemma unat_reg: "r < 8 \<Longrightarrow> unat (word_of_int (int r) :: u8) = r"
  by (simp add: unsigned_of_nat take_bit_nat_eq_self)

lemma toInstr_fields:
  "i_opcode (toInstr s i) = word_of_int (stype_code (info_type (si_info s)))"
  "i_dst (toInstr s i) = word_of_int (si_dst s)"
  "i_src (toInstr s i) = word_of_int (if si_src s \<ge> 0 then si_src s else si_dst s)"
  "getImm32 (toInstr s i) = si_imm32 s"
  by (simp_all add: toInstr_def setImm32_def setMod_def getImm32_def)

lemma toInstr_ok:
  assumes "cur_ok s k k" "info_size (si_info s) \<le> k"
  shows "super_instr_ok (toInstr s i)"
proof -
  let ?t = "info_type (si_info s)"
  have info: "si_info s \<in> set all_infos" using assms(1) by (simp add: cur_ok_def)
  note facts = all_infos_ok [OF info]
  have dst: "dst_chosen s" using assms facts(3) by (simp add: cur_ok_def)
  then obtain d where d: "d < 8" "si_dst s = int d" "si_canReuse s \<or> int d \<noteq> si_src s"
    "?t = S_IADD_RS \<longrightarrow> d \<noteq> RegisterNeedsDisplacement" unfolding dst_chosen_def by blast
  have ud: "unat (i_dst (toInstr s i)) = d" by (simp only: toInstr_fields d(2) unat_reg [OF d(1)])
  have "(\<exists>r<8. si_src s = int r) \<or> si_src s = -1"
    using assms facts(4) by (cases "info_srcOp (si_info s) < 0") (auto simp: cur_ok_def)
  then have us: "unat (i_src (toInstr s i)) < 8"
    using d(1) by (auto simp: toInstr_fields d(2) unat_reg simp del: of_int_of_nat_eq)
  have ne: "i_dst (toInstr s i) \<noteq> i_src (toInstr s i)" if t: "?t \<in> {S_ISUB_R, S_IXOR_R, S_IADD_RS, S_IMUL_R}"
  proof -
    from t facts(7) have "0 \<le> info_srcOp (si_info s)" by auto
    with assms facts(4) obtain r where r: "r < 8" "si_src s = int r" by (auto simp: cur_ok_def)
    have "si_canReuse s \<longleftrightarrow> ?t \<in> {S_IMULH_R, S_ISMULH_R}" using assms(1) unfolding cur_ok_def by blast
    with t have "\<not> si_canReuse s" by (elim insertE) simp_all
    with d(3) r have "d \<noteq> r" by simp
    moreover have "unat (i_src (toInstr s i)) = r"
      using r by (simp add: toInstr_fields unat_reg del: of_int_of_nat_eq)
    ultimately show ?thesis using ud by auto
  qed
  have imm: "?t = S_IROR_C \<longrightarrow> 0 < unat (si_imm32 s) \<and> unat (si_imm32 s) < 64"
    "?t = S_IMUL_RCP \<longrightarrow> \<not> isZeroOrPowerOf2 (ucast (si_imm32 s))"
    using assms(1) unfolding cur_ok_def by blast+
  have "stype_of (unat (i_opcode (toInstr s i))) = Some ?t"
    by (simp only: toInstr_fields stype_roundtrip [OF facts(1)])
  then show ?thesis unfolding super_instr_ok_def
    by (intro exI [of _ ?t] conjI impI) (use d ud us ne imm in \<open>simp_all add: toInstr_fields(4)\<close>)
qed

lemma retire_fields [simp]:
  "s_macroOpIndex (retire c st) = s_macroOpIndex st" "s_programSize (retire c st) = s_programSize st"
  "s_prog (retire c st) = s_prog st" "s_cur (retire c st) = s_cur st"
  by (simp_all add: retire_def Let_def)

lemma emit_ok:
  assumes "s_programSize st < SuperscalarMaxSize" "length (s_prog st) = SuperscalarMaxSize"
    "\<forall>j < s_programSize st. super_instr_ok (s_prog st ! j)"
    "cur_ok (s_cur st) (s_macroOpIndex st) (s_macroOpIndex st)"
  shows "gs_ok (emit st)"
proof (cases "info_size (cur_info st) \<le> s_macroOpIndex st")
  case True
  then have "super_instr_ok (toInstr (s_cur st) (s_prog st ! s_programSize st))"
    using toInstr_ok [OF assms(4)] by (simp add: cur_info_def)
  with True assms show ?thesis
    by (auto simp: emit_def gs_ok_def less_Suc_eq cur_info_def)
next
  case False
  with assms show ?thesis by (simp add: emit_def gs_ok_def)
qed

fun result_state :: "slot_result \<Rightarrow> gstate" where
  "result_state (Slot bi st) = st" | "result_state (Leave st) = st"

text \<open>A state in the middle of an instruction.\<close>

definition mid_ok :: "gstate \<Rightarrow> nat \<Rightarrow> nat \<Rightarrow> bool" where
  "mid_ok st i j \<longleftrightarrow> s_programSize st < SuperscalarMaxSize \<and> length (s_prog st) = SuperscalarMaxSize \<and>
     (\<forall>k < s_programSize st. super_instr_ok (s_prog st ! k)) \<and> s_macroOpIndex st < info_size (cur_info st) \<and>
     cur_ok (s_cur st) i j"

lemma issue_ok:
  assumes "mid_ok st (s_macroOpIndex st + 1) (s_macroOpIndex st + 1)"
    and cur: "cur_ok (s_cur st) (s_macroOpIndex st) (s_macroOpIndex st)"
  shows "gs_ok (result_state (issue bi tc c st))"
proof -
  let ?mop = "info_ops (cur_info st) ! s_macroOpIndex st"
  obtain r pb where r: "scheduleMop True ?mop (s_portBusy st) c c = (r, pb)" by fastforce
  show ?thesis
  proof (cases r)
    case None
    with assms r show ?thesis
      by (simp add: issue_def Let_def cur_info_def gs_ok_def mid_ok_def)
  next
    case (Some c')
    with assms(1) r show ?thesis
      by (simp add: issue_def Let_def cur_info_def mid_ok_def emit_ok)
  qed
qed

lemma cur_ok_mono: "cur_ok s i j \<Longrightarrow> i' \<le> i \<Longrightarrow> j' \<le> j \<Longrightarrow> cur_ok s i' j'"
  unfolding cur_ok_def by (meson le_less_trans less_le_trans of_nat_mono order_less_le_trans)

lemma throw_away_ok:
  assumes "s_programSize st \<le> SuperscalarMaxSize" "length (s_prog st) = SuperscalarMaxSize"
    "\<forall>j < s_programSize st. super_instr_ok (s_prog st ! j)"
  shows "gs_ok (result_state (throw_away bi st))"
  using assms by (simp add: throw_away_def gs_ok_def cur_info_def SI_Null_def info_NOP_def info_size_def)

lemma place_ok:
  assumes "mid_ok st (s_macroOpIndex st) (s_macroOpIndex st)"
  shows "gs_ok (result_state (place H bi tc st))"
proof -
  let ?mop = "info_ops (cur_info st) ! s_macroOpIndex st" and ?i = "s_macroOpIndex st"
  obtain r where r: "fst (scheduleMop False ?mop (s_portBusy st) (s_cycle st) (s_depCycle st)) = r" by simp
  show ?thesis
  proof (cases r)
    case None
    with assms r show ?thesis by (simp add: place_def Let_def gs_ok_def mid_ok_def cur_info_def)
  next
    case (Some c)
    obtain b1 c1 st1 where p1: "pick_source H c st = (b1, c1, st1)" by (metis prod_cases3)
    have cur: "cur_ok (s_cur st) ?i ?i" using assms by (simp add: mid_ok_def)
    note src = pick_source_ok [OF p1 cur]
    show ?thesis
    proof (cases b1)
      case False
      have "gs_ok (result_state (throw_away bi st1))"
        using assms src(1) by (intro throw_away_ok) (auto simp: mid_ok_def same_work_def)
      with False Some p1 r show ?thesis by (simp add: place_def Let_def)
    next
      case True
      obtain b2 c2 st2 where p2: "pick_destination H c1 st1 = (b2, c2, st2)" by (metis prod_cases3)
      have i1: "s_macroOpIndex st1 = ?i" using src(1) by (simp add: same_work_def)
      note dst = pick_destination_ok [OF p2, unfolded i1, OF src(2) [OF True]]
      show ?thesis
      proof (cases b2)
        case False
        have "gs_ok (result_state (throw_away bi st2))"
          using assms src(1) dst(1) by (intro throw_away_ok) (auto simp: mid_ok_def same_work_def)
        with False True Some p1 p2 r show ?thesis by (simp add: place_def Let_def)
      next
        case b2: True
        have i2: "s_macroOpIndex st2 = ?i" using dst(1) i1 by (simp add: same_work_def)
        have "mid_ok st2 (s_macroOpIndex st2 + 1) (s_macroOpIndex st2 + 1)"
          using assms src(1) dst(1) dst(2) [OF b2] by (auto simp: mid_ok_def same_work_def cur_info_def i2)
        moreover have "cur_ok (s_cur st2) (s_macroOpIndex st2) (s_macroOpIndex st2)"
          using cur_ok_mono [OF dst(2) [OF b2]] by (simp add: i2)
        ultimately have "gs_ok (result_state (issue bi tc c2 st2))" by (rule issue_ok)
        with b2 True Some p1 p2 r show ?thesis by (simp add: place_def Let_def)
      qed
    qed
  qed
qed

lemma slot_step_ok:
  assumes "slot_step H db bi st = Some res" "gs_ok st"
  shows "gs_ok (result_state res)"
proof (cases "info_size (cur_info st) \<le> s_macroOpIndex st")
  case False
  then have "mid_ok st (s_macroOpIndex st) (s_macroOpIndex st)"
    using assms(2) by (simp add: gs_ok_def mid_ok_def)
  then show ?thesis using place_ok assms(1) False by (auto simp: slot_step_def Let_def)
next
  case over: True
  show ?thesis
  proof (cases "s_portsSaturated st \<or> SuperscalarMaxSize \<le> s_programSize st")
    case True
    with assms over show ?thesis by (auto simp: slot_step_def Let_def)
  next
    case False
    with assms(1) over obtain s g where create: "createForSlot H (db_counts db ! bi) (db_index db)
        (db_size db = bi + 1) (s_cur st) (s_gen st) = Some (s, g)"
      and res: "res = place H bi (s_cycle st) (st\<lparr>s_cur := s, s_gen := g, s_macroOpIndex := 0\<rparr>)"
      by (auto simp: slot_step_def Let_def split: option.splits)
    have "cur_ok s 0 0" by (rule createForSlot_ok [OF create])
    moreover from this have "0 < info_size (si_info s)" by (simp add: cur_ok_def all_infos_ok(5))
    ultimately have "mid_ok (st\<lparr>s_cur := s, s_gen := g, s_macroOpIndex := 0\<rparr>) 0 0"
      using assms(2) False by (simp add: gs_ok_def mid_ok_def cur_info_def)
    then show ?thesis unfolding res by (intro place_ok) simp
  qed
qed

lemma fill_buffer_ok: "fill_buffer H db bi st = Some st' \<Longrightarrow> gs_ok st \<Longrightarrow> gs_ok st'"
proof (induction H db bi st rule: fill_buffer.induct)
  case (1 H db bi st)
  show ?case
  proof (cases "bi < db_size db")
    case False
    with "1.prems" show ?thesis by (simp add: fill_buffer.simps)
  next
    case True
    with "1.prems"(1) obtain res where res: "slot_step H db bi st = Some res"
      by (cases "slot_step H db bi st") (simp_all add: fill_buffer.simps)
    note ok = slot_step_ok [OF res "1.prems"(2)]
    show ?thesis
    proof (cases res)
      case (Slot bi' st1)
      with "1.IH" [OF True res Slot] "1.prems"(1) True res ok show ?thesis
        by (simp add: fill_buffer.simps [of H db bi st])
    next
      case (Leave st1)
      with "1.prems"(1) True res ok show ?thesis by (simp add: fill_buffer.simps)
    qed
  qed
qed

lemma decode_loop_ok: "decode_loop H n dc st = Some (dc', st') \<Longrightarrow> gs_ok st \<Longrightarrow> gs_ok st'"
proof (induction n arbitrary: dc st)
  case (Suc n)
  obtain db g where f: "fetchNext H (info_type (cur_info st)) dc (s_mulCount st) (s_gen st) = (db, g)" by fastforce
  show ?case
  proof (cases "s_portsSaturated st \<or> SuperscalarMaxSize \<le> s_programSize st")
    case False
    with Suc.prems(1) f obtain st1 where st1: "fill_buffer H db 0 (st\<lparr>s_gen := g\<rparr>) = Some st1"
      "decode_loop H n (dc + 1) (st1\<lparr>s_cycle := s_cycle st1 + 1\<rparr>) = Some (dc', st')"
      by (auto split: option.splits)
    have "gs_ok (st\<lparr>s_gen := g\<rparr>)" using Suc.prems(2) by (simp add: gs_ok_def cur_info_def)
    then have "gs_ok st1" using fill_buffer_ok [OF st1(1)] by blast
    then have "gs_ok (st1\<lparr>s_cycle := s_cycle st1 + 1\<rparr>)" by (simp add: gs_ok_def cur_info_def)
    with Suc.IH st1(2) show ?thesis by blast
  qed (use Suc.prems in auto)
qed auto

section \<open>Termination\<close>

definition draws_return :: "(u8 list \<Rightarrow> u8 list) \<Rightarrow> bool" where
  "draws_return H \<longleftrightarrow> (\<forall>g. draw_rotation H g \<noteq> None) \<and> (\<forall>g. draw_divisor H g \<noteq> None)"

definition slot_sizes :: "nat set" where "slot_sizes = {3, 4, 7, 8, 9, 10}"

lemma si_create_total: "draws_return H \<Longrightarrow> si_create H info s g \<noteq> None"
  by (cases "info_type info") (auto simp: draws_return_def create_simps split: prod.splits option.splits)

lemma createForSlot_total: "draws_return H \<Longrightarrow> n \<in> slot_sizes \<Longrightarrow> createForSlot H n t l s g \<noteq> None"
  using si_create_total [of H] by (auto simp: createForSlot_def slot_sizes_def split: prod.splits)

lemma fetchNext_counts:
  assumes "fetchNext H t c m g = (db, g')"
  shows "set (db_counts db) \<subseteq> slot_sizes"
proof -
  have "unat (b AND 3 :: u8) < length decodeBuffers" for b
    using unat_and_le1 [of b 3] by (simp add: decodeBuffers_def)
  then have "decodeBuffers ! unat (b AND 3 :: u8) \<in> set decodeBuffers" for b by (rule nth_mem)
  moreover have "set (db_counts d) \<subseteq> slot_sizes" if "d \<in> set decodeBuffers \<union> {decodeBuffer4444, decodeBuffer3310}" for d
    using that by (auto simp: decodeBuffers_def buffer_defs slot_sizes_def)
  moreover have "{decodeBuffer484, decodeBuffer493} \<subseteq> set decodeBuffers" by (simp add: decodeBuffers_def)
  moreover obtain b gb where "getByte H g = (b, gb)" by fastforce
  ultimately show ?thesis
    using assms by (auto simp: fetchNext_def fetchNextDefault_def split: if_splits)
qed

lemma slot_step_total:
  "draws_return H \<Longrightarrow> set (db_counts db) \<subseteq> slot_sizes \<Longrightarrow> bi < db_size db \<Longrightarrow> slot_step H db bi st \<noteq> None"
proof -
  assume a: "draws_return H" "set (db_counts db) \<subseteq> slot_sizes" "bi < db_size db"
  then have "db_counts db ! bi \<in> slot_sizes" using nth_mem [of bi "db_counts db"] by (auto simp: db_size_def)
  then have "createForSlot H (db_counts db ! bi) (db_index db) (db_size db = bi + 1) (s_cur st) (s_gen st) \<noteq> None"
    by (rule createForSlot_total [OF a(1)])
  then obtain s g where "createForSlot H (db_counts db ! bi) (db_index db) (db_size db = bi + 1) (s_cur st)
    (s_gen st) = Some (s, g)" by fastforce
  then show ?thesis by (simp add: slot_step_def Let_def)
qed

lemma fill_buffer_total:
  "draws_return H \<Longrightarrow> set (db_counts db) \<subseteq> slot_sizes \<Longrightarrow> fill_buffer H db bi st \<noteq> None"
proof (induction H db bi st rule: fill_buffer.induct)
  case (1 H db bi st)
  show ?case
  proof (cases "bi < db_size db")
    case True
    obtain res where res: "slot_step H db bi st = Some res"
      using slot_step_total [OF "1.prems" True] by auto
    show ?thesis
    proof (cases res)
      case (Slot bi' st1)
      with "1.IH" [OF True res Slot "1.prems"] True res show ?thesis
        by (simp add: fill_buffer.simps [of H db bi st])
    qed (use True res in \<open>simp add: fill_buffer.simps\<close>)
  qed (simp add: fill_buffer.simps)
qed

lemma decode_loop_total: "draws_return H \<Longrightarrow> decode_loop H n dc st \<noteq> None"
proof (induction n arbitrary: dc st)
  case (Suc n)
  obtain db g where f: "fetchNext H (info_type (cur_info st)) dc (s_mulCount st) (s_gen st) = (db, g)" by fastforce
  obtain st1 where "fill_buffer H db 0 (st\<lparr>s_gen := g\<rparr>) = Some st1"
    using fill_buffer_total [OF Suc.prems fetchNext_counts [OF f]] by fastforce
  with Suc f show ?case by simp
qed simp

section \<open>Ports\<close>

definition busy_kept :: "ports \<Rightarrow> ports \<Rightarrow> nat \<Rightarrow> bool" where
  "busy_kept pb pb' c \<longleftrightarrow> (\<forall>p. pb c p \<noteq> 0 \<longrightarrow> pb' c p = pb c p) \<and> (\<forall>c'. c' \<noteq> c \<longrightarrow> pb' c' = pb c')"

lemma busy_kept_refl: "busy_kept pb pb c" by (simp add: busy_kept_def)

lemma busy_kept_trans: "busy_kept pb pb' c \<Longrightarrow> busy_kept pb' pb'' c \<Longrightarrow> busy_kept pb pb'' c"
  by (simp add: busy_kept_def)

lemma mark_port_kept: "pb c p = 0 \<Longrightarrow> busy_kept pb (mark_port commit u c p pb) c"
  by (simp add: mark_port_def busy_kept_def)

lemma scheduleUop_dry: "scheduleUop False u pb c = (fst (scheduleUop commit u pb c), pb)"
  by (induction commit u pb c rule: scheduleUop.induct)
     (auto simp: scheduleUop.simps [of False] scheduleUop.simps [of _ _ _ c for c] mark_port_def split: if_splits)

lemma scheduleUop_ok:
  "scheduleUop commit u pb c = (Some c', pb') \<Longrightarrow> c \<le> c' \<and> c' < CYCLE_MAP_SIZE \<and> busy_kept pb pb' c'"
proof (induction commit u pb c rule: scheduleUop.induct)
  case (1 commit u pb c)
  show ?case
    using "1.prems" "1.IH" mark_port_kept
    by (subst (asm) scheduleUop.simps) (auto split: if_splits)
qed

definition port_free :: "nat \<Rightarrow> ports \<Rightarrow> nat \<Rightarrow> bool" where
  "port_free u pb c \<longleftrightarrow> (u AND P5 \<noteq> 0 \<and> pb c 2 = 0) \<or> (u AND P0 \<noteq> 0 \<and> pb c 0 = 0) \<or> (u AND P1 \<noteq> 0 \<and> pb c 1 = 0)"

lemma scheduleUop_free: "scheduleUop commit u pb c = (Some c', pb') \<Longrightarrow> port_free u pb c'"
proof (induction commit u pb c rule: scheduleUop.induct)
  case (1 commit u pb c)
  show ?case
    using "1.prems" "1.IH" by (subst (asm) scheduleUop.simps) (auto simp: port_free_def split: if_splits)
qed

lemma port_free_single: "port_free P1 pb c \<longleftrightarrow> pb c 1 = 0" "port_free P5 pb c \<longleftrightarrow> pb c 2 = 0"
  by (simp_all add: port_free_def P0_def P1_def P5_def)

lemma scheduleUop_here:
  assumes "c < CYCLE_MAP_SIZE"
  shows "pb c 1 = 0 \<Longrightarrow> scheduleUop True P1 pb c = (Some c, mark_port True P1 c 1 pb)"
    "pb c 2 = 0 \<Longrightarrow> scheduleUop True P5 pb c = (Some c, mark_port True P5 c 2 pb)"
  using assms by (subst scheduleUop.simps; simp add: P0_def P1_def P5_def)+

text \<open>The macro-operations with two micro-operations need ports 1 and 5 in the same cycle.\<close>

lemma scheduleMop2_dry:
  "fst (scheduleMop2 False mop pb c) = fst (scheduleMop2 commit mop pb c)"
proof (induction commit mop pb c rule: scheduleMop2.induct)
  case (1 commit mop pb c)
  show ?case using "1.IH"
    by (subst (1 2) scheduleMop2.simps) (auto simp: Let_def split: option.splits)
qed

lemma scheduleMop2_ok:
  assumes "mop_uop1 mop = P1" "mop_uop2 mop = P5"
  shows "scheduleMop2 True mop pb c = (Some c', pb') \<Longrightarrow>
   c \<le> c' \<and> c' < CYCLE_MAP_SIZE \<and> busy_kept pb pb' c' \<and> pb c' 1 = 0 \<and> pb c' 2 = 0 \<and> pb' c' 1 = P1 \<and> pb' c' 2 = P5"
proof (induction "CYCLE_MAP_SIZE - c" arbitrary: c rule: less_induct)
  case less
  have c: "c < CYCLE_MAP_SIZE" using less.prems by (subst (asm) scheduleMop2.simps) (auto split: if_splits)
  let ?c1 = "fst (scheduleUop False P1 pb c)" and ?c2 = "fst (scheduleUop False P5 pb c)"
  show ?case
  proof (cases "\<exists>d. ?c1 = Some d \<and> ?c2 = Some d")
    case True
    then obtain d where d: "scheduleUop False P1 pb c = (Some d, pb)" "scheduleUop False P5 pb c = (Some d, pb)"
      using scheduleUop_dry [of P1 pb c False] scheduleUop_dry [of P5 pb c False] by auto
    have free: "pb d 1 = 0" "pb d 2 = 0" "d < CYCLE_MAP_SIZE" "c \<le> d"
      using scheduleUop_free [OF d(1)] scheduleUop_free [OF d(2)] scheduleUop_ok [OF d(1)] port_free_single by auto
    have "mark_port True P1 d 1 pb d 2 = 0" using free by (simp add: mark_port_def)
    with less.prems assms c d free show ?thesis
      by (subst (asm) scheduleMop2.simps) (auto simp: scheduleUop_here mark_port_def busy_kept_def)
  next
    case False
    have "scheduleMop2 True mop pb c = scheduleMop2 True mop pb (c + 1)"
      using c False assms by (subst scheduleMop2.simps) (auto simp: Let_def split: option.splits)
    with less.prems have run: "scheduleMop2 True mop pb (c + 1) = (Some c', pb')" by simp
    have "CYCLE_MAP_SIZE - (c + 1) < CYCLE_MAP_SIZE - c" using c by linarith
    from less.hyps [OF this run] show ?thesis by auto
  qed
qed

lemma table_mops:
  assumes "info \<in> set all_infos" "mop \<in> set (info_ops info)"
  shows "isEliminated mop \<or> isSimple mop \<or> (mop_uop1 mop = P1 \<and> mop_uop2 mop = P5)"
  using assms by (auto simp: all_infos_def info_defs info1_def infoN_def Mov_rr_def Mul_r_def Imul_r_def
      mop0_def mop1_def mop2_def isEliminated_def isSimple_def Sub_rr_def Xor_rr_def Lea_sib_def Imul_rr_def
      Ror_ri_def Add_ri_def Xor_ri_def Mov_ri64_def)

section \<open>Properties\<close>

text \<open>C19: Booking a macro-operation of the instruction tables on the execution ports gives the
  cycle that the trial run gave; it is not before the requested cycle and inside the port map,
  only that cycle changes, and no port that was busy is booked again.\<close>

theorem scheduling_sound:
  assumes "info \<in> set all_infos" "mop \<in> set (info_ops info)"
    "scheduleMop True mop pb c d = (Some c', pb')"
  shows "fst (scheduleMop False mop pb c d) = Some c' \<and> c \<le> c' \<and>
    (isEliminated mop \<and> pb' = pb \<or> c' < CYCLE_MAP_SIZE) \<and>
    (\<forall>p. pb c' p \<noteq> 0 \<longrightarrow> pb' c' p = pb c' p) \<and> (\<forall>e. e \<noteq> c' \<longrightarrow> pb' e = pb e)"
proof -
  define c1 where "c1 = (if mop_dependent mop then max c d else c)"
  have c1: "c \<le> c1" by (simp add: c1_def)
  show ?thesis
  proof (cases "isEliminated mop")
    case True
    with assms(3) c1 show ?thesis by (auto simp: scheduleMop_def c1_def [symmetric])
  next
    case False
    show ?thesis
    proof (cases "isSimple mop")
      case True
      with False assms(3) have s: "scheduleUop True (mop_uop1 mop) pb c1 = (Some c', pb')"
        by (simp add: scheduleMop_def c1_def [symmetric])
      have dry: "fst (scheduleUop False (mop_uop1 mop) pb c1) = Some c'"
        using scheduleUop_dry [of "mop_uop1 mop" pb c1 True] s by simp
      show ?thesis
        using scheduleUop_ok [OF s] dry c1 False True
        by (auto simp: busy_kept_def scheduleMop_def c1_def [symmetric])
    next
      case simple: False
      with False table_mops [OF assms(1,2)] have u: "mop_uop1 mop = P1" "mop_uop2 mop = P5" by auto
      from False simple assms(3) have s: "scheduleMop2 True mop pb c1 = (Some c', pb')"
        by (simp add: scheduleMop_def c1_def [symmetric])
      have dry: "fst (scheduleMop2 False mop pb c1) = Some c'"
        using scheduleMop2_dry [of mop pb c1 True] s by simp
      show ?thesis
        using scheduleMop2_ok [OF u s] dry c1 False simple
        by (auto simp: busy_kept_def scheduleMop_def c1_def [symmetric])
    qed
  qed
qed

theorem scheduling_sound_witness:
  "\<exists>c' pb'. scheduleMop True Mul_r (\<lambda>_ _. 0) 5 0 = (Some c', pb') \<and>
     fst (scheduleMop False Mul_r (\<lambda>_ _. 0) 5 0) = Some c' \<and> 5 \<le> c'"
proof -
  have "Mul_r \<in> set (info_ops info_IMULH_R)" "info_IMULH_R \<in> set all_infos"
    by (simp_all add: info_IMULH_R_def infoN_def all_infos_def)
  moreover obtain pb' where "scheduleMop True Mul_r (\<lambda>_ _. 0) 5 0 = (Some 5, pb')"
    by (simp add: scheduleMop_def Mul_r_def mop2_def isEliminated_def isSimple_def port_defs
        scheduleMop2.simps scheduleUop.simps CYCLE_MAP_SIZE_def RANDOMX_SUPERSCALAR_LATENCY_def)
  ultimately show ?thesis using scheduling_sound by blast
qed

text \<open>The byte source of the witnesses: every refill delivers the byte 7.\<close>

definition sevens :: "u8 list \<Rightarrow> u8 list" where "sevens d = replicate 64 7"

lemma sevens_return: "draws_return sevens"
proof -
  have byte: "getByte sevens g = (7, \<lparr>g_data = replicate 64 7, g_dataIndex = 1\<rparr>)" if "64 \<le> g_dataIndex g" for g
    using that by (simp add: getByte_def checkData_def sevens_def)
  have word: "getUInt32 sevens g = (0x07070707, \<lparr>g_data = replicate 64 7, g_dataIndex = 4\<rparr>)"
    if "60 < g_dataIndex g" for g
    using that by (simp add: getUInt32_def checkData_def sevens_def load32_def bytes_mem_def)
  have "draw_rotation sevens g \<noteq> None" for g
  proof (induction "64 - g_dataIndex g" arbitrary: g rule: less_induct)
    case less
    show ?case
    proof (cases "64 \<le> g_dataIndex g")
      case True
      then show ?thesis by (subst draw_rotation.simps) (simp add: byte)
    next
      case False
      then have "draw_rotation sevens (snd (getByte sevens g)) \<noteq> None"
        by (intro less) (simp add: getByte_def checkData_def)
      then show ?thesis by (subst draw_rotation.simps) (auto split: prod.splits)
    qed
  qed
  moreover have "draw_divisor sevens g \<noteq> None" for g
  proof (induction "64 - g_dataIndex g" arbitrary: g rule: less_induct)
    case less
    show ?case
    proof (cases "60 < g_dataIndex g")
      case True
      then show ?thesis by (subst draw_divisor.simps) (simp add: word isZeroOrPowerOf2_def)
    next
      case False
      then have "draw_divisor sevens (snd (getUInt32 sevens g)) \<noteq> None"
        by (intro less) (simp add: getUInt32_def checkData_def)
      then show ?thesis by (subst draw_divisor.simps) (auto split: prod.splits)
    qed
  qed
  ultimately show ?thesis by (simp add: draws_return_def)
qed

lemma generate_total: "draws_return H \<Longrightarrow> \<exists>sp g'. generateSuperscalar H prog g = Some (sp, g')"
  using decode_loop_total [of H RANDOMX_SUPERSCALAR_LATENCY 0 "gstate_init prog g"]
  by (auto simp: generateSuperscalar_def Let_def split: prod.splits)

text \<open>C18: The generator ends: it returns a program from every state of the byte source,
  provided that the two loops that draw a rotation count and a divisor each come to an end.
  In particular the throw-away loop ends and every slot size of the decoder is handled.\<close>

theorem generateSuperscalar_terminates:
  assumes "\<And>g. draw_rotation H g \<noteq> None" "\<And>g. draw_divisor H g \<noteq> None"
  shows "\<exists>sp g'. generateSuperscalar H prog g = Some (sp, g')"
  by (rule generate_total) (use assms in \<open>simp add: draws_return_def\<close>)

theorem generateSuperscalar_terminates_witness:
  "\<exists>sp g'. generateSuperscalar sevens (replicate 512 (Instruction.make 0 0 0 0 0)) (Blake2Generator_init [1, 2, 3] 0)
     = Some (sp, g')"
  by (rule generateSuperscalar_terminates) (use sevens_return in \<open>simp_all add: draws_return_def\<close>)

lemma gstate_init_ok: "length prog = SuperscalarMaxSize \<Longrightarrow> gs_ok (gstate_init prog g)"
  by (simp add: gs_ok_def gstate_init_def cur_info_def SI_Null_def info_NOP_def info_size_def)

lemma address_register_max:
  "n \<le> 8 \<Longrightarrow> for_range 0 n (address_step lat) (0, 0) = (m, r) \<Longrightarrow>
    r < 8 \<and> (\<forall>k<n. lat k \<le> m) \<and> (m = 0 \<or> lat r = m)"
proof (induction n arbitrary: m r)
  case (Suc n)
  obtain m0 r0 where p: "for_range 0 n (address_step lat) (0, 0) = (m0, r0)" by fastforce
  with Suc.IH [of m0 r0] Suc.prems(1) have "r0 < 8" "\<forall>k<n. lat k \<le> m0" "m0 = 0 \<or> lat r0 = m0" by auto
  moreover have "(m, r) = (if lat n > m0 then (lat n, n) else (m0, r0))"
    using Suc.prems(2) p by (simp add: address_step_def [of lat n])
  ultimately show ?case using Suc.prems(1)
    by (auto simp: less_Suc_eq split: if_splits intro: less_imp_le order_less_imp_le dest: le_less_trans)
qed simp

lemma generated_ok:
  assumes "generateSuperscalar H prog g = Some (sp, g')" "length prog = SuperscalarMaxSize"
  shows "sp_size sp \<le> SuperscalarMaxSize" "length (sp_buffer sp) = SuperscalarMaxSize"
    "\<forall>j < sp_size sp. super_instr_ok (sp_buffer sp ! j)"
    "sp_addrReg sp < 8" "\<forall>k<8. sp_asicLatencies sp k \<le> sp_asicLatencies sp (sp_addrReg sp)"
proof -
  obtain dc st where run: "decode_loop H RANDOMX_SUPERSCALAR_LATENCY 0 (gstate_init prog g) = Some (dc, st)"
    using assms(1) by (auto simp: generateSuperscalar_def split: option.splits)
  have ok: "gs_ok st" using decode_loop_ok [OF run gstate_init_ok [OF assms(2)]] .
  define asic where "asic = for_range 0 (s_programSize st) (asic_step (s_prog st)) (\<lambda>_. 0)"
  obtain m r where mr: "for_range 0 8 (address_step asic) (0, 0) = (m, r)" by fastforce
  have sp: "sp_size sp = s_programSize st" "sp_buffer sp = s_prog st" "sp_addrReg sp = r" "sp_asicLatencies sp = asic"
    using assms(1) run mr by (auto simp: generateSuperscalar_def Let_def asic_def [symmetric])
  note max = address_register_max [OF order_refl mr]
  then have "asic k \<le> asic r" if "k < 8" for k using that by (metis le_zero_eq order_trans zero_le)
  then show "\<forall>k<8. sp_asicLatencies sp k \<le> sp_asicLatencies sp (sp_addrReg sp)" by (simp add: sp)
  show "sp_size sp \<le> SuperscalarMaxSize" "length (sp_buffer sp) = SuperscalarMaxSize"
    "\<forall>j < sp_size sp. super_instr_ok (sp_buffer sp ! j)" "sp_addrReg sp < 8"
    using ok max by (simp_all add: sp gs_ok_def)
qed

text \<open>C17: Every program the generator returns fits the program buffer, and all its
  instructions are valid: a known opcode, register operands below 8, a source different from
  the destination for the two-register operations, r5 never the destination of IADD_RS, a
  rotation count from 1 to 63, and a divisor that is neither 0 nor a power of two. The address
  register is a register of largest ASIC latency.\<close>

theorem generateSuperscalar_valid:
  assumes "generateSuperscalar H prog g = Some (sp, g')" "length prog = SuperscalarMaxSize"
  shows "sp_size sp \<le> SuperscalarMaxSize \<and> length (sp_buffer sp) = SuperscalarMaxSize \<and>
    (\<forall>j < sp_size sp. super_instr_ok (sp_buffer sp ! j)) \<and>
    sp_addrReg sp < 8 \<and> (\<forall>k<8. sp_asicLatencies sp k \<le> sp_asicLatencies sp (sp_addrReg sp))"
  using generated_ok [OF assms] by blast

lemma example_generated:
  obtains sp g' where "generateSuperscalar sevens (replicate 512 (Instruction.make 0 0 0 0 0))
      (Blake2Generator_init [1, 2, 3] 0) = Some (sp, g')"
    "length (replicate 512 (Instruction.make 0 0 0 0 0)) = SuperscalarMaxSize"
  using generate_total [OF sevens_return] that
  by (fastforce simp: SuperscalarMaxSize_def RANDOMX_SUPERSCALAR_LATENCY_def)

theorem generateSuperscalar_valid_witness:
  "\<exists>sp g'. generateSuperscalar sevens (replicate 512 (Instruction.make 0 0 0 0 0)) (Blake2Generator_init [1, 2, 3] 0)
     = Some (sp, g') \<and> sp_size sp \<le> SuperscalarMaxSize \<and> (\<forall>j < sp_size sp. super_instr_ok (sp_buffer sp ! j))"
proof -
  obtain sp g' where gen: "generateSuperscalar sevens (replicate 512 (Instruction.make 0 0 0 0 0))
      (Blake2Generator_init [1, 2, 3] 0) = Some (sp, g')"
    "length (replicate 512 (Instruction.make 0 0 0 0 0)) = SuperscalarMaxSize" by (rule example_generated)
  from generateSuperscalar_valid [OF gen] gen(1) show ?thesis by blast
qed

lemma execute_super_total:
  assumes "super_instr_ok i"
  shows "\<exists>r'. execute_super None i r = Some r'"
proof -
  from assms obtain t where t: "stype_of (unat (i_opcode i)) = Some t" by (auto simp: super_instr_ok_def)
  then have "t \<noteq> S_INVALID" by (auto simp: stype_of_def less_Suc_eq numeral_eq_Suc split: if_splits)
  with t show ?thesis by (cases t) (simp_all add: execute_super_def Let_def)
qed

lemma valid_program_executes:
  assumes "\<forall>j < sp_size sp. super_instr_ok (sp_buffer sp ! j)"
  shows "\<exists>r'. executeSuperscalar None sp r = Some r'"
proof -
  have "\<exists>r'. for_range 0 n (\<lambda>j s. Option.bind s (execute_super None (sp_buffer sp ! j))) (Some r) = Some r'"
    if "n \<le> sp_size sp" for n
    using that
  proof (induction n)
    case (Suc n)
    then obtain r1 where "for_range 0 n (\<lambda>j s. Option.bind s (execute_super None (sp_buffer sp ! j))) (Some r) = Some r1"
      by auto
    with execute_super_total [of "sp_buffer sp ! n" r1] assms Suc.prems show ?case by auto
  qed simp
  then show ?thesis by (simp add: executeSuperscalar_def)
qed



end
