(* ===== verification/Dataset.thy ===== *)
theory Dataset
  imports Superscalar_Facts
begin

text \<open>
  The cache and the dataset (\<^verbatim>\<open>dataset.hpp\<close>, \<^verbatim>\<open>dataset.cpp\<close>): the superscalar
  programs of a key with their reciprocals taken out, a dataset item computed from the cache,
  and the loop that fills a range of items.

  Argon2 fills the cache memory; it is the argument \<open>argon\<close>, a function of the key. The hash
  of the byte generator is the argument \<open>H\<close>, as in \<open>Superscalar\<close>. The function pointers of the
  cache are named by a datatype each.
\<close>

section \<open>State\<close>

datatype CacheInitialize = InitCache | InitCacheCompile
datatype DatasetInit = InitDataset | JitDatasetInit
datatype Allocator = DefaultAllocator | LargePageAllocator
datatype argon2_impl = Argon2_ref | Argon2_ssse3 | Argon2_avx2

record randomx_cache =
  ca_memory :: mem
  ca_dealloc :: Allocator
  ca_jit :: bool
  ca_initialize :: CacheInitialize
  ca_datasetInit :: DatasetInit
  ca_programs :: "SuperscalarProgram list"
  ca_reciprocals :: "u64 list"
  ca_cacheKey :: "u8 list"
  ca_argonImpl :: argon2_impl

record randomx_dataset =
  ds_memory :: mem
  ds_dealloc :: Allocator

definition isInitialized :: "randomx_cache \<Rightarrow> bool" where
  "isInitialized cache \<longleftrightarrow> sp_size (ca_programs cache ! 0) \<noteq> 0"

section \<open>Cache\<close>

text \<open>The loop over the instructions of a fresh program: the divisor of an \<^verbatim>\<open>IMUL_RCP\<close>
  becomes the index of its reciprocal.\<close>

definition patch_instr :: "nat \<Rightarrow> Instruction list \<times> u64 list \<Rightarrow> Instruction list \<times> u64 list" where
  "patch_instr j s =
    (case s of (buf, rc) \<Rightarrow>
       if stype_of (unat (i_opcode (buf ! j))) = Some S_IMUL_RCP
       then let rcp = randomx_reciprocal (getImm32 (buf ! j))
            in (buf[j := setImm32 (of_nat (length rc)) (buf ! j)], rc @ [rcp])
       else (buf, rc))"

definition patch_program :: "SuperscalarProgram \<Rightarrow> u64 list \<Rightarrow> SuperscalarProgram \<times> u64 list" where
  "patch_program sp rc =
    (case for_range 0 (sp_size sp) patch_instr (sp_buffer sp, rc) of
       (buf, rc') \<Rightarrow> (sp\<lparr>sp_buffer := buf\<rparr>, rc'))"

text \<open>One round of the loop over \<^verbatim>\<open>cache->programs\<close>.\<close>

definition cache_step :: "(u8 list \<Rightarrow> u8 list) \<Rightarrow> nat
    \<Rightarrow> (SuperscalarProgram list \<times> u64 list \<times> Blake2Generator) option
    \<Rightarrow> (SuperscalarProgram list \<times> u64 list \<times> Blake2Generator) option" where
  "cache_step H i s =
    (case s of None \<Rightarrow> None
     | Some (progs, rc, gen) \<Rightarrow>
        (case generateSuperscalar H (sp_buffer (progs ! i)) gen of None \<Rightarrow> None
         | Some (sp, gen') \<Rightarrow> (case patch_program sp rc of (sp', rc') \<Rightarrow> Some (progs[i := sp'], rc', gen'))))"

definition initCache :: "(u8 list \<Rightarrow> mem) \<Rightarrow> (u8 list \<Rightarrow> u8 list) \<Rightarrow> randomx_cache \<Rightarrow> u8 list \<Rightarrow> randomx_cache option" where
  "initCache argon H cache key =
    (case for_range 0 RANDOMX_CACHE_ACCESSES (cache_step H)
            (Some (ca_programs cache, [], Blake2Generator_init key 0)) of
       None \<Rightarrow> None
     | Some (progs, rc, gen) \<Rightarrow>
        Some (cache\<lparr>ca_memory := argon key, ca_programs := progs, ca_reciprocals := rc\<rparr>))"

section \<open>Dataset items\<close>

definition superscalarMul0 :: u64 where "superscalarMul0 = 6364136223846793005"
definition superscalarAdd1 :: u64 where "superscalarAdd1 = 9298411001130361340"
definition superscalarAdd2 :: u64 where "superscalarAdd2 = 12065312585734608966"
definition superscalarAdd3 :: u64 where "superscalarAdd3 = 9306329213124626780"
definition superscalarAdd4 :: u64 where "superscalarAdd4 = 5281919268842080866"
definition superscalarAdd5 :: u64 where "superscalarAdd5 = 10536153434571861004"
definition superscalarAdd6 :: u64 where "superscalarAdd6 = 3398623926847679864"
definition superscalarAdd7 :: u64 where "superscalarAdd7 = 9549104520008361294"

text \<open>The offset of the block in the cache memory.\<close>

definition getMixBlock :: "u64 \<Rightarrow> nat" where
  "getMixBlock registerValue = unat (registerValue AND of_nat (CacheSize div CacheLineSize - 1)) * CacheLineSize"

definition initial_rl :: "u64 \<Rightarrow> nat \<Rightarrow> u64" where
  "initial_rl itemNumber =
    (let rl0 = (itemNumber + 1) * superscalarMul0
     in (\<lambda>_. 0)(0 := rl0, 1 := rl0 XOR superscalarAdd1, 2 := rl0 XOR superscalarAdd2,
          3 := rl0 XOR superscalarAdd3, 4 := rl0 XOR superscalarAdd4, 5 := rl0 XOR superscalarAdd5,
          6 := rl0 XOR superscalarAdd6, 7 := rl0 XOR superscalarAdd7))"

definition xor_line :: "mem \<Rightarrow> nat \<Rightarrow> (nat \<Rightarrow> u64) \<Rightarrow> nat \<Rightarrow> u64" where
  "xor_line m a rl = for_range 0 8 (\<lambda>q rl. rl(q := rl q XOR load64 m (a + 8 * q))) rl"

definition item_step :: "mem \<Rightarrow> u64 list option \<Rightarrow> SuperscalarProgram list \<Rightarrow> nat
    \<Rightarrow> ((nat \<Rightarrow> u64) \<times> u64) option \<Rightarrow> ((nat \<Rightarrow> u64) \<times> u64) option" where
  "item_step memory rc progs i s =
    (case s of None \<Rightarrow> None
     | Some (rl, registerValue) \<Rightarrow>
        let mixBlock = getMixBlock registerValue; prog = progs ! i
        in (case executeSuperscalar rc prog rl of None \<Rightarrow> None
            | Some rl1 \<Rightarrow> let rl2 = xor_line memory mixBlock rl1 in Some (rl2, rl2 (sp_addrReg prog))))"

definition initDatasetItem :: "randomx_cache \<Rightarrow> u64 \<Rightarrow> (nat \<Rightarrow> u64) option" where
  "initDatasetItem cache itemNumber =
     map_option fst (for_range 0 RANDOMX_CACHE_ACCESSES
       (item_step (ca_memory cache) (Some (ca_reciprocals cache)) (ca_programs cache))
       (Some (initial_rl itemNumber, itemNumber)))"

text \<open>\<^verbatim>\<open>memcpy(out, &rl, CacheLineSize)\<close> on a little-endian machine.\<close>

definition store_rl :: "mem \<Rightarrow> nat \<Rightarrow> (nat \<Rightarrow> u64) \<Rightarrow> mem" where
  "store_rl m out rl = for_range 0 8 (\<lambda>q m. store64 m (out + 8 * q) (rl q)) m"

definition initDataset :: "randomx_cache \<Rightarrow> mem \<Rightarrow> nat \<Rightarrow> u32 \<Rightarrow> u32 \<Rightarrow> mem option" where
  "initDataset cache m dataset startItem endItem =
     for_range (unat startItem) (unat endItem)
       (\<lambda>itemNumber s. case s of None \<Rightarrow> None
         | Some m \<Rightarrow> (case initDatasetItem cache (of_nat itemNumber) of None \<Rightarrow> None
            | Some rl \<Rightarrow> Some (store_rl m (dataset + CacheLineSize * (itemNumber - unat startItem)) rl)))
       (Some m)"

section \<open>The reciprocal cache\<close>

text \<open>Only \<^verbatim>\<open>IMUL_RCP\<close> reads the cache.\<close>

lemma execute_super_no_rcp:
  "stype_of (unat (i_opcode i)) \<noteq> Some S_IMUL_RCP \<Longrightarrow> execute_super rc i r = execute_super None i r"
  by (auto simp: execute_super_def Let_def split: option.splits SuperscalarInstructionType.splits)

lemma execute_super_patched:
  assumes "stype_of (unat (i_opcode i)) = Some S_IMUL_RCP" "k < length rc" "k < 4294967296"
    "rc ! k = randomx_reciprocal (getImm32 i)"
  shows "execute_super (Some rc) (setImm32 (of_nat k) i) r = execute_super None i r"
proof -
  have "unat (of_nat k :: u32) = k" using assms(3) by (simp add: unsigned_of_nat take_bit_nat_eq_self)
  with assms show ?thesis by (simp add: execute_super_def Let_def setImm32_def getImm32_def)
qed

text \<open>Instruction \<open>j\<close> of a patched buffer, with any reciprocal cache that extends the one
  built so far, does what the original does.\<close>

definition patched :: "Instruction list \<Rightarrow> Instruction list \<Rightarrow> nat \<Rightarrow> u64 list \<Rightarrow> bool" where
  "patched buf buf' n rc \<longleftrightarrow>
     (\<forall>j<n. \<forall>ext r. execute_super (Some (rc @ ext)) (buf' ! j) r = execute_super None (buf ! j) r)"

lemma patch_loop:
  assumes "n \<le> length buf" "length rc + n \<le> 4294967296"
    "for_range 0 n patch_instr (buf, rc) = (buf', rc')"
  shows "length buf' = length buf \<and> (\<exists>new. rc' = rc @ new \<and> length new \<le> n) \<and>
    (\<forall>j\<ge>n. buf' ! j = buf ! j) \<and> patched buf buf' n rc'"
  using assms
proof (induction n arbitrary: buf' rc')
  case (Suc n)
  obtain b1 r1 where before: "for_range 0 n patch_instr (buf, rc) = (b1, r1)" by fastforce
  then have IH: "length b1 = length buf" "\<forall>j\<ge>n. b1 ! j = buf ! j" "patched buf b1 n r1"
    and new: "\<exists>new. r1 = rc @ new \<and> length new \<le> n"
    using Suc.IH [OF _ _ before] Suc.prems by auto
  from new have short: "length r1 < 4294967296" using Suc.prems(2) by auto
  have step: "patch_instr n (b1, r1) = (buf', rc')" using Suc.prems(3) before by simp
  have inb: "n < length b1" using IH(1) Suc.prems(1) by simp
  show ?case
  proof (cases "stype_of (unat (i_opcode (buf ! n))) = Some S_IMUL_RCP")
    case True
    with step IH(2) have res: "buf' = b1[n := setImm32 (of_nat (length r1)) (buf ! n)]"
        "rc' = r1 @ [randomx_reciprocal (getImm32 (buf ! n))]"
      by (simp_all add: patch_instr_def Let_def)
    have at: "execute_super (Some (rc' @ ext)) (buf' ! n) r = execute_super None (buf ! n) r" for ext r
      unfolding res using execute_super_patched [OF True, of "length r1" "rc' @ ext" r] short inb
      by (simp add: res nth_append)
    have "patched buf buf' (Suc n) rc'"
      unfolding patched_def
    proof (intro allI impI)
      fix j ext r assume "j < Suc n"
      then consider "j < n" | "j = n" by linarith
      then show "execute_super (Some (rc' @ ext)) (buf' ! j) r = execute_super None (buf ! j) r"
      proof cases
        case 1
        then have "execute_super (Some (r1 @ (randomx_reciprocal (getImm32 (buf ! n)) # ext))) (b1 ! j) r
            = execute_super None (buf ! j) r" using IH(3) by (simp add: patched_def)
        with 1 show ?thesis by (simp add: res)
      qed (simp add: at)
    qed
    with IH new show ?thesis by (auto simp: res)
  next
    case False
    with step IH(2) have res: "buf' = b1" "rc' = r1" by (simp_all add: patch_instr_def)
    have "patched buf buf' (Suc n) rc'"
      using IH(2,3) execute_super_no_rcp [OF False]
      by (auto simp: patched_def res less_Suc_eq)
    with IH new show ?thesis by (auto simp: res intro: le_SucI)
  qed
qed (simp add: patched_def)

lemma patch_program_ok:
  assumes "patch_program sp rc = (sp', rc')" "sp_size sp \<le> length (sp_buffer sp)"
    "length rc + sp_size sp \<le> 4294967296"
  shows "(\<exists>new. rc' = rc @ new \<and> length new \<le> sp_size sp)"
    "sp_addrReg sp' = sp_addrReg sp" "sp_size sp' = sp_size sp"
    "executeSuperscalar (Some (rc' @ ext)) sp' r = executeSuperscalar None sp r"
proof -
  obtain buf where loop: "for_range 0 (sp_size sp) patch_instr (sp_buffer sp, rc) = (buf, rc')"
    and sp': "sp' = sp\<lparr>sp_buffer := buf\<rparr>"
    using assms(1) by (auto simp: patch_program_def split: prod.splits)
  note ok = patch_loop [OF assms(2,3) loop]
  show "\<exists>new. rc' = rc @ new \<and> length new \<le> sp_size sp" "sp_addrReg sp' = sp_addrReg sp" "sp_size sp' = sp_size sp"
    using ok by (simp_all add: sp')
  show "executeSuperscalar (Some (rc' @ ext)) sp' r = executeSuperscalar None sp r"
  proof -
    have at: "execute_super (Some (rc' @ ext)) (buf ! j) = execute_super None (sp_buffer sp ! j)" if "j < sp_size sp" for j
      using ok that unfolding patched_def by blast
    show ?thesis
      unfolding executeSuperscalar_def sp' by (simp, rule for_range_cong) (simp add: at)
  qed
qed

section \<open>The programs of a key\<close>

text \<open>The programs the generator draws one after the other, before any reciprocal is taken out.\<close>

fun fresh_programs :: "(u8 list \<Rightarrow> u8 list) \<Rightarrow> Instruction list list \<Rightarrow> Blake2Generator
    \<Rightarrow> (SuperscalarProgram list \<times> Blake2Generator) option" where
  "fresh_programs H [] g = Some ([], g)"
| "fresh_programs H (b # bs) g =
    (case generateSuperscalar H b g of None \<Rightarrow> None
     | Some (sp, g1) \<Rightarrow> (case fresh_programs H bs g1 of None \<Rightarrow> None
        | Some (sps, g2) \<Rightarrow> Some (sp # sps, g2)))"

lemma fresh_programs_snoc:
  "fresh_programs H bs g = Some (sps, g1) \<Longrightarrow> generateSuperscalar H b g1 = Some (sp, g2) \<Longrightarrow>
    fresh_programs H (bs @ [b]) g = Some (sps @ [sp], g2)"
proof (induction bs arbitrary: g sps)
  case (Cons b bs)
  then show ?case by (fastforce split: option.splits prod.splits)
qed auto

lemma fresh_programs_length: "fresh_programs H bs g = Some (sps, g') \<Longrightarrow> length sps = length bs"
  by (induction bs arbitrary: g sps g') (fastforce split: option.splits prod.splits)+

lemma fresh_programs_valid:
  "fresh_programs H bs g = Some (sps, g') \<Longrightarrow> \<forall>b\<in>set bs. length b = SuperscalarMaxSize \<Longrightarrow> i < length sps \<Longrightarrow>
    \<exists>b g1 g2. length b = SuperscalarMaxSize \<and> generateSuperscalar H b g1 = Some (sps ! i, g2)"
proof (induction bs arbitrary: g sps i g')
  case (Cons b bs)
  then show ?case by (cases i) (fastforce split: option.splits prod.splits)+
qed simp

text \<open>Eight program buffers of full size, as the constructor of the cache makes them.\<close>

definition cache_shape :: "randomx_cache \<Rightarrow> bool" where
  "cache_shape cache \<longleftrightarrow> length (ca_programs cache) = RANDOMX_CACHE_ACCESSES \<and>
     (\<forall>sp\<in>set (ca_programs cache). length (sp_buffer sp) = SuperscalarMaxSize)"

lemma cache_step_None [simp]: "cache_step H i None = None"
  by (simp add: cache_step_def)

lemma cache_step_Some:
  "generateSuperscalar H (sp_buffer (p ! i)) g = Some (sp, g') \<Longrightarrow> patch_program sp r = (sp', r') \<Longrightarrow>
    cache_step H i (Some (p, r, g)) = Some (p[i := sp'], r', g')"
  by (simp add: cache_step_def)

definition same_code :: "SuperscalarProgram list \<Rightarrow> u64 list \<Rightarrow> SuperscalarProgram list \<Rightarrow> nat \<Rightarrow> bool" where
  "same_code progs rc ps n \<longleftrightarrow> (\<forall>i<n. sp_addrReg (progs ! i) = sp_addrReg (ps ! i) \<and>
     sp_size (progs ! i) = sp_size (ps ! i) \<and>
     (\<forall>ext r. executeSuperscalar (Some (rc @ ext)) (progs ! i) r = executeSuperscalar None (ps ! i) r))"

lemma cache_loop:
  assumes "n \<le> length progs0" "n \<le> 8" "\<forall>sp\<in>set progs0. length (sp_buffer sp) = SuperscalarMaxSize"
    "for_range 0 n (cache_step H) (Some (progs0, [], g0)) = Some (progs, rc, g)"
  shows "length progs = length progs0 \<and> (\<forall>i\<ge>n. progs ! i = progs0 ! i) \<and> length rc \<le> n * SuperscalarMaxSize \<and>
    (\<exists>ps. fresh_programs H (map sp_buffer (take n progs0)) g0 = Some (ps, g) \<and> same_code progs rc ps n)"
  using assms
proof (induction n arbitrary: progs rc g)
  case (Suc n)
  from Suc.prems(4) obtain p1 r1 g1 where before: "for_range 0 n (cache_step H) (Some (progs0, [], g0)) = Some (p1, r1, g1)"
    by (cases "for_range 0 n (cache_step H) (Some (progs0, [], g0))") auto
  then obtain ps where IH: "length p1 = length progs0" "\<forall>i\<ge>n. p1 ! i = progs0 ! i" "length r1 \<le> n * SuperscalarMaxSize"
      "fresh_programs H (map sp_buffer (take n progs0)) g0 = Some (ps, g1)" "same_code p1 r1 ps n"
    using Suc.IH [OF _ _ _ before] Suc.prems by auto
  let ?b = "sp_buffer (progs0 ! n)"
  have "cache_step H n (Some (p1, r1, g1)) = Some (progs, rc, g)" using Suc.prems(4) before by simp
  with IH(2) obtain sp sp' where gen: "generateSuperscalar H ?b g1 = Some (sp, g)"
    and patch: "patch_program sp r1 = (sp', rc)" and progs: "progs = p1[n := sp']"
    by (auto simp: cache_step_def split: option.splits prod.splits)
  have b: "length ?b = SuperscalarMaxSize" using Suc.prems(1,3) by simp
  note valid = generated_ok [OF gen b]
  have short: "length r1 + sp_size sp \<le> Suc n * SuperscalarMaxSize" using IH(3) valid(1) by simp
  also have "\<dots> \<le> 4294967296"
    using Suc.prems(2) by (simp add: SuperscalarMaxSize_def RANDOMX_SUPERSCALAR_LATENCY_def)
  finally have "length r1 + sp_size sp \<le> 4294967296" .
  note ok = patch_program_ok [OF patch _ this, unfolded valid(2), OF valid(1)]
  obtain new where new: "rc = r1 @ new" "length new \<le> sp_size sp" using ok(1) by blast
  have len: "length ps = n" using fresh_programs_length [OF IH(4)] Suc.prems(1) by simp
  have "same_code progs rc (ps @ [sp]) (Suc n)"
    using IH(1,5) ok(2,3,4) Suc.prems(1) len
    by (auto simp: same_code_def progs new(1) less_Suc_eq nth_append)
  moreover have "fresh_programs H (map sp_buffer (take (Suc n) progs0)) g0 = Some (ps @ [sp], g)"
    using fresh_programs_snoc [OF IH(4) gen] Suc.prems(1) by (simp add: take_Suc_conv_app_nth)
  ultimately show ?case using IH(1,2) short new by (auto simp: progs)
qed (auto simp: same_code_def)

lemma cache_loop_total:
  "draws_return H \<Longrightarrow> for_range 0 n (cache_step H) (Some s) \<noteq> None"
proof (induction n)
  case (Suc n)
  then obtain p r g where s: "for_range 0 n (cache_step H) (Some s) = Some (p, r, g)" by auto
  obtain sp g' where "generateSuperscalar H (sp_buffer (p ! n)) g = Some (sp, g')"
    using generate_total [OF Suc.prems] by blast
  moreover obtain sp' r' where "patch_program sp r = (sp', r')" by fastforce
  ultimately have "cache_step H n (Some (p, r, g)) = Some (p[n := sp'], r', g')" by (rule cache_step_Some)
  then show ?case using s by simp
qed simp

section \<open>Items\<close>

text \<open>The specification of a dataset item: the programs as they are generated, every reciprocal
  computed where it is used.\<close>

definition ref_item :: "mem \<Rightarrow> SuperscalarProgram list \<Rightarrow> u64 \<Rightarrow> (nat \<Rightarrow> u64) option" where
  "ref_item memory ps itemNumber =
     map_option fst (for_range 0 RANDOMX_CACHE_ACCESSES (item_step memory None ps)
       (Some (initial_rl itemNumber, itemNumber)))"

lemma initCache_facts:
  assumes "initCache argon H cache key = Some c" "cache_shape cache"
  obtains ps g where
    "fresh_programs H (map sp_buffer (ca_programs cache)) (Blake2Generator_init key 0) = Some (ps, g)"
    "ca_memory c = argon key" "same_code (ca_programs c) (ca_reciprocals c) ps RANDOMX_CACHE_ACCESSES"
    "length ps = RANDOMX_CACHE_ACCESSES"
    "\<And>i r. i < RANDOMX_CACHE_ACCESSES \<Longrightarrow> executeSuperscalar None (ps ! i) r \<noteq> None"
proof -
  from assms(1) obtain progs rc g where loop:
      "for_range 0 RANDOMX_CACHE_ACCESSES (cache_step H) (Some (ca_programs cache, [], Blake2Generator_init key 0)) = Some (progs, rc, g)"
    and c: "c = cache\<lparr>ca_memory := argon key, ca_programs := progs, ca_reciprocals := rc\<rparr>"
    by (auto simp: initCache_def split: option.splits prod.splits)
  have shape: "RANDOMX_CACHE_ACCESSES = length (ca_programs cache)" "RANDOMX_CACHE_ACCESSES \<le> 8"
    "\<forall>sp\<in>set (ca_programs cache). length (sp_buffer sp) = SuperscalarMaxSize"
    using assms(2) by (simp_all add: cache_shape_def RANDOMX_CACHE_ACCESSES_def)
  obtain ps where ps: "fresh_programs H (map sp_buffer (ca_programs cache)) (Blake2Generator_init key 0) = Some (ps, g)"
      "same_code progs rc ps RANDOMX_CACHE_ACCESSES"
    using cache_loop [OF _ shape(2,3) loop] shape(1) by auto
  have len: "length ps = RANDOMX_CACHE_ACCESSES" using fresh_programs_length [OF ps(1)] shape(1) by simp
  have "executeSuperscalar None (ps ! i) r \<noteq> None" if "i < RANDOMX_CACHE_ACCESSES" for i r
  proof -
    have "\<forall>b\<in>set (map sp_buffer (ca_programs cache)). length b = SuperscalarMaxSize" using shape(3) by simp
    from fresh_programs_valid [OF ps(1) this, of i] that len
    obtain b g1 g2 where b: "length b = SuperscalarMaxSize" and gen: "generateSuperscalar H b g1 = Some (ps ! i, g2)"
      by auto
    show ?thesis using valid_program_executes [OF generated_ok(3) [OF gen b], of r] by auto
  qed
  with ps len show ?thesis using that [of ps g] by (simp add: c)
qed

lemma item_loop_eq:
  assumes "same_code progs rc ps n"
  shows "for_range 0 n (item_step m (Some rc) progs) s = for_range 0 n (item_step m None ps) s"
proof (rule for_range_cong)
  fix i t assume "0 \<le> i" "i < n"
  then have "executeSuperscalar (Some (rc @ [])) (progs ! i) r = executeSuperscalar None (ps ! i) r"
    "sp_addrReg (progs ! i) = sp_addrReg (ps ! i)" for r
    using assms unfolding same_code_def by blast+
  then show "item_step m (Some rc) progs i t = item_step m None ps i t"
    by (cases t) (auto simp: item_step_def Let_def split: option.splits)
qed

lemma item_loop_total:
  assumes "\<And>i r. i < n \<Longrightarrow> executeSuperscalar rc (ps ! i) r \<noteq> None"
  shows "for_range 0 n (item_step m rc ps) (Some s) \<noteq> None"
  using assms
proof (induction n)
  case (Suc n)
  then obtain rl v where "for_range 0 n (item_step m rc ps) (Some s) = Some (rl, v)" by auto
  moreover obtain r1 where "executeSuperscalar rc (ps ! n) rl = Some r1" using Suc.prems [of n rl] by auto
  then have "item_step m rc ps n (Some (rl, v)) \<noteq> None" by (simp add: item_step_def Let_def)
  ultimately show ?case by simp
qed simp

lemma cached_items:
  assumes "initCache argon H cache key = Some c" "cache_shape cache"
  obtains ps g where
    "fresh_programs H (map sp_buffer (ca_programs cache)) (Blake2Generator_init key 0) = Some (ps, g)"
    "\<And>n. initDatasetItem c n = ref_item (argon key) ps n" "\<And>n. initDatasetItem c n \<noteq> None"
proof -
  obtain ps g where ps: "fresh_programs H (map sp_buffer (ca_programs cache)) (Blake2Generator_init key 0) = Some (ps, g)"
    "ca_memory c = argon key" "same_code (ca_programs c) (ca_reciprocals c) ps RANDOMX_CACHE_ACCESSES"
    "\<And>i r. i < RANDOMX_CACHE_ACCESSES \<Longrightarrow> executeSuperscalar None (ps ! i) r \<noteq> None"
    by (rule initCache_facts [OF assms]) blast
  have eq: "initDatasetItem c n = ref_item (argon key) ps n" for n
    by (simp add: initDatasetItem_def ref_item_def ps(2) item_loop_eq [OF ps(3)])
  moreover have "ref_item (argon key) ps n \<noteq> None" for n
    using item_loop_total [OF ps(4)] by (simp add: ref_item_def)
  ultimately show ?thesis using that [OF ps(1)] by simp
qed

text \<open>C25: an initialised cache computes the right dataset items. Taking the reciprocals out of
  the eight programs into one shared cache changes no result: every item is defined and equals
  the specification that runs the programs as the generator draws them for the key and computes
  every reciprocal in place.\<close>

theorem dataset_items_correct:
  assumes "initCache argon H cache key = Some c" "cache_shape cache"
  shows "\<exists>ps g. fresh_programs H (map sp_buffer (ca_programs cache)) (Blake2Generator_init key 0) = Some (ps, g) \<and>
    (\<forall>n. initDatasetItem c n = ref_item (argon key) ps n \<and> initDatasetItem c n \<noteq> None)"
proof -
  obtain ps g where
    "fresh_programs H (map sp_buffer (ca_programs cache)) (Blake2Generator_init key 0) = Some (ps, g)"
    "\<And>n. initDatasetItem c n = ref_item (argon key) ps n" "\<And>n. initDatasetItem c n \<noteq> None"
    by (rule cached_items [OF assms]) blast
  then show ?thesis by blast
qed

text \<open>The example cache: empty memory and eight empty programs.\<close>

definition empty_program :: SuperscalarProgram where
  "empty_program = \<lparr>sp_buffer = replicate 512 (Instruction.make 0 0 0 0 0), sp_size = 0, sp_addrReg = 0,
     sp_codeSize = 0, sp_macroOps = 0, sp_decodeCycles = 0, sp_cpuLatency = 0, sp_asicLatency = 0,
     sp_mulCount = 0, sp_cpuLatencies = (\<lambda>_. 0), sp_asicLatencies = (\<lambda>_. 0)\<rparr>"

definition empty_cache :: randomx_cache where
  "empty_cache = \<lparr>ca_memory = (\<lambda>_. 0), ca_dealloc = DefaultAllocator, ca_jit = False, ca_initialize = InitCache,
     ca_datasetInit = InitDataset, ca_programs = replicate 8 empty_program, ca_reciprocals = [],
     ca_cacheKey = [], ca_argonImpl = Argon2_ref\<rparr>"

lemma empty_cache_shape: "cache_shape empty_cache"
  by (simp add: cache_shape_def empty_cache_def empty_program_def RANDOMX_CACHE_ACCESSES_def
      SuperscalarMaxSize_def RANDOMX_SUPERSCALAR_LATENCY_def)

lemma example_cache:
  obtains c where "initCache argon sevens cache key = Some c"
proof -
  obtain p r g where "for_range 0 RANDOMX_CACHE_ACCESSES (cache_step sevens)
      (Some (ca_programs cache, [], Blake2Generator_init key 0)) = Some (p, r, g)"
    using cache_loop_total [OF sevens_return] by fastforce
  then show ?thesis using that by (simp add: initCache_def)
qed

theorem dataset_items_correct_witness:
  "\<exists>c ps. initCache (\<lambda>_ _. 3) sevens empty_cache [1, 2] = Some c \<and>
     initDatasetItem c 5 = ref_item (\<lambda>_. 3) ps 5 \<and> initDatasetItem c 5 \<noteq> None"
proof -
  obtain c where c: "initCache (\<lambda>_ _. 3) sevens empty_cache [1, 2] = Some c" by (rule example_cache)
  from dataset_items_correct [OF c empty_cache_shape] show ?thesis using c by blast
qed

section \<open>Reads of the cache\<close>

lemma mix_block_in_cache: "getMixBlock v + 64 \<le> CacheSize"
proof -
  have "unat (v AND 4194303) \<le> 4194303" using unat_and_le1 [of v 4194303] by simp
  then show ?thesis by (simp add: getMixBlock_def config)
qed

lemma xor_line_cong:
  "(\<And>i. a \<le> i \<Longrightarrow> i < a + 64 \<Longrightarrow> m i = m' i) \<Longrightarrow> xor_line m a rl = xor_line m' a rl"
proof -
  assume same: "\<And>i. a \<le> i \<Longrightarrow> i < a + 64 \<Longrightarrow> m i = m' i"
  have "load64 m (a + 8 * q) = load64 m' (a + 8 * q)" if "q < 8" for q
    by (rule c64.load_cong) (use same that in simp)
  then show ?thesis unfolding xor_line_def by (intro for_range_cong) simp
qed

text \<open>the computation of an item reads only inside the cache memory: two cache memories that
  agree on their \<open>CacheSize\<close> bytes give the same item for every item number.\<close>

theorem item_reads_cache_only:
  assumes "\<And>i. i < CacheSize \<Longrightarrow> m i = m' i"
  shows "initDatasetItem (c\<lparr>ca_memory := m\<rparr>) n = initDatasetItem (c\<lparr>ca_memory := m'\<rparr>) n"
proof -
  have "item_step m rc ps i t = item_step m' rc ps i t" for rc ps i t
  proof -
    have "xor_line m (getMixBlock v) rl = xor_line m' (getMixBlock v) rl" for v rl
      by (rule xor_line_cong) (use assms mix_block_in_cache [of v] in simp)
    then show ?thesis by (cases t) (auto simp: item_step_def Let_def split: option.splits)
  qed
  then have "item_step m = item_step m'" by (intro ext)
  then show ?thesis by (simp add: initDatasetItem_def)
qed

theorem item_reads_cache_only_witness:
  "initDatasetItem (empty_cache\<lparr>ca_memory := (\<lambda>_. 0)\<rparr>) 9 =
   initDatasetItem (empty_cache\<lparr>ca_memory := (\<lambda>_. 0)(CacheSize := 1)\<rparr>) 9"
  by (rule item_reads_cache_only) simp

section \<open>Filling a range of items\<close>

definition line_at :: "mem \<Rightarrow> nat \<Rightarrow> (nat \<Rightarrow> u64) \<Rightarrow> bool" where
  "line_at m a rl \<longleftrightarrow> (\<forall>q<8. load64 m (a + 8 * q) = rl q)"

lemma line_at_cong:
  "(\<And>i. a \<le> i \<Longrightarrow> i < a + 64 \<Longrightarrow> m' i = m i) \<Longrightarrow> line_at m a rl \<Longrightarrow> line_at m' a rl"
  unfolding line_at_def by (auto intro!: c64.load_cong simp flip: c64.load_cong [of _ m m'])

lemma store_rl_outside: "i < out \<or> out + 64 \<le> i \<Longrightarrow> store_rl m out rl i = m i"
proof -
  assume i: "i < out \<or> out + 64 \<le> i"
  have "for_range 0 n (\<lambda>q m. store64 m (out + 8 * q) (rl q)) m i = m i" if "n \<le> 8" for n
    using that by (induction n) (use i in \<open>auto simp: c64.store_outside\<close>)
  then show ?thesis by (simp add: store_rl_def)
qed

lemma store_rl_line: "line_at (store_rl m out rl) out rl"
proof -
  have "\<forall>q<n. load64 (for_range 0 n (\<lambda>q m. store64 m (out + 8 * q) (rl q)) m) (out + 8 * q) = rl q" for n
    by (induction n) (auto simp: less_Suc_eq c64.load_store_same c64.load_store_other)
  then show ?thesis by (simp add: store_rl_def line_at_def)
qed

text \<open>
  The contract of \<^verbatim>\<open>cache->datasetInit\<close>, as its callers in \<^verbatim>\<open>randomx.cpp\<close> use it: for a
  multiple of four items it writes these items and nothing else. Four is the batch of the
  function that the JIT compiler emits.
\<close>

definition fills :: "(u64 \<Rightarrow> (nat \<Rightarrow> u64) option) \<Rightarrow> mem \<Rightarrow> nat \<Rightarrow> nat \<Rightarrow> nat \<Rightarrow> mem \<Rightarrow> bool" where
  "fills item m p s e m' \<longleftrightarrow>
     (\<forall>n. s \<le> n \<and> n < e \<longrightarrow> line_at m' (p + 64 * (n - s)) (the (item (of_nat n)))) \<and>
     (\<forall>i. i < p \<or> p + 64 * (e - s) \<le> i \<longrightarrow> m' i = m i)"

locale dataset_init =
  fixes init :: "randomx_cache \<Rightarrow> mem \<Rightarrow> nat \<Rightarrow> u32 \<Rightarrow> u32 \<Rightarrow> mem option"
    and item :: "randomx_cache \<Rightarrow> u64 \<Rightarrow> (nat \<Rightarrow> u64) option"
  assumes init_fills: "(\<And>n. item c n \<noteq> None) \<Longrightarrow> s \<le> e \<Longrightarrow> 4 dvd (unat e - unat s) \<Longrightarrow>
      \<exists>m'. init c m p s e = Some m' \<and> fills (item c) m p (unat s) (unat e) m'"

lemma initDataset_loop:
  assumes "\<And>n. initDatasetItem c n \<noteq> None" "s \<le> e"
  shows "\<exists>m'. for_range s e
       (\<lambda>itemNumber st. case st of None \<Rightarrow> None
         | Some m \<Rightarrow> (case initDatasetItem c (of_nat itemNumber) of None \<Rightarrow> None
            | Some rl \<Rightarrow> Some (store_rl m (p + CacheLineSize * (itemNumber - s)) rl)))
       (Some m) = Some m' \<and> fills (initDatasetItem c) m p s e m'"
  using assms(2)
proof (induction rule: dec_induct)
  case base
  then show ?case by (auto simp: fills_def)
next
  case (step e)
  obtain rl where rl: "initDatasetItem c (of_nat e) = Some rl" using assms(1) [of "of_nat e"] by auto
  obtain m1 where m1: "for_range s e
       (\<lambda>itemNumber st. case st of None \<Rightarrow> None
         | Some m \<Rightarrow> (case initDatasetItem c (of_nat itemNumber) of None \<Rightarrow> None
            | Some rl \<Rightarrow> Some (store_rl m (p + CacheLineSize * (itemNumber - s)) rl))) (Some m) = Some m1"
    "fills (initDatasetItem c) m p s e m1" using step.IH by blast
  let ?m2 = "store_rl m1 (p + 64 * (e - s)) rl"
  have "fills (initDatasetItem c) m p s (Suc e) ?m2"
    unfolding fills_def
  proof (intro conjI allI impI)
    fix n assume n: "s \<le> n \<and> n < Suc e"
    show "line_at ?m2 (p + 64 * (n - s)) (the (initDatasetItem c (of_nat n)))"
    proof (cases "n = e")
      case True
      then show ?thesis by (simp add: rl store_rl_line)
    next
      case False
      with n have "s \<le> n \<and> n < e" by simp
      then have "line_at m1 (p + 64 * (n - s)) (the (initDatasetItem c (of_nat n)))"
        using m1(2) by (simp add: fills_def)
      then show ?thesis
        by (rule line_at_cong [rotated]) (use n False in \<open>auto intro!: store_rl_outside\<close>)
    qed
  next
    fix i assume "i < p \<or> p + 64 * (Suc e - s) \<le> i"
    then show "?m2 i = m i" using m1(2) step.hyps by (auto simp: fills_def store_rl_outside Suc_diff_le)
  qed
  then show ?case using m1(1) step.hyps rl by (simp add: config)
qed

interpretation portable_init: dataset_init initDataset initDatasetItem
proof
  fix c m p and s e :: u32
  assume items: "\<And>n. initDatasetItem c n \<noteq> None" and "s \<le> e"
  then have "unat s \<le> unat e" by (simp add: word_le_nat_alt)
  from initDataset_loop [OF items this, of p m]
  show "\<exists>m'. initDataset c m p s e = Some m' \<and> fills (initDatasetItem c) m p (unat s) (unat e) m'"
    by (simp add: initDataset_def)
qed

end
