(* ===== verification/VM.thy ===== *)
theory VM
  imports Bytecode_Facts Aes_Hash Dataset
begin

text \<open>
  The virtual machine: \<^verbatim>\<open>virtual_machine.hpp\<close>, \<^verbatim>\<open>virtual_machine.cpp\<close>,
  \<^verbatim>\<open>program.hpp\<close>, \<^verbatim>\<open>vm_interpreted.cpp\<close> and \<^verbatim>\<open>vm_interpreted_light.cpp\<close>. The
  template parameters and virtual methods of a machine, and what is not under \<^verbatim>\<open>src/\<close>,
  form its environment: the floating-point unit, the AES instructions of the processor,
  \<^verbatim>\<open>softAes\<close>, and \<^verbatim>\<open>datasetRead\<close>. The rounding mode is the one of the thread that runs
  the machine. Register file, program, scratchpad and temporary hash are byte memories, as the
  code hashes and fills them as bytes.
\<close>

section \<open>State\<close>

record env =
  e_fp :: fpu
  e_hw :: aes_hw
  e_softAes :: bool
  e_datasetRead :: "u64 \<Rightarrow> (nat \<Rightarrow> u64) \<Rightarrow> (nat \<Rightarrow> u64) option"

record randomx_vm =
  vm_program :: mem
  vm_reg :: mem
  vm_config :: ProgramConfiguration
  vm_mx :: u32
  vm_ma :: u32
  vm_datasetOffset :: u64
  vm_flags :: u32
  vm_scratchpad :: mem
  vm_tempHash :: mem
  vm_bytecode :: "InstructionByteCode list"
  vm_rm :: u32

text \<open>\<^verbatim>\<open>class Program\<close>: sixteen words of entropy, then 8-byte instructions.\<close>

definition ProgramBytes :: nat where "ProgramBytes = 16 * 8 + RANDOMX_PROGRAM_MAX_SIZE * 8"

definition getEntropy :: "mem \<Rightarrow> nat \<Rightarrow> u64" where "getEntropy prog i = load64 prog (8 * i)"

definition instruction_at :: "mem \<Rightarrow> nat \<Rightarrow> Instruction" where
  "instruction_at prog pc = (let a = 128 + 8 * pc in
     \<lparr>i_opcode = prog a, i_dst = prog (a + 1), i_src = prog (a + 2), i_mod = prog (a + 3),
      i_imm32 = load32 prog (a + 4)\<rparr>)"

definition program_of :: "mem \<Rightarrow> Instruction list" where
  "program_of prog = map (instruction_at prog) [0..<RANDOMX_PROGRAM_MAX_SIZE]"

text \<open>Offsets in \<^verbatim>\<open>RegisterFile\<close>: \<^verbatim>\<open>r\<close>, \<^verbatim>\<open>f\<close>, \<^verbatim>\<open>e\<close>, \<^verbatim>\<open>a\<close>.\<close>

definition reg_r :: nat where [config]: "reg_r = 0"
definition reg_f :: nat where [config]: "reg_f = 64"
definition reg_e :: nat where [config]: "reg_e = 128"
definition reg_a :: nat where [config]: "reg_a = 192"
definition RegisterFileSize :: nat where [config]: "RegisterFileSize = 256"

section \<open>Initialisation from entropy\<close>

definition getSmallPositiveFloatBits :: "u64 \<Rightarrow> u64" where
  "getSmallPositiveFloatBits entropy =
    (let exponent = drop_bit 59 entropy; mantissa = entropy AND mantissaMask;
         exponent = exponent + exponentBias; exponent = exponent AND exponentMask;
         exponent = push_bit mantissaSize exponent
     in exponent OR mantissa)"

definition getStaticExponent :: "u64 \<Rightarrow> u64" where
  "getStaticExponent entropy =
    (let exponent = constExponentBits OR
           push_bit dynamicExponentBits (drop_bit (64 - staticExponentBits) entropy)
     in push_bit mantissaSize exponent)"

definition getFloatMask :: "u64 \<Rightarrow> u64" where
  "getFloatMask entropy =
    (let mask22bit = push_bit 22 1 - 1 in (entropy AND mask22bit) OR getStaticExponent entropy)"

text \<open>\<^verbatim>\<open>readReg0\<close> to \<^verbatim>\<open>readReg3\<close>: the low bit, shifted out each time.\<close>

definition initialize :: "randomx_vm \<Rightarrow> randomx_vm" where
  "initialize vm =
    (let ent = getEntropy (vm_program vm);
         regs = for_range 0 8 (\<lambda>i m. store64 m (reg_a + 8 * i) (getSmallPositiveFloatBits (ent i))) (vm_reg vm);
         addressRegisters = ent 12;
         cfg = \<lparr>eMask0 = getFloatMask (ent 14), eMask1 = getFloatMask (ent 15),
                readReg0 = 0 + unat (addressRegisters AND 1),
                readReg1 = 2 + unat (drop_bit 1 addressRegisters AND 1),
                readReg2 = 4 + unat (drop_bit 2 addressRegisters AND 1),
                readReg3 = 6 + unat (drop_bit 3 addressRegisters AND 1)\<rparr>
     in vm\<lparr>vm_reg := regs, vm_ma := ucast (ent 8) AND CacheLineAlignMask, vm_mx := ucast (ent 10),
           vm_config := cfg,
           vm_datasetOffset := (ent 13 mod (of_nat DatasetExtraItems + 1)) * of_nat CacheLineSize\<rparr>)"

section \<open>Dataset reads\<close>

text \<open>\<^verbatim>\<open>InterpretedVm::datasetRead\<close> and \<^verbatim>\<open>InterpretedLightVm::datasetRead\<close>.\<close>

definition datasetRead :: "randomx_dataset \<Rightarrow> u64 \<Rightarrow> (nat \<Rightarrow> u64) \<Rightarrow> (nat \<Rightarrow> u64) option" where
  "datasetRead dataset address r =
     Some (for_range 0 RegistersCount (\<lambda>i r. r(i := r i XOR load64 (ds_memory dataset) (unat address + 8 * i))) r)"

definition datasetRead_light :: "randomx_cache \<Rightarrow> u64 \<Rightarrow> (nat \<Rightarrow> u64) \<Rightarrow> (nat \<Rightarrow> u64) option" where
  "datasetRead_light cache address r =
    (let itemNumber = (ucast (address div of_nat CacheLineSize) :: u32)
     in case initDatasetItem cache (ucast itemNumber) of None \<Rightarrow> None
        | Some rl \<Rightarrow> Some (for_range 0 8 (\<lambda>q r. r(q := r q XOR rl q)) r))"

section \<open>Execution\<close>

definition rx_cast_vec_f2i :: "vec128 \<Rightarrow> vec_i128" where
  "rx_cast_vec_f2i v = (ucast (fst v), ucast (drop_bit 32 (fst v)), ucast (snd v), ucast (drop_bit 32 (snd v)))"

definition rx_cast_vec_i2f :: "vec_i128 \<Rightarrow> vec128" where
  "rx_cast_vec_i2f v =
    (ucast (rx_vec_i128_x v) OR push_bit 32 (ucast (rx_vec_i128_y v)),
     ucast (rx_vec_i128_z v) OR push_bit 32 (ucast (rx_vec_i128_w v)))"

text \<open>The mixing of the f and e registers in version 2: four AES rounds on every f register.\<close>

definition mix_f_v2 :: "bool \<Rightarrow> aes_hw \<Rightarrow> (nat \<Rightarrow> vec128) \<Rightarrow> (nat \<Rightarrow> vec128) \<Rightarrow> nat \<Rightarrow> vec128" where
  "mix_f_v2 soft hw e f =
    (let ekey = (\<lambda>i. rx_cast_vec_f2i (e i)); freg = (\<lambda>i. rx_cast_vec_f2i (f i));
         freg = for_range 0 RegisterCountFlt (\<lambda>i freg.
            let freg = freg(0 := aesenc soft hw (freg 0) (ekey i));
                freg = freg(1 := aesdec soft hw (freg 1) (ekey i));
                freg = freg(2 := aesenc soft hw (freg 2) (ekey i))
            in freg(3 := aesdec soft hw (freg 3) (ekey i))) freg
     in for_range 0 RegisterCountFlt (\<lambda>i f. f(i := rx_cast_vec_i2f (freg i))) f)"

definition mix_f_v1 :: "(nat \<Rightarrow> vec128) \<Rightarrow> (nat \<Rightarrow> vec128) \<Rightarrow> nat \<Rightarrow> vec128" where
  "mix_f_v1 e f = for_range 0 RegisterCountFlt (\<lambda>i f. f(i := rx_xor_vec_f128 (f i) (e i))) f"

definition rx_store_vec_f128 :: "mem \<Rightarrow> nat \<Rightarrow> vec128 \<Rightarrow> mem" where
  "rx_store_vec_f128 m a v = store64 (store64 m a (fst v)) (a + 8) (snd v)"

definition rx_load_vec_f128 :: "mem \<Rightarrow> nat \<Rightarrow> vec128" where
  "rx_load_vec_f128 m a = (load64 m a, load64 m (a + 8))"

text \<open>The locals of the loop of \<^verbatim>\<open>InterpretedVm::execute\<close>.\<close>

record loop_state =
  l_st :: bstate
  l_mx :: u32
  l_ma :: u32
  l_spAddr0 :: u32
  l_spAddr1 :: u32

text \<open>From the start of an iteration to \<^verbatim>\<open>executeBytecode\<close>.\<close>

definition load_registers :: "fpu \<Rightarrow> ProgramConfiguration \<Rightarrow> nat \<Rightarrow> nat \<Rightarrow> bstate \<Rightarrow> bstate" where
  "load_registers fp cfg a0 a1 st =
    (let m = b_mem st;
         r = for_range 0 RegistersCount (\<lambda>i r. r(i := r i XOR load64 m (a0 + 8 * i))) (b_r st);
         f = for_range 0 RegisterCountFlt (\<lambda>i f. f(i := rx_cvt_packed_int_vec_f128 fp m (a1 + 8 * i))) (b_f st);
         e = for_range 0 RegisterCountFlt (\<lambda>i e. e(i := maskRegisterExponentMantissa cfg
               (rx_cvt_packed_int_vec_f128 fp m (a1 + 8 * (RegisterCountFlt + i))))) (b_e st)
     in st\<lparr>b_r := r, b_f := f, b_e := e\<rparr>)"

text \<open>After the dataset read: the integer registers, the mixed f registers.\<close>

definition store_registers :: "env \<Rightarrow> u32 \<Rightarrow> nat \<Rightarrow> nat \<Rightarrow> bstate \<Rightarrow> bstate" where
  "store_registers E flags a0 a1 st =
    (let m = for_range 0 RegistersCount (\<lambda>i m. store64 m (a1 + 8 * i) (b_r st i)) (b_mem st);
         f = (if has_flag flags RANDOMX_FLAG_V2 then mix_f_v2 (e_softAes E) (e_hw E) (b_e st) (b_f st)
              else mix_f_v1 (b_e st) (b_f st));
         m = for_range 0 RegisterCountFlt (\<lambda>i m. rx_store_vec_f128 m (a0 + 16 * i) (f i)) m
     in st\<lparr>b_mem := m, b_f := f\<rparr>)"

text \<open>\<^verbatim>\<open>uint32_t ^= uint64_t\<close> drops the high half.\<close>

definition next_addresses :: "ProgramConfiguration \<Rightarrow> loop_state \<Rightarrow> u32 \<times> u32" where
  "next_addresses cfg s =
    (let spMix = b_r (l_st s) (readReg0 cfg) XOR b_r (l_st s) (readReg1 cfg)
     in ((l_spAddr0 s XOR ucast spMix) AND ScratchpadL3Mask64,
         (l_spAddr1 s XOR ucast (drop_bit 32 spMix)) AND ScratchpadL3Mask64))"

text \<open>\<^verbatim>\<open>mp ^= ...\<close> and the swap: the register that \<^verbatim>\<open>mp\<close> refers to depends on the version.\<close>

definition next_pointers :: "ProgramConfiguration \<Rightarrow> u32 \<Rightarrow> (nat \<Rightarrow> u64) \<Rightarrow> u32 \<Rightarrow> u32 \<Rightarrow> u32 \<times> u32" where
  "next_pointers cfg flags r mx ma =
    (let x = ucast (r (readReg2 cfg) XOR r (readReg3 cfg));
         (mx1, ma1) = (if has_flag flags RANDOMX_FLAG_V2 then (mx, ma XOR x) else (mx XOR x, ma))
     in (ma1, mx1))"

definition iteration :: "env \<Rightarrow> ProgramConfiguration \<Rightarrow> u32 \<Rightarrow> InstructionByteCode list \<Rightarrow> u64 \<Rightarrow> loop_state
    \<Rightarrow> loop_state option" where
  "iteration E cfg flags bytecode datasetOffset s =
    (case next_addresses cfg s of (spAddr0, spAddr1) \<Rightarrow>
      (case executeBytecode (e_fp E) cfg flags bytecode
              (load_registers (e_fp E) cfg (unat spAddr0) (unat spAddr1) (l_st s)) of
        Finished st \<Rightarrow>
          let readPtr = datasetOffset + ucast (l_ma s AND CacheLineAlignMask);
              (mx', ma') = next_pointers cfg flags (b_r st) (l_mx s) (l_ma s)
          in (case e_datasetRead E readPtr (b_r st) of None \<Rightarrow> None
              | Some r' \<Rightarrow> Some \<lparr>l_st = store_registers E flags (unat spAddr0) (unat spAddr1) (st\<lparr>b_r := r'\<rparr>),
                    l_mx = mx', l_ma = ma', l_spAddr0 = 0, l_spAddr1 = 0\<rparr>)
      | Running \<Rightarrow> None
      | Undefined \<Rightarrow> None))"

text \<open>The four registers f and the four registers e of \<^verbatim>\<open>NativeRegisterFile\<close> are not initialised:
  \<open>junk\<close> stands for what they hold. There are four registers of each kind.\<close>

definition array4 :: "(nat \<Rightarrow> vec128) \<Rightarrow> nat \<Rightarrow> vec128" where
  "array4 v i = (if i < RegisterCountFlt then v i else (0, 0))"

definition execute :: "(nat \<Rightarrow> vec128) \<times> (nat \<Rightarrow> vec128) \<Rightarrow> env \<Rightarrow> randomx_vm \<Rightarrow> randomx_vm option" where
  "execute junk E vm =
    (let nreg = \<lparr>b_r = (\<lambda>_. 0), b_f = array4 (fst junk), b_e = array4 (snd junk),
           b_a = array4 (\<lambda>i. rx_load_vec_f128 (vm_reg vm) (reg_a + 16 * i)),
           b_mem = vm_scratchpad vm, b_rm = vm_rm vm\<rparr>
     in case compileProgram (program_of (vm_program vm)) (vm_bytecode vm) (vm_flags vm) of None \<Rightarrow> None
     | Some bytecode \<Rightarrow>
        (case for_range 0 RANDOMX_PROGRAM_ITERATIONS
            (\<lambda>ic s. Option.bind s (iteration E (vm_config vm) (vm_flags vm) bytecode (vm_datasetOffset vm)))
            (Some \<lparr>l_st = nreg, l_mx = vm_mx vm, l_ma = vm_ma vm, l_spAddr0 = vm_mx vm, l_spAddr1 = vm_ma vm\<rparr>) of
          None \<Rightarrow> None
        | Some s \<Rightarrow>
            let st = l_st s;
                m = for_range 0 RegistersCount (\<lambda>i m. store64 m (reg_r + 8 * i) (b_r st i)) (vm_reg vm);
                m = for_range 0 RegisterCountFlt (\<lambda>i m. rx_store_vec_f128 m (reg_f + 16 * i) (b_f st i)) m;
                m = for_range 0 RegisterCountFlt (\<lambda>i m. rx_store_vec_f128 m (reg_e + 16 * i) (b_e st i)) m
            in Some (vm\<lparr>vm_reg := m, vm_mx := l_mx s, vm_ma := l_ma s, vm_scratchpad := b_mem st,
                 vm_rm := b_rm st, vm_bytecode := bytecode\<rparr>)))"

definition generateProgram :: "env \<Rightarrow> mem \<Rightarrow> randomx_vm \<Rightarrow> randomx_vm" where
  "generateProgram E seed vm =
     vm\<lparr>vm_program := fillAes4Rx4 (e_softAes E) (e_hw E) seed ProgramBytes (vm_program vm)\<rparr>"

definition run :: "(nat \<Rightarrow> vec128) \<times> (nat \<Rightarrow> vec128) \<Rightarrow> env \<Rightarrow> mem \<Rightarrow> randomx_vm \<Rightarrow> randomx_vm option" where
  "run junk E seed vm = execute junk E (initialize (generateProgram E seed vm))"

section \<open>Scratchpad and result\<close>

definition resetRoundingMode :: "randomx_vm \<Rightarrow> randomx_vm" where
  "resetRoundingMode vm = vm\<lparr>vm_rm := 0\<rparr>"

text \<open>\<^verbatim>\<open>initScratchpad\<close> returns the seed that the generator wrote back as well.\<close>

definition initScratchpad :: "env \<Rightarrow> mem \<Rightarrow> randomx_vm \<Rightarrow> mem \<times> randomx_vm" where
  "initScratchpad E seed vm =
    (case fillAes1Rx4 (e_softAes E) (e_hw E) seed ScratchpadSize 0 (vm_scratchpad vm) of
       (seed', pad) \<Rightarrow> (seed', vm\<lparr>vm_scratchpad := pad\<rparr>))"

text \<open>The 64 bytes of the hash go to \<^verbatim>\<open>reg.a\<close>.\<close>

definition set_reg_a :: "mem \<Rightarrow> mem \<Rightarrow> mem" where
  "set_reg_a reg h = write_bytes reg reg_a (read_bytes h 0 64)"

definition reg_bytes :: "randomx_vm \<Rightarrow> u8 list" where
  "reg_bytes vm = read_bytes (vm_reg vm) 0 RegisterFileSize"

definition getFinalResult :: "env \<Rightarrow> nat \<Rightarrow> randomx_vm \<Rightarrow> (u8 list \<times> randomx_vm) option" where
  "getFinalResult E outSize vm =
    (let h = hashAes1Rx4 (e_softAes E) (e_hw E) (vm_scratchpad vm) ScratchpadSize (\<lambda>_. 0);
         vm' = vm\<lparr>vm_reg := set_reg_a (vm_reg vm) h\<rparr>
     in map_option (\<lambda>out. (out, vm')) (blake2b outSize (reg_bytes vm') []))"

definition hashAndFill :: "env \<Rightarrow> nat \<Rightarrow> mem \<Rightarrow> randomx_vm \<Rightarrow> (u8 list \<times> mem \<times> randomx_vm) option" where
  "hashAndFill E outSize fill_state vm =
    (case hashAndFillAes1Rx4 (e_softAes E) (e_hw E) (vm_scratchpad vm) ScratchpadSize (\<lambda>_. 0) fill_state of
       (pad, h, fill_state') \<Rightarrow>
         let vm' = vm\<lparr>vm_scratchpad := pad, vm_reg := set_reg_a (vm_reg vm) h\<rparr>
         in map_option (\<lambda>out. (out, fill_state', vm')) (blake2b outSize (reg_bytes vm') []))"

definition setFlagV2 :: "randomx_vm \<Rightarrow> randomx_vm" where
  "setFlagV2 vm = vm\<lparr>vm_flags := vm_flags vm OR RANDOMX_FLAG_V2\<rparr>"

definition clearFlagV2 :: "randomx_vm \<Rightarrow> randomx_vm" where
  "clearFlagV2 vm = (if has_flag (vm_flags vm) RANDOMX_FLAG_V2
     then vm\<lparr>vm_flags := vm_flags vm - RANDOMX_FLAG_V2\<rparr> else vm)"

end
