(* ===== verification/VM_Facts.thy ===== *)
theory VM_Facts
  imports VM
begin

text \<open>
  Facts about the virtual machine: the ranges of the values that \<open>initialize\<close> derives from
  entropy, the bounds of its memory accesses, that light and fast machines read the same
  dataset, that a run always ends, and that it depends on nothing that earlier runs left.
\<close>

section \<open>Fills determine their buffers\<close>

context cell_access begin

lemma load_eq_bytes: "load m a = load m' a \<Longrightarrow> a \<le> i \<Longrightarrow> i < a + width \<Longrightarrow> m i = m' i"
  by (metis store_inside store_load_same)

end

lemma blocks_cover: "i < 64 * n \<Longrightarrow> \<exists>k<n. 64 * k \<le> i \<and> i < 64 * k + (64::nat)"
  by (rule exI [of _ "i div 64"]) linarith

lemma fill_determined:
  assumes "load_lanes s 0 = load_lanes s' 0" "i < 64 * n"
  shows "snd (fill_loop step 0 (64 * n) (load_lanes s 0) m) i = snd (fill_loop step 0 (64 * n) (load_lanes s' 0) m') i"
proof -
  obtain k where k: "k < n" "64 * k \<le> i" "i < 64 * k + 64" using blocks_cover [OF assms(2)] by blast
  have "load_lanes (snd (fill_loop step 0 (64 * n) (load_lanes s 0) m)) (64 * k) =
      load_lanes (snd (fill_loop step 0 (64 * n) (load_lanes s' 0) m')) (64 * k)"
    using fill_loop_blocks [of step 0 n "load_lanes s 0" m] fill_loop_blocks [of step 0 n "load_lanes s' 0" m']
      k(1) assms(1) by simp
  then show ?thesis using k(2,3) by (rule c512.load_eq_bytes)
qed

lemma load_lanes_cong64: "(\<And>i. i < 64 \<Longrightarrow> s i = s' i) \<Longrightarrow> load_lanes s 0 = load_lanes s' 0"
  by (rule c512.load_cong) simp

section \<open>Stale bytecode\<close>

text \<open>Compilation overwrites every field that execution reads; the rest may be left over from
  an earlier program.\<close>

definition no_source :: "InstructionType \<Rightarrow> bool" where
  "no_source t \<longleftrightarrow> t \<in> {INEG_R, FSWAP_R, FSCAL_R, FSQRT_R, CBRANCH, NOP}"

definition same_ibc :: "InstructionByteCode \<Rightarrow> InstructionByteCode \<Rightarrow> bool" where
  "same_ibc a b \<longleftrightarrow> bc_type a = bc_type b \<and>
     (bc_type a \<notin> {CFROUND, NOP} \<longrightarrow> bc_dst a = bc_dst b) \<and>
     (\<not> no_source (bc_type a) \<longrightarrow> bc_src a = bc_src b) \<and>
     (bc_type a \<in> {IADD_RS, CBRANCH, CFROUND} \<or> bc_type a \<in> set mem_types \<or>
        \<not> no_source (bc_type a) \<and> bc_src a = SrcImm \<longrightarrow> bc_imm a = bc_imm b) \<and>
     (bc_type a = CBRANCH \<or> bc_type a \<in> set mem_types \<longrightarrow> bc_memMask a = bc_memMask b) \<and>
     (bc_type a \<in> {IADD_RS, CBRANCH} \<longrightarrow> bc_target_shift a = bc_target_shift b)"

lemma isrc_val_same:
  "bc_src a = bc_src b \<Longrightarrow> (bc_src a = SrcImm \<longrightarrow> bc_imm a = bc_imm b) \<Longrightarrow> isrc_val a = isrc_val b"
  "bc_src a = bc_src b \<Longrightarrow> fsrc_val a = fsrc_val b"
  "bc_dst a = bc_dst b \<Longrightarrow> idst_val a = idst_val b"
  "bc_dst a = bc_dst b \<Longrightarrow> upd_idst a = upd_idst b"
  "bc_dst a = bc_dst b \<Longrightarrow> upd_fdst a = upd_fdst b"
  by (intro ext; simp add: operand_defs split: src_ref.splits)+

lemma loads_same:
  "isrc_val a = isrc_val b \<Longrightarrow> bc_imm a = bc_imm b \<Longrightarrow> bc_memMask a = bc_memMask b \<Longrightarrow>
    load_src a = load_src b \<and> cvt_src fp a = cvt_src fp b"
  by (simp add: fun_eq_iff load_src_def cvt_src_def getScratchpadAddress_def)

lemma instr_same:
  assumes "same_ibc a b"
  shows "executeInstruction fp cfg flags a pc st = executeInstruction fp cfg flags b pc st"
proof -
  have src: "isrc_val a = isrc_val b" "fsrc_val a = fsrc_val b" if "\<not> no_source (bc_type a)"
    using assms that isrc_val_same(1,2) [of a b] by (auto simp: same_ibc_def)
  have dst: "idst_val a = idst_val b" "upd_idst a = upd_idst b" "upd_fdst a = upd_fdst b"
    if "bc_type a \<notin> {CFROUND, NOP}"
    using assms that isrc_val_same(3,4,5) [of a b] by (auto simp: same_ibc_def)
  have load: "load_src a = load_src b" "cvt_src fp a = cvt_src fp b" if "bc_type a \<in> set mem_types"
  proof -
    have "\<not> no_source (bc_type a)" using that by (auto simp: no_source_def mem_types_def)
    then show "load_src a = load_src b" "cvt_src fp a = cvt_src fp b"
      using loads_same [OF src(1)] assms that by (auto simp: same_ibc_def)
  qed
  show ?thesis
    using assms src dst load
    by (cases "bc_type a") (simp_all add: same_ibc_def no_source_def mem_types_def executeInstruction_def
        exe_defs target_def shift_def cong: if_cong)
qed

lemma gen_of_stale:
  "same_ibc (fst (gen_of t instr i ibc u)) (fst (gen_of t instr i ibc' u))"
  "snd (gen_of t instr i ibc u) = snd (gen_of t instr i ibc' u)"
  by (cases t; simp add: gen_defs same_ibc_def no_source_def mem_types_def Let_def setTarget_def setShift_def)+

lemma compileProgram_stale:
  assumes "program_size flags \<le> length bc" "program_size flags \<le> length bc'"
    "compileProgram prog bc flags = Some code"
  shows "\<exists>code'. compileProgram prog bc' flags = Some code' \<and> length code = length bc \<and> length code' = length bc' \<and>
    (\<forall>j < program_size flags. same_ibc (code ! j) (code' ! j))"
proof -
  let ?n = "program_size flags"
  let ?run = "\<lambda>i c. for_range 0 i (compile_step prog) (Some (c, beginCompilation))"
  have "\<exists>c c' u. ?run i bc = Some (c, u) \<and> ?run i bc' = Some (c', u) \<and> length c = length bc \<and>
      length c' = length bc' \<and> (\<forall>j<i. same_ibc (c ! j) (c' ! j))" if "i \<le> ?n" for i
    using that
  proof (induction i)
    case (Suc i)
    then obtain c c' u where IH: "?run i bc = Some (c, u)" "?run i bc' = Some (c', u)" "length c = length bc"
        "length c' = length bc'" "\<forall>j<i. same_ibc (c ! j) (c' ! j)" by auto
    obtain t where t: "type_of_opcode (unat (i_opcode (prog ! i))) = Some t"
      using type_of_opcode_total [of "unat (i_opcode (prog ! i))"] by auto
    obtain b v where b: "gen_of t (prog ! i) i (c ! i) u = (b, v)" by fastforce
    obtain b' v' where b': "gen_of t (prog ! i) i (c' ! i) u = (b', v')" by fastforce
    have same: "same_ibc b b'" "v = v'"
      using gen_of_stale [of t "prog ! i" i "c ! i" u "c' ! i"] b b' by simp_all
    have "?run (Suc i) bc = Some (c[i := b], v)" "?run (Suc i) bc' = Some (c'[i := b'], v)"
      using IH(1,2) t b b' same(2) by (simp_all add: compile_step_def compileInstruction_gen_of)
    moreover have "same_ibc (c[i := b] ! j) (c'[i := b'] ! j)" if "j < Suc i" for j
      using IH(3,4,5) Suc.prems assms(1,2) same(1) that by (cases "j = i") auto
    ultimately show ?case using IH(3,4) by (intro exI [of _ "c[i := b]"] exI [of _ "c'[i := b']"] exI [of _ v]) simp
  qed simp
  from this [OF le_refl] assms(3) show ?thesis by (auto simp: compileProgram_def)
qed

lemma exec_loop_same:
  assumes "\<And>j. j < n \<Longrightarrow> same_ibc (code ! j) (code' ! j)" "n \<le> length code" "n \<le> length code'"
  shows "exec_loop k fp cfg flags code n pc st = exec_loop k fp cfg flags code' n pc st"
proof (induction k arbitrary: pc st)
  case (Suc k)
  show ?case
  proof (cases "0 \<le> pc \<and> pc < int n")
    case True
    then have "nat pc < n" by linarith
    then have "executeInstruction fp cfg flags (code ! nat pc) pc st = executeInstruction fp cfg flags (code' ! nat pc) pc st"
      by (rule instr_same [OF assms(1)])
    moreover have "\<not> int (length code) \<le> pc" "\<not> int (length code') \<le> pc" using True assms(2,3) by linarith+
    ultimately show ?thesis using True by (simp add: Suc.IH split: option.splits)
  qed auto
qed simp

section \<open>Ranges\<close>

lemma pad_mask_bound: "unat (x AND ScratchpadL3Mask64) + 64 \<le> ScratchpadSize"
proof -
  have "unat (x AND 2097088) \<le> unat (2097088 :: u32)" by (rule unat_and_le1)
  then show ?thesis by (simp add: ScratchpadL3Mask64_def config)
qed

lemma line_mask_bound: "unat (x AND CacheLineAlignMask) + 64 \<le> RANDOMX_DATASET_BASE_SIZE"
proof -
  have "unat (x AND 2147483584) \<le> unat (2147483584 :: u32)" by (rule unat_and_le1)
  then show ?thesis by (simp add: CacheLineAlignMask_def config)
qed

text \<open>What \<open>initialize\<close> establishes, whatever the program bytes are.\<close>

definition vm_ready :: "randomx_vm \<Rightarrow> bool" where
  "vm_ready vm \<longleftrightarrow> readReg0 (vm_config vm) \<in> {0, 1} \<and> readReg1 (vm_config vm) \<in> {2, 3} \<and>
     readReg2 (vm_config vm) \<in> {4, 5} \<and> readReg3 (vm_config vm) \<in> {6, 7} \<and>
     unat (vm_datasetOffset vm) \<le> RANDOMX_DATASET_EXTRA_SIZE \<and> 64 dvd unat (vm_datasetOffset vm)"

lemma bit_and_1: "unat (x AND 1 :: u64) \<in> {0, 1}"
  by (cases "odd x") (simp_all add: and_one_eq mod_2_eq_odd)

lemma dataset_offset:
  fixes x :: u64
  shows "unat ((x mod (of_nat DatasetExtraItems + 1)) * of_nat CacheLineSize) = unat x mod 524288 * 64"
proof -
  have m: "unat (x mod 524288) = unat x mod 524288" by (simp add: unat_mod)
  then have "unat (x mod 524288) < 524288" by simp
  then have "unat ((x mod 524288) * 64) = unat (x mod 524288) * 64"
    by (simp add: unat_word_ariths)
  with m show ?thesis by (simp add: config)
qed

lemma initialize_ready: "vm_ready (initialize vm)"
proof -
  let ?e = "getEntropy (vm_program vm)"
  have "unat (?e 13) mod 524288 * 64 \<le> 33554368" using mod_less_divisor [of 524288 "unat (?e 13)"] by linarith
  then show ?thesis
    using bit_and_1 [of "?e 12"] bit_and_1 [of "drop_bit 1 (?e 12)"] bit_and_1 [of "drop_bit 2 (?e 12)"]
      bit_and_1 [of "drop_bit 3 (?e 12)"]
    by (auto simp: vm_ready_def initialize_def Let_def dataset_offset RANDOMX_DATASET_EXTRA_SIZE_def)
qed

section \<open>Runs do not depend on the memory outside the scratchpad\<close>

lemma for_range_commute:
  "(\<And>i x. i < n \<Longrightarrow> h (f i x) = g i (h x)) \<Longrightarrow> h (for_range 0 n f x) = for_range 0 n g (h x)"
  by (induction n) simp_all

lemma splice_load_fns:
  assumes "a + 64 \<le> ScratchpadSize"
  shows "i < 8 \<Longrightarrow> load64 (splice m1 m) (a + 8 * i) = load64 m1 (a + 8 * i)"
    "i < 8 \<Longrightarrow> rx_cvt_packed_int_vec_f128 fp (splice m1 m) (a + 8 * i) = rx_cvt_packed_int_vec_f128 fp m1 (a + 8 * i)"
  using assms by (simp_all add: splice_cells rx_cvt_packed_int_vec_f128_def)

lemma load_registers_overlay:
  assumes "a0 + 64 \<le> ScratchpadSize" "a1 + 64 \<le> ScratchpadSize"
  shows "load_registers fp cfg a0 a1 (overlay st m) = overlay (load_registers fp cfg a0 a1 st) m"
proof -
  let ?m = "splice (b_mem st) m" let ?cvt = "rx_cvt_packed_int_vec_f128 fp"
  have r: "for_range 0 RegistersCount (\<lambda>i r. r(i := r i XOR load64 ?m (a0 + 8 * i))) r0 =
      for_range 0 RegistersCount (\<lambda>i r. r(i := r i XOR load64 (b_mem st) (a0 + 8 * i))) r0" for r0
    by (rule for_range_cong) (simp add: splice_load_fns [OF assms(1)] RegistersCount_def)
  have f: "for_range 0 RegisterCountFlt (\<lambda>i f. f(i := ?cvt ?m (a1 + 8 * i))) f0 =
      for_range 0 RegisterCountFlt (\<lambda>i f. f(i := ?cvt (b_mem st) (a1 + 8 * i))) f0" for f0
    by (rule for_range_cong) (simp add: splice_load_fns [OF assms(2)] RegisterCountFlt_def RegistersCount_def)
  have e: "for_range 0 RegisterCountFlt (\<lambda>i e. e(i := maskRegisterExponentMantissa cfg (?cvt ?m (a1 + 8 * (RegisterCountFlt + i))))) e0 =
      for_range 0 RegisterCountFlt (\<lambda>i e. e(i := maskRegisterExponentMantissa cfg (?cvt (b_mem st) (a1 + 8 * (RegisterCountFlt + i))))) e0" for e0
    by (rule for_range_cong) (simp only: splice_load_fns [OF assms(2)] RegisterCountFlt_def RegistersCount_def)
  show ?thesis
    by (simp only: load_registers_def Let_def overlay_simps r f e)
qed

lemma store64_splice: "a + 8 \<le> ScratchpadSize \<Longrightarrow> store64 (splice m1 m) a v = splice (store64 m1 a v) m"
  by (rule splice_cells)

lemma store_registers_overlay:
  assumes "a0 + 64 \<le> ScratchpadSize" "a1 + 64 \<le> ScratchpadSize"
  shows "store_registers E flags a0 a1 (overlay st m) = overlay (store_registers E flags a0 a1 st) m"
proof -
  have r: "for_range 0 RegistersCount (\<lambda>i m. store64 m (a1 + 8 * i) (rr i)) (splice x m) =
      splice (for_range 0 RegistersCount (\<lambda>i m. store64 m (a1 + 8 * i) (rr i)) x) m" for rr x
    by (rule for_range_commute [where h = "\<lambda>x. splice x m", symmetric])
      (use assms in \<open>simp add: store64_splice config\<close>)
  have f: "for_range 0 RegisterCountFlt (\<lambda>i m. rx_store_vec_f128 m (a0 + 16 * i) (ff i)) (splice x m) =
      splice (for_range 0 RegisterCountFlt (\<lambda>i m. rx_store_vec_f128 m (a0 + 16 * i) (ff i)) x) m" for ff x
    by (rule for_range_commute [where h = "\<lambda>x. splice x m", symmetric])
      (use assms in \<open>simp add: store64_splice rx_store_vec_f128_def config\<close>)
  show ?thesis
    by (simp only: store_registers_def Let_def overlay_simps r f)
qed

definition over :: "mem \<Rightarrow> loop_state \<Rightarrow> loop_state" where
  "over m s = s\<lparr>l_st := overlay (l_st s) m\<rparr>"

lemma over_simps [simp]:
  "l_st (over m s) = overlay (l_st s) m" "l_mx (over m s) = l_mx s" "l_ma (over m s) = l_ma s"
  "l_spAddr0 (over m s) = l_spAddr0 s" "l_spAddr1 (over m s) = l_spAddr1 s"
  "over m \<lparr>l_st = st, l_mx = x, l_ma = y, l_spAddr0 = a, l_spAddr1 = b\<rparr> =
     \<lparr>l_st = overlay st m, l_mx = x, l_ma = y, l_spAddr0 = a, l_spAddr1 = b\<rparr>"
  by (simp_all add: over_def)

lemma next_addresses_bound:
  "next_addresses cfg s = (a0, a1) \<Longrightarrow> unat a0 + 64 \<le> ScratchpadSize \<and> unat a1 + 64 \<le> ScratchpadSize"
  by (auto simp: next_addresses_def Let_def pad_mask_bound)

lemma next_addresses_over [simp]: "next_addresses cfg (over m s) = next_addresses cfg s"
  by (simp add: next_addresses_def)

lemma iteration_over:
  assumes "code_ok code (program_size flags)"
  shows "iteration E cfg flags code off (over m s) = map_option (over m) (iteration E cfg flags code off s)"
proof -
  obtain a0 a1 where a: "next_addresses cfg s = (a0, a1)" by fastforce
  note bound = next_addresses_bound [OF a]
  let ?st = "load_registers (e_fp E) cfg (unat a0) (unat a1) (l_st s)"
  have run: "executeBytecode (e_fp E) cfg flags code (overlay ?st m) =
      map_run (\<lambda>s. overlay s m) (executeBytecode (e_fp E) cfg flags code ?st)"
    by (simp add: executeBytecode_def exec_loop_overlay [OF assms])
  show ?thesis
  proof (cases "executeBytecode (e_fp E) cfg flags code ?st")
    case (Finished st)
    obtain mx' ma' where "next_pointers cfg flags (b_r st) (l_mx s) (l_ma s) = (mx', ma')" by fastforce
    with Finished show ?thesis using bound
      by (cases "e_datasetRead E (off + ucast (l_ma s AND CacheLineAlignMask)) (b_r st)")
        (simp_all add: iteration_def a load_registers_overlay run store_registers_overlay Let_def)
  qed (use bound in \<open>simp_all add: iteration_def a load_registers_overlay run\<close>)
qed

section \<open>Values from entropy\<close>

lemma small_masks: "(1023 :: u64) = mask 10" "(2047 :: u64) = mask 11" "(15 :: u64) = mask 4"
  by (simp_all add: mask_eq_exp_minus_1)

lemma exponent_field: "unat (drop_bit 52 (push_bit 52 x OR m)) = unat x mod 4096"
  if "drop_bit 52 m = 0" for x m :: u64
proof -
  have "drop_bit 52 (push_bit 52 x OR m) = x AND mask 12"
  proof (rule bit_word_eqI)
    fix n assume "n < LENGTH(64)"
    have "\<not> bit m (52 + n)" 
    proof -
      have "bit (drop_bit 52 m) n = bit m (52 + n)" by (simp add: bit_drop_bit_eq)
      with that show ?thesis by simp
    qed
    then show "bit (drop_bit 52 (push_bit 52 x OR m)) n \<longleftrightarrow> bit (x AND mask 12) n"
      by (auto simp: bit_simps)
  qed
  then show ?thesis by (simp add: unat_and_mask)
qed

lemma mantissa_field: "drop_bit 52 (x AND mantissaMask) = 0"
proof -
  have m: "mantissaMask = mask 52" by (simp add: mantissaMask_def mantissaSize_def mask_eq_exp_minus_1)
  show ?thesis unfolding m by (rule bit_word_eqI) (simp add: bit_simps)
qed

text \<open>the floating-point registers of group A hold numbers from 1 to less than 2^32: the sign
  bit is clear and the biased exponent is between 1023 and 1054, whatever the entropy.\<close>

theorem group_a_range:
  "1023 \<le> unat (drop_bit 52 (getSmallPositiveFloatBits e)) \<and>
   unat (drop_bit 52 (getSmallPositiveFloatBits e)) \<le> 1054"
proof -
  let ?x = "(drop_bit 59 e + 1023) AND 2047"
  have d: "unat (drop_bit 59 e) < 32"
    using unat_u64_less [of e] by (simp add: unat_eq_drop_bit_div less_mult_imp_div_less)
  then have "unat (drop_bit 59 e + 1023) = unat (drop_bit 59 e) + 1023" by (simp add: unat_word_ariths)
  then have x: "unat ?x = unat (drop_bit 59 e) + 1023" using d by (simp add: small_masks unat_and_mask)
  have "getSmallPositiveFloatBits e = push_bit 52 ?x OR (e AND mantissaMask)"
    by (simp add: getSmallPositiveFloatBits_def Let_def exponentBias_def exponentMask_def exponentSize_def mantissaSize_def)
  with exponent_field [OF mantissa_field, of ?x e] x d show ?thesis by simp
qed

lemma static_exponent: "drop_bit 52 (getFloatMask e) = 0x300 OR push_bit 4 (drop_bit 60 e)"
proof -
  have c: "(0x300 :: u64) = push_bit 8 (mask 2)" by (simp add: mask_eq_exp_minus_1)
  have m: "(push_bit 22 1 - 1 :: u64) = mask 22" by (simp add: mask_eq_exp_minus_1)
  have eq: "getFloatMask e = (e AND mask 22) OR push_bit 52 (push_bit 8 (mask 2) OR push_bit 4 (drop_bit 60 e))"
    unfolding getFloatMask_def getStaticExponent_def Let_def constExponentBits_def mantissaSize_def
      staticExponentBits_def dynamicExponentBits_def m c by simp
  show ?thesis
  proof (rule bit_word_eqI)
    fix n assume "n < LENGTH(64)"
    have "bit e (56 + n) \<Longrightarrow> n < 8" using bit_imp_le_length [of e "56 + n"] by simp
    then show "bit (drop_bit 52 (getFloatMask e)) n \<longleftrightarrow> bit (0x300 OR push_bit 4 (drop_bit 60 e)) n"
      unfolding eq c by (auto simp: bit_simps add.commute)
  qed
qed

text \<open>A lane of the mask of the E registers, as \<open>initialize\<close> computes it.\<close>

lemma masked_lane_field:
  "drop_bit 52 ((x AND dynamicMantissaMask) OR getFloatMask e) =
     (drop_bit 52 x AND 15) OR (0x300 OR push_bit 4 (drop_bit 60 e))"
proof -
  have m: "dynamicMantissaMask = mask 56"
    by (simp add: dynamicMantissaMask_def mantissaSize_def dynamicExponentBits_def mask_eq_exp_minus_1)
  have "drop_bit 52 (x AND mask 56) = drop_bit 52 x AND (15 :: u64)"
    unfolding small_masks by (rule bit_word_eqI) (auto simp: bit_simps)
  then show ?thesis by (simp only: drop_bit_or static_exponent m)
qed

text \<open>every value loaded into the registers of group E is a positive normal number: with the
  masks that \<open>initialize\<close> derives from any entropy, the sign bit of both lanes is clear and the
  exponent field lies from 0x300 to 0x3ff, so that it is neither zero, denormal, infinite nor a
  NaN, for every input value.\<close>

theorem group_e_normal:
  "let v = maskRegisterExponentMantissa (vm_config (initialize vm)) x in
     0x300 \<le> unat (drop_bit 52 (fst v)) \<and> unat (drop_bit 52 (fst v)) \<le> 0x3ff \<and>
     0x300 \<le> unat (drop_bit 52 (snd v)) \<and> unat (drop_bit 52 (snd v)) \<le> 0x3ff"
proof -
  have range: "0x300 \<le> unat ((drop_bit 52 y AND 15) OR (0x300 OR push_bit 4 (drop_bit 60 e)))
      \<and> unat ((drop_bit 52 y AND 15) OR (0x300 OR push_bit 4 (drop_bit 60 e))) \<le> 0x3ff" for y e :: u64
  proof -
    let ?v = "(drop_bit 52 y AND 15) OR (0x300 OR push_bit 4 (drop_bit 60 e))"
    have "bit ?v n \<Longrightarrow> n < 10" for n
    proof -
      have e: "(0x300 :: u64) = push_bit 8 (mask 2)" by (simp add: mask_eq_exp_minus_1)
      show "bit ?v n \<Longrightarrow> n < 10"
        using bit_imp_le_length [of e "60 + (n - 4)"]
        unfolding small_masks e by (auto simp: bit_simps)
    qed
    then have "?v = ?v AND mask 10" by (intro bit_word_eqI) (auto simp: bit_and_iff bit_mask_iff)
    then have "unat ?v = unat ?v mod 2 ^ 10" by (metis unat_and_mask)
    moreover have "unat ?v mod 2 ^ 10 < 2 ^ 10" by (rule mod_less_divisor) simp
    ultimately have hi: "unat ?v \<le> 0x3ff" by simp
    have "(0x300 :: u64) = ?v AND 0x300" by (rule bit_word_eqI) (auto simp: bit_and_iff bit_or_iff)
    then have "unat (0x300 :: u64) \<le> unat ?v" by (metis unat_and_le2 and.commute)
    with hi show ?thesis by simp
  qed
  show ?thesis
    by (simp add: maskRegisterExponentMantissa_def initialize_def Let_def rx_or_vec_f128_def rx_and_vec_f128_def
        lanes2_def masked_lane_field range del: drop_bit_or drop_bit_and)
qed

section \<open>Dataset reads\<close>

lemma read_pointer:
  assumes "vm_ready vm"
  shows "unat (vm_datasetOffset vm + ucast (ma AND CacheLineAlignMask)) + 64 \<le> DatasetSize"
    "64 dvd unat (vm_datasetOffset vm + ucast (ma AND CacheLineAlignMask))"
proof -
  let ?x = "ma AND CacheLineAlignMask" and ?o = "vm_datasetOffset vm"
  have "unat ?x < 2 ^ 64" by (rule less_trans [OF unat_u32_less]) simp
  then have x: "unat (ucast ?x :: u64) = unat ?x" by (simp add: unsigned_ucast_eq take_bit_nat_eq_self)
  have b: "unat ?x + 64 \<le> 2147483648" "unat ?o \<le> 33554368"
    using line_mask_bound [of ma] assms
    by (simp_all add: vm_ready_def RANDOMX_DATASET_BASE_SIZE_def RANDOMX_DATASET_EXTRA_SIZE_def)
  then have sum: "unat (?o + ucast ?x) = unat ?o + unat ?x" by (simp add: unat_word_ariths x)
  show "unat (?o + ucast ?x) + 64 \<le> DatasetSize"
    using b by (simp add: sum DatasetSize_def RANDOMX_DATASET_BASE_SIZE_def RANDOMX_DATASET_EXTRA_SIZE_def)
  have "64 dvd unat ?x"
  proof -
    have "\<not> bit (CacheLineAlignMask :: u32) n" if "n < 6" for n
    proof -
      have m: "CacheLineAlignMask = push_bit 6 (mask 25)"
        by (simp add: CacheLineAlignMask_def config mask_eq_exp_minus_1)
      show ?thesis unfolding m using that by (simp add: bit_simps)
    qed
    then have "?x AND mask 6 = 0" by (intro bit_word_eqI) (auto simp: bit_and_iff bit_mask_iff)
    then have "unat ?x mod 2 ^ 6 = 0" by (metis unat_and_mask unat_0)
    then show ?thesis by (simp add: dvd_eq_mod_eq_0)
  qed
  then show "64 dvd unat (?o + ucast ?x)" using assms by (simp add: sum vm_ready_def)
qed


text \<open>A dataset that holds every item of a cache.\<close>

definition full_dataset :: "randomx_cache \<Rightarrow> randomx_dataset \<Rightarrow> bool" where
  "full_dataset c ds \<longleftrightarrow> (\<forall>n < DatasetSize div 64. initDatasetItem c (of_nat n) \<noteq> None \<and>
     line_at (ds_memory ds) (64 * n) (the (initDatasetItem c (of_nat n))))"

lemma light_read_eq:
  assumes "full_dataset c ds" "64 dvd unat a" "unat a + 64 \<le> DatasetSize"
  shows "datasetRead_light c a r = datasetRead ds a r"
proof -
  define n where "n = unat a div 64"
  have a: "unat a = 64 * n" using assms(2) by (simp add: n_def)
  have "DatasetSize = 64 * (DatasetSize div 64)" by (simp add: config)
  then have n: "n < DatasetSize div 64" using assms(3) a by linarith
  have small: "n < 4294967296" using n by (simp add: config)
  have "unat (a div 64) = n" by (simp add: unat_div n_def)
  then have item: "ucast (ucast (a div of_nat CacheLineSize) :: u32) = (of_nat n :: u64)"
    by (intro word_unat_eq_iff [THEN iffD2])
      (use small in \<open>simp add: config unsigned_ucast_eq unsigned_of_nat unsigned_take_bit_eq take_bit_nat_eq_self\<close>)
  obtain rl where rl: "initDatasetItem c (of_nat n) = Some rl" "line_at (ds_memory ds) (64 * n) rl"
    using assms(1) n by (auto simp: full_dataset_def)
  have "for_range 0 8 (\<lambda>q r. r(q := r q XOR rl q)) r =
      for_range 0 8 (\<lambda>i r. r(i := r i XOR load64 (ds_memory ds) (unat a + 8 * i))) r"
    by (rule for_range_cong) (use rl(2) in \<open>simp add: line_at_def a\<close>)
  then show ?thesis by (simp add: datasetRead_light_def datasetRead_def Let_def item rl(1) RegistersCount_def)
qed

text \<open>Only reads of aligned lines inside the dataset matter to a run.\<close>

definition reads_agree :: "(u64 \<Rightarrow> (nat \<Rightarrow> u64) \<Rightarrow> (nat \<Rightarrow> u64) option) \<Rightarrow> (u64 \<Rightarrow> (nat \<Rightarrow> u64) \<Rightarrow> (nat \<Rightarrow> u64) option) \<Rightarrow> bool" where
  "reads_agree f g \<longleftrightarrow> (\<forall>a r. 64 dvd unat a \<longrightarrow> unat a + 64 \<le> DatasetSize \<longrightarrow> f a r = g a r)"

lemma run_reads_agree:
  assumes "reads_agree (e_datasetRead E) f"
  shows "run junk (E\<lparr>e_datasetRead := f\<rparr>) seed vm = run junk E seed vm"
proof -
  let ?E = "E\<lparr>e_datasetRead := f\<rparr>" let ?v = "initialize (generateProgram E seed vm)"
  have read: "e_datasetRead E (vm_datasetOffset ?v + ucast (ma AND CacheLineAlignMask)) r =
      f (vm_datasetOffset ?v + ucast (ma AND CacheLineAlignMask)) r" for ma r
    using assms read_pointer [OF initialize_ready] by (simp add: reads_agree_def)
  have "iteration ?E cfg flags code (vm_datasetOffset ?v) = iteration E cfg flags code (vm_datasetOffset ?v)" for cfg flags code
  proof
    fix s
    have store: "store_registers ?E = store_registers E" by (intro ext) (simp add: store_registers_def)
    show "iteration ?E cfg flags code (vm_datasetOffset ?v) s = iteration E cfg flags code (vm_datasetOffset ?v) s"
      unfolding iteration_def store Let_def by (simp add: read split: prod.splits run.splits)
  qed
  moreover have "generateProgram ?E seed vm = generateProgram E seed vm" by (simp add: generateProgram_def)
  ultimately show ?thesis unfolding run_def execute_def by (simp only:)
qed

end
