(* ===== verification/VM_Runs.thy ===== *)
theory VM_Runs
  imports VM_Facts
begin

text \<open>
  A run of the virtual machine always ends and is a function of its seed, the scratchpad, the
  version flag, the rounding mode and the dataset: nothing of the registers, the program, the
  bytecode or the memory outside the scratchpad that earlier runs left matters.
\<close>

section \<open>Runs do not depend on earlier runs\<close>

lemma for_range_assign: "for_range 0 n (\<lambda>i f. f(i := c i)) f0 = (\<lambda>i. if i < n then c i else f0 i)"
  by (induction n) (auto simp: fun_eq_iff less_Suc_eq)

definition start_loop :: "(nat \<Rightarrow> vec128) \<times> (nat \<Rightarrow> vec128) \<Rightarrow> randomx_vm \<Rightarrow> loop_state" where
  "start_loop junk vm =
    \<lparr>l_st = \<lparr>b_r = (\<lambda>_. 0), b_f = array4 (fst junk), b_e = array4 (snd junk),
       b_a = array4 (\<lambda>i. rx_load_vec_f128 (vm_reg vm) (reg_a + 16 * i)), b_mem = vm_scratchpad vm, b_rm = vm_rm vm\<rparr>,
     l_mx = vm_mx vm, l_ma = vm_ma vm, l_spAddr0 = vm_mx vm, l_spAddr1 = vm_ma vm\<rparr>"

definition write_back :: "randomx_vm \<Rightarrow> InstructionByteCode list \<Rightarrow> loop_state \<Rightarrow> randomx_vm" where
  "write_back vm code s =
    (let st = l_st s;
         m = for_range 0 RegistersCount (\<lambda>i m. store64 m (reg_r + 8 * i) (b_r st i)) (vm_reg vm);
         m = for_range 0 RegisterCountFlt (\<lambda>i m. rx_store_vec_f128 m (reg_f + 16 * i) (b_f st i)) m;
         m = for_range 0 RegisterCountFlt (\<lambda>i m. rx_store_vec_f128 m (reg_e + 16 * i) (b_e st i)) m
     in vm\<lparr>vm_reg := m, vm_mx := l_mx s, vm_ma := l_ma s, vm_scratchpad := b_mem st,
          vm_rm := b_rm st, vm_bytecode := code\<rparr>)"

definition loop :: "env \<Rightarrow> randomx_vm \<Rightarrow> InstructionByteCode list \<Rightarrow> nat \<Rightarrow> loop_state option \<Rightarrow> loop_state option" where
  "loop E vm code n = for_range 0 n
     (\<lambda>ic s. Option.bind s (iteration E (vm_config vm) (vm_flags vm) code (vm_datasetOffset vm)))"

lemma execute_eq:
  "execute junk E vm =
    Option.bind (compileProgram (program_of (vm_program vm)) (vm_bytecode vm) (vm_flags vm))
      (\<lambda>code. map_option (write_back vm code) (loop E vm code RANDOMX_PROGRAM_ITERATIONS (Some (start_loop junk vm))))"
  by (simp add: execute_def start_loop_def write_back_def loop_def Let_def split: option.splits bind_splits)

lemma loop_Suc: "loop E vm code (Suc n) s =
    Option.bind (loop E vm code n s) (iteration E (vm_config vm) (vm_flags vm) code (vm_datasetOffset vm))"
  by (simp add: loop_def)

lemma loop_total:
  assumes "code_ok code (program_size (vm_flags vm))" "\<And>a r. e_datasetRead E a r \<noteq> None"
  shows "loop E vm code n (Some s) \<noteq> None"
proof (induction n)
  case (Suc n)
  then obtain s1 where s1: "loop E vm code n (Some s) = Some s1" by auto
  obtain a0 a1 where a: "next_addresses (vm_config vm) s1 = (a0, a1)" by fastforce
  let ?st = "load_registers (e_fp E) (vm_config vm) (unat a0) (unat a1) (l_st s1)"
  obtain st where st: "executeBytecode (e_fp E) (vm_config vm) (vm_flags vm) code ?st = Finished st"
    using exec_loop_finishes [OF assms(1), of "e_fp E" "vm_config vm" "vm_flags vm" ?st] by (auto simp: executeBytecode_def)
  obtain r' where "e_datasetRead E (vm_datasetOffset vm + ucast (l_ma s1 AND CacheLineAlignMask)) (b_r st) = Some r'"
    using assms(2) by blast
  with a st show ?case
    by (simp add: loop_Suc s1 iteration_def Let_def split: prod.splits)
qed (simp add: loop_def)

text \<open>The first iteration overwrites what the uninitialised registers held.\<close>

lemma load_registers_junk:
  assumes "\<And>i. 4 \<le> i \<Longrightarrow> f i = f' i" "\<And>i. 4 \<le> i \<Longrightarrow> e i = e' i"
  shows "load_registers fp cfg a0 a1 (st\<lparr>b_f := f, b_e := e\<rparr>) = load_registers fp cfg a0 a1 (st\<lparr>b_f := f', b_e := e'\<rparr>)"
proof -
  have "(\<lambda>i. if i < RegisterCountFlt then c i else f i) = (\<lambda>i. if i < RegisterCountFlt then c i else f' i)"
    "(\<lambda>i. if i < RegisterCountFlt then c i else e i) = (\<lambda>i. if i < RegisterCountFlt then c i else e' i)" for c
    using assms by (auto simp: fun_eq_iff RegisterCountFlt_def RegistersCount_def)
  then show ?thesis by (simp add: load_registers_def Let_def for_range_assign)
qed

text \<open>Two machines in which a run has the same effect: all that it reads agrees.\<close>

definition same_inputs :: "randomx_vm \<Rightarrow> randomx_vm \<Rightarrow> bool" where
  "same_inputs v w \<longleftrightarrow> vm_flags v = vm_flags w \<and> vm_rm v = vm_rm w \<and>
     (\<forall>i < ScratchpadSize. vm_scratchpad v i = vm_scratchpad w i) \<and>
     program_size (vm_flags v) \<le> length (vm_bytecode v) \<and> program_size (vm_flags w) \<le> length (vm_bytecode w)"

definition same_program :: "randomx_vm \<Rightarrow> randomx_vm \<Rightarrow> bool" where
  "same_program v w \<longleftrightarrow> program_of (vm_program v) = program_of (vm_program w) \<and> vm_config v = vm_config w \<and>
     vm_mx v = vm_mx w \<and> vm_ma v = vm_ma w \<and> vm_datasetOffset v = vm_datasetOffset w \<and>
     (\<forall>i. reg_a \<le> i \<and> i < RegisterFileSize \<longrightarrow> vm_reg v i = vm_reg w i)"

lemma iteration_same_code:
  assumes "\<And>j. j < program_size flags \<Longrightarrow> same_ibc (c ! j) (d ! j)"
    "program_size flags \<le> length c" "program_size flags \<le> length d"
  shows "iteration E cfg flags c off = iteration E cfg flags d off"
  by (rule ext) (simp add: iteration_def executeBytecode_def exec_loop_same [OF assms])

lemma iteration_junk:
  assumes "l_mx s = l_mx s'" "l_ma s = l_ma s'" "l_spAddr0 s = l_spAddr0 s'" "l_spAddr1 s = l_spAddr1 s'"
    "b_r (l_st s) = b_r (l_st s')"
    "\<And>a0 a1. load_registers (e_fp E) cfg a0 a1 (l_st s) = load_registers (e_fp E) cfg a0 a1 (l_st s')"
  shows "iteration E cfg flags c off s = iteration E cfg flags c off s'"
proof -
  have "next_addresses cfg s = next_addresses cfg s'" using assms(3,4,5) by (simp add: next_addresses_def)
  then show ?thesis unfolding iteration_def assms by (simp only:)
qed

lemma splice_eq: "(\<And>i. i < ScratchpadSize \<Longrightarrow> m i = m' i) \<Longrightarrow> splice m z = splice m' z"
  by (auto simp: splice_def)

lemma start_registers:
  assumes "same_inputs v w" "same_program v w"
  shows "load_registers fp cfg a0 a1 (l_st (over z (start_loop junk v))) =
    load_registers fp cfg a0 a1 (l_st (over z (start_loop junk' w)))"
proof -
  have mem: "splice (vm_scratchpad v) z = splice (vm_scratchpad w) z"
    using assms(1) by (auto simp: same_inputs_def intro: splice_eq)
  have "rx_load_vec_f128 (vm_reg v) (reg_a + 16 * i) = rx_load_vec_f128 (vm_reg w) (reg_a + 16 * i)" if "i < 4" for i
    unfolding rx_load_vec_f128_def
    by (intro arg_cong2 [of _ _ _ _ Pair] c64.load_cong) (use assms(2) that in \<open>auto simp: same_program_def config\<close>)
  then have a: "array4 (\<lambda>i. rx_load_vec_f128 (vm_reg v) (reg_a + 16 * i)) = array4 (\<lambda>i. rx_load_vec_f128 (vm_reg w) (reg_a + 16 * i))"
    by (auto simp: array4_def fun_eq_iff RegisterCountFlt_def RegistersCount_def)
  let ?s = "\<lambda>x. \<lparr>b_r = (\<lambda>_. 0), b_f = undefined, b_e = undefined, b_a = array4 (\<lambda>i. rx_load_vec_f128 (vm_reg x) (reg_a + 16 * i)),
      b_mem = splice (vm_scratchpad x) z, b_rm = vm_rm x\<rparr>"
  have st: "l_st (over z (start_loop j x)) = (?s x)\<lparr>b_f := array4 (fst j), b_e := array4 (snd j)\<rparr>" for j x
    by (simp add: over_def overlay_def start_loop_def)
  have "?s v = ?s w" using assms(1) mem a by (simp add: same_inputs_def)
  then show ?thesis
    unfolding st
    by (simp only:, intro load_registers_junk) (simp_all add: array4_def RegisterCountFlt_def RegistersCount_def)
qed

lemma loop_over:
  assumes "code_ok code (program_size (vm_flags vm))"
  shows "map_option (over z) (loop E vm code n s) = loop E vm code n (map_option (over z) s)"
proof (induction n)
  case (Suc n)
  show ?case
    by (cases "loop E vm code n s")
      (simp_all add: loop_Suc iteration_over [OF assms] flip: Suc.IH)
qed (simp add: loop_def)

lemma loop_same:
  assumes "same_inputs v w" "same_program v w"
    "code_ok c (program_size (vm_flags v))" "code_ok d (program_size (vm_flags v))"
    "\<And>j. j < program_size (vm_flags v) \<Longrightarrow> same_ibc (c ! j) (d ! j)"
    "program_size (vm_flags v) \<le> length c" "program_size (vm_flags v) \<le> length d" "0 < n"
  shows "map_option (over z) (loop E v c n (Some (start_loop junk v))) =
    map_option (over z) (loop E w d n (Some (start_loop junk' w)))"
proof -
  have same: "vm_config v = vm_config w" "vm_flags v = vm_flags w" "vm_datasetOffset v = vm_datasetOffset w"
      "vm_mx v = vm_mx w" "vm_ma v = vm_ma w"
    using assms(1,2) by (auto simp: same_inputs_def same_program_def)
  have code: "iteration E (vm_config v) (vm_flags v) c off = iteration E (vm_config w) (vm_flags w) d off" for off
    unfolding same by (rule iteration_same_code) (use assms(5,6,7) same in simp_all)
  have first: "iteration E (vm_config v) (vm_flags v) c off (over z (start_loop junk v)) =
      iteration E (vm_config v) (vm_flags v) c off (over z (start_loop junk' w))" for off
  proof (rule iteration_junk)
    show "load_registers (e_fp E) (vm_config v) a0 a1 (l_st (over z (start_loop junk v))) =
        load_registers (e_fp E) (vm_config v) a0 a1 (l_st (over z (start_loop junk' w)))" for a0 a1
      by (rule start_registers [OF assms(1,2)])
  qed (simp_all add: start_loop_def same)
  have "loop E v c n (Some (over z (start_loop junk v))) = loop E w d n (Some (over z (start_loop junk' w)))"
    using assms(8)
  proof (induction n rule: nat_induct_non_zero)
    case 1
    show ?case using first code by (simp add: loop_def same)
  next
    case (Suc n)
    then show ?case using code by (simp add: loop_Suc same)
  qed
  moreover have "code_ok d (program_size (vm_flags w))" using assms(4) same by simp
  ultimately show ?thesis by (simp add: loop_over [OF assms(3)] loop_over)
qed

section \<open>The register file after a run\<close>

definition agree :: "nat set \<Rightarrow> mem \<Rightarrow> mem \<Rightarrow> bool" where
  "agree S m m' \<longleftrightarrow> (\<forall>i\<in>S. m i = m' i)"

lemma agree_store64: "agree S m m' \<Longrightarrow> agree (S \<union> {a..<a + 8}) (store64 m a v) (store64 m' a v)"
  unfolding agree_def
  by (metis UnE atLeastLessThan_iff c64.store_inside c64.store_outside linorder_not_le)

lemma agree_subset: "agree S m m' \<Longrightarrow> T \<subseteq> S \<Longrightarrow> agree T m m'"
  by (auto simp: agree_def)

lemma agree_store_vec:
  "agree S m m' \<Longrightarrow> agree (S \<union> {a..<a + 16}) (rx_store_vec_f128 m a v) (rx_store_vec_f128 m' a v)"
  unfolding rx_store_vec_f128_def
  by (rule agree_subset [OF agree_store64 [OF agree_store64]]) auto

lemma agree_range:
  assumes step: "\<And>S m m' i. agree S m m' \<Longrightarrow> agree (S \<union> {a + w * i..<a + w * i + w}) (f i m) (f i m')"
    and "agree S m m'"
  shows "agree (S \<union> {a..<a + w * n}) (for_range 0 n f m) (for_range 0 n f m')"
proof (induction n)
  case (Suc n)
  have "agree (S \<union> {a..<a + w * n} \<union> {a + w * n..<a + w * n + w}) (f n (for_range 0 n f m)) (f n (for_range 0 n f m'))"
    by (rule step [OF Suc])
  then have "agree (S \<union> {a..<a + w * Suc n}) (f n (for_range 0 n f m)) (f n (for_range 0 n f m'))"
    by (rule agree_subset) auto
  then show ?case by simp
qed (use assms(2) in simp)

lemma write_back_reg:
  assumes "\<forall>i. reg_a \<le> i \<and> i < RegisterFileSize \<longrightarrow> vm_reg v i = vm_reg w i"
    "b_r (l_st s) = b_r (l_st t)" "b_f (l_st s) = b_f (l_st t)" "b_e (l_st s) = b_e (l_st t)"
  shows "agree {0..<RegisterFileSize} (vm_reg (write_back v c s)) (vm_reg (write_back w d t))"
proof -
  have a: "agree {reg_a..<RegisterFileSize} (vm_reg v) (vm_reg w)" using assms(1) by (auto simp: agree_def)
  note r = agree_range [of reg_r 8 "\<lambda>i m. store64 m (reg_r + 8 * i) (b_r (l_st t) i)", OF agree_store64 a, of RegistersCount]
  note f = agree_range [of reg_f 16 "\<lambda>i m. rx_store_vec_f128 m (reg_f + 16 * i) (b_f (l_st t) i)", OF agree_store_vec r, of RegisterCountFlt]
  note e = agree_range [of reg_e 16 "\<lambda>i m. rx_store_vec_f128 m (reg_e + 16 * i) (b_e (l_st t) i)", OF agree_store_vec f, of RegisterCountFlt]
  have "{0..<RegisterFileSize} \<subseteq> {reg_a..<RegisterFileSize} \<union> {reg_r..<reg_r + 8 * RegistersCount}
      \<union> {reg_f..<reg_f + 16 * RegisterCountFlt} \<union> {reg_e..<reg_e + 16 * RegisterCountFlt}"
    by (auto simp: config)
  from agree_subset [OF e this] show ?thesis by (simp add: write_back_def Let_def assms(2-4))
qed

section \<open>Runs are deterministic\<close>

lemma over_eq_fields:
  assumes "over z s = over z t"
  shows "b_r (l_st s) = b_r (l_st t)" "b_f (l_st s) = b_f (l_st t)" "b_e (l_st s) = b_e (l_st t)"
    "b_rm (l_st s) = b_rm (l_st t)" "i < ScratchpadSize \<Longrightarrow> b_mem (l_st s) i = b_mem (l_st t) i"
proof -
  have st: "overlay (l_st s) z = overlay (l_st t) z" using assms by (metis over_simps(1))
  then show "b_r (l_st s) = b_r (l_st t)" "b_f (l_st s) = b_f (l_st t)" "b_e (l_st s) = b_e (l_st t)"
    "b_rm (l_st s) = b_rm (l_st t)" by (metis overlay_simps(1), metis overlay_simps(2), metis overlay_simps(3), metis overlay_simps(5))
  have "splice (b_mem (l_st s)) z i = splice (b_mem (l_st t)) z i" using st by (metis overlay_simps(6))
  then show "i < ScratchpadSize \<Longrightarrow> b_mem (l_st s) i = b_mem (l_st t) i" by (simp add: splice_def)
qed

lemma execute_same:
  assumes "same_inputs v w" "same_program v w" "\<And>a r. e_datasetRead E a r \<noteq> None"
  shows "\<exists>v' w'. execute junk E v = Some v' \<and> execute junk' E w = Some w' \<and> same_inputs v' w' \<and>
    reg_bytes v' = reg_bytes w' \<and> vm_flags v' = vm_flags v"
proof -
  let ?n = "program_size (vm_flags v)"
  have flags: "vm_flags w = vm_flags v" and prog: "program_of (vm_program w) = program_of (vm_program v)"
    and len: "?n \<le> length (vm_bytecode v)" "?n \<le> length (vm_bytecode w)"
    using assms(1,2) by (auto simp: same_inputs_def same_program_def)
  obtain c where c: "compileProgram (program_of (vm_program v)) (vm_bytecode v) (vm_flags v) = Some c"
      "length c = length (vm_bytecode v)" "code_ok c ?n"
    using compileProgram_code_ok [OF len(1)] by blast
  obtain d where d: "compileProgram (program_of (vm_program w)) (vm_bytecode w) (vm_flags w) = Some d"
      "length d = length (vm_bytecode w)" "\<forall>j < ?n. same_ibc (c ! j) (d ! j)"
    using compileProgram_stale [OF len c(1)] by (auto simp: flags prog)
  have ok_d: "code_ok d ?n"
    using compileProgram_code_ok [of "vm_flags w" "vm_bytecode w" "program_of (vm_program w)"] len d(1) by (simp add: flags)
  let ?N = "RANDOMX_PROGRAM_ITERATIONS"
  obtain s where s: "loop E v c ?N (Some (start_loop junk v)) = Some s"
    using loop_total [OF c(3) assms(3)] by fastforce
  obtain t where t: "loop E w d ?N (Some (start_loop junk' w)) = Some t"
    using loop_total [of d w E ?N "start_loop junk' w"] ok_d assms(3) flags by fastforce
  have "map_option (over (\<lambda>_. 0)) (Some s) = map_option (over (\<lambda>_. 0)) (Some t)"
    unfolding s [symmetric] t [symmetric]
    by (rule loop_same [OF assms(1,2) c(3) ok_d]) (use d c(2) len in \<open>simp_all add: RANDOMX_PROGRAM_ITERATIONS_def\<close>)
  then have eq: "over (\<lambda>_. 0) s = over (\<lambda>_. 0) t" by simp
  note fields = over_eq_fields [OF eq]
  have "agree {0..<RegisterFileSize} (vm_reg (write_back v c s)) (vm_reg (write_back w d t))"
    by (rule write_back_reg) (use assms(2) fields in \<open>auto simp: same_program_def\<close>)
  then have "reg_bytes (write_back v c s) = reg_bytes (write_back w d t)"
    unfolding reg_bytes_def by (intro read_bytes_cong) (simp add: agree_def)
  moreover have "same_inputs (write_back v c s) (write_back w d t)"
    using assms(1) fields c(2) d(2) len by (simp add: same_inputs_def write_back_def Let_def flags)
  ultimately show ?thesis
    using s t c(1) d(1) by (simp add: execute_eq) (simp add: write_back_def Let_def)
qed

lemma agree_load64: "agree S m m' \<Longrightarrow> {a..<a + 8} \<subseteq> S \<Longrightarrow> load64 m a = load64 m' a"
  by (rule c64.load_cong) (auto simp: agree_def)

lemma generateProgram_agree:
  assumes "load_lanes seed 0 = load_lanes seed' 0"
  shows "agree {0..<ProgramBytes} (vm_program (generateProgram E seed v)) (vm_program (generateProgram E seed' w))"
proof -
  have size: "ProgramBytes = 64 * 50" by (simp add: ProgramBytes_def RANDOMX_PROGRAM_MAX_SIZE_def)
  show ?thesis
    unfolding agree_def generateProgram_def size using fill_determined [OF assms, of _ 50]
    by (simp add: fillAes4Rx4_def)
qed

lemma initialize_same:
  assumes p: "agree {0..<ProgramBytes} (vm_program v) (vm_program w)"
  shows "same_program (initialize v) (initialize w)"
proof -
  have size: "ProgramBytes = 3200" by (simp add: ProgramBytes_def RANDOMX_PROGRAM_MAX_SIZE_def)
  have ent: "getEntropy (vm_program v) i = getEntropy (vm_program w) i" if "i < 16" for i
    unfolding getEntropy_def by (rule agree_load64 [OF p]) (use that size in auto)
  have "instruction_at (vm_program v) pc = instruction_at (vm_program w) pc" if "pc < 384" for pc
  proof -
    have "load32 (vm_program v) (128 + 8 * pc + 4) = load32 (vm_program w) (128 + 8 * pc + 4)"
      by (rule c32.load_cong) (use p that size in \<open>auto simp: agree_def\<close>)
    then show ?thesis using p that size by (simp add: instruction_at_def Let_def agree_def)
  qed
  then have prog: "program_of (vm_program v) = program_of (vm_program w)"
    by (simp add: program_of_def RANDOMX_PROGRAM_MAX_SIZE_def)
  let ?f = "\<lambda>x i m. store64 m (reg_a + 8 * i) (getSmallPositiveFloatBits (getEntropy (vm_program x) i))"
  have "for_range 0 8 (?f v) m = for_range 0 8 (?f w) m" for m
    by (rule for_range_cong) (simp add: ent)
  moreover have "agree ({} \<union> {reg_a..<reg_a + 8 * 8}) (for_range 0 8 (?f w) (vm_reg v)) (for_range 0 8 (?f w) (vm_reg w))"
    by (rule agree_range [of reg_a 8]) (auto intro: agree_store64, simp add: agree_def)
  ultimately have "agree {reg_a..<RegisterFileSize} (for_range 0 8 (?f v) (vm_reg v)) (for_range 0 8 (?f w) (vm_reg w))"
    by (simp add: config)
  then show ?thesis
    by (simp add: same_program_def initialize_def Let_def ent prog agree_def)
qed

lemma run_same:
  assumes "same_inputs v w" "load_lanes seed 0 = load_lanes seed' 0" "\<And>a r. e_datasetRead E a r \<noteq> None"
  shows "\<exists>v' w'. run junk E seed v = Some v' \<and> run junk' E seed' w = Some w' \<and> same_inputs v' w' \<and>
    reg_bytes v' = reg_bytes w' \<and> vm_flags v' = vm_flags v"
proof -
  let ?v = "initialize (generateProgram E seed v)" let ?w = "initialize (generateProgram E seed' w)"
  have "same_inputs ?v ?w" using assms(1) by (auto simp: same_inputs_def initialize_def generateProgram_def Let_def)
  moreover have "same_program ?v ?w" by (rule initialize_same [OF generateProgram_agree [OF assms(2)]])
  moreover have "vm_flags ?v = vm_flags v" by (simp add: initialize_def generateProgram_def Let_def)
  ultimately show ?thesis using execute_same [OF _ _ assms(3), of ?v ?w junk junk'] by (simp add: run_def)
qed

section \<open>Scratchpad and result\<close>

lemma scratchpad_blocks: "ScratchpadSize = 64 * 32768"
  by (simp add: config)

lemma initScratchpad_same:
  assumes "load_lanes seed 0 = load_lanes seed' 0" "initScratchpad E seed v = (s, v')" "initScratchpad E seed' w = (s', w')"
  shows "load_lanes s 0 = load_lanes s' 0" "\<forall>i < ScratchpadSize. vm_scratchpad v' i = vm_scratchpad w' i"
proof -
  let ?run = "\<lambda>seed m. fill_loop (gen_1R (e_softAes E) (e_hw E)) 0 (64 * 32768) (load_lanes seed 0) m"
  have v': "s = store_lanes seed 0 (fst (?run seed (vm_scratchpad v)))" "vm_scratchpad v' = snd (?run seed (vm_scratchpad v))"
    using assms(2) by (auto simp: initScratchpad_def fillAes1Rx4_def scratchpad_blocks split: prod.splits)
  have w': "s' = store_lanes seed' 0 (fst (?run seed' (vm_scratchpad w)))" "vm_scratchpad w' = snd (?run seed' (vm_scratchpad w))"
    using assms(3) by (auto simp: initScratchpad_def fillAes1Rx4_def scratchpad_blocks split: prod.splits)
  show "load_lanes s 0 = load_lanes s' 0"
    using fill_loop_blocks [of "gen_1R (e_softAes E) (e_hw E)" 0 32768] assms(1)
    by (simp add: v' w' c512.load_store_same)
  show "\<forall>i < ScratchpadSize. vm_scratchpad v' i = vm_scratchpad w' i"
    unfolding v' w' scratchpad_blocks using fill_determined [OF assms(1)] by blast
qed

lemma hash_loop_agree:
  "(\<And>i. i < 64 * n \<Longrightarrow> m i = m' i) \<Longrightarrow> hash_loop soft hw m 0 (64 * n) s = hash_loop soft hw m' 0 (64 * n) s"
proof -
  assume same: "\<And>i. i < 64 * n \<Longrightarrow> m i = m' i"
  have "hash_loop soft hw m (64 * k) (64 * n) s = hash_loop soft hw m' (64 * k) (64 * n) s" if "k \<le> n" for k s
    using that
  proof (induction "n - k" arbitrary: k s)
    case (Suc r)
    then have k: "64 * k < 64 * n" "r = n - Suc k" "Suc k \<le> n" by auto
    have "load_lanes m (64 * k) = load_lanes m' (64 * k)"
      by (rule c512.load_cong) (use same k(3) in auto)
    moreover have "64 * k + 64 = 64 * Suc k" by simp
    ultimately show ?case using Suc.hyps(1) [OF k(2,3)] by (simp only: hash_loop_step [OF k(1)])
  qed simp
  from this [of 0 s] show ?thesis by simp
qed

lemma reg_bytes_set_a:
  assumes "reg_bytes v = reg_bytes w"
  shows "reg_bytes (v\<lparr>vm_reg := set_reg_a (vm_reg v) h\<rparr>) = reg_bytes (w\<lparr>vm_reg := set_reg_a (vm_reg w) h\<rparr>)"
proof -
  have same: "vm_reg v i = vm_reg w i" if "i < RegisterFileSize" for i
    using arg_cong [OF assms, of "\<lambda>l. l ! i"] that by (simp add: reg_bytes_def read_bytes_def)
  show ?thesis
    unfolding reg_bytes_def
  proof (rule read_bytes_cong)
    fix i assume "i < 0 + RegisterFileSize"
    then show "vm_reg (v\<lparr>vm_reg := set_reg_a (vm_reg v) h\<rparr>) i = vm_reg (w\<lparr>vm_reg := set_reg_a (vm_reg w) h\<rparr>) i"
      using same [of i] by (simp add: set_reg_a_def write_bytes_def)
  qed
qed

lemma blake2b_defined: "n \<noteq> 0 \<Longrightarrow> n \<le> 64 \<Longrightarrow> \<exists>out. blake2b n inp [] = Some out \<and> length out = n"
  by (rule blake2b_some) auto

lemma getFinalResult_same:
  assumes "same_inputs v w" "reg_bytes v = reg_bytes w" "0 < n" "n \<le> 64"
  shows "\<exists>out v' w'. getFinalResult E n v = Some (out, v') \<and> getFinalResult E n w = Some (out, w')"
proof -
  have h: "hashAes1Rx4 (e_softAes E) (e_hw E) (vm_scratchpad v) ScratchpadSize x =
      hashAes1Rx4 (e_softAes E) (e_hw E) (vm_scratchpad w) ScratchpadSize x" for x
  proof -
    have "vm_scratchpad v i = vm_scratchpad w i" if "i < 64 * 32768" for i
      using assms(1) that [folded scratchpad_blocks] unfolding same_inputs_def by blast
    then show ?thesis
      unfolding hashAes1Rx4_def scratchpad_blocks by (simp only: hash_loop_agree [of 32768 "vm_scratchpad v" "vm_scratchpad w"])
  qed
  show ?thesis
    using blake2b_defined [of n] assms(3,4) reg_bytes_set_a [OF assms(2)]
    by (fastforce simp: getFinalResult_def Let_def h)
qed

end
