(* ===== verification/Hashing.thy ===== *)
theory Hashing
  imports VM_Runs
begin

text \<open>
  The hash functions of \<^verbatim>\<open>randomx.cpp\<close>: \<^verbatim>\<open>randomx_calculate_hash\<close>, its pipelined form
  \<^verbatim>\<open>first\<close>, \<^verbatim>\<open>next\<close>, \<^verbatim>\<open>last\<close>, and \<^verbatim>\<open>randomx_calculate_commitment\<close>. The argument
  \<open>junk\<close> gives, for each of the eight programs, what the uninitialised registers hold. \<open>None\<close>
  is undefined behaviour or a failed \<^verbatim>\<open>assert\<close>.
\<close>

section \<open>Functions\<close>

type_synonym junk = "nat \<Rightarrow> (nat \<Rightarrow> vec128) \<times> (nat \<Rightarrow> vec128)"

text \<open>\<^verbatim>\<open>blake2b(tempHash, 64, data, ...)\<close> into a buffer of eight words.\<close>

definition blake_into :: "mem \<Rightarrow> u8 list \<Rightarrow> mem option" where
  "blake_into t data = map_option (write_bytes t 0) (blake2b 64 data [])"

text \<open>One round of the loop over the first programs of the chain.\<close>

definition chain_step :: "junk \<Rightarrow> env \<Rightarrow> nat \<Rightarrow> (mem \<times> randomx_vm) option \<Rightarrow> (mem \<times> randomx_vm) option" where
  "chain_step junk E chain s =
    (case s of None \<Rightarrow> None
     | Some (t, vm) \<Rightarrow> (case run (junk chain) E t vm of None \<Rightarrow> None
         | Some vm' \<Rightarrow> map_option (\<lambda>t'. (t', vm')) (blake_into t (reg_bytes vm'))))"

definition run_chain :: "junk \<Rightarrow> env \<Rightarrow> mem \<Rightarrow> randomx_vm \<Rightarrow> (mem \<times> randomx_vm) option" where
  "run_chain junk E t vm =
    (case for_range 0 (RANDOMX_PROGRAM_COUNT - 1) (chain_step junk E) (Some (t, vm)) of None \<Rightarrow> None
     | Some (t', vm') \<Rightarrow>
         map_option (Pair t') (run (junk (RANDOMX_PROGRAM_COUNT - 1)) E t' vm'))"

text \<open>The local \<^verbatim>\<open>tempHash\<close> is not initialised: its start value is an argument. The
  floating-point state of the caller is restored.\<close>

definition randomx_calculate_hash :: "junk \<Rightarrow> mem \<Rightarrow> env \<Rightarrow> randomx_vm \<Rightarrow> u8 list \<Rightarrow> (u8 list \<times> randomx_vm) option" where
  "randomx_calculate_hash junk local E machine input =
    (case blake_into local input of None \<Rightarrow> None
     | Some t \<Rightarrow>
       let fpstate = vm_rm machine; (t, machine) = initScratchpad E t machine;
           machine = resetRoundingMode machine
       in (case run_chain junk E t machine of None \<Rightarrow> None
           | Some (t, machine) \<Rightarrow>
               map_option (\<lambda>(out, machine). (out, machine\<lparr>vm_rm := fpstate\<rparr>))
                 (getFinalResult E RANDOMX_HASH_SIZE machine)))"

definition randomx_calculate_hash_first :: "env \<Rightarrow> randomx_vm \<Rightarrow> u8 list \<Rightarrow> randomx_vm option" where
  "randomx_calculate_hash_first E machine input =
    (case blake_into (vm_tempHash machine) input of None \<Rightarrow> None
     | Some t \<Rightarrow> (case initScratchpad E t machine of
         (t', machine') \<Rightarrow> Some (machine'\<lparr>vm_tempHash := t'\<rparr>)))"

definition randomx_calculate_hash_next :: "junk \<Rightarrow> env \<Rightarrow> randomx_vm \<Rightarrow> u8 list \<Rightarrow> (u8 list \<times> randomx_vm) option" where
  "randomx_calculate_hash_next junk E machine nextInput =
    (case run_chain junk E (vm_tempHash machine) (resetRoundingMode machine) of None \<Rightarrow> None
     | Some (t, machine) \<Rightarrow>
       (case blake_into t nextInput of None \<Rightarrow> None
        | Some t \<Rightarrow>
           (case hashAndFill E RANDOMX_HASH_SIZE t machine of None \<Rightarrow> None
            | Some (out, t', machine') \<Rightarrow> Some (out, machine'\<lparr>vm_tempHash := t'\<rparr>))))"

definition randomx_calculate_hash_last :: "junk \<Rightarrow> env \<Rightarrow> randomx_vm \<Rightarrow> (u8 list \<times> randomx_vm) option" where
  "randomx_calculate_hash_last junk E machine =
    (case run_chain junk E (vm_tempHash machine) (resetRoundingMode machine) of None \<Rightarrow> None
     | Some (t, machine) \<Rightarrow> map_option (\<lambda>(out, machine). (out, machine\<lparr>vm_tempHash := t\<rparr>))
         (getFinalResult E RANDOMX_HASH_SIZE machine))"

definition randomx_calculate_commitment :: "u8 list \<Rightarrow> u8 list \<Rightarrow> u8 list option" where
  "randomx_calculate_commitment input hash_in = blake2b_of2 RANDOMX_HASH_SIZE input hash_in"

section \<open>One chain\<close>

text \<open>The state before a chain of programs: what the hash depends on.\<close>

definition primed_alike :: "mem \<times> randomx_vm \<Rightarrow> mem \<times> randomx_vm \<Rightarrow> bool" where
  "primed_alike s s' \<longleftrightarrow> load_lanes (fst s) 0 = load_lanes (fst s') 0 \<and> same_inputs (snd s) (snd s')"

definition env_total :: "env \<Rightarrow> bool" where
  "env_total E \<longleftrightarrow> (\<forall>a r. e_datasetRead E a r \<noteq> None)"

lemma blake_into_some: "\<exists>t'. blake_into t data = Some t'"
  using blake2b_defined [of 64 data] by (auto simp: blake_into_def)

lemma write_bytes_lanes: "length bs = 64 \<Longrightarrow> load_lanes (write_bytes t 0 bs) 0 = load_lanes (write_bytes t' 0 bs) 0"
  by (rule load_lanes_cong64) (simp add: write_bytes_def)

lemma blake_into_lanes:
  "blake_into t data = Some r \<Longrightarrow> blake_into t' data = Some r' \<Longrightarrow> load_lanes r 0 = load_lanes r' 0"
  using blake2b_defined [of 64 data] by (auto simp: blake_into_def intro: write_bytes_lanes)

lemma chain_same:
  assumes "primed_alike (t, v) (t', w)" "env_total E"
  shows "\<exists>r x r' y. for_range 0 n (chain_step junk E) (Some (t, v)) = Some (r, x) \<and>
    for_range 0 n (chain_step junk' E) (Some (t', w)) = Some (r', y) \<and> primed_alike (r, x) (r', y) \<and>
    vm_flags x = vm_flags v"
proof (induction n)
  case (Suc n)
  then obtain r x r' y where IH: "for_range 0 n (chain_step junk E) (Some (t, v)) = Some (r, x)"
      "for_range 0 n (chain_step junk' E) (Some (t', w)) = Some (r', y)" "primed_alike (r, x) (r', y)"
      "vm_flags x = vm_flags v" by blast
  then have pre: "same_inputs x y" "load_lanes r 0 = load_lanes r' 0" by (simp_all add: primed_alike_def)
  have total: "e_datasetRead E a b \<noteq> None" for a b using assms(2) by (simp add: env_total_def)
  obtain x' y' where run: "run (junk n) E r x = Some x'" "run (junk' n) E r' y = Some y'" "same_inputs x' y'"
      "reg_bytes x' = reg_bytes y'" "vm_flags x' = vm_flags x"
    using run_same [OF pre total, of "junk n" "junk' n"] by blast
  obtain s where s: "blake_into r (reg_bytes x') = Some s" using blake_into_some by blast
  obtain s' where s': "blake_into r' (reg_bytes y') = Some s'" using blake_into_some by blast
  have "primed_alike (s, x') (s', y')"
    using run(3,4) s s' by (auto simp: primed_alike_def intro: blake_into_lanes)
  moreover have "chain_step junk E n (Some (r, x)) = Some (s, x')" "chain_step junk' E n (Some (r', y)) = Some (s', y')"
    using run(1,2) s s' by (simp_all add: chain_step_def)
  ultimately show ?case using IH(1,2,4) run(5) by simp
qed (use assms(1) in simp)

lemma run_chain_same:
  assumes "primed_alike (t, v) (t', w)" "env_total E"
  shows "\<exists>r x r' y. run_chain junk E t v = Some (r, x) \<and> run_chain junk' E t' w = Some (r', y) \<and>
    same_inputs x y \<and> reg_bytes x = reg_bytes y \<and> vm_flags x = vm_flags v"
proof -
  let ?n = "RANDOMX_PROGRAM_COUNT - 1"
  obtain r x r' y where c: "for_range 0 ?n (chain_step junk E) (Some (t, v)) = Some (r, x)"
      "for_range 0 ?n (chain_step junk' E) (Some (t', w)) = Some (r', y)" "primed_alike (r, x) (r', y)"
      "vm_flags x = vm_flags v"
    using chain_same [OF assms] by blast
  then have pre: "same_inputs x y" "load_lanes r 0 = load_lanes r' 0" by (simp_all add: primed_alike_def)
  have total: "e_datasetRead E a b \<noteq> None" for a b using assms(2) by (simp add: env_total_def)
  obtain x' y' where "run (junk ?n) E r x = Some x'" "run (junk' ?n) E r' y = Some y'" "same_inputs x' y'"
      "reg_bytes x' = reg_bytes y'" "vm_flags x' = vm_flags x"
    using run_same [OF pre total, of "junk ?n" "junk' ?n"] by blast
  with c show ?thesis by (simp add: run_chain_def)
qed

end
