(* ===== verification/Pipeline.thy ===== *)
theory Pipeline
  imports Hashing
begin

text \<open>
  What the hash functions of \<^verbatim>\<open>randomx.cpp\<close> promise: a hash is a function of the input,
  the version flag and the dataset, whatever a machine did before; the pipelined functions give
  the same hashes as single calls; light and fast machines agree. The contract of the pipelined
  functions is the locale \<open>hash_vm\<close>.
\<close>

section \<open>The contract of a pipelined hash\<close>

text \<open>A sequence of \<^verbatim>\<open>next\<close> calls, closed by \<^verbatim>\<open>last\<close>. The tag is the part of a call that
  must not matter.\<close>

fun drain :: "('j \<Rightarrow> 'v \<Rightarrow> 'i \<Rightarrow> ('o \<times> 'v) option) \<Rightarrow> ('j \<Rightarrow> 'v \<Rightarrow> ('o \<times> 'v) option) \<Rightarrow> 'v \<Rightarrow> ('j \<times> 'i) list \<Rightarrow> 'j
    \<Rightarrow> ('o list \<times> 'v) option" where
  "drain nxt lst v [] j = map_option (\<lambda>(h, v'). ([h], v')) (lst j v)"
| "drain nxt lst v ((j, i) # is) k =
    (case nxt j v i of None \<Rightarrow> None
     | Some (h, v') \<Rightarrow> map_option (\<lambda>(hs, v''). (h # hs, v'')) (drain nxt lst v' is k))"

definition pipeline :: "('v \<Rightarrow> 'i \<Rightarrow> 'v option) \<Rightarrow> ('j \<Rightarrow> 'v \<Rightarrow> 'i \<Rightarrow> ('o \<times> 'v) option) \<Rightarrow> ('j \<Rightarrow> 'v \<Rightarrow> ('o \<times> 'v) option)
    \<Rightarrow> 'v \<Rightarrow> 'i \<Rightarrow> ('j \<times> 'i) list \<Rightarrow> 'j \<Rightarrow> ('o list \<times> 'v) option" where
  "pipeline fst_call nxt lst v i is k = Option.bind (fst_call v i) (\<lambda>v'. drain nxt lst v' is k)"

locale hash_vm =
  fixes first_call :: "'v \<Rightarrow> 'i \<Rightarrow> 'v option"
    and next_call :: "'j \<Rightarrow> 'v \<Rightarrow> 'i \<Rightarrow> ('o \<times> 'v) option"
    and last_call :: "'j \<Rightarrow> 'v \<Rightarrow> ('o \<times> 'v) option"
    and hash_of :: "'i \<Rightarrow> 'o"
    and idle :: "'v \<Rightarrow> bool"
    and primed :: "'v \<Rightarrow> 'i \<Rightarrow> bool"
  assumes first_ok: "idle v \<Longrightarrow> \<exists>v'. first_call v i = Some v' \<and> primed v' i"
    and next_ok: "primed v i \<Longrightarrow> \<exists>v'. next_call j v i' = Some (hash_of i, v') \<and> primed v' i'"
    and last_ok: "primed v i \<Longrightarrow> \<exists>v'. last_call j v = Some (hash_of i, v') \<and> idle v'"
begin

lemma drain_ok: "primed v i \<Longrightarrow>
    \<exists>v'. drain next_call last_call v is k = Some (hash_of i # map (hash_of \<circ> snd) is, v') \<and> idle v'"
proof (induction "is" arbitrary: v i)
  case Nil
  then show ?case using last_ok by fastforce
next
  case (Cons p "is")
  obtain j i' where p: "p = (j, i')" by fastforce
  obtain v' where "next_call j v i' = Some (hash_of i, v')" "primed v' i'" using next_ok [OF Cons.prems] by blast
  with Cons.IH show ?case by (fastforce simp: p)
qed

lemma pipeline_ok: "idle v \<Longrightarrow>
    \<exists>v'. pipeline first_call next_call last_call v i is k = Some (map hash_of (i # map snd is), v') \<and> idle v'"
  using first_ok [of v i] drain_ok by (fastforce simp: pipeline_def)

text \<open>A machine can be used again: the contract survives a whole batch.\<close>

lemma batches: "idle v \<Longrightarrow> \<exists>v1. pipeline first_call next_call last_call v i is k = Some (map hash_of (i # map snd is), v1) \<and>
    (\<exists>v2. pipeline first_call next_call last_call v1 i' is' k' = Some (map hash_of (i' # map snd is'), v2))"
  using pipeline_ok by blast

end

section \<open>The hash of an input\<close>

definition no_junk :: junk where "no_junk _ = (\<lambda>_. (0, 0), \<lambda>_. (0, 0))"

definition unused_bytecode :: InstructionByteCode where
  "unused_bytecode = \<lparr>bc_dst = DstR 0, bc_src = SrcZero, bc_imm = 0, bc_type = NOP, bc_target_shift = 0, bc_memMask = 0\<rparr>"

text \<open>A machine just created, with cleared memory.\<close>

definition fresh_vm :: "u32 \<Rightarrow> randomx_vm" where
  "fresh_vm flags = \<lparr>vm_program = (\<lambda>_. 0), vm_reg = (\<lambda>_. 0),
     vm_config = \<lparr>eMask0 = 0, eMask1 = 0, readReg0 = 0, readReg1 = 0, readReg2 = 0, readReg3 = 0\<rparr>,
     vm_mx = 0, vm_ma = 0, vm_datasetOffset = 0, vm_flags = flags, vm_scratchpad = (\<lambda>_. 0),
     vm_tempHash = (\<lambda>_. 0), vm_bytecode = replicate RANDOMX_PROGRAM_MAX_SIZE unused_bytecode, vm_rm = 0\<rparr>"

definition rx_hash :: "env \<Rightarrow> u32 \<Rightarrow> u8 list \<Rightarrow> u8 list" where
  "rx_hash E flags input = fst (the (randomx_calculate_hash no_junk (\<lambda>_. 0) E (fresh_vm flags) input))"

text \<open>The bytecode array of a machine has room for the longest program.\<close>

definition vm_ok :: "u32 \<Rightarrow> randomx_vm \<Rightarrow> bool" where
  "vm_ok flags vm \<longleftrightarrow> vm_flags vm = flags \<and> program_size flags \<le> length (vm_bytecode vm)"

lemma fresh_vm_ok: "vm_ok flags (fresh_vm flags)"
  by (simp add: vm_ok_def fresh_vm_def program_size_def RANDOMX_PROGRAM_MAX_SIZE_def config)

definition primed_ref :: "env \<Rightarrow> u32 \<Rightarrow> u8 list \<Rightarrow> mem \<times> randomx_vm" where
  "primed_ref E flags input =
    (let v = the (randomx_calculate_hash_first E (fresh_vm flags) input) in (vm_tempHash v, resetRoundingMode v))"

definition vm_primed :: "env \<Rightarrow> u32 \<Rightarrow> randomx_vm \<Rightarrow> u8 list \<Rightarrow> bool" where
  "vm_primed E flags v input \<longleftrightarrow> primed_alike (vm_tempHash v, resetRoundingMode v) (primed_ref E flags input)"

section \<open>The model meets the contract\<close>

lemma primed_alike_sym: "primed_alike s s' \<Longrightarrow> primed_alike s' s"
  by (auto simp add: primed_alike_def same_inputs_def)

lemma primed_alike_trans: "primed_alike s s' \<Longrightarrow> primed_alike s' s'' \<Longrightarrow> primed_alike s s''"
  by (auto simp add: primed_alike_def same_inputs_def)

lemma init_alike:
  assumes "vm_flags v = vm_flags w" "program_size (vm_flags v) \<le> length (vm_bytecode v)"
    "program_size (vm_flags v) \<le> length (vm_bytecode w)" "load_lanes t 0 = load_lanes t' 0"
    "initScratchpad E t v = (s, v')" "initScratchpad E t' w = (s', w')"
  shows "primed_alike (s, resetRoundingMode v') (s', resetRoundingMode w')"
proof -
  have "vm_flags v' = vm_flags v" "vm_flags w' = vm_flags w" "vm_bytecode v' = vm_bytecode v" "vm_bytecode w' = vm_bytecode w"
    using assms(5,6) by (auto simp: initScratchpad_def split: prod.splits)
  then show ?thesis
    using initScratchpad_same [OF assms(4,5,6)] assms(1,2,3)
    by (simp add: primed_alike_def same_inputs_def resetRoundingMode_def)
qed

lemma primed_ref_eq:
  obtains t s w where "blake_into (\<lambda>_. 0) input = Some t" "initScratchpad E t (fresh_vm flags) = (s, w)"
    "primed_ref E flags input = (s, resetRoundingMode (w\<lparr>vm_tempHash := s\<rparr>))"
proof -
  obtain t where t: "blake_into (\<lambda>_. 0) input = Some t" using blake_into_some by blast
  obtain s w where "initScratchpad E t (fresh_vm flags) = (s, w)" by fastforce
  with t show ?thesis
    by (intro that) (simp_all add: primed_ref_def randomx_calculate_hash_first_def fresh_vm_def)
qed

lemma temp_alike: "primed_alike (t, resetRoundingMode (v\<lparr>vm_tempHash := u\<rparr>)) (t, resetRoundingMode v) \<longleftrightarrow>
    program_size (vm_flags v) \<le> length (vm_bytecode v)"
  by (simp add: primed_alike_def same_inputs_def resetRoundingMode_def)

lemma prime_ok:
  assumes "vm_ok flags v" "blake_into local input = Some t" "initScratchpad E t v = (s, v')"
  shows "primed_alike (s, resetRoundingMode v') (primed_ref E flags input)"
proof -
  obtain t0 s0 w where ref: "blake_into (\<lambda>_. 0) input = Some t0" "initScratchpad E t0 (fresh_vm flags) = (s0, w)"
    "primed_ref E flags input = (s0, resetRoundingMode (w\<lparr>vm_tempHash := s0\<rparr>))" by (rule primed_ref_eq)
  have "primed_alike (s, resetRoundingMode v') (s0, resetRoundingMode w)"
    by (rule init_alike [OF _ _ _ blake_into_lanes [OF assms(2) ref(1)] assms(3) ref(2)])
      (use assms(1) fresh_vm_ok [of flags] in \<open>simp_all add: vm_ok_def\<close>)
  then show ?thesis
    by (auto simp: ref(3) primed_alike_def same_inputs_def resetRoundingMode_def)
qed

lemma finish_alike:
  assumes "primed_alike (t, v) (t', w)" "env_total E"
  shows "\<exists>r x r' y out x' y'. run_chain junk E t v = Some (r, x) \<and> run_chain junk' E t' w = Some (r', y) \<and>
    getFinalResult E RANDOMX_HASH_SIZE x = Some (out, x') \<and> getFinalResult E RANDOMX_HASH_SIZE y = Some (out, y') \<and>
    vm_ok (vm_flags v) x"
proof -
  obtain r x r' y where run: "run_chain junk E t v = Some (r, x)" "run_chain junk' E t' w = Some (r', y)"
      "same_inputs x y" "reg_bytes x = reg_bytes y" "vm_flags x = vm_flags v"
    using run_chain_same [OF assms] by blast
  have "vm_ok (vm_flags v) x" using run(3,5) by (auto simp: vm_ok_def same_inputs_def)
  then show ?thesis
    using getFinalResult_same [OF run(3,4), of RANDOMX_HASH_SIZE] run(1,2) by (fastforce simp: config)
qed

lemma getFinalResult_keeps:
  "getFinalResult E n x = Some (out, x') \<Longrightarrow> vm_flags x' = vm_flags x \<and> vm_bytecode x' = vm_bytecode x \<and>
     vm_scratchpad x' = vm_scratchpad x \<and> vm_rm x' = vm_rm x"
  by (auto simp: getFinalResult_def Let_def)

lemma rx_hash_eq:
  assumes "primed_alike (t, v) (primed_ref E flags input)" "env_total E"
  obtains r x x' where "run_chain junk E t v = Some (r, x)"
    "getFinalResult E RANDOMX_HASH_SIZE x = Some (rx_hash E flags input, x')" "vm_ok flags x" "vm_ok flags x'"
proof -
  obtain t0 s0 w where ref: "blake_into (\<lambda>_. 0) input = Some t0" "initScratchpad E t0 (fresh_vm flags) = (s0, w)"
    "primed_ref E flags input = (s0, resetRoundingMode (w\<lparr>vm_tempHash := s0\<rparr>))" by (rule primed_ref_eq)
  have w: "vm_flags w = flags" "program_size flags \<le> length (vm_bytecode w)"
    using ref(2) fresh_vm_ok [of flags] by (auto simp: initScratchpad_def vm_ok_def fresh_vm_def split: prod.splits)
  have "primed_alike (t, v) (s0, resetRoundingMode w)"
    using assms(1) w temp_alike [where t = s0 and v = w and u = s0] unfolding ref(3) by (metis primed_alike_trans)
  from finish_alike [OF this assms(2), of junk no_junk] obtain r x r' y out x' y' where
    run: "run_chain junk E t v = Some (r, x)" "run_chain no_junk E s0 (resetRoundingMode w) = Some (r', y)"
      "getFinalResult E RANDOMX_HASH_SIZE x = Some (out, x')" "getFinalResult E RANDOMX_HASH_SIZE y = Some (out, y')"
      "vm_ok (vm_flags v) x" by blast
  have "rx_hash E flags input = out"
    using ref(1,2) run(2,4) by (simp add: rx_hash_def randomx_calculate_hash_def Let_def)
  moreover have "vm_flags v = flags"
    using assms(1) w unfolding ref(3) by (simp add: primed_alike_def same_inputs_def resetRoundingMode_def)
  ultimately show ?thesis
    using that run(1,3,5) getFinalResult_keeps [OF run(3)] by (simp add: vm_ok_def)
qed

lemma hashAndFill_split:
  "hashAndFill E n t vm = (case getFinalResult E n vm of None \<Rightarrow> None
     | Some (out, vm') \<Rightarrow> (case initScratchpad E t vm' of (t', vm'') \<Rightarrow> Some (out, t', vm'')))"
  by (simp add: hashAndFill_def hashAndFill_eq getFinalResult_def initScratchpad_def reg_bytes_def Let_def
      split: prod.splits option.splits)

text \<open>The contract needs a dataset whose reads are defined.\<close>

definition idle :: "env \<Rightarrow> u32 \<Rightarrow> randomx_vm \<Rightarrow> bool" where
  "idle E flags v \<longleftrightarrow> env_total E \<and> vm_ok flags v"

definition primed :: "env \<Rightarrow> u32 \<Rightarrow> randomx_vm \<Rightarrow> u8 list \<Rightarrow> bool" where
  "primed E flags v input \<longleftrightarrow> env_total E \<and> vm_primed E flags v input"

lemma first_primes:
  assumes "idle E flags v"
  shows "\<exists>v'. randomx_calculate_hash_first E v input = Some v' \<and> primed E flags v' input"
proof -
  obtain t where t: "blake_into (vm_tempHash v) input = Some t" using blake_into_some by blast
  obtain s w where init: "initScratchpad E t v = (s, w)" by fastforce
  have "vm_ok flags v" "env_total E" using assms by (simp_all add: idle_def)
  with prime_ok [OF this(1) t init] have "primed E flags (w\<lparr>vm_tempHash := s\<rparr>) input"
    by (auto simp: primed_def vm_primed_def primed_alike_def same_inputs_def resetRoundingMode_def)
  then show ?thesis by (simp add: randomx_calculate_hash_first_def t init)
qed

lemma next_hashes:
  assumes "primed E flags v input"
  shows "\<exists>v'. randomx_calculate_hash_next j E v input' = Some (rx_hash E flags input, v') \<and> primed E flags v' input'"
proof -
  have total: "env_total E" and alike: "primed_alike (vm_tempHash v, resetRoundingMode v) (primed_ref E flags input)"
    using assms by (simp_all add: primed_def vm_primed_def)
  obtain r x x' where run: "run_chain j E (vm_tempHash v) (resetRoundingMode v) = Some (r, x)"
      "getFinalResult E RANDOMX_HASH_SIZE x = Some (rx_hash E flags input, x')" "vm_ok flags x'"
    by (rule rx_hash_eq [OF alike total])
  obtain t where t: "blake_into r input' = Some t" using blake_into_some by blast
  obtain s w where init: "initScratchpad E t x' = (s, w)" by fastforce
  have "primed E flags (w\<lparr>vm_tempHash := s\<rparr>) input'"
    using prime_ok [OF run(3) t init] total
    by (auto simp: primed_def vm_primed_def primed_alike_def same_inputs_def resetRoundingMode_def)
  then show ?thesis by (simp add: randomx_calculate_hash_next_def run(1,2) t hashAndFill_split init)
qed

lemma last_hashes:
  assumes "primed E flags v input"
  shows "\<exists>v'. randomx_calculate_hash_last j E v = Some (rx_hash E flags input, v') \<and> idle E flags v'"
proof -
  have total: "env_total E" and alike: "primed_alike (vm_tempHash v, resetRoundingMode v) (primed_ref E flags input)"
    using assms by (simp_all add: primed_def vm_primed_def)
  obtain r x x' where run: "run_chain j E (vm_tempHash v) (resetRoundingMode v) = Some (r, x)"
      "getFinalResult E RANDOMX_HASH_SIZE x = Some (rx_hash E flags input, x')" "vm_ok flags x'"
    by (rule rx_hash_eq [OF alike total])
  then show ?thesis using total by (simp add: randomx_calculate_hash_last_def idle_def vm_ok_def)
qed

interpretation rx_vm: hash_vm "randomx_calculate_hash_first E" "\<lambda>j. randomx_calculate_hash_next j E"
    "\<lambda>j. randomx_calculate_hash_last j E" "rx_hash E flags" "idle E flags" "primed E flags" for E flags
  by unfold_locales (simp_all add: first_primes next_hashes last_hashes)

lemma single_call:
  assumes "env_total E" "vm_ok flags vm"
  shows "\<exists>vm'. randomx_calculate_hash junk local E vm input = Some (rx_hash E flags input, vm') \<and>
    vm_ok flags vm' \<and> vm_rm vm' = vm_rm vm"
proof -
  obtain t where t: "blake_into local input = Some t" using blake_into_some by blast
  obtain s w where init: "initScratchpad E t vm = (s, w)" by fastforce
  obtain r x x' where run: "run_chain junk E s (resetRoundingMode w) = Some (r, x)"
      "getFinalResult E RANDOMX_HASH_SIZE x = Some (rx_hash E flags input, x')" "vm_ok flags x'"
    by (rule rx_hash_eq [OF prime_ok [OF assms(2) t init] assms(1)])
  then show ?thesis by (simp add: randomx_calculate_hash_def t init Let_def vm_ok_def)
qed

section \<open>Properties\<close>

text \<open>An environment for the witnesses: a dataset of zeros, portable AES.\<close>

definition zero_env :: env where
  "zero_env = \<lparr>e_fp = fpu0, e_hw = (aes_round, aes_inv_round), e_softAes = True, e_datasetRead = (\<lambda>_ r. Some r)\<rparr>"

lemma zero_env_total: "env_total zero_env"
  by (simp add: env_total_def zero_env_def)

text \<open>C23: \<open>randomx_calculate_hash\<close> always returns a hash, and the hash is a function of the input,
  the flags and the dataset only: it does not depend on what earlier hashes left in the machine
  (registers, program, bytecode, scratchpad, rounding mode), on the uninitialised local buffer or
  on the uninitialised registers of the interpreter. The rounding mode of the caller is restored.\<close>

theorem hash_is_a_function:
  assumes "env_total E" "vm_ok flags vm"
  shows "\<exists>vm'. randomx_calculate_hash junk local E vm input = Some (rx_hash E flags input, vm') \<and>
    vm_ok flags vm' \<and> vm_rm vm' = vm_rm vm"
  by (rule single_call [OF assms])

theorem hash_is_a_function_witness:
  "\<exists>vm'. randomx_calculate_hash no_junk (\<lambda>_. 7) zero_env (fresh_vm 0\<lparr>vm_rm := 3\<rparr>) [1, 2] =
       Some (rx_hash zero_env 0 [1, 2], vm') \<and> vm_rm vm' = 3"
  using hash_is_a_function [OF zero_env_total, of 0 "fresh_vm 0\<lparr>vm_rm := 3\<rparr>"] fresh_vm_ok [of 0]
  by (fastforce simp: vm_ok_def)

text \<open>C24: the pipelined functions compute the same hashes as single calls: on any machine, one
  \<^verbatim>\<open>first\<close>, any number of \<^verbatim>\<open>next\<close> and one \<^verbatim>\<open>last\<close> return, in order, what
  \<open>randomx_calculate_hash\<close> returns for each input, although every \<^verbatim>\<open>next\<close> hashes the scratchpad
  and refills it for the following input in one pass.\<close>

theorem pipeline_computes_hashes:
  assumes "env_total E" "vm_ok flags vm" "vm_ok flags vm0"
  shows "\<exists>hs vm'. pipeline (randomx_calculate_hash_first E) (\<lambda>j. randomx_calculate_hash_next j E)
      (\<lambda>j. randomx_calculate_hash_last j E) vm input rest junk = Some (hs, vm') \<and> vm_ok flags vm' \<and>
    map (\<lambda>i. map_option fst (randomx_calculate_hash junk0 local E vm0 i)) (input # map snd rest) = map Some hs"
proof -
  have "idle E flags vm" using assms by (simp add: idle_def)
  from rx_vm.pipeline_ok [OF this] have "\<exists>vm'. pipeline (randomx_calculate_hash_first E)
      (\<lambda>j. randomx_calculate_hash_next j E) (\<lambda>j. randomx_calculate_hash_last j E) vm input rest junk =
        Some (map (rx_hash E flags) (input # map snd rest), vm') \<and> idle E flags vm'" .
  moreover have "map_option fst (randomx_calculate_hash junk0 local E vm0 i) = Some (rx_hash E flags i)" for i
    using single_call [OF assms(1,3), of junk0 local i] by auto
  ultimately show ?thesis by (auto simp: idle_def)
qed

theorem pipeline_computes_hashes_witness:
  "\<exists>hs vm'. pipeline (randomx_calculate_hash_first zero_env) (\<lambda>j. randomx_calculate_hash_next j zero_env)
      (\<lambda>j. randomx_calculate_hash_last j zero_env) (fresh_vm 128) [1] [(no_junk, [2]), (no_junk, [3])] no_junk = Some (hs, vm') \<and>
    map (\<lambda>i. map_option fst (randomx_calculate_hash no_junk (\<lambda>_. 0) zero_env (fresh_vm 128) i)) [[1], [2], [3]] = map Some hs"
  using pipeline_computes_hashes [OF zero_env_total fresh_vm_ok fresh_vm_ok, of 128 "[1]" "[(no_junk, [2]), (no_junk, [3])]"
      no_junk no_junk "\<lambda>_. 0"] by auto

text \<open>A light machine computes the items that a fast machine reads.\<close>

lemma light_fast:
  assumes "full_dataset c ds"
  shows "randomx_calculate_hash junk local (E\<lparr>e_datasetRead := datasetRead_light c\<rparr>) vm input =
    randomx_calculate_hash junk local (E\<lparr>e_datasetRead := datasetRead ds\<rparr>) vm input"
proof -
  let ?L = "E\<lparr>e_datasetRead := datasetRead_light c\<rparr>" and ?F = "E\<lparr>e_datasetRead := datasetRead ds\<rparr>"
  have "reads_agree (datasetRead_light c) (datasetRead ds)"
    using light_read_eq [OF assms] by (simp add: reads_agree_def)
  then have run: "run j ?F = run j ?L" for j
    using run_reads_agree [of ?L "datasetRead ds" j] by (intro ext) simp
  have "chain_step junk ?F = chain_step junk ?L"
    by (intro ext) (simp only: chain_step_def run)
  then have "run_chain junk ?F = run_chain junk ?L"
    by (intro ext) (simp only: run_chain_def run)
  moreover have "initScratchpad ?F = initScratchpad ?L" "getFinalResult ?F = getFinalResult ?L"
    by (intro ext; simp add: initScratchpad_def getFinalResult_def)+
  ultimately show ?thesis by (simp only: randomx_calculate_hash_def)
qed

text \<open>A commitment is the BLAKE2b hash of the input followed by the hash it commits to.\<close>

lemma commitment_eq:
  "randomx_calculate_commitment input hash_in = blake2b RANDOMX_HASH_SIZE (input @ hash_in) []"
  by (simp add: randomx_calculate_commitment_def blake2b_of2_append)

end
