(* ===== verification/Api.thy ===== *)
theory Api
  imports Pipeline "HOL-Library.Multiset"
begin

text \<open>
  The C interface of \<^verbatim>\<open>randomx.cpp\<close>: flags, allocation and release of caches, datasets and
  machines with their error paths, the initialisation of a cache and of a range of the dataset,
  and the parallel initialisation of \<^verbatim>\<open>rx_worker.cpp\<close>. Memory is accounted for by a ledger of
  the blocks and objects that are alive; whether an allocation succeeds is an argument. What
  the JIT compiler makes of \<^verbatim>\<open>datasetInit\<close> is the argument \<open>jit\<close> and has the contract
  \<open>dataset_init\<close>. \<open>None\<close> is a failed \<^verbatim>\<open>assert\<close> or \<^verbatim>\<open>UNREACHABLE\<close>.
\<close>

section \<open>Flags\<close>

text \<open>What \<^verbatim>\<open>randomx::Cpu\<close> found; the other arguments are properties of the build.\<close>

record cpu =
  cpu_aes :: bool
  cpu_avx2 :: bool
  cpu_ssse3 :: bool

definition randomx_get_flags :: "bool \<Rightarrow> bool \<Rightarrow> bool \<Rightarrow> bool \<Rightarrow> bool \<Rightarrow> cpu \<Rightarrow> u32" where
  "randomx_get_flags have_compiler force_secure have_aes have_avx2 have_ssse3 cpu =
    (let flags = if have_compiler then RANDOMX_FLAG_JIT else RANDOMX_FLAG_DEFAULT;
         flags = if force_secure \<and> flags = RANDOMX_FLAG_JIT then flags OR RANDOMX_FLAG_SECURE else flags;
         flags = if have_aes \<and> cpu_aes cpu then flags OR RANDOMX_FLAG_HARD_AES else flags;
         flags = if have_avx2 \<and> cpu_avx2 cpu then flags OR RANDOMX_FLAG_ARGON2_AVX2 else flags
     in if have_ssse3 \<and> cpu_ssse3 cpu then flags OR RANDOMX_FLAG_ARGON2_SSSE3 else flags)"

text \<open>The optimised functions exist only in some builds.\<close>

definition selectArgonImpl :: "bool \<Rightarrow> bool \<Rightarrow> u32 \<Rightarrow> argon2_impl option" where
  "selectArgonImpl have_avx2 have_ssse3 flags =
    (if has_flag flags RANDOMX_FLAG_ARGON2_AVX2 then (if have_avx2 then Some Argon2_avx2 else None)
     else if has_flag flags RANDOMX_FLAG_ARGON2_SSSE3 then (if have_ssse3 then Some Argon2_ssse3 else None)
     else Some Argon2_ref)"

section \<open>The ledger\<close>

record heap =
  h_caches :: nat
  h_datasets :: nat
  h_vms :: nat
  h_jits :: nat
  h_blocks :: "(Allocator \<times> nat) multiset"

text \<open>Which of the allocations of a call succeed: \<^verbatim>\<open>operator new\<close>, the JIT compiler, memory.\<close>

record outcome =
  o_new :: bool
  o_jit :: bool
  o_mem :: bool

text \<open>Both allocators throw instead of returning a null pointer: \<open>None\<close> is the exception.\<close>

definition allocMemory :: "Allocator \<Rightarrow> nat \<Rightarrow> bool \<Rightarrow> heap \<Rightarrow> heap option" where
  "allocMemory a n success h =
    (if success then Some (h\<lparr>h_blocks := add_mset (a, n) (h_blocks h)\<rparr>) else None)"

definition freeMemory :: "Allocator \<Rightarrow> nat \<Rightarrow> heap \<Rightarrow> heap" where
  "freeMemory a n h = h\<lparr>h_blocks := h_blocks h - {#(a, n)#}\<rparr>"

section \<open>Caches\<close>

definition deallocCache :: "Allocator \<Rightarrow> bool \<Rightarrow> bool \<Rightarrow> heap \<Rightarrow> heap" where
  "deallocCache a has_memory has_jit h =
    (let h = if has_memory then freeMemory a CacheSize h else h
     in if has_jit then h\<lparr>h_jits := h_jits h - 1\<rparr> else h)"

definition randomx_release_cache :: "Allocator \<Rightarrow> bool \<Rightarrow> bool \<Rightarrow> heap \<Rightarrow> heap" where
  "randomx_release_cache a has_memory has_jit h =
    (let h = deallocCache a has_memory has_jit h in h\<lparr>h_caches := h_caches h - 1\<rparr>)"

text \<open>The cases of the switch: the allocator and whether there is a JIT compiler.\<close>

definition cache_case :: "u32 \<Rightarrow> (Allocator \<times> bool) option" where
  "cache_case flags =
    (let f = flags AND (RANDOMX_FLAG_JIT OR RANDOMX_FLAG_LARGE_PAGES)
     in if f = RANDOMX_FLAG_DEFAULT then Some (DefaultAllocator, False)
        else if f = RANDOMX_FLAG_JIT then Some (DefaultAllocator, True)
        else if f = RANDOMX_FLAG_LARGE_PAGES then Some (LargePageAllocator, False)
        else if f = RANDOMX_FLAG_JIT OR RANDOMX_FLAG_LARGE_PAGES then Some (LargePageAllocator, True)
        else None)"

text \<open>A fresh cache object. The programs of a new object are empty; their buffers and the
  memory hold anything: \<open>junk\<close>.\<close>

definition new_cache :: "mem \<times> Instruction list list \<Rightarrow> argon2_impl \<Rightarrow> Allocator \<Rightarrow> bool \<Rightarrow> randomx_cache" where
  "new_cache junk impl a jit =
    \<lparr>ca_memory = fst junk, ca_dealloc = a, ca_jit = jit,
     ca_initialize = (if jit then InitCacheCompile else InitCache),
     ca_datasetInit = (if jit then JitDatasetInit else InitDataset),
     ca_programs = map (\<lambda>b. empty_program\<lparr>sp_buffer := b\<rparr>) (snd junk), ca_reciprocals = [],
     ca_cacheKey = [], ca_argonImpl = impl\<rparr>"

definition randomx_alloc_cache :: "bool \<Rightarrow> bool \<Rightarrow> mem \<times> Instruction list list \<Rightarrow> outcome \<Rightarrow> u32 \<Rightarrow> heap
    \<Rightarrow> (randomx_cache option \<times> heap) option" where
  "randomx_alloc_cache have_avx2 have_ssse3 junk oc flags h =
    (case selectArgonImpl have_avx2 have_ssse3 flags of None \<Rightarrow> Some (None, h)
     | Some impl \<Rightarrow>
        if \<not> o_new oc then Some (None, h)
        else let h = h\<lparr>h_caches := h_caches h + 1\<rparr>
        in (case cache_case flags of None \<Rightarrow> None
            | Some (a, jit) \<Rightarrow>
               if jit \<and> \<not> o_jit oc then Some (None, randomx_release_cache a False False h)
               else let h = if jit then h\<lparr>h_jits := h_jits h + 1\<rparr> else h
               in (case allocMemory a CacheSize (o_mem oc) h of
                     None \<Rightarrow> Some (None, randomx_release_cache a False jit h)
                   | Some h \<Rightarrow> Some (Some (new_cache junk impl a jit), h))))"

definition initialize_cache :: "(u8 list \<Rightarrow> mem) \<Rightarrow> (u8 list \<Rightarrow> u8 list) \<Rightarrow> randomx_cache \<Rightarrow> u8 list \<Rightarrow> randomx_cache option" where
  "initialize_cache argon H cache key =
    (case ca_initialize cache of InitCache \<Rightarrow> initCache argon H cache key
     | InitCacheCompile \<Rightarrow> initCache argon H cache key)"

definition randomx_init_cache :: "(u8 list \<Rightarrow> mem) \<Rightarrow> (u8 list \<Rightarrow> u8 list) \<Rightarrow> randomx_cache \<Rightarrow> u8 list \<Rightarrow> randomx_cache option" where
  "randomx_init_cache argon H cache key =
    (if ca_cacheKey cache \<noteq> key \<or> \<not> isInitialized cache
     then map_option (\<lambda>c. c\<lparr>ca_cacheKey := key\<rparr>) (initialize_cache argon H cache key)
     else Some cache)"

section \<open>Datasets\<close>

definition deallocDataset :: "Allocator \<Rightarrow> bool \<Rightarrow> heap \<Rightarrow> heap" where
  "deallocDataset a has_memory h = (if has_memory then freeMemory a DatasetSize h else h)"

definition randomx_release_dataset :: "Allocator \<Rightarrow> bool \<Rightarrow> heap \<Rightarrow> heap" where
  "randomx_release_dataset a has_memory h =
    (let h = deallocDataset a has_memory h in h\<lparr>h_datasets := h_datasets h - 1\<rparr>)"

definition randomx_alloc_dataset :: "nat \<Rightarrow> mem \<Rightarrow> outcome \<Rightarrow> u32 \<Rightarrow> heap \<Rightarrow> randomx_dataset option \<times> heap" where
  "randomx_alloc_dataset size_max junk oc flags h =
    (if DatasetSize > size_max \<or> \<not> o_new oc then (None, h)
     else let h = h\<lparr>h_datasets := h_datasets h + 1\<rparr>;
              a = if has_flag flags RANDOMX_FLAG_LARGE_PAGES then LargePageAllocator else DefaultAllocator
     in (case allocMemory a DatasetSize (o_mem oc) h of
           None \<Rightarrow> (None, randomx_release_dataset a False h)
         | Some h \<Rightarrow> (Some \<lparr>ds_memory = junk, ds_dealloc = a\<rparr>, h)))"

definition DatasetItemCount :: nat where
  "DatasetItemCount = DatasetSize div RANDOMX_DATASET_ITEM_SIZE"

definition randomx_dataset_item_count :: nat where
  "randomx_dataset_item_count = DatasetItemCount"

type_synonym dataset_fn = "randomx_cache \<Rightarrow> mem \<Rightarrow> nat \<Rightarrow> u32 \<Rightarrow> u32 \<Rightarrow> mem option"

text \<open>The call through \<^verbatim>\<open>cache->datasetInit\<close>.\<close>

definition datasetInit :: "dataset_fn \<Rightarrow> dataset_fn" where
  "datasetInit jit cache = (case ca_datasetInit cache of InitDataset \<Rightarrow> initDataset cache | JitDatasetInit \<Rightarrow> jit cache)"

text \<open>Less than four items go through a buffer of four, which is not initialised.\<close>

definition randomx_init_dataset :: "dataset_fn \<Rightarrow> mem \<Rightarrow> randomx_cache \<Rightarrow> mem \<Rightarrow> nat \<Rightarrow> nat \<Rightarrow> mem option" where
  "randomx_init_dataset jit buf cache m startItem itemCount =
    (if \<not> (startItem < DatasetItemCount \<and> itemCount \<le> DatasetItemCount \<and> startItem + itemCount \<le> DatasetItemCount)
     then None
     else if itemCount < 4
     then map_option (\<lambda>buf. write_bytes m (startItem * CacheLineSize) (read_bytes buf 0 (itemCount * CacheLineSize)))
            (datasetInit jit cache buf 0 (of_nat startItem) (of_nat (startItem + 4)))
     else if itemCount mod 4 = 0
     then datasetInit jit cache m (startItem * CacheLineSize) (of_nat startItem) (of_nat (startItem + itemCount))
     else (case datasetInit jit cache m (startItem * CacheLineSize) (of_nat startItem)
                  (of_nat (startItem + itemCount - itemCount mod 4)) of None \<Rightarrow> None
           | Some m \<Rightarrow>
              let startItem = startItem + (itemCount - 4)
              in datasetInit jit cache m (startItem * CacheLineSize) (of_nat startItem) (of_nat (startItem + 4))))"

section \<open>Machines\<close>

text \<open>The class templates: allocator, \<^verbatim>\<open>softAes\<close>, \<^verbatim>\<open>secureJit\<close>.\<close>

datatype vm_class =
    InterpretedVm Allocator bool
  | InterpretedLightVm Allocator bool
  | CompiledVm Allocator bool bool
  | CompiledLightVm Allocator bool bool

definition InterpretedVmDefault where "InterpretedVmDefault = InterpretedVm DefaultAllocator True"
definition InterpretedVmHardAes where "InterpretedVmHardAes = InterpretedVm DefaultAllocator False"
definition InterpretedVmLargePage where "InterpretedVmLargePage = InterpretedVm LargePageAllocator True"
definition InterpretedVmLargePageHardAes where "InterpretedVmLargePageHardAes = InterpretedVm LargePageAllocator False"
definition InterpretedLightVmDefault where "InterpretedLightVmDefault = InterpretedLightVm DefaultAllocator True"
definition InterpretedLightVmHardAes where "InterpretedLightVmHardAes = InterpretedLightVm DefaultAllocator False"
definition InterpretedLightVmLargePage where "InterpretedLightVmLargePage = InterpretedLightVm LargePageAllocator True"
definition InterpretedLightVmLargePageHardAes where "InterpretedLightVmLargePageHardAes = InterpretedLightVm LargePageAllocator False"
definition CompiledVmDefault where "CompiledVmDefault = CompiledVm DefaultAllocator True False"
definition CompiledVmHardAes where "CompiledVmHardAes = CompiledVm DefaultAllocator False False"
definition CompiledVmLargePage where "CompiledVmLargePage = CompiledVm LargePageAllocator True False"
definition CompiledVmLargePageHardAes where "CompiledVmLargePageHardAes = CompiledVm LargePageAllocator False False"
definition CompiledVmDefaultSecure where "CompiledVmDefaultSecure = CompiledVm DefaultAllocator True True"
definition CompiledVmHardAesSecure where "CompiledVmHardAesSecure = CompiledVm DefaultAllocator False True"
definition CompiledVmLargePageSecure where "CompiledVmLargePageSecure = CompiledVm LargePageAllocator True True"
definition CompiledVmLargePageHardAesSecure where "CompiledVmLargePageHardAesSecure = CompiledVm LargePageAllocator False True"
definition CompiledLightVmDefault where "CompiledLightVmDefault = CompiledLightVm DefaultAllocator True False"
definition CompiledLightVmHardAes where "CompiledLightVmHardAes = CompiledLightVm DefaultAllocator False False"
definition CompiledLightVmLargePage where "CompiledLightVmLargePage = CompiledLightVm LargePageAllocator True False"
definition CompiledLightVmLargePageHardAes where "CompiledLightVmLargePageHardAes = CompiledLightVm LargePageAllocator False False"
definition CompiledLightVmDefaultSecure where "CompiledLightVmDefaultSecure = CompiledLightVm DefaultAllocator True True"
definition CompiledLightVmHardAesSecure where "CompiledLightVmHardAesSecure = CompiledLightVm DefaultAllocator False True"
definition CompiledLightVmLargePageSecure where "CompiledLightVmLargePageSecure = CompiledLightVm LargePageAllocator True True"
definition CompiledLightVmLargePageHardAesSecure where "CompiledLightVmLargePageHardAesSecure = CompiledLightVm LargePageAllocator False True"

lemmas class_defs =
  InterpretedVmDefault_def InterpretedVmHardAes_def InterpretedVmLargePage_def InterpretedVmLargePageHardAes_def
  InterpretedLightVmDefault_def InterpretedLightVmHardAes_def InterpretedLightVmLargePage_def
  InterpretedLightVmLargePageHardAes_def CompiledVmDefault_def CompiledVmHardAes_def CompiledVmLargePage_def
  CompiledVmLargePageHardAes_def CompiledVmDefaultSecure_def CompiledVmHardAesSecure_def CompiledVmLargePageSecure_def
  CompiledVmLargePageHardAesSecure_def CompiledLightVmDefault_def CompiledLightVmHardAes_def
  CompiledLightVmLargePage_def CompiledLightVmLargePageHardAes_def CompiledLightVmDefaultSecure_def
  CompiledLightVmHardAesSecure_def CompiledLightVmLargePageSecure_def CompiledLightVmLargePageHardAesSecure_def

text \<open>The switch of \<^verbatim>\<open>randomx_create_vm\<close>.\<close>

definition vm_class_of :: "u32 \<Rightarrow> vm_class option" where
  "vm_class_of flags =
    (let FULL = RANDOMX_FLAG_FULL_MEM; JIT = RANDOMX_FLAG_JIT; AES = RANDOMX_FLAG_HARD_AES; LARGE = RANDOMX_FLAG_LARGE_PAGES;
         f = flags AND (FULL OR JIT OR AES OR LARGE); secure = has_flag flags RANDOMX_FLAG_SECURE
     in if f = RANDOMX_FLAG_DEFAULT then Some InterpretedLightVmDefault
        else if f = FULL then Some InterpretedVmDefault
        else if f = JIT then Some (if secure then CompiledLightVmDefaultSecure else CompiledLightVmDefault)
        else if f = FULL OR JIT then Some (if secure then CompiledVmDefaultSecure else CompiledVmDefault)
        else if f = AES then Some InterpretedLightVmHardAes
        else if f = FULL OR AES then Some InterpretedVmHardAes
        else if f = JIT OR AES then Some (if secure then CompiledLightVmHardAesSecure else CompiledLightVmHardAes)
        else if f = FULL OR JIT OR AES then Some (if secure then CompiledVmHardAesSecure else CompiledVmHardAes)
        else if f = LARGE then Some InterpretedLightVmLargePage
        else if f = FULL OR LARGE then Some InterpretedVmLargePage
        else if f = JIT OR LARGE then Some (if secure then CompiledLightVmLargePageSecure else CompiledLightVmLargePage)
        else if f = FULL OR JIT OR LARGE then Some (if secure then CompiledVmLargePageSecure else CompiledVmLargePage)
        else if f = AES OR LARGE then Some InterpretedLightVmLargePageHardAes
        else if f = FULL OR AES OR LARGE then Some InterpretedVmLargePageHardAes
        else if f = JIT OR AES OR LARGE
          then Some (if secure then CompiledLightVmLargePageHardAesSecure else CompiledLightVmLargePageHardAes)
        else if f = FULL OR JIT OR AES OR LARGE
          then Some (if secure then CompiledVmLargePageHardAesSecure else CompiledVmLargePageHardAes)
        else None)"

text \<open>The union of the two pointers of a machine, with the members that creation sets.\<close>

datatype vm_ptr = NullPtr | CachePtr randomx_cache | DatasetPtr randomx_dataset

record vm_object =
  vo_class :: vm_class
  vo_flags :: u32
  vo_ptr :: vm_ptr
  vo_cacheKey :: "u8 list"
  vo_numa_node :: int
  vo_scratchpad :: mem

fun setCache :: "vm_class \<Rightarrow> randomx_cache \<Rightarrow> vm_ptr \<Rightarrow> vm_ptr" where
  "setCache (InterpretedLightVm _ _) c p = CachePtr c"
| "setCache (CompiledLightVm _ _ _) c p = CachePtr c"
| "setCache _ c p = p"

fun setDataset :: "vm_class \<Rightarrow> randomx_dataset \<Rightarrow> vm_ptr \<Rightarrow> vm_ptr" where
  "setDataset (InterpretedVm _ _) d p = DatasetPtr d"
| "setDataset (CompiledVm _ _ _) d p = DatasetPtr d"
| "setDataset _ d p = p"

fun compiled :: "vm_class \<Rightarrow> bool" where
  "compiled (CompiledVm _ _ _) = True"
| "compiled (CompiledLightVm _ _ _) = True"
| "compiled _ = False"

text \<open>\<^verbatim>\<open>VmBase::allocate\<close> throws when neither pointer is set. A compiled class contains a
  JIT compiler, whose buffer may not be available: then the constructor throws and the object
  is gone. The flags of the object are those of the call.\<close>

definition randomx_create_vm :: "outcome \<Rightarrow> u32 \<Rightarrow> randomx_cache option \<Rightarrow> randomx_dataset option \<Rightarrow> int \<Rightarrow> mem \<Rightarrow> heap
    \<Rightarrow> (vm_object option \<times> heap) option" where
  "randomx_create_vm oc flags cache dataset numa_node scratchpad h =
    (if \<not> ((cache \<noteq> None \<or> has_flag flags RANDOMX_FLAG_FULL_MEM) \<and>
            (case cache of None \<Rightarrow> True | Some c \<Rightarrow> isInitialized c) \<and>
            (dataset \<noteq> None \<or> \<not> has_flag flags RANDOMX_FLAG_FULL_MEM)) then None
     else (case vm_class_of flags of None \<Rightarrow> None
       | Some cls \<Rightarrow>
          if \<not> o_new oc \<or> compiled cls \<and> \<not> o_jit oc then Some (None, h)
          else
            let h = h\<lparr>h_vms := h_vms h + 1\<rparr>;
                p = (case cache of None \<Rightarrow> NullPtr | Some c \<Rightarrow> setCache cls c NullPtr);
                key = (case cache of None \<Rightarrow> [] | Some c \<Rightarrow> ca_cacheKey c);
                p = (case dataset of None \<Rightarrow> p | Some d \<Rightarrow> setDataset cls d p)
            in if p = NullPtr then Some (None, h\<lparr>h_vms := h_vms h - 1\<rparr>)
               else Some (Some \<lparr>vo_class = cls, vo_flags = flags, vo_ptr = p, vo_cacheKey = key,
                 vo_numa_node = numa_node, vo_scratchpad = scratchpad\<rparr>, h)))"

text \<open>Whether the machine already has the memory of the cache is a comparison of pointers: an
  argument.\<close>

definition randomx_vm_set_cache :: "bool \<Rightarrow> vm_object \<Rightarrow> randomx_cache \<Rightarrow> vm_object option" where
  "randomx_vm_set_cache same_memory machine cache =
    (if \<not> isInitialized cache then None
     else if vo_cacheKey machine \<noteq> ca_cacheKey cache \<or> \<not> same_memory
     then Some (machine\<lparr>vo_ptr := setCache (vo_class machine) cache (vo_ptr machine), vo_cacheKey := ca_cacheKey cache\<rparr>)
     else Some machine)"

definition randomx_vm_set_dataset :: "vm_object \<Rightarrow> randomx_dataset \<Rightarrow> vm_object" where
  "randomx_vm_set_dataset machine dataset =
     machine\<lparr>vo_ptr := setDataset (vo_class machine) dataset (vo_ptr machine)\<rparr>"

definition randomx_destroy_vm :: "heap \<Rightarrow> heap" where
  "randomx_destroy_vm h = h\<lparr>h_vms := h_vms h - 1\<rparr>"

section \<open>Parallel initialisation\<close>

text \<open>The slice of a thread. The workers run in any order: \<open>order\<close> lists them as they run.\<close>

definition slice :: "nat \<Rightarrow> nat \<Rightarrow> nat \<Rightarrow> u32 \<times> u32" where
  "slice items threads i = (of_nat ((items * i) div threads), of_nat ((items * (i + 1)) div threads))"

definition init_worker :: "dataset_fn \<Rightarrow> mem \<Rightarrow> randomx_cache \<Rightarrow> nat \<Rightarrow> nat \<Rightarrow> nat \<Rightarrow> mem option \<Rightarrow> mem option" where
  "init_worker jit buf cache items threads i m =
    (case slice items threads i of (s, e) \<Rightarrow>
       Option.bind m (\<lambda>m. randomx_init_dataset jit buf cache m (unat s) (unat (e - s))))"

definition init_parallel :: "dataset_fn \<Rightarrow> mem \<Rightarrow> randomx_cache \<Rightarrow> mem \<Rightarrow> nat \<Rightarrow> nat \<Rightarrow> nat list \<Rightarrow> mem option" where
  "init_parallel jit buf cache m items threads order =
    fold (init_worker jit buf cache items threads) order (Some m)"

end
