(* ===== verification/Rx_Job.thy ===== *)
theory Rx_Job
  imports Pipeline
begin

text \<open>
  The mining job of \<^verbatim>\<open>rx_job.h\<close> and \<^verbatim>\<open>rx_job.cpp\<close>, with the target and the variant
  parsed by \<^verbatim>\<open>rx.h\<close>: the operations that JavaScript calls, the nonce range, the check of a
  share. An operation is a function of the shared state; how the threads interleave is in
  \<open>Nonces\<close>, the loop of a thread in \<open>Miner\<close>. A JavaScript number is given by its
  \<^verbatim>\<open>Uint32Value\<close>.
\<close>

section \<open>Constants and helpers\<close>

definition kNonceOffset :: nat where [config]: "kNonceOffset = 39"
definition kMaxBlobSize :: nat where [config]: "kMaxBlobSize = 408"
definition kNicehashMask :: u32 where "kNicehashMask = 0xFF000000"
definition kNicehashLimit :: u32 where "kNicehashLimit = 0x01000000"
definition kVmAcquireTries :: nat where "kVmAcquireTries = 200"

definition pack_range :: "u32 \<Rightarrow> u32 \<Rightarrow> u64" where
  "pack_range start limit = push_bit 32 (ucast limit) OR ucast start"

text \<open>\<^verbatim>\<open>static_cast<uint32_t>(packed)\<close> and \<^verbatim>\<open>static_cast<uint32_t>(packed >> 32)\<close>.\<close>

definition current_of :: "u64 \<Rightarrow> u32" where "current_of packed = ucast packed"
definition limit_of :: "u64 \<Rightarrow> u32" where "limit_of packed = ucast (drop_bit 32 packed)"

text \<open>A byte vector as memory.\<close>

definition data :: "u8 list \<Rightarrow> mem" where
  "data bs = (\<lambda>i. if i < length bs then bs ! i else 0)"

definition ParseTarget :: "u8 list \<Rightarrow> u64" where
  "ParseTarget tgt =
    (if 8 \<le> length tgt then load64 (data tgt) 0
     else if 4 \<le> length tgt
     then let compact = load32 (data tgt) 0
          in if compact \<noteq> 0 then 0xFFFFFFFFFFFFFFFF div (0xFFFFFFFF div ucast compact) else 0
     else 0)"

datatype RxAlgoVersion = V1 | V2

definition ParseVariant :: "string \<Rightarrow> RxAlgoVersion option" where
  "ParseVariant variant =
    (if variant = ''rx/0'' \<or> variant = ''rx/monero'' then Some V1
     else if variant = ''rx/v2'' then Some V2 else None)"

text \<open>The loop ends behind the fourth byte, at the end of the blob or at a byte without
  continuation bit.\<close>

function txn_loop :: "u8 list \<Rightarrow> nat \<Rightarrow> nat \<Rightarrow> u32 \<Rightarrow> u32" where
  "txn_loop blob i sh count =
    (if i < length blob \<and> i < 75 + 4
     then let count = count OR push_bit sh (ucast (blob ! i AND 0x7F))
          in if blob ! i AND 0x80 = 0 then count else txn_loop blob (i + 1) (sh + 7) count
     else count)"
  by pat_completeness auto
termination by (relation "measure (\<lambda>(blob, i, _, _). 79 - i)") auto

declare txn_loop.simps [simp del]

definition read_txn_count :: "u8 list \<Rightarrow> u32" where
  "read_txn_count blob = txn_loop blob 75 0 0"

section \<open>State\<close>

record job =
  j_blob :: mem
  j_size :: nat
  j_target :: u64
  j_version :: u32
  j_nicehash :: bool
  j_ranged :: bool
  j_range :: u64
  j_queued :: "(u32 \<times> u32) list"
  j_active :: bool
  j_paused :: bool
  j_live :: u32
  j_hashes_done :: u64
  j_throttle_ms :: u32
  j_throttle_count :: u32
  j_inflight :: u32

definition initial_job :: job where
  "initial_job = \<lparr>j_blob = (\<lambda>_. 0), j_size = 0, j_target = 0, j_version = 0, j_nicehash = False, j_ranged = False,
     j_range = pack_range 0 0xFFFFFFFF, j_queued = [], j_active = False, j_paused = False, j_live = 0,
     j_hashes_done = 0, j_throttle_ms = 0, j_throttle_count = 0, j_inflight = 0\<rparr>"

section \<open>Calls from JavaScript\<close>

datatype js = JBuffer "u8 list" | JNumber u32 | JBoolean bool | JString string | JOther

datatype js_error =
    Expected_blob_target_nicehash_reset
  | Blob_too_short
  | Invalid_target
  | Expected_start_limit
  | Expected_threads_duration

record sent =
  s_diff :: u64
  s_version :: u32
  s_txnCount :: "u32 option"

definition is_number :: "js list \<Rightarrow> nat \<Rightarrow> bool" where
  "is_number args i \<longleftrightarrow> i < length args \<and> (case args ! i of JNumber _ \<Rightarrow> True | _ \<Rightarrow> False)"

definition number_or :: "u32 \<Rightarrow> js list \<Rightarrow> nat \<Rightarrow> u32" where
  "number_or d args i = (if i < length args then (case args ! i of JNumber n \<Rightarrow> n | _ \<Rightarrow> d) else d)"

text \<open>The part of \<^verbatim>\<open>SendJob\<close> under \<^verbatim>\<open>m_job_mutex\<close>. \<^verbatim>\<open>reset_nonce\<close> without a range keeps the
  position in the old range.\<close>

definition new_range :: "job \<Rightarrow> bool \<Rightarrow> bool \<Rightarrow> bool \<Rightarrow> u32 \<Rightarrow> u32 \<Rightarrow> u64" where
  "new_range st nicehash_active ranged reset_nonce start_nonce nonce_limit =
    (if ranged then pack_range start_nonce (max start_nonce nonce_limit)
     else let range_end = if nicehash_active then kNicehashLimit else 0xFFFFFFFF;
              range_begin = if reset_nonce then 0 else min (current_of (j_range st)) range_end
          in pack_range range_begin range_end)"

definition install :: "job \<Rightarrow> u8 list \<Rightarrow> nat \<Rightarrow> u64 \<Rightarrow> bool \<Rightarrow> bool \<Rightarrow> bool \<Rightarrow> u32 \<Rightarrow> u32 \<Rightarrow> job" where
  "install st blob blob_size tgt nicehash reset_nonce ranged start_nonce nonce_limit =
    (let m = write_bytes (j_blob st) 0 (take blob_size blob);
         nicehash_active = (nicehash \<or> load32 m kNonceOffset AND kNicehashMask \<noteq> 0)
     in st\<lparr>j_blob := m, j_size := blob_size, j_target := tgt, j_nicehash := nicehash_active, j_ranged := ranged,
          j_queued := [], j_range := new_range st nicehash_active ranged reset_nonce start_nonce nonce_limit,
          j_version := j_version st + 1\<rparr>)"

definition SendJob :: "js list \<Rightarrow> job \<Rightarrow> (js_error + sent) \<times> job" where
  "SendJob args st =
    (case args of
       JBuffer blob # JBuffer tgt # JBoolean nicehash # JBoolean reset_nonce # _ \<Rightarrow>
         let blob_size = min (length blob) kMaxBlobSize
         in if blob_size \<le> kNonceOffset + 4 then (Inl Blob_too_short, st)
            else let new_target = ParseTarget tgt
            in if new_target = 0 then (Inl Invalid_target, st)
            else let st' = install st blob blob_size new_target nicehash reset_nonce (is_number args 4)
                             (number_or 0 args 4) (number_or 0xFFFFFFFF args 5);
                     txn = read_txn_count (take blob_size blob)
            in (Inr \<lparr>s_diff = 0xFFFFFFFFFFFFFFFF div new_target, s_version = j_version st',
                      s_txnCount = if txn \<noteq> 0 then Some txn else None\<rparr>, st')
     | _ \<Rightarrow> (Inl Expected_blob_target_nicehash_reset, st))"

definition QueueRange :: "js list \<Rightarrow> job \<Rightarrow> (js_error + bool) \<times> job" where
  "QueueRange args st =
    (case args of
       JNumber start # JNumber limit # _ \<Rightarrow>
         if limit \<le> start \<or> \<not> j_ranged st then (Inr False, st)
         else (Inr True, st\<lparr>j_queued := j_queued st @ [(start, limit)]\<rparr>)
     | _ \<Rightarrow> (Inl Expected_start_limit, st))"

definition PendingNonces :: "job \<Rightarrow> u64" where
  "PendingNonces st =
    (let current = current_of (j_range st); limit = limit_of (j_range st);
         pending = (if current < limit then ucast (limit - current) else 0)
     in fold (\<lambda>(start, limit) pending. pending + ucast (limit - start)) (j_queued st) pending)"

definition GetHashes :: "job \<Rightarrow> u64" where "GetHashes st = j_hashes_done st"

definition Throttle :: "js list \<Rightarrow> job \<Rightarrow> (js_error + unit) \<times> job" where
  "Throttle args st =
    (case args of
       JNumber threads # JNumber duration # _ \<Rightarrow>
         (Inr (), st\<lparr>j_throttle_ms := duration, j_throttle_count := j_throttle_count st + threads\<rparr>)
     | _ \<Rightarrow> (Inl Expected_threads_duration, st))"

definition Pause :: "job \<Rightarrow> job" where "Pause st = st\<lparr>j_paused := True\<rparr>"

section \<open>Nonces\<close>

definition HasWork :: "job \<Rightarrow> nat \<Rightarrow> bool" where
  "HasWork st sz =
    (if sz = 0 \<or> j_paused st then False
     else if current_of (j_range st) < limit_of (j_range st) then True
     else j_queued st \<noteq> [])"

text \<open>\<open>AdvanceRange\<close> returns whether the caller should try again.\<close>

definition AdvanceRange :: "u64 \<Rightarrow> job \<Rightarrow> bool \<times> job" where
  "AdvanceRange exhausted st =
    (if j_range st \<noteq> exhausted then (True, st)
     else (case j_queued st of [] \<Rightarrow> (False, st)
       | (start, limit) # rest \<Rightarrow> (True, st\<lparr>j_queued := rest, j_range := pack_range start limit\<rparr>)))"

text \<open>\<open>NextNonce\<close> without interference: the exchange succeeds.\<close>

function next_loop :: "job \<Rightarrow> u32 option \<times> job" where
  "next_loop st =
    (let packed = j_range st; current = current_of packed; limit = limit_of packed
     in if current < limit then (Some current, st\<lparr>j_range := pack_range (current + 1) limit\<rparr>)
        else (case AdvanceRange packed st of
                (True, st') \<Rightarrow> next_loop st'
              | (False, st') \<Rightarrow> (None, st')))"
  by pat_completeness auto
termination
  by (relation "measure (\<lambda>st. length (j_queued st))")
    (auto simp: AdvanceRange_def split: list.splits if_splits)

declare next_loop.simps [simp del]

definition NextNonce :: "job \<Rightarrow> u32 option \<times> job" where
  "NextNonce st = (if j_paused st then (None, st) else next_loop st)"

text \<open>\<open>WriteNonce\<close> with the value of \<^verbatim>\<open>m_nicehash && !m_ranged\<close>.\<close>

definition write_nonce :: "bool \<Rightarrow> mem \<Rightarrow> u32 \<Rightarrow> mem" where
  "write_nonce keep blob nonce =
    (let nonce = if keep then load32 blob kNonceOffset AND kNicehashMask OR (nonce AND NOT kNicehashMask) else nonce
     in store32 blob kNonceOffset nonce)"

definition WriteNonce :: "job \<Rightarrow> mem \<Rightarrow> u32 \<Rightarrow> mem" where
  "WriteNonce st = write_nonce (j_nicehash st \<and> \<not> j_ranged st)"

section \<open>Shares and threads\<close>

record JobResult =
  r_nonce :: "u8 list"
  r_result :: "u8 list"
  r_version :: u32

text \<open>The share that a hash makes, if its upper quarter is at most the target.\<close>

definition share_of :: "u8 list \<Rightarrow> mem \<Rightarrow> u64 \<Rightarrow> u32 \<Rightarrow> JobResult option" where
  "share_of hash blob tgt version =
    (if load64 (data hash) 24 > tgt then None
     else Some \<lparr>r_nonce = read_bytes blob kNonceOffset 4, r_result = take 32 hash, r_version = version\<rparr>)"

text \<open>Whether the queue of the submit function accepts the call is \<open>accepted\<close>.\<close>

definition SubmitShare :: "bool \<Rightarrow> u8 list \<Rightarrow> mem \<Rightarrow> u64 \<Rightarrow> u32 \<Rightarrow> job \<Rightarrow> JobResult option \<times> job" where
  "SubmitShare accepted hash blob tgt version st =
    (case share_of hash blob tgt version of None \<Rightarrow> (None, st)
     | Some r \<Rightarrow>
        let st = st\<lparr>j_inflight := j_inflight st + 1\<rparr>
        in if accepted then (Some r, st) else (None, st\<lparr>j_inflight := j_inflight st - 1\<rparr>))"

text \<open>The callback on the main thread: whether it releases the callback reference.\<close>

definition share_delivered :: "job \<Rightarrow> bool \<times> job" where
  "share_delivered st = (j_inflight st = 1 \<and> \<not> j_active st, st\<lparr>j_inflight := j_inflight st - 1\<rparr>)"

text \<open>\<open>ApplyThrottle\<close> without interference: for how long the thread sleeps.\<close>

definition ApplyThrottle :: "job \<Rightarrow> u32 option \<times> job" where
  "ApplyThrottle st =
    (if j_throttle_count st = 0 then (None, st)
     else (Some (j_throttle_ms st), st\<lparr>j_throttle_count := j_throttle_count st - 1\<rparr>))"

record ThreadSlot =
  core_id :: u32
  numa_node :: u32

text \<open>\<open>PlanThreads\<close> in a build without hwloc; \<open>hw\<close> is \<^verbatim>\<open>hardware_concurrency()\<close>.\<close>

definition PlanThreads :: "u32 \<Rightarrow> u32 list \<Rightarrow> ThreadSlot list" where
  "PlanThreads hw counts =
    (let counts = (if counts = [] then [if hw > 0 then hw else 1] else counts)
     in fold (\<lambda>n slots. for_range 0 (unat n)
          (\<lambda>i slots. slots @ [\<lparr>core_id = of_nat (length slots), numa_node = 0\<rparr>]) slots) counts [])"

text \<open>The destructor of \<^verbatim>\<open>LiveGuard\<close>: the last thread to leave clears the flag; whether it also
  releases the callback.\<close>

definition LiveGuard_exit :: "job \<Rightarrow> bool \<times> job" where
  "LiveGuard_exit st =
    (let live = j_live st; st = st\<lparr>j_live := live - 1\<rparr>
     in if live \<noteq> 1 then (False, st)
        else if \<not> j_active st then (False, st) else (True, st\<lparr>j_active := False\<rparr>))"

text \<open>\<open>StopLoop\<close> joins the threads: every live one leaves its loop.\<close>

definition StopLoop :: "job \<Rightarrow> job" where
  "StopLoop st =
    (let st = st\<lparr>j_active := False\<rparr>;
         st = for_range 0 (unat (j_live st)) (\<lambda>_ st. snd (LiveGuard_exit st)) st
     in st\<lparr>j_throttle_count := 0\<rparr>)"

text \<open>Whether \<open>Stop\<close> releases the callback.\<close>

definition Stop :: "job \<Rightarrow> bool \<times> job" where
  "Stop st = (let st = StopLoop st in (j_inflight st = 0, st))"

text \<open>\<open>Start\<close> returns the slots of the threads it creates.\<close>

definition Start :: "u32 \<Rightarrow> u32 list \<Rightarrow> job \<Rightarrow> ThreadSlot list \<times> job" where
  "Start hw counts st =
    (if j_active st \<and> j_live st > 0 then ([], st\<lparr>j_paused := False\<rparr>)
     else let st = StopLoop st; slots = PlanThreads hw counts
          in if slots = [] then ([], st)
             else (slots, st\<lparr>j_active := True, j_paused := False, j_live := j_live st + of_nat (length slots)\<rparr>))"

end
