(* ===== verification/Rx.thy ===== *)
theory Rx
  imports Api Rx_Job "HOL-Library.AList"
begin

text \<open>
  The object \<^verbatim>\<open>Rx\<close> that the JavaScript side holds (\<^verbatim>\<open>rx.cpp\<close>, \<^verbatim>\<open>rx.h\<close>): the choice of flags and
  implementations from the features of the processor, the variant, the cache, one dataset per
  NUMA node, and the machines that mining threads ask for; and the worker that allocates and
  initialises cache and datasets (\<^verbatim>\<open>rx_worker.cpp\<close>). The ledger of \<open>Api\<close> accounts for what is
  alive. \<open>None\<close> as the result of an operation is a failed \<^verbatim>\<open>assert\<close> or a seed whose program
  generation does not end.
\<close>

section \<open>Features of the processor\<close>

text \<open>The registers eax, ebx, ecx and edx that \<^verbatim>\<open>cpuid\<close> returns for a leaf, and the low word of
  \<^verbatim>\<open>xgetbv(0)\<close>, on x86.\<close>

record processor =
  cpuid :: "nat \<Rightarrow> nat \<Rightarrow> u32"
  xgetbv :: u32

definition has_aes :: "processor \<Rightarrow> bool" where
  "has_aes p \<longleftrightarrow> bit (cpuid p 1 2) 25"

definition has_sse41 :: "processor \<Rightarrow> bool" where
  "has_sse41 p \<longleftrightarrow> bit (cpuid p 1 2) 19"

definition has_ssse3 :: "processor \<Rightarrow> bool" where
  "has_ssse3 p \<longleftrightarrow> bit (cpuid p 1 2) 9"

definition has_avx2 :: "processor \<Rightarrow> bool" where
  "has_avx2 p =
    (if \<not> bit (cpuid p 1 2) 27 \<or> \<not> bit (cpuid p 1 2) 28 then False
     else if xgetbv p AND 0x6 \<noteq> 0x6 then False
     else bit (cpuid p 7 1) 5)"

definition has_vaes512 :: "bool \<Rightarrow> processor \<Rightarrow> bool" where
  "has_vaes512 with_vaes p =
    (if \<not> with_vaes then False
     else if \<not> bit (cpuid p 1 2) 27 then False
     else if xgetbv p AND 0xE6 \<noteq> 0xE6 then False
     else bit (cpuid p 7 1) 16 \<and> bit (cpuid p 7 2) 9)"

text \<open>What the build contains, what the system offers, and the topology that hwloc reports: the
  index and the number of processing units of each NUMA node, and the units of the machine.
  Without hwloc there is none.\<close>

record hw_topology =
  nodes :: "(u32 \<times> int) list"
  all_pus :: int

record platform =
  pf_cpu :: processor
  pf_vaes :: bool
  pf_sse41 :: bool
  pf_blake_avx2 :: bool
  pf_argon_avx2 :: bool
  pf_argon_ssse3 :: bool
  pf_large_pages :: bool
  pf_size_max :: nat
  pf_topology :: "hw_topology option"
  pf_concurrency :: int

definition aes_available :: "platform \<Rightarrow> bool" where
  "aes_available P = has_aes (pf_cpu P)"

definition vaes512_available :: "platform \<Rightarrow> bool" where
  "vaes512_available P = has_vaes512 (pf_vaes P) (pf_cpu P)"

text \<open>The compression function and the one-shot function that \<open>SelectBlake2Impl\<close> leaves behind.\<close>

datatype compress_impl = Compress_integer | Compress_sse41

definition SelectBlake2Impl :: "platform \<Rightarrow> compress_impl \<times> bool" where
  "SelectBlake2Impl P =
    (if pf_sse41 P \<and> has_sse41 (pf_cpu P) then Compress_sse41 else Compress_integer,
     pf_blake_avx2 P \<and> has_avx2 (pf_cpu P))"

definition Blake2ImplName :: "platform \<Rightarrow> string" where
  "Blake2ImplName P =
    (if snd (SelectBlake2Impl P) then ''avx2''
     else if fst (SelectBlake2Impl P) \<noteq> Compress_integer then ''sse41''
     else ''reference'')"

definition AesImplName :: "platform \<Rightarrow> string" where
  "AesImplName P = (if vaes512_available P then ''vaes512'' else if aes_available P then ''aes-ni'' else ''soft'')"

section \<open>Flags\<close>

datatype RxMode = Fast | Light

definition common_flags :: "platform \<Rightarrow> u32" where
  "common_flags P =
    (let flags = RANDOMX_FLAG_JIT;
         flags = if aes_available P then flags OR RANDOMX_FLAG_HARD_AES else flags
     in if pf_large_pages P then flags OR RANDOMX_FLAG_LARGE_PAGES else flags)"

definition build_flags :: "platform \<Rightarrow> RxMode \<Rightarrow> RxAlgoVersion \<Rightarrow> u32" where
  "build_flags P mode version =
    (let flags = common_flags P;
         flags = if mode = Fast then flags OR RANDOMX_FLAG_FULL_MEM else flags
     in if version = V2 then flags OR RANDOMX_FLAG_V2 else flags)"

definition build_cache_flags :: "platform \<Rightarrow> u32" where
  "build_cache_flags P =
    (let flags = common_flags P
     in if pf_argon_avx2 P \<and> has_avx2 (pf_cpu P) then flags OR RANDOMX_FLAG_ARGON2_AVX2
        else if pf_argon_ssse3 P \<and> has_ssse3 (pf_cpu P) then flags OR RANDOMX_FLAG_ARGON2_SSSE3
        else flags)"

section \<open>The object\<close>

text \<open>\<^verbatim>\<open>datasets\<close> is a map from the node to a pointer that may be null.\<close>

record rx =
  rx_pending :: int
  rx_updating :: bool
  rx_active :: int
  rx_mode :: RxMode
  rx_cache :: "randomx_cache option"
  rx_datasets :: "(u32 \<times> randomx_dataset option) list"
  rx_variant :: string
  rx_version :: RxAlgoVersion
  rx_heap :: heap
  rx_scratch :: nat

datatype rx_error = Expected_variant_and_mode | Invalid_variant | Expected_seed_hash

definition kMaxSeedSize :: nat where [config]: "kMaxSeedSize = 32"

definition apply_variant :: "string \<Rightarrow> rx \<Rightarrow> rx" where
  "apply_variant variant rx =
    (case ParseVariant variant of None \<Rightarrow> rx
     | Some version \<Rightarrow> rx\<lparr>rx_variant := variant, rx_version := version\<rparr>)"

definition blank_rx :: "heap \<Rightarrow> rx" where
  "blank_rx h = \<lparr>rx_pending = 0, rx_updating = False, rx_active = 0, rx_mode = Light, rx_cache = None,
     rx_datasets = [], rx_variant = ''rx/0'', rx_version = V1, rx_heap = h, rx_scratch = 0\<rparr>"

definition new_rx :: "js list \<Rightarrow> heap \<Rightarrow> rx_error + rx" where
  "new_rx args h =
    (case args of
       JString variant # JString mode # _ \<Rightarrow>
         (case ParseVariant variant of None \<Rightarrow> Inl Invalid_variant
          | Some _ \<Rightarrow> Inr ((apply_variant variant (blank_rx h))\<lparr>rx_mode := if mode = ''FAST'' then Fast else Light\<rparr>))
     | _ \<Rightarrow> Inl Expected_variant_and_mode)"

definition release_datasets :: "(u32 \<times> randomx_dataset option) list \<Rightarrow> heap \<Rightarrow> heap" where
  "release_datasets ds h =
    fold (\<lambda>(_, d) h. case d of None \<Rightarrow> h | Some d \<Rightarrow> randomx_release_dataset (ds_dealloc d) True h) ds h"

definition release_cache :: "rx \<Rightarrow> rx" where
  "release_cache rx =
    (case rx_cache rx of None \<Rightarrow> rx
     | Some c \<Rightarrow> rx\<lparr>rx_heap := randomx_release_cache (ca_dealloc c) True (ca_jit c) (rx_heap rx), rx_cache := None\<rparr>)"

definition release :: "rx \<Rightarrow> rx" where
  "release rx =
    release_cache (rx\<lparr>rx_heap := release_datasets (rx_datasets rx) (rx_heap rx), rx_datasets := []\<rparr>)"

definition GetVariant :: "rx \<Rightarrow> string" where
  "GetVariant rx = rx_variant rx"

text \<open>On success the seed goes to the queued worker.\<close>

definition queue_allocate :: "js list \<Rightarrow> string \<Rightarrow> rx \<Rightarrow> (rx_error + u8 list) \<times> rx" where
  "queue_allocate args variant rx =
    (case args of
       JBuffer seed_hash # _ \<Rightarrow>
         if variant \<noteq> [] \<and> ParseVariant variant = None then (Inl Invalid_variant, rx)
         else let rx = rx\<lparr>rx_pending := rx_pending rx + 1, rx_updating := True\<rparr>;
                  rx = if variant \<noteq> [] then apply_variant variant rx else rx
              in (Inr seed_hash, rx)
     | _ \<Rightarrow> (Inl Expected_seed_hash, rx))"

definition allocate :: "js list \<Rightarrow> rx \<Rightarrow> (rx_error + u8 list) \<times> rx" where
  "allocate args rx = queue_allocate args [] rx"

definition reallocate :: "js list \<Rightarrow> rx \<Rightarrow> (rx_error + u8 list) \<times> rx" where
  "reallocate args rx =
    queue_allocate args (case args of _ # JString variant # _ \<Rightarrow> variant | _ \<Rightarrow> []) rx"

section \<open>Machines\<close>

text \<open>The beginning of \<^verbatim>\<open>create_vm\<close>, under the lock: whether there is a cache and no allocation is
  queued.\<close>

definition may_create :: "rx \<Rightarrow> bool" where
  "may_create rx \<longleftrightarrow> \<not> (rx_cache rx = None \<or> rx_updating rx)"

text \<open>The rest of it. Whether the scratchpad can be mapped is \<open>pad_ok\<close>, what it holds is \<open>pad\<close>.\<close>

definition make_vm :: "platform \<Rightarrow> outcome \<Rightarrow> bool \<Rightarrow> mem \<Rightarrow> u32 \<Rightarrow> rx \<Rightarrow> (vm_object option \<times> rx) option" where
  "make_vm P oc pad_ok pad node rx =
    (let found = (if rx_mode rx = Fast
                  then (case map_of (rx_datasets rx) node of Some (Some d) \<Rightarrow> Some (Some d) | _ \<Rightarrow> None)
                  else Some None)
     in case found of None \<Rightarrow> Some (None, rx)
        | Some dataset \<Rightarrow>
           if \<not> pad_ok then Some (None, rx)
           else let rx = rx\<lparr>rx_scratch := rx_scratch rx + 1\<rparr>
           in (case randomx_create_vm oc (build_flags P (rx_mode rx) (rx_version rx)) (rx_cache rx) dataset
                      (sint node) pad (rx_heap rx) of
                 None \<Rightarrow> None
               | Some (None, h) \<Rightarrow> Some (None, rx\<lparr>rx_heap := h, rx_scratch := rx_scratch rx - 1\<rparr>)
               | Some (Some vm, h) \<Rightarrow> Some (Some vm, rx\<lparr>rx_heap := h, rx_active := rx_active rx + 1\<rparr>)))"

definition create_vm :: "platform \<Rightarrow> outcome \<Rightarrow> bool \<Rightarrow> mem \<Rightarrow> u32 \<Rightarrow> rx \<Rightarrow> (vm_object option \<times> rx) option" where
  "create_vm P oc pad_ok pad node rx =
    (if \<not> may_create rx then Some (None, rx) else make_vm P oc pad_ok pad node rx)"

text \<open>The destructor of \<^verbatim>\<open>RxVm\<close>.\<close>

definition drop_vm :: "rx \<Rightarrow> rx" where
  "drop_vm rx = rx\<lparr>rx_heap := randomx_destroy_vm (rx_heap rx), rx_scratch := rx_scratch rx - 1, rx_active := rx_active rx - 1\<rparr>"

section \<open>The allocation worker\<close>

definition kDrainSpins :: nat where [config]: "kDrainSpins = 1000"

datatype alloc_error = Drain_timeout | Cache_failed | Dataset_failed

text \<open>What a run of the worker meets: the number of machines at each look, whether the allocations
  succeed, what fresh memory holds and in which order the threads of a node run.\<close>

record chance =
  ch_active :: "nat \<Rightarrow> int"
  ch_cache :: outcome
  ch_cache_junk :: "mem \<times> Instruction list list"
  ch_primary :: "nat \<Rightarrow> outcome"
  ch_fallback :: "nat \<Rightarrow> outcome"
  ch_data_junk :: mem
  ch_buf :: mem
  ch_order :: "nat \<Rightarrow> nat list"

text \<open>The functions that are arguments: Argon2, the BLAKE2 of the byte generator, and the dataset
  function of the JIT compiler.\<close>

record external =
  x_argon :: "u8 list \<Rightarrow> mem"
  x_H :: "u8 list \<Rightarrow> u8 list"
  x_jit :: dataset_fn

function drain :: "(nat \<Rightarrow> int) \<Rightarrow> nat \<Rightarrow> bool" where
  "drain act spins =
    (if act spins > 0 then (if spins \<ge> kDrainSpins then False else drain act (spins + 1)) else True)"
  by pat_completeness auto
termination by (relation "measure (\<lambda>(_, spins). kDrainSpins - spins)") auto

declare drain.simps [simp del]

definition Reserve :: "platform \<Rightarrow> mem \<Rightarrow> outcome \<Rightarrow> outcome \<Rightarrow> u32 \<Rightarrow> u32 \<Rightarrow> u32 \<Rightarrow> rx \<Rightarrow> randomx_dataset option \<times> rx" where
  "Reserve P junk oc1 oc2 numa_id primary fallback rx =
    (case map_of (rx_datasets rx) numa_id of
       Some (Some d) \<Rightarrow> (Some d, rx)
     | _ \<Rightarrow>
        (case randomx_alloc_dataset (pf_size_max P) junk oc1 primary (rx_heap rx) of (d, h) \<Rightarrow>
          (case if d = None \<and> primary \<noteq> fallback
                then randomx_alloc_dataset (pf_size_max P) junk oc2 fallback h else (d, h) of (d, h) \<Rightarrow>
            (case d of
               None \<Rightarrow> (None, rx\<lparr>rx_heap := h, rx_datasets := AList.delete numa_id (rx_datasets rx)\<rparr>)
             | Some d \<Rightarrow> (Some d, rx\<lparr>rx_heap := h, rx_datasets := AList.update numa_id (Some d) (rx_datasets rx)\<rparr>)))))"

text \<open>One node: the dataset is reserved and filled in place by one thread per processing unit.\<close>

definition build_node :: "platform \<Rightarrow> external \<Rightarrow> chance \<Rightarrow> u32 \<Rightarrow> u32 \<Rightarrow> nat \<Rightarrow> u32 \<times> nat \<Rightarrow> bool \<times> rx \<Rightarrow> (bool \<times> rx) option" where
  "build_node P X ch primary fallback n node s =
    (case (node, s) of ((numa_id, pus), (ok, rx)) \<Rightarrow>
      (case Reserve P (ch_data_junk ch) (ch_primary ch n) (ch_fallback ch n) numa_id primary fallback rx of
         (None, rx) \<Rightarrow> Some (ok, rx)
       | (Some d, rx) \<Rightarrow>
          (case rx_cache rx of None \<Rightarrow> None
           | Some c \<Rightarrow>
              (case init_parallel (x_jit X) (ch_buf ch) c (ds_memory d) randomx_dataset_item_count pus (ch_order ch n) of
                 None \<Rightarrow> None
               | Some m \<Rightarrow> Some (True, rx\<lparr>rx_datasets := AList.update numa_id (Some (d\<lparr>ds_memory := m\<rparr>)) (rx_datasets rx)\<rparr>)))))"

text \<open>The nodes to fill with their number of threads, with and without hwloc.\<close>

definition at_least_one :: "int \<Rightarrow> nat" where
  "at_least_one n = (if n \<le> 0 then 1 else nat n)"

definition build_nodes :: "platform \<Rightarrow> (u32 \<times> nat) list" where
  "build_nodes P =
    (case pf_topology P of
       None \<Rightarrow> [(0, at_least_one (pf_concurrency P))]
     | Some t \<Rightarrow> if nodes t = [] then [(0, at_least_one (all_pus t))]
                 else map (\<lambda>(numa_id, pus). (numa_id, at_least_one pus)) (nodes t))"

fun build_loop :: "platform \<Rightarrow> external \<Rightarrow> chance \<Rightarrow> u32 \<Rightarrow> u32 \<Rightarrow> nat \<Rightarrow> (u32 \<times> nat) list \<Rightarrow> bool \<times> rx \<Rightarrow> (bool \<times> rx) option" where
  "build_loop P X ch primary fallback n [] s = Some s"
| "build_loop P X ch primary fallback n (node # ns) s =
    (case build_node P X ch primary fallback n node s of None \<Rightarrow> None
     | Some s \<Rightarrow> build_loop P X ch primary fallback (n + 1) ns s)"

definition BuildDataset :: "platform \<Rightarrow> external \<Rightarrow> chance \<Rightarrow> rx \<Rightarrow> (bool \<times> rx) option" where
  "BuildDataset P X ch rx =
    (let fallback = RANDOMX_FLAG_FULL_MEM;
         primary = if pf_large_pages P then RANDOMX_FLAG_FULL_MEM OR RANDOMX_FLAG_LARGE_PAGES else fallback
     in build_loop P X ch primary fallback 0 (build_nodes P) (False, rx))"

text \<open>\<^verbatim>\<open>Execute\<close> behind the wait for the machines.\<close>

definition replace :: "platform \<Rightarrow> external \<Rightarrow> chance \<Rightarrow> u8 list \<Rightarrow> rx \<Rightarrow> ((alloc_error + bool) \<times> rx) option" where
  "replace P X ch seed_hash rx =
    (let rx = release_cache rx
     in case randomx_alloc_cache (pf_argon_avx2 P) (pf_argon_ssse3 P) (ch_cache_junk ch) (ch_cache ch) (build_cache_flags P) (rx_heap rx) of
          None \<Rightarrow> None
        | Some (None, h) \<Rightarrow> Some (Inl Cache_failed, rx\<lparr>rx_heap := h\<rparr>)
        | Some (Some c, h) \<Rightarrow>
           (case randomx_init_cache (x_argon X) (x_H X) c (take (min (length seed_hash) kMaxSeedSize) seed_hash) of
              None \<Rightarrow> None
            | Some c \<Rightarrow>
               let rx = rx\<lparr>rx_heap := h, rx_cache := Some c\<rparr>
               in if rx_mode rx \<noteq> Fast then Some (Inr True, rx)
                  else (case BuildDataset P X ch rx of None \<Rightarrow> None
                    | Some (ok, rx) \<Rightarrow> Some (if ok then Inr True else Inl Dataset_failed, rx))))"

definition Execute :: "platform \<Rightarrow> external \<Rightarrow> chance \<Rightarrow> u8 list \<Rightarrow> rx \<Rightarrow> ((alloc_error + bool) \<times> rx) option" where
  "Execute P X ch seed_hash rx =
    (if \<not> drain (ch_active ch) 0 then Some (Inl Drain_timeout, rx) else replace P X ch seed_hash rx)"

definition Clear :: "rx \<Rightarrow> rx" where
  "Clear rx =
    (let last = (rx_pending rx = 1); rx = rx\<lparr>rx_pending := rx_pending rx - 1\<rparr>
     in if last then rx\<lparr>rx_updating := False\<rparr> else rx)"

text \<open>What the promise is settled with, on the main thread.\<close>

definition OnOK :: "bool \<Rightarrow> rx \<Rightarrow> (alloc_error + bool) \<times> rx" where
  "OnOK result rx = (Inr result, Clear rx)"

definition OnError :: "alloc_error \<Rightarrow> rx \<Rightarrow> (alloc_error + bool) \<times> rx" where
  "OnError err rx = (Inl err, Clear rx)"

end
