(* ===== verification/Api_Facts.thy ===== *)
theory Api_Facts
  imports Api
begin

text \<open>
  Facts about the C interface: no failed allocation leaks, every combination of flags has its
  machine class, a cache always holds the data of its key, a range of the dataset is filled
  exactly, the slices of the worker threads fill the whole dataset in any order, and so light
  and fast machines agree.
\<close>

section \<open>Allocation\<close>

text \<open>A flag is one bit: a combination of flags splits into its flags.\<close>

lemma and_flag:
  fixes x :: u32
  shows "x AND push_bit n 1 = (if bit x n then push_bit n 1 else 0)"
  by (rule bit_word_eqI) (auto simp: bit_simps)

lemma flag_bits:
  fixes x :: u32
  shows "x AND 1 = (if bit x 0 then 1 else 0)" "x AND 2 = (if bit x 1 then 2 else 0)" "x AND 4 = (if bit x 2 then 4 else 0)"
    "x AND 8 = (if bit x 3 then 8 else 0)" "x AND 16 = (if bit x 4 then 16 else 0)"
    "x AND 32 = (if bit x 5 then 32 else 0)" "x AND 64 = (if bit x 6 then 64 else 0)" "x AND 128 = (if bit x 7 then 128 else 0)"
  using and_flag [of x 0] and_flag [of x 1] and_flag [of x 2] and_flag [of x 3] and_flag [of x 4] and_flag [of x 5]
    and_flag [of x 6] and_flag [of x 7] by simp_all

lemma flag_cases:
  "has_flag flags RANDOMX_FLAG_LARGE_PAGES = bit flags 0" "has_flag flags RANDOMX_FLAG_HARD_AES = bit flags 1"
  "has_flag flags RANDOMX_FLAG_FULL_MEM = bit flags 2" "has_flag flags RANDOMX_FLAG_JIT = bit flags 3"
  "has_flag flags RANDOMX_FLAG_SECURE = bit flags 4" "has_flag flags RANDOMX_FLAG_ARGON2_SSSE3 = bit flags 5"
  "has_flag flags RANDOMX_FLAG_ARGON2_AVX2 = bit flags 6" "has_flag flags RANDOMX_FLAG_V2 = bit flags 7"
  by (simp_all add: has_flag_def config flag_bits)

lemma cache_case_total:
  "cache_case flags = Some (if has_flag flags RANDOMX_FLAG_LARGE_PAGES then LargePageAllocator else DefaultAllocator,
    has_flag flags RANDOMX_FLAG_JIT)"
  unfolding cache_case_def flag_cases Let_def bit.conj_disj_distrib
  by (simp add: config flag_bits)

text \<open>allocating a cache never leaks and never reaches \<^verbatim>\<open>UNREACHABLE\<close>: if the call
  returns a null pointer (no Argon2 implementation for the flags, or an exception from
  \<^verbatim>\<open>new\<close>, from the JIT compiler or from the allocator), the ledger is what it was; if it
  returns a cache, the cache is not initialised, owns exactly its memory and its compiler, and
  releasing it restores the ledger.\<close>

theorem alloc_cache_no_leak:
  "\<exists>r h'. randomx_alloc_cache have_avx2 have_ssse3 junk oc flags h = Some (r, h') \<and>
    (case r of None \<Rightarrow> h' = h
     | Some c \<Rightarrow> ca_jit c = has_flag flags RANDOMX_FLAG_JIT \<and>
         h_blocks h' = add_mset (ca_dealloc c, CacheSize) (h_blocks h) \<and>
         h_jits h' = h_jits h + (if ca_jit c then 1 else 0) \<and>
         randomx_release_cache (ca_dealloc c) True (ca_jit c) h' = h)"
  by (simp add: randomx_alloc_cache_def cache_case_total allocMemory_def randomx_release_cache_def deallocCache_def
      freeMemory_def new_cache_def Let_def split: option.splits)

text \<open>allocating a dataset never leaks: a null pointer leaves the ledger unchanged, also when
  the dataset does not fit the address space, and a dataset is released with the allocator that
  its memory came from.\<close>

theorem alloc_dataset_no_leak:
  "case randomx_alloc_dataset size_max junk oc flags h of
     (None, h') \<Rightarrow> h' = h
   | (Some d, h') \<Rightarrow> DatasetSize \<le> size_max \<and>
       h_blocks h' = add_mset (ds_dealloc d, DatasetSize) (h_blocks h) \<and>
       randomx_release_dataset (ds_dealloc d) True h' = h"
  by (auto simp: randomx_alloc_dataset_def allocMemory_def randomx_release_dataset_def deallocDataset_def
      freeMemory_def Let_def)

section \<open>Machines\<close>

text \<open>The attributes of a class.\<close>

fun light :: "vm_class \<Rightarrow> bool" where
  "light (InterpretedLightVm _ _) = True"
| "light (CompiledLightVm _ _ _) = True"
| "light _ = False"

fun secure :: "vm_class \<Rightarrow> bool" where
  "secure (CompiledVm _ _ s) = s"
| "secure (CompiledLightVm _ _ s) = s"
| "secure _ = False"

fun softAes :: "vm_class \<Rightarrow> bool" where
  "softAes (InterpretedVm _ s) = s"
| "softAes (InterpretedLightVm _ s) = s"
| "softAes (CompiledVm _ s _) = s"
| "softAes (CompiledLightVm _ s _) = s"

fun allocator :: "vm_class \<Rightarrow> Allocator" where
  "allocator (InterpretedVm a _) = a"
| "allocator (InterpretedLightVm a _) = a"
| "allocator (CompiledVm a _ _) = a"
| "allocator (CompiledLightVm a _ _) = a"

lemma class_attributes:
  "\<exists>cls. vm_class_of flags = Some cls \<and> (light cls \<longleftrightarrow> \<not> has_flag flags RANDOMX_FLAG_FULL_MEM) \<and>
    (compiled cls \<longleftrightarrow> has_flag flags RANDOMX_FLAG_JIT) \<and> (softAes cls \<longleftrightarrow> \<not> has_flag flags RANDOMX_FLAG_HARD_AES) \<and>
    (allocator cls = LargePageAllocator \<longleftrightarrow> has_flag flags RANDOMX_FLAG_LARGE_PAGES) \<and>
    (secure cls \<longleftrightarrow> has_flag flags RANDOMX_FLAG_JIT \<and> has_flag flags RANDOMX_FLAG_SECURE)"
  unfolding vm_class_of_def flag_cases Let_def bit.conj_disj_distrib
  by (cases "bit flags 0"; cases "bit flags 1"; cases "bit flags 2"; cases "bit flags 3")
    (simp_all add: config flag_bits class_defs)

text \<open>C40: every combination of flags has its machine class, so that the default case of the switch
  is unreachable: the class is light, compiled, with software AES, with large pages or secure
  exactly as the flags say, for all 2^32 flag words.\<close>

theorem vm_class_matches_flags:
  "\<exists>cls. vm_class_of flags = Some cls \<and> (light cls \<longleftrightarrow> \<not> has_flag flags RANDOMX_FLAG_FULL_MEM) \<and>
    (compiled cls \<longleftrightarrow> has_flag flags RANDOMX_FLAG_JIT) \<and> (softAes cls \<longleftrightarrow> \<not> has_flag flags RANDOMX_FLAG_HARD_AES) \<and>
    (allocator cls = LargePageAllocator \<longleftrightarrow> has_flag flags RANDOMX_FLAG_LARGE_PAGES) \<and>
    (secure cls \<longleftrightarrow> has_flag flags RANDOMX_FLAG_JIT \<and> has_flag flags RANDOMX_FLAG_SECURE)"
  by (rule class_attributes)

lemma setters:
  "setCache cls c p = (if light cls then CachePtr c else p)"
  "setDataset cls d p = (if light cls then p else DatasetPtr d)"
  by (cases cls; simp)+



lemma bit_set_flag: "bit (if b then x OR f else x) n \<longleftrightarrow> bit x n \<or> b \<and> bit f n" for x f :: u32
  by (simp add: bit_or_iff)

text \<open>on any processor and build, the recommended flags name an Argon2 implementation that the
  build has, so that allocating a cache with them can fail for lack of memory only.\<close>

theorem recommended_flags_usable:
  "selectArgonImpl avx2 ssse3 (randomx_get_flags compiler force aes avx2 ssse3 cpu) \<noteq> None"
  by (simp only: selectArgonImpl_def randomx_get_flags_def flag_cases Let_def bit_set_flag) (simp add: config)

section \<open>A cache holds the data of its key\<close>

lemma patch_instr_length: "length (fst (patch_instr j s)) = length (fst s)"
  by (cases s) (simp add: patch_instr_def Let_def)

lemma patch_length: "length (fst (for_range 0 n patch_instr s)) = length (fst s)"
  by (induction n) (simp_all add: patch_instr_length)

lemma cache_step_shape:
  assumes "cache_step H i (Some (p, r, g)) = Some (p', r', g')" "i < length p"
    "\<forall>sp\<in>set p. length (sp_buffer sp) = SuperscalarMaxSize"
  shows "length p' = length p \<and> (\<forall>sp\<in>set p'. length (sp_buffer sp) = SuperscalarMaxSize)"
proof -
  obtain sp g1 sp' where gen: "generateSuperscalar H (sp_buffer (p ! i)) g = Some (sp, g1)"
    and patch: "patch_program sp r = (sp', r')" and p': "p' = p[i := sp']"
    using assms(1) by (auto simp: cache_step_def split: option.splits prod.splits)
  have "length (sp_buffer sp) = SuperscalarMaxSize" using generated_ok(2) [OF gen] assms(2,3) by simp
  then have "length (sp_buffer sp') = SuperscalarMaxSize"
    using patch patch_length [of "sp_size sp" "(sp_buffer sp, r)"]
    by (auto simp: patch_program_def split: prod.splits)
  with assms(3) show ?thesis by (auto simp: p' dest: set_update_subset_insert [THEN subsetD])
qed

lemma initCache_shape:
  assumes "initCache argon H c0 key = Some c" "cache_shape c0"
  shows "cache_shape c"
proof -
  let ?ok = "\<lambda>p. length p = RANDOMX_CACHE_ACCESSES \<and> (\<forall>sp\<in>set p. length (sp_buffer sp) = SuperscalarMaxSize)"
  have run: "for_range 0 n (cache_step H) (Some (ca_programs c0, [], g0)) = Some (p, r, g) \<Longrightarrow> ?ok p"
    if "n \<le> RANDOMX_CACHE_ACCESSES" for n g0 p r g
    using that
  proof (induction n arbitrary: p r g)
    case 0
    then show ?case using assms(2) by (simp add: cache_shape_def)
  next
    case (Suc n)
    then obtain p1 r1 g1 where before: "for_range 0 n (cache_step H) (Some (ca_programs c0, [], g0)) = Some (p1, r1, g1)"
      by (cases "for_range 0 n (cache_step H) (Some (ca_programs c0, [], g0))") auto
    with Suc.IH [OF before] Suc.prems have ok: "?ok p1" by simp
    have "cache_step H n (Some (p1, r1, g1)) = Some (p, r, g)" using Suc.prems before by simp
    from cache_step_shape [OF this] ok Suc.prems(2) show ?case by simp
  qed
  obtain p r g where "for_range 0 RANDOMX_CACHE_ACCESSES (cache_step H) (Some (ca_programs c0, [], Blake2Generator_init key 0)) = Some (p, r, g)"
      "c = c0\<lparr>ca_memory := argon key, ca_programs := p, ca_reciprocals := r\<rparr>"
    using assms(1) by (auto simp: initCache_def split: option.splits)
  with run [OF order_refl] show ?thesis by (simp add: cache_shape_def)
qed

text \<open>A cache with eight full buffers that is initialised holds what \<open>initCache\<close> makes for its
  key.\<close>

definition keyed :: "(u8 list \<Rightarrow> mem) \<Rightarrow> (u8 list \<Rightarrow> u8 list) \<Rightarrow> randomx_cache \<Rightarrow> bool" where
  "keyed argon H c \<longleftrightarrow> cache_shape c \<and>
     (isInitialized c \<longrightarrow> (\<exists>c0 c1. cache_shape c0 \<and> initCache argon H c0 (ca_cacheKey c) = Some c1 \<and>
        ca_memory c1 = ca_memory c \<and> ca_programs c1 = ca_programs c \<and> ca_reciprocals c1 = ca_reciprocals c))"

lemma items_cong:
  "ca_memory c1 = ca_memory c \<Longrightarrow> ca_programs c1 = ca_programs c \<Longrightarrow> ca_reciprocals c1 = ca_reciprocals c \<Longrightarrow>
    initDatasetItem c1 = initDatasetItem c"
  by (intro ext) (simp add: initDatasetItem_def)

lemma initialize_cache_eq: "initialize_cache argon H c key = initCache argon H c key"
  by (cases "ca_initialize c") (simp_all add: initialize_cache_def)

lemma init_cache_keyed:
  assumes "keyed argon H cache" "randomx_init_cache argon H cache key = Some c"
  shows "keyed argon H c" "ca_cacheKey c = key"
proof -
  show key: "ca_cacheKey c = key"
    using assms(2) by (auto simp: randomx_init_cache_def split: if_splits)
  show "keyed argon H c"
  proof (cases "c = cache")
    case False
    with assms(2) obtain c1 where init: "initCache argon H cache key = Some c1" and c: "c = c1\<lparr>ca_cacheKey := key\<rparr>"
      by (auto simp: randomx_init_cache_def initialize_cache_eq split: if_splits)
    have "cache_shape cache" using assms(1) by (simp add: keyed_def)
    with initCache_shape [OF init] init key show ?thesis
      by (auto simp: keyed_def c cache_shape_def)
  qed (use assms(1) in simp)
qed


lemma new_cache_keyed:
  assumes "length bufs = RANDOMX_CACHE_ACCESSES" "\<forall>b\<in>set bufs. length b = SuperscalarMaxSize"
  shows "keyed argon H (new_cache (m, bufs) impl a jit)"
proof -
  have "\<not> isInitialized (new_cache (m, bufs) impl a jit)"
    using assms(1) by (simp add: isInitialized_def new_cache_def empty_program_def RANDOMX_CACHE_ACCESSES_def)
  then show ?thesis using assms by (simp add: keyed_def cache_shape_def new_cache_def)
qed


section \<open>Filling a range of the dataset\<close>

text \<open>The contract of \<^verbatim>\<open>cache->datasetInit\<close> for every kind of cache.\<close>

lemma datasetInit_contract:
  assumes "dataset_init jit initDatasetItem"
  shows "dataset_init (datasetInit jit) initDatasetItem"
proof
  fix c m p and s e :: u32
  assume items: "\<And>n. initDatasetItem c n \<noteq> None" and se: "s \<le> e" "4 dvd (unat e - unat s)"
  show "\<exists>m'. datasetInit jit c m p s e = Some m' \<and> fills (initDatasetItem c) m p (unat s) (unat e) m'"
    using dataset_init.init_fills [OF assms items se] portable_init.init_fills [OF items se]
    by (cases "ca_datasetInit c") (simp_all add: datasetInit_def)
qed

text \<open>Two fills that overlap, of the same dataset.\<close>

lemma fills_join:
  assumes "fills item m (64 * s) s e1 m1" "fills item m1 (64 * s2) s2 e m2" "s \<le> s2" "s2 \<le> e1" "e1 \<le> e"
  shows "fills item m (64 * s) s e m2"
  unfolding fills_def
proof (intro conjI allI impI)
  fix n assume n: "s \<le> n \<and> n < e"
  have at: "64 * s + 64 * (n - s) = 64 * n" using n by arith
  show "line_at m2 (64 * s + 64 * (n - s)) (the (item (of_nat n)))"
  proof (cases "s2 \<le> n")
    case True
    then have "64 * s2 + 64 * (n - s2) = 64 * n" by arith
    with True n assms(2) show ?thesis unfolding at by (auto simp: fills_def dest: spec [of _ n])
  next
    case False
    then have "n < e1" using assms(4) by simp
    with n assms(1) have "line_at m1 (64 * n) (the (item (of_nat n)))"
      unfolding at [symmetric] by (simp add: fills_def)
    then show ?thesis
      unfolding at by (rule line_at_cong [rotated]) (use assms(2) False in \<open>auto simp: fills_def\<close>)
  qed
next
  fix i assume i: "i < 64 * s \<or> 64 * s + 64 * (e - s) \<le> i"
  then have "m1 i = m i" using assms by (auto simp: fills_def)
  moreover have "64 * s2 + 64 * (e - s2) = 64 * s + 64 * (e - s)" using assms(3-5) by arith
  then have "m2 i = m1 i" using assms(2,3) i by (auto simp: fills_def)
  ultimately show "m2 i = m i" by simp
qed

lemma unat_item: "n \<le> DatasetItemCount + 4 \<Longrightarrow> unat (of_nat n :: u32) = n"
  by (simp add: DatasetItemCount_def config unsigned_of_nat take_bit_nat_eq_self)

lemma load64_shift: "(\<And>j. j < 8 \<Longrightarrow> m (a + j) = m' (b + j)) \<Longrightarrow> load64 m a = load64 m' b"
proof -
  assume b: "\<And>j. j < 8 \<Longrightarrow> m (a + j) = m' (b + j)"
  show ?thesis
    unfolding load64_def using b [of 0] b [of 1] b [of 2] b [of 3] b [of 4] b [of 5] b [of 6] b [of 7]
    by simp
qed

lemma copied_lines:
  assumes "fills item buf0 0 s (s + 4) buf" "n \<le> 4"
  shows "fills item m (64 * s) s (s + n) (write_bytes m (s * 64) (read_bytes buf 0 (n * 64)))"
  unfolding fills_def
proof (intro conjI allI impI)
  fix k assume k: "s \<le> k \<and> k < s + n"
  let ?m = "write_bytes m (s * 64) (read_bytes buf 0 (n * 64))"
  have "line_at buf (64 * (k - s)) (the (item (of_nat k)))"
    using assms k by (auto simp: fills_def dest: spec [of _ k])
  moreover have "load64 ?m (64 * s + 64 * (k - s) + 8 * q) = load64 buf (64 * (k - s) + 8 * q)" if "q < 8" for q
  proof -
    have b: "?m (64 * s + 64 * (k - s) + 8 * q + j) = buf (64 * (k - s) + 8 * q + j)" if "j < 8" for j
    proof -
      have "64 * (k - s) + 8 * q + j < n * 64" using k that \<open>q < 8\<close> by linarith
      then show ?thesis by (simp add: write_bytes_def read_bytes_def algebra_simps)
    qed
    show ?thesis by (rule load64_shift) (rule b)
  qed
  ultimately show "line_at ?m (64 * s + 64 * (k - s)) (the (item (of_nat k)))" by (simp add: line_at_def)
qed (auto simp: write_bytes_def read_bytes_def)

lemma init_range:
  assumes "dataset_init jit initDatasetItem" "\<And>n. initDatasetItem c n \<noteq> None"
    "startItem < DatasetItemCount" "startItem + itemCount \<le> DatasetItemCount"
  shows "\<exists>m'. randomx_init_dataset jit buf c m startItem itemCount = Some m' \<and>
    fills (initDatasetItem c) m (64 * startItem) startItem (startItem + itemCount) m'"
proof -
  have init: "\<exists>m'. datasetInit jit c m p (of_nat s) (of_nat e) = Some m' \<and> fills (initDatasetItem c) m p s e m'"
    if "s \<le> e" "4 dvd (e - s)" "e \<le> DatasetItemCount + 4" for m p s e
  proof -
    have "unat (of_nat s :: u32) = s" "unat (of_nat e :: u32) = e" using that(1,3) by (simp_all add: unat_item)
    then show ?thesis
      using dataset_init.init_fills [OF datasetInit_contract [OF assms(1)] assms(2), of "of_nat s" "of_nat e" m p] that
      by (simp add: word_le_nat_alt)
  qed
  have line: "CacheLineSize = 64" by (simp add: config)
  note asserts = assms(3,4)
  show ?thesis
  proof (cases "itemCount < 4")
    case True
    obtain b where "datasetInit jit c buf 0 (of_nat startItem) (of_nat (startItem + 4)) = Some b"
        "fills (initDatasetItem c) buf 0 startItem (startItem + 4) b"
      using init [of startItem "startItem + 4" buf 0] asserts by auto
    with True asserts copied_lines show ?thesis by (simp add: randomx_init_dataset_def line)
  next
    case big: False
    show ?thesis
    proof (cases "itemCount mod 4 = 0")
      case True
      with big asserts init [of startItem "startItem + itemCount" m "startItem * 64"] show ?thesis
        by (auto simp: randomx_init_dataset_def line mult.commute dvd_eq_mod_eq_0)
    next
      case False
      let ?k = "itemCount - itemCount mod 4"
      define d where "d = itemCount mod 4"
      have d: "d < 4" "d \<le> itemCount" by (simp_all add: d_def)
      have "4 dvd ?k" by (rule dvd_minus_mod)
      moreover have "?k \<le> itemCount" "itemCount \<le> ?k + 4" "startItem + itemCount - itemCount mod 4 = startItem + ?k"
        unfolding d_def [symmetric] using d by linarith+
      ultimately have k: "4 dvd ?k" "?k \<le> itemCount" "itemCount \<le> ?k + 4"
        "startItem + itemCount - itemCount mod 4 = startItem + ?k" by blast+
      obtain m1 where m1: "datasetInit jit c m (64 * startItem) (of_nat startItem) (of_nat (startItem + ?k)) = Some m1"
          "fills (initDatasetItem c) m (64 * startItem) startItem (startItem + ?k) m1"
      proof -
        have "4 dvd (startItem + ?k - startItem)" unfolding add_diff_cancel_left' by (rule k(1))
        moreover have "startItem + ?k \<le> DatasetItemCount + 4" using k(2) asserts(2) by linarith
        ultimately show thesis using init [OF le_add1] that by blast
      qed
      let ?s = "startItem + (itemCount - 4)"
      have s: "?s + 4 = startItem + itemCount" "?s \<le> startItem + ?k" using big k(2,3) by linarith+
      obtain m2 where m2: "datasetInit jit c m1 (64 * ?s) (of_nat ?s) (of_nat (?s + 4)) = Some m2"
          "fills (initDatasetItem c) m1 (64 * ?s) ?s (?s + 4) m2"
      proof -
        have "?s \<le> ?s + 4" "4 dvd (?s + 4 - ?s)" "?s + 4 \<le> DatasetItemCount + 4" using asserts(2) s(1) by simp_all
        then show thesis using init that by blast
      qed
      have "fills (initDatasetItem c) m (64 * startItem) startItem (startItem + itemCount) m2"
        by (rule fills_join [OF m1(2) m2(2) [unfolded s(1)]]) (use s k(2) in linarith)+
      moreover have "randomx_init_dataset jit buf c m startItem itemCount = Some m2"
        using m1(1) m2(1) big False asserts
        by (simp only: randomx_init_dataset_def line k(4) Let_def mult.commute [of _ 64] option.case) simp
      ultimately show ?thesis by blast
    qed
  qed
qed

text \<open>C12: \<open>randomx_init_dataset\<close> fills exactly the requested items, for any start and any count
  (none, fewer than four, a multiple of four or not) inside the dataset: it returns, every
  requested item holds what the light mode computes for it, and no other byte of the dataset
  changes, although the initialisation function is always called for a multiple of four items.\<close>

theorem init_dataset_exact:
  assumes "dataset_init jit initDatasetItem" "\<And>n. initDatasetItem c n \<noteq> None"
    "startItem < DatasetItemCount" "startItem + itemCount \<le> DatasetItemCount"
  shows "\<exists>m'. randomx_init_dataset jit buf c m startItem itemCount = Some m' \<and>
    (\<forall>n. startItem \<le> n \<and> n < startItem + itemCount \<longrightarrow>
       line_at m' (64 * n) (the (initDatasetItem c (of_nat n)))) \<and>
    (\<forall>i. i < 64 * startItem \<or> 64 * (startItem + itemCount) \<le> i \<longrightarrow> m' i = m i)"
proof -
  obtain m' where m': "randomx_init_dataset jit buf c m startItem itemCount = Some m'"
      "fills (initDatasetItem c) m (64 * startItem) startItem (startItem + itemCount) m'"
    using init_range [OF assms] by blast
  have "line_at m' (64 * n) (the (initDatasetItem c (of_nat n)))" if "startItem \<le> n \<and> n < startItem + itemCount" for n
  proof -
    have "64 * startItem + 64 * (n - startItem) = 64 * n" using that by arith
    then show ?thesis using m'(2) that by (auto simp: fills_def dest: spec [of _ n])
  qed
  moreover have "m' i = m i" if "i < 64 * startItem \<or> 64 * (startItem + itemCount) \<le> i" for i
    using m'(2) that by (auto simp: fills_def)
  ultimately show ?thesis using m'(1) by blast
qed

theorem init_dataset_exact_witness:
  "\<exists>c m'. initCache (\<lambda>_ _. 3) sevens empty_cache [1, 2] = Some c \<and>
    randomx_init_dataset initDataset (\<lambda>_. 0) c (\<lambda>_. 0) 10 7 = Some m' \<and>
    line_at m' (64 * 16) (the (initDatasetItem c 16)) \<and> m' (64 * 17) = 0"
proof -
  obtain c where c: "initCache (\<lambda>_ _. 3) sevens empty_cache [1, 2] = Some c" by (rule example_cache)
  obtain ps g where items: "\<And>n. initDatasetItem c n \<noteq> None" by (rule cached_items [OF c empty_cache_shape]) blast
  have "(10 :: nat) < DatasetItemCount" "(10 :: nat) + 7 \<le> DatasetItemCount" by (simp_all add: DatasetItemCount_def config)
  from init_dataset_exact [OF portable_init.dataset_init_axioms items this, of "\<lambda>_. 0" "\<lambda>_. 0"]
  obtain m' where m': "randomx_init_dataset initDataset (\<lambda>_. 0) c (\<lambda>_. 0) 10 7 = Some m'"
      "\<forall>n. 10 \<le> n \<and> n < 10 + 7 \<longrightarrow> line_at m' (64 * n) (the (initDatasetItem c (of_nat n)))"
      "\<forall>i. i < 64 * 10 \<or> 64 * (10 + 7) \<le> i \<longrightarrow> m' i = 0" by blast
  have "line_at m' (64 * 16) (the (initDatasetItem c 16))" using spec [OF m'(2), of 16] by simp
  moreover have "m' (64 * 17) = 0" using m'(3) by simp
  ultimately show ?thesis using c m'(1) by auto
qed

section \<open>The worker threads\<close>

lemma slice_bounds:
  assumes "0 < threads" "i < threads" "items \<le> DatasetItemCount" "0 < items"
  defines "a \<equiv> (items * i) div threads" and "b \<equiv> (items * (i + 1)) div threads"
  shows "slice items threads i = (of_nat a, of_nat b)" "a \<le> b" "a < items" "b \<le> items"
    "unat (fst (slice items threads i)) = a" "unat (snd (slice items threads i) - fst (slice items threads i)) = b - a"
proof -
  show slice: "slice items threads i = (of_nat a, of_nat b)" by (simp add: slice_def a_def b_def)
  show ab: "a \<le> b" by (simp add: a_def b_def div_le_mono)
  show a: "a < items" using assms(1,2,4) by (simp add: a_def div_less_iff_less_mult)
  have "items * (i + 1) \<le> items * threads" using assms(2) by (intro mult_le_mono2) simp
  then have "b \<le> items * threads div threads" unfolding b_def by (rule div_le_mono)
  then show b: "b \<le> items" using assms(1) by simp
  have u: "unat (of_nat a :: u32) = a" "unat (of_nat b :: u32) = b" using a b assms(3) by (simp_all add: unat_item)
  then have "(of_nat a :: u32) \<le> of_nat b" using ab by (simp add: word_le_nat_alt)
  with u slice show "unat (fst (slice items threads i)) = a"
    "unat (snd (slice items threads i) - fst (slice items threads i)) = b - a"
    by (simp_all add: unat_sub)
qed

text \<open>Every item lies in a slice.\<close>

lemma slices_cover:
  assumes "0 < threads" "n < (items :: nat)"
  shows "\<exists>i < threads. (items * i) div threads \<le> n \<and> n < (items * (i + 1)) div threads"
proof -
  let ?m = "(n + 1) * threads - 1"
  define i where "i = ?m div items"
  have m: "?m < (n + 1) * threads" using assms(1) by simp
  have lo: "items * i \<le> ?m" by (simp add: i_def)
  have hi: "?m < items * (i + 1)"
    using assms(2) dividend_less_times_div [of items ?m] by (simp add: i_def)
  have "items * i < items * threads"
    using lo m mult_le_mono1 [of "n + 1" items threads] assms(2) by linarith
  then have "i < threads" by simp
  moreover have "(items * i) div threads < n + 1"
    using lo m assms(1) by (simp only: div_less_iff_less_mult)
  moreover have "(n + 1) * threads \<le> items * (i + 1)" using hi m by linarith
  then have "n + 1 \<le> (items * (i + 1)) div threads" using assms(1) by (simp only: less_eq_div_iff_mult_less_eq)
  ultimately show ?thesis by (intro exI [of _ i]) linarith
qed

text \<open>Slices filled so far.\<close>

definition filled :: "(u64 \<Rightarrow> (nat \<Rightarrow> u64) option) \<Rightarrow> nat set \<Rightarrow> mem \<Rightarrow> bool" where
  "filled item S m \<longleftrightarrow> (\<forall>n\<in>S. line_at m (64 * n) (the (item (of_nat n))))"

lemma fills_filled:
  assumes "fills item m (64 * s) s e m'" "filled item S m"
  shows "filled item (S \<union> {s..<e}) m'"
  unfolding filled_def
proof
  fix n assume n: "n \<in> S \<union> {s..<e}"
  show "line_at m' (64 * n) (the (item (of_nat n)))"
  proof (cases "s \<le> n \<and> n < e")
    case True
    then have "64 * s + 64 * (n - s) = 64 * n" by arith
    then show ?thesis using assms(1) True by (auto simp: fills_def dest: spec [of _ n])
  next
    case False
    then have "line_at m (64 * n) (the (item (of_nat n)))" using n assms(2) by (auto simp: filled_def)
    moreover have "64 * s + 64 * (e - s) \<le> 64 * n \<or> 64 * n + 64 \<le> 64 * s \<or> e \<le> s" using False by arith
    ultimately show ?thesis
      by (elim line_at_cong [rotated]) (use assms(1) in \<open>auto simp: fills_def\<close>)
  qed
qed

lemma workers_fill:
  assumes "dataset_init jit initDatasetItem" "\<And>n. initDatasetItem c n \<noteq> None"
    "0 < threads" "0 < items" "items \<le> DatasetItemCount" "set order \<subseteq> {..<threads}" "filled (initDatasetItem c) S m"
  shows "\<exists>m'. init_parallel jit buf c m items threads order = Some m' \<and>
    filled (initDatasetItem c) (S \<union> (\<Union>i\<in>set order. {(items * i) div threads..<(items * (i + 1)) div threads})) m'"
  using assms(6,7)
proof (induction order arbitrary: m S)
  case Nil
  then show ?case by (simp add: init_parallel_def)
next
  case (Cons i order)
  let ?a = "(items * i) div threads" and ?b = "(items * (i + 1)) div threads"
  have i: "i < threads" using Cons.prems(1) by simp
  note sl = slice_bounds [OF assms(3) i assms(5,4)]
  obtain m1 where m1: "randomx_init_dataset jit buf c m ?a (?b - ?a) = Some m1"
      "fills (initDatasetItem c) m (64 * ?a) ?a ?b m1"
    using init_range [OF assms(1,2), of ?a "?b - ?a" buf m] sl(2,3,4) assms(5) by auto
  have "init_worker jit buf c items threads i (Some m) = Some m1"
    using m1(1) sl(5,6) by (cases "slice items threads i") (simp only: init_worker_def prod.case fst_conv snd_conv bind.bind_lunit)
  then have "init_parallel jit buf c m items threads (i # order) = init_parallel jit buf c m1 items threads order"
    by (simp add: init_parallel_def)
  moreover have "filled (initDatasetItem c) (S \<union> {?a..<?b}) m1" by (rule fills_filled [OF m1(2) Cons.prems(2)])
  moreover have "set order \<subseteq> {..<threads}" using Cons.prems(1) by simp
  ultimately show ?case using Cons.IH [of "S \<union> {?a..<?b}" m1] by (simp add: Un_assoc)
qed

lemma workers_build:
  assumes "dataset_init jit initDatasetItem" "\<And>n. initDatasetItem c n \<noteq> None"
    "0 < threads" "mset order = mset [0..<threads]"
  shows "\<exists>m'. init_parallel jit buf c m randomx_dataset_item_count threads order = Some m' \<and>
    full_dataset c \<lparr>ds_memory = m', ds_dealloc = a\<rparr>"
proof -
  have items: "randomx_dataset_item_count = DatasetItemCount" "DatasetItemCount = DatasetSize div 64" "0 < DatasetItemCount"
    by (simp_all add: randomx_dataset_item_count_def DatasetItemCount_def config)
  have "set order = set [0..<threads]" by (rule mset_eq_setD [OF assms(4)])
  then have order: "set order = {..<threads}" by (simp add: lessThan_atLeast0)
  obtain m' where m': "init_parallel jit buf c m DatasetItemCount threads order = Some m'"
    "filled (initDatasetItem c) ({} \<union> (\<Union>i\<in>set order. {(DatasetItemCount * i) div threads..<(DatasetItemCount * (i + 1)) div threads})) m'"
  proof -
    have "set order \<subseteq> {..<threads}" "filled (initDatasetItem c) {} m" by (simp_all add: order filled_def)
    from workers_fill [OF assms(1-3) items(3) order_refl this, of buf] show thesis using that by blast
  qed
  have "line_at m' (64 * n) (the (initDatasetItem c (of_nat n)))" if n: "n < DatasetItemCount" for n
  proof -
    obtain i where "i < threads" "(DatasetItemCount * i) div threads \<le> n" "n < (DatasetItemCount * (i + 1)) div threads"
      using slices_cover [OF assms(3) n] by blast
    then have "n \<in> {} \<union> (\<Union>i\<in>set order. {(DatasetItemCount * i) div threads..<(DatasetItemCount * (i + 1)) div threads})"
      unfolding order by (intro UnI2 UN_I [of i]) simp_all
    then show ?thesis using m'(2) by (simp only: filled_def)
  qed
  then show ?thesis using m'(1) assms(2) by (simp add: full_dataset_def items(1) flip: items(2))
qed

text \<open>C10: light and fast mining agree end to end. Take the cache of any key and build the
  dataset from it with any number of worker threads, which finish in any order: the
  initialisation succeeds, no slice violates an assert, and afterwards a machine that computes
  each item from the cache and a machine that reads the dataset return the same hash for every
  input. The generated initialisation function enters only with its contract.\<close>

theorem light_equals_fast:
  assumes "initCache argon H c0 key = Some c" "cache_shape c0"
    "dataset_init jit initDatasetItem" "0 < threads" "mset order = mset [0..<threads]"
  shows "\<exists>m'. init_parallel jit buf c m randomx_dataset_item_count threads order = Some m' \<and>
    (\<forall>E vm input junk local. randomx_calculate_hash junk local (E\<lparr>e_datasetRead := datasetRead_light c\<rparr>) vm input =
       randomx_calculate_hash junk local (E\<lparr>e_datasetRead := datasetRead \<lparr>ds_memory = m', ds_dealloc = a\<rparr>\<rparr>) vm input)"
proof -
  obtain ps g where items: "\<And>n. initDatasetItem c n \<noteq> None" by (rule cached_items [OF assms(1,2)]) blast
  show ?thesis
    using workers_build [OF assms(3) items assms(4,5), where m = m and buf = buf and a = a] light_fast by blast
qed

theorem light_equals_fast_witness:
  "\<exists>c m'. initCache (\<lambda>_ _. 3) sevens empty_cache [1, 2] = Some c \<and>
    init_parallel initDataset (\<lambda>_. 0) c (\<lambda>_. 0) randomx_dataset_item_count 3 [1, 0, 2] = Some m' \<and>
    randomx_calculate_hash no_junk (\<lambda>_. 0) (zero_env\<lparr>e_datasetRead := datasetRead_light c\<rparr>) (fresh_vm 0) [5] =
    randomx_calculate_hash no_junk (\<lambda>_. 0)
      (zero_env\<lparr>e_datasetRead := datasetRead \<lparr>ds_memory = m', ds_dealloc = DefaultAllocator\<rparr>\<rparr>) (fresh_vm 0) [5]"
proof -
  obtain c where c: "initCache (\<lambda>_ _. 3) sevens empty_cache [1, 2] = Some c" by (rule example_cache)
  have "mset [1, 0, 2] = mset [0..<3 :: nat]" by (simp add: upt_rec)
  from light_equals_fast [OF c empty_cache_shape portable_init.dataset_init_axioms _ this] c
  show ?thesis by (metis zero_less_numeral)
qed

end
