(* ===== verification/Initialized.thy ===== *)
theory Initialized
  imports Dataset
begin

text \<open>
  Generated programs are not empty: the first decode cycle always uses the buffer 4-4-4-4, whose
  first slot makes a multiplication, which finds ready registers and a free port and is emitted
  at once. \<^verbatim>\<open>isInitialized\<close> reads the size of the first program, so that it recognises every
  cache that has been initialised.
\<close>

lemma forward_size:
  "forward_source H n c st = (b, c', st') \<Longrightarrow> s_programSize st' = s_programSize st"
  "forward_destination H n c st = (b, c', st') \<Longrightarrow> s_programSize st' = s_programSize st"
  by (induction n arbitrary: c st) (auto split: prod.splits bool.splits)

definition size_of_result :: "slot_result \<Rightarrow> nat" where
  "size_of_result r = (case r of Slot _ st' \<Rightarrow> s_programSize st' | Leave st' \<Rightarrow> s_programSize st')"

lemma size_of_result_simps [simp]: "size_of_result (Slot i st) = s_programSize st" "size_of_result (Leave st) = s_programSize st"
  by (simp_all add: size_of_result_def)

lemma issue_size: "s_programSize st \<le> size_of_result (issue bi tc c st)"
  by (auto simp: issue_def Let_def retire_def emit_def split: prod.splits option.splits)

lemma place_size: "s_programSize st \<le> size_of_result (place H bi tc st)"
proof -
  have thrown: "size_of_result (throw_away bi s) = s_programSize s" for s by (simp add: throw_away_def)
  have source: "s_programSize s' = s_programSize s" if "pick_source H c s = (b, c', s')" for s c b c' s'
    using that forward_size(1) by (auto simp: pick_source_def split: if_splits)
  have dest: "s_programSize s' = s_programSize s" if "pick_destination H c s = (b, c', s')" for s c b c' s'
    using that forward_size(2) by (auto simp: pick_destination_def split: if_splits)
  show ?thesis
    unfolding place_def Let_def
    by (auto simp: thrown split: option.splits prod.splits bool.splits dest!: source dest intro: order_trans [OF _ issue_size])
qed

lemma slot_step_size: "slot_step H db bi st = Some r \<Longrightarrow> s_programSize st \<le> size_of_result r"
  by (auto simp: slot_step_def Let_def split: if_splits option.splits intro: order_trans [OF _ place_size])

lemma fill_buffer_size: "fill_buffer H db bi st = Some st' \<Longrightarrow> s_programSize st \<le> s_programSize st'"
proof (induction H db bi st rule: fill_buffer.induct)
  case (1 H db bi st)
  show ?case
  proof (cases "bi < db_size db")
    case True
    then obtain r where r: "slot_step H db bi st = Some r"
      using 1(2) by (subst (asm) fill_buffer.simps) (auto split: option.splits)
    note le = slot_step_size [OF r]
    show ?thesis
    proof (cases r)
      case (Slot bi' st1)
      then have "fill_buffer H db bi' st1 = Some st'" using 1(2) True r by (subst (asm) fill_buffer.simps) simp
      then have "s_programSize st1 \<le> s_programSize st'" using "1.IH" [OF True r Slot] by simp
      then show ?thesis using le Slot by simp
    next
      case (Leave st1)
      then show ?thesis using 1(2) True r le by (subst (asm) fill_buffer.simps) simp
    qed
  next
    case False
    then show ?thesis using 1(2) by (subst (asm) fill_buffer.simps) simp
  qed
qed

lemma decode_loop_size: "decode_loop H n c st = Some (c', st') \<Longrightarrow> s_programSize st \<le> s_programSize st'"
proof (induction n arbitrary: c st)
  case (Suc n)
  show ?case
  proof (cases "s_portsSaturated st \<or> s_programSize st \<ge> SuperscalarMaxSize")
    case False
    obtain db g where fetch: "fetchNext H (info_type (cur_info st)) c (s_mulCount st) (s_gen st) = (db, g)" by (metis surj_pair)
    then obtain st1 where st1: "fill_buffer H db 0 (st\<lparr>s_gen := g\<rparr>) = Some st1"
      "decode_loop H n (c + 1) (st1\<lparr>s_cycle := s_cycle st1 + 1\<rparr>) = Some (c', st')"
      using Suc.prems False by (auto split: option.splits)
    then show ?thesis using fill_buffer_size [OF st1(1)] Suc.IH [OF st1(2)] by simp
  qed (use Suc.prems in auto)
qed simp

text \<open>The first instruction.\<close>

lemma select_any:
  assumes "xs \<noteq> []"
  obtains r g' where "selectRegister H xs g = (Some r, g')" "r \<in> set xs"
proof (cases "length xs > 1")
  case True
  obtain v g' where "getUInt32 H g = (v, g')" by (metis surj_pair)
  then show ?thesis using that [of "xs ! (unat v mod length xs)" g'] True assms by (auto simp: selectRegister_def)
next
  case False
  then obtain x where "xs = [x]" using assms by (cases xs) auto
  then show ?thesis using that [of x g] by (simp add: selectRegister_def)
qed

lemma first_source:
  assumes "\<And>i. ri_latency (registers i) = 0" "info_type (si_info s) = S_IMUL_R" "si_groupParIsSource s"
  obtains r g' where "selectSource H 0 registers s g = (True, s\<lparr>si_src := int r, si_opGroupPar := int r\<rparr>, g')"
proof -
  have all: "filter (\<lambda>i. ri_latency (registers i) \<le> 0) [0..<8] = [0..<8]" using assms(1) by simp
  obtain r g' where "selectRegister H [0..<8] g = (Some r, g')" by (rule select_any [of "[0..<8]" H g]) auto
  then show ?thesis using that [of r g'] assms(2,3) unfolding selectSource_def all by simp
qed

lemma first_destination:
  assumes "\<And>i. ri_latency (registers i) = 0" "\<And>i. ri_lastOpGroup (registers i) = S_INVALID"
    "info_type (si_info s) = S_IMUL_R" "si_opGroup s = S_IMUL_R"
  obtains r g' where "selectDestination H 0 False registers s g = (True, s\<lparr>si_dst := int r\<rparr>, g')"
proof -
  let ?c = "dst_candidates 0 False registers s"
  have "(if si_src s = 0 then 1 else 0) \<in> set ?c" using assms by (auto simp: dst_candidates_def)
  then have "?c \<noteq> []" by auto
  from select_any [OF this, of H g] obtain r g' where "selectRegister H ?c g = (Some r, g')" by blast
  then show ?thesis using that [of r g'] by (simp add: selectDestination_def)
qed

lemma imul_port: "scheduleMop commit Imul_rr (\<lambda>_ _. 0) 0 0 = (Some 0, mark_port commit P1 0 1 (\<lambda>_ _. 0))"
  by (subst scheduleMop_def, subst scheduleUop.simps)
    (simp add: Imul_rr_def mop1_def mop2_def isEliminated_def isSimple_def Port_Null_def P1_def P0_def P5_def CYCLE_MAP_SIZE_def RANDOMX_SUPERSCALAR_LATENCY_def)

lemma first_slot: "\<exists>st. slot_step H decodeBuffer4444 0 (gstate_init prog g) = Some (Slot 1 st) \<and> s_programSize st = 1"
proof -
  let ?s = "(si_reset (SI_Null\<lparr>si_info := info_IMUL_R\<rparr>))\<lparr>si_mod := 0, si_imm32 := 0, si_opGroup := S_IMUL_R, si_groupParIsSource := True\<rparr>"
  let ?st = "(gstate_init prog g)\<lparr>s_cur := ?s, s_gen := g, s_macroOpIndex := 0\<rparr>"
  have create: "createForSlot H 4 4 False SI_Null g = Some (?s, g)"
    by (simp add: createForSlot_def si_create_def info_IMUL_R_def info1_def)
  have regs: "s_registers ?st = (\<lambda>_. RegisterInfo_init)" "s_throwAwayCount ?st = 0" by (simp_all add: gstate_init_def)
  have info: "cur_info ?st = info_IMUL_R" "info_type (si_info ?s) = S_IMUL_R"
    by (simp_all add: cur_info_def si_reset_def info_IMUL_R_def info1_def)
  let ?s1 = "\<lambda>r. ?s\<lparr>si_src := int r, si_opGroupPar := int r\<rparr>"
  have init: "\<And>i. ri_latency ((\<lambda>_. RegisterInfo_init) i) = 0" "\<And>i. ri_lastOpGroup ((\<lambda>_. RegisterInfo_init) i) = S_INVALID"
    by (simp_all add: RegisterInfo_init_def)
  have kind: "si_groupParIsSource ?s" "info_type (si_info (?s1 r)) = S_IMUL_R" "si_opGroup (?s1 r) = S_IMUL_R" for r
    using info(2) by simp_all
  obtain r1 g1 where src: "selectSource H 0 (\<lambda>_. RegisterInfo_init) ?s g = (True, ?s1 r1, g1)"
    using first_source [OF init(1) info(2) kind(1)] by blast
  obtain r2 g2 where dst: "selectDestination H 0 False (\<lambda>_. RegisterInfo_init) (?s1 r1) g1 = (True, (?s1 r1)\<lparr>si_dst := int r2\<rparr>, g2)"
    using first_destination [OF init kind(2,3)] by blast
  let ?st1 = "?st\<lparr>s_cur := ?s1 r1, s_gen := g1\<rparr>"
  let ?st2 = "?st1\<lparr>s_cur := (?s1 r1)\<lparr>si_dst := int r2\<rparr>, s_gen := g2\<rparr>"
  have look: "LOOK_FORWARD_CYCLES = Suc 3" by (simp add: LOOK_FORWARD_CYCLES_def)
  have op: "info_srcOp info_IMUL_R = 0" "info_dstOp info_IMUL_R = 0" "info_ops info_IMUL_R = [Imul_rr]" "info_size info_IMUL_R = 1"
    by (simp_all add: info_IMUL_R_def info1_def info_size_def)
  have index: "s_macroOpIndex ?st = 0" "s_macroOpIndex ?st1 = 0" "s_gen ?st = g" "s_gen ?st1 = g1" "s_cur ?st = ?s" "s_cur ?st1 = ?s1 r1"
    "s_registers ?st1 = (\<lambda>_. RegisterInfo_init)" "s_throwAwayCount ?st1 = 0" by (simp_all add: gstate_init_def)
  have "cur_info ?st1 = info_IMUL_R" by (simp add: cur_info_def si_reset_def)
  then have picks: "pick_source H 0 ?st = (True, 0, ?st1)" "pick_destination H 0 ?st1 = (True, 0, ?st2)"
    unfolding pick_source_def pick_destination_def info(1) op look forward_source.simps forward_destination.simps index regs
    by (simp_all add: src dst op)
  have ports: "s_portBusy ?st = (\<lambda>_ _. 0)" "s_cycle ?st = 0" "s_depCycle ?st = 0" by (simp_all add: gstate_init_def)
  have "place H 0 0 ?st = issue 0 0 0 ?st2"
    unfolding place_def Let_def info(1) op index ports nth_Cons_0 imul_port fst_conv option.case picks prod.case bool.case by (rule refl)
  moreover have "\<exists>st. issue 0 0 0 ?st2 = Slot 1 st \<and> s_programSize st = 1"
  proof -
    have two: "cur_info ?st2 = info_IMUL_R" "s_macroOpIndex ?st2 = 0" "s_portBusy ?st2 = (\<lambda>_ _. 0)" "s_programSize ?st2 = 0"
      by (simp_all add: cur_info_def si_reset_def gstate_init_def)
    show ?thesis
      unfolding issue_def Let_def two(1,2) op nth_Cons_0
      by (simp add: imul_port gstate_init_def retire_def emit_def cur_info_def si_reset_def op)
  qed
  ultimately obtain st where st: "place H 0 0 ?st = Slot 1 st" "s_programSize st = 1" by auto
  have "slot_step H decodeBuffer4444 0 (gstate_init prog g) = Some (place H 0 0 ?st)"
    unfolding slot_step_def Let_def using create
    by (simp add: gstate_init_def cur_info_def SI_Null_def info_NOP_def info_size_def SuperscalarMaxSize_def
        decodeBuffer4444_def db_size_def RANDOMX_SUPERSCALAR_LATENCY_def)
  then show ?thesis using st by simp
qed

lemma generated_nonempty:
  assumes "generateSuperscalar H prog g = Some (sp, g')"
  shows "0 < sp_size sp"
proof -
  let ?st = "gstate_init prog g"
  obtain n where latency: "RANDOMX_SUPERSCALAR_LATENCY = Suc n" by (simp add: RANDOMX_SUPERSCALAR_LATENCY_def)
  obtain c st where loop: "decode_loop H (Suc n) 0 ?st = Some (c, st)" "sp_size sp = s_programSize st"
    using assms by (auto simp: generateSuperscalar_def latency Let_def simp del: decode_loop.simps split: option.splits prod.splits)
  have start: "info_type (cur_info ?st) = S_INVALID" "s_mulCount ?st = 0" "s_gen ?st = g" "\<not> s_portsSaturated ?st"
    "\<not> s_programSize ?st \<ge> SuperscalarMaxSize" "?st\<lparr>s_gen := g\<rparr> = ?st"
    by (simp_all add: gstate_init_def cur_info_def SI_Null_def info_NOP_def SuperscalarMaxSize_def RANDOMX_SUPERSCALAR_LATENCY_def)
  have fetch: "fetchNext H S_INVALID 0 0 g = (decodeBuffer4444, g)" by (simp add: fetchNext_def)
  obtain st1 where st1: "fill_buffer H decodeBuffer4444 0 ?st = Some st1" "decode_loop H n 1 (st1\<lparr>s_cycle := s_cycle st1 + 1\<rparr>) = Some (c, st)"
    using loop(1) by (auto simp: start fetch split: option.splits)
  obtain st0 where st0: "slot_step H decodeBuffer4444 0 ?st = Some (Slot 1 st0)" "s_programSize st0 = 1"
    using first_slot by blast
  have "0 < db_size decodeBuffer4444" by (simp add: db_size_def decodeBuffer4444_def)
  then have "fill_buffer H decodeBuffer4444 1 st0 = Some st1"
    using st1(1) st0(1) by (subst (asm) fill_buffer.simps) simp
  from fill_buffer_size [OF this] decode_loop_size [OF st1(2)] show ?thesis using st0(2) loop(2) by simp
qed

lemma patch_size: "patch_program sp rc = (sp', rc') \<Longrightarrow> sp_size sp' = sp_size sp"
  by (auto simp: patch_program_def split: prod.splits)

lemma first_program:
  assumes "for_range 0 n (cache_step H) (Some (p0, r0, g0)) = Some (p, r, g)" "p0 \<noteq> []"
  shows "length p = length p0 \<and> (0 < n \<longrightarrow> 0 < sp_size (p ! 0))"
  using assms(1)
proof (induction n arbitrary: p r g)
  case (Suc n)
  obtain p1 r1 g1 where run: "for_range 0 n (cache_step H) (Some (p0, r0, g0)) = Some (p1, r1, g1)"
    using Suc.prems by (cases "for_range 0 n (cache_step H) (Some (p0, r0, g0))") auto
  with Suc.prems have before: "for_range 0 n (cache_step H) (Some (p0, r0, g0)) = Some (p1, r1, g1)"
    "cache_step H n (Some (p1, r1, g1)) = Some (p, r, g)" by simp_all
  obtain sp g2 sp' r2 where sp: "generateSuperscalar H (sp_buffer (p1 ! n)) g1 = Some (sp, g2)" "patch_program sp r1 = (sp', r2)"
      "p = p1[n := sp']"
    using before(2) by (auto simp: cache_step_def split: option.splits prod.splits)
  have "0 < sp_size sp'" using generated_nonempty [OF sp(1)] patch_size [OF sp(2)] by simp
  then show ?case using Suc.IH [OF before(1)] sp(3) assms(2) by (cases n) auto
qed simp

lemma cache_initialized:
  assumes "initCache argon H cache key = Some c" "cache_shape cache"
  shows "isInitialized c"
proof -
  obtain p r g where "for_range 0 RANDOMX_CACHE_ACCESSES (cache_step H) (Some (ca_programs cache, [], Blake2Generator_init key 0)) = Some (p, r, g)"
      "ca_programs c = p"
    using assms(1) by (auto simp: initCache_def split: option.splits prod.splits)
  moreover have "ca_programs cache \<noteq> []" using assms(2) by (auto simp: cache_shape_def RANDOMX_CACHE_ACCESSES_def)
  ultimately show ?thesis
    using first_program by (fastforce simp: isInitialized_def RANDOMX_CACHE_ACCESSES_def)
qed

text \<open>every cache that has been initialised is recognised as initialised, for every key: the
  first program that a seed defines is never empty.\<close>

theorem initialized_cache_recognised:
  assumes "initCache argon H cache key = Some c" "cache_shape cache"
  shows "isInitialized c"
  by (rule cache_initialized [OF assms])

theorem initialized_cache_recognised_witness:
  "\<exists>c. initCache (\<lambda>_ _. 3) sevens empty_cache [1, 2] = Some c \<and> isInitialized c \<and> \<not> isInitialized empty_cache"
proof -
  obtain c where c: "initCache (\<lambda>_ _. 3) sevens empty_cache [1, 2] = Some c" by (rule example_cache)
  have "\<not> isInitialized empty_cache" by (simp add: isInitialized_def empty_cache_def empty_program_def RANDOMX_CACHE_ACCESSES_def)
  then show ?thesis using initialized_cache_recognised [OF c empty_cache_shape] c by blast
qed

end
