(* ===== verification/Rx_Facts.thy ===== *)
theory Rx_Facts
  imports Rx Api_Facts Initialized
begin

text \<open>
  Facts about single operations of \<open>Rx\<close>: the ledger, what an allocation leaves behind on every
  path, and what a machine that is created afterwards computes.
\<close>

section \<open>Flags\<close>

text \<open>The flags of the cache name an Argon2 implementation that the build has.\<close>

lemma argon_usable:
  "\<exists>impl. selectArgonImpl (pf_argon_avx2 P) (pf_argon_ssse3 P) (build_cache_flags P) = Some impl"
  unfolding selectArgonImpl_def build_cache_flags_def common_flags_def flag_cases Let_def
  by (simp add: config flag_bits bit_or_iff)

lemma build_flags_bits:
  "has_flag (build_flags P mode version) RANDOMX_FLAG_FULL_MEM \<longleftrightarrow> mode = Fast"
  "has_flag (build_flags P mode version) RANDOMX_FLAG_V2 \<longleftrightarrow> version = V2"
  "has_flag (build_flags P mode version) RANDOMX_FLAG_JIT"
  "has_flag (build_flags P mode version) RANDOMX_FLAG_HARD_AES \<longleftrightarrow> has_aes (pf_cpu P)"
  unfolding build_flags_def common_flags_def flag_cases Let_def aes_available_def
  by (auto simp: config flag_bits bit_or_iff)

section \<open>The wait for the machines\<close>

lemma drain_from:
  assumes "n \<le> kDrainSpins"
  shows "drain act n \<longleftrightarrow> (\<exists>k \<le> kDrainSpins. n \<le> k \<and> act k \<le> 0)"
  using assms
proof (induction "kDrainSpins - n" arbitrary: n)
  case 0
  then have "n = kDrainSpins" by simp
  then show ?case by (subst drain.simps) (auto simp: not_less)
next
  case (Suc d)
  then have "n < kDrainSpins" "d = kDrainSpins - (n + 1)" by simp_all
  moreover have "drain act n \<longleftrightarrow> \<not> 0 < act n \<or> drain act (n + 1)" using \<open>n < kDrainSpins\<close> by (subst drain.simps) simp
  moreover have "(\<exists>k \<le> kDrainSpins. n \<le> k \<and> act k \<le> 0) \<longleftrightarrow> \<not> 0 < act n \<or> (\<exists>k \<le> kDrainSpins. n + 1 \<le> k \<and> act k \<le> 0)"
    using \<open>n < kDrainSpins\<close> by (auto simp: not_less Suc_le_eq intro: less_imp_le) (metis le_antisym)
  ultimately show ?case using Suc.hyps(1) [of "n + 1"] by simp
qed

section \<open>The ledger\<close>

text \<open>The datasets behind the pointers that are not null.\<close>

definition live :: "(u32 \<times> randomx_dataset option) list \<Rightarrow> randomx_dataset list" where
  "live ds = List.map_filter snd ds"

lemma live_simps [simp]: "live [] = []" "live ((k, None) # ds) = live ds" "live ((k, Some d) # ds) = d # live ds"
  by (simp_all add: live_def map_filter_simps)

definition blocks_of :: "randomx_dataset list \<Rightarrow> (Allocator \<times> nat) multiset" where
  "blocks_of ds = image_mset (\<lambda>d. (ds_dealloc d, DatasetSize)) (mset ds)"

lemma blocks_of_simps [simp]: "blocks_of [] = {#}" "blocks_of (d # ds) = add_mset (ds_dealloc d, DatasetSize) (blocks_of ds)"
  by (simp_all add: blocks_of_def)

text \<open>What the object owns on top of \<open>h0\<close>, with \<open>v\<close> machines alive.\<close>

definition ledger :: "heap \<Rightarrow> nat \<Rightarrow> rx \<Rightarrow> bool" where
  "ledger h0 v rx \<longleftrightarrow> rx_heap rx =
     \<lparr>h_caches = h_caches h0 + (if rx_cache rx = None then 0 else 1),
      h_datasets = h_datasets h0 + length (live (rx_datasets rx)),
      h_vms = h_vms h0 + v,
      h_jits = h_jits h0 + (case rx_cache rx of None \<Rightarrow> 0 | Some c \<Rightarrow> if ca_jit c then 1 else 0),
      h_blocks = h_blocks h0 + (case rx_cache rx of None \<Rightarrow> {#} | Some c \<Rightarrow> {#(ca_dealloc c, CacheSize)#}) +
        blocks_of (live (rx_datasets rx))\<rparr>"

lemma release_cache_fields [simp]:
  "rx_cache (release_cache rx) = None" "rx_datasets (release_cache rx) = rx_datasets rx" "rx_mode (release_cache rx) = rx_mode rx"
  "rx_pending (release_cache rx) = rx_pending rx" "rx_updating (release_cache rx) = rx_updating rx"
  "rx_active (release_cache rx) = rx_active rx" "rx_scratch (release_cache rx) = rx_scratch rx"
  by (simp_all add: release_cache_def split: option.splits)

lemma ledger_release_cache: "ledger h0 v rx \<Longrightarrow> ledger h0 v (release_cache rx)"
  by (auto simp: ledger_def release_cache_def randomx_release_cache_def deallocCache_def freeMemory_def Let_def
      split: option.splits)

lemma release_live:
  "release_datasets ds (h\<lparr>h_datasets := h_datasets h + length (live ds), h_blocks := h_blocks h + blocks_of (live ds)\<rparr>) = h"
proof (induction ds arbitrary: h)
  case Nil
  then show ?case by (simp add: release_datasets_def)
next
  case (Cons e ds)
  obtain k d where e: "e = (k, d)" by (cases e)
  show ?case
  proof (cases d)
    case None
    then show ?thesis using Cons.IH [of h] by (simp add: e release_datasets_def)
  next
    case (Some d')
    have "randomx_release_dataset (ds_dealloc d') True
        (h\<lparr>h_datasets := h_datasets h + length (live (e # ds)), h_blocks := h_blocks h + blocks_of (live (e # ds))\<rparr>) =
      h\<lparr>h_datasets := h_datasets h + length (live ds), h_blocks := h_blocks h + blocks_of (live ds)\<rparr>"
      by (simp add: e Some randomx_release_dataset_def deallocDataset_def freeMemory_def)
    then show ?thesis using Cons.IH [of h] by (simp add: e Some release_datasets_def)
  qed
qed

lemma release_ledger:
  assumes "ledger h0 0 rx"
  shows "rx_heap (release rx) = h0" "rx_cache (release rx) = None" "rx_datasets (release rx) = []"
proof -
  let ?c = "h0\<lparr>h_caches := h_caches h0 + (if rx_cache rx = None then 0 else 1),
      h_jits := h_jits h0 + (case rx_cache rx of None \<Rightarrow> 0 | Some c \<Rightarrow> if ca_jit c then 1 else 0),
      h_blocks := h_blocks h0 + (case rx_cache rx of None \<Rightarrow> {#} | Some c \<Rightarrow> {#(ca_dealloc c, CacheSize)#})\<rparr>"
  have "rx_heap rx = ?c\<lparr>h_datasets := h_datasets ?c + length (live (rx_datasets rx)),
      h_blocks := h_blocks ?c + blocks_of (live (rx_datasets rx))\<rparr>"
    using assms by (simp add: ledger_def)
  then have "release_datasets (rx_datasets rx) (rx_heap rx) = ?c" by (simp only: release_live)
  then have "ledger h0 0 (rx\<lparr>rx_heap := release_datasets (rx_datasets rx) (rx_heap rx), rx_datasets := []\<rparr>)"
    by (simp add: ledger_def)
  from ledger_release_cache [OF this] show "rx_heap (release rx) = h0"
    by (simp add: ledger_def release_def)
qed (simp_all add: release_def)

lemma alloc_cache_cases:
  assumes "randomx_alloc_cache avx2 ssse3 junk oc flags h = Some (r, h')"
  shows "case r of None \<Rightarrow> h' = h
    | Some c \<Rightarrow> (\<exists>impl a jit. c = new_cache junk impl a jit) \<and> ca_jit c = has_flag flags RANDOMX_FLAG_JIT \<and>
        h' = h\<lparr>h_caches := h_caches h + 1, h_jits := h_jits h + (if ca_jit c then 1 else 0),
          h_blocks := add_mset (ca_dealloc c, CacheSize) (h_blocks h)\<rparr>"
  using assms
  by (auto simp: randomx_alloc_cache_def cache_case_total allocMemory_def randomx_release_cache_def deallocCache_def
      freeMemory_def new_cache_def Let_def split: option.splits if_splits)

lemma alloc_cache_total: "\<exists>r h'. randomx_alloc_cache avx2 ssse3 junk oc flags h = Some (r, h')"
  by (simp add: randomx_alloc_cache_def cache_case_total Let_def split: option.splits)

lemma alloc_dataset_cases:
  assumes "randomx_alloc_dataset size_max junk oc flags h = (r, h')"
  shows "case r of None \<Rightarrow> h' = h
    | Some d \<Rightarrow> h' = h\<lparr>h_datasets := h_datasets h + 1, h_blocks := add_mset (ds_dealloc d, DatasetSize) (h_blocks h)\<rparr>"
  using assms
  by (auto simp: randomx_alloc_dataset_def allocMemory_def randomx_release_dataset_def deallocDataset_def
      freeMemory_def Let_def split: option.splits if_splits)

lemma initCache_keeps:
  assumes "initCache argon H c0 key = Some c"
  shows "ca_jit c = ca_jit c0" "ca_dealloc c = ca_dealloc c0"
  using assms by (auto simp: initCache_def Let_def split: option.splits prod.splits)

lemma init_cache_keeps:
  assumes "randomx_init_cache argon H c0 key = Some c"
  shows "ca_jit c = ca_jit c0 \<and> ca_dealloc c = ca_dealloc c0"
  using assms initCache_keeps
  by (auto simp: randomx_init_cache_def initialize_cache_eq split: if_splits)

text \<open>Updates of the list of datasets.\<close>

lemma live_new: "(\<And>d. map_of ds k \<noteq> Some (Some d)) \<Longrightarrow> mset (live (AList.update k (Some d) ds)) = add_mset d (mset (live ds))"
proof (induction ds)
  case (Cons e ds)
  obtain l d' where "e = (l, d')" by (cases e)
  then show ?case using Cons by (cases d'; cases "k = l") auto
qed simp

lemma live_same: 
  assumes "map_of ds k = Some (Some d)" "ds_dealloc d' = ds_dealloc d"
  shows "length (live (AList.update k (Some d') ds)) = length (live ds)"
    "blocks_of (live (AList.update k (Some d') ds)) = blocks_of (live ds)"
proof (atomize(full), use assms(1) in \<open>induction ds\<close>)
  case (Cons e ds)
  obtain l c where "e = (l, c)" by (cases e)
  then show ?case using Cons assms(2) by (cases c; cases "k = l") auto
qed simp

lemma live_delete: "(\<And>d. (k, Some d) \<notin> set ds) \<Longrightarrow> live (AList.delete k ds) = live ds"
proof (induction ds)
  case (Cons e ds)
  obtain l c where "e = (l, c)" by (cases e)
  then show ?case using Cons by (cases c; cases "k = l") auto
qed simp

section \<open>Allocation keeps the ledger\<close>

definition keys :: "rx \<Rightarrow> u32 list" where
  "keys rx = map fst (rx_datasets rx)"

lemma Reserve_ledger:
  assumes "ledger h0 v rx" "distinct (keys rx)" "Reserve P junk oc1 oc2 k primary fallback rx = (r, rx')"
  shows "ledger h0 v rx' \<and> distinct (keys rx') \<and> rx' = rx\<lparr>rx_heap := rx_heap rx', rx_datasets := rx_datasets rx'\<rparr> \<and>
    map_of (rx_datasets rx') = (map_of (rx_datasets rx))(k := map_option Some r)"
proof (cases "\<exists>d. map_of (rx_datasets rx) k = Some (Some d)")
  case True
  then show ?thesis using assms by (auto simp: Reserve_def fun_upd_idem)
next
  case False
  obtain r1 h1 where one: "randomx_alloc_dataset (pf_size_max P) junk oc1 primary (rx_heap rx) = (r1, h1)" by (metis surj_pair)
  obtain r2 h2 where two: "(if r1 = None \<and> primary \<noteq> fallback
      then randomx_alloc_dataset (pf_size_max P) junk oc2 fallback h1 else (r1, h1)) = (r2, h2)" by (metis surj_pair)
  have res: "(r, rx') = (case r2 of
      None \<Rightarrow> (None, rx\<lparr>rx_heap := h2, rx_datasets := AList.delete k (rx_datasets rx)\<rparr>)
    | Some d \<Rightarrow> (Some d, rx\<lparr>rx_heap := h2, rx_datasets := AList.update k (Some d) (rx_datasets rx)\<rparr>))"
    using assms(3) False by (auto simp: Reserve_def one two split: option.splits)
  have h2: "case r2 of None \<Rightarrow> h2 = rx_heap rx
    | Some d \<Rightarrow> h2 = (rx_heap rx)\<lparr>h_datasets := h_datasets (rx_heap rx) + 1, h_blocks := add_mset (ds_dealloc d, DatasetSize) (h_blocks (rx_heap rx))\<rparr>"
    using alloc_dataset_cases [OF one] two alloc_dataset_cases [of "pf_size_max P" junk oc2 fallback h1 r2 h2]
    by (cases r1) (auto split: if_splits)
  have gone: "(k, Some d) \<notin> set (rx_datasets rx)" for d
    using False assms(2) by (auto simp: keys_def dest: map_of_is_SomeI)
  show ?thesis
  proof (cases r2)
    case None
    then show ?thesis
      using res h2 assms(1,2) live_delete [of k "rx_datasets rx"] gone
      by (auto simp: ledger_def keys_def distinct_delete delete_conv')
  next
    case (Some d)
    have "mset (live (AList.update k (Some d) (rx_datasets rx))) = add_mset d (mset (live (rx_datasets rx)))"
      by (rule live_new) (use False in blast)
    moreover from this have "length (live (AList.update k (Some d) (rx_datasets rx))) = Suc (length (live (rx_datasets rx)))"
      by (metis size_add_mset size_mset)
    ultimately show ?thesis
      using Some res h2 assms(1,2)
      by (simp add: ledger_def keys_def blocks_of_def update_conv' distinct_update)
  qed
qed

text \<open>The datasets of some nodes are filled from a cache.\<close>

definition served :: "randomx_cache \<Rightarrow> u32 set \<Rightarrow> rx \<Rightarrow> bool" where
  "served c N rx \<longleftrightarrow> (\<forall>k\<in>N. \<forall>e. map_of (rx_datasets rx) k = Some e \<longrightarrow> (\<exists>d. e = Some d \<and> full_dataset c d))"

definition some_dataset :: "rx \<Rightarrow> bool" where
  "some_dataset rx \<longleftrightarrow> (\<exists>k d. map_of (rx_datasets rx) k = Some (Some d))"

text \<open>The assumptions on the world: the contract of the generated function, and threads that
  all run.\<close>

definition fair :: "external \<Rightarrow> chance \<Rightarrow> (u32 \<times> nat) list \<Rightarrow> bool" where
  "fair X ch ns \<longleftrightarrow> dataset_init (x_jit X) initDatasetItem \<and>
     (\<forall>i < length ns. 0 < snd (ns ! i) \<and> mset (ch_order ch i) = mset [0..<snd (ns ! i)])"

lemma build_node_ok:
  assumes "dataset_init (x_jit X) initDatasetItem" "\<And>n. initDatasetItem c n \<noteq> None"
    "0 < pus" "mset (ch_order ch n) = mset [0..<pus]"
    "ledger h0 v rx" "distinct (keys rx)" "rx_cache rx = Some c" "served c N rx" "ok \<longrightarrow> some_dataset rx"
  shows "\<exists>ok' rx'. build_node P X ch primary fallback n (k, pus) (ok, rx) = Some (ok', rx') \<and>
    ledger h0 v rx' \<and> distinct (keys rx') \<and> rx' = rx\<lparr>rx_heap := rx_heap rx', rx_datasets := rx_datasets rx'\<rparr> \<and>
    set (keys rx') \<subseteq> insert k (set (keys rx)) \<and> served c (insert k N) rx' \<and> (ok' \<longrightarrow> some_dataset rx')"
proof -
  obtain r rx1 where res: "Reserve P (ch_data_junk ch) (ch_primary ch n) (ch_fallback ch n) k primary fallback rx = (r, rx1)"
    by (metis surj_pair)
  from Reserve_ledger [OF assms(5,6) res] have rx1: "ledger h0 v rx1" "distinct (keys rx1)"
      "rx1 = rx\<lparr>rx_heap := rx_heap rx1, rx_datasets := rx_datasets rx1\<rparr>"
      "map_of (rx_datasets rx1) = (map_of (rx_datasets rx))(k := map_option Some r)" by blast+
  have dom: "set (keys rx1) \<subseteq> insert k (set (keys rx))"
    using arg_cong [OF rx1(4), of dom] by (auto simp: keys_def dom_map_of_conv_image_fst [symmetric] split: if_splits)
  show ?thesis
  proof (cases r)
    case None
    then have "served c (insert k N) rx1" using assms(8) by (auto simp: served_def rx1(4))
    moreover have "some_dataset rx1" if ok
    proof -
      obtain k' d where "map_of (rx_datasets rx) k' = Some (Some d)" using assms(9) \<open>ok\<close> by (auto simp: some_dataset_def)
      moreover have "k' \<noteq> k"
        using res None \<open>map_of (rx_datasets rx) k' = Some (Some d)\<close> by (auto simp: Reserve_def)
      ultimately show ?thesis unfolding some_dataset_def rx1(4) by (intro exI [of _ k']) simp
    qed
    ultimately show ?thesis using None rx1(1-3) dom by (simp add: build_node_def res)
  next
    case (Some d)
    have cache: "rx_cache rx1 = Some c" using arg_cong [OF rx1(3), of rx_cache] assms(7) by simp
    obtain m' where m': "init_parallel (x_jit X) (ch_buf ch) c (ds_memory d) randomx_dataset_item_count pus (ch_order ch n) = Some m'"
      "full_dataset c (d\<lparr>ds_memory := m'\<rparr>)"
      using workers_build [OF assms(1-4), of "ch_buf ch" "ds_memory d" "ds_dealloc d"]
      unfolding full_dataset_def by auto
    let ?rx = "rx1\<lparr>rx_datasets := AList.update k (Some (d\<lparr>ds_memory := m'\<rparr>)) (rx_datasets rx1)\<rparr>"
    have at: "map_of (rx_datasets rx1) k = Some (Some d)" by (simp add: rx1(4) Some)
    have "build_node P X ch primary fallback n (k, pus) (ok, rx) = Some (True, ?rx)"
      by (simp add: build_node_def res Some cache m'(1))
    moreover have "ledger h0 v ?rx"
      using rx1(1) live_same [OF at, of "d\<lparr>ds_memory := m'\<rparr>"] by (simp add: ledger_def)
    moreover have "distinct (keys ?rx)" "set (keys ?rx) \<subseteq> insert k (set (keys rx))"
      using rx1(2) dom dom_update [of k _ "rx_datasets rx1"] by (auto simp: keys_def distinct_update)
    moreover have "served c (insert k N) ?rx" "some_dataset ?rx"
      using assms(8) m'(2) by (auto simp: served_def some_dataset_def update_conv' rx1(4))
    moreover have "?rx = rx\<lparr>rx_heap := rx_heap ?rx, rx_datasets := rx_datasets ?rx\<rparr>"
      using arg_cong [OF rx1(3), of "\<lambda>r. r\<lparr>rx_datasets := AList.update k (Some (d\<lparr>ds_memory := m'\<rparr>)) (rx_datasets rx1)\<rparr>"] by simp
    ultimately show ?thesis by blast
  qed
qed

lemma build_loop_ok:
  assumes "dataset_init (x_jit X) initDatasetItem" "\<And>n. initDatasetItem c n \<noteq> None"
    "\<forall>i < length ns. 0 < snd (ns ! i) \<and> mset (ch_order ch (n + i)) = mset [0..<snd (ns ! i)]"
    "ledger h0 v rx" "distinct (keys rx)" "rx_cache rx = Some c" "served c N rx" "ok \<longrightarrow> some_dataset rx"
  shows "\<exists>ok' rx'. build_loop P X ch primary fallback n ns (ok, rx) = Some (ok', rx') \<and>
    ledger h0 v rx' \<and> distinct (keys rx') \<and> rx' = rx\<lparr>rx_heap := rx_heap rx', rx_datasets := rx_datasets rx'\<rparr> \<and>
    set (keys rx') \<subseteq> fst ` set ns \<union> set (keys rx) \<and> served c (fst ` set ns \<union> N) rx' \<and> (ok' \<longrightarrow> some_dataset rx')"
  using assms(3-8)
proof (induction ns arbitrary: n rx ok N)
  case Nil
  then show ?case by simp
next
  case (Cons node ns)
  obtain k pus where node: "node = (k, pus)" by (cases node)
  have "0 < pus" "mset (ch_order ch n) = mset [0..<pus]" using Cons.prems(1) node by auto
  from build_node_ok [OF assms(1,2) this Cons.prems(2-6), of P primary fallback k]
  obtain ok1 rx1 where rx1: "build_node P X ch primary fallback n (k, pus) (ok, rx) = Some (ok1, rx1)"
    "ledger h0 v rx1" "distinct (keys rx1)" "rx1 = rx\<lparr>rx_heap := rx_heap rx1, rx_datasets := rx_datasets rx1\<rparr>"
    "set (keys rx1) \<subseteq> insert k (set (keys rx))" "served c (insert k N) rx1" "ok1 \<longrightarrow> some_dataset rx1" by blast
  have "\<forall>i < length ns. 0 < snd (ns ! i) \<and> mset (ch_order ch (n + 1 + i)) = mset [0..<snd (ns ! i)]"
    using Cons.prems(1) by auto
  moreover have "rx_cache rx1 = Some c" using arg_cong [OF rx1(4), of rx_cache] Cons.prems(4) by simp
  ultimately obtain ok' rx' where rx': "build_loop P X ch primary fallback (n + 1) ns (ok1, rx1) = Some (ok', rx')"
    "ledger h0 v rx'" "distinct (keys rx')" "rx' = rx1\<lparr>rx_heap := rx_heap rx', rx_datasets := rx_datasets rx'\<rparr>"
    "set (keys rx') \<subseteq> fst ` set ns \<union> set (keys rx1)" "served c (fst ` set ns \<union> insert k N) rx'" "ok' \<longrightarrow> some_dataset rx'"
    using Cons.IH [OF _ rx1(2,3) _ rx1(6,7)] by blast
  have "rx' = rx\<lparr>rx_heap := rx_heap rx', rx_datasets := rx_datasets rx'\<rparr>"
    by (subst rx'(4), subst rx1(4)) simp
  then show ?case using rx1(1,5) rx'(1-3,5-7) by (auto simp: node)
qed

section \<open>What an allocation leaves behind\<close>

text \<open>A cache whose items are those that the seed defines.\<close>

definition seed_cache :: "external \<Rightarrow> u8 list \<Rightarrow> randomx_cache \<Rightarrow> bool" where
  "seed_cache X seed c \<longleftrightarrow> ca_cacheKey c = seed \<and>
     (\<exists>bufs ps g. fresh_programs (x_H X) bufs (Blake2Generator_init seed 0) = Some (ps, g) \<and>
        initDatasetItem c = ref_item (x_argon X seed) ps \<and> (\<forall>n. ref_item (x_argon X seed) ps n \<noteq> None))"

lemma seed_cache_items: "seed_cache X seed c \<Longrightarrow> initDatasetItem c n \<noteq> None"
  by (auto simp: seed_cache_def)

text \<open>The cache is the one of its key, and every dataset is filled from it.\<close>

definition consistent :: "platform \<Rightarrow> external \<Rightarrow> rx \<Rightarrow> bool" where
  "consistent P X rx \<longleftrightarrow> distinct (keys rx) \<and> set (keys rx) \<subseteq> fst ` set (build_nodes P) \<and>
     (rx_mode rx = Light \<longrightarrow> rx_datasets rx = []) \<and>
     (case rx_cache rx of None \<Rightarrow> True | Some c \<Rightarrow> seed_cache X (ca_cacheKey c) c \<and> served c UNIV rx)"

text \<open>Fresh memory has the shape of its types.\<close>

definition junk_ok :: "chance \<Rightarrow> bool" where
  "junk_ok ch \<longleftrightarrow> length (snd (ch_cache_junk ch)) = RANDOMX_CACHE_ACCESSES \<and>
     (\<forall>b\<in>set (snd (ch_cache_junk ch)). length b = SuperscalarMaxSize)"

text \<open>The byte stream lets the loops that draw values end, so that program generation ends.\<close>

definition seeds_end :: "external \<Rightarrow> bool" where
  "seeds_end X \<longleftrightarrow> draws_return (x_H X)"

lemma initCache_total:
  assumes "draws_return H"
  obtains c where "initCache argon H cache key = Some c"
proof -
  obtain p r g where "for_range 0 RANDOMX_CACHE_ACCESSES (cache_step H)
      (Some (ca_programs cache, [], Blake2Generator_init key 0)) = Some (p, r, g)"
    using cache_loop_total [OF assms] by fastforce
  then show ?thesis using that by (simp add: initCache_def)
qed

lemma new_cache_shape: "junk_ok ch \<Longrightarrow> cache_shape (new_cache (ch_cache_junk ch) impl a jit)"
  by (cases "ch_cache_junk ch") (auto simp: cache_shape_def junk_ok_def new_cache_def)

lemma fresh_init:
  assumes "junk_ok ch" "seeds_end X"
  obtains c where "randomx_init_cache (x_argon X) (x_H X) (new_cache (ch_cache_junk ch) impl a jit) key = Some c"
    "seed_cache X key c" "ca_jit c = jit" "ca_dealloc c = a"
proof -
  let ?new = "new_cache (ch_cache_junk ch) impl a jit"
  note shape = new_cache_shape [OF assms(1), of impl a jit]
  obtain c1 where c1: "initCache (x_argon X) (x_H X) ?new key = Some c1"
    using initCache_total assms(2) by (metis seeds_end_def)
  have "\<not> isInitialized ?new"
    using assms(1) by (cases "ch_cache_junk ch")
      (simp add: isInitialized_def new_cache_def empty_program_def RANDOMX_CACHE_ACCESSES_def junk_ok_def)
  then have init: "randomx_init_cache (x_argon X) (x_H X) ?new key = Some (c1\<lparr>ca_cacheKey := key\<rparr>)"
    by (simp add: randomx_init_cache_def initialize_cache_eq c1)
  obtain ps g where ps: "fresh_programs (x_H X) (map sp_buffer (ca_programs ?new)) (Blake2Generator_init key 0) = Some (ps, g)"
    "\<And>n. initDatasetItem c1 n = ref_item (x_argon X key) ps n" "\<And>n. initDatasetItem c1 n \<noteq> None"
    by (rule cached_items [OF c1 shape]) (rule that)
  have "initDatasetItem (c1\<lparr>ca_cacheKey := key\<rparr>) = ref_item (x_argon X key) ps"
    using items_cong [of c1 "c1\<lparr>ca_cacheKey := key\<rparr>"] ps(2) by (simp add: fun_eq_iff)
  with ps have "seed_cache X key (c1\<lparr>ca_cacheKey := key\<rparr>)" by (auto simp: seed_cache_def)
  with that [OF init] initCache_keeps [OF c1] show thesis by (simp add: new_cache_def)
qed

text \<open>How an allocation may end, and what is there afterwards.\<close>

definition after_allocation :: "u8 list \<Rightarrow> alloc_error + bool \<Rightarrow> rx \<Rightarrow> bool" where
  "after_allocation seed r rx \<longleftrightarrow>
     (case r of
        Inl Drain_timeout \<Rightarrow> False
      | Inl Cache_failed \<Rightarrow> rx_cache rx = None
      | Inl Dataset_failed \<Rightarrow> rx_mode rx = Fast
      | Inr b \<Rightarrow> b \<and> (\<exists>c. rx_cache rx = Some c \<and> ca_cacheKey c = take 32 seed) \<and> (rx_mode rx = Fast \<longrightarrow> some_dataset rx))"

lemma replace_ok:
  assumes "ledger h0 v rx" "consistent P X rx" "junk_ok ch" "seeds_end X" "fair X ch (build_nodes P)"
  shows "\<exists>r rx'. replace P X ch seed rx = Some (r, rx') \<and> ledger h0 v rx' \<and> consistent P X rx' \<and>
    rx' = rx\<lparr>rx_heap := rx_heap rx', rx_datasets := rx_datasets rx', rx_cache := rx_cache rx'\<rparr> \<and> after_allocation seed r rx'"
proof -
  let ?rx = "release_cache rx"
  have frame: "?rx = rx\<lparr>rx_heap := rx_heap ?rx, rx_cache := None\<rparr>" by (auto simp: release_cache_def split: option.splits)
  note led = ledger_release_cache [OF assms(1)]
  have keep: "distinct (keys ?rx)" "set (keys ?rx) \<subseteq> fst ` set (build_nodes P)" "rx_mode rx = Light \<longrightarrow> rx_datasets rx = []"
    using assms(2) by (simp_all add: consistent_def keys_def)
  obtain r1 h where alloc: "randomx_alloc_cache (pf_argon_avx2 P) (pf_argon_ssse3 P) (ch_cache_junk ch) (ch_cache ch)
      (build_cache_flags P) (rx_heap ?rx) = Some (r1, h)"
    using alloc_cache_total by fast
  show ?thesis
  proof (cases r1)
    case None
    then have "replace P X ch seed rx = Some (Inl Cache_failed, ?rx)"
      using alloc alloc_cache_cases [OF alloc] by (simp add: replace_def)
    then show ?thesis using led keep frame by (simp add: consistent_def after_allocation_def)
  next
    case (Some c0)
    obtain impl a jit where c0: "c0 = new_cache (ch_cache_junk ch) impl a jit" and
      h: "h = (rx_heap ?rx)\<lparr>h_caches := h_caches (rx_heap ?rx) + 1, h_jits := h_jits (rx_heap ?rx) + (if ca_jit c0 then 1 else 0),
          h_blocks := add_mset (ca_dealloc c0, CacheSize) (h_blocks (rx_heap ?rx))\<rparr>"
      using alloc_cache_cases [OF alloc] Some by auto
    obtain c where c: "randomx_init_cache (x_argon X) (x_H X) c0 (take 32 seed) = Some c" "seed_cache X (take 32 seed) c"
        "ca_jit c = ca_jit c0" "ca_dealloc c = ca_dealloc c0"
      by (rule fresh_init [OF assms(3,4), where key = "take 32 seed" and impl = impl and a = a and jit = jit])
        (use that in \<open>simp add: c0 new_cache_def\<close>)
    have key: "take (min (length seed) kMaxSeedSize) seed = take 32 seed" by (simp add: kMaxSeedSize_def min_def)
    let ?rx1 = "?rx\<lparr>rx_heap := h, rx_cache := Some c\<rparr>"
    have frame1: "?rx1 = rx\<lparr>rx_heap := h, rx_cache := Some c\<rparr>" by (subst frame) simp
    have led1: "ledger h0 v ?rx1" using led by (simp add: ledger_def h c(3,4))
    have keep1: "distinct (keys ?rx1)" "rx_cache ?rx1 = Some c" "served c {} ?rx1" using keep by (simp_all add: keys_def served_def)
    show ?thesis
    proof (cases "rx_mode rx = Fast")
      case False
      then have light: "rx_mode rx = Light" by (cases "rx_mode rx") simp_all
      have "replace P X ch seed rx = Some (Inr True, ?rx1)"
        using False by (simp add: replace_def alloc Some c(1) key)
      moreover have "consistent P X ?rx1"
        using keep light c(2) by (auto simp: consistent_def keys_def served_def seed_cache_def)
      ultimately show ?thesis
        using led1 frame1 light c(2) by (simp add: after_allocation_def seed_cache_def)
    next
      case True
      obtain ok rx' where rx': "BuildDataset P X ch ?rx1 = Some (ok, rx')"
        "ledger h0 v rx'" "distinct (keys rx')" "rx' = ?rx1\<lparr>rx_heap := rx_heap rx', rx_datasets := rx_datasets rx'\<rparr>"
        "set (keys rx') \<subseteq> fst ` set (build_nodes P) \<union> set (keys ?rx1)"
        "served c (fst ` set (build_nodes P) \<union> {}) rx'" "ok \<longrightarrow> some_dataset rx'"
      proof -
        have "dataset_init (x_jit X) initDatasetItem"
          "\<forall>i < length (build_nodes P). 0 < snd (build_nodes P ! i) \<and> mset (ch_order ch (0 + i)) = mset [0..<snd (build_nodes P ! i)]"
          using assms(5) by (simp_all add: fair_def)
        from build_loop_ok [OF this(1) seed_cache_items [OF c(2)] this(2) led1 keep1, of False] that
        show thesis unfolding BuildDataset_def Let_def by blast
      qed
      have keys: "set (keys rx') \<subseteq> fst ` set (build_nodes P)" using rx'(5) keep(2) by (auto simp: keys_def)
      have "served c UNIV rx'"
        using rx'(6) keys unfolding served_def
        by (metis (no_types, lifting) Un_empty_right domI dom_map_of_conv_image_fst keys_def set_map subsetD)
      moreover have cache: "rx_cache rx' = Some c" "rx_mode rx' = Fast"
        using arg_cong [OF rx'(4), of rx_cache] arg_cong [OF rx'(4), of rx_mode] True by simp_all
      ultimately have "consistent P X rx'"
        using rx'(3) keys c(2) by (auto simp: consistent_def seed_cache_def)
      moreover have "replace P X ch seed rx = Some (if ok then Inr True else Inl Dataset_failed, rx')"
        using True by (simp add: replace_def alloc Some c(1) key rx'(1))
      moreover have "rx' = rx\<lparr>rx_heap := rx_heap rx', rx_datasets := rx_datasets rx', rx_cache := rx_cache rx'\<rparr>"
        by (subst rx'(4), subst frame) (simp add: cache)
      ultimately show ?thesis
        using rx'(2,7) cache c(2) by (auto simp: after_allocation_def seed_cache_def)
    qed
  qed
qed

text \<open>C5: an allocation ends, within 1001 looks at the number of machines, in exactly one of these
  ways: it gives up waiting and has changed nothing; there is no memory for the cache, and no
  cache is left; there is no memory for any dataset; or there is a cache for the first 32 bytes
  of the seed and, in fast mode, a dataset. In every case all datasets are filled from the cache
  that is there, those of the last seed included, and the ledger is that of what is there.\<close>

theorem allocation_outcomes:
  assumes "ledger h0 v rx" "consistent P X rx" "junk_ok ch" "seeds_end X" "fair X ch (build_nodes P)"
  shows "\<exists>r rx'. Execute P X ch seed rx = Some (r, rx') \<and> ledger h0 v rx' \<and> consistent P X rx' \<and>
    (r = Inl Drain_timeout \<longleftrightarrow> (\<forall>k \<le> kDrainSpins. ch_active ch k > 0)) \<and>
    (if r = Inl Drain_timeout then rx' = rx else after_allocation seed r rx')"
proof -
  have drain: "drain (ch_active ch) 0 \<longleftrightarrow> \<not> (\<forall>k \<le> kDrainSpins. ch_active ch k > 0)"
    using drain_from [of 0 "ch_active ch"] by (auto simp: not_less)
  obtain r rx' where "replace P X ch seed rx = Some (r, rx')" "ledger h0 v rx'" "consistent P X rx'" "after_allocation seed r rx'"
    using replace_ok [OF assms] by blast
  moreover from this have "r \<noteq> Inl Drain_timeout" by (auto simp: after_allocation_def)
  ultimately show ?thesis using assms(1,2) drain by (simp add: Execute_def)
qed

section \<open>Machines that are created\<close>

text \<open>What a machine reads the dataset from, and the reads that a seed defines.\<close>

definition vm_reads :: "vm_object \<Rightarrow> u64 \<Rightarrow> (nat \<Rightarrow> u64) \<Rightarrow> (nat \<Rightarrow> u64) option" where
  "vm_reads vm = (case vo_ptr vm of CachePtr c \<Rightarrow> datasetRead_light c | DatasetPtr d \<Rightarrow> datasetRead d | NullPtr \<Rightarrow> (\<lambda>_ _. None))"

definition seed_reads :: "mem \<Rightarrow> SuperscalarProgram list \<Rightarrow> u64 \<Rightarrow> (nat \<Rightarrow> u64) \<Rightarrow> (nat \<Rightarrow> u64) option" where
  "seed_reads memory ps address r =
    map_option (\<lambda>rl. for_range 0 8 (\<lambda>q r. r(q := r q XOR rl q)) r)
      (ref_item memory ps (ucast (ucast (address div of_nat CacheLineSize) :: u32)))"

lemma light_reads: "initDatasetItem c = ref_item memory ps \<Longrightarrow> datasetRead_light c = seed_reads memory ps"
  by (intro ext) (simp add: datasetRead_light_def seed_reads_def Let_def split: option.splits)

lemma make_vm_pointers:
  assumes "make_vm P oc pad_ok pad node rx = Some (Some vm, rx')" "rx_cache rx = Some c"
  shows "vo_flags vm = build_flags P (rx_mode rx) (rx_version rx)" "vo_cacheKey vm = ca_cacheKey c"
    "(rx_mode rx = Light \<and> vo_ptr vm = CachePtr c) \<or>
     (rx_mode rx = Fast \<and> (\<exists>d. vo_ptr vm = DatasetPtr d \<and> map_of (rx_datasets rx) node = Some (Some d)))"
    "rx' = rx\<lparr>rx_heap := (rx_heap rx)\<lparr>h_vms := h_vms (rx_heap rx) + 1\<rparr>, rx_scratch := rx_scratch rx + 1, rx_active := rx_active rx + 1\<rparr>"
proof -
  let ?flags = "build_flags P (rx_mode rx) (rx_version rx)"
  obtain cls where cls: "vm_class_of ?flags = Some cls" "light cls \<longleftrightarrow> rx_mode rx \<noteq> Fast"
    using class_attributes [of ?flags] by (auto simp: build_flags_bits)
  consider (fast) d where "rx_mode rx = Fast" "map_of (rx_datasets rx) node = Some (Some d)" | (light) "rx_mode rx = Light"
    using assms(1) by (cases "rx_mode rx") (auto simp: make_vm_def Let_def split: option.splits)
  note that_vm = this
  show "vo_flags vm = ?flags" "vo_cacheKey vm = ca_cacheKey c"
    "(rx_mode rx = Light \<and> vo_ptr vm = CachePtr c) \<or>
     (rx_mode rx = Fast \<and> (\<exists>d. vo_ptr vm = DatasetPtr d \<and> map_of (rx_datasets rx) node = Some (Some d)))"
    "rx' = rx\<lparr>rx_heap := (rx_heap rx)\<lparr>h_vms := h_vms (rx_heap rx) + 1\<rparr>, rx_scratch := rx_scratch rx + 1, rx_active := rx_active rx + 1\<rparr>"
    using that_vm
    by (cases; use assms cls in \<open>auto simp: make_vm_def randomx_create_vm_def Let_def setters split: if_splits option.splits\<close>)+
qed

text \<open>When there is memory, a light object gets its cache and its machine.\<close>

lemma light_replace:
  assumes "rx_mode rx = Light" "rx_cache rx = None" "o_new (ch_cache ch)" "o_jit (ch_cache ch)" "o_mem (ch_cache ch)"
    "junk_ok ch" "seeds_end X"
  shows "\<exists>c h. replace P X ch seed rx = Some (Inr True, rx\<lparr>rx_heap := h, rx_cache := Some c\<rparr>) \<and> isInitialized c"
proof -
  obtain impl where impl: "selectArgonImpl (pf_argon_avx2 P) (pf_argon_ssse3 P) (build_cache_flags P) = Some impl"
    using argon_usable by blast
  obtain h a jit where alloc: "randomx_alloc_cache (pf_argon_avx2 P) (pf_argon_ssse3 P) (ch_cache_junk ch) (ch_cache ch) (build_cache_flags P) (rx_heap rx)
      = Some (Some (new_cache (ch_cache_junk ch) impl a jit), h)"
    using impl assms(3-5) by (simp add: randomx_alloc_cache_def cache_case_total allocMemory_def Let_def)
  note shape = new_cache_shape [OF assms(6), of impl a jit]
  obtain c1 where c1: "initCache (x_argon X) (x_H X) (new_cache (ch_cache_junk ch) impl a jit) (take (min (length seed) kMaxSeedSize) seed) = Some c1"
    using initCache_total assms(7) by (metis seeds_end_def)
  have "isInitialized c1" by (rule cache_initialized [OF c1 shape])
  moreover have "\<not> isInitialized (new_cache (ch_cache_junk ch) impl a jit)"
    using assms(6) by (cases "ch_cache_junk ch")
      (simp add: isInitialized_def new_cache_def empty_program_def RANDOMX_CACHE_ACCESSES_def junk_ok_def)
  moreover have "release_cache rx = rx" using assms(2) by (simp add: release_cache_def)
  ultimately have "replace P X ch seed rx = Some (Inr True, rx\<lparr>rx_heap := h,
      rx_cache := Some (c1\<lparr>ca_cacheKey := take (min (length seed) kMaxSeedSize) seed\<rparr>)\<rparr>)"
    using assms(1) c1 by (simp add: replace_def alloc randomx_init_cache_def initialize_cache_eq)
  then show ?thesis using \<open>isInitialized c1\<close> by (intro exI conjI) (assumption, simp add: isInitialized_def)
qed

lemma light_create:
  assumes "rx_mode rx = Light" "rx_cache rx = Some c" "isInitialized c" "o_new oc" "o_jit oc"
  shows "\<exists>vm rx'. make_vm P oc True pad node rx = Some (Some vm, rx')"
proof -
  obtain cls where "vm_class_of (build_flags P Light (rx_version rx)) = Some cls" "light cls"
    using class_attributes [of "build_flags P Light (rx_version rx)"] by (auto simp: build_flags_bits)
  then show ?thesis
    using assms build_flags_bits(1) [of P Light "rx_version rx"] by (simp add: make_vm_def randomx_create_vm_def setters Let_def)
qed

end
