(* ===== verification/Job_Facts.thy ===== *)
theory Job_Facts
  imports Rx_Job
begin

text \<open>
  Facts about the operations of a job: targets and difficulties, the nonces that remain and how
  each operation changes them, the invariant of the state, the nonce in the blob and in the
  share, and the counters of the threads.
\<close>

section \<open>Targets\<close>

lemma div_of_div:
  fixes N q :: nat
  assumes "0 < q" "q * q \<le> N"
  shows "N div (N div q) = q"
proof -
  let ?v = "N div q"
  have v: "q \<le> ?v" using assms by (simp add: less_eq_div_iff_mult_less_eq)
  have N: "?v * q + N mod q = N" by (simp add: mult.commute)
  have "N mod q < ?v" using mod_less_divisor [OF assms(1), of N] v by linarith
  then have "?v * q \<le> N" "N < ?v * Suc q" unfolding mult_Suc_right using N by linarith+
  then show ?thesis by (rule div_nat_eqI)
qed

lemma unat_max64: "unat (0xFFFFFFFFFFFFFFFF :: u64) = 18446744073709551615"
  by simp

lemma parse_compact:
  assumes "length tgt = 4" "load32 (data tgt) 0 = compact" "compact \<noteq> 0"
  shows "unat (0xFFFFFFFFFFFFFFFF div ParseTarget tgt) = 0xFFFFFFFF div unat compact"
proof -
  let ?q = "0xFFFFFFFF div unat compact"
  have c: "0 < unat compact" "unat compact \<le> 0xFFFFFFFF"
    using assms(3) unat_u32_less [of compact] unfolding unat_gt_0 by linarith+
  then have q: "0 < ?q" "?q \<le> 0xFFFFFFFF" by (simp_all add: div_greater_zero_iff div_le_dividend)
  have "?q * ?q \<le> 0xFFFFFFFF * 0xFFFFFFFF" by (rule mult_le_mono) (use q(2) in simp_all)
  then have sq: "?q * ?q \<le> 18446744073709551615" by simp
  have "unat (ucast compact :: u64) = unat compact"
    using c by (simp add: unsigned_ucast_eq take_bit_nat_eq_self)
  then have "unat (0xFFFFFFFF div ucast compact :: u64) = ?q" by (simp add: unat_div)
  then have "unat (ParseTarget tgt) = 18446744073709551615 div ?q"
    using assms by (simp add: ParseTarget_def Let_def unat_div)
  then show ?thesis using div_of_div [OF q(1) sq] by (simp add: unat_div)
qed

text \<open>C36: the difficulty that \<open>SendJob\<close> reports for a compact four-byte target is the exact
  difficulty of the pool: expanding the target to 64 bits loses nothing, the two divisions give
  back \<open>0xFFFFFFFF div compact\<close> for every non-zero compact target.\<close>

theorem compact_target_difficulty:
  assumes "length tgt = 4" "load32 (data tgt) 0 = compact" "compact \<noteq> 0"
  shows "unat (0xFFFFFFFFFFFFFFFF div ParseTarget tgt) = 0xFFFFFFFF div unat compact"
  by (rule parse_compact [OF assms])

theorem compact_target_difficulty_witness:
  "unat (0xFFFFFFFFFFFFFFFF div ParseTarget [0xb8, 0x88, 0x0d, 0x00]) = 0xFFFFFFFF div 886968"
  using compact_target_difficulty [of "[0xb8, 0x88, 0x0d, 0x00]" 886968]
  by (simp add: load32_def data_def push_bit_eq_mult)

section \<open>Ranges\<close>

lemma packed [simp]: "current_of (pack_range s l) = s" "limit_of (pack_range s l) = l"
  unfolding current_of_def limit_of_def pack_range_def
  by (rule bit_word_eqI; auto simp: bit_simps dest: bit_imp_le_length)+

text \<open>The nonces of a range and those that a job still has to hand out, in order.\<close>

definition nonces :: "u32 \<times> u32 \<Rightarrow> nat list" where
  "nonces r = [unat (fst r)..<unat (snd r)]"

definition remaining :: "u64 \<Rightarrow> (u32 \<times> u32) list \<Rightarrow> nat list" where
  "remaining packed queue = nonces (current_of packed, limit_of packed) @ concat (map nonces queue)"

definition queue_ok :: "(u32 \<times> u32) list \<Rightarrow> bool" where
  "queue_ok queue \<longleftrightarrow> (\<forall>(s, l) \<in> set queue. s < l)"

lemma nonces_empty [simp]: "nonces (s, l) = [] \<longleftrightarrow> l \<le> s"
  by (auto simp: nonces_def word_le_nat_alt)

lemma nonces_Cons: "s < l \<Longrightarrow> nonces (s, l) = unat s # nonces (s + 1, l)"
proof -
  assume sl: "s < l"
  then have "unat s < unat l" by (simp add: word_less_nat_alt)
  moreover have "unat (s + 1) = unat s + 1"
    using \<open>unat s < unat l\<close> unat_u32_less [of l] by (simp add: unat_word_ariths mod_less del: unat_u32_less)
  ultimately show ?thesis by (simp add: nonces_def upt_conv_Cons)
qed

lemma remaining_Cons:
  "current_of packed < limit_of packed \<Longrightarrow>
    remaining packed queue = unat (current_of packed) # remaining (pack_range (current_of packed + 1) (limit_of packed)) queue"
  by (simp add: remaining_def nonces_Cons)

lemma remaining_advance:
  "\<not> current_of packed < limit_of packed \<Longrightarrow> remaining packed ((s, l) # queue) = remaining (pack_range s l) queue"
  by (simp add: remaining_def)

lemma remaining_empty:
  "queue_ok queue \<Longrightarrow> remaining packed queue = [] \<longleftrightarrow> \<not> current_of packed < limit_of packed \<and> queue = []"
  by (cases queue) (auto simp: remaining_def queue_ok_def)

abbreviation job_nonces :: "job \<Rightarrow> nat list" where
  "job_nonces st \<equiv> remaining (j_range st) (j_queued st)"

lemma next_loop_spec:
  assumes "queue_ok (j_queued st)"
  shows "(case job_nonces st of
      [] \<Rightarrow> next_loop st = (None, st)
    | n # ns \<Rightarrow> \<exists>st'. next_loop st = (Some (of_nat n), st') \<and> job_nonces st' = ns \<and> queue_ok (j_queued st') \<and>
        st' = st\<lparr>j_range := j_range st', j_queued := j_queued st'\<rparr>)"
  using assms
proof (induction st rule: next_loop.induct)
  case (1 st)
  show ?case
  proof (cases "current_of (j_range st) < limit_of (j_range st)")
    case True
    then show ?thesis
      using "1.prems" by (simp add: remaining_Cons next_loop.simps Let_def)
  next
    case False
    show ?thesis
    proof (cases "j_queued st")
      case Nil
      with False have "job_nonces st = []" "next_loop st = (None, st)"
        by (simp_all add: remaining_def next_loop.simps AdvanceRange_def Let_def)
      then show ?thesis by simp
    next
      case (Cons r queue)
      obtain s l where r: "r = (s, l)" by fastforce
      let ?st = "st\<lparr>j_queued := queue, j_range := pack_range s l\<rparr>"
      have adv: "AdvanceRange (j_range st) st = (True, ?st)" by (simp add: AdvanceRange_def Cons r)
      have "queue_ok (j_queued ?st)" using "1.prems" by (simp add: queue_ok_def Cons)
      note IH = "1.IH" [OF refl refl refl False adv [symmetric] refl this]
      have step: "next_loop st = next_loop ?st" using False adv by (subst next_loop.simps) simp
      have rem: "job_nonces st = job_nonces ?st" using False by (simp add: Cons r remaining_advance)
      obtain n ns where n: "job_nonces ?st = n # ns"
        using "1.prems" remaining_empty [of queue "pack_range s l"]
        by (cases "job_nonces ?st") (auto simp: queue_ok_def Cons r)
      then obtain st' where "next_loop ?st = (Some (of_nat n), st')" "job_nonces st' = ns" "queue_ok (j_queued st')"
          "st' = ?st\<lparr>j_range := j_range st', j_queued := j_queued st'\<rparr>"
        using IH by auto
      then show ?thesis using step rem n by auto
    qed
  qed
qed

text \<open>The operations on the range, sequentially: the head of what remains is handed out.\<close>

lemma NextNonce_cases:
  assumes "queue_ok (j_queued st)" "\<not> j_paused st"
  shows "NextNonce st = (None, st) \<and> job_nonces st = [] \<or>
    (\<exists>n ns st'. job_nonces st = n # ns \<and> NextNonce st = (Some (of_nat n), st') \<and> job_nonces st' = ns \<and>
      queue_ok (j_queued st') \<and> st' = st\<lparr>j_range := j_range st', j_queued := j_queued st'\<rparr>)"
  using next_loop_spec [OF assms(1)] assms(2) by (auto simp: NextNonce_def split: list.splits)

text \<open>\<open>NextNonce\<close> hands out the nonces that remain, in order, through the end of a range into
  the queued ranges: while the job is not paused, it returns the first remaining nonce and
  leaves the others, and it returns nothing exactly when none remains; nothing else of the job
  changes.\<close>

theorem next_nonce_takes_first:
  assumes "queue_ok (j_queued st)" "\<not> j_paused st"
  shows "(case job_nonces st of
      [] \<Rightarrow> NextNonce st = (None, st)
    | n # ns \<Rightarrow> \<exists>st'. NextNonce st = (Some (of_nat n), st') \<and> job_nonces st' = ns \<and> queue_ok (j_queued st') \<and>
        st' = st\<lparr>j_range := j_range st', j_queued := j_queued st'\<rparr>)"
  using NextNonce_cases [OF assms] by (auto split: list.splits)

theorem next_nonce_takes_first_witness:
  "\<exists>st'. NextNonce (initial_job\<lparr>j_range := pack_range 5 5, j_queued := [(7, 9)]\<rparr>) = (Some 7, st') \<and> job_nonces st' = [8]"
proof -
  let ?st = "initial_job\<lparr>j_range := pack_range 5 5, j_queued := [(7, 9)]\<rparr>"
  have "queue_ok (j_queued ?st)" "\<not> j_paused ?st" by (simp_all add: queue_ok_def initial_job_def)
  moreover have "job_nonces ?st = [7, 8]" by (simp add: remaining_def nonces_def upt_rec)
  ultimately show ?thesis using next_nonce_takes_first [of ?st] by auto
qed

text \<open>C33: a waiting thread never spins and never sleeps on work: for a job that is installed,
  \<open>HasWork\<close> holds exactly when \<open>NextNonce\<close> would return a nonce.\<close>

theorem has_work_iff_nonce:
  assumes "queue_ok (j_queued st)" "0 < sz"
  shows "HasWork st sz \<longleftrightarrow> fst (NextNonce st) \<noteq> None"
proof (cases "j_paused st")
  case True
  then show ?thesis by (simp add: HasWork_def NextNonce_def)
next
  case False
  have "HasWork st sz \<longleftrightarrow> job_nonces st \<noteq> []"
    using False assms by (simp add: HasWork_def remaining_empty)
  with NextNonce_cases [OF assms(1) False] show ?thesis by auto
qed

theorem has_work_iff_nonce_witness:
  "HasWork initial_job 76 \<longleftrightarrow> fst (NextNonce initial_job) \<noteq> None"
  by (rule has_work_iff_nonce) (simp_all add: initial_job_def queue_ok_def)

lemma pending_fold:
  "queue_ok queue \<Longrightarrow> fold (\<lambda>(s, l) p. p + ucast (l - s)) queue p = p + of_nat (length (concat (map nonces queue)))"
  for p :: u64
proof (induction queue arbitrary: p)
  case (Cons r queue)
  obtain s l where r: "r = (s, l)" by fastforce
  have sl: "s < l" using Cons.prems by (simp add: queue_ok_def r)
  then have "unat (l - s) = length (nonces r)"
    by (simp add: nonces_def r unat_sub)
  then have "(ucast (l - s) :: u64) = of_nat (length (nonces r))" by (metis of_nat_unat)
  moreover have "queue_ok queue" using Cons.prems by (simp add: queue_ok_def)
  ultimately show ?case using Cons.IH by (simp add: r add.assoc)
qed simp

text \<open>\<open>PendingNonces\<close> reports the number of nonces that remain in the current range and in the
  queue, and an accepted \<open>QueueRange\<close> adds the nonces of its range behind them; a refused or
  malformed call changes nothing.\<close>

theorem pending_counts_remaining:
  assumes "queue_ok (j_queued st)"
  shows "PendingNonces st = of_nat (length (job_nonces st)) \<and>
    (case QueueRange args st of
       (Inr True, st') \<Rightarrow> \<exists>s l rest. args = JNumber s # JNumber l # rest \<and> s < l \<and> queue_ok (j_queued st') \<and>
         job_nonces st' = job_nonces st @ [unat s..<unat l]
     | (_, st') \<Rightarrow> st' = st)"
proof
  let ?c = "current_of (j_range st)" and ?l = "limit_of (j_range st)"
  have "(if ?c < ?l then ucast (?l - ?c) else 0) = (of_nat (length (nonces (?c, ?l))) :: u64)"
  proof (cases "?c < ?l")
    case True
    then have "unat (?l - ?c) = length (nonces (?c, ?l))" by (simp add: nonces_def unat_sub)
    then show ?thesis using True by (metis of_nat_unat)
  next
    case False
    then have "nonces (?c, ?l) = []" by simp
    with False show ?thesis by (simp del: nonces_empty)
  qed
  then show "PendingNonces st = of_nat (length (job_nonces st))"
    using pending_fold [OF assms] by (simp add: PendingNonces_def Let_def remaining_def)
  show "case QueueRange args st of
       (Inr True, st') \<Rightarrow> \<exists>s l rest. args = JNumber s # JNumber l # rest \<and> s < l \<and> queue_ok (j_queued st') \<and>
         job_nonces st' = job_nonces st @ [unat s..<unat l]
     | (_, st') \<Rightarrow> st' = st"
    using assms by (auto simp: QueueRange_def remaining_def nonces_def queue_ok_def split: list.splits js.splits)
qed

theorem pending_counts_remaining_witness:
  "PendingNonces (initial_job\<lparr>j_queued := [(7, 9)]\<rparr>) = of_nat (length (job_nonces (initial_job\<lparr>j_queued := [(7, 9)]\<rparr>)))"
  using pending_counts_remaining [of "initial_job\<lparr>j_queued := [(7, 9)]\<rparr>"] by (simp add: queue_ok_def)

section \<open>The state of a job\<close>

definition job_ok :: "job \<Rightarrow> bool" where
  "job_ok st \<longleftrightarrow> queue_ok (j_queued st) \<and> (\<not> j_ranged st \<longrightarrow> j_queued st = []) \<and>
     (j_size st = 0 \<or> kNonceOffset + 4 < j_size st \<and> j_size st \<le> kMaxBlobSize \<and> j_target st \<noteq> 0) \<and>
     (j_nicehash st \<and> \<not> j_ranged st \<longrightarrow> limit_of (j_range st) \<le> kNicehashLimit)"

text \<open>Whatever the main thread and the mining threads call, in any order.\<close>

inductive job_step :: "job \<Rightarrow> job \<Rightarrow> bool" where
  send: "job_step st (snd (SendJob args st))"
| queue: "job_step st (snd (QueueRange args st))"
| throttle: "job_step st (snd (Throttle args st))"
| pause: "job_step st (Pause st)"
| start: "job_step st (snd (Start hw counts st))"
| stop: "job_step st (snd (Stop st))"
| next_nonce: "job_step st (snd (NextNonce st))"
| advance: "current_of p \<ge> limit_of p \<Longrightarrow> job_step st (snd (AdvanceRange p st))"
| submit: "job_step st (snd (SubmitShare accepted hash blob tgt version st))"
| delivered: "job_step st (snd (share_delivered st))"
| throttled: "job_step st (snd (ApplyThrottle st))"
| leave: "job_step st (snd (LiveGuard_exit st))"

inductive job_reachable :: "job \<Rightarrow> bool" where
  initial: "job_reachable initial_job"
| more: "job_reachable st \<Longrightarrow> job_step st st' \<Longrightarrow> job_reachable st'"

text \<open>Most operations leave alone what the invariant reads.\<close>

definition job_data :: "job \<Rightarrow> nat \<times> u64 \<times> bool \<times> bool \<times> u64 \<times> (u32 \<times> u32) list" where
  "job_data st = (j_size st, j_target st, j_nicehash st, j_ranged st, j_range st, j_queued st)"

lemma job_ok_data: "job_data st' = job_data st \<Longrightarrow> job_ok st' = job_ok st"
  by (simp add: job_data_def job_ok_def)

lemma live_exit_data: "job_data (snd (LiveGuard_exit st)) = job_data st"
  by (simp add: LiveGuard_exit_def job_data_def Let_def)

lemma stop_loop_data: "job_data (StopLoop st) = job_data st"
proof -
  have "job_data (for_range 0 n (\<lambda>_ st. snd (LiveGuard_exit st)) st) = job_data st" for n st
    by (induction n) (simp_all add: live_exit_data)
  then show ?thesis by (simp add: StopLoop_def Let_def job_data_def)
qed

lemma other_data:
  "job_data (snd (Throttle args st)) = job_data st" "job_data (Pause st) = job_data st"
  "job_data (snd (Start hw counts st)) = job_data st" "job_data (snd (Stop st)) = job_data st"
  "job_data (snd (SubmitShare accepted hash blob tgt version st)) = job_data st"
  "job_data (snd (share_delivered st)) = job_data st" "job_data (snd (ApplyThrottle st)) = job_data st"
  using stop_loop_data [of st]
  by (auto simp: Throttle_def Pause_def Start_def Stop_def SubmitShare_def share_delivered_def ApplyThrottle_def
      job_data_def Let_def split: list.splits js.splits option.splits)

lemma install_ok:
  assumes "kNonceOffset + 4 < n" "n \<le> kMaxBlobSize" "t \<noteq> 0"
  shows "job_ok (install st blob n t nicehash reset ranged s l)"
  using assms by (auto simp: job_ok_def install_def Let_def queue_ok_def new_range_def)

lemma send_ok: "job_ok st \<Longrightarrow> job_ok (snd (SendJob args st))"
  unfolding SendJob_def Let_def
  by (auto intro!: install_ok simp: kMaxBlobSize_def split: list.splits js.splits)

lemma range_ops_ok:
  "job_ok st \<Longrightarrow> job_ok (snd (QueueRange args st))"
  "job_ok st \<Longrightarrow> limit_of p \<le> current_of p \<Longrightarrow> job_ok (snd (AdvanceRange p st))"
  by (auto simp: job_ok_def QueueRange_def AdvanceRange_def queue_ok_def split: list.splits js.splits)

lemma next_loop_ok: "job_ok st \<Longrightarrow> job_ok (snd (next_loop st))"
proof (induction st rule: next_loop.induct)
  case (1 st)
  show ?case
  proof (cases "current_of (j_range st) < limit_of (j_range st)")
    case True
    then show ?thesis using "1.prems" by (simp add: next_loop.simps Let_def job_ok_def)
  next
    case False
    obtain b st' where adv: "AdvanceRange (j_range st) st = (b, st')" by fastforce
    then have ok: "job_ok st'" using range_ops_ok(2) [OF "1.prems", of "j_range st"] False by simp
    have "next_loop st = (if b then next_loop st' else (None, st'))"
      using False adv by (subst next_loop.simps) (simp split: bool.splits)
    with "1.IH" [OF refl refl refl False adv [symmetric]] ok show ?thesis by (cases b) simp_all
  qed
qed

lemma job_step_ok: "job_step st st' \<Longrightarrow> job_ok st \<Longrightarrow> job_ok st'"
proof (induction rule: job_step.induct)
  case (next_nonce st)
  then show ?case by (simp add: NextNonce_def next_loop_ok)
qed (simp_all add: job_ok_data [OF other_data(1)] job_ok_data [OF other_data(2)] job_ok_data [OF other_data(3)]
    job_ok_data [OF other_data(4)] job_ok_data [OF other_data(5)] job_ok_data [OF other_data(6)]
    job_ok_data [OF other_data(7)] job_ok_data [OF live_exit_data] send_ok range_ops_ok)

lemma reachable_ok: "job_reachable st \<Longrightarrow> job_ok st"
proof (induction rule: job_reachable.induct)
  case initial
  show ?case by (simp add: job_ok_def initial_job_def queue_ok_def)
qed (rule job_step_ok)

text \<open>C34: the state of a job is well formed after any sequence of calls from JavaScript and from
  the mining threads: a job is either absent or has a blob that holds a nonce, fits the buffer
  and comes with a non-zero target; queued ranges are never empty and exist for ranged jobs only;
  an unranged nicehash job never hands out a nonce beyond its 24 bits.\<close>

theorem job_well_formed:
  assumes "job_reachable st"
  shows "(j_size st = 0 \<or> kNonceOffset + 4 < j_size st \<and> j_size st \<le> kMaxBlobSize \<and> j_target st \<noteq> 0) \<and>
    (\<forall>(s, l) \<in> set (j_queued st). s < l \<and> j_ranged st) \<and>
    (j_nicehash st \<and> \<not> j_ranged st \<longrightarrow> (\<forall>n \<in> set (job_nonces st). n < 2 ^ 24))"
proof -
  have ok: "job_ok st" by (rule reachable_ok [OF assms])
  have "n < 2 ^ 24" if n: "j_nicehash st" "\<not> j_ranged st" "n \<in> set (job_nonces st)" for n
  proof -
    have "j_queued st = []" "limit_of (j_range st) \<le> kNicehashLimit" using ok n(1,2) by (auto simp: job_ok_def)
    then have "unat (limit_of (j_range st)) \<le> 2 ^ 24" "n < unat (limit_of (j_range st))"
      using n(3) by (simp_all add: kNicehashLimit_def word_le_nat_alt remaining_def nonces_def)
    then show ?thesis by linarith
  qed
  then show ?thesis using ok by (auto simp: job_ok_def queue_ok_def)
qed

lemma send_size:
  assumes "ParseTarget tgt \<noteq> 0" "43 < length blob"
  shows "j_size (snd (SendJob [JBuffer blob, JBuffer tgt, JBoolean a, JBoolean b] st)) = min (length blob) 408"
  using assms by (auto simp: SendJob_def install_def Let_def kMaxBlobSize_def kNonceOffset_def min_def)

definition sent_job :: job where
  "sent_job = snd (SendJob [JBuffer (replicate 76 7), JBuffer [1, 0, 0, 0, 0, 0, 0, 0], JBoolean False, JBoolean True] (Pause initial_job))"

lemma one_target: "ParseTarget [1, 0, 0, 0, 0, 0, 0, 0] \<noteq> 0"
  by (simp add: ParseTarget_def load64_def data_def)

lemma sent_size: "j_size sent_job = 76"
proof -
  have "j_size sent_job = min (length (replicate 76 (7 :: u8))) 408"
    unfolding sent_job_def by (rule send_size [OF one_target]) (simp only: length_replicate)
  then show ?thesis unfolding length_replicate by simp
qed

lemma sent_reachable: "job_reachable sent_job"
  unfolding sent_job_def
  by (rule job_reachable.more [OF job_reachable.more [OF job_reachable.initial job_step.pause] job_step.send])

theorem job_well_formed_witness: "kNonceOffset + 4 < j_size sent_job \<and> j_target sent_job \<noteq> 0"
  using job_well_formed [OF sent_reachable] unfolding sent_size by simp

section \<open>Errors of \<open>SendJob\<close>\<close>

text \<open>A target of five to seven bytes is read from its first four, a longer one from its first eight.\<close>

lemma target_of_prefix:
  assumes "length tgt \<in> {5, 6, 7}"
  shows "ParseTarget tgt = ParseTarget (take 4 tgt)"
  using assms by (auto simp: ParseTarget_def load32_def data_def Let_def)



section \<open>The nonce in the blob\<close>

lemma write_nonce_bytes:
  "i < 39 \<or> 43 \<le> i \<Longrightarrow> write_nonce keep blob nonce i = blob i"
  by (simp add: write_nonce_def kNonceOffset_def Let_def c32.store_outside)

lemma load_write_nonce:
  "load32 (write_nonce keep blob nonce) 39 =
    (if keep then load32 blob 39 AND kNicehashMask OR (nonce AND NOT kNicehashMask) else nonce)"
  by (simp add: write_nonce_def kNonceOffset_def Let_def c32.load_store_same)

lemma nicehash_mask: "kNicehashMask = push_bit 24 (mask 8)" "NOT kNicehashMask = mask 24"
  by (simp_all add: kNicehashMask_def mask_eq_exp_minus_1)

lemma small_nonce: "unat n < 2 ^ 24 \<Longrightarrow> n AND NOT kNicehashMask = n"
  unfolding nicehash_mask(2)
  by (simp add: word_unat_eq_iff unat_and_mask)

text \<open>The nonce that a share reports.\<close>

lemma nonce_bytes: "read_bytes blob 39 4 = [blob 39, blob 40, blob 41, blob 42]"
  by (simp add: read_bytes_def upt_rec)

lemma reinsert:
  "write_bytes blob 39 (read_bytes (write_nonce keep blob nonce) 39 4) = write_nonce keep blob nonce"
proof
  fix i
  show "write_bytes blob 39 (read_bytes (write_nonce keep blob nonce) 39 4) i = write_nonce keep blob nonce i"
    using write_nonce_bytes [of i keep blob nonce]
    by (cases "39 \<le> i \<and> i < 43") (auto simp: write_bytes_def read_bytes_def)
qed



text \<open>C38: distinct nonces make distinct blobs, so that no thread repeats the work of another:
  writing the nonce changes the four nonce bytes only, in nicehash mode it keeps the top byte
  that the pool has fixed, and two different nonces of the range of the job never give the same
  blob.\<close>

theorem nonces_make_distinct_blobs:
  assumes "n \<noteq> n'" "keep \<Longrightarrow> unat n < 2 ^ 24 \<and> unat n' < 2 ^ 24"
  shows "write_nonce keep blob n \<noteq> write_nonce keep blob n' \<and>
    (\<forall>i. i < 39 \<or> 43 \<le> i \<longrightarrow> write_nonce keep blob n i = blob i) \<and>
    (keep \<longrightarrow> load32 (write_nonce keep blob n) 39 AND kNicehashMask = load32 blob 39 AND kNicehashMask)"
proof -
  have clear: "(x AND NOT kNicehashMask) AND kNicehashMask = 0" "(x AND kNicehashMask) AND NOT kNicehashMask = 0" for x
    by (simp_all add: and.assoc)
  have "load32 (write_nonce keep blob n) 39 \<noteq> load32 (write_nonce keep blob n') 39"
  proof (cases keep)
    case True
    then have low: "(load32 (write_nonce keep blob m) 39) AND NOT kNicehashMask = m" if "unat m < 2 ^ 24" for m
      using small_nonce [OF that] clear by (simp add: load_write_nonce bit.conj_disj_distrib2 and.assoc)
    show ?thesis using low [of n] low [of n'] assms True by auto
  next
    case False
    then show ?thesis using assms(1) by (simp add: load_write_nonce)
  qed
  then have "write_nonce keep blob n \<noteq> write_nonce keep blob n'" by metis
  moreover have "(x AND kNicehashMask OR (m AND NOT kNicehashMask)) AND kNicehashMask = x AND kNicehashMask" for x m
    by (simp add: bit.conj_disj_distrib2 clear and.assoc)
  ultimately show ?thesis by (auto simp: load_write_nonce write_nonce_bytes)
qed

theorem nonces_make_distinct_blobs_witness:
  "write_nonce True (\<lambda>_. 7) 5 \<noteq> write_nonce True (\<lambda>_. 7) 6"
  using nonces_make_distinct_blobs [of 5 6 True "\<lambda>_. 7"] by simp

section \<open>Threads\<close>

lemma plan_step:
  "for_range 0 k (\<lambda>i slots. slots @ [\<lparr>core_id = of_nat (length slots), numa_node = 0\<rparr>])
     (map (\<lambda>i. \<lparr>core_id = of_nat i, numa_node = 0\<rparr>) [0..<n]) =
   map (\<lambda>i. \<lparr>core_id = of_nat i, numa_node = 0\<rparr>) [0..<n + k]"
  by (induction k) simp_all

lemma plan_fold:
  "fold (\<lambda>k slots. for_range 0 (unat k)
      (\<lambda>i slots. slots @ [\<lparr>core_id = of_nat (length slots), numa_node = 0\<rparr>]) slots) counts
     (map (\<lambda>i. \<lparr>core_id = of_nat i, numa_node = 0\<rparr>) [0..<n]) =
   map (\<lambda>i. \<lparr>core_id = of_nat i, numa_node = 0\<rparr>) [0..<n + sum_list (map unat (counts :: u32 list))]"
  by (induction counts arbitrary: n) (simp_all add: plan_step add.assoc)

text \<open>without hwloc a start plans one thread per requested thread, numbered from 0 without
  gaps; with no counts given it plans one per processor, and at least one.\<close>

theorem plan_numbers_threads:
  "PlanThreads hw counts = map (\<lambda>i. \<lparr>core_id = of_nat i, numa_node = 0\<rparr>)
     [0..<if counts = [] then max 1 (unat hw) else sum_list (map unat counts)]"
proof -
  let ?c = "if counts = [] then [if hw > 0 then hw else 1] else counts"
  have "PlanThreads hw counts = map (\<lambda>i. \<lparr>core_id = of_nat i, numa_node = 0\<rparr>) [0..<sum_list (map unat ?c)]"
    using plan_fold [of ?c 0] by (simp add: PlanThreads_def Let_def del: fold_Cons_rev)
  moreover have "sum_list (map unat ?c) = (if counts = [] then max 1 (unat hw) else sum_list (map unat counts))"
    by (auto simp: word_gt_0 unat_eq_0 max_def Suc_le_eq unat_gt_0)
  ultimately show ?thesis by simp
qed

lemma exits:
  assumes "n < unat (j_live st)"
  shows "for_range 0 n (\<lambda>_ st. snd (LiveGuard_exit st)) st = st\<lparr>j_live := j_live st - of_nat n\<rparr>"
  using assms
proof (induction n)
  case (Suc n)
  then have "unat (of_nat n :: u32) = n" "n < unat (j_live st)"
    using unat_u32_less [of "j_live st"] by (simp_all add: unsigned_of_nat take_bit_nat_eq_self del: unat_u32_less)
  moreover have "j_live st - of_nat n \<noteq> 1"
  proof
    assume "j_live st - of_nat n = 1"
    then have "j_live st = of_nat (Suc n)" by (simp add: algebra_simps)
    then have "unat (j_live st) = take_bit 32 (Suc n)" by (simp only: unsigned_of_nat) simp
    then have "unat (j_live st) \<le> Suc n" by (simp only: take_bit_nat_less_eq_self)
    with Suc.prems show False by simp
  qed
  ultimately show ?case using Suc.IH by (simp add: LiveGuard_exit_def Let_def algebra_simps)
qed simp

text \<open>when the mining threads leave on their own (no machine could be made), exactly the last
  of them clears the active flag and releases the callback, so that a later start runs again;
  when they are stopped, none of them does, and no thread is left.\<close>

theorem last_thread_releases:
  assumes "0 < j_live st" "j_active st"
  defines "leave \<equiv> \<lambda>k. for_range 0 k (\<lambda>_ st. snd (LiveGuard_exit st)) st"
  shows "(\<forall>k < unat (j_live st). j_active (leave k) \<and>
      (fst (LiveGuard_exit (leave k)) \<longleftrightarrow> k + 1 = unat (j_live st))) \<and>
    leave (unat (j_live st)) = st\<lparr>j_live := 0, j_active := False\<rparr> \<and>
    StopLoop st = st\<lparr>j_live := 0, j_active := False, j_throttle_count := 0\<rparr>"
proof -
  let ?n = "unat (j_live st)"
  have n: "0 < ?n" using assms(1) by (simp add: word_gt_0 unat_gt_0)
  have at: "leave k = st\<lparr>j_live := j_live st - of_nat k\<rparr>" if "k < ?n" for k
    unfolding leave_def by (rule exits [OF that])
  have one: "j_live st - of_nat k = 1 \<longleftrightarrow> k + 1 = ?n" if "k < ?n" for k
  proof -
    have "unat (of_nat k :: u32) = k" "(of_nat k :: u32) \<le> j_live st"
      using that unat_u32_less [of "j_live st"]
      by (simp_all add: unsigned_of_nat take_bit_nat_eq_self word_le_nat_alt del: unat_u32_less)
    then have "unat (j_live st - of_nat k) = ?n - k" by (simp add: unat_sub)
    then show ?thesis using that by (auto simp: word_unat_eq_iff)
  qed
  have last: "leave ?n = st\<lparr>j_live := 0, j_active := False\<rparr>"
    "for_range 0 ?n (\<lambda>_ st. snd (LiveGuard_exit st)) (st\<lparr>j_active := False\<rparr>) = st\<lparr>j_live := 0, j_active := False\<rparr>"
  proof -
    obtain k where k: "?n = Suc k" using n by (cases ?n) auto
    then have "j_live st - of_nat k = 1" using one [of k] by simp
    moreover have "leave (Suc k) = snd (LiveGuard_exit (leave k))" by (simp add: leave_def)
    ultimately show "leave ?n = st\<lparr>j_live := 0, j_active := False\<rparr>"
      using at [of k] k assms(2) by (simp add: LiveGuard_exit_def)
    have "for_range 0 k (\<lambda>_ st. snd (LiveGuard_exit st)) (st\<lparr>j_active := False\<rparr>) =
        st\<lparr>j_active := False, j_live := j_live st - of_nat k\<rparr>"
      using exits [of k "st\<lparr>j_active := False\<rparr>"] k by simp
    with \<open>j_live st - of_nat k = 1\<close> show "for_range 0 ?n (\<lambda>_ st. snd (LiveGuard_exit st)) (st\<lparr>j_active := False\<rparr>) =
        st\<lparr>j_live := 0, j_active := False\<rparr>"
      using k by (simp add: LiveGuard_exit_def)
  qed
  have "j_active (leave k) \<and> (fst (LiveGuard_exit (leave k)) \<longleftrightarrow> k + 1 = ?n)" if "k < ?n" for k
    using at [OF that] one [OF that] assms(2) by (simp add: LiveGuard_exit_def Let_def)
  then show ?thesis using last by (simp add: StopLoop_def Let_def)
qed

theorem last_thread_releases_witness:
  "StopLoop (initial_job\<lparr>j_live := 3, j_active := True\<rparr>) = initial_job\<lparr>j_live := 0, j_active := False, j_throttle_count := 0\<rparr>"
proof -
  have "0 < j_live (initial_job\<lparr>j_live := 3, j_active := True\<rparr>)" "j_active (initial_job\<lparr>j_live := 3, j_active := True\<rparr>)"
    by simp_all
  from last_thread_releases [OF this] show ?thesis by simp
qed

end
