(* ===== verification/Nonces.thy ===== *)
theory Nonces
  imports Job_Facts
begin

text \<open>
  How the mining threads share the nonces of a job: \<^verbatim>\<open>NextNonce\<close> and \<^verbatim>\<open>AdvanceRange\<close> of
  \<^verbatim>\<open>rx_job.cpp\<close> as one step per atomic access, interleaved with \<^verbatim>\<open>QueueRange\<close>,
  \<^verbatim>\<open>Pause\<close> and \<^verbatim>\<open>SendJob\<close>, and the proof that this is an atomic queue of nonces. The
  simulation between two step relations is the locale \<open>simulation\<close>.

  \<^verbatim>\<open>AdvanceRange\<close> and \<^verbatim>\<open>QueueRange\<close> hold \<^verbatim>\<open>m_range_mutex\<close> and are one step each: no exchange
  can succeed between the test and the store of \<^verbatim>\<open>AdvanceRange\<close>, because an exchange is tried
  on non-empty ranges only. Of \<^verbatim>\<open>SendJob\<close> the step is its store of the range; the queue, that it
  clears before under the same mutex, is read by no exchange.
\<close>

section \<open>Simulations\<close>

locale simulation =
  fixes step :: "'s \<Rightarrow> 's \<Rightarrow> bool"
    and astep :: "'a \<Rightarrow> 'a \<Rightarrow> bool"
    and abs :: "'s \<Rightarrow> 'a"
    and inv :: "'s \<Rightarrow> bool"
  assumes inv_step: "inv s \<Longrightarrow> step s s' \<Longrightarrow> inv s'"
    and sim_step: "inv s \<Longrightarrow> step s s' \<Longrightarrow> abs s' = abs s \<or> astep (abs s) (abs s')"
begin

lemma inv_reach: "step\<^sup>*\<^sup>* s s' \<Longrightarrow> inv s \<Longrightarrow> inv s'"
  by (induction rule: rtranclp_induct) (auto intro: inv_step)

lemma sim_reach: "step\<^sup>*\<^sup>* s s' \<Longrightarrow> inv s \<Longrightarrow> astep\<^sup>*\<^sup>* (abs s) (abs s')"
proof (induction rule: rtranclp_induct)
  case (step s1 s2)
  then have "abs s2 = abs s1 \<or> astep (abs s1) (abs s2)" using inv_reach sim_step by blast
  with step show ?case by (auto intro: rtranclp.rtrancl_into_rtrancl)
qed simp

end

section \<open>The specification\<close>

text \<open>What has been handed out since the last job, and what remains.\<close>

inductive pool_step :: "nat list \<times> nat list \<Rightarrow> nat list \<times> nat list \<Rightarrow> bool" where
  take: "pool_step (log, n # rest) (log @ [n], rest)"
| add: "pool_step (log, rest) (log, rest @ ns)"
| reset: "pool_step (log, rest) ([], ns)"

section \<open>The threads\<close>

text \<open>Where a thread is in \<^verbatim>\<open>NextNonce\<close>: outside, before the load of the outer loop, in the
  inner loop with the value it loaded, returning.\<close>

datatype pc = Outside | Outer | Inner u64 | Got u32 | Nothing

text \<open>\<open>n_log\<close> and \<open>n_total\<close> only observe: the nonces handed out and those provided since the
  last job.\<close>

record nonce_state =
  n_range :: u64
  n_queue :: "(u32 \<times> u32) list"
  n_ranged :: bool
  n_paused :: bool
  n_pc :: "nat \<Rightarrow> pc"
  n_log :: "nat list"
  n_total :: "nat list"

inductive nonce_step :: "nonce_state \<Rightarrow> nonce_state \<Rightarrow> bool" where
  enter: "n_pc s t = Outside \<Longrightarrow> \<not> n_paused s \<Longrightarrow> nonce_step s (s\<lparr>n_pc := (n_pc s)(t := Outer)\<rparr>)"
| refuse: "n_pc s t = Outside \<Longrightarrow> n_paused s \<Longrightarrow> nonce_step s (s\<lparr>n_pc := (n_pc s)(t := Nothing)\<rparr>)"
| load: "n_pc s t = Outer \<Longrightarrow> nonce_step s (s\<lparr>n_pc := (n_pc s)(t := Inner (n_range s))\<rparr>)"
| exchange: "n_pc s t = Inner p \<Longrightarrow> current_of p < limit_of p \<Longrightarrow> n_range s = p \<Longrightarrow>
    nonce_step s (s\<lparr>n_range := pack_range (current_of p + 1) (limit_of p), n_pc := (n_pc s)(t := Got (current_of p)),
      n_log := n_log s @ [unat (current_of p)]\<rparr>)"
| exchange_fails: "n_pc s t = Inner p \<Longrightarrow> current_of p < limit_of p \<Longrightarrow>
    nonce_step s (s\<lparr>n_pc := (n_pc s)(t := Inner (n_range s))\<rparr>)"
| advanced_before: "n_pc s t = Inner p \<Longrightarrow> \<not> current_of p < limit_of p \<Longrightarrow> n_range s \<noteq> p \<Longrightarrow>
    nonce_step s (s\<lparr>n_pc := (n_pc s)(t := Outer)\<rparr>)"
| no_range: "n_pc s t = Inner p \<Longrightarrow> \<not> current_of p < limit_of p \<Longrightarrow> n_range s = p \<Longrightarrow> n_queue s = [] \<Longrightarrow>
    nonce_step s (s\<lparr>n_pc := (n_pc s)(t := Nothing)\<rparr>)"
| advance: "n_pc s t = Inner p \<Longrightarrow> \<not> current_of p < limit_of p \<Longrightarrow> n_range s = p \<Longrightarrow> n_queue s = (b, l) # queue \<Longrightarrow>
    nonce_step s (s\<lparr>n_queue := queue, n_range := pack_range b l, n_pc := (n_pc s)(t := Outer)\<rparr>)"
| return: "n_pc s t = Got n \<or> n_pc s t = Nothing \<Longrightarrow> nonce_step s (s\<lparr>n_pc := (n_pc s)(t := Outside)\<rparr>)"
| queue: "b < l \<Longrightarrow> n_ranged s \<Longrightarrow>
    nonce_step s (s\<lparr>n_queue := n_queue s @ [(b, l)], n_total := n_total s @ nonces (b, l)\<rparr>)"
| pause: "nonce_step s (s\<lparr>n_paused := paused\<rparr>)"
| send: "nonce_step s (s\<lparr>n_range := p, n_queue := [], n_ranged := ranged, n_log := [],
      n_total := nonces (current_of p, limit_of p)\<rparr>)"

definition fresh_nonces :: "nonce_state \<Rightarrow> bool" where
  "fresh_nonces s \<longleftrightarrow> n_queue s = [] \<and> n_log s = [] \<and> n_total s = nonces (current_of (n_range s), limit_of (n_range s)) \<and>
     (\<forall>t. n_pc s t = Outside)"

section \<open>The threads implement the specification\<close>

definition pool :: "nonce_state \<Rightarrow> nat list \<times> nat list" where
  "pool s = (n_log s, remaining (n_range s) (n_queue s))"

text \<open>Nothing is lost and nothing is repeated: what was handed out and what remains is what was
  provided.\<close>

definition nonce_inv :: "nonce_state \<Rightarrow> bool" where
  "nonce_inv s \<longleftrightarrow> queue_ok (n_queue s) \<and> n_log s @ remaining (n_range s) (n_queue s) = n_total s"

lemma remaining_snoc: "remaining p (queue @ [r]) = remaining p queue @ nonces r"
  by (simp add: remaining_def)

lemma step_sim:
  "nonce_step s s' \<Longrightarrow> pool s' = pool s \<or> pool_step (pool s) (pool s')"
proof (induction rule: nonce_step.induct)
  case (exchange s t p)
  then show ?case using pool_step.take by (simp add: pool_def remaining_Cons)
next
  case (advance s t p b l queue)
  then show ?case by (simp add: pool_def remaining_advance)
next
  case (queue b l s)
  show ?case using pool_step.add by (simp add: pool_def remaining_snoc)
next
  case (send s p ranged)
  show ?case using pool_step.reset by (simp add: pool_def)
qed (simp_all add: pool_def)

lemma step_inv: "nonce_step s s' \<Longrightarrow> nonce_inv s \<Longrightarrow> nonce_inv s'"
proof (induction rule: nonce_step.induct)
  case (exchange s t p)
  then show ?case by (simp add: nonce_inv_def remaining_Cons)
next
  case (advance s t p b l queue)
  then show ?case by (simp add: nonce_inv_def remaining_advance queue_ok_def)
next
  case (queue b l s)
  then show ?case by (auto simp: nonce_inv_def remaining_snoc queue_ok_def)
next
  case (send s p ranged)
  show ?case by (simp add: nonce_inv_def remaining_def queue_ok_def)
qed (simp_all add: nonce_inv_def)

interpretation nonce_threads: simulation nonce_step pool_step pool nonce_inv
  by unfold_locales (simp_all add: step_inv step_sim)

lemma fresh_inv: "fresh_nonces s \<Longrightarrow> nonce_inv s"
  by (simp add: fresh_nonces_def nonce_inv_def remaining_def queue_ok_def)

text \<open>C2: the lock-free hand-out of nonces is linearisable: for any number of threads and any
  interleaving of their loads, exchanges (which may also fail spuriously) and range changes with
  queued ranges, pauses and new jobs, what the threads obtain is a run of an atomic queue, in
  which every nonce handed out is the first that remains.\<close>

theorem nonces_refine_queue:
  assumes "fresh_nonces s" "nonce_step\<^sup>*\<^sup>* s s'"
  shows "pool_step\<^sup>*\<^sup>* (pool s) (pool s')"
  by (rule nonce_threads.sim_reach [OF assms(2) fresh_inv [OF assms(1)]])



section \<open>A run of two threads\<close>

definition pcs :: "pc \<Rightarrow> pc \<Rightarrow> nat \<Rightarrow> pc" where
  "pcs a b t = (if t = 0 then a else if t = 1 then b else Outside)"

lemma pcs_simps:
  "pcs a b 0 = a" "pcs a b (Suc 0) = b" "(pcs a b)(0 := x) = pcs x b" "(pcs a b)(Suc 0 := y) = pcs a y"
  by (auto simp: pcs_def)

definition two_nonces :: nonce_state where
  "two_nonces = \<lparr>n_range = pack_range 5 7, n_queue = [], n_ranged = True, n_paused = False, n_pc = pcs Outside Outside,
     n_log = [], n_total = [5, 6]\<rparr>"

lemma two_nonces_fresh: "fresh_nonces two_nonces"
  by (simp add: fresh_nonces_def two_nonces_def nonces_def pcs_def upt_rec)

text \<open>Both threads load the same range; the second one wins, the first tries again.\<close>

lemma two_threads:
  "nonce_step\<^sup>*\<^sup>* two_nonces (two_nonces\<lparr>n_range := pack_range 7 7,
     n_pc := pcs (Got 6) (Got 5), n_log := [5, 6]\<rparr>)"
proof -
  let ?s = "\<lambda>r a b log. two_nonces\<lparr>n_range := r, n_pc := pcs a b, n_log := log\<rparr>"
  have s0: "nonce_step two_nonces (?s (pack_range 5 7) Outer Outside [])"
    using nonce_step.enter [of two_nonces 0] by (simp add: two_nonces_def pcs_simps)
  have s1: "nonce_step (?s (pack_range 5 7) Outer Outside []) (?s (pack_range 5 7) Outer Outer [])"
    using nonce_step.enter [of "?s (pack_range 5 7) Outer Outside []" 1] by (simp add: two_nonces_def pcs_simps)
  have s2: "nonce_step (?s (pack_range 5 7) Outer Outer []) (?s (pack_range 5 7) (Inner (pack_range 5 7)) Outer [])"
    using nonce_step.load [of "?s (pack_range 5 7) Outer Outer []" 0] by (simp add: two_nonces_def pcs_simps)
  have s3: "nonce_step (?s (pack_range 5 7) (Inner (pack_range 5 7)) Outer []) (?s (pack_range 5 7) (Inner (pack_range 5 7)) (Inner (pack_range 5 7)) [])"
    using nonce_step.load [of "?s (pack_range 5 7) (Inner (pack_range 5 7)) Outer []" 1] by (simp add: two_nonces_def pcs_simps)
  have s4: "nonce_step (?s (pack_range 5 7) (Inner (pack_range 5 7)) (Inner (pack_range 5 7)) []) (?s (pack_range 6 7) (Inner (pack_range 5 7)) (Got 5) [5])"
    using nonce_step.exchange [of "?s (pack_range 5 7) (Inner (pack_range 5 7)) (Inner (pack_range 5 7)) []" 1 "pack_range 5 7"] by (simp add: two_nonces_def pcs_simps)
  have s5: "nonce_step (?s (pack_range 6 7) (Inner (pack_range 5 7)) (Got 5) [5]) (?s (pack_range 6 7) (Inner (pack_range 6 7)) (Got 5) [5])"
    using nonce_step.exchange_fails [of "?s (pack_range 6 7) (Inner (pack_range 5 7)) (Got 5) [5]" 0 "pack_range 5 7"] by (simp add: two_nonces_def pcs_simps)
  have s6: "nonce_step (?s (pack_range 6 7) (Inner (pack_range 6 7)) (Got 5) [5]) (?s (pack_range 7 7) (Got 6) (Got 5) [5, 6])"
    using nonce_step.exchange [of "?s (pack_range 6 7) (Inner (pack_range 6 7)) (Got 5) [5]" 0 "pack_range 6 7"] by (simp add: two_nonces_def pcs_simps)
  note push = rtranclp.rtrancl_into_rtrancl [where r = nonce_step]
  show ?thesis
    by (rule push [OF push [OF push [OF push [OF push [OF push [OF push
      [OF rtranclp.rtrancl_refl [where r = nonce_step] s0] s1] s2] s3] s4] s5] s6])
qed

theorem nonces_refine_queue_witness:
  "pool_step\<^sup>*\<^sup>* ([], [5, 6]) ([5, 6], [])"
proof -
  have "pool two_nonces = ([], [5, 6])"
    by (simp add: pool_def two_nonces_def remaining_def nonces_def upt_rec)
  moreover have "pool (two_nonces\<lparr>n_range := pack_range 7 7, n_pc := pcs (Got 6) (Got 5),
      n_log := [5, 6]\<rparr>) = ([5, 6], [])"
    by (simp add: pool_def two_nonces_def remaining_def)
  ultimately show ?thesis using nonces_refine_queue [OF two_nonces_fresh two_threads] by simp
qed



end
