(* ===== verification/Rx_Steps.thy ===== *)
theory Rx_Steps
  imports Rx_Facts Nonces
begin

text \<open>
  The life of an \<open>Rx\<close> object among its threads, as a step relation: the main thread queues
  allocations and settles their promises, workers of the thread pool run \<^verbatim>\<open>Execute\<close>, mining
  threads create and drop machines. The mutex \<^verbatim>\<open>lifecycle\<close> is held by a worker from the first
  look at the number of machines to the end of \<^verbatim>\<open>Execute\<close>, and by a mining thread from the
  check in \<^verbatim>\<open>create_vm\<close> to the construction of the machine; the main thread and the destructor
  of a machine take no lock. A machine therefore never outlives the cache and the dataset that
  it reads.
\<close>

datatype owner = Worker nat | Miner nat

datatype phase =
    Absent
  | Queued "u8 list"
  | Draining "u8 list" nat
  | Replacing "u8 list"
  | Finished "alloc_error + bool"

datatype miner = No_vm | Checked u32 | Holds vm_object

record sys =
  s_rx :: rx
  s_lock :: "owner option"
  s_workers :: "nat \<Rightarrow> phase"
  s_threads :: "nat \<Rightarrow> miner"

text \<open>The promise of a worker is settled by \<open>OnError\<close> if \<^verbatim>\<open>Execute\<close> has set an error.\<close>

definition settle :: "alloc_error + bool \<Rightarrow> rx \<Rightarrow> rx" where
  "settle r rx = (case r of Inl err \<Rightarrow> snd (OnError err rx) | Inr result \<Rightarrow> snd (OnOK result rx))"

inductive rx_step :: "platform \<Rightarrow> external \<Rightarrow> sys \<Rightarrow> sys \<Rightarrow> bool" for P :: platform and X :: external where
  queue: "s_workers s i = Absent \<Longrightarrow> queue_allocate args variant (s_rx s) = (Inr seed, rx') \<Longrightarrow>
    rx_step P X s (s\<lparr>s_rx := rx', s_workers := (s_workers s)(i := Queued seed)\<rparr>)"
| reject: "queue_allocate args variant (s_rx s) = (Inl e, rx') \<Longrightarrow> rx_step P X s (s\<lparr>s_rx := rx'\<rparr>)"
| lock: "s_workers s i = Queued seed \<Longrightarrow> s_lock s = None \<Longrightarrow>
    rx_step P X s (s\<lparr>s_lock := Some (Worker i), s_workers := (s_workers s)(i := Draining seed 0)\<rparr>)"
| spin: "s_workers s i = Draining seed spins \<Longrightarrow> rx_active (s_rx s) > 0 \<Longrightarrow> spins < kDrainSpins \<Longrightarrow>
    rx_step P X s (s\<lparr>s_workers := (s_workers s)(i := Draining seed (spins + 1))\<rparr>)"
| timeout: "s_workers s i = Draining seed spins \<Longrightarrow> rx_active (s_rx s) > 0 \<Longrightarrow> spins \<ge> kDrainSpins \<Longrightarrow>
    rx_step P X s (s\<lparr>s_lock := None, s_workers := (s_workers s)(i := Finished (Inl Drain_timeout))\<rparr>)"
| drained: "s_workers s i = Draining seed spins \<Longrightarrow> \<not> rx_active (s_rx s) > 0 \<Longrightarrow>
    rx_step P X s (s\<lparr>s_workers := (s_workers s)(i := Replacing seed)\<rparr>)"
| replace: "s_workers s i = Replacing seed \<Longrightarrow> junk_ok ch \<Longrightarrow> fair X ch (build_nodes P) \<Longrightarrow>
    replace P X ch seed (s_rx s) = Some (r, rx') \<Longrightarrow>
    rx_step P X s (s\<lparr>s_rx := rx', s_lock := None, s_workers := (s_workers s)(i := Finished r)\<rparr>)"
| settled: "s_workers s i = Finished r \<Longrightarrow>
    rx_step P X s (s\<lparr>s_rx := settle r (s_rx s), s_workers := (s_workers s)(i := Absent)\<rparr>)"
| check: "s_threads s t = No_vm \<Longrightarrow> s_lock s = None \<Longrightarrow> may_create (s_rx s) \<Longrightarrow>
    rx_step P X s (s\<lparr>s_lock := Some (Miner t), s_threads := (s_threads s)(t := Checked node)\<rparr>)"
| create: "s_threads s t = Checked node \<Longrightarrow> make_vm P oc pad_ok pad node (s_rx s) = Some (r, rx') \<Longrightarrow>
    rx_step P X s (s\<lparr>s_rx := rx', s_lock := None,
      s_threads := (s_threads s)(t := case r of None \<Rightarrow> No_vm | Some vm \<Rightarrow> Holds vm)\<rparr>)"
| drop: "s_threads s t = Holds vm \<Longrightarrow>
    rx_step P X s (s\<lparr>s_rx := drop_vm (s_rx s), s_threads := (s_threads s)(t := No_vm)\<rparr>)"

definition new_sys :: "rx \<Rightarrow> sys" where
  "new_sys rx = \<lparr>s_rx = rx, s_lock = None, s_workers = (\<lambda>_. Absent), s_threads = (\<lambda>_. No_vm)\<rparr>"

inductive rx_reachable :: "platform \<Rightarrow> external \<Rightarrow> heap \<Rightarrow> sys \<Rightarrow> bool" for P :: platform and X :: external and h0 :: heap where
  new: "new_rx args h0 = Inr rx \<Longrightarrow> rx_reachable P X h0 (new_sys rx)"
| step: "rx_reachable P X h0 s \<Longrightarrow> rx_step P X s s' \<Longrightarrow> rx_reachable P X h0 s'"

section \<open>The invariant\<close>

definition holders :: "(nat \<Rightarrow> miner) \<Rightarrow> nat set" where
  "holders f = {t. \<exists>vm. f t = Holds vm}"

definition jobs_of :: "(nat \<Rightarrow> phase) \<Rightarrow> nat set" where
  "jobs_of f = {i. f i \<noteq> Absent}"

text \<open>Who holds the lock.\<close>

fun busy :: "phase \<Rightarrow> bool" where
  "busy (Draining _ _) = True"
| "busy (Replacing _) = True"
| "busy _ = False"

fun looking :: "miner \<Rightarrow> bool" where
  "looking (Checked _) = True"
| "looking _ = False"

fun owns :: "sys \<Rightarrow> owner \<Rightarrow> bool" where
  "owns s (Worker i) = busy (s_workers s i)"
| "owns s (Miner t) = looking (s_threads s t)"

definition lock_ok :: "sys \<Rightarrow> bool" where
  "lock_ok s \<longleftrightarrow> (\<forall>ow. owns s ow \<longleftrightarrow> s_lock s = Some ow)"

text \<open>The counters, the ledger, and the lock-protected wait: a worker replaces the cache only while
  no machine is alive.\<close>

definition counts_ok :: "heap \<Rightarrow> sys \<Rightarrow> bool" where
  "counts_ok h0 s \<longleftrightarrow> finite (holders (s_threads s)) \<and> finite (jobs_of (s_workers s)) \<and>
     rx_active (s_rx s) = int (card (holders (s_threads s))) \<and> rx_scratch (s_rx s) = card (holders (s_threads s)) \<and>
     rx_pending (s_rx s) = int (card (jobs_of (s_workers s))) \<and> (rx_updating (s_rx s) \<longleftrightarrow> jobs_of (s_workers s) \<noteq> {}) \<and>
     ledger h0 (card (holders (s_threads s))) (s_rx s) \<and>
     (\<forall>i seed. s_workers s i = Replacing seed \<longrightarrow> holders (s_threads s) = {})"

text \<open>A machine reads what is installed.\<close>

definition vm_current :: "rx \<Rightarrow> vm_object \<Rightarrow> bool" where
  "vm_current rx vm \<longleftrightarrow> (\<exists>c. rx_cache rx = Some c \<and> vo_cacheKey vm = ca_cacheKey c \<and>
     (vo_ptr vm = CachePtr c \<or> (\<exists>k d. vo_ptr vm = DatasetPtr d \<and> map_of (rx_datasets rx) k = Some (Some d))))"

definition vms_ok :: "platform \<Rightarrow> external \<Rightarrow> sys \<Rightarrow> bool" where
  "vms_ok P X s \<longleftrightarrow> consistent P X (s_rx s) \<and> (\<forall>t vm. s_threads s t = Holds vm \<longrightarrow> vm_current (s_rx s) vm) \<and>
     (\<forall>t node. s_threads s t = Checked node \<longrightarrow> rx_cache (s_rx s) \<noteq> None)"

definition sys_ok :: "platform \<Rightarrow> external \<Rightarrow> heap \<Rightarrow> sys \<Rightarrow> bool" where
  "sys_ok P X h0 s \<longleftrightarrow> lock_ok s \<and> counts_ok h0 s \<and> vms_ok P X s"

lemma holders_upd [simp]:
  "holders (f(t := m)) = (case m of Holds _ \<Rightarrow> insert t (holders f) | _ \<Rightarrow> holders f - {t})"
  by (auto simp: holders_def split: miner.splits if_splits)

lemma jobs_upd [simp]:
  "jobs_of (f(i := p)) = (if p = Absent then jobs_of f - {i} else insert i (jobs_of f))"
  by (auto simp: jobs_of_def)

lemma in_holders: "t \<in> holders f \<longleftrightarrow> (\<exists>vm. f t = Holds vm)" "i \<in> jobs_of g \<longleftrightarrow> g i \<noteq> Absent"
  by (simp_all add: holders_def jobs_of_def)

lemma owner_unique: "lock_ok s \<Longrightarrow> owns s ow \<Longrightarrow> owns s ow' \<Longrightarrow> ow = ow'"
  by (simp add: lock_ok_def)

lemma all_owners: "(\<forall>ow. Q ow) \<longleftrightarrow> (\<forall>i. Q (Worker i)) \<and> (\<forall>t. Q (Miner t))"
  by (metis owner.exhaust)

lemma lock_cases:
  "lock_ok s \<longleftrightarrow> (\<forall>i. busy (s_workers s i) \<longleftrightarrow> s_lock s = Some (Worker i)) \<and>
     (\<forall>t. looking (s_threads s t) \<longleftrightarrow> s_lock s = Some (Miner t))"
  by (simp add: lock_ok_def all_owners)

lemma lock_step:
  assumes "rx_step P X s s'" "lock_ok s"
  shows "lock_ok s'"
proof -
  have w: "s_lock s = Some (Worker i)" if "busy (s_workers s i)" for i using assms(2) that by (simp add: lock_cases)
  have m: "s_lock s = Some (Miner t)" if "looking (s_threads s t)" for t using assms(2) that by (simp add: lock_cases)
  have ow: "\<And>i. s_lock s = Some (Worker i) \<Longrightarrow> busy (s_workers s i)" "\<And>t. s_lock s = Some (Miner t) \<Longrightarrow> looking (s_threads s t)"
    using assms(2) by (simp_all add: lock_cases)
  show ?thesis
    using assms
  proof (cases rule: rx_step.cases)
    case (timeout i seed spins)
    then show ?thesis using w [of i] assms(2) by (auto simp: lock_cases)
  next
    case (replace i seed ch r rx')
    then show ?thesis using w [of i] assms(2) by (auto simp: lock_cases)
  next
    case (create t node oc pad_ok pad r rx')
    then show ?thesis using m [of t] assms(2) by (auto simp: lock_cases split: option.splits)
  next
    case (drained i seed spins)
    then show ?thesis using w [of i] assms(2) by (auto simp: lock_cases)
  next
    case (spin i seed spins)
    then show ?thesis using w [of i] assms(2) by (auto simp: lock_cases)
  qed (auto simp: lock_cases dest: ow)
qed

text \<open>What the operations of the main thread leave alone.\<close>

lemma queue_frame:
  assumes "queue_allocate args variant rx = (r, rx')"
  shows "rx_heap rx' = rx_heap rx" "rx_cache rx' = rx_cache rx" "rx_datasets rx' = rx_datasets rx" "rx_mode rx' = rx_mode rx"
    "rx_active rx' = rx_active rx" "rx_scratch rx' = rx_scratch rx"
    "case r of Inl _ \<Rightarrow> rx' = rx | Inr _ \<Rightarrow> rx_pending rx' = rx_pending rx + 1 \<and> rx_updating rx'"
  using assms
  by (auto simp: queue_allocate_def apply_variant_def Let_def split: list.splits js.splits if_splits option.splits)

lemma settle_eq: "settle r rx = Clear rx"
  by (cases r) (simp_all add: settle_def OnError_def OnOK_def)

lemma clear_frame [simp]:
  "rx_heap (Clear rx) = rx_heap rx" "rx_cache (Clear rx) = rx_cache rx" "rx_datasets (Clear rx) = rx_datasets rx"
  "rx_mode (Clear rx) = rx_mode rx" "rx_active (Clear rx) = rx_active rx" "rx_scratch (Clear rx) = rx_scratch rx"
  "rx_pending (Clear rx) = rx_pending rx - 1" "rx_updating (Clear rx) \<longleftrightarrow> rx_updating rx \<and> rx_pending rx \<noteq> 1"
  by (auto simp: Clear_def Let_def)

lemma data_cong:
  assumes "rx_cache rx' = rx_cache rx" "rx_datasets rx' = rx_datasets rx" "rx_mode rx' = rx_mode rx"
  shows "consistent P X rx' = consistent P X rx" "vm_current rx' = vm_current rx"
  using assms by (simp_all add: consistent_def vm_current_def served_def keys_def fun_eq_iff cong: option.case_cong)

lemma ledger_cong:
  assumes "rx_heap rx' = rx_heap rx" "rx_cache rx' = rx_cache rx" "rx_datasets rx' = rx_datasets rx"
  shows "ledger h0 v rx' = ledger h0 v rx"
  using assms by (simp add: ledger_def)

lemma make_vm_none:
  assumes "make_vm P oc pad_ok pad node rx = Some (None, rx')"
  shows "rx' = rx"
  using assms
  by (auto simp: make_vm_def randomx_create_vm_def Let_def split: if_splits option.splits vm_ptr.splits)

lemma replacing_alone:
  assumes "lock_ok s" "s_workers s i = Replacing seed"
  shows "\<not> looking (s_threads s t)"
  using owner_unique [OF assms(1), of "Worker i" "Miner t"] assms(2) by auto

text \<open>A step keeps the counters.\<close>

lemma counts_queue:
  assumes "counts_ok h0 s" "s_workers s i = Absent" "queue_allocate args variant (s_rx s) = (Inr seed, rx')"
  shows "counts_ok h0 (s\<lparr>s_rx := rx', s_workers := (s_workers s)(i := Queued seed)\<rparr>)"
proof -
  have "i \<notin> jobs_of (s_workers s)" using assms(2) by (simp add: in_holders)
  then show ?thesis
    using assms(1) queue_frame [OF assms(3)] ledger_cong [of rx' "s_rx s"] by (auto simp: counts_ok_def)
qed

lemma counts_settle:
  assumes "counts_ok h0 s" "s_workers s i = Finished r"
  shows "counts_ok h0 (s\<lparr>s_rx := Clear (s_rx s), s_workers := (s_workers s)(i := Absent)\<rparr>)"
proof -
  have i: "i \<in> jobs_of (s_workers s)" using assms(2) by (simp add: in_holders)
  have fin: "finite (jobs_of (s_workers s))" using assms(1) by (simp add: counts_ok_def)
  let ?J = "jobs_of (s_workers s) - {i}"
  have card: "card (jobs_of (s_workers s)) = Suc (card ?J)" by (rule card.remove [OF fin i])
  have fin': "finite ?J" using fin by simp
  have "rx_updating (s_rx s)" using assms(1) i by (auto simp: counts_ok_def)
  then have "rx_updating (Clear (s_rx s)) \<longleftrightarrow> card ?J \<noteq> 0" using assms(1) card by (simp add: counts_ok_def)
  then have upd: "rx_updating (Clear (s_rx s)) \<longleftrightarrow> ?J \<noteq> {}" using fin' by (simp only: card_eq_0_iff simp_thms)
  have pend: "rx_pending (Clear (s_rx s)) = int (card ?J)" using assms(1) card by (simp add: counts_ok_def)
  have led: "ledger h0 (card (holders (s_threads s))) (Clear (s_rx s))"
    using assms(1) ledger_cong [of "Clear (s_rx s)" "s_rx s"] by (simp add: counts_ok_def)
  have none: "\<forall>j seed. ((s_workers s)(i := Absent)) j = Replacing seed \<longrightarrow> holders (s_threads s) = {}"
    using assms(1) by (auto simp: counts_ok_def)
  let ?s = "s\<lparr>s_rx := Clear (s_rx s), s_workers := (s_workers s)(i := Absent)\<rparr>"
  have sel: "s_rx ?s = Clear (s_rx s)" "s_workers ?s = (s_workers s)(i := Absent)" "s_threads ?s = s_threads s"
    "jobs_of ((s_workers s)(i := Absent)) = ?J" by simp_all
  show ?thesis
    unfolding counts_ok_def sel clear_frame(5,6)
    using assms(1) fin' upd pend led none unfolding counts_ok_def by blast
qed

lemma counts_create:
  assumes "counts_ok h0 s" "s_threads s t = Checked node" "\<And>i seed. s_workers s i \<noteq> Replacing seed"
    "make_vm P oc pad_ok pad node (s_rx s) = Some (Some vm, rx')" "rx_cache (s_rx s) = Some c"
  shows "counts_ok h0 (s\<lparr>s_rx := rx', s_lock := None, s_threads := (s_threads s)(t := Holds vm)\<rparr>)"
proof -
  have t: "t \<notin> holders (s_threads s)" using assms(2) by (simp add: in_holders)
  have "rx' = s_rx s\<lparr>rx_heap := (rx_heap (s_rx s))\<lparr>h_vms := h_vms (rx_heap (s_rx s)) + 1\<rparr>,
      rx_scratch := rx_scratch (s_rx s) + 1, rx_active := rx_active (s_rx s) + 1\<rparr>"
    by (rule make_vm_pointers(4) [OF assms(4,5)])
  then show ?thesis using assms(1,3) t by (simp add: counts_ok_def ledger_def)
qed

lemma counts_drop:
  assumes "counts_ok h0 s" "s_threads s t = Holds vm"
  shows "counts_ok h0 (s\<lparr>s_rx := drop_vm (s_rx s), s_threads := (s_threads s)(t := No_vm)\<rparr>)"
proof -
  have t: "t \<in> holders (s_threads s)" using assms(2) by (simp add: in_holders)
  have fin: "finite (holders (s_threads s))" using assms(1) by (simp add: counts_ok_def)
  have "card (holders (s_threads s)) = Suc (card (holders (s_threads s) - {t}))" by (rule card.remove [OF fin t])
  then show ?thesis using assms(1) by (simp add: counts_ok_def ledger_def drop_vm_def randomx_destroy_vm_def)
qed

lemma counts_replace:
  assumes "counts_ok h0 s" "s_workers s i = Replacing seed" "consistent P X (s_rx s)" "junk_ok ch" "seeds_end X"
    "fair X ch (build_nodes P)" "replace P X ch seed (s_rx s) = Some (r, rx')"
  shows "counts_ok h0 (s\<lparr>s_rx := rx', s_lock := None, s_workers := (s_workers s)(i := Finished r)\<rparr>)" "consistent P X rx'"
    "rx_mode rx' = rx_mode (s_rx s)"
proof -
  have led: "ledger h0 (card (holders (s_threads s))) (s_rx s)" using assms(1) by (simp add: counts_ok_def)
  obtain r2 rx2 where "replace P X ch seed (s_rx s) = Some (r2, rx2)" and led2: "ledger h0 (card (holders (s_threads s))) rx2"
    and cons: "consistent P X rx2"
    and frame: "rx2 = s_rx s\<lparr>rx_heap := rx_heap rx2, rx_datasets := rx_datasets rx2, rx_cache := rx_cache rx2\<rparr>"
    using replace_ok [OF led assms(3-6)] by blast
  then have same: "rx2 = rx'" using assms(7) by simp
  show "consistent P X rx'" using cons same by simp
  have fields: "rx_active rx' = rx_active (s_rx s)" "rx_scratch rx' = rx_scratch (s_rx s)"
    "rx_pending rx' = rx_pending (s_rx s)" "rx_updating rx' = rx_updating (s_rx s)" "rx_mode rx' = rx_mode (s_rx s)"
    using arg_cong [OF frame, of rx_active] arg_cong [OF frame, of rx_scratch] arg_cong [OF frame, of rx_pending]
      arg_cong [OF frame, of rx_updating] arg_cong [OF frame, of rx_mode] same by simp_all
  show "rx_mode rx' = rx_mode (s_rx s)" by (rule fields)
  have "insert i (jobs_of (s_workers s)) = jobs_of (s_workers s)" using assms(2) by (simp add: in_holders insert_absorb)
  then show "counts_ok h0 (s\<lparr>s_rx := rx', s_lock := None, s_workers := (s_workers s)(i := Finished r)\<rparr>)"
    using assms(1) fields led2 same by (auto simp: counts_ok_def)
qed

lemma counts_drained:
  assumes "counts_ok h0 s" "s_workers s i = Draining seed k" "\<not> rx_active (s_rx s) > 0"
  shows "counts_ok h0 (s\<lparr>s_workers := (s_workers s)(i := Replacing seed)\<rparr>)"
proof -
  have "insert i (jobs_of (s_workers s)) = jobs_of (s_workers s)" using assms(2) by (simp add: in_holders insert_absorb)
  then show ?thesis using assms(1,3) by (simp add: counts_ok_def)
qed

text \<open>A worker that only changes between phases in which it does not replace the cache.\<close>

lemma counts_phase:
  assumes "counts_ok h0 s" "s_workers s i \<noteq> Absent" "p \<noteq> Absent" "\<And>seed. p \<noteq> Replacing seed"
  shows "counts_ok h0 (s\<lparr>s_lock := l, s_workers := (s_workers s)(i := p)\<rparr>)"
proof -
  have "insert i (jobs_of (s_workers s)) = jobs_of (s_workers s)" using assms(2) by (simp add: in_holders insert_absorb)
  then show ?thesis using assms(1,3,4) by (auto simp: counts_ok_def)
qed

lemma counts_thread:
  assumes "counts_ok h0 s" "\<And>vm. s_threads s t \<noteq> Holds vm" "\<And>vm. m \<noteq> Holds vm"
  shows "counts_ok h0 (s\<lparr>s_lock := l, s_threads := (s_threads s)(t := m)\<rparr>)"
proof -
  have "holders (s_threads s) - {t} = holders (s_threads s)" using assms(2) by (simp add: in_holders)
  then show ?thesis using assms(1) assms(3) by (cases m) (auto simp: counts_ok_def)
qed

lemma counts_step:
  assumes "rx_step P X s s'" "sys_ok P X h0 s" "seeds_end X"
  shows "counts_ok h0 s'"
proof -
  have c: "counts_ok h0 s" and l: "lock_ok s" and v: "vms_ok P X s" using assms(2) by (simp_all add: sys_ok_def)
  note phase = counts_phase [OF c] and thread = counts_thread [OF c]
  show ?thesis
    using assms(1)
  proof (cases rule: rx_step.cases)
    case (queue i args variant seed rx')
    then show ?thesis using counts_queue [OF c] by simp
  next
    case (reject args variant e rx')
    then show ?thesis using c queue_frame(7) [OF reject(2)] by simp
  next
    case (lock i seed)
    then show ?thesis using phase [of i "Draining seed 0" "Some (Worker i)"] by simp
  next
    case (spin i seed k)
    then show ?thesis using phase [of i "Draining seed (k + 1)" "s_lock s"] by simp
  next
    case (timeout i seed k)
    then show ?thesis using phase [of i "Finished (Inl Drain_timeout)" None] by simp
  next
    case (drained i seed k)
    then show ?thesis using counts_drained [OF c] by simp
  next
    case (replace i seed ch r rx')
    then show ?thesis using counts_replace(1) [OF c replace(2) _ replace(3) assms(3) replace(4,5)] v by (simp add: vms_ok_def)
  next
    case (settled i r)
    then show ?thesis using counts_settle [OF c] by (simp add: settle_eq)
  next
    case (check t node)
    then show ?thesis using thread [of t "Checked node" "Some (Miner t)"] by simp
  next
    case (create t node oc pad_ok pad r rx')
    have alone: "\<And>i seed. s_workers s i \<noteq> Replacing seed"
      using replacing_alone [OF l, of _ _ t] create(2) by force
    obtain cc where cc: "rx_cache (s_rx s) = Some cc" using v create(2) by (auto simp: vms_ok_def)
    show ?thesis
    proof (cases r)
      case None
      then show ?thesis using create make_vm_none [of P oc pad_ok pad node "s_rx s" rx'] thread [of t No_vm None] by simp
    next
      case (Some vm)
      then show ?thesis using create counts_create [OF c create(2) alone _ cc] by simp
    qed
  next
    case (drop t vm)
    then show ?thesis using counts_drop [OF c] by simp
  qed
qed

text \<open>A step keeps what the machines read.\<close>

lemma vms_same:
  assumes "vms_ok P X s" "rx_cache rx' = rx_cache (s_rx s)" "rx_datasets rx' = rx_datasets (s_rx s)" "rx_mode rx' = rx_mode (s_rx s)"
    "\<And>t vm. f t = Holds vm \<Longrightarrow> vm_current rx' vm" "\<And>t node. f t = Checked node \<Longrightarrow> rx_cache rx' \<noteq> None"
  shows "vms_ok P X (s\<lparr>s_rx := rx', s_lock := l, s_workers := w, s_threads := f\<rparr>)"
  using assms data_cong [OF assms(2-4)] by (simp add: vms_ok_def)

lemma vms_step:
  assumes "rx_step P X s s'" "sys_ok P X h0 s" "seeds_end X"
  shows "vms_ok P X s'"
proof -
  have c: "counts_ok h0 s" and l: "lock_ok s" and v: "vms_ok P X s" using assms(2) by (simp_all add: sys_ok_def)
  have held: "\<And>t vm. s_threads s t = Holds vm \<Longrightarrow> vm_current (s_rx s) vm"
    and checked: "\<And>t node. s_threads s t = Checked node \<Longrightarrow> rx_cache (s_rx s) \<noteq> None"
    and cons: "consistent P X (s_rx s)" using v unfolding vms_ok_def by blast+
  show ?thesis
    using assms(1)
  proof (cases rule: rx_step.cases)
    case (queue i args variant seed rx')
    then show ?thesis using v queue_frame [OF queue(3)] data_cong [of rx' "s_rx s"] by (simp add: vms_ok_def)
  next
    case (reject args variant e rx')
    then show ?thesis using v queue_frame(7) [OF reject(2)] by simp
  next
    case (replace i seed ch r rx')
    note rep = counts_replace [OF c replace(2) cons replace(3) assms(3) replace(4,5)]
    have "holders (s_threads s) = {}" using c replace(2) unfolding counts_ok_def by blast
    then have "\<And>t vm. s_threads s t \<noteq> Holds vm" by (auto simp: holders_def)
    moreover have "\<And>t node. s_threads s t \<noteq> Checked node" using replacing_alone [OF l replace(2)] by (metis looking.simps(1))
    ultimately show ?thesis using replace(1) rep(2) by (simp add: vms_ok_def)
  next
    case (settled i r)
    then show ?thesis using v data_cong [of "Clear (s_rx s)" "s_rx s"] by (simp add: vms_ok_def settle_eq)
  next
    case (check t node)
    then show ?thesis using v by (simp add: vms_ok_def may_create_def)
  next
    case (create t node oc pad_ok pad r rx')
    obtain cc where cc: "rx_cache (s_rx s) = Some cc" using checked [OF create(2)] by blast
    show ?thesis
    proof (cases r)
      case None
      then show ?thesis using v create make_vm_none [of P oc pad_ok pad node "s_rx s" rx'] by (auto simp: vms_ok_def)
    next
      case (Some vm)
      note made = make_vm_pointers [OF create(3) [unfolded Some] cc]
      have same: "rx_cache rx' = rx_cache (s_rx s)" "rx_datasets rx' = rx_datasets (s_rx s)" "rx_mode rx' = rx_mode (s_rx s)"
        using made(4) by simp_all
      have "vm_current (s_rx s) vm" using made(2,3) cc by (auto simp: vm_current_def)
      then show ?thesis
        using v create(1) Some data_cong [OF same] same(1) by (auto simp: vms_ok_def)
    qed
  next
    case (drop t vm)
    have "rx_cache (drop_vm (s_rx s)) = rx_cache (s_rx s)" "rx_datasets (drop_vm (s_rx s)) = rx_datasets (s_rx s)"
      "rx_mode (drop_vm (s_rx s)) = rx_mode (s_rx s)" by (simp_all add: drop_vm_def)
    then show ?thesis using v drop(1) data_cong [of "drop_vm (s_rx s)" "s_rx s"] by (auto simp: vms_ok_def)
  qed (use v in \<open>simp_all add: vms_ok_def\<close>)
qed

lemma new_ok:
  assumes "new_rx args h0 = Inr rx"
  shows "sys_ok P X h0 (new_sys rx)"
proof -
  have rx: "rx_heap rx = h0" "rx_cache rx = None" "rx_datasets rx = []" "rx_active rx = 0" "rx_scratch rx = 0" "rx_pending rx = 0"
    "\<not> rx_updating rx"
    using assms
    by (auto simp: new_rx_def apply_variant_def blank_rx_def split: list.splits js.splits option.splits)
  have none: "holders (\<lambda>_. No_vm) = {}" "jobs_of (\<lambda>_. Absent) = {}" by (simp_all add: holders_def jobs_of_def)
  have "owns (new_sys rx) ow \<longleftrightarrow> s_lock (new_sys rx) = Some ow" for ow by (cases ow) (simp_all add: new_sys_def)
  then show ?thesis
    using rx none by (simp add: sys_ok_def lock_ok_def counts_ok_def vms_ok_def consistent_def keys_def ledger_def new_sys_def)
qed

lemma reachable_sys_ok: "rx_reachable P X h0 s \<Longrightarrow> seeds_end X \<Longrightarrow> sys_ok P X h0 s"
proof (induction rule: rx_reachable.induct)
  case (new args rx)
  then show ?case by (simp add: new_ok)
next
  case (step s s')
  then show ?case using lock_step counts_step vms_step by (simp add: sys_ok_def)
qed

section \<open>Machines that threads hold\<close>

text \<open>C4: a machine never outlives what it reads. Whenever a mining thread holds a machine, no worker
  is replacing the cache, the machine reads the cache or a dataset that is installed, and the
  hashes it computes are those of the seed of the installed cache: of the dataset that the
  programs drawn from the seed define, in light and in fast mode and on every NUMA node.\<close>

theorem held_machines_valid:
  assumes "rx_reachable P X h0 s" "seeds_end X"
  shows "case s_threads s t of
      Holds vm \<Rightarrow> (\<nexists>i seed. s_workers s i = Replacing seed) \<and>
        (\<exists>c bufs ps g. rx_cache (s_rx s) = Some c \<and> vo_cacheKey vm = ca_cacheKey c \<and>
           fresh_programs (x_H X) bufs (Blake2Generator_init (ca_cacheKey c) 0) = Some (ps, g) \<and>
           (\<forall>junk local E v input.
              randomx_calculate_hash junk local (E\<lparr>e_datasetRead := vm_reads vm\<rparr>) v input =
              randomx_calculate_hash junk local (E\<lparr>e_datasetRead := seed_reads (x_argon X (ca_cacheKey c)) ps\<rparr>) v input))
    | _ \<Rightarrow> True"
proof (cases "s_threads s t")
  case (Holds vm)
  have ok: "counts_ok h0 s" "consistent P X (s_rx s)" "vm_current (s_rx s) vm"
    using reachable_sys_ok [OF assms] Holds by (auto simp: sys_ok_def vms_ok_def)
  have "t \<in> holders (s_threads s)" using Holds by (simp add: in_holders)
  then have "\<nexists>i seed. s_workers s i = Replacing seed" using ok(1) unfolding counts_ok_def by blast
  obtain c where c: "rx_cache (s_rx s) = Some c" "vo_cacheKey vm = ca_cacheKey c"
      "vo_ptr vm = CachePtr c \<or> (\<exists>k d. vo_ptr vm = DatasetPtr d \<and> map_of (rx_datasets (s_rx s)) k = Some (Some d))"
    using ok(3) by (auto simp: vm_current_def)
  have served: "seed_cache X (ca_cacheKey c) c" "served c UNIV (s_rx s)" using ok(2) c(1) by (simp_all add: consistent_def)
  obtain bufs ps g where ps: "fresh_programs (x_H X) bufs (Blake2Generator_init (ca_cacheKey c) 0) = Some (ps, g)"
      "initDatasetItem c = ref_item (x_argon X (ca_cacheKey c)) ps"
    using served(1) by (auto simp: seed_cache_def)
  have "randomx_calculate_hash junk local (E\<lparr>e_datasetRead := vm_reads vm\<rparr>) v input =
      randomx_calculate_hash junk local (E\<lparr>e_datasetRead := datasetRead_light c\<rparr>) v input" for junk local E v input
    using c(3)
  proof (elim disjE exE conjE)
    fix k d assume d: "vo_ptr vm = DatasetPtr d" "map_of (rx_datasets (s_rx s)) k = Some (Some d)"
    then have "full_dataset c d" using served(2) by (auto simp: served_def)
    then show ?thesis by (simp add: vm_reads_def d(1) light_fast)
  qed (simp add: vm_reads_def)
  then show ?thesis
    using Holds c ps(1) \<open>\<nexists>i seed. s_workers s i = Replacing seed\<close> light_reads [OF ps(2)] by auto
qed simp_all

text \<open>C32: what the object counts is what there is: pending allocations, machines, scratchpads, and the
  flag that makes mining threads let go of their machines is set exactly while an allocation is
  pending. When no thread holds a machine, the destructor returns every block of memory and
  every object.\<close>

theorem rx_accounts:
  assumes "rx_reachable P X h0 s" "seeds_end X"
  shows "rx_pending (s_rx s) = int (card {i. s_workers s i \<noteq> Absent}) \<and>
    rx_updating (s_rx s) = (\<exists>i. s_workers s i \<noteq> Absent) \<and>
    rx_active (s_rx s) = int (card (holders (s_threads s))) \<and> rx_scratch (s_rx s) = card (holders (s_threads s)) \<and>
    (holders (s_threads s) = {} \<longrightarrow> rx_heap (release (s_rx s)) = h0)"
proof -
  have c: "counts_ok h0 s" using reachable_sys_ok [OF assms] by (simp add: sys_ok_def)
  have "rx_heap (release (s_rx s)) = h0" if "holders (s_threads s) = {}"
    using c that release_ledger(1) by (auto simp: counts_ok_def)
  then show ?thesis using c by (auto simp: counts_ok_def jobs_of_def)
qed

section \<open>Progress\<close>

text \<open>The steps that remain for the workers, and for a thread that holds the lock.\<close>

fun weight :: "phase \<Rightarrow> nat" where
  "weight Absent = 0"
| "weight (Finished _) = 1"
| "weight (Replacing _) = 2"
| "weight (Draining _ k) = 3 + (kDrainSpins - k)"
| "weight (Queued _) = 4 + kDrainSpins"

definition work_of :: "(nat \<Rightarrow> phase) \<Rightarrow> nat" where
  "work_of f = (\<Sum>i\<in>jobs_of f. weight (f i))"

definition remaining_work :: "sys \<Rightarrow> nat" where
  "remaining_work s = 2 * work_of (s_workers s) + (case s_lock s of Some (Miner _) \<Rightarrow> 1 | _ \<Rightarrow> 0)"

lemma weight_upd:
  assumes "finite (jobs_of f)" "f i \<noteq> Absent" "weight p < weight (f i)"
  shows "work_of (f(i := p)) < work_of f"
proof -
  have i: "i \<in> jobs_of f" using assms(2) by (simp add: in_holders)
  have "(\<Sum>j\<in>jobs_of (f(i := p)). weight ((f(i := p)) j)) = weight p + (\<Sum>j\<in>jobs_of f - {i}. weight (f j))"
  proof (cases "p = Absent")
    case True
    then show ?thesis by (simp cong: sum.cong_simp)
  next
    case False
    then have "(\<Sum>j\<in>jobs_of (f(i := p)). weight ((f(i := p)) j)) = (\<Sum>j\<in>insert i (jobs_of f - {i}). weight ((f(i := p)) j))"
      by simp
    also have "\<dots> = weight p + (\<Sum>j\<in>jobs_of f - {i}. weight ((f(i := p)) j))"
      using assms(1) by (subst sum.insert) simp_all
    also have "(\<Sum>j\<in>jobs_of f - {i}. weight ((f(i := p)) j)) = (\<Sum>j\<in>jobs_of f - {i}. weight (f j))"
      by (rule sum.cong) auto
    finally show ?thesis .
  qed
  moreover have "(\<Sum>j\<in>jobs_of f. weight (f j)) = weight (f i) + (\<Sum>j\<in>jobs_of f - {i}. weight (f j))"
    by (rule sum.remove [OF assms(1) i])
  ultimately show ?thesis unfolding work_of_def using assms(3) by simp
qed

text \<open>A run of the worker in which nothing can be allocated.\<close>

definition no_memory :: "platform \<Rightarrow> chance" where
  "no_memory P = \<lparr>ch_active = (\<lambda>_. 0), ch_cache = \<lparr>o_new = False, o_jit = False, o_mem = False\<rparr>,
     ch_cache_junk = (\<lambda>_. 0, replicate RANDOMX_CACHE_ACCESSES (replicate SuperscalarMaxSize (Instruction.make 0 0 0 0 0))),
     ch_primary = (\<lambda>_. \<lparr>o_new = False, o_jit = False, o_mem = False\<rparr>),
     ch_fallback = (\<lambda>_. \<lparr>o_new = False, o_jit = False, o_mem = False\<rparr>),
     ch_data_junk = (\<lambda>_. 0), ch_buf = (\<lambda>_. 0), ch_order = (\<lambda>i. [0..<snd (build_nodes P ! i)])\<rparr>"

lemma nodes_busy: "i < length (build_nodes P) \<Longrightarrow> 0 < snd (build_nodes P ! i)"
  by (auto simp: build_nodes_def at_least_one_def split: option.splits prod.splits if_splits)

lemma no_memory_ok: "junk_ok (no_memory P)" "dataset_init (x_jit X) initDatasetItem \<Longrightarrow> fair X (no_memory P) (build_nodes P)"
  by (auto simp: junk_ok_def fair_def no_memory_def nodes_busy)

lemma progress:
  assumes "sys_ok P X h0 s" "seeds_end X" "dataset_init (x_jit X) initDatasetItem" "jobs_of (s_workers s) \<noteq> {}"
  shows "\<exists>s'. rx_step P X s s' \<and> remaining_work s' < remaining_work s"
proof -
  have c: "counts_ok h0 s" and l: "lock_ok s" and v: "vms_ok P X s" using assms(1) by (simp_all add: sys_ok_def)
  have fin: "finite (jobs_of (s_workers s))" using c by (simp add: counts_ok_def)
  have down: "remaining_work (s\<lparr>s_rx := rx', s_lock := lk, s_workers := (s_workers s)(i := p)\<rparr>) < remaining_work s"
    if "s_workers s i \<noteq> Absent" "weight p < weight (s_workers s i)" "\<And>t. lk \<noteq> Some (Miner t)" for rx' lk i p
    using weight_upd [OF fin that(1,2)] that(3) by (simp add: remaining_work_def split: option.splits owner.splits)
  show ?thesis
  proof (cases "s_lock s")
    case (Some ow)
    show ?thesis
    proof (cases ow)
      case (Miner t)
      then have "looking (s_threads s t)" using l Some by (simp add: lock_cases)
      then obtain node where t: "s_threads s t = Checked node" by (cases "s_threads s t") auto
      obtain cc where "rx_cache (s_rx s) = Some cc" using v t by (auto simp: vms_ok_def)
      have "make_vm P oc False pad node (s_rx s) = Some (None, s_rx s)" for oc pad
        by (simp add: make_vm_def Let_def split: option.splits)
      from rx_step.create [OF t this]
      show ?thesis using Some Miner by (intro exI conjI) (assumption, simp add: remaining_work_def)
    next
      case (Worker i)
      then have "busy (s_workers s i)" using l Some by (simp add: lock_cases)
      then consider seed k where "s_workers s i = Draining seed k" | seed where "s_workers s i = Replacing seed"
        by (cases "s_workers s i") auto
      then show ?thesis
      proof cases
        case 1
        have "\<exists>p lk. rx_step P X s (s\<lparr>s_lock := lk, s_workers := (s_workers s)(i := p)\<rparr>) \<and>
            weight p < weight (s_workers s i) \<and> (lk = None \<or> lk = s_lock s)"
        proof (cases "rx_active (s_rx s) > 0")
          case True
          show ?thesis
          proof (cases "k < kDrainSpins")
            case lt: True
            have "s\<lparr>s_lock := s_lock s, s_workers := (s_workers s)(i := Draining seed (k + 1))\<rparr> =
              s\<lparr>s_workers := (s_workers s)(i := Draining seed (k + 1))\<rparr>" by simp
            with rx_step.spin [OF 1 True lt] show ?thesis using 1 lt by (intro exI [of _ "Draining seed (k + 1)"] exI [of _ "s_lock s"]) auto
          next
            case False
            then show ?thesis using rx_step.timeout [OF 1 True] 1 by fastforce
          qed
        next
          case False
          have "s\<lparr>s_lock := s_lock s, s_workers := (s_workers s)(i := Replacing seed)\<rparr> =
            s\<lparr>s_workers := (s_workers s)(i := Replacing seed)\<rparr>" by simp
          with rx_step.drained [OF 1 False] show ?thesis using 1 by (intro exI [of _ "Replacing seed"] exI [of _ "s_lock s"]) auto
        qed
        then obtain p lk where p: "rx_step P X s (s\<lparr>s_lock := lk, s_workers := (s_workers s)(i := p)\<rparr>)"
          "weight p < weight (s_workers s i)" "lk = None \<or> lk = s_lock s" by blast
        have "remaining_work (s\<lparr>s_rx := s_rx s, s_lock := lk, s_workers := (s_workers s)(i := p)\<rparr>) < remaining_work s"
          by (rule down) (use 1 p(2,3) Some Worker in auto)
        then show ?thesis using p(1) by auto
      next
        case 2
        have led: "ledger h0 (card (holders (s_threads s))) (s_rx s)" using c by (simp add: counts_ok_def)
        have cons: "consistent P X (s_rx s)" using v by (simp add: vms_ok_def)
        obtain r rx' where "replace P X (no_memory P) seed (s_rx s) = Some (r, rx')"
          using replace_ok [OF led cons no_memory_ok(1) assms(2) no_memory_ok(2) [OF assms(3)]] by blast
        from rx_step.replace [OF 2 no_memory_ok(1) no_memory_ok(2) [OF assms(3)] this]
        show ?thesis using down [of i "Finished r" None rx'] 2 by auto
      qed
    qed
  next
    case None
    obtain i where "s_workers s i \<noteq> Absent" using assms(4) by (auto simp: jobs_of_def)
    moreover have "\<not> busy (s_workers s i)" using l None by (simp add: lock_cases)
    ultimately consider seed where "s_workers s i = Queued seed" | r where "s_workers s i = Finished r"
      by (cases "s_workers s i") auto
    then show ?thesis
    proof cases
      case 1
      have "remaining_work (s\<lparr>s_rx := s_rx s, s_lock := Some (Worker i), s_workers := (s_workers s)(i := Draining seed 0)\<rparr>) < remaining_work s"
        by (rule down) (use 1 in simp_all)
      then show ?thesis using rx_step.lock [OF 1 None] by auto
    next
      case 2
      have "remaining_work (s\<lparr>s_rx := settle r (s_rx s), s_lock := None, s_workers := (s_workers s)(i := Absent)\<rparr>) < remaining_work s"
        by (rule down) (use 2 in simp_all)
      moreover have "s\<lparr>s_rx := settle r (s_rx s), s_lock := None, s_workers := (s_workers s)(i := Absent)\<rparr> =
          s\<lparr>s_rx := settle r (s_rx s), s_workers := (s_workers s)(i := Absent)\<rparr>" using None by simp
      ultimately show ?thesis using rx_step.settled [OF 2] by auto
    qed
  qed
qed


section \<open>An example run\<close>

definition some_platform :: platform where
  "some_platform = \<lparr>pf_cpu = \<lparr>cpuid = (\<lambda>_ _. 0), xgetbv = 0\<rparr>, pf_vaes = False, pf_sse41 = False, pf_blake_avx2 = False,
     pf_argon_avx2 = False, pf_argon_ssse3 = False, pf_large_pages = False, pf_size_max = 2 ^ 64 - 1,
     pf_topology = None, pf_concurrency = 4\<rparr>"

definition some_external :: external where
  "some_external = \<lparr>x_argon = (\<lambda>_ _. 3), x_H = sevens, x_jit = initDataset\<rparr>"

definition plenty :: outcome where
  "plenty = \<lparr>o_new = True, o_jit = True, o_mem = True\<rparr>"

definition empty_heap :: heap where
  "empty_heap = \<lparr>h_caches = 0, h_datasets = 0, h_vms = 0, h_jits = 0, h_blocks = {#}\<rparr>"

lemma some_external_ok: "seeds_end some_external" "dataset_init (x_jit some_external) initDatasetItem"
  by (simp_all add: seeds_end_def some_external_def sevens_return portable_init.dataset_init_axioms)

text \<open>A light object, one allocation and one machine.\<close>

lemma example_run:
  obtains s vm where "rx_reachable some_platform some_external empty_heap s" "s_threads s 7 = Holds vm"
    "s_workers s = (\<lambda>_. Absent)"
proof -
  let ?P = some_platform and ?X = some_external and ?ch = "(no_memory some_platform)\<lparr>ch_cache := plenty\<rparr>"
  let ?rx0 = "(apply_variant ''rx/0'' (blank_rx empty_heap))\<lparr>rx_mode := Light\<rparr>"
  have ch: "junk_ok ?ch" "fair ?X ?ch (build_nodes ?P)"
    using no_memory_ok(1) [of ?P] no_memory_ok(2) [of ?X ?P] some_external_ok(2) by (simp_all add: junk_ok_def fair_def)
  have "new_rx [JString ''rx/0'', JString ''LIGHT''] empty_heap = Inr ?rx0" by (simp add: new_rx_def ParseVariant_def)
  then have 0: "rx_reachable ?P ?X empty_heap (new_sys ?rx0)" by (rule rx_reachable.new)
  obtain rx1 where q: "queue_allocate [JBuffer [1, 2]] [] ?rx0 = (Inr [1, 2], rx1)" by (simp add: queue_allocate_def Let_def)
  have rx1: "rx_mode rx1 = Light" "rx_cache rx1 = None" "rx_active rx1 = 0" "rx_pending rx1 = 1"
    using queue_frame [OF q] by (simp_all add: apply_variant_def blank_rx_def ParseVariant_def)
  let ?s1 = "\<lambda>lk p. \<lparr>s_rx = rx1, s_lock = lk, s_workers = (\<lambda>_. Absent)(0 := p), s_threads = (\<lambda>_. No_vm)\<rparr>"
  note go = rx_reachable.step
  have 1: "rx_reachable ?P ?X empty_heap (?s1 None (Queued [1, 2]))"
    by (rule go [OF 0]) (use rx_step.queue [where P = ?P and X = ?X and s = "new_sys ?rx0" and i = 0 and args = "[JBuffer [1, 2]]" and variant = "[]"] q in \<open>simp add: new_sys_def\<close>)
  have 2: "rx_reachable ?P ?X empty_heap (?s1 (Some (Worker 0)) (Draining [1, 2] 0))"
    by (rule go [OF 1]) (use rx_step.lock [where P = ?P and X = ?X and s = "?s1 None (Queued [1, 2])" and i = 0] in simp)
  have 3: "rx_reachable ?P ?X empty_heap (?s1 (Some (Worker 0)) (Replacing [1, 2]))"
    by (rule go [OF 2]) (use rx_step.drained [where P = ?P and X = ?X and s = "?s1 (Some (Worker 0)) (Draining [1, 2] 0)" and i = 0] rx1(3) in simp)
  obtain c h where rep: "replace ?P ?X ?ch [1, 2] rx1 = Some (Inr True, rx1\<lparr>rx_heap := h, rx_cache := Some c\<rparr>)" and c: "isInitialized c"
  proof -
    have "o_new (ch_cache ?ch)" "o_jit (ch_cache ?ch)" "o_mem (ch_cache ?ch)" by (simp_all add: plenty_def)
    from light_replace [OF rx1(1,2) this ch(1) some_external_ok(1), of ?P "[1, 2]"] that show thesis by blast
  qed
  let ?rx2 = "rx1\<lparr>rx_heap := h, rx_cache := Some c\<rparr>"
  let ?s2 = "\<lambda>rx lk p f. \<lparr>s_rx = rx, s_lock = lk, s_workers = (\<lambda>_. Absent)(0 := p), s_threads = f\<rparr>"
  have 4: "rx_reachable ?P ?X empty_heap (?s2 ?rx2 None (Finished (Inr True)) (\<lambda>_. No_vm))"
    by (rule go [OF 3]) (use rx_step.replace [where P = ?P and X = ?X and s = "?s1 (Some (Worker 0)) (Replacing [1, 2])" and i = 0, OF _ ch] rep in simp)
  let ?rx3 = "Clear ?rx2"
  have 5: "rx_reachable ?P ?X empty_heap (?s2 ?rx3 None Absent (\<lambda>_. No_vm))"
    by (rule go [OF 4]) (use rx_step.settled [where P = ?P and X = ?X and s = "?s2 ?rx2 None (Finished (Inr True)) (\<lambda>_. No_vm)" and i = 0] in \<open>simp add: settle_eq\<close>)
  have may: "may_create ?rx3" "rx_mode ?rx3 = Light" "rx_cache ?rx3 = Some c" using rx1 by (simp_all add: may_create_def)
  have 6: "rx_reachable ?P ?X empty_heap (?s2 ?rx3 (Some (Miner 7)) Absent ((\<lambda>_. No_vm)(7 := Checked 0)))"
    by (rule go [OF 5]) (use rx_step.check [where P = ?P and X = ?X and s = "?s2 ?rx3 None Absent (\<lambda>_. No_vm)" and t = 7 and node = 0] may(1) in simp)
  obtain vm rx4 where vm: "make_vm ?P plenty True (\<lambda>_. 0) 0 ?rx3 = Some (Some vm, rx4)"
  proof -
    have "o_new plenty" "o_jit plenty" by (simp_all add: plenty_def)
    from light_create [OF may(2,3) c this, of ?P "\<lambda>_. 0" 0] that show thesis by blast
  qed
  have 7: "rx_reachable ?P ?X empty_heap (?s2 rx4 None Absent ((\<lambda>_. No_vm)(7 := Holds vm)))"
    by (rule go [OF 6]) (use rx_step.create [where P = ?P and X = ?X and s = "?s2 ?rx3 (Some (Miner 7)) Absent ((\<lambda>_. No_vm)(7 := Checked 0))" and t = 7 and node = 0] vm in fastforce)
  show thesis by (rule that [OF 7]) (simp_all add: fun_upd_idem)
qed

theorem held_machines_valid_witness:
  "\<exists>(s :: sys) vm c. s_threads s 7 = Holds vm \<and> rx_cache (s_rx s) = Some c \<and> vo_cacheKey vm = ca_cacheKey c"
proof -
  obtain s vm where s: "rx_reachable some_platform some_external empty_heap s" "s_threads s 7 = Holds vm" by (rule example_run)
  from held_machines_valid [OF s(1) some_external_ok(1), of 7] s(2)
  have "\<exists>c. rx_cache (s_rx s) = Some c \<and> vo_cacheKey vm = ca_cacheKey c" by auto
  then show ?thesis using s(2) by blast
qed

theorem rx_accounts_witness:
  "\<exists>s :: sys. rx_pending (s_rx s) = 0 \<and> \<not> rx_updating (s_rx s) \<and> holders (s_threads s) \<noteq> {}"
proof -
  obtain s vm where s: "rx_reachable some_platform some_external empty_heap s" "s_threads s 7 = Holds vm" "s_workers s = (\<lambda>_. Absent)"
    by (rule example_run)
  have "7 \<in> holders (s_threads s)" using s(2) by (simp add: in_holders)
  then have "holders (s_threads s) \<noteq> {}" by blast
  moreover have "rx_pending (s_rx s) = 0 \<and> \<not> rx_updating (s_rx s)"
    using rx_accounts [OF s(1) some_external_ok(1)] s(3) by simp
  ultimately show ?thesis by blast
qed


theorem allocation_outcomes_witness:
  "\<exists>r rx'. Execute some_platform some_external (no_memory some_platform) [1, 2] (blank_rx empty_heap) = Some (r, rx') \<and>
     consistent some_platform some_external rx' \<and> r \<noteq> Inl Drain_timeout"
proof -
  have "ledger empty_heap 0 (blank_rx empty_heap)" "consistent some_platform some_external (blank_rx empty_heap)"
    by (simp_all add: ledger_def blank_rx_def consistent_def keys_def)
  from allocation_outcomes [OF this no_memory_ok(1) some_external_ok(1) no_memory_ok(2) [OF some_external_ok(2)], of "[1, 2]"]
  obtain r rx' where r: "Execute some_platform some_external (no_memory some_platform) [1, 2] (blank_rx empty_heap) = Some (r, rx')"
      "consistent some_platform some_external rx'"
      "r = Inl Drain_timeout \<longleftrightarrow> (\<forall>k \<le> kDrainSpins. ch_active (no_memory some_platform) k > 0)" by blast
  have "r \<noteq> Inl Drain_timeout" using r(3) by (simp add: no_memory_def) blast
  with r show ?thesis by blast
qed

end
