(* ===== verification/Miner.thy ===== *)
theory Miner
  imports Job_Facts
begin

text \<open>
  The mining thread of \<^verbatim>\<open>rx_job.cpp\<close>: \<^verbatim>\<open>Loop\<close> with \<^verbatim>\<open>AcquireVm\<close> and
  \<^verbatim>\<open>FlushHash\<close>. Other threads change the shared state at any time; what one round of the loop
  reads of it is an \<open>observation\<close>, and a round is a function of the locals and the observation.
  So a theorem about every list of observations covers every interleaving. A machine comes with
  the environment it was made in: after a reallocation the next machine has another dataset.
\<close>

section \<open>State\<close>

text \<open>What \<^verbatim>\<open>SendJob\<close> has installed, copied under \<^verbatim>\<open>m_job_mutex\<close>.\<close>

record snapshot =
  sn_blob :: mem
  sn_size :: nat
  sn_target :: u64
  sn_version :: u32

record worker =
  w_vm :: "(env \<times> randomx_vm) option"
  w_size :: nat
  w_target :: u64
  w_version :: u32
  w_first :: bool
  w_cur :: mem
  w_nxt :: mem
  w_hashes :: nat
  w_shares :: "JobResult list"

text \<open>The observations of a round: \<^verbatim>\<open>rx->updating\<close>; the version, and the job if the version
  has changed; the nonce that \<^verbatim>\<open>NextNonce\<close> gives; whether \<^verbatim>\<open>WriteNonce\<close> keeps the nicehash
  byte; and, when the loop waits for a reallocation, the machine that \<^verbatim>\<open>AcquireVm\<close> gives then
  and the version after it. \<open>ob_junk\<close> is what a run of the machine finds in its registers.\<close>

record observation =
  ob_updating :: bool
  ob_version :: u32
  ob_job :: snapshot
  ob_nonce :: "u32 option"
  ob_keep :: bool
  ob_vm :: "(env \<times> randomx_vm) option"
  ob_version' :: u32
  ob_junk :: junk

definition start_worker :: "(env \<times> randomx_vm) option \<Rightarrow> worker" where
  "start_worker vm = \<lparr>w_vm = vm, w_size = 0, w_target = 0, w_version = 0, w_first = True, w_cur = (\<lambda>_. 0),
     w_nxt = (\<lambda>_. 0), w_hashes = 0, w_shares = []\<rparr>"

text \<open>\<open>AcquireVm\<close>: up to 200 tries while the job is active, on the node of the thread and then on
  node 0. \<open>create t n\<close> is what \<^verbatim>\<open>rx->create_vm(n)\<close> returns at try \<open>t\<close>.\<close>

function acquire_loop :: "(nat \<Rightarrow> bool) \<Rightarrow> (nat \<Rightarrow> u32 \<Rightarrow> 'v option) \<Rightarrow> u32 \<Rightarrow> nat \<Rightarrow> 'v option" where
  "acquire_loop active create node tries =
    (if active tries \<and> tries < kVmAcquireTries
     then (case create tries node of Some vm \<Rightarrow> Some vm
       | None \<Rightarrow> (case if node \<noteq> 0 then create tries 0 else None of Some vm \<Rightarrow> Some vm
           | None \<Rightarrow> acquire_loop active create node (tries + 1)))
     else None)"
  by pat_completeness auto
termination by (relation "measure (\<lambda>(_, _, _, tries). kVmAcquireTries - tries)") auto

declare acquire_loop.simps [simp del]

definition AcquireVm :: "(nat \<Rightarrow> bool) \<Rightarrow> (nat \<Rightarrow> u32 \<Rightarrow> 'v option) \<Rightarrow> u32 \<Rightarrow> 'v option" where
  "AcquireVm active create node = acquire_loop active create node 0"

section \<open>The loop\<close>

text \<open>The first \<^verbatim>\<open>size\<close> bytes of a blob.\<close>

definition blob_bytes :: "mem \<Rightarrow> nat \<Rightarrow> u8 list" where
  "blob_bytes blob n = read_bytes blob 0 n"

definition submit :: "u8 list \<Rightarrow> worker \<Rightarrow> worker" where
  "submit hash w = w\<lparr>w_hashes := w_hashes w + 1,
     w_shares := w_shares w @ (case share_of hash (w_cur w) (w_target w) (w_version w) of None \<Rightarrow> [] | Some r \<Rightarrow> [r])\<rparr>"

text \<open>\<open>None\<close> is undefined behaviour of the hash function.\<close>

definition FlushHash :: "junk \<Rightarrow> worker \<Rightarrow> worker option" where
  "FlushHash junk w =
    (if w_first w \<or> w_size w = 0 then Some w
     else (case w_vm w of None \<Rightarrow> Some w
       | Some (E, vm) \<Rightarrow> (case randomx_calculate_hash_last junk E vm of None \<Rightarrow> None
           | Some (hash, vm') \<Rightarrow> Some ((submit hash w)\<lparr>w_vm := Some (E, vm'), w_first := True\<rparr>))))"

definition take_job :: "snapshot \<Rightarrow> worker \<Rightarrow> worker" where
  "take_job j w = w\<lparr>w_cur := write_bytes (w_cur w) 0 (blob_bytes (sn_blob j) (sn_size j)), w_size := sn_size j,
     w_target := sn_target j, w_version := sn_version j\<rparr>"

text \<open>From \<^verbatim>\<open>if (is_first)\<close> to the end of the loop body.\<close>

definition mine :: "junk \<Rightarrow> bool \<Rightarrow> u32 \<Rightarrow> worker \<Rightarrow> worker option" where
  "mine junk keep nonce w =
    (case w_vm w of None \<Rightarrow> None
     | Some (E, vm) \<Rightarrow>
       if w_first w
       then let cur = write_nonce keep (w_cur w) nonce
            in (case randomx_calculate_hash_first E vm (blob_bytes cur (w_size w)) of None \<Rightarrow> None
                | Some vm' \<Rightarrow> Some (w\<lparr>w_first := False, w_vm := Some (E, vm'), w_cur := cur,
                    w_nxt := write_bytes (w_nxt w) 0 (blob_bytes cur (w_size w))\<rparr>))
       else let nxt = write_nonce keep (w_nxt w) nonce
            in (case randomx_calculate_hash_next junk E vm (blob_bytes nxt (w_size w)) of None \<Rightarrow> None
                | Some (hash, vm') \<Rightarrow>
                    let w' = submit hash w
                    in Some (w'\<lparr>w_vm := Some (E, vm'), w_nxt := nxt,
                         w_cur := write_bytes (w_cur w) 0 (blob_bytes nxt (w_size w))\<rparr>)))"

text \<open>A round ends with the locals, or the thread leaves: no machine after an update.\<close>

datatype round = Goes_on worker | Leaves worker

definition loop_round :: "observation \<Rightarrow> worker \<Rightarrow> round option" where
  "loop_round ob w =
    (if ob_updating ob
     then (case FlushHash (ob_junk ob) w of None \<Rightarrow> None
       | Some w \<Rightarrow>
          let w = w\<lparr>w_vm := ob_vm ob\<rparr>
          in if ob_vm ob = None then Some (Leaves w)
             else Some (Goes_on (w\<lparr>w_version := ob_version' ob - 1\<rparr>)))
     else (case if w_version w \<noteq> ob_version ob
                then map_option (take_job (ob_job ob)) (FlushHash (ob_junk ob) w) else Some w of
        None \<Rightarrow> None
      | Some w \<Rightarrow>
         (case if w_size w = 0 then None else ob_nonce ob of
            None \<Rightarrow> map_option Goes_on (FlushHash (ob_junk ob) w)
          | Some nonce \<Rightarrow> map_option Goes_on (mine (ob_junk ob) (ob_keep ob) nonce w))))"

text \<open>The whole thread: the observations last until the job is not active any more, then what is
  in the machine is flushed.\<close>

fun Loop :: "junk \<Rightarrow> observation list \<Rightarrow> worker \<Rightarrow> worker option" where
  "Loop junk [] w = FlushHash junk w"
| "Loop junk (ob # obs) w =
    (case loop_round ob w of None \<Rightarrow> None
     | Some (Leaves w) \<Rightarrow> Some w
     | Some (Goes_on w) \<Rightarrow> Loop junk obs w)"

end
