(* ===== verification/Miner_Facts.thy ===== *)
theory Miner_Facts
  imports Miner
begin

text \<open>
  What a mining thread submits: whatever the other threads do between its reads, every share is
  a hash of the blob of the job it is reported for, with the reported nonce in it, made by a
  machine that the thread held at that time, and meets the target of that job. The proof uses
  the contract \<open>hash_vm\<close> of the pipelined hash functions.
\<close>

section \<open>Hashes have 32 bytes\<close>

lemma length_rx_hash:
  assumes "idle E flags vm"
  shows "length (rx_hash E flags input) = 32"
proof -
  obtain v where "randomx_calculate_hash_first E vm input = Some v" "primed E flags v input"
    using rx_vm.first_ok [OF assms] by blast
  then have "env_total E" "primed_alike (vm_tempHash v, resetRoundingMode v) (primed_ref E flags input)"
    by (simp_all add: primed_def vm_primed_def)
  then obtain x x' where "getFinalResult E RANDOMX_HASH_SIZE x = Some (rx_hash E flags input, x')"
    using rx_hash_eq by metis
  then obtain inp where inp: "blake2b RANDOMX_HASH_SIZE inp [] = Some (rx_hash E flags input)"
    by (auto simp: getFinalResult_def Let_def)
  have size: "RANDOMX_HASH_SIZE = 32" by (simp add: config)
  show ?thesis using inp blake2b_defined [of 32 inp] by (auto simp: size)
qed

section \<open>Shares\<close>

text \<open>Two blobs of a job that may differ in the nonce.\<close>

definition same_job_blob :: "nat \<Rightarrow> mem \<Rightarrow> mem \<Rightarrow> bool" where
  "same_job_blob n b b' \<longleftrightarrow> (\<forall>i<n. i < 39 \<or> 43 \<le> i \<longrightarrow> b i = b' i)"

text \<open>A share is valid for a job if putting its nonce into the blob of the job makes a blob whose
  hash is the result and meets the target.\<close>

definition valid_share :: "snapshot \<Rightarrow> env \<Rightarrow> u32 \<Rightarrow> JobResult \<Rightarrow> bool" where
  "valid_share j E flags r \<longleftrightarrow>
    (let hash = rx_hash E flags (blob_bytes (write_bytes (sn_blob j) kNonceOffset (r_nonce r)) (sn_size j))
     in r_version r = sn_version j \<and> length (r_nonce r) = 4 \<and> r_result r = hash \<and> load64 (data hash) 24 \<le> sn_target j)"

definition shares_valid :: "snapshot set \<Rightarrow> (env \<times> u32) set \<Rightarrow> JobResult list \<Rightarrow> bool" where
  "shares_valid jobs vms rs \<longleftrightarrow> (\<forall>r\<in>set rs. \<exists>j\<in>jobs. \<exists>(E, flags)\<in>vms. valid_share j E flags r)"

lemma write_nonce_same: "same_job_blob n (write_nonce keep b nonce) b"
  by (simp add: same_job_blob_def write_nonce_bytes)

lemma same_job_trans: "same_job_blob n a b \<Longrightarrow> same_job_blob n b c \<Longrightarrow> same_job_blob n a c"
  by (simp add: same_job_blob_def)

lemma blob_bytes_cong: "(\<And>i. i < n \<Longrightarrow> b i = b' i) \<Longrightarrow> blob_bytes b n = blob_bytes b' n"
  by (simp add: blob_bytes_def read_bytes_def)

lemma put_nonce:
  assumes "same_job_blob n b b'"
  shows "blob_bytes (write_bytes b' 39 (read_bytes b 39 4)) n = blob_bytes b n"
proof (rule blob_bytes_cong)
  fix i assume "i < n"
  with assms show "write_bytes b' 39 (read_bytes b 39 4) i = b i"
    by (cases "39 \<le> i \<and> i < 43") (auto simp: write_bytes_def read_bytes_def same_job_blob_def)
qed

lemma share_valid:
  assumes "share_of (rx_hash E flags (blob_bytes cur (sn_size j))) cur (sn_target j) (sn_version j) = Some r"
    "same_job_blob (sn_size j) cur (sn_blob j)" "length (rx_hash E flags (blob_bytes cur (sn_size j))) = 32"
  shows "valid_share j E flags r"
  using assms put_nonce [OF assms(2)]
  by (auto simp: share_of_def valid_share_def kNonceOffset_def Let_def split: if_splits)

section \<open>The invariant of the loop\<close>

text \<open>The job of the locals. Behind an update the version is one that no job has.\<close>

definition has_job :: "snapshot \<Rightarrow> bool \<Rightarrow> worker \<Rightarrow> bool" where
  "has_job j stale w \<longleftrightarrow> w_size w = sn_size j \<and> w_target w = sn_target j \<and> (stale \<or> w_version w = sn_version j) \<and>
     same_job_blob (sn_size j) (w_cur w) (sn_blob j)"

definition machine_ok :: "(env \<times> u32) set \<Rightarrow> worker \<Rightarrow> bool" where
  "machine_ok vms w \<longleftrightarrow> (\<exists>E vm flags. w_vm w = Some (E, vm) \<and> (E, flags) \<in> vms \<and>
     (if w_first w then idle E flags vm
      else primed E flags vm (blob_bytes (w_cur w) (w_size w)) \<and> w_size w \<noteq> 0 \<and>
        (\<forall>i < w_size w. w_nxt w i = w_cur w i)))"

definition worker_inv :: "snapshot set \<Rightarrow> (env \<times> u32) set \<Rightarrow> bool \<Rightarrow> worker \<Rightarrow> bool" where
  "worker_inv jobs vms stale w \<longleftrightarrow> shares_valid jobs vms (w_shares w) \<and> machine_ok vms w \<and>
     (w_size w \<noteq> 0 \<longrightarrow> (\<exists>j\<in>jobs. has_job j stale w)) \<and> (stale \<longrightarrow> w_first w)"

lemma primed_length: "primed E flags vm input \<Longrightarrow> length (rx_hash E flags input') = 32"
  using rx_vm.last_ok length_rx_hash by metis

lemma submit_ok:
  assumes "worker_inv jobs vms stale w" "\<not> w_first w" "w_vm w = Some (E, vm)" "(E, flags) \<in> vms"
    "primed E flags vm (blob_bytes (w_cur w) (w_size w))"
  shows "shares_valid jobs vms (w_shares (submit (rx_hash E flags (blob_bytes (w_cur w) (w_size w))) w))"
proof -
  have "w_size w \<noteq> 0" "\<not> stale" using assms(1,2) by (auto simp: worker_inv_def machine_ok_def split: if_splits)
  then obtain j where j: "j \<in> jobs" "has_job j False w" using assms(1) by (auto simp: worker_inv_def)
  have "valid_share j E flags r" if "share_of (rx_hash E flags (blob_bytes (w_cur w) (w_size w))) (w_cur w) (w_target w) (w_version w) = Some r" for r
    using that j(2) share_valid primed_length [OF assms(5)] by (simp add: has_job_def)
  moreover have "shares_valid jobs vms (w_shares w)" using assms(1) by (simp add: worker_inv_def)
  ultimately show ?thesis
    using assms(4) j(1)
    by (cases "share_of (rx_hash E flags (blob_bytes (w_cur w) (w_size w))) (w_cur w) (w_target w) (w_version w)")
      (auto simp: submit_def shares_valid_def)
qed

lemma flush_ok:
  assumes "worker_inv jobs vms stale w"
  shows "\<exists>w'. FlushHash junk w = Some w' \<and> worker_inv jobs vms stale w' \<and> w_first w'"
proof (cases "w_first w \<or> w_size w = 0")
  case True
  then have "w_first w" using assms by (auto simp: worker_inv_def machine_ok_def split: if_splits)
  then show ?thesis using assms by (simp add: FlushHash_def)
next
  case False
  then obtain E vm flags where vm: "w_vm w = Some (E, vm)" "(E, flags) \<in> vms"
      "primed E flags vm (blob_bytes (w_cur w) (w_size w))"
    using assms by (auto simp: worker_inv_def machine_ok_def)
  let ?h = "rx_hash E flags (blob_bytes (w_cur w) (w_size w))"
  obtain vm' where vm': "randomx_calculate_hash_last junk E vm = Some (?h, vm')" "idle E flags vm'"
    using rx_vm.last_ok [OF vm(3)] by blast
  let ?w = "(submit ?h w)\<lparr>w_vm := Some (E, vm'), w_first := True\<rparr>"
  have "shares_valid jobs vms (w_shares ?w)"
    using submit_ok [OF assms _ vm] False by simp
  moreover have "machine_ok vms ?w" using vm(2) vm'(2) by (auto simp: machine_ok_def)
  moreover have "\<exists>j\<in>jobs. has_job j stale ?w" using assms False by (auto simp: worker_inv_def has_job_def submit_def)
  ultimately have "worker_inv jobs vms stale ?w" by (simp add: worker_inv_def)
  then show ?thesis using False vm(1) vm'(1) by (simp add: FlushHash_def)
qed

lemma take_job_ok:
  assumes "worker_inv jobs vms stale w" "w_first w" "j \<in> jobs"
  shows "worker_inv jobs vms False (take_job j w)"
proof -
  have "same_job_blob (sn_size j) (w_cur (take_job j w)) (sn_blob j)"
    by (auto simp: same_job_blob_def take_job_def write_bytes_def blob_bytes_def read_bytes_def)
  then have "has_job j False (take_job j w)" by (simp add: has_job_def take_job_def)
  then show ?thesis
    using assms by (auto simp: worker_inv_def machine_ok_def take_job_def)
qed

lemma mine_ok:
  assumes "worker_inv jobs vms False w" "w_size w \<noteq> 0"
  shows "\<exists>w'. mine junk keep nonce w = Some w' \<and> worker_inv jobs vms False w'"
proof -
  obtain j where j: "j \<in> jobs" "has_job j False w" using assms by (auto simp: worker_inv_def)
  obtain E vm flags where vm: "w_vm w = Some (E, vm)" "(E, flags) \<in> vms"
      "if w_first w then idle E flags vm else primed E flags vm (blob_bytes (w_cur w) (w_size w)) \<and>
        (\<forall>i < w_size w. w_nxt w i = w_cur w i)"
    using assms(1) by (auto simp: worker_inv_def machine_ok_def split: if_splits)
  have copied: "write_bytes m 0 (blob_bytes b n) i = b i" if "i < n" for m b n i
    using that by (simp add: write_bytes_def blob_bytes_def read_bytes_def)
  show ?thesis
  proof (cases "w_first w")
    case True
    let ?cur = "write_nonce keep (w_cur w) nonce"
    obtain vm' where vm': "randomx_calculate_hash_first E vm (blob_bytes ?cur (w_size w)) = Some vm'"
        "primed E flags vm' (blob_bytes ?cur (w_size w))"
      using rx_vm.first_ok True vm(3) by (metis (full_types))
    let ?w = "w\<lparr>w_first := False, w_vm := Some (E, vm'), w_cur := ?cur,
        w_nxt := write_bytes (w_nxt w) 0 (blob_bytes ?cur (w_size w))\<rparr>"
    have "machine_ok vms ?w" using vm(2) vm'(2) assms(2) by (auto simp: machine_ok_def copied)
    moreover have "has_job j False ?w"
      using j(2) same_job_trans [OF write_nonce_same] by (simp add: has_job_def)
    ultimately have "worker_inv jobs vms False ?w" using assms(1) j(1) by (auto simp: worker_inv_def)
    then show ?thesis using True vm(1) vm'(1) by (simp add: mine_def Let_def)
  next
    case False
    let ?nxt = "write_nonce keep (w_nxt w) nonce" and ?h = "rx_hash E flags (blob_bytes (w_cur w) (w_size w))"
    have primed: "primed E flags vm (blob_bytes (w_cur w) (w_size w))" and eq: "\<forall>i < w_size w. w_nxt w i = w_cur w i"
      using False vm(3) by simp_all
    obtain vm' where vm': "randomx_calculate_hash_next junk E vm (blob_bytes ?nxt (w_size w)) = Some (?h, vm')"
        "primed E flags vm' (blob_bytes ?nxt (w_size w))"
      using rx_vm.next_ok [OF primed] by blast
    let ?cur = "write_bytes (w_cur w) 0 (blob_bytes ?nxt (w_size w))"
    let ?w = "(submit ?h w)\<lparr>w_vm := Some (E, vm'), w_nxt := ?nxt, w_cur := ?cur\<rparr>"
    have cur: "blob_bytes ?cur (w_size w) = blob_bytes ?nxt (w_size w)" by (rule blob_bytes_cong) (rule copied)
    have "shares_valid jobs vms (w_shares ?w)" using submit_ok [OF assms(1) False vm(1,2) primed] by simp
    moreover have "machine_ok vms ?w"
      using vm(2) vm'(2) assms(2) False cur by (auto simp: machine_ok_def submit_def copied)
    moreover have "has_job j False ?w"
      using j(2) eq by (auto simp: has_job_def submit_def same_job_blob_def copied write_nonce_bytes)
    ultimately have "worker_inv jobs vms False ?w" using j(1) by (auto simp: worker_inv_def)
    then show ?thesis using False vm(1) vm'(1) by (simp add: mine_def Let_def)
  qed
qed

section \<open>The loop\<close>

text \<open>What the observations of a thread satisfy: snapshots are jobs that were sent, machines are
  ready, and the version read after an update is not one less than the version that was current
  when the update ended (the counter has 32 bits). The argument is the version set at the end
  of an update.\<close>

fun observed :: "snapshot set \<Rightarrow> (env \<times> u32) set \<Rightarrow> u32 option \<Rightarrow> observation list \<Rightarrow> bool" where
  "observed jobs vms stale [] \<longleftrightarrow> True"
| "observed jobs vms stale (ob # obs) \<longleftrightarrow>
    (if ob_updating ob
     then (\<forall>E vm. ob_vm ob = Some (E, vm) \<longrightarrow> (\<exists>flags. (E, flags) \<in> vms \<and> idle E flags vm)) \<and>
       observed jobs vms (Some (ob_version' ob - 1)) obs
     else ob_job ob \<in> jobs \<and> stale \<noteq> Some (ob_version ob) \<and> observed jobs vms None obs)"

lemma round_ok:
  assumes "worker_inv jobs vms (stale \<noteq> None) w" "stale \<noteq> None \<longrightarrow> stale = Some (w_version w)"
    "observed jobs vms stale (ob # obs)"
  shows "(\<exists>w' stale'. loop_round ob w = Some (Goes_on w') \<and> worker_inv jobs vms (stale' \<noteq> None) w' \<and>
      (stale' \<noteq> None \<longrightarrow> stale' = Some (w_version w')) \<and> observed jobs vms stale' obs) \<or>
    (\<exists>w'. loop_round ob w = Some (Leaves w') \<and> shares_valid jobs vms (w_shares w'))"
proof (cases "ob_updating ob")
  case True
  obtain w1 where w1: "FlushHash (ob_junk ob) w = Some w1" "worker_inv jobs vms (stale \<noteq> None) w1" "w_first w1"
    using flush_ok [OF assms(1)] by blast
  show ?thesis
  proof (cases "ob_vm ob")
    case None
    then show ?thesis using True w1 by (simp add: loop_round_def Let_def worker_inv_def)
  next
    case (Some p)
    obtain E vm where p: "p = (E, vm)" by fastforce
    with Some True assms(3) obtain flags where flags: "(E, flags) \<in> vms" "idle E flags vm" by auto
    let ?w = "w1\<lparr>w_vm := Some p, w_version := ob_version' ob - 1\<rparr>"
    have "worker_inv jobs vms True ?w"
      using w1(2,3) flags by (auto simp: worker_inv_def machine_ok_def has_job_def p)
    moreover have "loop_round ob w = Some (Goes_on ?w)" using True Some w1(1) by (simp add: loop_round_def Let_def)
    moreover have "observed jobs vms (Some (w_version ?w)) obs" using True assms(3) by simp
    ultimately show ?thesis by (intro disjI1 exI [of _ ?w] exI [of _ "Some (w_version ?w)"]) simp
  qed
next
  case False
  then have ob: "ob_job ob \<in> jobs" "stale \<noteq> Some (ob_version ob)" "observed jobs vms None obs" using assms(3) by simp_all
  obtain w1 where w1: "(if w_version w \<noteq> ob_version ob then map_option (take_job (ob_job ob)) (FlushHash (ob_junk ob) w) else Some w) = Some w1"
      "worker_inv jobs vms False w1"
  proof (cases "w_version w = ob_version ob")
    case True
    then have "stale = None" using assms(2) ob(2) by auto
    then show ?thesis using that [of w] assms(1) True by simp
  next
    case changed: False
    obtain w0 where "FlushHash (ob_junk ob) w = Some w0" "worker_inv jobs vms (stale \<noteq> None) w0" "w_first w0"
      using flush_ok [OF assms(1)] by blast
    then show ?thesis using that [of "take_job (ob_job ob) w0"] take_job_ok [OF _ _ ob(1)] changed by simp
  qed
  obtain w2 where w2: "(case if w_size w1 = 0 then None else ob_nonce ob of
        None \<Rightarrow> map_option Goes_on (FlushHash (ob_junk ob) w1)
      | Some nonce \<Rightarrow> map_option Goes_on (mine (ob_junk ob) (ob_keep ob) nonce w1)) = Some (Goes_on w2)"
      "worker_inv jobs vms False w2"
  proof (cases "if w_size w1 = 0 then None else ob_nonce ob")
    case None
    obtain w2 where "FlushHash (ob_junk ob) w1 = Some w2" "worker_inv jobs vms False w2"
      using flush_ok [OF w1(2)] by blast
    then show ?thesis using that [of w2] None by simp
  next
    case (Some nonce)
    then have "w_size w1 \<noteq> 0" by (auto split: if_splits)
    then obtain w2 where "mine (ob_junk ob) (ob_keep ob) nonce w1 = Some w2" "worker_inv jobs vms False w2"
      using mine_ok [OF w1(2)] by blast
    then show ?thesis using that [of w2] Some by simp
  qed
  have "loop_round ob w = Some (Goes_on w2)"
    unfolding loop_round_def using False w1(1) w2(1) by simp
  then show ?thesis using w2(2) ob(3) by (intro disjI1 exI [of _ w2] exI [of _ None]) simp
qed

lemma loop_ok:
  assumes "worker_inv jobs vms (stale \<noteq> None) w" "stale \<noteq> None \<longrightarrow> stale = Some (w_version w)"
    "observed jobs vms stale obs"
  shows "\<exists>w'. Loop junk obs w = Some w' \<and> shares_valid jobs vms (w_shares w')"
  using assms
proof (induction obs arbitrary: w stale)
  case Nil
  obtain w0 where "FlushHash junk w = Some w0" "worker_inv jobs vms (stale \<noteq> None) w0"
    using flush_ok [OF Nil.prems(1)] by blast
  then show ?case by (simp add: worker_inv_def)
next
  case (Cons ob obs)
  consider w' stale' where "loop_round ob w = Some (Goes_on w')" "worker_inv jobs vms (stale' \<noteq> None) w'"
      "stale' \<noteq> None \<longrightarrow> stale' = Some (w_version w')" "observed jobs vms stale' obs"
    | w' where "loop_round ob w = Some (Leaves w')" "shares_valid jobs vms (w_shares w')"
    using round_ok [OF Cons.prems] by blast
  then show ?case
  proof cases
    case 1
    then show ?thesis using Cons.IH [OF 1(2-4)] by simp
  next
    case 2
    then show ?thesis by simp
  qed
qed

text \<open>C1: a mining thread reports only valid shares, in every interleaving with new jobs, range
  changes, pauses and reallocations: it never reaches undefined behaviour, and putting the
  reported nonce into the blob of the job with the reported version gives the input whose RandomX
  hash, on a machine that the thread was given, is the reported result, which meets the target
  of that job. In particular the hash that the pipeline delivers one round late is never
  reported for the next nonce or for the next job.\<close>

theorem miner_reports_valid_shares:
  assumes "observed jobs vms None obs" "(E, flags) \<in> vms" "idle E flags vm"
  shows "\<exists>w. Loop junk obs (start_worker (Some (E, vm))) = Some w \<and>
    (\<forall>r\<in>set (w_shares w). \<exists>j\<in>jobs. \<exists>(E', flags')\<in>vms. valid_share j E' flags' r)"
proof -
  have inv: "worker_inv jobs vms False (start_worker (Some (E, vm)))"
    using assms(2,3) by (auto simp: worker_inv_def start_worker_def shares_valid_def machine_ok_def)
  have "\<exists>w. Loop junk obs (start_worker (Some (E, vm))) = Some w \<and> shares_valid jobs vms (w_shares w)"
    by (rule loop_ok [OF _ _ assms(1)]) (simp_all add: inv)
  then show ?thesis unfolding shares_valid_def .
qed

definition sample_job :: snapshot where
  "sample_job = \<lparr>sn_blob = (\<lambda>_. 7), sn_size = 76, sn_target = 0xFFFFFFFFFFFFFFFF, sn_version = 1\<rparr>"

definition sees :: "u32 option \<Rightarrow> observation" where
  "sees nonce = \<lparr>ob_updating = False, ob_version = 1, ob_job = sample_job, ob_nonce = nonce, ob_keep = False,
     ob_vm = None, ob_version' = 0, ob_junk = no_junk\<rparr>"

theorem miner_reports_valid_shares_witness:
  "\<exists>w. Loop no_junk [sees (Some 5), sees (Some 6), sees None] (start_worker (Some (zero_env, fresh_vm 0))) = Some w \<and>
    (\<forall>r\<in>set (w_shares w). \<exists>j\<in>{sample_job}. \<exists>(E', flags')\<in>{(zero_env, 0)}. valid_share j E' flags' r)"
proof (rule miner_reports_valid_shares)
  show "observed {sample_job} {(zero_env, 0)} None [sees (Some 5), sees (Some 6), sees None]"
    by (simp add: sees_def)
  show "idle zero_env 0 (fresh_vm 0)" using zero_env_total fresh_vm_ok by (simp add: idle_def)
qed simp

end
