(* ===== verification/Jit_X86.thy ===== *)
theory Jit_X86
  imports Bytecode Superscalar "HOL-Library.State_Monad"
begin

text \<open>
  The x86-64 compiler (\<^verbatim>\<open>jit_compiler_x86.cpp\<close>, \<^verbatim>\<open>jit_compiler_x86.hpp\<close>): the code
  buffer with its write position, the emitters, one code generator per RandomX instruction,
  the generator of superscalar code, and the assembly of a whole program.

  The compiler object is the state of a state monad, so that each generator reads like the
  sequence of \<^verbatim>\<open>emit\<close> calls it is. The hand-written assembly routines
  (\<^verbatim>\<open>jit_compiler_x86_static.S\<close>) are copied into the buffer as blocks of bytes; they are the
  parameter record \<open>static_code\<close>, one byte list per label, and a size that the code
  computes as the distance of two labels is the length of the block.

  The generators for floating-point instructions reduce the register numbers of the
  instruction in place (\<^verbatim>\<open>instr.dst %= RegisterCountFlt\<close>). The program buffer is not read
  again before it is refilled, so the model reduces the numbers of a local copy.
\<close>

section \<open>Buffer layout\<close>

definition alignSize :: "nat \<Rightarrow> nat \<Rightarrow> nat" where
  "alignSize pos align = ((pos - 1) div align + 1) * align"

named_theorems x86_const \<open>constants of the x86 compiler\<close>

definition MaxRandomXInstrCodeSize :: nat where [x86_const]: "MaxRandomXInstrCodeSize = 32"
definition MaxSuperscalarInstrSize :: nat where [x86_const]: "MaxSuperscalarInstrSize = 14"
definition SuperscalarProgramHeader :: nat where [x86_const]: "SuperscalarProgramHeader = 128"
definition CodeAlign :: nat where [x86_const]: "CodeAlign = 4096"
definition ReserveCodeSize :: nat where [x86_const]: "ReserveCodeSize = CodeAlign"
definition RandomXCodeSize :: nat where
  "RandomXCodeSize = alignSize (ReserveCodeSize + MaxRandomXInstrCodeSize * RANDOMX_PROGRAM_MAX_SIZE) CodeAlign"
definition SuperscalarSize :: nat where
  "SuperscalarSize = alignSize (ReserveCodeSize
     + (SuperscalarProgramHeader + MaxSuperscalarInstrSize * SuperscalarMaxSize) * RANDOMX_CACHE_ACCESSES) CodeAlign"
definition CodeSize :: nat where "CodeSize = RandomXCodeSize + SuperscalarSize"
definition superScalarHashOffset :: nat where "superScalarHashOffset = RandomXCodeSize"

lemma layout_values [x86_const]:
  "RandomXCodeSize = 16384" "SuperscalarSize = 65536" "CodeSize = 81920" "superScalarHashOffset = 16384"
  by (simp_all add: RandomXCodeSize_def SuperscalarSize_def CodeSize_def superScalarHashOffset_def
      alignSize_def config x86_const)

text \<open>The two \<^verbatim>\<open>static_assert\<close>s.\<close>

lemma code_size_asserts: "RandomXCodeSize < (2 ^ 31 - 1) div 2" "SuperscalarSize < (2 ^ 31 - 1) div 2"
  by (simp_all add: x86_const)

text \<open>The blocks of hand-written code between the labels of the assembly file.\<close>

record static_code =
  codePrologue :: "u8 list"
  codeLoopLoad :: "u8 list"
  codeReadDataset :: "u8 list"
  codeReadDatasetV2 :: "u8 list"
  codeReadDatasetLightSshInit :: "u8 list"
  codeReadDatasetLightSshInitV2 :: "u8 list"
  codeReadDatasetLightSshFin :: "u8 list"
  codeDatasetInit :: "u8 list"
  codeLoopStore :: "u8 list"
  codeLoopStoreHardAes :: "u8 list"
  codeLoopStoreSoftAes :: "u8 list"
  codeSoftAes :: "u8 list"
  codeEpilogue :: "u8 list"
  codeShhLoad :: "u8 list"
  codeShhPrefetch :: "u8 list"
  codeShhInit :: "u8 list"
  codePrefetchScratchpad :: "u8 list"
  lutEncAddress :: u64
  lutDecAddress :: u64

definition epilogueOffset :: "static_code \<Rightarrow> nat" where
  "epilogueOffset sc = CodeSize - length (codeEpilogue sc)"

section \<open>Opcode bytes\<close>

definition REX_ADD_RR :: "u8 list" where [x86_const]: "REX_ADD_RR = [0x4d, 3]"
definition REX_ADD_RM :: "u8 list" where [x86_const]: "REX_ADD_RM = [0x4c, 3]"
definition REX_SUB_RR :: "u8 list" where [x86_const]: "REX_SUB_RR = [0x4d, 0x2b]"
definition REX_SUB_RM :: "u8 list" where [x86_const]: "REX_SUB_RM = [0x4c, 0x2b]"
definition REX_MOV_RR :: "u8 list" where [x86_const]: "REX_MOV_RR = [0x41, 0x8b]"
definition REX_MOV_RR64 :: "u8 list" where [x86_const]: "REX_MOV_RR64 = [0x49, 0x8b]"
definition REX_MOV_R64R :: "u8 list" where [x86_const]: "REX_MOV_R64R = [0x4c, 0x8b]"
definition REX_IMUL_RR :: "u8 list" where [x86_const]: "REX_IMUL_RR = [0x4d, 0xf, 0xaf]"
definition REX_IMUL_RRI :: "u8 list" where [x86_const]: "REX_IMUL_RRI = [0x4d, 0x69]"
definition REX_IMUL_RM :: "u8 list" where [x86_const]: "REX_IMUL_RM = [0x4c, 0xf, 0xaf]"
definition REX_MUL_R :: "u8 list" where [x86_const]: "REX_MUL_R = [0x49, 0xf7]"
definition REX_MUL_M :: "u8 list" where [x86_const]: "REX_MUL_M = [0x48, 0xf7]"
definition REX_81 :: "u8 list" where [x86_const]: "REX_81 = [0x49, 0x81]"
definition MOV_RAX_I :: "u8 list" where [x86_const]: "MOV_RAX_I = [0x48, 0xb8]"
definition MOV_RCX_I :: "u8 list" where [x86_const]: "MOV_RCX_I = [0x48, 0xb9]"
definition REX_LEA :: "u8 list" where [x86_const]: "REX_LEA = [0x4f, 0x8d]"
definition REX_MUL_MEM :: "u8 list" where [x86_const]: "REX_MUL_MEM = [0x48, 0xf7, 0x24, 0xe]"
definition REX_IMUL_MEM :: "u8 list" where [x86_const]: "REX_IMUL_MEM = [0x48, 0xf7, 0x2c, 0xe]"
definition REX_SHR_RAX :: "u8 list" where [x86_const]: "REX_SHR_RAX = [0x48, 0xc1, 0xe8]"
definition RAX_ADD_SBB_1 :: "u8 list" where [x86_const]: "RAX_ADD_SBB_1 = [0x48, 0x83, 0xc0, 1, 0x48, 0x83, 0xd8, 0]"
definition MUL_RCX :: "u8 list" where [x86_const]: "MUL_RCX = [0x48, 0xf7, 0xe1]"
definition REX_SHR_RDX :: "u8 list" where [x86_const]: "REX_SHR_RDX = [0x48, 0xc1, 0xea]"
definition REX_SH :: "u8 list" where [x86_const]: "REX_SH = [0x49, 0xc1]"
definition MOV_RCX_RAX_SAR_RCX_63 :: "u8 list" where [x86_const]: "MOV_RCX_RAX_SAR_RCX_63 = [0x48, 0x89, 0xc1, 0x48, 0xc1, 0xf9, 0x3f]"
definition AND_ECX_I :: "u8 list" where [x86_const]: "AND_ECX_I = [0x81, 0xe1]"
definition ADD_RAX_RCX :: "u8 list" where [x86_const]: "ADD_RAX_RCX = [0x48, 1, 0xc8]"
definition SAR_RAX_I8 :: "u8 list" where [x86_const]: "SAR_RAX_I8 = [0x48, 0xc1, 0xf8]"
definition NEG_RAX :: "u8 list" where [x86_const]: "NEG_RAX = [0x48, 0xf7, 0xd8]"
definition ADD_R_RAX :: "u8 list" where [x86_const]: "ADD_R_RAX = [0x4c, 3]"
definition XOR_EAX_EAX :: "u8 list" where [x86_const]: "XOR_EAX_EAX = [0x33, 0xc0]"
definition ADD_RDX_R :: "u8 list" where [x86_const]: "ADD_RDX_R = [0x4c, 1]"
definition SUB_RDX_R :: "u8 list" where [x86_const]: "SUB_RDX_R = [0x4c, 0x29]"
definition SAR_RDX_I8 :: "u8 list" where [x86_const]: "SAR_RDX_I8 = [0x48, 0xc1, 0xfa]"
definition TEST_RDX_RDX :: "u8 list" where [x86_const]: "TEST_RDX_RDX = [0x48, 0x85, 0xd2]"
definition SETS_AL_ADD_RDX_RAX :: "u8 list" where [x86_const]: "SETS_AL_ADD_RDX_RAX = [0xf, 0x98, 0xc0, 0x48, 3, 0xd0]"
definition REX_NEG :: "u8 list" where [x86_const]: "REX_NEG = [0x49, 0xf7]"
definition REX_XOR_RR :: "u8 list" where [x86_const]: "REX_XOR_RR = [0x4d, 0x33]"
definition REX_XOR_RI :: "u8 list" where [x86_const]: "REX_XOR_RI = [0x49, 0x81]"
definition REX_XOR_RM :: "u8 list" where [x86_const]: "REX_XOR_RM = [0x4c, 0x33]"
definition REX_ROT_CL :: "u8 list" where [x86_const]: "REX_ROT_CL = [0x49, 0xd3]"
definition REX_ROT_I8 :: "u8 list" where [x86_const]: "REX_ROT_I8 = [0x49, 0xc1]"
definition SHUFPD :: "u8 list" where [x86_const]: "SHUFPD = [0x66, 0xf, 0xc6]"
definition REX_ADDPD :: "u8 list" where [x86_const]: "REX_ADDPD = [0x66, 0x41, 0xf, 0x58]"
definition REX_CVTDQ2PD_XMM12 :: "u8 list" where [x86_const]: "REX_CVTDQ2PD_XMM12 = [0xf3, 0x44, 0xf, 0xe6, 0x24, 6]"
definition REX_SUBPD :: "u8 list" where [x86_const]: "REX_SUBPD = [0x66, 0x41, 0xf, 0x5c]"
definition REX_XORPS :: "u8 list" where [x86_const]: "REX_XORPS = [0x41, 0xf, 0x57]"
definition REX_MULPD :: "u8 list" where [x86_const]: "REX_MULPD = [0x66, 0x41, 0xf, 0x59]"
definition REX_MAXPD :: "u8 list" where [x86_const]: "REX_MAXPD = [0x66, 0x41, 0xf, 0x5f]"
definition REX_DIVPD :: "u8 list" where [x86_const]: "REX_DIVPD = [0x66, 0x41, 0xf, 0x5e]"
definition SQRTPD :: "u8 list" where [x86_const]: "SQRTPD = [0x66, 0xf, 0x51]"
definition AND_OR_MOV_LDMXCSR :: "u8 list" where [x86_const]: "AND_OR_MOV_LDMXCSR = [0x25, 0, 0x60, 0, 0, 0xd, 0xc0, 0x9f, 0, 0, 0x89, 4, 0x24, 0xf, 0xae, 0x14, 0x24]"
definition ROL_RAX :: "u8 list" where [x86_const]: "ROL_RAX = [0x48, 0xc1, 0xc0]"
definition XOR_ECX_ECX :: "u8 list" where [x86_const]: "XOR_ECX_ECX = [0x33, 0xc9]"
definition REX_CMP_R32I :: "u8 list" where [x86_const]: "REX_CMP_R32I = [0x41, 0x81]"
definition REX_CMP_M32I :: "u8 list" where [x86_const]: "REX_CMP_M32I = [0x81, 0x3c, 6]"
definition MOVAPD :: "u8 list" where [x86_const]: "MOVAPD = [0x66, 0xf, 0x29]"
definition REX_MOV_MR :: "u8 list" where [x86_const]: "REX_MOV_MR = [0x4c, 0x89]"
definition REX_XOR_EAX :: "u8 list" where [x86_const]: "REX_XOR_EAX = [0x41, 0x33]"
definition SUB_EBX :: "u8 list" where [x86_const]: "SUB_EBX = [0x83, 0xeb, 1]"
definition JNZ :: "u8 list" where [x86_const]: "JNZ = [0xf, 0x85]"
definition REX_XOR_RAX_R64 :: "u8 list" where [x86_const]: "REX_XOR_RAX_R64 = [0x49, 0x33]"
definition REX_XCHG :: "u8 list" where [x86_const]: "REX_XCHG = [0x4d, 0x87]"
definition REX_ANDPS_XMM12 :: "u8 list" where [x86_const]: "REX_ANDPS_XMM12 = [0x45, 0xf, 0x54, 0xe5, 0x45, 0xf, 0x56, 0xe6]"
definition REX_PADD :: "u8 list" where [x86_const]: "REX_PADD = [0x66, 0x44, 0xf]"
definition PADD_OPCODES :: "u8 list" where [x86_const]: "PADD_OPCODES = [0xfc, 0xfd, 0xfe, 0xd4]"
definition REX_ADD_I :: "u8 list" where [x86_const]: "REX_ADD_I = [0x49, 0x81]"
definition REX_TEST :: "u8 list" where [x86_const]: "REX_TEST = [0x49, 0xf7]"
definition JZ :: "u8 list" where [x86_const]: "JZ = [0xf, 0x84]"
definition LEA_32 :: "u8 list" where [x86_const]: "LEA_32 = [0x41, 0x8d]"
definition MOVNTI :: "u8 list" where [x86_const]: "MOVNTI = [0x4c, 0xf, 0xc3]"
definition ADD_EBX_I :: "u8 list" where [x86_const]: "ADD_EBX_I = [0x81, 0xc3]"
definition TEST_EAX_60SL13 :: "u8 list" where [x86_const]: "TEST_EAX_60SL13 = [0xa9, 0, 0x80, 7, 0]"
definition NOP1 :: "u8 list" where [x86_const]: "NOP1 = [0x90]"
definition NOP2 :: "u8 list" where [x86_const]: "NOP2 = [0x66, 0x90]"
definition NOP3 :: "u8 list" where [x86_const]: "NOP3 = [0x66, 0x66, 0x90]"
definition NOP4 :: "u8 list" where [x86_const]: "NOP4 = [0xf, 0x1f, 0x40, 0]"
definition NOP5 :: "u8 list" where [x86_const]: "NOP5 = [0xf, 0x1f, 0x44, 0, 0]"
definition NOP6 :: "u8 list" where [x86_const]: "NOP6 = [0x66, 0xf, 0x1f, 0x44, 0, 0]"
definition NOP7 :: "u8 list" where [x86_const]: "NOP7 = [0xf, 0x1f, 0x80, 0, 0, 0, 0]"
definition NOP8 :: "u8 list" where [x86_const]: "NOP8 = [0xf, 0x1f, 0x84, 0, 0, 0, 0, 0]"
definition AND_EAX_I :: nat where [x86_const]: "AND_EAX_I = 0x25"
definition MOV_EAX_I :: nat where [x86_const]: "MOV_EAX_I = 0xb8"
definition JNZ_SHORT :: nat where [x86_const]: "JNZ_SHORT = 0x75"
definition JMP :: nat where [x86_const]: "JMP = 0xe9"
definition CALL :: nat where [x86_const]: "CALL = 0xe8"
definition RET :: nat where [x86_const]: "RET = 0xc3"
definition NOPX :: "u8 list list" where
  "NOPX = [NOP1, NOP2, NOP3, NOP4, NOP5, NOP6, NOP7, NOP8]"

section \<open>Emitters\<close>

text \<open>The object: \<^verbatim>\<open>instructionOffsets\<close>, \<^verbatim>\<open>registerUsage\<close>, the code buffer,
  \<^verbatim>\<open>codePos\<close> and \<^verbatim>\<open>vmFlags\<close>.\<close>

record jit_compiler =
  j_offsets :: "nat list"
  j_usage :: "nat \<Rightarrow> int"
  j_code :: mem
  j_pos :: nat
  j_flags :: u32

type_synonym emitter = "(jit_compiler, unit) state"

definition bytes32 :: "u32 \<Rightarrow> u8 list" where
  "bytes32 v = [ucast v, ucast (drop_bit 8 v), ucast (drop_bit 16 v), ucast (drop_bit 24 v)]"

definition bytes64 :: "u64 \<Rightarrow> u8 list" where
  "bytes64 v = [ucast v, ucast (drop_bit 8 v), ucast (drop_bit 16 v), ucast (drop_bit 24 v),
     ucast (drop_bit 32 v), ucast (drop_bit 40 v), ucast (drop_bit 48 v), ucast (drop_bit 56 v)]"

definition emit_bytes :: "u8 list \<Rightarrow> emitter" where
  "emit_bytes bs = State_Monad.update (\<lambda>j. j\<lparr>j_code := write_bytes (j_code j) (j_pos j) bs,
     j_pos := j_pos j + length bs\<rparr>)"

definition emitByte :: "nat \<Rightarrow> emitter" where "emitByte v = emit_bytes [of_nat v]"
definition emit32 :: "u32 \<Rightarrow> emitter" where "emit32 v = emit_bytes (bytes32 v)"
definition emit64 :: "u64 \<Rightarrow> emitter" where "emit64 v = emit_bytes (bytes64 v)"

definition copy_to :: "nat \<Rightarrow> u8 list \<Rightarrow> emitter" where
  "copy_to a bs = State_Monad.update (\<lambda>j. j\<lparr>j_code := write_bytes (j_code j) a bs\<rparr>)"

definition set_pos :: "nat \<Rightarrow> emitter" where
  "set_pos p = State_Monad.update (\<lambda>j. j\<lparr>j_pos := p\<rparr>)"

definition gets :: "(jit_compiler \<Rightarrow> 'a) \<Rightarrow> (jit_compiler, 'a) state" where
  "gets f = do { j \<leftarrow> State_Monad.get; State_Monad.return (f j) }"

definition set_usage :: "nat \<Rightarrow> nat \<Rightarrow> emitter" where
  "set_usage r i = State_Monad.update (\<lambda>j. j\<lparr>j_usage := (j_usage j)(r := int i)\<rparr>)"

text \<open>A loop over a list of indices.\<close>

fun for_each :: "('a \<Rightarrow> emitter) \<Rightarrow> 'a list \<Rightarrow> emitter" where
  "for_each f [] = State_Monad.return ()"
| "for_each f (x # xs) = do { f x; for_each f xs }"

text \<open>\<^verbatim>\<open>rem\<close> shrinks in every round: a NOP of at most eight bytes ends at or before the
  next multiple of \<open>align\<close>.\<close>

function align_from :: "nat \<Rightarrow> nat \<Rightarrow> u8 list" where
  "align_from align pos =
    (if align = 0 \<or> pos mod align = 0 then []
     else let nopSize = min (align - pos mod align) 8
          in NOPX ! (nopSize - 1) @ align_from align (pos + nopSize))"
  by pat_completeness auto
termination
proof (relation "measure (\<lambda>(align, pos). (align - pos mod align) mod align)", goal_cases)
  case (2 align pos n)
  then have r: "0 < pos mod align" "pos mod align < align" by auto
  define r where "r = pos mod align"
  have n: "n = min (align - r) 8" "0 < n" "n \<le> align - r" using 2 r by (auto simp: r_def)
  have m: "(pos + n) mod align = (r + n) mod align" by (simp add: r_def mod_add_left_eq)
  show ?case
  proof (cases "r + n = align")
    case True
    then have "(pos + n) mod align = 0" by (simp add: m)
    then show ?thesis using r by (simp add: r_def [symmetric])
  next
    case False
    then have "(pos + n) mod align = r + n" using m n r by (simp add: r_def)
    then show ?thesis using n r False by (simp add: r_def [symmetric])
  qed
qed simp

declare align_from.simps [simp del]

definition alignCode :: "nat \<Rightarrow> emitter" where
  "alignCode align = do { p \<leftarrow> gets j_pos; emit_bytes (align_from align p) }"

section \<open>Operand encoders\<close>

abbreviation dst_n :: "Instruction \<Rightarrow> nat" where "dst_n i \<equiv> unat (i_dst i)"
abbreviation src_n :: "Instruction \<Rightarrow> nat" where "src_n i \<equiv> unat (i_src i)"

definition reduce_dst :: "nat \<Rightarrow> Instruction \<Rightarrow> Instruction" where
  "reduce_dst n i = i\<lparr>i_dst := of_nat (dst_n i mod n)\<rparr>"

definition reduce_src :: "nat \<Rightarrow> Instruction \<Rightarrow> Instruction" where
  "reduce_src n i = i\<lparr>i_src := of_nat (src_n i mod n)\<rparr>"

definition x86_genSIB :: "nat \<Rightarrow> nat \<Rightarrow> nat \<Rightarrow> emitter" where
  "x86_genSIB scale index base = emitByte (push_bit 6 scale OR push_bit 3 index OR base)"

definition x86_genAddressReg :: "Instruction \<Rightarrow> bool \<Rightarrow> emitter" where
  "x86_genAddressReg instr rax = do {
     emit_bytes LEA_32;
     emitByte (0x80 + src_n instr + (if rax then 0 else 8));
     (if src_n instr = RegisterNeedsSib then emitByte 0x24 else State_Monad.return ());
     emit32 (getImm32 instr);
     (if rax then emitByte AND_EAX_I else emit_bytes AND_ECX_I);
     emit32 (modMemMask instr) }"

definition x86_genAddressRegDst :: "Instruction \<Rightarrow> emitter" where
  "x86_genAddressRegDst instr = do {
     emit_bytes LEA_32;
     emitByte (0x80 + dst_n instr);
     (if dst_n instr = RegisterNeedsSib then emitByte 0x24 else State_Monad.return ());
     emit32 (getImm32 instr);
     emitByte AND_EAX_I;
     if getModCond instr < StoreL3Condition then emit32 (modMemMask instr) else emit32 ScratchpadL3Mask }"

definition x86_genAddressImm :: "Instruction \<Rightarrow> emitter" where
  "x86_genAddressImm instr = emit32 (getImm32 instr AND ScratchpadL3Mask)"

section \<open>Instruction generators\<close>

definition x86_IADD_RS :: "Instruction \<Rightarrow> nat \<Rightarrow> emitter" where
  "x86_IADD_RS instr i = do {
     set_usage (dst_n instr) i;
     emit_bytes REX_LEA;
     (if dst_n instr = RegisterNeedsDisplacement then emitByte 0xac else emitByte (0x04 + 8 * dst_n instr));
     x86_genSIB (getModShift instr) (src_n instr) (dst_n instr);
     if dst_n instr = RegisterNeedsDisplacement then emit32 (getImm32 instr) else State_Monad.return () }"

definition x86_IADD_M :: "Instruction \<Rightarrow> nat \<Rightarrow> emitter" where
  "x86_IADD_M instr i = do {
     set_usage (dst_n instr) i;
     if src_n instr \<noteq> dst_n instr then do {
       x86_genAddressReg instr True;
       emit_bytes REX_ADD_RM;
       emitByte (0x04 + 8 * dst_n instr);
       emitByte 0x06
     } else do {
       emit_bytes REX_ADD_RM;
       emitByte (0x86 + 8 * dst_n instr);
       x86_genAddressImm instr } }"

definition x86_ISUB_R :: "Instruction \<Rightarrow> nat \<Rightarrow> emitter" where
  "x86_ISUB_R instr i = do {
     set_usage (dst_n instr) i;
     if src_n instr \<noteq> dst_n instr then do {
       emit_bytes REX_SUB_RR;
       emitByte (0xc0 + 8 * dst_n instr + src_n instr)
     } else do {
       emit_bytes REX_81;
       emitByte (0xe8 + dst_n instr);
       emit32 (getImm32 instr) } }"

definition x86_ISUB_M :: "Instruction \<Rightarrow> nat \<Rightarrow> emitter" where
  "x86_ISUB_M instr i = do {
     set_usage (dst_n instr) i;
     if src_n instr \<noteq> dst_n instr then do {
       x86_genAddressReg instr True;
       emit_bytes REX_SUB_RM;
       emitByte (0x04 + 8 * dst_n instr);
       emitByte 0x06
     } else do {
       emit_bytes REX_SUB_RM;
       emitByte (0x86 + 8 * dst_n instr);
       x86_genAddressImm instr } }"

definition x86_IMUL_R :: "Instruction \<Rightarrow> nat \<Rightarrow> emitter" where
  "x86_IMUL_R instr i = do {
     set_usage (dst_n instr) i;
     if src_n instr \<noteq> dst_n instr then do {
       emit_bytes REX_IMUL_RR;
       emitByte (0xc0 + 8 * dst_n instr + src_n instr)
     } else do {
       emit_bytes REX_IMUL_RRI;
       emitByte (0xc0 + 9 * dst_n instr);
       emit32 (getImm32 instr) } }"

definition x86_IMUL_M :: "Instruction \<Rightarrow> nat \<Rightarrow> emitter" where
  "x86_IMUL_M instr i = do {
     set_usage (dst_n instr) i;
     if src_n instr \<noteq> dst_n instr then do {
       x86_genAddressReg instr True;
       emit_bytes REX_IMUL_RM;
       emitByte (0x04 + 8 * dst_n instr);
       emitByte 0x06
     } else do {
       emit_bytes REX_IMUL_RM;
       emitByte (0x86 + 8 * dst_n instr);
       x86_genAddressImm instr } }"

definition x86_IMULH_R :: "Instruction \<Rightarrow> nat \<Rightarrow> emitter" where
  "x86_IMULH_R instr i = do {
     set_usage (dst_n instr) i;
     emit_bytes REX_MOV_RR64;
     emitByte (0xc0 + dst_n instr);
     emit_bytes REX_MUL_R;
     emitByte (0xe0 + src_n instr);
     emit_bytes REX_MOV_R64R;
     emitByte (0xc2 + 8 * dst_n instr) }"

definition x86_IMULH_M :: "Instruction \<Rightarrow> nat \<Rightarrow> emitter" where
  "x86_IMULH_M instr i = do {
     set_usage (dst_n instr) i;
     (if src_n instr \<noteq> dst_n instr then do {
       x86_genAddressReg instr False;
       emit_bytes REX_MOV_RR64;
       emitByte (0xc0 + dst_n instr);
       emit_bytes REX_MUL_MEM
     } else do {
       emit_bytes REX_MOV_RR64;
       emitByte (0xc0 + dst_n instr);
       emit_bytes REX_MUL_M;
       emitByte 0xa6;
       x86_genAddressImm instr });
     emit_bytes REX_MOV_R64R;
     emitByte (0xc2 + 8 * dst_n instr) }"

definition x86_ISMULH_R :: "Instruction \<Rightarrow> nat \<Rightarrow> emitter" where
  "x86_ISMULH_R instr i = do {
     set_usage (dst_n instr) i;
     emit_bytes REX_MOV_RR64;
     emitByte (0xc0 + dst_n instr);
     emit_bytes REX_MUL_R;
     emitByte (0xe8 + src_n instr);
     emit_bytes REX_MOV_R64R;
     emitByte (0xc2 + 8 * dst_n instr) }"

definition x86_ISMULH_M :: "Instruction \<Rightarrow> nat \<Rightarrow> emitter" where
  "x86_ISMULH_M instr i = do {
     set_usage (dst_n instr) i;
     (if src_n instr \<noteq> dst_n instr then do {
       x86_genAddressReg instr False;
       emit_bytes REX_MOV_RR64;
       emitByte (0xc0 + dst_n instr);
       emit_bytes REX_IMUL_MEM
     } else do {
       emit_bytes REX_MOV_RR64;
       emitByte (0xc0 + dst_n instr);
       emit_bytes REX_MUL_M;
       emitByte 0xae;
       x86_genAddressImm instr });
     emit_bytes REX_MOV_R64R;
     emitByte (0xc2 + 8 * dst_n instr) }"

text \<open>
  On x86-64 \<^verbatim>\<open>randomx_reciprocal_fast\<close> is the assembly routine that the comment in
  \<^verbatim>\<open>reciprocal.c\<close> shows: the quotient of the 128-bit number with high word
  \<open>2 ^ bsr(divisor)\<close> and low word 0.
\<close>

definition bsr :: "u32 \<Rightarrow> nat" where "bsr d = 63 - clz64 (ucast d)"

definition randomx_reciprocal_asm :: "u32 \<Rightarrow> u64" where
  "randomx_reciprocal_asm d = ucast ((push_bit 64 (push_bit (bsr d) 1) :: 128 word) div ucast d)"

definition x86_IMUL_RCP :: "Instruction \<Rightarrow> nat \<Rightarrow> emitter" where
  "x86_IMUL_RCP instr i =
    (let divisor = getImm32 instr
     in if \<not> isZeroOrPowerOf2 (ucast divisor) then do {
          set_usage (dst_n instr) i;
          emit_bytes MOV_RAX_I;
          emit64 (randomx_reciprocal_asm divisor);
          emit_bytes REX_IMUL_RM;
          emitByte (0xc0 + 8 * dst_n instr)
        } else State_Monad.return ())"

definition x86_INEG_R :: "Instruction \<Rightarrow> nat \<Rightarrow> emitter" where
  "x86_INEG_R instr i = do {
     set_usage (dst_n instr) i;
     emit_bytes REX_NEG;
     emitByte (0xd8 + dst_n instr) }"

definition x86_IXOR_R :: "Instruction \<Rightarrow> nat \<Rightarrow> emitter" where
  "x86_IXOR_R instr i = do {
     set_usage (dst_n instr) i;
     if src_n instr \<noteq> dst_n instr then do {
       emit_bytes REX_XOR_RR;
       emitByte (0xc0 + 8 * dst_n instr + src_n instr)
     } else do {
       emit_bytes REX_XOR_RI;
       emitByte (0xf0 + dst_n instr);
       emit32 (getImm32 instr) } }"

definition x86_IXOR_M :: "Instruction \<Rightarrow> nat \<Rightarrow> emitter" where
  "x86_IXOR_M instr i = do {
     set_usage (dst_n instr) i;
     if src_n instr \<noteq> dst_n instr then do {
       x86_genAddressReg instr True;
       emit_bytes REX_XOR_RM;
       emitByte (0x04 + 8 * dst_n instr);
       emitByte 0x06
     } else do {
       emit_bytes REX_XOR_RM;
       emitByte (0x86 + 8 * dst_n instr);
       x86_genAddressImm instr } }"

definition x86_IROR_R :: "Instruction \<Rightarrow> nat \<Rightarrow> emitter" where
  "x86_IROR_R instr i = do {
     set_usage (dst_n instr) i;
     if src_n instr \<noteq> dst_n instr then do {
       emit_bytes REX_MOV_RR;
       emitByte (0xc8 + src_n instr);
       emit_bytes REX_ROT_CL;
       emitByte (0xc8 + dst_n instr)
     } else do {
       emit_bytes REX_ROT_I8;
       emitByte (0xc8 + dst_n instr);
       emitByte (unat (getImm32 instr AND 63)) } }"

definition x86_IROL_R :: "Instruction \<Rightarrow> nat \<Rightarrow> emitter" where
  "x86_IROL_R instr i = do {
     set_usage (dst_n instr) i;
     if src_n instr \<noteq> dst_n instr then do {
       emit_bytes REX_MOV_RR;
       emitByte (0xc8 + src_n instr);
       emit_bytes REX_ROT_CL;
       emitByte (0xc0 + dst_n instr)
     } else do {
       emit_bytes REX_ROT_I8;
       emitByte (0xc0 + dst_n instr);
       emitByte (unat (getImm32 instr AND 63)) } }"

definition x86_ISWAP_R :: "Instruction \<Rightarrow> nat \<Rightarrow> emitter" where
  "x86_ISWAP_R instr i =
    (if src_n instr \<noteq> dst_n instr then do {
       set_usage (dst_n instr) i;
       set_usage (src_n instr) i;
       emit_bytes REX_XCHG;
       emitByte (0xc0 + src_n instr + 8 * dst_n instr)
     } else State_Monad.return ())"

definition x86_FSWAP_R :: "Instruction \<Rightarrow> nat \<Rightarrow> emitter" where
  "x86_FSWAP_R instr i = do {
     emit_bytes SHUFPD;
     emitByte (0xc0 + 9 * dst_n instr);
     emitByte 1 }"

definition x86_FADD_R :: "Instruction \<Rightarrow> nat \<Rightarrow> emitter" where
  "x86_FADD_R instr0 i =
    (let instr = reduce_src RegisterCountFlt (reduce_dst RegisterCountFlt instr0) in do {
       emit_bytes REX_ADDPD;
       emitByte (0xc0 + src_n instr + 8 * dst_n instr) })"

definition x86_FADD_M :: "Instruction \<Rightarrow> nat \<Rightarrow> emitter" where
  "x86_FADD_M instr0 i =
    (let instr = reduce_dst RegisterCountFlt instr0 in do {
       x86_genAddressReg instr True;
       emit_bytes REX_CVTDQ2PD_XMM12;
       emit_bytes REX_ADDPD;
       emitByte (0xc4 + 8 * dst_n instr) })"

definition x86_FSUB_R :: "Instruction \<Rightarrow> nat \<Rightarrow> emitter" where
  "x86_FSUB_R instr0 i =
    (let instr = reduce_src RegisterCountFlt (reduce_dst RegisterCountFlt instr0) in do {
       emit_bytes REX_SUBPD;
       emitByte (0xc0 + src_n instr + 8 * dst_n instr) })"

definition x86_FSUB_M :: "Instruction \<Rightarrow> nat \<Rightarrow> emitter" where
  "x86_FSUB_M instr0 i =
    (let instr = reduce_dst RegisterCountFlt instr0 in do {
       x86_genAddressReg instr True;
       emit_bytes REX_CVTDQ2PD_XMM12;
       emit_bytes REX_SUBPD;
       emitByte (0xc4 + 8 * dst_n instr) })"

definition x86_FSCAL_R :: "Instruction \<Rightarrow> nat \<Rightarrow> emitter" where
  "x86_FSCAL_R instr0 i =
    (let instr = reduce_dst RegisterCountFlt instr0 in do {
       emit_bytes REX_XORPS;
       emitByte (0xc7 + 8 * dst_n instr) })"

definition x86_FMUL_R :: "Instruction \<Rightarrow> nat \<Rightarrow> emitter" where
  "x86_FMUL_R instr0 i =
    (let instr = reduce_src RegisterCountFlt (reduce_dst RegisterCountFlt instr0) in do {
       emit_bytes REX_MULPD;
       emitByte (0xe0 + src_n instr + 8 * dst_n instr) })"

definition x86_FDIV_M :: "Instruction \<Rightarrow> nat \<Rightarrow> emitter" where
  "x86_FDIV_M instr0 i =
    (let instr = reduce_dst RegisterCountFlt instr0 in do {
       x86_genAddressReg instr True;
       emit_bytes REX_CVTDQ2PD_XMM12;
       emit_bytes REX_ANDPS_XMM12;
       emit_bytes REX_DIVPD;
       emitByte (0xe4 + 8 * dst_n instr) })"

definition x86_FSQRT_R :: "Instruction \<Rightarrow> nat \<Rightarrow> emitter" where
  "x86_FSQRT_R instr0 i =
    (let instr = reduce_dst RegisterCountFlt instr0 in do {
       emit_bytes SQRTPD;
       emitByte (0xe4 + 9 * dst_n instr) })"

definition x86_CFROUND :: "Instruction \<Rightarrow> nat \<Rightarrow> emitter" where
  "x86_CFROUND instr i = do {
     emit_bytes REX_MOV_RR64;
     emitByte (0xc0 + src_n instr);
     let rotate = unat ((13 - (getImm32 instr AND 63)) AND 63);
     (if rotate \<noteq> 0 then do {
       emit_bytes ROL_RAX;
       emitByte rotate
     } else State_Monad.return ());
     flags \<leftarrow> gets j_flags;
     (if has_flag flags RANDOMX_FLAG_V2 then do {
       emit_bytes TEST_EAX_60SL13;
       emitByte JNZ_SHORT;
       emitByte (length AND_OR_MOV_LDMXCSR)
     } else State_Monad.return ());
     emit_bytes AND_OR_MOV_LDMXCSR }"

definition x86_CBRANCH :: "Instruction \<Rightarrow> nat \<Rightarrow> emitter" where
  "x86_CBRANCH instr i = do {
     let reg = dst_n instr;
     usage \<leftarrow> gets j_usage;
     let target = usage reg + 1;
     emit_bytes REX_ADD_I;
     emitByte (0xc0 + reg);
     let shift = getModCond instr + ConditionOffset;
     let imm = getImm32 instr OR push_bit shift 1;
     emit32 (if ConditionOffset > 0 \<or> shift > 0 then imm AND NOT (push_bit (shift - 1) 1) else imm);
     emit_bytes REX_TEST;
     emitByte (0xc0 + reg);
     emit32 (push_bit shift ConditionMask);
     emit_bytes JZ;
     offsets \<leftarrow> gets j_offsets;
     pos \<leftarrow> gets j_pos;
     emit32 (word_of_int (int (offsets ! nat target) - (int pos + 4)));
     for_each (\<lambda>r. set_usage r i) [0..<RegistersCount] }"

definition x86_ISTORE :: "Instruction \<Rightarrow> nat \<Rightarrow> emitter" where
  "x86_ISTORE instr i = do {
     x86_genAddressRegDst instr;
     emit_bytes REX_MOV_MR;
     emitByte (0x04 + 8 * src_n instr);
     emitByte 0x06 }"

definition x86_NOP :: "Instruction \<Rightarrow> nat \<Rightarrow> emitter" where
  "x86_NOP instr i = emit_bytes NOP1"

fun x86_generator :: "InstructionType \<Rightarrow> Instruction \<Rightarrow> nat \<Rightarrow> emitter" where
  "x86_generator IADD_RS = x86_IADD_RS" | "x86_generator IADD_M = x86_IADD_M"
| "x86_generator ISUB_R = x86_ISUB_R" | "x86_generator ISUB_M = x86_ISUB_M"
| "x86_generator IMUL_R = x86_IMUL_R" | "x86_generator IMUL_M = x86_IMUL_M"
| "x86_generator IMULH_R = x86_IMULH_R" | "x86_generator IMULH_M = x86_IMULH_M"
| "x86_generator ISMULH_R = x86_ISMULH_R" | "x86_generator ISMULH_M = x86_ISMULH_M"
| "x86_generator IMUL_RCP = x86_IMUL_RCP" | "x86_generator INEG_R = x86_INEG_R"
| "x86_generator IXOR_R = x86_IXOR_R" | "x86_generator IXOR_M = x86_IXOR_M"
| "x86_generator IROR_R = x86_IROR_R" | "x86_generator IROL_R = x86_IROL_R"
| "x86_generator ISWAP_R = x86_ISWAP_R" | "x86_generator FSWAP_R = x86_FSWAP_R"
| "x86_generator FADD_R = x86_FADD_R" | "x86_generator FADD_M = x86_FADD_M"
| "x86_generator FSUB_R = x86_FSUB_R" | "x86_generator FSUB_M = x86_FSUB_M"
| "x86_generator FSCAL_R = x86_FSCAL_R" | "x86_generator FMUL_R = x86_FMUL_R"
| "x86_generator FDIV_M = x86_FDIV_M" | "x86_generator FSQRT_R = x86_FSQRT_R"
| "x86_generator CBRANCH = x86_CBRANCH" | "x86_generator CFROUND = x86_CFROUND"
| "x86_generator ISTORE = x86_ISTORE" | "x86_generator NOP = x86_NOP"

text \<open>The table \<^verbatim>\<open>engine[256]\<close>.\<close>

definition x86_engine :: "(Instruction \<Rightarrow> nat \<Rightarrow> emitter) list" where
  "x86_engine = inst_table x86_generator"

definition generateCode :: "Instruction \<Rightarrow> nat \<Rightarrow> emitter" where
  "generateCode instr i = do {
     State_Monad.update (\<lambda>j. j\<lparr>j_offsets := j_offsets j @ [j_pos j]\<rparr>);
     (x86_engine ! unat (i_opcode instr)) instr i }"

section \<open>Superscalar code\<close>

text \<open>\<open>None\<close> is \<^verbatim>\<open>UNREACHABLE\<close> or a read outside the reciprocal cache.\<close>

definition generateSuperscalarCode :: "Instruction \<Rightarrow> u64 list \<Rightarrow> emitter option" where
  "generateSuperscalarCode instr reciprocalCache =
    (case stype_of (unat (i_opcode instr)) of
       Some S_ISUB_R \<Rightarrow> Some (do {
         emit_bytes REX_SUB_RR;
         emitByte (0xc0 + 8 * dst_n instr + src_n instr) })
     | Some S_IXOR_R \<Rightarrow> Some (do {
         emit_bytes REX_XOR_RR;
         emitByte (0xc0 + 8 * dst_n instr + src_n instr) })
     | Some S_IADD_RS \<Rightarrow> Some (do {
         emit_bytes REX_LEA;
         emitByte (0x04 + 8 * dst_n instr);
         x86_genSIB (getModShift instr) (src_n instr) (dst_n instr) })
     | Some S_IMUL_R \<Rightarrow> Some (do {
         emit_bytes REX_IMUL_RR;
         emitByte (0xc0 + 8 * dst_n instr + src_n instr) })
     | Some S_IROR_C \<Rightarrow> Some (do {
         emit_bytes REX_ROT_I8;
         emitByte (0xc8 + dst_n instr);
         emitByte (unat (getImm32 instr AND 63)) })
     | Some S_IADD_C7 \<Rightarrow> Some (do {
         emit_bytes REX_81;
         emitByte (0xc0 + dst_n instr);
         emit32 (getImm32 instr) })
     | Some S_IXOR_C7 \<Rightarrow> Some (do {
         emit_bytes REX_XOR_RI;
         emitByte (0xf0 + dst_n instr);
         emit32 (getImm32 instr) })
     | Some S_IADD_C8 \<Rightarrow> Some (do {
         emit_bytes REX_81;
         emitByte (0xc0 + dst_n instr);
         emit32 (getImm32 instr) })
     | Some S_IXOR_C8 \<Rightarrow> Some (do {
         emit_bytes REX_XOR_RI;
         emitByte (0xf0 + dst_n instr);
         emit32 (getImm32 instr) })
     | Some S_IADD_C9 \<Rightarrow> Some (do {
         emit_bytes REX_81;
         emitByte (0xc0 + dst_n instr);
         emit32 (getImm32 instr) })
     | Some S_IXOR_C9 \<Rightarrow> Some (do {
         emit_bytes REX_XOR_RI;
         emitByte (0xf0 + dst_n instr);
         emit32 (getImm32 instr) })
     | Some S_IMULH_R \<Rightarrow> Some (do {
         emit_bytes REX_MOV_RR64;
         emitByte (0xc0 + dst_n instr);
         emit_bytes REX_MUL_R;
         emitByte (0xe0 + src_n instr);
         emit_bytes REX_MOV_R64R;
         emitByte (0xc2 + 8 * dst_n instr) })
     | Some S_ISMULH_R \<Rightarrow> Some (do {
         emit_bytes REX_MOV_RR64;
         emitByte (0xc0 + dst_n instr);
         emit_bytes REX_MUL_R;
         emitByte (0xe8 + src_n instr);
         emit_bytes REX_MOV_R64R;
         emitByte (0xc2 + 8 * dst_n instr) })
     | Some S_IMUL_RCP \<Rightarrow>
         (if unat (getImm32 instr) < length reciprocalCache then Some (do {
            emit_bytes MOV_RAX_I;
            emit64 (reciprocalCache ! unat (getImm32 instr));
            emit_bytes REX_IMUL_RM;
            emitByte (0xc0 + 8 * dst_n instr) })
          else None)
     | _ \<Rightarrow> None)"

fun in_order :: "emitter option list \<Rightarrow> emitter option" where
  "in_order [] = Some (State_Monad.return ())"
| "in_order (m # ms) = (case (m, in_order ms) of
      (Some a, Some b) \<Rightarrow> Some (do { a; b })
    | _ \<Rightarrow> None)"

definition superscalar_body :: "static_code \<Rightarrow> SuperscalarProgram list \<Rightarrow> u64 list \<Rightarrow> nat \<Rightarrow> emitter option list" where
  "superscalar_body sc programs reciprocalCache j =
    (let prog = programs ! j
     in map (\<lambda>i. generateSuperscalarCode (sp_buffer prog ! i) reciprocalCache) [0..<sp_size prog] @
        [Some (emit_bytes (codeShhLoad sc)),
         Some (if j < length programs - 1 then do {
                 emit_bytes REX_MOV_RR64;
                 emitByte (0xd8 + sp_addrReg prog);
                 emit_bytes (codeShhPrefetch sc)
               } else State_Monad.return ())])"

definition generateSuperscalarHash :: "static_code \<Rightarrow> SuperscalarProgram list \<Rightarrow> u64 list \<Rightarrow> emitter option" where
  "generateSuperscalarHash sc programs reciprocalCache =
    in_order ([Some (copy_to superScalarHashOffset (codeShhInit sc)),
               Some (set_pos (superScalarHashOffset + length (codeShhInit sc)))]
      @ concat (map (superscalar_body sc programs reciprocalCache) [0..<length programs])
      @ [Some (emitByte RET)])"

definition generateDatasetInitCode :: "static_code \<Rightarrow> emitter" where
  "generateDatasetInitCode sc = copy_to 0 (codeDatasetInit sc)"

section \<open>Whole programs\<close>

text \<open>The constructor: a buffer of the system's pages, with the first and the last block in place.\<close>

definition JitCompilerX86 :: "static_code \<Rightarrow> mem \<Rightarrow> u32 \<Rightarrow> jit_compiler" where
  "JitCompilerX86 sc pages flags = \<lparr>j_offsets = [], j_usage = (\<lambda>_. 0),
     j_code = write_bytes (write_bytes pages 0 (codePrologue sc)) (epilogueOffset sc) (codeEpilogue sc),
     j_pos = 0, j_flags = flags\<rparr>"

definition setFlags :: "u32 \<Rightarrow> emitter" where
  "setFlags f = State_Monad.update (\<lambda>j. j\<lparr>j_flags := f\<rparr>)"

definition reduced :: "Instruction \<Rightarrow> Instruction" where
  "reduced instr = reduce_dst RegistersCount (reduce_src RegistersCount instr)"

definition generateProgramPrologue :: "static_code \<Rightarrow> Instruction list \<Rightarrow> ProgramConfiguration \<Rightarrow> emitter" where
  "generateProgramPrologue sc prog pcfg = do {
     State_Monad.update (\<lambda>j. j\<lparr>j_offsets := []\<rparr>);
     State_Monad.update (\<lambda>j. j\<lparr>j_usage := (\<lambda>r. if r < RegistersCount then -1 else j_usage j r)\<rparr>);
     set_pos (length (codePrologue sc));
     copy_to (length (codePrologue sc) - 48) (bytes64 (eMask0 pcfg) @ bytes64 (eMask1 pcfg));
     emit_bytes (codeLoopLoad sc);
     flags \<leftarrow> gets j_flags;
     for_each (\<lambda>i. generateCode (reduced (prog ! i)) i) [0..<program_size flags];
     emit_bytes REX_MOV_RR;
     emitByte (0xc0 + readReg2 pcfg);
     emit_bytes REX_XOR_EAX;
     emitByte (0xc0 + readReg3 pcfg) }"

definition generateProgramEpilogue :: "static_code \<Rightarrow> Instruction list \<Rightarrow> ProgramConfiguration \<Rightarrow> emitter" where
  "generateProgramEpilogue sc prog pcfg = do {
     emit_bytes REX_MOV_RR64;
     emitByte (0xc0 + readReg0 pcfg);
     emit_bytes REX_XOR_RAX_R64;
     emitByte (0xc0 + readReg1 pcfg);
     emit_bytes (codePrefetchScratchpad sc);
     flags \<leftarrow> gets j_flags;
     (if has_flag flags RANDOMX_FLAG_V2
      then if has_flag flags RANDOMX_FLAG_HARD_AES then emit_bytes (codeLoopStoreHardAes sc)
           else emit_bytes (codeLoopStoreSoftAes sc)
      else emit_bytes (codeLoopStore sc));
     emit_bytes SUB_EBX;
     emit_bytes JNZ;
     p \<leftarrow> gets j_pos;
     emit32 (word_of_int (int (length (codePrologue sc)) - int p - 4));
     emitByte JMP;
     p \<leftarrow> gets j_pos;
     emit32 (word_of_int (int (epilogueOffset sc) - int p - 4));
     if has_flag flags RANDOMX_FLAG_V2 \<and> \<not> has_flag flags RANDOMX_FLAG_HARD_AES then do {
       emit_bytes (codeSoftAes sc);
       emit64 (lutEncAddress sc);
       emit64 (lutDecAddress sc)
     } else State_Monad.return () }"

definition jit_generateProgram :: "static_code \<Rightarrow> Instruction list \<Rightarrow> ProgramConfiguration \<Rightarrow> emitter" where
  "jit_generateProgram sc prog pcfg = do {
     generateProgramPrologue sc prog pcfg;
     flags \<leftarrow> gets j_flags;
     (if has_flag flags RANDOMX_FLAG_V2 then emit_bytes (codeReadDatasetV2 sc)
     else emit_bytes (codeReadDataset sc));
     generateProgramEpilogue sc prog pcfg }"

definition generateProgramLight :: "static_code \<Rightarrow> Instruction list \<Rightarrow> ProgramConfiguration \<Rightarrow> u32 \<Rightarrow> emitter" where
  "generateProgramLight sc prog pcfg datasetOffset = do {
     generateProgramPrologue sc prog pcfg;
     flags \<leftarrow> gets j_flags;
     (if has_flag flags RANDOMX_FLAG_V2 then emit_bytes (codeReadDatasetLightSshInitV2 sc)
     else emit_bytes (codeReadDatasetLightSshInit sc));
     emit_bytes ADD_EBX_I;
     emit32 (datasetOffset div of_nat CacheLineSize);
     emitByte CALL;
     p \<leftarrow> gets j_pos;
     emit32 (word_of_int (int superScalarHashOffset - (int p + 4)));
     emit_bytes (codeReadDatasetLightSshFin sc);
     generateProgramEpilogue sc prog pcfg }"

end
