(* ===== verification/X86.thy ===== *)
theory X86
  imports Jit_X86
begin

text \<open>
  The target of the x86-64 compiler: the instructions of the processor that the compiler
  emits, their byte encoding and their effect, as the processor manuals document them. The
  decoder reads the optional \<^verbatim>\<open>66\<close>/\<^verbatim>\<open>F3\<close> prefix, the REX prefix, the opcode,
  the ModR/M and SIB bytes, the displacement and the immediate; what it does not know is
  \<open>None\<close>, on which the machine stops. Floating-point arithmetic is the same parameter
  \<open>fpu\<close> that the interpreter computes with.
\<close>

section \<open>Instructions\<close>

datatype alu_op = A_ADD | A_SUB | A_XOR | A_AND | A_OR

text \<open>Base register, scaled index register, displacement.\<close>

datatype address = Addr nat "(nat \<times> nat) option" u64
datatype operand = Reg nat | Mem address

datatype packed_op = P_ADDPD | P_SUBPD | P_MULPD | P_DIVPD | P_SQRTPD | P_ANDPS | P_ORPS | P_XORPS

text \<open>A flag tells the 64-bit form (\<open>True\<close>) from the 32-bit form, which clears the upper half
  of its destination.\<close>

datatype xinsn =
    X_ALU alu_op bool nat operand
  | X_ALU_I alu_op bool nat u64
  | X_MOV bool nat operand
  | X_MOV_I nat u64
  | X_STORE bool address nat
  | X_LEA bool nat address
  | X_IMUL nat operand
  | X_IMUL_I nat operand u64
  | X_MUL1 operand
  | X_IMUL1 operand
  | X_NEG nat
  | X_TEST_I bool nat u64
  | X_ROT bool nat "nat option"
  | X_XCHG nat nat
  | X_NOP
  | X_JZ int
  | X_JNZ int
  | X_SHUFPD nat nat nat
  | X_PACKED packed_op nat nat
  | X_CVTDQ2PD nat address
  | X_LDMXCSR address

section \<open>Machine state and effects\<close>

text \<open>\<open>x_zf\<close> is \<open>None\<close> while the zero flag is undefined.\<close>

record xstate =
  x_reg :: "nat \<Rightarrow> u64"
  x_xmm :: "nat \<Rightarrow> vec128"
  x_mem :: "u64 \<Rightarrow> u8"
  x_zf :: "bool option"
  x_mxcsr :: u32

definition x_load64 :: "(u64 \<Rightarrow> u8) \<Rightarrow> u64 \<Rightarrow> u64" where
  "x_load64 m a = load64 (\<lambda>k. m (a + of_nat k)) 0"

definition x_load32 :: "(u64 \<Rightarrow> u8) \<Rightarrow> u64 \<Rightarrow> u32" where
  "x_load32 m a = load32 (\<lambda>k. m (a + of_nat k)) 0"

definition x_store :: "(u64 \<Rightarrow> u8) \<Rightarrow> u64 \<Rightarrow> u8 list \<Rightarrow> u64 \<Rightarrow> u8" where
  "x_store m a bs = (\<lambda>b. let k = unat (b - a) in if k < length bs then bs ! k else m b)"

definition low32 :: "u64 \<Rightarrow> u64" where "low32 x = ucast (ucast x :: u32)"

definition sized :: "bool \<Rightarrow> u64 \<Rightarrow> u64" where "sized w x = (if w then x else low32 x)"

fun ea :: "xstate \<Rightarrow> address \<Rightarrow> u64" where
  "ea st (Addr b None d) = x_reg st b + d"
| "ea st (Addr b (Some (i, s)) d) = x_reg st b + push_bit s (x_reg st i) + d"

fun operand_value :: "bool \<Rightarrow> xstate \<Rightarrow> operand \<Rightarrow> u64" where
  "operand_value w st (Reg r) = sized w (x_reg st r)"
| "operand_value w st (Mem a) = (if w then x_load64 (x_mem st) (ea st a) else ucast (x_load32 (x_mem st) (ea st a)))"

fun alu :: "alu_op \<Rightarrow> u64 \<Rightarrow> u64 \<Rightarrow> u64" where
  "alu A_ADD a b = a + b" | "alu A_SUB a b = a - b" | "alu A_XOR a b = a XOR b"
| "alu A_AND a b = a AND b" | "alu A_OR a b = a OR b"

definition set_reg :: "nat \<Rightarrow> u64 \<Rightarrow> xstate \<Rightarrow> xstate" where
  "set_reg r v st = st\<lparr>x_reg := (x_reg st)(r := v)\<rparr>"

definition set_xmm :: "nat \<Rightarrow> vec128 \<Rightarrow> xstate \<Rightarrow> xstate" where
  "set_xmm r v st = st\<lparr>x_xmm := (x_xmm st)(r := v)\<rparr>"

definition set_zf :: "bool option \<Rightarrow> xstate \<Rightarrow> xstate" where
  "set_zf z st = st\<lparr>x_zf := z\<rparr>"

definition rounding :: "xstate \<Rightarrow> u32" where
  "rounding st = drop_bit 13 (x_mxcsr st) AND 3"

fun packed :: "fpu \<Rightarrow> u32 \<Rightarrow> packed_op \<Rightarrow> vec128 \<Rightarrow> vec128 \<Rightarrow> vec128" where
  "packed fp rm P_ADDPD d s = lanes2 (fp_add fp rm) d s"
| "packed fp rm P_SUBPD d s = lanes2 (fp_sub fp rm) d s"
| "packed fp rm P_MULPD d s = lanes2 (fp_mul fp rm) d s"
| "packed fp rm P_DIVPD d s = lanes2 (fp_div fp rm) d s"
| "packed fp rm P_SQRTPD d s = (fp_sqrt fp rm (fst s), fp_sqrt fp rm (snd s))"
| "packed fp rm P_ANDPS d s = lanes2 (AND) d s"
| "packed fp rm P_ORPS d s = lanes2 (OR) d s"
| "packed fp rm P_XORPS d s = lanes2 (XOR) d s"

definition lane :: "vec128 \<Rightarrow> bool \<Rightarrow> u64" where "lane v hi = (if hi then snd v else fst v)"

text \<open>Registers 0, 1, 2 are \<^verbatim>\<open>rax\<close>, \<^verbatim>\<open>rcx\<close> and \<^verbatim>\<open>rdx\<close>. Jumps have no
  effect but on the program counter.\<close>

fun xexec :: "fpu \<Rightarrow> xinsn \<Rightarrow> xstate \<Rightarrow> xstate" where
  "xexec fp (X_ALU aop w d src) st =
     (let v = sized w (alu aop (sized w (x_reg st d)) (operand_value w st src))
      in set_zf (Some (v = 0)) (set_reg d v st))"
| "xexec fp (X_ALU_I aop w d imm) st =
     (let v = sized w (alu aop (sized w (x_reg st d)) (sized w imm))
      in set_zf (Some (v = 0)) (set_reg d v st))"
| "xexec fp (X_MOV w d src) st = set_reg d (operand_value w st src) st"
| "xexec fp (X_MOV_I d imm) st = set_reg d imm st"
| "xexec fp (X_STORE w a s) st = st\<lparr>x_mem := x_store (x_mem st) (ea st a)
     (if w then bytes64 (x_reg st s) else bytes32 (ucast (x_reg st s)))\<rparr>"
| "xexec fp (X_LEA w d a) st = set_reg d (sized w (ea st a)) st"
| "xexec fp (X_IMUL d src) st = set_zf None (set_reg d (x_reg st d * operand_value True st src) st)"
| "xexec fp (X_IMUL_I d src imm) st = set_zf None (set_reg d (operand_value True st src * imm) st)"
| "xexec fp (X_MUL1 src) st =
     (let a = x_reg st 0; b = operand_value True st src
      in set_zf None (set_reg 2 (mulh a b) (set_reg 0 (a * b) st)))"
| "xexec fp (X_IMUL1 src) st =
     (let a = x_reg st 0; b = operand_value True st src
      in set_zf None (set_reg 2 (smulh a b) (set_reg 0 (a * b) st)))"
| "xexec fp (X_NEG d) st = (let v = - x_reg st d in set_zf (Some (v = 0)) (set_reg d v st))"
| "xexec fp (X_TEST_I w r imm) st = set_zf (Some (sized w (x_reg st r) AND sized w imm = 0)) st"
| "xexec fp (X_ROT left d c) st =
     (let k = (case c of None \<Rightarrow> unat (x_reg st 1) mod 64 | Some n \<Rightarrow> n mod 64)
      in set_reg d (if left then word_rotl k (x_reg st d) else word_rotr k (x_reg st d)) st)"
| "xexec fp (X_XCHG a b) st = set_reg a (x_reg st b) (set_reg b (x_reg st a) st)"
| "xexec fp X_NOP st = st"
| "xexec fp (X_JZ d) st = st"
| "xexec fp (X_JNZ d) st = st"
| "xexec fp (X_SHUFPD d s k) st =
     set_xmm d (lane (x_xmm st d) (odd k), lane (x_xmm st s) (odd (k div 2))) st"
| "xexec fp (X_PACKED p d s) st = set_xmm d (packed fp (rounding st) p (x_xmm st d) (x_xmm st s)) st"
| "xexec fp (X_CVTDQ2PD d a) st =
     set_xmm d (fp_of_int32 fp (x_load32 (x_mem st) (ea st a)), fp_of_int32 fp (x_load32 (x_mem st) (ea st a + 4))) st"
| "xexec fp (X_LDMXCSR a) st = st\<lparr>x_mxcsr := x_load32 (x_mem st) (ea st a)\<rparr>"

section \<open>Decoder\<close>

fun read32 :: "u8 list \<Rightarrow> (u32 \<times> u8 list) option" where
  "read32 (a # b # c # d # bs) = Some (load32 (\<lambda>k. [a, b, c, d] ! k) 0, bs)"
| "read32 _ = None"

fun read64 :: "u8 list \<Rightarrow> (u64 \<times> u8 list) option" where
  "read64 (a # b # c # d # e # f # g # h # bs) = Some (load64 (\<lambda>k. [a, b, c, d, e, f, g, h] ! k) 0, bs)"
| "read64 _ = None"

fun read8 :: "u8 list \<Rightarrow> (u8 \<times> u8 list) option" where
  "read8 (b # bs) = Some (b, bs)"
| "read8 [] = None"

definition displacement :: "nat \<Rightarrow> u8 list \<Rightarrow> (u64 \<times> u8 list) option" where
  "displacement m bs =
    (if m = 0 then Some (0, bs)
     else if m = 1 then map_option (\<lambda>(b, r). (scast b, r)) (read8 bs)
     else map_option (\<lambda>(v, r). (scast v, r)) (read32 bs))"

text \<open>The bits W, R, X, B of the REX prefix; the three fields of a ModR/M or SIB byte.\<close>

record rex_bits =
  rex_W :: bool
  rex_R :: nat
  rex_X :: nat
  rex_B :: nat

definition rex_of :: "u8 \<Rightarrow> rex_bits" where
  "rex_of b = \<lparr>rex_W = bit b 3, rex_R = (if bit b 2 then 8 else 0), rex_X = (if bit b 1 then 8 else 0),
     rex_B = (if bit b 0 then 8 else 0)\<rparr>"

definition no_rex :: rex_bits where "no_rex = \<lparr>rex_W = False, rex_R = 0, rex_X = 0, rex_B = 0\<rparr>"

definition top2 :: "u8 \<Rightarrow> nat" where "top2 b = unat b div 64"
definition mid3 :: "u8 \<Rightarrow> nat" where "mid3 b = unat b div 8 mod 8"
definition low3 :: "u8 \<Rightarrow> nat" where "low3 b = unat b mod 8"

text \<open>Addressing without a base register and relative to the program counter is not used.\<close>

definition decode_modrm :: "rex_bits \<Rightarrow> u8 list \<Rightarrow> (nat \<times> operand \<times> u8 list) option" where
  "decode_modrm rex bs = do {
     (m, bs) \<leftarrow> read8 bs;
     let reg = mid3 m + rex_R rex;
     if top2 m = 3 then Some (reg, Reg (low3 m + rex_B rex), bs)
     else if low3 m = 4 then do {
       (s, bs) \<leftarrow> read8 bs;
       if top2 m = 0 \<and> low3 s = 5 then None
       else do {
         (d, bs) \<leftarrow> displacement (top2 m) bs;
         let index = mid3 s + rex_X rex;
         Some (reg, Mem (Addr (low3 s + rex_B rex) (if index = 4 then None else Some (index, top2 s)) d), bs) } }
     else if top2 m = 0 \<and> low3 m = 5 then None
     else do {
       (d, bs) \<leftarrow> displacement (top2 m) bs;
       Some (reg, Mem (Addr (low3 m + rex_B rex) None d), bs) } }"

fun group1 :: "nat \<Rightarrow> alu_op option" where
  "group1 n = (if n = 0 then Some A_ADD else if n = 1 then Some A_OR else if n = 4 then Some A_AND
     else if n = 5 then Some A_SUB else if n = 6 then Some A_XOR else None)"

fun sse_op :: "bool \<Rightarrow> u8 \<Rightarrow> packed_op option" where
  "sse_op pd b =
    (if pd then (if b = 0x58 then Some P_ADDPD else if b = 0x5c then Some P_SUBPD
       else if b = 0x59 then Some P_MULPD else if b = 0x5e then Some P_DIVPD
       else if b = 0x51 then Some P_SQRTPD else None)
     else (if b = 0x54 then Some P_ANDPS else if b = 0x56 then Some P_ORPS
       else if b = 0x57 then Some P_XORPS else None))"

fun as_mem :: "operand \<Rightarrow> address option" where
  "as_mem (Mem a) = Some a" | "as_mem (Reg _) = None"

fun as_reg :: "operand \<Rightarrow> nat option" where
  "as_reg (Reg r) = Some r" | "as_reg (Mem _) = None"

text \<open>The two-byte opcodes \<^verbatim>\<open>0F ..\<close>.\<close>

definition decode_0f :: "u8 option \<Rightarrow> rex_bits \<Rightarrow> u8 list \<Rightarrow> (xinsn \<times> u8 list) option" where
  "decode_0f pre rex bs = do {
     (opc, bs) \<leftarrow> read8 bs;
     if opc = 0x84 then map_option (\<lambda>(v, r). (X_JZ (sint v), r)) (read32 bs)
     else if opc = 0x85 then map_option (\<lambda>(v, r). (X_JNZ (sint v), r)) (read32 bs)
     else do {
       (reg, rm, bs) \<leftarrow> decode_modrm rex bs;
       if opc = 0xaf \<and> rex_W rex then Some (X_IMUL reg rm, bs)
       else if opc = 0xc6 \<and> pre = Some 0x66 then do {
         s \<leftarrow> as_reg rm;
         (k, bs) \<leftarrow> read8 bs;
         Some (X_SHUFPD reg s (unat k), bs) }
       else if opc = 0xe6 \<and> pre = Some 0xf3 then do { a \<leftarrow> as_mem rm; Some (X_CVTDQ2PD reg a, bs) }
       else if opc = 0xae \<and> reg = 2 then do { a \<leftarrow> as_mem rm; Some (X_LDMXCSR a, bs) }
       else if pre = Some 0xf3 then None
       else do {
         s \<leftarrow> as_reg rm;
         p \<leftarrow> sse_op (pre = Some 0x66) opc;
         Some (X_PACKED p reg s, bs) } } }"

definition decode_opcode :: "u8 option \<Rightarrow> rex_bits \<Rightarrow> u8 list \<Rightarrow> (xinsn \<times> u8 list) option" where
  "decode_opcode pre rex bs = do {
     (opc, bs) \<leftarrow> read8 bs;
     if opc = 0x0f then decode_0f pre rex bs
     else if opc = 0x90 then Some (X_NOP, bs)
     else if pre \<noteq> None then None
     else if opc = 0x25 then map_option (\<lambda>(v, r). (X_ALU_I A_AND (rex_W rex) 0 (scast v), r)) (read32 bs)
     else if opc = 0x0d then map_option (\<lambda>(v, r). (X_ALU_I A_OR (rex_W rex) 0 (scast v), r)) (read32 bs)
     else if opc = 0xa9 then map_option (\<lambda>(v, r). (X_TEST_I (rex_W rex) 0 (scast v), r)) (read32 bs)
     else if opc = 0x75 then map_option (\<lambda>(b, r). (X_JNZ (sint b), r)) (read8 bs)
     else if unat opc div 8 = 23 \<and> rex_W rex
       then map_option (\<lambda>(v, r). (X_MOV_I (unat opc mod 8 + rex_B rex) v, r)) (read64 bs)
     else do {
       (reg, rm, bs) \<leftarrow> decode_modrm rex bs;
       if opc = 0x03 then Some (X_ALU A_ADD (rex_W rex) reg rm, bs)
       else if opc = 0x2b then Some (X_ALU A_SUB (rex_W rex) reg rm, bs)
       else if opc = 0x33 then Some (X_ALU A_XOR (rex_W rex) reg rm, bs)
       else if opc = 0x8b then Some (X_MOV (rex_W rex) reg rm, bs)
       else if opc = 0x89 then do { a \<leftarrow> as_mem rm; Some (X_STORE (rex_W rex) a reg, bs) }
       else if opc = 0x8d then do { a \<leftarrow> as_mem rm; Some (X_LEA (rex_W rex) reg a, bs) }
       else if opc = 0x87 \<and> rex_W rex then do { r \<leftarrow> as_reg rm; Some (X_XCHG r reg, bs) }
       else if opc = 0x69 \<and> rex_W rex then do { (v, bs) \<leftarrow> read32 bs; Some (X_IMUL_I reg rm (scast v), bs) }
       else if opc = 0x81 then do {
         aop \<leftarrow> group1 (reg mod 8);
         r \<leftarrow> as_reg rm;
         (v, bs) \<leftarrow> read32 bs;
         Some (X_ALU_I aop (rex_W rex) r (scast v), bs) }
       else if opc = 0xc1 \<and> rex_W rex \<and> reg mod 8 < 2 then do {
         r \<leftarrow> as_reg rm;
         (k, bs) \<leftarrow> read8 bs;
         Some (X_ROT (reg mod 8 = 0) r (Some (unat k)), bs) }
       else if opc = 0xd3 \<and> rex_W rex \<and> reg mod 8 < 2 then do {
         r \<leftarrow> as_reg rm;
         Some (X_ROT (reg mod 8 = 0) r None, bs) }
       else if opc = 0xf7 \<and> rex_W rex then
         (if reg mod 8 = 0 then do {
            r \<leftarrow> as_reg rm;
            (v, bs) \<leftarrow> read32 bs;
            Some (X_TEST_I True r (scast v), bs) }
          else if reg mod 8 = 3 then do { r \<leftarrow> as_reg rm; Some (X_NEG r, bs) }
          else if reg mod 8 = 4 then Some (X_MUL1 rm, bs)
          else if reg mod 8 = 5 then Some (X_IMUL1 rm, bs)
          else None)
       else None } }"

definition decode_rex :: "u8 option \<Rightarrow> u8 list \<Rightarrow> (xinsn \<times> u8 list) option" where
  "decode_rex pre bs = do {
     (b, r) \<leftarrow> read8 bs;
     if unat b div 16 = 4 then decode_opcode pre (rex_of b) r else decode_opcode pre no_rex bs }"

definition decode :: "u8 list \<Rightarrow> (xinsn \<times> u8 list) option" where
  "decode bs = do {
     (b, r) \<leftarrow> read8 bs;
     if b = 0x66 \<or> b = 0xf3 then decode_rex (Some b) r else decode_rex None bs }"

section \<open>Running machine code\<close>

text \<open>No instruction is longer than fifteen bytes.\<close>

definition fetch :: "mem \<Rightarrow> nat \<Rightarrow> (xinsn \<times> nat) option" where
  "fetch code ip = map_option (\<lambda>(insn, rest). (insn, 15 - length rest)) (decode (map code [ip..<ip + 15]))"

definition jump :: "nat \<Rightarrow> int \<Rightarrow> nat option" where
  "jump ip d = (if 0 \<le> int ip + d then Some (nat (int ip + d)) else None)"

definition next_ip :: "xinsn \<Rightarrow> nat \<Rightarrow> xstate \<Rightarrow> nat option" where
  "next_ip insn ip st = (case insn of
      X_JZ d \<Rightarrow> (case x_zf st of None \<Rightarrow> None | Some z \<Rightarrow> if z then jump ip d else Some ip)
    | X_JNZ d \<Rightarrow> (case x_zf st of None \<Rightarrow> None | Some z \<Rightarrow> if z then Some ip else jump ip d)
    | _ \<Rightarrow> Some ip)"

definition xstep :: "fpu \<Rightarrow> mem \<Rightarrow> nat \<times> xstate \<Rightarrow> (nat \<times> xstate) option" where
  "xstep fp code s = (case s of (ip, st) \<Rightarrow> do {
     (insn, len) \<leftarrow> fetch code ip;
     ip' \<leftarrow> next_ip insn (ip + len) st;
     Some (ip', xexec fp insn st) })"

fun xrun :: "fpu \<Rightarrow> mem \<Rightarrow> nat \<Rightarrow> nat \<times> xstate \<Rightarrow> (nat \<times> xstate) option" where
  "xrun fp code 0 s = Some s"
| "xrun fp code (Suc n) s = Option.bind (xstep fp code s) (xrun fp code n)"

lemma xrun_add: "xrun fp code (m + n) s = Option.bind (xrun fp code m s) (xrun fp code n)"
proof (induction m arbitrary: s)
  case (Suc m)
  then show ?case by (cases "xstep fp code s") simp_all
qed simp

end
