(* ===== verification/Jit_X86_Code.thy ===== *)
theory Jit_X86_Code
  imports X86 Bytecode_Facts
begin

text \<open>
  The bytes that the generators of \<open>Jit_X86\<close> emit, read back by the decoder of \<open>X86\<close>: for
  every kind of RandomX instruction the listing of the processor instructions its generator
  produces, the proof that the emitted bytes are the encodings of that listing, one after the
  other, and that the generator updates the register usage as the bytecode compiler does.
\<close>

section \<open>Bytes and fields\<close>

definition modrm :: "nat \<Rightarrow> nat \<Rightarrow> nat \<Rightarrow> u8" where "modrm m r b = of_nat (64 * m + 8 * r + b)"

lemma unat_modrm: "m < 4 \<Longrightarrow> r < 8 \<Longrightarrow> b < 8 \<Longrightarrow> unat (modrm m r b) = 64 * m + 8 * r + b"
  by (simp only: modrm_def unat_of_nat) simp

declare read32.simps [simp del] read64.simps [simp del]

lemma modrm_fields [simp]:
  assumes "m < 4" "r < 8" "b < 8"
  shows "top2 (modrm m r b) = m" "mid3 (modrm m r b) = r" "low3 (modrm m r b) = b"
proof -
  have e: "64 * m + 8 * r + b = 8 * (8 * m + r) + b" by simp
  then have d: "(64 * m + 8 * r + b) div 8 = 8 * m + r" using assms(3) by simp
  show "top2 (modrm m r b) = m" using assms by (simp add: top2_def unat_modrm)
  show "mid3 (modrm m r b) = r" using assms by (simp add: mid3_def unat_modrm d)
  show "low3 (modrm m r b) = b" using assms by (simp add: low3_def unat_modrm e del: distrib_left distrib_left_numeral)
qed

lemma read32_bytes [simp]: "read32 (bytes32 v @ r) = Some (v, r)"
proof -
  have "load32 (\<lambda>k. bytes32 v ! k) 0 = load32 (store32 (\<lambda>_. 0) 0 v) 0"
    by (rule c32.load_cong) (auto simp: store32_def bytes32_def less_Suc_eq numeral_eq_Suc)
  then show ?thesis by (simp only: bytes32_def append.simps read32.simps c32.load_store_same)
qed

lemma read64_bytes64 [simp]: "read64 (bytes64 v @ r) = Some (v, r)"
proof -
  have "load64 (\<lambda>k. bytes64 v ! k) 0 = load64 (store64 (\<lambda>_. 0) 0 v) 0"
    by (rule c64.load_cong) (auto simp: store64_def bytes64_def less_Suc_eq numeral_eq_Suc)
  then show ?thesis by (simp only: bytes64_def append.simps read64.simps c64.load_store_same)
qed

definition encodes :: "u8 list \<Rightarrow> xinsn \<Rightarrow> bool" where
  "encodes c i \<longleftrightarrow> length c \<le> 15 \<and> (\<forall>rest. decode (c @ rest) = Some (i, rest))"

lemmas decode_defs = decode_def decode_rex_def decode_opcode_def decode_0f_def decode_modrm_def rex_of_def no_rex_def
  displacement_def

lemma length_bytes [simp]: "length (bytes32 v) = 4" "length (bytes64 q) = 8"
  by (simp_all add: bytes32_def bytes64_def)

lemma encodes_registers [intro]:
  assumes "d < 8" "s < 8"
  shows "encodes (REX_SUB_RR @ [modrm 3 d s]) (X_ALU A_SUB True (d + 8) (Reg (s + 8)))"
    "encodes (REX_XOR_RR @ [modrm 3 d s]) (X_ALU A_XOR True (d + 8) (Reg (s + 8)))"
    "encodes (REX_IMUL_RR @ [modrm 3 d s]) (X_IMUL (d + 8) (Reg (s + 8)))"
    "encodes (REX_XCHG @ [modrm 3 d s]) (X_XCHG (s + 8) (d + 8))"
    "encodes (REX_ADDPD @ [modrm 3 d s]) (X_PACKED P_ADDPD d (s + 8))"
    "encodes (REX_SUBPD @ [modrm 3 d s]) (X_PACKED P_SUBPD d (s + 8))"
    "encodes (REX_MULPD @ [modrm 3 d s]) (X_PACKED P_MULPD d (s + 8))"
    "encodes (REX_DIVPD @ [modrm 3 d s]) (X_PACKED P_DIVPD d (s + 8))"
    "encodes (REX_XORPS @ [modrm 3 d s]) (X_PACKED P_XORPS d (s + 8))"
    "encodes (SQRTPD @ [modrm 3 d s]) (X_PACKED P_SQRTPD d s)"
    "encodes (SHUFPD @ [modrm 3 d s, 1]) (X_SHUFPD d s 1)"
    "encodes (REX_IMUL_RRI @ modrm 3 d s # bytes32 v) (X_IMUL_I (d + 8) (Reg (s + 8)) (scast v))"
  using assms by (simp_all add: encodes_def x86_const decode_defs)

lemma encodes_temporaries [intro]:
  assumes "d < 8"
  shows "encodes (REX_MOV_RR64 @ [modrm 3 0 d]) (X_MOV True 0 (Reg (d + 8)))"
    "encodes (REX_MUL_R @ [modrm 3 4 d]) (X_MUL1 (Reg (d + 8)))"
    "encodes (REX_MUL_R @ [modrm 3 5 d]) (X_IMUL1 (Reg (d + 8)))"
    "encodes (REX_MOV_R64R @ [modrm 3 d 2]) (X_MOV True (d + 8) (Reg 2))"
    "encodes (REX_IMUL_RM @ [modrm 3 d 0]) (X_IMUL (d + 8) (Reg 0))"
    "encodes (REX_NEG @ [modrm 3 3 d]) (X_NEG (d + 8))"
    "encodes (REX_MOV_RR @ [modrm 3 1 d]) (X_MOV False 1 (Reg (d + 8)))"
    "encodes (REX_ROT_CL @ [modrm 3 1 d]) (X_ROT False (d + 8) None)"
    "encodes (REX_ROT_CL @ [modrm 3 0 d]) (X_ROT True (d + 8) None)"
    "encodes (MOV_RAX_I @ bytes64 q) (X_MOV_I 0 q)"
  using assms by (simp_all add: encodes_def x86_const decode_defs)

lemma encodes_immediates [intro]:
  assumes "d < 8"
  shows "encodes (REX_81 @ modrm 3 0 d # bytes32 v) (X_ALU_I A_ADD True (d + 8) (scast v))"
    "encodes (REX_ADD_I @ modrm 3 0 d # bytes32 v) (X_ALU_I A_ADD True (d + 8) (scast v))"
    "encodes (REX_81 @ modrm 3 5 d # bytes32 v) (X_ALU_I A_SUB True (d + 8) (scast v))"
    "encodes (REX_XOR_RI @ modrm 3 6 d # bytes32 v) (X_ALU_I A_XOR True (d + 8) (scast v))"
    "encodes (REX_TEST @ modrm 3 0 d # bytes32 v) (X_TEST_I True (d + 8) (scast v))"
    "encodes (of_nat AND_EAX_I # bytes32 v) (X_ALU_I A_AND False 0 (scast v))"
    "encodes (JZ @ bytes32 v) (X_JZ (sint v))"
    "n < 64 \<Longrightarrow> encodes (REX_ROT_I8 @ [modrm 3 1 d, of_nat n]) (X_ROT False (d + 8) (Some n))"
    "n < 64 \<Longrightarrow> encodes (REX_ROT_I8 @ [modrm 3 0 d, of_nat n]) (X_ROT True (d + 8) (Some n))"
  using assms by (simp_all add: encodes_def x86_const decode_defs unat_of_nat)

lemma encodes_memory [intro]:
  assumes "d < 8"
  shows "encodes (REX_ADD_RM @ [modrm 0 d 4, 6]) (X_ALU A_ADD True (d + 8) (Mem (Addr 6 (Some (0, 0)) 0)))"
    "encodes (REX_SUB_RM @ [modrm 0 d 4, 6]) (X_ALU A_SUB True (d + 8) (Mem (Addr 6 (Some (0, 0)) 0)))"
    "encodes (REX_XOR_RM @ [modrm 0 d 4, 6]) (X_ALU A_XOR True (d + 8) (Mem (Addr 6 (Some (0, 0)) 0)))"
    "encodes (REX_IMUL_RM @ [modrm 0 d 4, 6]) (X_IMUL (d + 8) (Mem (Addr 6 (Some (0, 0)) 0)))"
    "encodes (REX_MOV_MR @ [modrm 0 d 4, 6]) (X_STORE True (Addr 6 (Some (0, 0)) 0) (d + 8))"
    "encodes (REX_ADD_RM @ modrm 2 d 6 # bytes32 v) (X_ALU A_ADD True (d + 8) (Mem (Addr 6 None (scast v))))"
    "encodes (REX_SUB_RM @ modrm 2 d 6 # bytes32 v) (X_ALU A_SUB True (d + 8) (Mem (Addr 6 None (scast v))))"
    "encodes (REX_XOR_RM @ modrm 2 d 6 # bytes32 v) (X_ALU A_XOR True (d + 8) (Mem (Addr 6 None (scast v))))"
    "encodes (REX_IMUL_RM @ modrm 2 d 6 # bytes32 v) (X_IMUL (d + 8) (Mem (Addr 6 None (scast v))))"
    "encodes REX_MUL_MEM (X_MUL1 (Mem (Addr 6 (Some (1, 0)) 0)))"
    "encodes REX_IMUL_MEM (X_IMUL1 (Mem (Addr 6 (Some (1, 0)) 0)))"
    "encodes (REX_MUL_M @ 0xa6 # bytes32 v) (X_MUL1 (Mem (Addr 6 None (scast v))))"
    "encodes (REX_MUL_M @ 0xae # bytes32 v) (X_IMUL1 (Mem (Addr 6 None (scast v))))"
    "encodes (AND_ECX_I @ bytes32 v) (X_ALU_I A_AND False 1 (scast v))"
    "n < 64 \<Longrightarrow> encodes (ROL_RAX @ [of_nat n]) (X_ROT True 0 (Some n))"
    "encodes REX_CVTDQ2PD_XMM12 (X_CVTDQ2PD 12 (Addr 6 (Some (0, 0)) 0))"
  using assms by (simp_all add: encodes_def x86_const decode_defs top2_def mid3_def low3_def modrm_fields [unfolded top2_def mid3_def low3_def]
      unat_of_nat)

lemma encodes_lea [intro]:
  assumes "d < 8" "s < 8" "k < 4"
  shows "d \<noteq> 5 \<Longrightarrow> encodes (REX_LEA @ [modrm 0 d 4, modrm k s d]) (X_LEA True (d + 8) (Addr (d + 8) (Some (s + 8, k)) 0))"
    "encodes (REX_LEA @ modrm 2 5 4 # modrm k s 5 # bytes32 v) (X_LEA True 13 (Addr 13 (Some (s + 8, k)) (scast v)))"
    "s \<noteq> 4 \<Longrightarrow> encodes (LEA_32 @ modrm 2 d s # bytes32 v) (X_LEA False d (Addr (s + 8) None (scast v)))"
    "encodes (LEA_32 @ modrm 2 d 4 # 0x24 # bytes32 v) (X_LEA False d (Addr 12 None (scast v)))"
  using assms by (simp_all add: encodes_def x86_const decode_defs top2_def mid3_def low3_def modrm_fields [unfolded top2_def mid3_def low3_def]
      unat_of_nat)

lemma encodes_fixed [intro]:
  "encodes [0x45, 0x0f, 0x54, 0xe5] (X_PACKED P_ANDPS 12 13)"
  "encodes [0x45, 0x0f, 0x56, 0xe6] (X_PACKED P_ORPS 12 14)"
  "encodes TEST_EAX_60SL13 (X_TEST_I False 0 0x78000)"
  "encodes [0x75, 17] (X_JNZ 17)"
  "encodes [0x25, 0, 0x60, 0, 0] (X_ALU_I A_AND False 0 0x6000)"
  "encodes [0x0d, 0xc0, 0x9f, 0, 0] (X_ALU_I A_OR False 0 0x9fc0)"
  "encodes [0x89, 0x04, 0x24] (X_STORE False (Addr 4 None 0) 0)"
  "encodes [0x0f, 0xae, 0x14, 0x24] (X_LDMXCSR (Addr 4 None 0))"
  "encodes NOP1 X_NOP"
  by (simp_all add: encodes_def x86_const decode_defs top2_def mid3_def low3_def read32.simps load32_def)

section \<open>What the generators emit\<close>

definition appended :: "u8 list \<Rightarrow> jit_compiler \<Rightarrow> jit_compiler" where
  "appended bs j = j\<lparr>j_code := write_bytes (j_code j) (j_pos j) bs, j_pos := j_pos j + length bs\<rparr>"

lemma write_bytes_append: "write_bytes (write_bytes m a bs) (a + length bs) cs = write_bytes m a (bs @ cs)"
  by (rule ext) (auto simp: write_bytes_def nth_append)

lemma write_bytes_Nil [simp]: "write_bytes m a [] = m"
  by (rule ext) (auto simp: write_bytes_def)

lemma appended_simps [simp]:
  "appended [] j = j"
  "appended cs (appended bs j) = appended (bs @ cs) j"
  "appended bs (j\<lparr>j_usage := u\<rparr>) = (appended bs j)\<lparr>j_usage := u\<rparr>"
  "j_usage (appended bs j) = j_usage j" "j_offsets (appended bs j) = j_offsets j"
  "j_flags (appended bs j) = j_flags j" "j_pos (appended bs j) = j_pos j + length bs"
  by (simp_all add: appended_def write_bytes_append)

lemma run_state_update [simp]: "run_state (State_Monad.update f) j = ((), f j)"
  by (simp add: State_Monad.update_def)

lemma run_emit [simp]:
  "run_state (emit_bytes bs) j = ((), appended bs j)"
  "run_state (emit32 v) j = ((), appended (bytes32 v) j)"
  "run_state (emit64 w) j = ((), appended (bytes64 w) j)"
  "run_state (set_usage r i) j = ((), j\<lparr>j_usage := (j_usage j)(r := int i)\<rparr>)"
  "run_state (gets f) j = (f j, j)"
  by (simp_all add: emit_bytes_def emit32_def emit64_def appended_def set_usage_def gets_def)

text \<open>The ModR/M bytes the generators compute, by fields.\<close>

lemma run_emitByte_modrm:
  "run_state (emitByte (192 + 8 * d + s)) j = ((), appended [modrm 3 d s] j)"
  "run_state (emitByte (192 + s + 8 * d)) j = ((), appended [modrm 3 d s] j)"
  "d < 8 \<Longrightarrow> run_state (emitByte (192 + d)) j = ((), appended [modrm 3 0 d] j)"
  "d < 8 \<Longrightarrow> run_state (emitByte (200 + d)) j = ((), appended [modrm 3 1 d] j)"
  "d < 8 \<Longrightarrow> run_state (emitByte (216 + d)) j = ((), appended [modrm 3 3 d] j)"
  "d < 8 \<Longrightarrow> run_state (emitByte (224 + d)) j = ((), appended [modrm 3 4 d] j)"
  "d < 8 \<Longrightarrow> run_state (emitByte (232 + d)) j = ((), appended [modrm 3 5 d] j)"
  "d < 8 \<Longrightarrow> run_state (emitByte (240 + d)) j = ((), appended [modrm 3 6 d] j)"
  "run_state (emitByte (192 + 8 * d)) j = ((), appended [modrm 3 d 0] j)"
  "run_state (emitByte (194 + 8 * d)) j = ((), appended [modrm 3 d 2] j)"
  "run_state (emitByte (196 + 8 * d)) j = ((), appended [modrm 3 d 4] j)"
  "run_state (emitByte (199 + 8 * d)) j = ((), appended [modrm 3 d 7] j)"
  "run_state (emitByte (192 + 9 * d)) j = ((), appended [modrm 3 d d] j)"
  "run_state (emitByte (224 + s + 8 * d)) j = ((), appended [modrm 3 (4 + d) s] j)"
  "run_state (emitByte (228 + 8 * d)) j = ((), appended [modrm 3 (4 + d) 4] j)"
  "run_state (emitByte (228 + 9 * d)) j = ((), appended [modrm 3 (4 + d) (4 + d)] j)"
  "run_state (emitByte (4 + 8 * d)) j = ((), appended [modrm 0 d 4] j)"
  "run_state (emitByte (134 + 8 * d)) j = ((), appended [modrm 2 d 6] j)"
  "run_state (emitByte (128 + s)) j = ((), appended [modrm 2 0 s] j)"
  "run_state (emitByte (136 + s)) j = ((), appended [modrm 2 1 s] j)"
  by (simp_all add: emitByte_def modrm_def algebra_simps)

lemma run_emitByte_value:
  "run_state (emitByte (numeral n)) j = ((), appended [numeral n] j)"
  "run_state (emitByte (Suc 0)) j = ((), appended [1] j)"
  "run_state (emitByte (unat w)) j = ((), appended [ucast w] j)"
  by (simp_all add: emitByte_def)

lemma run_emitByte_general: "run_state (emitByte n) j = ((), appended [of_nat n] j)"
  by (simp add: emitByte_def)

lemma less_8_cases:
  "n < (8::nat) \<longleftrightarrow> n = 0 \<or> n = 1 \<or> n = 2 \<or> n = 3 \<or> n = 4 \<or> n = 5 \<or> n = 6 \<or> n = 7" by auto

lemma sib_value:
  assumes "k < 4" "s < 8" "b < 8"
  shows "push_bit 6 k OR push_bit 3 s OR b = 64 * k + 8 * s + (b::nat)"
proof -
  have "push_bit 3 s OR b = 8 * s + b"
    using assms(2,3) unfolding less_8_cases by (elim disjE) simp_all
  moreover have "push_bit 6 k OR c = 64 * k + c" if "c < 64" for c :: nat
  proof -
    have "push_bit 6 k AND c = 0"
    proof (rule bit_eqI)
      fix n
      have "take_bit 6 c = c" using that by (simp add: take_bit_nat_eq_self)
      then have "bit c n \<Longrightarrow> n < 6" by (metis bit_take_bit_iff)
      then show "bit (push_bit 6 k AND c) n = bit 0 n" by (auto simp: bit_and_iff bit_push_bit_iff)
    qed
    then show ?thesis by (simp add: disjunctive_add_eq_or [symmetric] push_bit_eq_mult)
  qed
  moreover have "8 * s + b < 64" using assms by linarith
  ultimately show ?thesis by (metis add.assoc)
qed

lemma run_genSIB:
  "k < 4 \<Longrightarrow> s < 8 \<Longrightarrow> b < 8 \<Longrightarrow> run_state (x86_genSIB k s b) j = ((), appended [modrm k s b] j)"
  by (simp only: x86_genSIB_def sib_value) (simp add: emitByte_def modrm_def)


text \<open>The listing of a generator: its instructions, each with its bytes.\<close>

type_synonym listing = "(u8 list \<times> xinsn) list"

definition address_listing :: "nat \<Rightarrow> nat \<Rightarrow> u32 \<Rightarrow> u32 \<Rightarrow> listing" where
  "address_listing r s v m =
    [if s = 4 then (LEA_32 @ modrm 2 r 4 # 0x24 # bytes32 v, X_LEA False r (Addr 12 None (scast v)))
     else (LEA_32 @ modrm 2 r s # bytes32 v, X_LEA False r (Addr (s + 8) None (scast v))),
     (if r = 0 then of_nat AND_EAX_I # bytes32 m else AND_ECX_I @ bytes32 m, X_ALU_I A_AND False r (scast m))]"

abbreviation scratch_at :: "nat \<Rightarrow> address" where "scratch_at r \<equiv> Addr 6 (Some (r, 0)) 0"
abbreviation scratch_imm :: "u32 \<Rightarrow> address" where "scratch_imm v \<equiv> Addr 6 None (scast v)"

definition cfround_listing :: "u32 \<Rightarrow> u32 \<Rightarrow> nat \<Rightarrow> listing" where
  "cfround_listing flags v s =
    (let rotate = unat ((13 - (v AND 63)) AND 63)
     in [(REX_MOV_RR64 @ [modrm 3 0 s], X_MOV True 0 (Reg (s + 8)))] @
        (if rotate \<noteq> 0 then [(ROL_RAX @ [of_nat rotate], X_ROT True 0 (Some rotate))] else []) @
        (if has_flag flags RANDOMX_FLAG_V2
         then [(TEST_EAX_60SL13, X_TEST_I False 0 0x78000), ([0x75, 17], X_JNZ 17)] else []) @
        [([0x25, 0, 0x60, 0, 0], X_ALU_I A_AND False 0 0x6000),
         ([0x0d, 0xc0, 0x9f, 0, 0], X_ALU_I A_OR False 0 0x9fc0),
         ([0x89, 0x04, 0x24], X_STORE False (Addr 4 None 0) 0),
         ([0x0f, 0xae, 0x14, 0x24], X_LDMXCSR (Addr 4 None 0))])"

definition branch_imm :: "Instruction \<Rightarrow> u32" where
  "branch_imm instr =
    (getImm32 instr OR push_bit (getModCond instr + ConditionOffset) 1)
      AND NOT (push_bit (getModCond instr + ConditionOffset - 1) 1)"

fun x86_listing :: "u32 \<Rightarrow> InstructionType \<Rightarrow> u32 \<Rightarrow> nat \<Rightarrow> nat \<Rightarrow> Instruction \<Rightarrow> listing" where
  "x86_listing flags IADD_RS jz d s instr =
     [if d = 5 then (REX_LEA @ modrm 2 5 4 # modrm (getModShift instr) s 5 # bytes32 (getImm32 instr),
         X_LEA True 13 (Addr 13 (Some (s + 8, getModShift instr)) (scast (getImm32 instr))))
      else (REX_LEA @ [modrm 0 d 4, modrm (getModShift instr) s d],
         X_LEA True (d + 8) (Addr (d + 8) (Some (s + 8, getModShift instr)) 0))]"
| "x86_listing flags IADD_M jz d s instr =
     (if s \<noteq> d then address_listing 0 s (getImm32 instr) (modMemMask instr) @
         [(REX_ADD_RM @ [modrm 0 d 4, 6], X_ALU A_ADD True (d + 8) (Mem (scratch_at 0)))]
      else [(REX_ADD_RM @ modrm 2 d 6 # bytes32 (getImm32 instr AND ScratchpadL3Mask),
         X_ALU A_ADD True (d + 8) (Mem (scratch_imm (getImm32 instr AND ScratchpadL3Mask))))])"
| "x86_listing flags ISUB_R jz d s instr =
     [if s \<noteq> d then (REX_SUB_RR @ [modrm 3 d s], X_ALU A_SUB True (d + 8) (Reg (s + 8)))
      else (REX_81 @ modrm 3 5 d # bytes32 (getImm32 instr), X_ALU_I A_SUB True (d + 8) (scast (getImm32 instr)))]"
| "x86_listing flags ISUB_M jz d s instr =
     (if s \<noteq> d then address_listing 0 s (getImm32 instr) (modMemMask instr) @
         [(REX_SUB_RM @ [modrm 0 d 4, 6], X_ALU A_SUB True (d + 8) (Mem (scratch_at 0)))]
      else [(REX_SUB_RM @ modrm 2 d 6 # bytes32 (getImm32 instr AND ScratchpadL3Mask),
         X_ALU A_SUB True (d + 8) (Mem (scratch_imm (getImm32 instr AND ScratchpadL3Mask))))])"
| "x86_listing flags IMUL_R jz d s instr =
     [if s \<noteq> d then (REX_IMUL_RR @ [modrm 3 d s], X_IMUL (d + 8) (Reg (s + 8)))
      else (REX_IMUL_RRI @ modrm 3 d d # bytes32 (getImm32 instr),
         X_IMUL_I (d + 8) (Reg (d + 8)) (scast (getImm32 instr)))]"
| "x86_listing flags IMUL_M jz d s instr =
     (if s \<noteq> d then address_listing 0 s (getImm32 instr) (modMemMask instr) @
         [(REX_IMUL_RM @ [modrm 0 d 4, 6], X_IMUL (d + 8) (Mem (scratch_at 0)))]
      else [(REX_IMUL_RM @ modrm 2 d 6 # bytes32 (getImm32 instr AND ScratchpadL3Mask),
         X_IMUL (d + 8) (Mem (scratch_imm (getImm32 instr AND ScratchpadL3Mask))))])"
| "x86_listing flags IMULH_R jz d s instr =
     [(REX_MOV_RR64 @ [modrm 3 0 d], X_MOV True 0 (Reg (d + 8))),
      (REX_MUL_R @ [modrm 3 4 s], X_MUL1 (Reg (s + 8))),
      (REX_MOV_R64R @ [modrm 3 d 2], X_MOV True (d + 8) (Reg 2))]"
| "x86_listing flags IMULH_M jz d s instr =
     (if s \<noteq> d then address_listing 1 s (getImm32 instr) (modMemMask instr) @
         [(REX_MOV_RR64 @ [modrm 3 0 d], X_MOV True 0 (Reg (d + 8))), (REX_MUL_MEM, X_MUL1 (Mem (scratch_at 1)))]
      else [(REX_MOV_RR64 @ [modrm 3 0 d], X_MOV True 0 (Reg (d + 8))),
         (REX_MUL_M @ 0xa6 # bytes32 (getImm32 instr AND ScratchpadL3Mask),
          X_MUL1 (Mem (scratch_imm (getImm32 instr AND ScratchpadL3Mask))))]) @
     [(REX_MOV_R64R @ [modrm 3 d 2], X_MOV True (d + 8) (Reg 2))]"
| "x86_listing flags ISMULH_R jz d s instr =
     [(REX_MOV_RR64 @ [modrm 3 0 d], X_MOV True 0 (Reg (d + 8))),
      (REX_MUL_R @ [modrm 3 5 s], X_IMUL1 (Reg (s + 8))),
      (REX_MOV_R64R @ [modrm 3 d 2], X_MOV True (d + 8) (Reg 2))]"
| "x86_listing flags ISMULH_M jz d s instr =
     (if s \<noteq> d then address_listing 1 s (getImm32 instr) (modMemMask instr) @
         [(REX_MOV_RR64 @ [modrm 3 0 d], X_MOV True 0 (Reg (d + 8))), (REX_IMUL_MEM, X_IMUL1 (Mem (scratch_at 1)))]
      else [(REX_MOV_RR64 @ [modrm 3 0 d], X_MOV True 0 (Reg (d + 8))),
         (REX_MUL_M @ 0xae # bytes32 (getImm32 instr AND ScratchpadL3Mask),
          X_IMUL1 (Mem (scratch_imm (getImm32 instr AND ScratchpadL3Mask))))]) @
     [(REX_MOV_R64R @ [modrm 3 d 2], X_MOV True (d + 8) (Reg 2))]"
| "x86_listing flags IMUL_RCP jz d s instr =
     (if isZeroOrPowerOf2 (ucast (getImm32 instr)) then []
      else [(MOV_RAX_I @ bytes64 (randomx_reciprocal_asm (getImm32 instr)),
             X_MOV_I 0 (randomx_reciprocal_asm (getImm32 instr))),
            (REX_IMUL_RM @ [modrm 3 d 0], X_IMUL (d + 8) (Reg 0))])"
| "x86_listing flags INEG_R jz d s instr = [(REX_NEG @ [modrm 3 3 d], X_NEG (d + 8))]"
| "x86_listing flags IXOR_R jz d s instr =
     [if s \<noteq> d then (REX_XOR_RR @ [modrm 3 d s], X_ALU A_XOR True (d + 8) (Reg (s + 8)))
      else (REX_XOR_RI @ modrm 3 6 d # bytes32 (getImm32 instr), X_ALU_I A_XOR True (d + 8) (scast (getImm32 instr)))]"
| "x86_listing flags IXOR_M jz d s instr =
     (if s \<noteq> d then address_listing 0 s (getImm32 instr) (modMemMask instr) @
         [(REX_XOR_RM @ [modrm 0 d 4, 6], X_ALU A_XOR True (d + 8) (Mem (scratch_at 0)))]
      else [(REX_XOR_RM @ modrm 2 d 6 # bytes32 (getImm32 instr AND ScratchpadL3Mask),
         X_ALU A_XOR True (d + 8) (Mem (scratch_imm (getImm32 instr AND ScratchpadL3Mask))))])"
| "x86_listing flags IROR_R jz d s instr =
     (if s \<noteq> d then [(REX_MOV_RR @ [modrm 3 1 s], X_MOV False 1 (Reg (s + 8))),
         (REX_ROT_CL @ [modrm 3 1 d], X_ROT False (d + 8) None)]
      else [(REX_ROT_I8 @ [modrm 3 1 d, of_nat (unat (getImm32 instr AND 63))],
         X_ROT False (d + 8) (Some (unat (getImm32 instr AND 63))))])"
| "x86_listing flags IROL_R jz d s instr =
     (if s \<noteq> d then [(REX_MOV_RR @ [modrm 3 1 s], X_MOV False 1 (Reg (s + 8))),
         (REX_ROT_CL @ [modrm 3 0 d], X_ROT True (d + 8) None)]
      else [(REX_ROT_I8 @ [modrm 3 0 d, of_nat (unat (getImm32 instr AND 63))],
         X_ROT True (d + 8) (Some (unat (getImm32 instr AND 63))))])"
| "x86_listing flags ISWAP_R jz d s instr =
     (if s \<noteq> d then [(REX_XCHG @ [modrm 3 d s], X_XCHG (s + 8) (d + 8))] else [])"
| "x86_listing flags FSWAP_R jz d s instr = [(SHUFPD @ [modrm 3 d d, 1], X_SHUFPD d d 1)]"
| "x86_listing flags FADD_R jz d s instr =
     [(REX_ADDPD @ [modrm 3 (d mod 4) (s mod 4)], X_PACKED P_ADDPD (d mod 4) (s mod 4 + 8))]"
| "x86_listing flags FADD_M jz d s instr = address_listing 0 s (getImm32 instr) (modMemMask instr) @
     [(REX_CVTDQ2PD_XMM12, X_CVTDQ2PD 12 (scratch_at 0)), (REX_ADDPD @ [modrm 3 (d mod 4) 4], X_PACKED P_ADDPD (d mod 4) 12)]"
| "x86_listing flags FSUB_R jz d s instr =
     [(REX_SUBPD @ [modrm 3 (d mod 4) (s mod 4)], X_PACKED P_SUBPD (d mod 4) (s mod 4 + 8))]"
| "x86_listing flags FSUB_M jz d s instr = address_listing 0 s (getImm32 instr) (modMemMask instr) @
     [(REX_CVTDQ2PD_XMM12, X_CVTDQ2PD 12 (scratch_at 0)), (REX_SUBPD @ [modrm 3 (d mod 4) 4], X_PACKED P_SUBPD (d mod 4) 12)]"
| "x86_listing flags FSCAL_R jz d s instr = [(REX_XORPS @ [modrm 3 (d mod 4) 7], X_PACKED P_XORPS (d mod 4) 15)]"
| "x86_listing flags FMUL_R jz d s instr =
     [(REX_MULPD @ [modrm 3 (4 + d mod 4) (s mod 4)], X_PACKED P_MULPD (4 + d mod 4) (s mod 4 + 8))]"
| "x86_listing flags FDIV_M jz d s instr = address_listing 0 s (getImm32 instr) (modMemMask instr) @
     [(REX_CVTDQ2PD_XMM12, X_CVTDQ2PD 12 (scratch_at 0)),
      ([0x45, 0x0f, 0x54, 0xe5], X_PACKED P_ANDPS 12 13), ([0x45, 0x0f, 0x56, 0xe6], X_PACKED P_ORPS 12 14),
      (REX_DIVPD @ [modrm 3 (4 + d mod 4) 4], X_PACKED P_DIVPD (4 + d mod 4) 12)]"
| "x86_listing flags FSQRT_R jz d s instr =
     [(SQRTPD @ [modrm 3 (4 + d mod 4) (4 + d mod 4)], X_PACKED P_SQRTPD (4 + d mod 4) (4 + d mod 4))]"
| "x86_listing flags CBRANCH jz d s instr =
     [(REX_ADD_I @ modrm 3 0 d # bytes32 (branch_imm instr), X_ALU_I A_ADD True (d + 8) (scast (branch_imm instr))),
      (REX_TEST @ modrm 3 0 d # bytes32 (push_bit (getModCond instr + ConditionOffset) ConditionMask),
       X_TEST_I True (d + 8) (scast (push_bit (getModCond instr + ConditionOffset) ConditionMask))),
      (JZ @ bytes32 jz, X_JZ (sint jz))]"
| "x86_listing flags CFROUND jz d s instr = cfround_listing flags (getImm32 instr) s"
| "x86_listing flags ISTORE jz d s instr =
     address_listing 0 d (getImm32 instr)
       (if getModCond instr < StoreL3Condition then modMemMask instr else ScratchpadL3Mask) @
     [(REX_MOV_MR @ [modrm 0 s 4, 6], X_STORE True (scratch_at 0) (s + 8))]"
| "x86_listing flags NOP jz d s instr = [(NOP1, X_NOP)]"

definition listing_bytes :: "listing \<Rightarrow> u8 list" where "listing_bytes l = concat (map fst l)"

lemma encodes_address:
  assumes "r < 2" "s < 8" "(c, i) \<in> set (address_listing r s v m)"
  shows "encodes c i"
proof -
  have r: "r < 8" using assms(1) by linarith
  have "r = 0 \<or> r = 1" using assms(1) by linarith
  then show ?thesis
    using assms(2,3) encodes_lea(3,4) [OF r assms(2), of 0] encodes_immediates(6) [OF r] encodes_memory(14) [OF r, unfolded One_nat_def]
    by (auto simp: address_listing_def split: if_splits)
qed

definition encoded :: "listing \<Rightarrow> bool" where
  "encoded l \<longleftrightarrow> (\<forall>(c, i)\<in>set l. encodes c i)"

lemma encoded_simps [simp]:
  "encoded []" "encoded ((c, i) # l) \<longleftrightarrow> encodes c i \<and> encoded l"
  "encoded (l @ l') \<longleftrightarrow> encoded l \<and> encoded l'"
  by (auto simp: encoded_def)

lemma encoded_address [simp]: "r < 2 \<Longrightarrow> s < 8 \<Longrightarrow> encoded (address_listing r s v m)"
  using encodes_address by (fastforce simp: encoded_def)

lemma encoded_listing:
  assumes "d < 8" "s < 8"
  shows "encoded (x86_listing flags t jz d s instr)"
proof -
  have and63: "unat (x AND 63 :: u32) < 64" for x
    using unat_and_le1 [of x 63] by simp
  have cast: "of_nat (unat x) = (ucast x :: u8)" for x :: u32 by simp
  have d4: "d mod 4 < 8" "4 + d mod 4 < 8" "s mod 4 < 8"
    using mod_less_divisor [of 4 d] mod_less_divisor [of 4 s] by linarith+
  have four: "(4::nat) < 8" "(7::nat) < 8" by simp_all
  note regs = encodes_registers [OF assms] encodes_registers [OF assms(1) assms(1)]
    encodes_registers(5-7) [OF d4(1) d4(3)] encodes_registers(5-6) [OF d4(1) four(1), simplified]
    encodes_registers(9) [OF d4(1) four(2), simplified] encodes_registers(7) [OF d4(2) d4(3)]
    encodes_registers(8) [OF d4(2) four(1), simplified] encodes_registers(10) [OF d4(2) d4(2)]
  note tmp = encodes_temporaries [OF assms(1)] encodes_temporaries(1-9) [OF assms(2)]
  note imm = encodes_immediates [OF assms(1)] encodes_immediates(8,9) [OF assms(1) and63, unfolded cast]
  note mem = encodes_memory [OF assms(1)] encodes_memory(5) [OF assms(2)]
    encodes_memory(15) [OF assms(1) and63, simplified]
  note lea = encodes_lea [OF assms getModShift_less]
  note rules = regs tmp imm mem lea encodes_fixed and63
  show ?thesis
    by (cases t) (use assms in \<open>simp_all add: rules cfround_listing_def Let_def del: One_nat_def\<close>)
qed

text \<open>Every generator but the branch emits the bytes of its listing and records its writes as
  compilation to bytecode does.\<close>

lemmas x86_gen_defs =
  x86_IADD_RS_def x86_IADD_M_def x86_ISUB_R_def x86_ISUB_M_def x86_IMUL_R_def x86_IMUL_M_def
  x86_IMULH_R_def x86_IMULH_M_def x86_ISMULH_R_def x86_ISMULH_M_def x86_IMUL_RCP_def x86_INEG_R_def
  x86_IXOR_R_def x86_IXOR_M_def x86_IROR_R_def x86_IROL_R_def x86_ISWAP_R_def x86_FSWAP_R_def
  x86_FADD_R_def x86_FADD_M_def x86_FSUB_R_def x86_FSUB_M_def x86_FSCAL_R_def x86_FMUL_R_def
  x86_FDIV_M_def x86_FSQRT_R_def x86_CFROUND_def x86_ISTORE_def x86_NOP_def

lemma run_address:
  "src_n instr < 8 \<Longrightarrow> run_state (x86_genAddressReg instr rax) j =
    ((), appended (listing_bytes (address_listing (if rax then 0 else 1) (src_n instr) (getImm32 instr) (modMemMask instr))) j)"
  "dst_n instr < 8 \<Longrightarrow> run_state (x86_genAddressRegDst instr) j =
    ((), appended (listing_bytes (address_listing 0 (dst_n instr) (getImm32 instr)
      (if getModCond instr < StoreL3Condition then modMemMask instr else ScratchpadL3Mask))) j)"
  "run_state (x86_genAddressImm instr) j = ((), appended (bytes32 (getImm32 instr AND ScratchpadL3Mask)) j)"
  by (auto simp: x86_genAddressReg_def x86_genAddressRegDst_def x86_genAddressImm_def address_listing_def
      listing_bytes_def run_emitByte_modrm run_emitByte_value RegisterNeedsSib_def)
     (simp_all add: run_emitByte_general)

lemma listing_bytes_simps [simp]:
  "listing_bytes [] = []" "listing_bytes (x # l) = fst x @ listing_bytes l"
  "listing_bytes (l @ l') = listing_bytes l @ listing_bytes l'"
  by (simp_all add: listing_bytes_def)

lemma reduce_fields [simp]:
  "getImm32 (reduce_dst n i) = getImm32 i" "getModMem (reduce_dst n i) = getModMem i"
  "modMemMask (reduce_dst n i) = modMemMask i" "i_src (reduce_dst n i) = i_src i" "i_dst (reduce_src n i) = i_dst i"
  by (simp_all add: reduce_dst_def reduce_src_def getImm32_def getModMem_def modMemMask_def)

lemma reduced_index [simp]: "dst_n (reduce_dst n i) = dst_n i mod n" "src_n (reduce_src n i) = src_n i mod n"
proof -
  have "unat (of_nat (unat x mod n) :: u8) = unat x mod n" for x :: u8
    using le_less_trans [OF mod_less_eq_dividend unat_u8_less] by (simp add: unat_of_nat)
  then show "dst_n (reduce_dst n i) = dst_n i mod n" "src_n (reduce_src n i) = src_n i mod n"
    by (simp_all add: reduce_dst_def reduce_src_def)
qed

lemma run_generator:
  assumes "dst_n instr < 8" "src_n instr < 8" "t \<noteq> CBRANCH"
  shows "run_state (x86_generator t instr i) j =
    ((), (appended (listing_bytes (x86_listing (j_flags j) t jz (dst_n instr) (src_n instr) instr)) j)
        \<lparr>j_usage := snd (gen_of t instr i ibc (j_usage j))\<rparr>)"
proof -
  have m: "modrm 2 5 4 = 172" by (simp add: modrm_def)
  have ldmxcsr: "run_state (emitByte (length AND_OR_MOV_LDMXCSR)) j' = ((), appended [17] j')"
    "[37, 0, 96, 0, 0, 13, 192, 159, 0, 0, 137, 4, 36, 15, 174, 20, 36] = AND_OR_MOV_LDMXCSR" for j'
    by (simp_all add: AND_OR_MOV_LDMXCSR_def emitByte_def)
  show ?thesis
    by (cases t) (use assms in \<open>simp_all add: x86_gen_defs run_emitByte_modrm run_emitByte_value run_address
        run_genSIB gen_defs dst_int_def src_int_def RegistersCount_def RegisterCountFlt_def m
        RegisterNeedsDisplacement_def cfround_listing_def Let_def JNZ_SHORT_def ldmxcsr
        REX_ANDPS_XMM12_def\<close>)
qed

end
