(* ===== verification/Jit_X86_Sim.thy ===== *)
theory Jit_X86_Sim
  imports Jit_X86_Code
begin

text \<open>
  The relation between an interpreter state and a state of the processor (registers
  \<^verbatim>\<open>r8\<close> to \<^verbatim>\<open>r15\<close>, \<^verbatim>\<open>xmm0\<close> to
  \<^verbatim>\<open>xmm11\<close>, the scratchpad behind \<^verbatim>\<open>rsi\<close>, the rounding mode), what
  loads and stores mean under it, and the simulation lemma: the listing of an instruction
  computes what \<open>executeInstruction\<close> computes with the compiled bytecode.
\<close>

section \<open>The machine state that stands for an interpreter state\<close>

definition in_scratchpad :: "xstate \<Rightarrow> u64 \<Rightarrow> bool" where
  "in_scratchpad x0 a \<longleftrightarrow> (\<exists>n<ScratchpadSize. a = x_reg x0 6 + of_nat n)"

definition in_slot :: "xstate \<Rightarrow> u64 \<Rightarrow> bool" where
  "in_slot x0 a \<longleftrightarrow> (\<exists>n<4. a = x_reg x0 4 + of_nat n)"

text \<open>
  Relative to the state \<open>x0\<close> on entry, whose \<^verbatim>\<open>rsi\<close> points to the scratchpad and whose
  \<^verbatim>\<open>rsp\<close> points to the four-byte slot for \<^verbatim>\<open>mxcsr\<close>.
\<close>

definition corresponds :: "ProgramConfiguration \<Rightarrow> xstate \<Rightarrow> bstate \<Rightarrow> xstate \<Rightarrow> bool" where
  "corresponds cfg x0 b x \<longleftrightarrow>
     (\<forall>k<8. x_reg x (k + 8) = b_r b k) \<and>
     (\<forall>k<4. x_xmm x k = b_f b k) \<and> (\<forall>k<4. x_xmm x (4 + k) = b_e b k) \<and> (\<forall>k<4. x_xmm x (k + 8) = b_a b k) \<and>
     x_xmm x 13 = (dynamicMantissaMask, dynamicMantissaMask) \<and> x_xmm x 14 = (eMask0 cfg, eMask1 cfg) \<and>
     x_xmm x 15 = (0x80F0000000000000, 0x80F0000000000000) \<and>
     (\<forall>r\<in>{3, 4, 5, 6, 7}. x_reg x r = x_reg x0 r) \<and>
     (\<forall>n<ScratchpadSize. x_mem x (x_reg x0 6 + of_nat n) = b_mem b n) \<and>
     (\<forall>a. \<not> in_scratchpad x0 a \<longrightarrow> \<not> in_slot x0 a \<longrightarrow> x_mem x a = x_mem x0 a) \<and>
     (\<forall>a. in_scratchpad x0 a \<longrightarrow> \<not> in_slot x0 a) \<and>
     rounding x = b_rm b"

lemma set_simps [simp]:
  "x_reg (set_reg r v x) = (x_reg x)(r := v)" "x_xmm (set_reg r v x) = x_xmm x"
  "x_mem (set_reg r v x) = x_mem x" "x_zf (set_reg r v x) = x_zf x" "rounding (set_reg r v x) = rounding x"
  "x_reg (set_xmm r w x) = x_reg x" "x_xmm (set_xmm r w x) = (x_xmm x)(r := w)"
  "x_mem (set_xmm r w x) = x_mem x" "x_zf (set_xmm r w x) = x_zf x" "rounding (set_xmm r w x) = rounding x"
  "x_reg (set_zf z x) = x_reg x" "x_xmm (set_zf z x) = x_xmm x"
  "x_mem (set_zf z x) = x_mem x" "x_zf (set_zf z x) = z" "rounding (set_zf z x) = rounding x"
  "(set_reg r v x)\<lparr>x_mem := m\<rparr> = set_reg r v (x\<lparr>x_mem := m\<rparr>)" "(set_zf z x)\<lparr>x_mem := m\<rparr> = set_zf z (x\<lparr>x_mem := m\<rparr>)"
  "x_mxcsr (set_reg r v x) = x_mxcsr x" "x_mxcsr (set_zf z x) = x_mxcsr x"
  by (simp_all add: set_reg_def set_xmm_def set_zf_def rounding_def)

lemma corresponds_values:
  assumes "corresponds cfg x0 b x"
  shows "k < 8 \<Longrightarrow> x_reg x (k + 8) = b_r b k" "k < 4 \<Longrightarrow> x_xmm x k = b_f b k"
    "k < 4 \<Longrightarrow> x_xmm x (4 + k) = b_e b k" "k < 4 \<Longrightarrow> x_xmm x (k + 8) = b_a b k"
    "x_xmm x 13 = (dynamicMantissaMask, dynamicMantissaMask)" "x_xmm x 14 = (eMask0 cfg, eMask1 cfg)"
    "x_xmm x 15 = (0x80F0000000000000, 0x80F0000000000000)" "x_reg x 6 = x_reg x0 6" "x_reg x 4 = x_reg x0 4"
    "rounding x = b_rm b"
  using assms by (simp_all add: corresponds_def)

lemma corresponds_scratch [simp]:
  "r < 3 \<Longrightarrow> corresponds cfg x0 b (set_reg r v x) \<longleftrightarrow> corresponds cfg x0 b x"
  "corresponds cfg x0 b (set_zf z x) \<longleftrightarrow> corresponds cfg x0 b x"
  "corresponds cfg x0 b (set_xmm 12 w x) \<longleftrightarrow> corresponds cfg x0 b x"
  by (auto simp: corresponds_def)

lemma corresponds_registers:
  "corresponds cfg x0 b x \<Longrightarrow> k < 8 \<Longrightarrow> corresponds cfg x0 (b\<lparr>b_r := (b_r b)(k := v)\<rparr>) (set_reg (k + 8) v x)"
  "corresponds cfg x0 b x \<Longrightarrow> k < 4 \<Longrightarrow> corresponds cfg x0 (b\<lparr>b_f := (b_f b)(k := w)\<rparr>) (set_xmm k w x)"
  "corresponds cfg x0 b x \<Longrightarrow> k < 4 \<Longrightarrow> corresponds cfg x0 (b\<lparr>b_e := (b_e b)(k := w)\<rparr>) (set_xmm (4 + k) w x)"
  by (auto simp: corresponds_def)

section \<open>Memory\<close>

lemma corresponds_loads:
  assumes "corresponds cfg x0 b x" "n + 8 \<le> ScratchpadSize"
  shows "x_load64 (x_mem x) (x_reg x0 6 + of_nat n) = load64 (b_mem b) n"
    "x_load32 (x_mem x) (x_reg x0 6 + of_nat n) = load32 (b_mem b) n"
    "x_load32 (x_mem x) (x_reg x0 6 + (of_nat n + 4)) = load32 (b_mem b) (n + 4)"
proof -
  have m: "x_mem x (x_reg x0 6 + of_nat n + of_nat k) = b_mem b (n + k)" if "k < 8" for k
    using assms that by (simp add: corresponds_def add.assoc flip: of_nat_add)
  have m4: "x_mem x (x_reg x0 6 + of_nat n + 4 + of_nat k) = b_mem b (n + 4 + k)" if "k < 4" for k
    using m [of "4 + k"] that by (simp add: add.assoc)
  show "x_load64 (x_mem x) (x_reg x0 6 + of_nat n) = load64 (b_mem b) n"
    using m by (intro bit_word_eqI) (simp add: x_load64_def bit_load64)
  show "x_load32 (x_mem x) (x_reg x0 6 + of_nat n) = load32 (b_mem b) n"
    using m by (intro bit_word_eqI) (simp add: x_load32_def bit_load32)
  show "x_load32 (x_mem x) (x_reg x0 6 + (of_nat n + 4)) = load32 (b_mem b) (n + 4)"
    using m4 by (intro bit_word_eqI) (simp add: x_load32_def bit_load32 add.assoc)
qed

lemma corresponds_store:
  assumes "corresponds cfg x0 b x" "n + 8 \<le> ScratchpadSize"
  shows "corresponds cfg x0 (b\<lparr>b_mem := store64 (b_mem b) n v\<rparr>)
    (x\<lparr>x_mem := x_store (x_mem x) (x_reg x0 6 + of_nat n) (bytes64 v)\<rparr>)"
proof -
  have small: "ScratchpadSize = 2097152" by (simp add: config)
  have store: "x_store (x_mem x) (x_reg x0 6 + of_nat n) (bytes64 v) (x_reg x0 6 + of_nat k) =
      store64 (b_mem b) n v k" if k: "k < ScratchpadSize" for k
  proof -
    have val: "b_mem b k = x_mem x (x_reg x0 6 + of_nat k)" using assms(1) k by (simp add: corresponds_def)
    show ?thesis
    proof (cases "n \<le> k")
      case True
      then have u: "unat (of_nat k - of_nat n :: u64) = k - n"
        using k small by (simp add: unat_of_nat flip: of_nat_diff)
      show ?thesis
      proof (cases "k < n + 8")
        case True
        with \<open>n \<le> k\<close> have "k - n = 0 \<or> k - n = 1 \<or> k - n = 2 \<or> k - n = 3 \<or> k - n = 4 \<or> k - n = 5
          \<or> k - n = 6 \<or> k - n = 7" "k = n + (k - n)" by linarith+
        then show ?thesis using store64_byte [of "k - n" "b_mem b" n v] True
          by (auto simp: x_store_def u bytes64_def)
      next
        case False
        then have "\<not> k - n < 8" by linarith
        with False show ?thesis using val by (simp add: x_store_def u c64.store_outside Let_def)
      qed
    next
      case False
      define m where "m = n - k"
      have m: "0 < m" "m < 2 ^ 21" "n = k + m" using False assms(2) small by (simp_all add: m_def)
      have um: "unat (of_nat m :: u64) = m" using m(2) by (simp add: unat_of_nat)
      have "of_nat k - of_nat n = (0 - of_nat m :: u64)" by (simp add: m(3))
      moreover have "\<not> unat (0 - of_nat m :: u64) < 8"
        using unat_sub_if' [of 0 "of_nat m :: u64"] um m(1,2) by simp
      ultimately have "\<not> unat (of_nat k - of_nat n :: u64) < 8" by metis
      then show ?thesis using False val by (simp add: x_store_def c64.store_outside Let_def)
    qed
  qed
  have frame: "x_store (x_mem x) (x_reg x0 6 + of_nat n) (bytes64 v) a = x_mem x a" if "\<not> in_scratchpad x0 a" for a
  proof -
    have "\<not> unat (a - (x_reg x0 6 + of_nat n)) < 8"
    proof
      assume lt: "unat (a - (x_reg x0 6 + of_nat n)) < 8"
      define j where "j = unat (a - (x_reg x0 6 + of_nat n))"
      have "a = x_reg x0 6 + of_nat (n + j)" by (simp add: j_def)
      moreover have "n + j < ScratchpadSize" using lt assms(2) by (simp add: j_def)
      ultimately show False using that by (auto simp: in_scratchpad_def)
    qed
    then show ?thesis by (simp add: x_store_def)
  qed
  show ?thesis using assms(1) store frame by (simp add: corresponds_def rounding_def)
qed

text \<open>The address the code computes in a 32-bit register is the interpreter's.\<close>

lemma bit_low32: "bit (low32 x) n \<longleftrightarrow> n < 32 \<and> bit x n"
  by (auto simp: low32_def bit_ucast_iff dest: bit_imp_le_length)

lemma low32_simps [simp]: "low32 (low32 x) = low32 x" "low32 (signExtend2sCompl v) = ucast v"
  by (rule bit_word_eqI, auto simp: signExtend2sCompl_def bit_low32 bit_ucast_iff bit_word_scast_iff dest: bit_imp_le_length)+

definition masked_addr :: "u32 \<Rightarrow> u64 \<Rightarrow> u32 \<Rightarrow> nat" where
  "masked_addr m r v = unat (ucast ((r + signExtend2sCompl v) AND ucast m) :: u32)"

lemma masked_addr_word: "of_nat (masked_addr m r v) = low32 ((r + signExtend2sCompl v) AND ucast m)"
  by (simp add: masked_addr_def low32_def)

lemma address_value:
  "low32 (low32 (r + signExtend2sCompl v) AND ucast m) = of_nat (masked_addr m r v)"
  unfolding masked_addr_word signExtend2sCompl_def
  by (rule bit_word_eqI) (auto simp: bit_low32 bit_and_iff)

lemma scast_and_low32: "\<not> bit m 31 \<Longrightarrow> scast (v AND m) = low32 (scast v AND ucast (m :: u32))"
  by (rule bit_word_eqI)
     (auto simp: bit_low32 bit_and_iff bit_word_scast_iff bit_ucast_iff dest: bit_imp_le_length)

lemma address_immediate: "signExtend2sCompl (v AND ScratchpadL3Mask) = (of_nat (masked_addr ScratchpadL3Mask 0 v) :: u64)"
  by (simp only: masked_addr_word signExtend2sCompl_def add_0) (rule scast_and_low32, simp add: mask_values)

lemma masked_addr_folds:
  "unat (ucast ((r + signExtend2sCompl v) AND ucast m) :: u32) = masked_addr m r v"
  "unat (ucast (signExtend2sCompl v AND ucast m) :: u32) = masked_addr m 0 v"
  "unat ((r + signExtend2sCompl v) AND ucast m) = masked_addr m r v"
proof -
  show "unat ((r + signExtend2sCompl v) AND ucast m) = masked_addr m r v"
  proof -
    have "(r + signExtend2sCompl v) AND ucast m = low32 ((r + signExtend2sCompl v) AND ucast m)"
      by (rule bit_word_eqI) (auto simp: bit_low32 bit_and_iff bit_ucast_iff dest: bit_imp_le_length)
    moreover have "unat (low32 y) = unat (ucast y :: u32)" for y
      by (simp add: low32_def unsigned_ucast_eq unsigned_take_bit_eq)
    ultimately show ?thesis by (metis masked_addr_def)
  qed
qed (simp_all add: masked_addr_def)

lemma masked_addr_bound: "mask_ok m \<Longrightarrow> masked_addr m r v + 8 \<le> ScratchpadSize"
  by (simp add: masked_addr_folds(3) [symmetric] masked_in_scratchpad)

section \<open>Rotation counts, the reciprocal\<close>

lemma unat_and_63: "unat (y AND 63 :: 'a::len word) = unat y mod 64" if "6 \<le> LENGTH('a)"
proof -
  have "(63 :: 'a word) = mask 6" using that by (simp add: mask_eq_decr_exp)
  then show ?thesis by (simp only: unat_and_mask) simp
qed

lemma unat_low32: "unat (low32 x) mod 64 = unat x mod 64"
proof -
  have "unat (low32 x) = take_bit 32 (unat x)"
    by (simp add: low32_def unsigned_ucast_eq unsigned_take_bit_eq)
  then have "unat (low32 x) = unat x mod 2 ^ 32" by (simp only: take_bit_eq_mod)
  then show ?thesis by (simp add: mod_mod_cancel)
qed

lemma unat_ucast_u32: "unat (ucast (v :: u32) :: u64) = unat v"
  by (simp add: unsigned_ucast_eq take_bit_nat_eq_self less_trans [OF unat_u32_less])

lemma rotations:
  "rotr x (ucast (y AND 63)) = word_rotr (unat (low32 y) mod 64) x"
  "rotl x (ucast (y AND 63)) = word_rotl (unat (low32 y) mod 64) x"
proof -
  have u: "unat (ucast (y AND 63 :: u64) :: u32) = unat y mod 64" for y
    by (simp add: unsigned_ucast_eq unat_and_63 take_bit_eq_mod)
  show "rotr x (ucast (y AND 63)) = word_rotr (unat (low32 y) mod 64) x"
    "rotl x (ucast (y AND 63)) = word_rotl (unat (low32 y) mod 64) x"
    by (simp_all add: rotr_eq_word_rotr rotl_eq_word_rotl u unat_low32)
qed

lemma low32_ucast: "low32 (ucast (v :: u32)) = ucast v"
  by (rule bit_word_eqI) (auto simp: bit_low32 bit_ucast_iff dest: bit_imp_le_length)

text \<open>The assembly routine computes the reciprocal of the portable function.\<close>

lemma randomx_reciprocal_asm_eq:
  assumes "\<not> isZeroOrPowerOf2 (ucast d)"
  shows "randomx_reciprocal_asm d = randomx_reciprocal d"
proof -
  define n where "n = 64 - clz64 (ucast d)"
  note exact = reciprocal_exact [OF assms, folded n_def]
  have d0: "0 < unat d"
  proof (rule ccontr)
    assume "\<not> 0 < unat d"
    then have "d = 0" by (simp add: unat_eq_zero)
    with assms show False by (simp add: isZeroOrPowerOf2_def)
  qed
  have n: "bsr d = n - 1" by (simp add: bsr_def n_def)
  have n1: "0 < n"
  proof (rule ccontr)
    assume "\<not> 0 < n"
    then have "unat (randomx_reciprocal d) = 2 ^ 63 div unat d" using exact(1) by simp
    moreover have "unat (ucast d :: u64) = unat d"
      by (simp add: unsigned_ucast_eq take_bit_nat_eq_self less_trans [OF unat_u32_less])
    then have "unat d \<noteq> 1" using assms by (metis isZeroOrPowerOf2_iff power_0)
    then have "2 \<le> unat d" using d0 by linarith
    then have "(2::nat) ^ 63 div unat d \<le> 2 ^ 63 div 2" by (rule div_le_mono2 [rotated]) simp
    ultimately show False using exact(2) by simp
  qed
  have n64: "n \<le> 64" by (simp add: n_def)
  have up: "unat (push_bit 64 (push_bit (n - 1) 1) :: 128 word) = 2 ^ (63 + n)"
  proof -
    have "(2::nat) ^ (63 + n) < 2 ^ 128" using n64 by (intro power_strict_increasing) simp_all
    moreover have "64 + (n - 1) = 63 + n" using n1 by simp
    ultimately show ?thesis by (simp only: push_bit_push_bit unat_push_bit unat_1) simp
  qed
  have ud: "unat (ucast d :: 128 word) = unat d"
    by (simp add: unsigned_ucast_eq take_bit_nat_eq_self less_trans [OF unat_u32_less])
  have "unat (push_bit 64 (push_bit (n - 1) 1) div ucast d :: 128 word) = 2 ^ (63 + n) div unat d"
    by (simp only: unat_div_distrib up ud)
  then have "unat (randomx_reciprocal_asm d) = take_bit 64 (2 ^ (63 + n) div unat d)"
    by (simp only: randomx_reciprocal_asm_def n unsigned_ucast_eq) simp
  then have "unat (randomx_reciprocal_asm d) = 2 ^ (63 + n) div unat d"
    using exact(3) by (simp only: take_bit_nat_eq_self)
  then have "unat (randomx_reciprocal_asm d) = unat (randomx_reciprocal d)" by (simp add: exact(1))
  then show ?thesis by (simp only: word_unat_eq_iff)
qed

lemma corresponds_swap:
  assumes "corresponds cfg x0 b x" "r < 8" "s < 8" "r \<noteq> s"
  shows "corresponds cfg x0 (b\<lparr>b_r := (b_r b)(r := v, s := w)\<rparr>) (set_reg (r + 8) v (set_reg (s + 8) w x))"
  using assms by (auto simp: corresponds_def)

lemma corresponds_shuffle:
  assumes "corresponds cfg x0 b x" "d < 8"
  shows "d < 4 \<Longrightarrow> corresponds cfg x0 (b\<lparr>b_f := (b_f b)(d := rx_swap_vec_f128 (b_f b d))\<rparr>)
      (set_xmm d (lane (b_f b d) True, lane (b_f b d) False) x)"
    "\<not> d < 4 \<Longrightarrow> corresponds cfg x0 (b\<lparr>b_e := (b_e b)(d - 4 := rx_swap_vec_f128 (b_e b (d - 4)))\<rparr>)
      (set_xmm d (lane (x_xmm x d) True, lane (x_xmm x d) False) x)"
proof -
  show "d < 4 \<Longrightarrow> corresponds cfg x0 (b\<lparr>b_f := (b_f b)(d := rx_swap_vec_f128 (b_f b d))\<rparr>)
      (set_xmm d (lane (b_f b d) True, lane (b_f b d) False) x)"
    using corresponds_registers(2) [OF assms(1), of d] corresponds_values(2) [OF assms(1), of d]
    by (simp add: rx_swap_vec_f128_def lane_def)
  assume "\<not> d < 4"
  then obtain k where "d = 4 + k" "k < 4" using assms(2) by (metis add_less_cancel_left le_Suc_ex not_less numeral_Bit0)
  then show "corresponds cfg x0 (b\<lparr>b_e := (b_e b)(d - 4 := rx_swap_vec_f128 (b_e b (d - 4)))\<rparr>)
      (set_xmm d (lane (x_xmm x d) True, lane (x_xmm x d) False) x)"
    using corresponds_registers(3) [OF assms(1), of k] corresponds_values(3) [OF assms(1), of k]
    by (simp add: rx_swap_vec_f128_def lane_def)
qed

section \<open>One instruction\<close>

lemma sim_listing:
  assumes c: "corresponds cfg x0 b x" and d: "dst_n instr < 8" "src_n instr < 8" and t: "t \<notin> {CBRANCH, CFROUND}"
  shows "\<exists>b'. executeInstruction fp cfg flags (fst (gen_of t instr i ibc u)) pc b = Some (pc, b') \<and>
    corresponds cfg x0 b' (fold (xexec fp) (map snd (x86_listing flags t jz (dst_n instr) (src_n instr) instr)) x)"
proof -
  note vals = corresponds_values [OF c]
  note regs = corresponds_registers corresponds_registers(1) [where k = 4, simplified]
    corresponds_registers(1) [where k = 5, simplified]
  note loads = corresponds_loads [OF c masked_addr_bound]
  note store = corresponds_store [OF _ masked_addr_bound]
  have ix: "dst_int instr = dst_n instr" "src_int instr = src_n instr"
    "dst_flt instr = dst_n instr mod 4" "src_flt instr = src_n instr mod 4"
    using d by (simp_all add: dst_int_def src_int_def dst_flt_def src_flt_def RegistersCount_def RegisterCountFlt_def)
  have r45: "x_reg x 12 = b_r b 4" "x_reg x 13 = b_r b 5" using vals(1) [of 4] vals(1) [of 5] by simp_all
  have sh: "unat (of_nat (getModShift instr) :: u16) = getModShift instr"
    using getModShift_less [of instr] by (simp add: unat_of_nat del: getModShift_less)
  have m12: "dst_n instr mod 4 \<noteq> 12" "dst_n instr mod 4 \<noteq> 8" using mod_less_divisor [of 4 "dst_n instr"] by linarith+
  show ?thesis
    using t d c
    apply (cases t)
    apply (simp_all add: gen_defs executeInstruction_def exe_defs operand_defs setShift_def shift_def sh
      Let_def ix RegisterNeedsDisplacement_def RegisterCountFlt_def RegistersCount_def address_listing_def sized_def r45
      vals regs masked_addr_folds address_value address_immediate loads store signExtend2sCompl_def [symmetric] add.assoc
      rotations low32_ucast unat_ucast_u32 unat_and_63 randomx_reciprocal_asm_eq minus_eq_not_plus_1 corresponds_swap corresponds_shuffle m12
      rx_cvt_packed_int_vec_f128_def maskRegisterExponentMantissa_def rx_and_vec_f128_def rx_or_vec_f128_def
      rx_xor_vec_f128_def rx_set1_vec_f128_def)
  done
qed

end
