(* ===== verification/Jit_X86_Run.thy ===== *)
theory Jit_X86_Run
  imports Jit_X86_Sim
begin

text \<open>
  Code in the buffer: fetching an encoded instruction, running a listing from its first byte
  to the byte behind its last, and the one instruction with a jump of its own, the change of
  the rounding mode.
\<close>

section \<open>Code in memory\<close>

definition code_at :: "mem \<Rightarrow> nat \<Rightarrow> u8 list \<Rightarrow> bool" where
  "code_at c p bs \<longleftrightarrow> (\<forall>k<length bs. c (p + k) = bs ! k)"

lemma code_at_append: "code_at c p (as @ bs) \<longleftrightarrow> code_at c p as \<and> code_at c (p + length as) bs"
proof
  assume all: "code_at c p (as @ bs)"
  have "c (p + length as + k) = bs ! k" if "k < length bs" for k
    using all [unfolded code_at_def, rule_format, of "length as + k"] that by (simp add: nth_append add.assoc)
  moreover have "c (p + k) = as ! k" if "k < length as" for k
    using all [unfolded code_at_def, rule_format, of k] that by (simp add: nth_append)
  ultimately show "code_at c p as \<and> code_at c (p + length as) bs" by (simp add: code_at_def)
next
  assume parts: "code_at c p as \<and> code_at c (p + length as) bs"
  show "code_at c p (as @ bs)" unfolding code_at_def
  proof (intro allI impI)
    fix k assume k: "k < length (as @ bs)"
    show "c (p + k) = (as @ bs) ! k"
    proof (cases "k < length as")
      case True
      then show ?thesis using parts by (simp add: code_at_def nth_append)
    next
      case False
      then obtain j where "k = length as + j" using le_Suc_ex not_less by blast
      then show ?thesis using parts k by (simp add: code_at_def nth_append add.assoc)
    qed
  qed
qed

lemma fetch_encoded:
  assumes "encodes bs i" "code_at c p bs"
  shows "fetch c p = Some (i, length bs)"
proof -
  have len: "length bs \<le> 15" and dec: "\<And>rest. decode (bs @ rest) = Some (i, rest)"
    using assms(1) by (auto simp: encodes_def)
  have "map c [p..<p + 15] = bs @ map c [p + length bs..<p + 15]"
  proof -
    have "[p..<p + 15] = [p..<p + length bs] @ [p + length bs..<p + 15]"
      using len upt_add_eq_append [of p "p + length bs" "15 - length bs"] by simp
    moreover have "map c [p..<p + length bs] = bs"
      using assms(2) by (intro nth_equalityI) (simp_all add: code_at_def)
    ultimately show ?thesis by simp
  qed
  then show ?thesis using len by (simp add: fetch_def dec)
qed

section \<open>Straight-line code\<close>

fun straight :: "xinsn \<Rightarrow> bool" where
  "straight (X_JZ _) = False" | "straight (X_JNZ _) = False" | "straight _ = True"

lemma next_ip_straight: "straight i \<Longrightarrow> next_ip i ip st = Some ip"
  by (cases i) (simp_all add: next_ip_def)

abbreviation effect :: "fpu \<Rightarrow> listing \<Rightarrow> xstate \<Rightarrow> xstate" where
  "effect fp l \<equiv> fold (xexec fp) (map snd l)"

lemma xstep_encoded:
  assumes "encodes bs i" "code_at c p bs"
  shows "xstep fp c (p, st) = map_option (\<lambda>ip. (ip, xexec fp i st)) (next_ip i (p + length bs) st)"
  by (cases "next_ip i (p + length bs) st") (simp_all add: xstep_def fetch_encoded [OF assms])

lemma run_listing:
  assumes "encoded l" "code_at c p (listing_bytes l)" "\<forall>x\<in>set l. straight (snd x)"
  shows "xrun fp c (length l) (p, st) = Some (p + length (listing_bytes l), effect fp l st)"
  using assms
proof (induction l arbitrary: p st)
  case (Cons x l)
  obtain bs i where x: "x = (bs, i)" by fastforce
  from Cons.prems x have enc: "encodes bs i" "encoded l"
    and at: "code_at c p bs" "code_at c (p + length bs) (listing_bytes l)" and s: "straight i"
    by (simp_all add: code_at_append)
  from xstep_encoded [OF enc(1) at(1), of fp st]
  have "xstep fp c (p, st) = Some (p + length bs, xexec fp i st)" by (simp add: next_ip_straight [OF s])
  with Cons.IH [OF enc(2) at(2), of "xexec fp i st"] Cons.prems(3) show ?case by (simp add: x add.assoc)
qed simp

text \<open>\<open>reaches_x fp c p st q st'\<close>: the machine at \<open>p\<close> arrives at \<open>q\<close>.\<close>

definition reaches_x :: "fpu \<Rightarrow> mem \<Rightarrow> nat \<Rightarrow> xstate \<Rightarrow> nat \<Rightarrow> xstate \<Rightarrow> bool" where
  "reaches_x fp c p st q st' \<longleftrightarrow> (\<exists>n. xrun fp c n (p, st) = Some (q, st'))"

lemma reaches_x_refl: "reaches_x fp c p st p st"
  unfolding reaches_x_def by (rule exI [of _ 0]) simp

lemma reaches_x_trans [trans]:
  "reaches_x fp c p st q st' \<Longrightarrow> reaches_x fp c q st' r st'' \<Longrightarrow> reaches_x fp c p st r st''"
  unfolding reaches_x_def by (metis xrun_add bind.bind_lunit)

lemma reaches_x_listing:
  "encoded l \<Longrightarrow> code_at c p (listing_bytes l) \<Longrightarrow> \<forall>x\<in>set l. straight (snd x) \<Longrightarrow>
    reaches_x fp c p st (p + length (listing_bytes l)) (effect fp l st)"
  unfolding reaches_x_def by (blast intro: run_listing)

lemma reaches_x_step:
  "encodes bs i \<Longrightarrow> code_at c p bs \<Longrightarrow> next_ip i (p + length bs) st = Some q \<Longrightarrow>
    reaches_x fp c p st q (xexec fp i st)"
  unfolding reaches_x_def by (rule exI [of _ 1]) (simp add: xstep_encoded)

lemma straight_listing:
  assumes "t \<notin> {CBRANCH, CFROUND}" "x \<in> set (x86_listing flags t jz d s instr)"
  shows "straight (snd x)"
proof -
  have a: "straight (snd y)" if "y \<in> set (address_listing r k v m)" for y r k v m
    using that by (auto simp: address_listing_def split: if_splits)
  show ?thesis using assms by (cases t) (auto dest: a split: if_splits)
qed

text \<open>Every instruction but the branch and the rounding-mode switch: the code of the instruction
  takes the machine from its first byte to the byte after its last.\<close>

lemma run_straight:
  assumes "corresponds cfg x0 b x" "dst_n instr < 8" "src_n instr < 8" "t \<notin> {CBRANCH, CFROUND}"
    and "code_at c p (listing_bytes (x86_listing flags t jz (dst_n instr) (src_n instr) instr))"
  shows "\<exists>b' x'. executeInstruction fp cfg flags (fst (gen_of t instr i ibc u)) pc b = Some (pc, b') \<and>
    reaches_x fp c p x (p + length (listing_bytes (x86_listing flags t jz (dst_n instr) (src_n instr) instr))) x' \<and>
    corresponds cfg x0 b' x'"
proof -
  let ?l = "x86_listing flags t jz (dst_n instr) (src_n instr) instr"
  obtain b' where b': "executeInstruction fp cfg flags (fst (gen_of t instr i ibc u)) pc b = Some (pc, b')"
    "corresponds cfg x0 b' (effect fp ?l x)"
    using sim_listing [OF assms(1-4)] by blast
  have "reaches_x fp c p x (p + length (listing_bytes ?l)) (effect fp ?l x)"
    by (rule reaches_x_listing [OF encoded_listing [OF assms(2,3)] assms(5)]) (blast intro: straight_listing [OF assms(4)])
  with b' show ?thesis by blast
qed

section \<open>The rounding mode\<close>

lemma rotation_13:
  assumes "k < 51"
  shows "bit (word_rotl (unat ((13 - (v AND 63)) AND 63 :: u32)) (s :: u64)) (13 + k) \<longleftrightarrow> bit (word_rotr (unat (v AND 63)) s) k"
proof -
  define c where "c = unat (v AND 63)"
  have c: "c < 64" by (simp add: c_def unat_and_63)
  have r: "unat ((13 - (v AND 63)) AND 63 :: u32) = (if c \<le> 13 then 13 - c else 77 - c)"
  proof -
    have "unat (13 - (v AND 63)) = (if c \<le> 13 then 13 - c else 13 + 2 ^ 32 - c)"
      using unat_sub_if' [of "13 :: u32" "v AND 63"] c by (simp add: c_def)
    moreover have "(13 + 2 ^ 32 - c) mod 64 = 77 - c" if "\<not> c \<le> 13"
    proof -
      have "13 + 2 ^ 32 - c = (77 - c) + 64 * (2 ^ 26 - 1)" using c by simp
      then show ?thesis using that by (simp only: mod_mult_self2) simp
    qed
    ultimately show ?thesis by (simp add: unat_and_63)
  qed
  define rr where "rr = unat ((13 - (v AND 63)) AND 63 :: u32)"
  have rr: "rr < 64" using r c by (auto simp: rr_def)
  have "(13 + k + (64 - rr mod 64)) mod 64 = (k + c) mod 64"
  proof (cases "c \<le> 13")
    case True
    then have "13 + k + (64 - rr mod 64) = (k + c) + 64" using r rr c by (simp add: rr_def)
    then show ?thesis by (simp only: mod_add_self2)
  next
    case False
    then have "13 + k + (64 - rr mod 64) = k + c" using r rr c by (simp add: rr_def)
    then show ?thesis by (simp only:)
  qed
  then show ?thesis using assms unfolding rr_def [symmetric] c_def [symmetric]
    by (simp add: bit_word_rotl_iff bit_word_rotr_iff)
qed


text \<open>A store to the slot of \<^verbatim>\<open>mxcsr\<close> leaves the scratchpad alone; loading it back sets the
  rounding mode.\<close>

lemma load_stored32: "x_load32 (x_store m a (bytes32 w)) a = w"
proof -
  have "x_store m a (bytes32 w) (a + of_nat k) = store32 (\<lambda>_. 0) 0 w k" if "k < 4" for k
  proof -
    have "unat (of_nat k :: u64) = k" using that by (simp add: unat_of_nat)
    moreover have "k = 0 \<or> k = 1 \<or> k = 2 \<or> k = 3" using that by linarith
    ultimately show ?thesis by (auto simp: x_store_def bytes32_def store32_def)
  qed
  then have "x_load32 (x_store m a (bytes32 w)) a = load32 (store32 (\<lambda>_. 0) 0 w) 0"
    unfolding x_load32_def by (intro c32.load_cong) simp
  then show ?thesis by (simp add: c32.load_store_same)
qed

lemma corresponds_rounding:
  assumes "corresponds cfg x0 b x" "drop_bit 13 w AND 3 = rm"
  shows "corresponds cfg x0 (b\<lparr>b_rm := rm\<rparr>)
    (x\<lparr>x_mem := x_store (x_mem x) (x_reg x0 4) (bytes32 w), x_mxcsr := w\<rparr>)"
proof -
  have frame: "x_store (x_mem x) (x_reg x0 4) (bytes32 w) a = x_mem x a" if "\<not> in_slot x0 a" for a
  proof -
    have "\<not> unat (a - x_reg x0 4) < 4"
    proof
      assume "unat (a - x_reg x0 4) < 4"
      then have "in_slot x0 a" unfolding in_slot_def by (intro exI [of _ "unat (a - x_reg x0 4)"]) simp
      with that show False by simp
    qed
    then show ?thesis by (simp add: x_store_def)
  qed
  have "in_scratchpad x0 (x_reg x0 6 + of_nat n)" if "n < ScratchpadSize" for n
    using that by (auto simp: in_scratchpad_def)
  then show ?thesis using assms frame by (simp add: corresponds_def rounding_def)
qed

lemma rounding_bits:
  assumes "\<And>k. k < 51 \<Longrightarrow> bit y (13 + k) \<longleftrightarrow> bit z k"
  shows "drop_bit 13 (ucast (low32 (low32 (low32 (low32 y AND 24576)) OR 40896)) :: u32) AND 3 = ucast (z AND 3 :: u64)"
proof (rule bit_word_eqI)
  fix n assume n: "n < LENGTH(32)"
  have m3: "bit (3 :: u32) n \<longleftrightarrow> n < 2" "bit (3 :: u64) n \<longleftrightarrow> n < 2"
  proof -
    have "(3 :: u32) = mask 2" "(3 :: u64) = mask 2" by (simp_all add: mask_eq_decr_exp)
    then show "bit (3 :: u32) n \<longleftrightarrow> n < 2" "bit (3 :: u64) n \<longleftrightarrow> n < 2"
      by (simp_all only: bit_mask_iff) auto
  qed
  show "bit (drop_bit 13 (ucast (low32 (low32 (low32 (low32 y AND 24576)) OR 40896)) :: u32) AND 3) n =
    bit (ucast (z AND 3) :: u32) n"
  proof (cases "n < 2")
    case True
    then have "n = 0 \<or> n = 1" by linarith
    then show ?thesis using assms [of n]
      by (auto simp: bit_and_iff bit_or_iff bit_drop_bit_eq bit_ucast_iff bit_low32 m3)
  next
    case False
    then show ?thesis by (simp only: bit_and_iff bit_ucast_iff m3 simp_thms)
  qed
qed

lemma test_bits:
  assumes "\<And>k. k < 51 \<Longrightarrow> bit y (13 + k) \<longleftrightarrow> bit z k"
  shows "low32 y AND low32 491520 = 0 \<longleftrightarrow> (z :: u64) AND 60 = 0"
proof -
  have b60: "bit (60 :: u64) n \<Longrightarrow> n < 6" for n
    using bit_imp_le_length [of "60 :: 6 word" n] by (cases "n < 6") (auto simp: bit_iff_odd_unat)
  have "low32 y AND low32 (push_bit 13 m) = y AND push_bit 13 m" if "\<And>n. bit m n \<Longrightarrow> n < 6" for m
    by (rule bit_word_eqI) (auto simp: bit_and_iff bit_low32 bit_push_bit_iff dest: that)
  from this [of 60, OF b60] have l: "low32 y AND low32 491520 = y AND push_bit 13 60"
    by (simp only: push_bit_numeral) simp
  show ?thesis
  proof
    assume "low32 y AND low32 491520 = 0"
    then have z: "\<not> bit (y AND push_bit 13 60) n" for n by (simp add: l)
    show "z AND 60 = 0"
    proof (rule bit_word_eqI)
      fix n show "bit (z AND 60) n = bit 0 n"
        using z [of "13 + n"] b60 [of n] assms [of n]
        by (auto simp: bit_and_iff bit_push_bit_iff simp del: push_bit_numeral)
    qed
  next
    assume "z AND 60 = 0"
    then have z: "\<not> bit (z AND 60) n" for n by simp
    show "low32 y AND low32 491520 = 0" unfolding l
    proof (rule bit_word_eqI)
      fix n show "bit (y AND push_bit 13 60) n = bit 0 n"
        using z [of "n - 13"] b60 [of "n - 13"] assms [of "n - 13"]
        by (auto simp: bit_and_iff bit_push_bit_iff simp del: push_bit_numeral)
    qed
  qed
qed


definition cfround_head :: "u32 \<Rightarrow> nat \<Rightarrow> listing" where
  "cfround_head v s =
    (let rotate = unat ((13 - (v AND 63)) AND 63)
     in [(REX_MOV_RR64 @ [modrm 3 0 s], X_MOV True 0 (Reg (s + 8)))] @
        (if rotate \<noteq> 0 then [(ROL_RAX @ [of_nat rotate], X_ROT True 0 (Some rotate))] else []))"

definition cfround_tail :: listing where
  "cfround_tail = [([0x25, 0, 0x60, 0, 0], X_ALU_I A_AND False 0 0x6000),
     ([0x0d, 0xc0, 0x9f, 0, 0], X_ALU_I A_OR False 0 0x9fc0),
     ([0x89, 0x04, 0x24], X_STORE False (Addr 4 None 0) 0),
     ([0x0f, 0xae, 0x14, 0x24], X_LDMXCSR (Addr 4 None 0))]"

lemma cfround_split:
  "cfround_listing flags v s = cfround_head v s @
     (if has_flag flags RANDOMX_FLAG_V2
      then [(TEST_EAX_60SL13, X_TEST_I False 0 0x78000)] @ [([0x75, 17], X_JNZ 17)] else []) @ cfround_tail"
  by (simp add: cfround_listing_def cfround_head_def cfround_tail_def Let_def)

lemma cfround_head_effect:
  assumes "corresponds cfg x0 b x" "s < 8"
  shows "corresponds cfg x0 b (effect fp (cfround_head v s) x)"
    "k < 51 \<Longrightarrow> bit (x_reg (effect fp (cfround_head v s) x) 0) (13 + k) \<longleftrightarrow> bit (word_rotr (unat (v AND 63)) (b_r b s)) k"
proof -
  have "unat ((13 - (v AND 63)) AND 63) mod 64 = unat ((13 - (v AND 63)) AND 63)"
    by (simp add: unat_and_63)
  moreover have rotl_0: "word_rotl 0 w = w" for w :: u64
    by (rule bit_word_eqI) (simp add: bit_word_rotl_iff)
  ultimately have reg: "x_reg (effect fp (cfround_head v s) x) 0 = word_rotl (unat ((13 - (v AND 63)) AND 63)) (b_r b s)"
    using corresponds_values(1) [OF assms] by (simp add: cfround_head_def Let_def sized_def rotl_0)
  show "k < 51 \<Longrightarrow> bit (x_reg (effect fp (cfround_head v s) x) 0) (13 + k) \<longleftrightarrow> bit (word_rotr (unat (v AND 63)) (b_r b s)) k"
    unfolding reg by (rule rotation_13)
  show "corresponds cfg x0 b (effect fp (cfround_head v s) x)"
    using assms(1) by (simp add: cfround_head_def Let_def)
qed

lemma cfround_tail_effect:
  assumes "corresponds cfg x0 b x" "\<And>k. k < 51 \<Longrightarrow> bit (x_reg x 0) (13 + k) \<longleftrightarrow> bit (z :: u64) k"
  shows "corresponds cfg x0 (b\<lparr>b_rm := ucast (z AND 3)\<rparr>) (effect fp cfround_tail x)"
proof -
  define v1 where "v1 = low32 (low32 (x_reg x 0) AND 24576)"
  define v2 where "v2 = low32 (low32 v1 OR 40896)"
  define x1 where "x1 = set_zf (Some (v2 = 0)) (set_reg 0 v2 (set_zf (Some (v1 = 0)) (set_reg 0 v1 x)))"
  have x1: "corresponds cfg x0 b x1" using assms(1) by (simp add: x1_def)
  have lo: "low32 24576 = 24576" "low32 40896 = 40896" by (simp_all add: low32_def)
  have r: "x_reg x1 0 = v2" "x_reg x1 4 = x_reg x0 4"
    using corresponds_values(9) [OF assms(1)] by (simp_all add: x1_def)
  have "drop_bit 13 (ucast v2 :: u32) AND 3 = ucast (z AND 3)"
    unfolding v2_def v1_def by (rule rounding_bits) (rule assms(2))
  from corresponds_rounding [OF x1 this]
  have "corresponds cfg x0 (b\<lparr>b_rm := ucast (z AND 3)\<rparr>)
    (x1\<lparr>x_mem := x_store (x_mem x1) (x_reg x0 4) (bytes32 (ucast v2)), x_mxcsr := ucast v2\<rparr>)" .
  moreover have "effect fp cfround_tail x =
    x1\<lparr>x_mem := x_store (x_mem x1) (x_reg x0 4) (bytes32 (ucast v2)), x_mxcsr := ucast v2\<rparr>"
    using r by (simp add: cfround_tail_def sized_def Let_def lo load_stored32 v1_def [symmetric] v2_def [symmetric] x1_def [symmetric])
  ultimately show ?thesis by simp
qed

lemma length_cfround_tail: "length (listing_bytes cfround_tail) = 17"
  by (simp add: cfround_tail_def)

lemma straight_cfround: "\<forall>x\<in>set (cfround_head v s). straight (snd x)" "\<forall>x\<in>set cfround_tail. straight (snd x)"
  by (auto simp: cfround_head_def cfround_tail_def Let_def)

lemma execute_cfround:
  "executeInstruction fp cfg flags (fst (gen_of CFROUND instr i ibc u)) pc b =
    (let z = word_rotr (unat (getImm32 instr AND 63)) (b_r b (src_int instr))
     in Some (pc, if \<not> has_flag flags RANDOMX_FLAG_V2 \<or> z AND 60 = 0 then b\<lparr>b_rm := ucast (z AND 3)\<rparr> else b))"
proof -
  have "unat (ucast (ucast v :: u64) :: u32) = unat v" for v :: u32
    by (simp add: unsigned_ucast_eq unsigned_take_bit_eq take_bit_nat_eq_self less_trans [OF unat_u32_less])
  then show ?thesis
    by (simp add: executeInstruction_def exe_CFROUND_def gen_CFROUND_def isrc_val_def Let_def
        rotr_eq_word_rotr unat_and_63)
qed

lemma run_cfround:
  assumes c: "corresponds cfg x0 b x" and d: "dst_n instr < 8" "src_n instr < 8"
    and at: "code_at code p (listing_bytes (x86_listing flags CFROUND jz (dst_n instr) (src_n instr) instr))"
  shows "\<exists>b' x'. executeInstruction fp cfg flags (fst (gen_of CFROUND instr i ibc u)) pc b = Some (pc, b') \<and>
    reaches_x fp code p x (p + length (listing_bytes (x86_listing flags CFROUND jz (dst_n instr) (src_n instr) instr))) x' \<and>
    corresponds cfg x0 b' x'"
proof -
  let ?v = "getImm32 instr" and ?s = "src_n instr"
  define z where "z = word_rotr (unat (?v AND 63)) (b_r b ?s)"
  have s: "src_int instr = ?s" using d by (simp add: src_int_def RegistersCount_def)
  define hd where "hd = cfround_head ?v ?s"
  define x1 where "x1 = effect fp hd x"
  have enc: "encoded (x86_listing flags CFROUND jz (dst_n instr) ?s instr)" by (rule encoded_listing [OF d])
  have x1: "corresponds cfg x0 b x1" and b1: "k < 51 \<Longrightarrow> bit (x_reg x1 0) (13 + k) \<longleftrightarrow> bit z k" for k
    using cfround_head_effect [OF c d(2)] by (simp_all add: x1_def hd_def z_def)
  show ?thesis
  proof (cases "has_flag flags RANDOMX_FLAG_V2")
    case False
    then have l: "x86_listing flags CFROUND jz (dst_n instr) ?s instr = hd @ cfround_tail"
      by (simp add: cfround_split hd_def)
    have "reaches_x fp code p x (p + length (listing_bytes (hd @ cfround_tail))) (effect fp (hd @ cfround_tail) x)"
      by (rule reaches_x_listing) (use enc at l straight_cfround in \<open>auto simp: hd_def\<close>)
    moreover have "corresponds cfg x0 (b\<lparr>b_rm := ucast (z AND 3)\<rparr>) (effect fp (hd @ cfround_tail) x)"
      using cfround_tail_effect [OF x1 b1] by (simp add: x1_def)
    ultimately show ?thesis unfolding l execute_cfround Let_def s z_def [symmetric]
      using False by (intro exI conjI) simp_all
  next
    case True
    define tst where "tst = [(TEST_EAX_60SL13, X_TEST_I False 0 0x78000)]"
    have l: "x86_listing flags CFROUND jz (dst_n instr) ?s instr = (hd @ tst) @ [([0x75, 17], X_JNZ 17)] @ cfround_tail"
      using True by (simp add: cfround_split hd_def tst_def)
    define x2 where "x2 = effect fp (hd @ tst) x"
    have x2: "x2 = set_zf (Some (low32 (x_reg x1 0) AND low32 491520 = 0)) x1"
      by (simp add: x2_def tst_def x1_def [symmetric] sized_def)
    define q where "q = p + length (listing_bytes (hd @ tst))"
    have at': "code_at code p (listing_bytes (hd @ tst))" "code_at code q [0x75, 17]"
      "code_at code (q + 2) (listing_bytes cfround_tail)"
    proof -
      have "listing_bytes (x86_listing flags CFROUND jz (dst_n instr) ?s instr) =
          listing_bytes (hd @ tst) @ [0x75, 17] @ listing_bytes cfround_tail" by (simp only: l) simp
      with at have "code_at code p (listing_bytes (hd @ tst))" "code_at code q [0x75, 17]"
        "code_at code (q + length [0x75 :: u8, 17]) (listing_bytes cfround_tail)"
        by (simp_all only: code_at_append q_def)
      then show "code_at code p (listing_bytes (hd @ tst))" "code_at code q [0x75, 17]"
        "code_at code (q + 2) (listing_bytes cfround_tail)" by simp_all
    qed
    have enc': "encoded (hd @ tst)" "encodes [0x75, 17] (X_JNZ 17)" "encoded cfround_tail"
      using enc l by simp_all
    have r1: "reaches_x fp code p x q x2"
      unfolding q_def x2_def by (rule reaches_x_listing [OF enc'(1) at'(1)])
        (use straight_cfround in \<open>auto simp: hd_def tst_def\<close>)
    have fin: "p + length (listing_bytes ((hd @ tst) @ [([0x75, 17], X_JNZ 17)] @ cfround_tail)) = q + 2 + 17"
      by (simp add: q_def length_cfround_tail)
    have test: "low32 (x_reg x1 0) AND low32 491520 = 0 \<longleftrightarrow> z AND 60 = 0"
      by (rule test_bits [OF b1])
    show ?thesis
    proof (cases "z AND 60 = 0")
      case True
      have "next_ip (X_JNZ 17) (q + length [0x75 :: u8, 17]) x2 = Some (q + 2)"
        using True test by (simp add: next_ip_def x2)
      from reaches_x_step [OF enc'(2) at'(2) this, of fp]
      have r2: "reaches_x fp code q x2 (q + 2) x2" by simp
      have r3: "reaches_x fp code (q + 2) x2 (q + 2 + 17) (effect fp cfround_tail x2)"
        using reaches_x_listing [OF enc'(3) at'(3) straight_cfround(2), of fp x2] by (simp only: length_cfround_tail)
      have "corresponds cfg x0 (b\<lparr>b_rm := ucast (z AND 3)\<rparr>) (effect fp cfround_tail x2)"
        by (rule cfround_tail_effect) (use x1 b1 in \<open>simp_all add: x2\<close>)
      with reaches_x_trans [OF r1 reaches_x_trans [OF r2 r3]] True show ?thesis
        unfolding l fin execute_cfround Let_def s z_def [symmetric] by (intro exI conjI) simp_all
    next
      case False
      have "next_ip (X_JNZ 17) (q + length [0x75 :: u8, 17]) x2 = Some (q + 2 + 17)"
        using False test by (simp add: next_ip_def x2 jump_def)
      from reaches_x_step [OF enc'(2) at'(2) this, of fp]
      have r2: "reaches_x fp code q x2 (q + 2 + 17) x2" by simp
      have "corresponds cfg x0 b x2" using x1 by (simp add: x2)
      with reaches_x_trans [OF r1 r2] False \<open>has_flag flags RANDOMX_FLAG_V2\<close> show ?thesis
        unfolding l fin execute_cfround Let_def s z_def [symmetric] by (intro exI conjI) simp_all
    qed
  qed
qed

end
