(* ===== verification/Jit_X86_Prog.thy ===== *)
theory Jit_X86_Prog
  imports Jit_X86_Run
begin

text \<open>
  The conditional branch, and a whole program: if the code at every recorded offset is the
  listing of its bytecode instruction, the processor follows the interpreter loop from the
  first instruction to the position behind the last.
\<close>

section \<open>Branches\<close>

lemma branch_immediate:
  "signExtend2sCompl (branch_imm instr) =
    (signExtend2sCompl (getImm32 instr) OR push_bit (getModCond instr + ConditionOffset) 1)
      AND NOT (push_bit (getModCond instr + ConditionOffset - 1) 1)"
proof (rule bit_word_eqI)
  define sh where "sh = getModCond instr + ConditionOffset"
  have off: "ConditionOffset = 8" by (simp add: config)
  have sh: "sh < 31" "0 < sh" unfolding sh_def off using getModCond_less [of instr] by linarith+
  fix n assume n: "n < LENGTH(64)"
  have b1: "bit (push_bit m (1::u32)) n \<longleftrightarrow> n = m" "bit (push_bit m (1::u64)) n \<longleftrightarrow> n = m" if "m < 31" for m n
    using that by (auto simp: bit_exp_iff)
  show "bit (signExtend2sCompl (branch_imm instr)) n =
    bit ((signExtend2sCompl (getImm32 instr) OR push_bit (getModCond instr + ConditionOffset) 1)
      AND NOT (push_bit (getModCond instr + ConditionOffset - 1) 1)) n"
    unfolding branch_imm_def sh_def [symmetric] signExtend2sCompl_def using n sh
    by (auto simp: bit_word_scast_iff bit_and_iff bit_or_iff bit_not_iff b1 simp del: push_bit_of_1
        dest: bit_imp_le_length)
qed

lemma branch_mask:
  "signExtend2sCompl (push_bit (getModCond instr + ConditionOffset) ConditionMask) =
    ucast (push_bit (getModCond instr + ConditionOffset) ConditionMask)"
proof -
  define sh where "sh = getModCond instr + ConditionOffset"
  have off: "ConditionOffset = 8" by (simp add: config)
  have sh: "sh < 24" unfolding sh_def off using getModCond_less [of instr] by linarith
  have m: "(255 :: u32) = mask 8" by (simp add: mask_eq_decr_exp)
  show ?thesis unfolding sh_def [symmetric] signExtend2sCompl_def mask_values m
    by (rule bit_word_eqI) (use sh in \<open>auto simp: bit_word_scast_iff bit_ucast_iff bit_push_bit_iff bit_mask_iff\<close>)
qed

lemma length_branch: "length (listing_bytes (x86_listing flags CBRANCH jz d s instr)) = 20"
  by (simp add: x86_const)

lemma run_cbranch:
  assumes c: "corresponds cfg x0 b x" and d: "dst_n instr < 8" "src_n instr < 8"
    and at: "code_at code p (listing_bytes (x86_listing flags CBRANCH jz (dst_n instr) (src_n instr) instr))"
    and u: "-1 \<le> u (dst_n instr)" "u (dst_n instr) < 32768" and j: "jump (p + 20) (sint jz) = Some q"
  shows "\<exists>b' x' taken. executeInstruction fp cfg flags (fst (gen_of CBRANCH instr i ibc u)) pc b =
      Some (if taken then u (dst_n instr) else pc, b') \<and>
    reaches_x fp code p x (if taken then q else p + 20) x' \<and> corresponds cfg x0 b' x'"
proof -
  let ?d = "dst_n instr" and ?sh = "getModCond instr + ConditionOffset"
  let ?ibc = "fst (gen_of CBRANCH instr i ibc u)"
  have ix: "dst_int instr = ?d" using d by (simp add: dst_int_def RegistersCount_def)
  have off: "ConditionOffset = 8" by (simp add: config)
  have f: "bc_type ?ibc = CBRANCH" "bc_dst ?ibc = DstR ?d" "bc_imm ?ibc = signExtend2sCompl (branch_imm instr)"
    "bc_memMask ?ibc = push_bit ?sh ConditionMask" "target ?ibc = u ?d"
    unfolding branch_immediate using u
    by (simp_all add: gen_CBRANCH_def Let_def setTarget_def ix off target_def signed_of_int signed_take_bit_int_eq_self)
  define r where "r = b_r b ?d + signExtend2sCompl (branch_imm instr)"
  define taken where "taken \<longleftrightarrow> r AND ucast (push_bit ?sh ConditionMask) = 0"
  define b' where "b' = b\<lparr>b_r := (b_r b)(?d := r)\<rparr>"
  have ex: "executeInstruction fp cfg flags ?ibc pc b = Some (if taken then u ?d else pc, b')"
    unfolding execute_branch [OF f(1,2)] f Let_def r_def [symmetric] taken_def b'_def by simp
  define l1 where "l1 = [(REX_ADD_I @ modrm 3 0 ?d # bytes32 (branch_imm instr), X_ALU_I A_ADD True (?d + 8) (scast (branch_imm instr))),
      (REX_TEST @ modrm 3 0 ?d # bytes32 (push_bit ?sh ConditionMask),
       X_TEST_I True (?d + 8) (scast (push_bit ?sh ConditionMask)))]"
  have l: "x86_listing flags CBRANCH jz ?d (src_n instr) instr = l1 @ [(JZ @ bytes32 jz, X_JZ (sint jz))]"
    by (simp add: l1_def)
  have enc: "encoded l1" "encodes (JZ @ bytes32 jz) (X_JZ (sint jz))"
    using encoded_listing [OF d, of flags CBRANCH jz instr] unfolding l by simp_all
  have len: "length (listing_bytes l1) = 14" "length (JZ @ bytes32 jz) = 6" by (simp_all add: l1_def x86_const)
  have at': "code_at code p (listing_bytes l1)" "code_at code (p + 14) (JZ @ bytes32 jz)"
  proof -
    have "listing_bytes (x86_listing flags CBRANCH jz ?d (src_n instr) instr) = listing_bytes l1 @ (JZ @ bytes32 jz)"
      by (simp only: l) simp
    with at have "code_at code p (listing_bytes l1) \<and> code_at code (p + length (listing_bytes l1)) (JZ @ bytes32 jz)"
      by (simp only: code_at_append)
    then show "code_at code p (listing_bytes l1)" "code_at code (p + 14) (JZ @ bytes32 jz)" by (simp_all only: len)
  qed
  define x1 where "x1 = effect fp l1 x"
  have x1: "x1 = set_zf (Some taken) (set_zf (Some (r = 0)) (set_reg (?d + 8) r x))"
    using corresponds_values(1) [OF c d(1)]
    by (simp add: x1_def l1_def sized_def Let_def r_def taken_def branch_mask signExtend2sCompl_def [symmetric])
  have r1: "reaches_x fp code p x (p + 14) x1"
    using reaches_x_listing [OF enc(1) at'(1), of fp x] by (simp only: len x1_def) (simp add: l1_def)
  have "next_ip (X_JZ (sint jz)) (p + 14 + length (JZ @ bytes32 jz)) x1 = Some (if taken then q else p + 20)"
    using j unfolding len by (simp add: next_ip_def x1 add.assoc)
  from reaches_x_step [OF enc(2) at'(2) this, of fp]
  have "reaches_x fp code (p + 14) x1 (if taken then q else p + 20) x1" by simp
  then have "reaches_x fp code p x (if taken then q else p + 20) x1" by (rule reaches_x_trans [OF r1])
  moreover have "corresponds cfg x0 b' x1" unfolding b'_def x1 using corresponds_registers(1) [OF c d(1)] by simp
  ultimately show ?thesis using ex by blast
qed

section \<open>A whole program\<close>

text \<open>
  \<open>code_matches\<close>: for every instruction of the program the buffer holds, at its offset, the
  listing of the instruction the bytecode was compiled from, and a branch jumps to the offset
  of the instruction behind the last one that wrote its register.
\<close>

definition code_matches :: "mem \<Rightarrow> (nat \<Rightarrow> nat) \<Rightarrow> InstructionByteCode list \<Rightarrow> u32 \<Rightarrow> nat \<Rightarrow> bool" where
  "code_matches c off bc flags n \<longleftrightarrow> (\<forall>i<n. \<exists>t instr ibc u jz.
     dst_n instr < 8 \<and> src_n instr < 8 \<and> bc ! i = fst (gen_of t instr i ibc u) \<and>
     code_at c (off i) (listing_bytes (x86_listing flags t jz (dst_n instr) (src_n instr) instr)) \<and>
     off (Suc i) = off i + length (listing_bytes (x86_listing flags t jz (dst_n instr) (src_n instr) instr)) \<and>
     (t = CBRANCH \<longrightarrow> -1 \<le> u (dst_n instr) \<and> u (dst_n instr) < int i \<and>
        jz = word_of_int (int (off (nat (u (dst_n instr) + 1))) - int (off i + 20))))"

lemma code_matches_mono:
  assumes "code_matches c off bc flags n" "i \<le> j" "j \<le> n"
  shows "off i \<le> off j"
  using assms(2,3)
proof (induction j rule: dec_induct)
  case (step k)
  then have "k < n" by simp
  then obtain m where "off (Suc k) = off k + m" using assms(1) unfolding code_matches_def by blast
  with step show ?case by auto
qed simp

lemma sint_small: "- 2147483648 \<le> z \<Longrightarrow> z < 2147483648 \<Longrightarrow> sint (word_of_int z :: u32) = z"
  by (simp add: signed_of_int signed_take_bit_int_eq_self)

text \<open>One instruction of the interpreter is matched by its code.\<close>

lemma run_instruction:
  assumes m: "code_matches c off bc flags n" and small: "off n < 2 ^ 31" "n \<le> 32768"
    and i: "i < n" and b: "corresponds cfg x0 b x"
  shows "\<exists>pc' b' x'. executeInstruction fp cfg flags (bc ! i) (int i) b = Some (pc', b') \<and>
    -1 \<le> pc' \<and> pc' \<le> int i \<and> reaches_x fp c (off i) x (off (nat (pc' + 1))) x' \<and> corresponds cfg x0 b' x'"
proof -
  obtain t instr ibc u jz where d: "dst_n instr < 8" "src_n instr < 8"
    and bc: "bc ! i = fst (gen_of t instr i ibc u)"
    and at: "code_at c (off i) (listing_bytes (x86_listing flags t jz (dst_n instr) (src_n instr) instr))"
    and nxt: "off (Suc i) = off i + length (listing_bytes (x86_listing flags t jz (dst_n instr) (src_n instr) instr))"
    and br: "t = CBRANCH \<Longrightarrow> -1 \<le> u (dst_n instr) \<and> u (dst_n instr) < int i \<and>
        jz = word_of_int (int (off (nat (u (dst_n instr) + 1))) - int (off i + 20))"
    using m i unfolding code_matches_def by blast
  have suc: "nat (int i + 1) = Suc i" by simp
  consider "t = CBRANCH" | "t = CFROUND" | "t \<notin> {CBRANCH, CFROUND}" by blast
  then show ?thesis
  proof cases
    case 1
    let ?u = "u (dst_n instr)"
    define q where "q = off (nat (?u + 1))"
    have u: "-1 \<le> ?u" "?u < int i" and jz: "jz = word_of_int (int q - int (off i + 20))"
      using br [OF 1] by (simp_all add: q_def)
    have len: "off (Suc i) = off i + 20" using nxt unfolding 1 length_branch .
    have "nat (?u + 1) \<le> i" using u by linarith
    then have "q \<le> off i" unfolding q_def using code_matches_mono [OF m] i by simp
    moreover have "off (Suc i) \<le> off n" using code_matches_mono [OF m] i by simp
    moreover have "off n < 2147483648" using small(1) by simp
    ultimately have range: "- 2147483648 \<le> int q - int (off i + 20)" "int q - int (off i + 20) < 2147483648"
      using len by linarith+
    have "sint jz = int q - int (off i + 20)"
      unfolding jz by (rule sint_small) (use range in simp_all)
    then have j: "jump (off i + 20) (sint jz) = Some q" by (simp add: jump_def)
    have u': "?u < 32768" using u i small(2) by linarith
    from run_cbranch [where u = u and instr = instr and i = i and ibc = ibc and pc = "int i" and fp = fp,
        OF b d at [unfolded 1] u(1) u' j]
    obtain b' x' taken where ex: "executeInstruction fp cfg flags (bc ! i) (int i) b = Some (if taken then ?u else int i, b')"
      and r: "reaches_x fp c (off i) x (if taken then q else off i + 20) x'" "corresponds cfg x0 b' x'"
      unfolding bc 1 by blast
    have "reaches_x fp c (off i) x (off (nat ((if taken then ?u else int i) + 1))) x'"
      using r(1) by (cases taken) (simp_all add: q_def suc len)
    with ex r(2) u show ?thesis by (intro exI conjI) (auto split: if_splits)
  next
    case 2
    from run_cfround [where u = u and instr = instr and i = i and ibc = ibc and pc = "int i" and fp = fp,
        OF b d at [unfolded 2]] nxt show ?thesis
      unfolding bc 2 by (metis suc order_refl int_nat_eq of_nat_0_le_iff order_trans neg_le_0_iff_le zero_le_one)
  next
    case 3
    from run_straight [where u = u and instr = instr and i = i and ibc = ibc and pc = "int i" and fp = fp,
        OF b d 3 at] nxt show ?thesis
      unfolding bc by (metis suc order_refl of_nat_0_le_iff order_trans neg_le_0_iff_le zero_le_one)
  qed
qed

lemma run_program:
  assumes m: "code_matches c off bc flags n" and small: "off n < 2 ^ 31" "n \<le> 32768"
    and fin: "exec_loop k fp cfg flags bc n pc b = Finished b'" and pc: "0 \<le> pc" "pc \<le> int n"
    and b: "corresponds cfg x0 b x"
  shows "\<exists>x'. reaches_x fp c (off (nat pc)) x (off n) x' \<and> corresponds cfg x0 b' x'"
  using fin pc b
proof (induction k arbitrary: pc b x)
  case 0
  then have "b' = b" "pc = int n" by (auto split: if_splits)
  with 0(4) show ?case by (auto intro!: exI [of _ x] reaches_x_refl)
next
  case (Suc k)
  show ?case
  proof (cases "int n \<le> pc")
    case True
    with Suc.prems have "b' = b" "pc = int n" by auto
    with Suc.prems(4) show ?thesis by (auto intro!: exI [of _ x] reaches_x_refl)
  next
    case False
    define i where "i = nat pc"
    have i: "pc = int i" "i < n" using False Suc.prems(2) by (simp_all add: i_def)
    from run_instruction [OF m small i(2) Suc.prems(4)]
    obtain pc' b1 x1 where ex: "executeInstruction fp cfg flags (bc ! i) (int i) b = Some (pc', b1)"
      "-1 \<le> pc'" "pc' \<le> int i" and r: "reaches_x fp c (off i) x (off (nat (pc' + 1))) x1" "corresponds cfg x0 b1 x1"
      by blast
    have k: "exec_loop k fp cfg flags bc n (pc' + 1) b1 = Finished b'"
      using Suc.prems(1) False ex(1) i(1) Suc.prems(2) by (simp split: if_splits)
    have "0 \<le> pc' + 1" "pc' + 1 \<le> int n" using ex(2,3) i(2) by linarith+
    from Suc.IH [OF k this r(2)]
    obtain x' where "reaches_x fp c (off (nat (pc' + 1))) x1 (off n) x'" "corresponds cfg x0 b' x'" by blast
    with reaches_x_trans [OF r(1)] show ?thesis by (auto simp: i_def)
  qed
qed

end
