(* ===== verification/Jit_X86_Gen.thy ===== *)
theory Jit_X86_Gen
  imports Jit_X86_Prog
begin

text \<open>
  The compiler follows \<open>compileProgram\<close>: after every instruction the recorded offsets,
  the register usage and the code in the buffer agree with the bytecode compiled so far, and
  an instruction takes at most 32 bytes.
\<close>

section \<open>Compilation of one instruction\<close>

lemma run_for_each_usage:
  "run_state (for_each (\<lambda>r. set_usage r i) rs) j = ((), j\<lparr>j_usage := (\<lambda>r. if r \<in> set rs then int i else j_usage j r)\<rparr>)"
  by (induction rs arbitrary: j) (auto simp: fun_eq_iff intro!: arg_cong [of _ _ "\<lambda>u. _\<lparr>j_usage := u\<rparr>"])

lemma run_branch:
  assumes "dst_n instr < 8"
  shows "run_state (x86_CBRANCH instr i) j =
    ((), (appended (listing_bytes (x86_listing fl CBRANCH
            (word_of_int (int (j_offsets j ! nat (j_usage j (dst_n instr) + 1)) - int (j_pos j + 20)))
            (dst_n instr) s instr)) j)
        \<lparr>j_usage := snd (gen_of CBRANCH instr i ibc (j_usage j))\<rparr>)"
proof -
  have off: "ConditionOffset = 8" "RegistersCount = 8" by (simp_all add: config)
  have len: "length REX_ADD_I = 2" "length REX_TEST = 2" "length JZ = 2" by (simp_all add: x86_const)
  have r: "[0..<8] = [0, 1, 2, 3, 4, 5, 6, 7]" by (simp add: upt_rec)
  have u: "snd (gen_of CBRANCH instr i ibc (j_usage j)) = (\<lambda>r. if r \<in> set [0..<RegistersCount] then int i else j_usage j r)"
    by (simp add: gen_CBRANCH_def Let_def fun_eq_iff)
  show ?thesis unfolding x86_CBRANCH_def u using assms
    by (simp add: Let_def run_emitByte_modrm run_for_each_usage off len branch_imm_def
        cong: if_cong) (simp add: add.commute)
qed

lemma gen_of_reduced: "gen_of t (reduced instr) = gen_of t instr"
proof -
  have f: "dst_int (reduced instr) = dst_int instr" "src_int (reduced instr) = src_int instr"
    "dst_flt (reduced instr) = dst_flt instr" "src_flt (reduced instr) = src_flt instr"
    by (simp_all add: reduced_def dst_int_def src_int_def dst_flt_def src_flt_def RegistersCount_def
        RegisterCountFlt_def mod_mod_cancel)
  have g: "getImm32 (reduced instr) = getImm32 instr" "getModMem (reduced instr) = getModMem instr"
    "getModShift (reduced instr) = getModShift instr" "getModCond (reduced instr) = getModCond instr"
    by (simp_all add: reduced_def reduce_dst_def reduce_src_def getImm32_def getModMem_def getModShift_def getModCond_def)
  have m: "modMemMask (reduced instr) = modMemMask instr" by (simp add: modMemMask_def g)
  show ?thesis by (cases t) (simp_all add: fun_eq_iff gen_defs f g m Let_def)
qed

lemma reduced_fields: "dst_n (reduced instr) < 8" "src_n (reduced instr) < 8" "i_opcode (reduced instr) = i_opcode instr"
  by (simp_all add: reduced_def RegistersCount_def) (simp add: reduce_dst_def reduce_src_def)

lemma gen_of_agree:
  assumes "\<forall>k<8. u k = u' k"
  shows "fst (gen_of t instr i ibc u) = fst (gen_of t instr i ibc u')"
    and "\<forall>k<8. snd (gen_of t instr i ibc u) k = snd (gen_of t instr i ibc u') k"
proof -
  show f: "fst (gen_of t instr i ibc u) = fst (gen_of t instr i ibc u')"
    using assms by (cases t) (simp_all add: gen_defs Let_def)
  show "\<forall>k<8. snd (gen_of t instr i ibc u) k = snd (gen_of t instr i ibc u') k"
    using assms by (simp add: gen_of_usage f)
qed

lemma length_listing: "length (listing_bytes (x86_listing flags t jz d s instr)) \<le> 32"
proof -
  have a: "length (listing_bytes (address_listing 0 k v m)) \<le> 13"
    "length (listing_bytes (address_listing 1 k v m)) \<le> 14" for k v m
    by (simp_all add: address_listing_def x86_const)
  show ?thesis
    using a [of s "getImm32 instr" "modMemMask instr"] a(1) [of d "getImm32 instr" "modMemMask instr"]
      a(1) [of d "getImm32 instr" ScratchpadL3Mask]
    by (cases t) (simp_all add: x86_const cfround_listing_def Let_def)
qed

text \<open>The generator of an instruction appends its listing.\<close>

lemma run_generateCode:
  assumes t: "type_of_opcode (unat (i_opcode instr)) = Some t"
    and d: "dst_n instr < 8" "src_n instr < 8" and j: "j' = j\<lparr>j_offsets := j_offsets j @ [j_pos j]\<rparr>"
  shows "\<exists>jz. snd (run_state (generateCode instr i) j) =
      (appended (listing_bytes (x86_listing (j_flags j) t jz (dst_n instr) (src_n instr) instr)) j')
        \<lparr>j_usage := snd (gen_of t instr i ibc (j_usage j))\<rparr> \<and>
    (t = CBRANCH \<longrightarrow> jz = word_of_int (int (j_offsets j' ! nat (j_usage j (dst_n instr) + 1)) - int (j_pos j + 20)))"
proof -
  have "x86_engine ! unat (i_opcode instr) = x86_generator t"
    using inst_table_type [of "unat (i_opcode instr)" x86_generator] t by (simp add: x86_engine_def)
  then have run: "snd (run_state (generateCode instr i) j) = snd (run_state (x86_generator t instr i) j')"
    by (simp add: generateCode_def j)
  have f: "j_flags j' = j_flags j" "j_usage j' = j_usage j" "j_pos j' = j_pos j" by (simp_all add: j)
  show ?thesis
  proof (cases "t = CBRANCH")
    case True
    with run_branch [where instr = instr and i = i and j = j' and fl = "j_flags j" and s = "src_n instr" and ibc = ibc,
        OF d(1)] show ?thesis unfolding run by (simp add: f)
  next
    case False
    with run_generator [where t = t and instr = instr and i = i and j = j' and jz = 0 and ibc = ibc, OF d] show ?thesis unfolding run by (auto simp: f)
  qed
qed

section \<open>The loop over the program\<close>

definition off_of :: "jit_compiler \<Rightarrow> nat \<Rightarrow> nat" where
  "off_of J k = (j_offsets J @ [j_pos J]) ! k"

lemma code_at_write: "code_at m p bs \<Longrightarrow> p + length bs \<le> a \<Longrightarrow> code_at (write_bytes m a xs) p bs"
  by (simp add: code_at_def write_bytes_def)

lemma code_at_written: "code_at (write_bytes m a xs) a xs"
  by (simp add: code_at_def write_bytes_def)

lemma code_matches_extend:
  assumes m: "code_matches c off bc flags n" and o: "\<And>k. k \<le> n \<Longrightarrow> off' k = off k"
    and b: "\<And>k. k < n \<Longrightarrow> bc' ! k = bc ! k" and c: "\<And>p bs. p + length bs \<le> off n \<Longrightarrow> code_at c p bs \<Longrightarrow> code_at c' p bs"
  shows "code_matches c' off' bc' flags n"
  unfolding code_matches_def
proof (intro allI impI)
  fix i assume i: "i < n"
  then obtain t instr ibc u jz where d: "dst_n instr < 8" "src_n instr < 8" "bc ! i = fst (gen_of t instr i ibc u)"
    and at: "code_at c (off i) (listing_bytes (x86_listing flags t jz (dst_n instr) (src_n instr) instr))"
    and nxt: "off (Suc i) = off i + length (listing_bytes (x86_listing flags t jz (dst_n instr) (src_n instr) instr))"
    and br: "t = CBRANCH \<Longrightarrow> -1 \<le> u (dst_n instr) \<and> u (dst_n instr) < int i \<and>
        jz = word_of_int (int (off (nat (u (dst_n instr) + 1))) - int (off i + 20))"
    using m unfolding code_matches_def by blast
  have "off (Suc i) \<le> off n" using code_matches_mono [OF m] i by simp
  then have "code_at c' (off i) (listing_bytes (x86_listing flags t jz (dst_n instr) (src_n instr) instr))"
    using c at nxt by simp
  moreover have "off' (nat (u (dst_n instr) + 1)) = off (nat (u (dst_n instr) + 1))" if "t = CBRANCH"
  proof -
    have "nat (u (dst_n instr) + 1) \<le> n" using br [OF that] i by linarith
    then show ?thesis by (rule o)
  qed
  ultimately show "\<exists>t instr ibc u jz. dst_n instr < 8 \<and> src_n instr < 8 \<and> bc' ! i = fst (gen_of t instr i ibc u) \<and>
     code_at c' (off' i) (listing_bytes (x86_listing flags t jz (dst_n instr) (src_n instr) instr)) \<and>
     off' (Suc i) = off' i + length (listing_bytes (x86_listing flags t jz (dst_n instr) (src_n instr) instr)) \<and>
     (t = CBRANCH \<longrightarrow> -1 \<le> u (dst_n instr) \<and> u (dst_n instr) < int i \<and>
        jz = word_of_int (int (off' (nat (u (dst_n instr) + 1))) - int (off' i + 20)))"
    using d nxt br i o b by (intro exI [of _ t] exI [of _ instr] exI [of _ ibc] exI [of _ u] exI [of _ jz]) simp
qed

definition generation_ok :: "u32 \<Rightarrow> mem \<Rightarrow> nat \<Rightarrow> nat \<Rightarrow> jit_compiler \<Rightarrow> InstructionByteCode list \<Rightarrow> usage \<Rightarrow> bool" where
  "generation_ok flags c0 p0 i J bc u \<longleftrightarrow>
     length (j_offsets J) = i \<and> j_flags J = flags \<and>
     (\<forall>k<8. j_usage J k = u k \<and> -1 \<le> u k \<and> u k < int i) \<and>
     code_matches (j_code J) (off_of J) bc flags i \<and>
     off_of J 0 = p0 \<and> p0 \<le> j_pos J \<and> j_pos J \<le> p0 + 32 * i \<and>
     (\<forall>a. a < p0 \<or> j_pos J \<le> a \<longrightarrow> j_code J a = c0 a)"

lemma generation_step:
  assumes g: "generation_ok flags c0 p0 i J bc u" and i: "i < length bc"
  shows "\<exists>bc' u'. compile_step prog i (Some (bc, u)) = Some (bc', u') \<and> length bc' = length bc \<and>
    generation_ok flags c0 p0 (Suc i) (snd (run_state (generateCode (reduced (prog ! i)) i) J)) bc' u'"
proof -
  let ?instr = "reduced (prog ! i)"
  obtain t where t: "type_of_opcode (unat (i_opcode (prog ! i))) = Some t"
    using type_of_opcode_total [of "unat (i_opcode (prog ! i))"] by auto
  define b where "b = fst (gen_of t ?instr i (bc ! i) u)"
  define u' where "u' = snd (gen_of t ?instr i (bc ! i) u)"
  have step: "compile_step prog i (Some (bc, u)) = Some (bc[i := b], u')"
    using t by (simp add: compile_step_def compileInstruction_gen_of gen_of_reduced b_def u'_def split: prod.splits)
  have ok: "length (j_offsets J) = i" "j_flags J = flags" "\<forall>k<8. j_usage J k = u k"
    "\<forall>k<8. -1 \<le> u k \<and> u k < int i" "code_matches (j_code J) (off_of J) bc flags i" "off_of J 0 = p0"
    "p0 \<le> j_pos J" "j_pos J \<le> p0 + 32 * i" "\<forall>a. a < p0 \<or> j_pos J \<le> a \<longrightarrow> j_code J a = c0 a"
    using g by (simp_all add: generation_ok_def)
  define J1 where "J1 = J\<lparr>j_offsets := j_offsets J @ [j_pos J]\<rparr>"
  have t': "type_of_opcode (unat (i_opcode ?instr)) = Some t" using t by (simp add: reduced_fields)
  define bytes where "bytes jz = listing_bytes (x86_listing flags t jz (dst_n ?instr) (src_n ?instr) ?instr)" for jz
  obtain jz where J': "snd (run_state (generateCode ?instr i) J) =
      (appended (bytes jz) J1)\<lparr>j_usage := snd (gen_of t ?instr i (bc ! i) (j_usage J))\<rparr>"
    and jz: "t = CBRANCH \<Longrightarrow> jz = word_of_int (int (j_offsets J1 ! nat (j_usage J (dst_n ?instr) + 1)) - int (j_pos J + 20))"
    using run_generateCode [OF t' reduced_fields(1,2) J1_def, of i "bc ! i"] ok(2) unfolding bytes_def by blast
  define J' where "J' = snd (run_state (generateCode ?instr i) J)"
  have f: "j_offsets J' = j_offsets J @ [j_pos J]" "j_pos J' = j_pos J + length (bytes jz)" "j_flags J' = flags"
    "j_code J' = write_bytes (j_code J) (j_pos J) (bytes jz)"
    "\<forall>k<8. j_usage J' k = u' k"
    using gen_of_agree(2) [OF ok(3), of t ?instr i "bc ! i"] ok(2)
    by (simp_all add: J'_def J' J1_def u'_def) (simp add: appended_def)
  have offi: "off_of J i = j_pos J" by (simp add: off_of_def ok(1) nth_append)
  have off: "off_of J' k = off_of J k" if "k \<le> i" for k
    using that ok(1) by (auto simp: off_of_def f nth_append)
  have off_suc: "off_of J' (Suc i) = j_pos J + length (bytes jz)" using ok(1) by (simp add: off_of_def f nth_append)
  have old: "code_matches (j_code J') (off_of J') (bc[i := b]) flags i"
  proof (rule code_matches_extend [OF ok(5) off])
    fix p bs assume "p + length bs \<le> off_of J i" "code_at (j_code J) p bs"
    then show "code_at (j_code J') p bs" unfolding f offi by (intro code_at_write)
  qed simp_all
  have "code_matches (j_code J') (off_of J') (bc[i := b]) flags (Suc i)"
    unfolding code_matches_def
  proof (intro allI impI)
    fix k assume "k < Suc i"
    then consider "k < i" | "k = i" by linarith
    then show "\<exists>t instr ibc u jz. dst_n instr < 8 \<and> src_n instr < 8 \<and> bc[i := b] ! k = fst (gen_of t instr k ibc u) \<and>
     code_at (j_code J') (off_of J' k) (listing_bytes (x86_listing flags t jz (dst_n instr) (src_n instr) instr)) \<and>
     off_of J' (Suc k) = off_of J' k + length (listing_bytes (x86_listing flags t jz (dst_n instr) (src_n instr) instr)) \<and>
     (t = CBRANCH \<longrightarrow> -1 \<le> u (dst_n instr) \<and> u (dst_n instr) < int k \<and>
        jz = word_of_int (int (off_of J' (nat (u (dst_n instr) + 1))) - int (off_of J' k + 20)))"
    proof cases
      case 1
      with old show ?thesis unfolding code_matches_def by blast
    next
      case 2
      have ui: "-1 \<le> u (dst_n ?instr)" "u (dst_n ?instr) < int i" "j_usage J (dst_n ?instr) = u (dst_n ?instr)"
        using ok(3,4) reduced_fields(1) by blast+
      then have "nat (u (dst_n ?instr) + 1) \<le> i" by linarith
      then have tgt: "j_offsets J1 ! nat (u (dst_n ?instr) + 1) = off_of J' (nat (u (dst_n ?instr) + 1))"
        by (simp add: off_of_def f J1_def nth_append ok(1))
      have "code_at (j_code J') (off_of J' i) (bytes jz)"
        unfolding f off [OF order_refl] offi by (rule code_at_written)
      then show ?thesis using i ui tgt jz off_suc off [OF order_refl] offi unfolding 2 b_def bytes_def
        by (intro exI [of _ t] exI [of _ ?instr] exI [of _ "bc ! i"] exI [of _ u] exI [of _ jz])
           (simp add: reduced_fields)
    qed
  qed
  moreover have "\<forall>k<8. -1 \<le> u' k \<and> u' k < int (Suc i)"
    using ok(4) unfolding u'_def by (auto simp: gen_of_usage)
  moreover have "length (bytes jz) \<le> 32" unfolding bytes_def by (rule length_listing)
  ultimately have "generation_ok flags c0 p0 (Suc i) J' (bc[i := b]) u'"
    using ok f off [of 0] by (auto simp: generation_ok_def write_bytes_outside)
  with step show ?thesis unfolding J'_def by auto
qed

end
