(* ===== verification/Jit_X86_Facts.thy ===== *)
theory Jit_X86_Facts
  imports Jit_X86_Gen Superscalar_Facts
begin

text \<open>
  Whole programs: emitters only append, the body of a generated program matches its
  bytecode, the blocks around it fit, and the machine code runs like the bytecode.
\<close>

section \<open>Emission only appends\<close>

definition appends :: "nat \<Rightarrow> (jit_compiler, 'a) state \<Rightarrow> bool" where
  "appends n m \<longleftrightarrow> (\<forall>j. let j' = snd (run_state m j) in
     j_pos j \<le> j_pos j' \<and> j_pos j' \<le> j_pos j + n \<and> (\<forall>a<j_pos j. j_code j' a = j_code j a) \<and>
     j_flags j' = j_flags j \<and> (\<forall>a. j_pos j' \<le> a \<longrightarrow> j_code j' a = j_code j a))"

lemma appends_emit:
  "appends (length bs) (emit_bytes bs)" "appends 1 (emitByte v)" "appends 4 (emit32 w)" "appends 8 (emit64 q)"
  "appends 0 (State_Monad.return x)" "appends 0 (gets f)"
  by (simp_all add: appends_def Let_def run_emitByte_general) (simp_all add: appended_def write_bytes_def)

lemma appends_bytes: "length bs = n \<Longrightarrow> appends n (emit_bytes bs)"
  using appends_emit(1) by blast

lemma appends_bind:
  assumes "appends n m" "\<And>x. appends k (f x)"
  shows "appends (n + k) (do { x \<leftarrow> m; f x })"
  unfolding appends_def Let_def
proof
  fix j
  obtain x j1 where m: "run_state m j = (x, j1)" by fastforce
  obtain y j2 where f: "run_state (f x) j1 = (y, j2)" by fastforce
  have 1: "j_pos j \<le> j_pos j1 \<and> j_pos j1 \<le> j_pos j + n \<and> (\<forall>a<j_pos j. j_code j1 a = j_code j a) \<and> j_flags j1 = j_flags j
      \<and> (\<forall>a. j_pos j1 \<le> a \<longrightarrow> j_code j1 a = j_code j a)"
    using assms(1) m unfolding appends_def Let_def by (metis snd_conv)
  have 2: "j_pos j1 \<le> j_pos j2 \<and> j_pos j2 \<le> j_pos j1 + k \<and> (\<forall>a<j_pos j1. j_code j2 a = j_code j1 a) \<and> j_flags j2 = j_flags j1
      \<and> (\<forall>a. j_pos j2 \<le> a \<longrightarrow> j_code j2 a = j_code j1 a)"
    using assms(2) [of x] f unfolding appends_def Let_def by (metis snd_conv)
  have "snd (run_state (do { x \<leftarrow> m; f x }) j) = j2" by (simp add: m f)
  with 1 2 show "j_pos j \<le> j_pos (snd (run_state (do { x \<leftarrow> m; f x }) j)) \<and>
     j_pos (snd (run_state (do { x \<leftarrow> m; f x }) j)) \<le> j_pos j + (n + k) \<and>
     (\<forall>a<j_pos j. j_code (snd (run_state (do { x \<leftarrow> m; f x }) j)) a = j_code j a) \<and>
     j_flags (snd (run_state (do { x \<leftarrow> m; f x }) j)) = j_flags j \<and>
     (\<forall>a. j_pos (snd (run_state (do { x \<leftarrow> m; f x }) j)) \<le> a \<longrightarrow>
        j_code (snd (run_state (do { x \<leftarrow> m; f x }) j)) a = j_code j a)" by auto
qed

lemma appends_weaken: "appends n m \<Longrightarrow> n \<le> k \<Longrightarrow> appends k m"
  unfolding appends_def Let_def by (meson add_left_mono le_trans)

lemma appends_if: "(b \<Longrightarrow> appends n m) \<Longrightarrow> (\<not> b \<Longrightarrow> appends k m') \<Longrightarrow> appends (max n k) (if b then m else m')"
  by (auto intro: appends_weaken)

section \<open>The body of a compiled program\<close>

lemma for_each_append: "for_each f (xs @ ys) = do { for_each f xs; for_each f ys }"
  by (induction xs) simp_all

definition body_state :: "Instruction list \<Rightarrow> nat \<Rightarrow> jit_compiler \<Rightarrow> jit_compiler" where
  "body_state prog n j = snd (run_state (for_each (\<lambda>i. generateCode (reduced (prog ! i)) i) [0..<n]) j)"

lemma body_state_simps:
  "body_state prog 0 j = j"
  "body_state prog (Suc n) j = snd (run_state (generateCode (reduced (prog ! n)) n) (body_state prog n j))"
  by (simp_all add: body_state_def for_each_append split: prod.splits)

lemma generation_loop:
  assumes j: "j_offsets j = []" "\<forall>r<8. j_usage j r = -1" "n \<le> length bc"
  shows "\<exists>bc' u. for_range 0 n (compile_step prog) (Some (bc, beginCompilation)) = Some (bc', u) \<and>
    length bc' = length bc \<and> generation_ok (j_flags j) (j_code j) (j_pos j) n (body_state prog n j) bc' u"
  using j(3)
proof (induction n)
  case 0
  then show ?case using j(1,2)
    by (simp add: body_state_simps generation_ok_def code_matches_def off_of_def beginCompilation_def)
next
  case (Suc n)
  then obtain bc' u where "for_range 0 n (compile_step prog) (Some (bc, beginCompilation)) = Some (bc', u)"
    "length bc' = length bc" "generation_ok (j_flags j) (j_code j) (j_pos j) n (body_state prog n j) bc' u"
    by auto
  with generation_step [of "j_flags j" "j_code j" "j_pos j" n "body_state prog n j" bc' u prog] Suc.prems
  show ?case by (auto simp: body_state_simps)
qed

text \<open>The compiler state on entry to the loop over the program.\<close>

definition body_entry :: "static_code \<Rightarrow> ProgramConfiguration \<Rightarrow> jit_compiler \<Rightarrow> jit_compiler" where
  "body_entry sc pcfg j = appended (codeLoopLoad sc)
     (j\<lparr>j_offsets := [], j_usage := (\<lambda>r. if r < RegistersCount then -1 else j_usage j r),
        j_pos := length (codePrologue sc),
        j_code := write_bytes (j_code j) (length (codePrologue sc) - 48) (bytes64 (eMask0 pcfg) @ bytes64 (eMask1 pcfg))\<rparr>)"

definition entry_point :: "static_code \<Rightarrow> nat" where
  "entry_point sc = length (codePrologue sc) + length (codeLoopLoad sc)"

lemma body_entry_fields:
  "j_offsets (body_entry sc pcfg j) = []" "\<forall>r<8. j_usage (body_entry sc pcfg j) r = -1"
  "j_flags (body_entry sc pcfg j) = j_flags j" "j_pos (body_entry sc pcfg j) = entry_point sc"
  by (simp_all add: body_entry_def entry_point_def RegistersCount_def)

definition body_tail :: "ProgramConfiguration \<Rightarrow> emitter" where
  "body_tail pcfg = do {
     emit_bytes REX_MOV_RR;
     emitByte (0xc0 + readReg2 pcfg);
     emit_bytes REX_XOR_EAX;
     emitByte (0xc0 + readReg3 pcfg) }"

lemma run_prologue:
  "run_state (generateProgramPrologue sc prog pcfg) j =
    run_state (body_tail pcfg) (body_state prog (program_size (j_flags j)) (body_entry sc pcfg j))"
  by (simp add: generateProgramPrologue_def body_tail_def body_state_def body_entry_def set_pos_def copy_to_def
      case_prod_beta cong: if_cong)


lemma body_matches:
  assumes "program_size (j_flags j) \<le> length bc"
  shows "\<exists>code. compileProgram prog bc (j_flags j) = Some code \<and>
    (let J = body_state prog (program_size (j_flags j)) (body_entry sc pcfg j) in
       j_flags J = j_flags j \<and> code_matches (j_code J) (off_of J) code (j_flags j) (program_size (j_flags j)) \<and>
       off_of J 0 = entry_point sc \<and> off_of J (program_size (j_flags j)) = j_pos J \<and>
       entry_point sc \<le> j_pos J \<and> j_pos J \<le> entry_point sc + 32 * program_size (j_flags j) \<and>
       (\<forall>a. a < entry_point sc \<or> j_pos J \<le> a \<longrightarrow> j_code J a = j_code (body_entry sc pcfg j) a))"
proof -
  let ?n = "program_size (j_flags j)"
  from generation_loop [OF body_entry_fields(1,2) assms, of prog sc pcfg j]
  obtain code u where c: "for_range 0 ?n (compile_step prog) (Some (bc, beginCompilation)) = Some (code, u)"
    and g: "generation_ok (j_flags j) (j_code (body_entry sc pcfg j)) (entry_point sc) ?n
      (body_state prog ?n (body_entry sc pcfg j)) code u"
    by (auto simp: body_entry_fields)
  have "off_of J ?n = j_pos J" if "length (j_offsets J) = ?n" for J
    using that by (simp add: off_of_def nth_append)
  with g c show ?thesis by (auto simp: generation_ok_def compileProgram_def Let_def)
qed

lemma body_runs:
  assumes bc: "program_size (j_flags j) \<le> length bc" and sc: "entry_point sc \<le> ReserveCodeSize"
    and x: "corresponds pcfg x0 b x"
    and keep: "\<And>a. a < exit + 3 \<Longrightarrow> c a = j_code (snd (run_state (generateProgramPrologue sc prog pcfg) j)) a"
    and exit: "exit = j_pos (body_state prog (program_size (j_flags j)) (body_entry sc pcfg j))"
  shows "\<exists>code b' x'. compileProgram prog bc (j_flags j) = Some code \<and>
    executeBytecode fp pcfg (j_flags j) code b = Finished b' \<and>
    reaches_x fp c (entry_point sc) x exit x' \<and> corresponds pcfg x0 b' x' \<and>
    code_at c exit (REX_MOV_RR @ [of_nat (0xc0 + readReg2 pcfg)])"
proof -
  let ?n = "program_size (j_flags j)"
  define J where "J = body_state prog ?n (body_entry sc pcfg j)"
  obtain code where code: "compileProgram prog bc (j_flags j) = Some code"
    and m: "code_matches (j_code J) (off_of J) code (j_flags j) ?n"
    and J: "off_of J 0 = entry_point sc" "off_of J ?n = exit" "entry_point sc \<le> exit" "exit \<le> entry_point sc + 32 * ?n"
    using body_matches [OF bc, of prog sc pcfg] unfolding Let_def J_def exit by blast
  have n: "?n \<le> 384" by (rule program_size_bounds)
  have "code_ok code ?n" using compileProgram_code_ok [OF bc, of prog] code by auto
  then obtain b' where fin: "exec_loop (3 * ?n) fp pcfg (j_flags j) code ?n 0 b = Finished b'"
    using exec_loop_finishes by blast
  have pos: "j_pos J = exit" by (simp add: J_def exit)
  define first where "first = REX_MOV_RR @ [of_nat (0xc0 + readReg2 pcfg)]"
  define J' where "J' = snd (run_state (generateProgramPrologue sc prog pcfg) j)"
  have pro: "J' = appended (first @ REX_XOR_EAX @ [of_nat (0xc0 + readReg3 pcfg)]) J"
    unfolding J'_def run_prologue by (simp add: body_tail_def run_emitByte_general J_def first_def)
  have cc: "code_at c p bs" if "code_at (j_code J') p bs" "p + length bs \<le> exit + 3" for p bs
    using that keep unfolding code_at_def J'_def by simp
  have cJ: "code_at c p bs" if "code_at (j_code J) p bs" "p + length bs \<le> exit" for p bs
  proof (rule cc)
    have "j_code J' = write_bytes (j_code J) exit (first @ REX_XOR_EAX @ [of_nat (0xc0 + readReg3 pcfg)])"
      by (simp add: pro appended_def pos)
    then show "code_at (j_code J') p bs" using code_at_write [OF that] by simp
  qed (use that in simp)
  have "code_at (j_code J') exit (first @ REX_XOR_EAX @ [of_nat (0xc0 + readReg3 pcfg)])"
    using code_at_written by (simp add: pro appended_def pos)
  then have "code_at (j_code J') exit first" by (simp only: code_at_append)
  then have last: "code_at c exit first" by (rule cc) (simp add: first_def x86_const)
  have "code_matches c (off_of J) code (j_flags j) ?n"
    by (rule code_matches_extend [OF m]) (use cJ J in simp_all)
  moreover have "off_of J ?n < 2 ^ 31"
  proof -
    have "entry_point sc \<le> 4096" using sc by (simp add: x86_const)
    then show ?thesis using J(2,4) n by simp
  qed
  moreover have "?n \<le> 32768" using n by simp
  ultimately have "\<exists>x'. reaches_x fp c (off_of J (nat 0)) x (off_of J ?n) x' \<and> corresponds pcfg x0 b' x'"
    by (rule run_program [OF _ _ _ fin _ _ x]) simp_all
  then obtain x' where "reaches_x fp c (entry_point sc) x exit x'" "corresponds pcfg x0 b' x'" using J by auto
  then show ?thesis using code fin last unfolding executeBytecode_def first_def by blast
qed


text \<open>Everything behind the body is appended.\<close>

lemma appends_epilogue:
  "appends (37 + length (codePrefetchScratchpad sc)
     + max (max (length (codeLoopStoreHardAes sc)) (length (codeLoopStoreSoftAes sc))) (length (codeLoopStore sc))
     + length (codeSoftAes sc)) (generateProgramEpilogue sc prog pcfg)"
proof -
  have "appends (2 + (1 + (2 + (1 + (length (codePrefetchScratchpad sc) + (0 +
    (max (max (length (codeLoopStoreHardAes sc)) (length (codeLoopStoreSoftAes sc))) (length (codeLoopStore sc))
     + (3 + (2 + (0 + (4 + (1 + (0 + (4 + max (length (codeSoftAes sc) + (8 + 8)) 0))))))))))))))
    (generateProgramEpilogue sc prog pcfg)"
    unfolding generateProgramEpilogue_def
    by (intro appends_bind appends_if appends_emit appends_bytes) (simp_all add: x86_const)
  then show ?thesis by (rule appends_weaken) simp
qed

text \<open>A bound on what follows the body, for the full and the light program.\<close>

definition tail_size :: "static_code \<Rightarrow> nat" where
  "tail_size sc = 58 + max (length (codeReadDataset sc)) (length (codeReadDatasetV2 sc))
     + max (length (codeReadDatasetLightSshInit sc)) (length (codeReadDatasetLightSshInitV2 sc))
     + length (codeReadDatasetLightSshFin sc) + length (codePrefetchScratchpad sc)
     + max (max (length (codeLoopStoreHardAes sc)) (length (codeLoopStoreSoftAes sc))) (length (codeLoopStore sc))
     + length (codeSoftAes sc)"

lemma program_behind_prologue:
  "\<exists>m :: emitter. appends (tail_size sc - 6) m \<and> jit_generateProgram sc prog pcfg = do { generateProgramPrologue sc prog pcfg; m }"
  "\<exists>m :: emitter. appends (tail_size sc - 6) m \<and>
     generateProgramLight sc prog pcfg datasetOffset = do { generateProgramPrologue sc prog pcfg; m }"
proof -
  have "appends (0 + (max (length (codeReadDatasetV2 sc)) (length (codeReadDataset sc)) + (37 + length (codePrefetchScratchpad sc)
     + max (max (length (codeLoopStoreHardAes sc)) (length (codeLoopStoreSoftAes sc))) (length (codeLoopStore sc))
     + length (codeSoftAes sc)))) (do {
     flags \<leftarrow> gets j_flags;
     (if has_flag flags RANDOMX_FLAG_V2 then emit_bytes (codeReadDatasetV2 sc)
      else emit_bytes (codeReadDataset sc));
     generateProgramEpilogue sc prog pcfg })" (is "appends ?n ?m")
    by (intro appends_bind appends_if appends_emit appends_epilogue)
  then have "appends (tail_size sc - 6) ?m" by (rule appends_weaken) (unfold tail_size_def, linarith)
  then show "\<exists>m :: emitter. appends (tail_size sc - 6) m \<and> jit_generateProgram sc prog pcfg = do { generateProgramPrologue sc prog pcfg; m }"
    unfolding jit_generateProgram_def by blast
  have "appends (0 + (max (length (codeReadDatasetLightSshInitV2 sc)) (length (codeReadDatasetLightSshInit sc))
     + (2 + (4 + (1 + (0 + (4 + (length (codeReadDatasetLightSshFin sc) + (37 + length (codePrefetchScratchpad sc)
     + max (max (length (codeLoopStoreHardAes sc)) (length (codeLoopStoreSoftAes sc))) (length (codeLoopStore sc))
     + length (codeSoftAes sc))))))))))
    (do {
     flags \<leftarrow> gets j_flags;
     (if has_flag flags RANDOMX_FLAG_V2 then emit_bytes (codeReadDatasetLightSshInitV2 sc)
      else emit_bytes (codeReadDatasetLightSshInit sc));
     emit_bytes ADD_EBX_I;
     emit32 (datasetOffset div of_nat CacheLineSize);
     emitByte CALL;
     p \<leftarrow> gets j_pos;
     emit32 (word_of_int (int superScalarHashOffset - (int p + 4)));
     emit_bytes (codeReadDatasetLightSshFin sc);
     generateProgramEpilogue sc prog pcfg })" (is "appends ?n ?m")
    by (intro appends_bind appends_if appends_emit appends_epilogue appends_bytes) (simp add: x86_const)
  then have "appends (tail_size sc - 6) ?m" by (rule appends_weaken) (unfold tail_size_def, linarith)
  then show "\<exists>m :: emitter. appends (tail_size sc - 6) m \<and>
     generateProgramLight sc prog pcfg datasetOffset = do { generateProgramPrologue sc prog pcfg; m }"
    unfolding generateProgramLight_def by blast
qed

definition generated :: "static_code \<Rightarrow> Instruction list \<Rightarrow> ProgramConfiguration \<Rightarrow> u32 \<Rightarrow> jit_compiler \<Rightarrow> jit_compiler \<Rightarrow> bool" where
  "generated sc prog pcfg datasetOffset j J \<longleftrightarrow>
     J = snd (run_state (jit_generateProgram sc prog pcfg) j) \<or>
     J = snd (run_state (generateProgramLight sc prog pcfg datasetOffset) j)"

lemma generated_cases:
  assumes "generated sc prog pcfg datasetOffset j J"
  obtains m :: emitter where "appends (tail_size sc - 6) m"
    "J = snd (run_state (do { generateProgramPrologue sc prog pcfg; m }) j)"
proof -
  obtain m1 :: emitter where m1: "appends (tail_size sc - 6) m1"
    "jit_generateProgram sc prog pcfg = do { generateProgramPrologue sc prog pcfg; m1 }"
    using program_behind_prologue(1) by blast
  obtain m2 :: emitter where m2: "appends (tail_size sc - 6) m2"
    "generateProgramLight sc prog pcfg datasetOffset = do { generateProgramPrologue sc prog pcfg; m2 }"
    using program_behind_prologue(2) by blast
  from assms consider "J = snd (run_state (jit_generateProgram sc prog pcfg) j)"
    | "J = snd (run_state (generateProgramLight sc prog pcfg datasetOffset) j)"
    unfolding generated_def by blast
  then show thesis
  proof cases
    case 1
    show ?thesis by (rule that [OF m1(1)]) (simp only: 1 m1(2))
  next
    case 2
    show ?thesis by (rule that [OF m2(1)]) (simp only: 2 m2(2))
  qed
qed

lemma generated_layout:
  assumes g: "generated sc prog pcfg datasetOffset j J"
  defines "B \<equiv> j_pos (body_state prog (program_size (j_flags j)) (body_entry sc pcfg j))"
  shows "B + 6 \<le> j_pos J" "j_pos J \<le> B + tail_size sc" "B \<le> entry_point sc + 32 * program_size (j_flags j)"
    "a < B + 3 \<Longrightarrow> j_code J a = j_code (snd (run_state (generateProgramPrologue sc prog pcfg) j)) a"
    "48 \<le> length (codePrologue sc) \<Longrightarrow> j_pos J \<le> a \<Longrightarrow> j_code J a = j_code j a"
proof -
  define bc where "bc = replicate (program_size (j_flags j)) (undefined :: InstructionByteCode)"
  have bc: "program_size (j_flags j) \<le> length bc" by (simp add: bc_def)
  obtain m :: emitter where m: "appends (tail_size sc - 6) m"
    and run: "J = snd (run_state (do { generateProgramPrologue sc prog pcfg; m }) j)"
    using g by (rule generated_cases)
  define J0 where "J0 = snd (run_state (generateProgramPrologue sc prog pcfg) j)"
  have J: "J = snd (run_state m J0)" by (simp add: run J0_def case_prod_beta)
  define Bs where "Bs = body_state prog (program_size (j_flags j)) (body_entry sc pcfg j)"
  have J0: "J0 = appended (REX_MOV_RR @ [of_nat (0xc0 + readReg2 pcfg)] @ REX_XOR_EAX @ [of_nat (0xc0 + readReg3 pcfg)]) Bs"
    unfolding J0_def run_prologue by (simp add: body_tail_def run_emitByte_general Bs_def)
  have B: "B = j_pos Bs" by (simp add: B_def Bs_def)
  have p0: "j_pos J0 = B + 6" by (simp add: J0 B x86_const)
  have ap: "j_pos J0 \<le> j_pos J \<and> j_pos J \<le> j_pos J0 + (tail_size sc - 6) \<and> (\<forall>a<j_pos J0. j_code J a = j_code J0 a)
     \<and> (\<forall>a. j_pos J \<le> a \<longrightarrow> j_code J a = j_code J0 a)"
    using m unfolding appends_def Let_def J by blast
  show "B + 6 \<le> j_pos J" using ap p0 by simp
  show "j_pos J \<le> B + tail_size sc" using ap p0 by (simp add: tail_size_def)
  show "a < B + 3 \<Longrightarrow> j_code J a = j_code (snd (run_state (generateProgramPrologue sc prog pcfg) j)) a"
    using ap p0 by (simp add: J0_def)
  show "B \<le> entry_point sc + 32 * program_size (j_flags j)"
    using body_matches [OF bc, of prog sc pcfg] unfolding Let_def B Bs_def by blast
  assume large: "48 \<le> length (codePrologue sc)" "j_pos J \<le> a"
  have "j_code J a = j_code J0 a" using ap large(2) by blast
  also have "\<dots> = j_code Bs a"
    using large(2) ap p0 by (simp add: J0 appended_def write_bytes_def B x86_const)
  also have "\<dots> = j_code j a"
  proof -
    have "j_code Bs a = j_code (body_entry sc pcfg j) a" and ep: "entry_point sc \<le> j_pos Bs"
      using body_matches [OF bc, of prog sc pcfg] large(2) ap p0 unfolding Let_def Bs_def B by auto
    moreover have "\<not> a < length (codePrologue sc) - 32" "\<not> a < entry_point sc"
      using ep large(2) ap p0 unfolding entry_point_def B by linarith+
    ultimately show ?thesis
      using large(1) by (simp add: body_entry_def appended_def write_bytes_def entry_point_def length_bytes)
  qed
  finally show "j_code J a = j_code j a" .
qed

section \<open>The compiled program runs like the bytecode\<close>

lemma generated_runs:
  assumes g: "generated sc prog pcfg datasetOffset j J" and bc: "program_size (j_flags j) \<le> length bc"
    and sc: "entry_point sc \<le> ReserveCodeSize" and x: "corresponds pcfg x b x"
  shows "\<exists>code b' n exit x'. compileProgram prog bc (j_flags j) = Some code \<and>
    executeBytecode fp pcfg (j_flags j) code b = Finished b' \<and>
    xrun fp (j_code J) n (entry_point sc, x) = Some (exit, x') \<and> corresponds pcfg x b' x' \<and>
    code_at (j_code J) exit (REX_MOV_RR @ [of_nat (0xc0 + readReg2 pcfg)])"
proof -
  let ?B = "j_pos (body_state prog (program_size (j_flags j)) (body_entry sc pcfg j))"
  obtain code b' x' where "compileProgram prog bc (j_flags j) = Some code"
    "executeBytecode fp pcfg (j_flags j) code b = Finished b'"
    "reaches_x fp (j_code J) (entry_point sc) x ?B x'" "corresponds pcfg x b' x'"
    "code_at (j_code J) ?B (REX_MOV_RR @ [of_nat (0xc0 + readReg2 pcfg)])"
    using body_runs [OF bc sc x generated_layout(4) [OF g] refl] by blast
  then show ?thesis unfolding reaches_x_def by blast
qed

section \<open>Properties\<close>

definition sc0 :: static_code where
  "sc0 = \<lparr>codePrologue = replicate 64 0x90, codeLoopLoad = [], codeReadDataset = [0x90], codeReadDatasetV2 = [0x90],
     codeReadDatasetLightSshInit = [], codeReadDatasetLightSshInitV2 = [], codeReadDatasetLightSshFin = [],
     codeDatasetInit = [], codeLoopStore = [], codeLoopStoreHardAes = [], codeLoopStoreSoftAes = [], codeSoftAes = [],
     codeEpilogue = [0xc3], codeShhLoad = [0x90], codeShhPrefetch = [0x90], codeShhInit = [0x90],
     codePrefetchScratchpad = [], lutEncAddress = 0, lutDecAddress = 0\<rparr>"

definition jit0 :: jit_compiler where
  "jit0 = JitCompilerX86 sc0 (\<lambda>_. 0) 0"

definition xstate0 :: xstate where
  "xstate0 = \<lparr>x_reg = (\<lambda>r. if r = 4 then 2 ^ 32 else 0),
     x_xmm = (\<lambda>r. if r = 13 then (dynamicMantissaMask, dynamicMantissaMask)
                else if r = 15 then (0x80F0000000000000, 0x80F0000000000000) else (0, 0)),
     x_mem = (\<lambda>_. 0), x_zf = None, x_mxcsr = 0x9fc0\<rparr>"

lemma corresponds0: "corresponds cfg0 xstate0 bstate0 xstate0"
proof -
  have "of_nat n \<noteq> (2 ^ 32 + of_nat k :: u64)" if "n < ScratchpadSize" "k < 4" for n k
  proof
    assume eq: "of_nat n = (2 ^ 32 + of_nat k :: u64)"
    then have "word_of_nat n = (word_of_nat (2 ^ 32 + k) :: u64)" by simp
    then have "take_bit 64 n = take_bit 64 (2 ^ 32 + k)" by (simp only: word_of_nat_eq_iff) simp
    with that show False by (simp add: take_bit_nat_eq_self config)
  qed
  then show ?thesis
    by (auto simp: corresponds_def xstate0_def bstate0_def cfg0_def in_scratchpad_def in_slot_def rounding_def)
qed

text \<open>C6: The machine code that the compiler emits for a program, in full or in light mode,
  does what the interpreter does with the compiled bytecode: started in a machine state that
  holds the interpreter's registers, scratchpad and rounding mode, the processor arrives at the
  first instruction behind the program in the state that holds the interpreter's result, and the
  frame (the stack, the pointers and all other memory) is as it was.\<close>

theorem jit_program_simulates:
  assumes "generated sc prog pcfg datasetOffset j J" "program_size (j_flags j) \<le> length bc"
    "entry_point sc \<le> ReserveCodeSize" "corresponds pcfg x b x"
  shows "\<exists>code b' n exit x'. compileProgram prog bc (j_flags j) = Some code \<and>
    executeBytecode fp pcfg (j_flags j) code b = Finished b' \<and>
    xrun fp (j_code J) n (entry_point sc, x) = Some (exit, x') \<and> corresponds pcfg x b' x' \<and>
    code_at (j_code J) exit (REX_MOV_RR @ [of_nat (0xc0 + readReg2 pcfg)])"
  using assms by (rule generated_runs)

theorem jit_program_simulates_witness:
  "\<exists>code b' n exit x'. compileProgram (replicate 256 instr0) (replicate 384 ibc0) 0 = Some code \<and>
    executeBytecode fpu0 cfg0 0 code bstate0 = Finished b' \<and>
    xrun fpu0 (j_code (snd (run_state (jit_generateProgram sc0 (replicate 256 instr0) cfg0) jit0))) n (64, xstate0) =
      Some (exit, x') \<and> corresponds cfg0 xstate0 b' x' \<and>
    code_at (j_code (snd (run_state (jit_generateProgram sc0 (replicate 256 instr0) cfg0) jit0))) exit [0x41, 0x8b, 0xc4]"
proof -
  have "generated sc0 (replicate 256 instr0) cfg0 0 jit0 (snd (run_state (jit_generateProgram sc0 (replicate 256 instr0) cfg0) jit0))"
    by (simp add: generated_def)
  moreover have flags: "j_flags jit0 = 0" "program_size 0 = 256" and sc: "entry_point sc0 = 64"
    by (simp_all add: jit0_def JitCompilerX86_def program_size_def has_flag_def config entry_point_def sc0_def)
  moreover have "entry_point sc0 \<le> ReserveCodeSize" by (simp add: sc x86_const)
  ultimately show ?thesis
    using jit_program_simulates [of sc0 "replicate 256 instr0" cfg0 0 jit0 _ "replicate 384 ibc0" xstate0 bstate0 fpu0] corresponds0
    by (simp add: cfg0_def x86_const)
qed

text \<open>C8: The generated program stays inside the part of the code buffer that is reserved
  for it when the hand-written blocks fit the reserve, whatever the program is, and it leaves the
  superscalar code behind that part as it was.\<close>

theorem jit_program_in_bounds:
  assumes "generated sc prog pcfg datasetOffset j J" "entry_point sc + tail_size sc \<le> ReserveCodeSize"
    "48 \<le> length (codePrologue sc)" "RandomXCodeSize \<le> a"
  shows "j_pos J \<le> RandomXCodeSize \<and> j_code J a = j_code j a"
proof -
  have "program_size (j_flags j) \<le> 384" by (rule program_size_bounds)
  then have "j_pos J \<le> RandomXCodeSize"
    using generated_layout(2,3) [OF assms(1)] assms(2) by (simp add: x86_const)
  then show ?thesis using generated_layout(5) [OF assms(1,3)] assms(4) by simp
qed

theorem jit_program_in_bounds_witness:
  "j_pos (snd (run_state (jit_generateProgram sc0 (replicate 256 instr0) cfg0) jit0)) \<le> 16384 \<and>
   j_code (snd (run_state (jit_generateProgram sc0 (replicate 256 instr0) cfg0) jit0)) 81919 = 0xc3"
proof -
  have "generated sc0 (replicate 256 instr0) cfg0 0 jit0 (snd (run_state (jit_generateProgram sc0 (replicate 256 instr0) cfg0) jit0))"
    by (simp add: generated_def)
  moreover have "entry_point sc0 + tail_size sc0 \<le> ReserveCodeSize" "48 \<le> length (codePrologue sc0)"
    by (simp_all add: entry_point_def tail_size_def sc0_def x86_const)
  moreover have "j_code jit0 81919 = 0xc3"
    by (simp add: jit0_def JitCompilerX86_def sc0_def epilogueOffset_def write_bytes_def x86_const)
  ultimately show ?thesis
    using jit_program_in_bounds [of sc0 "replicate 256 instr0" cfg0 0 jit0 _ 81919] by (simp add: x86_const)
qed

end
