(* ===== verification/Jit_X86_Super.thy ===== *)
theory Jit_X86_Super
  imports Jit_X86_Facts Dataset
begin

text \<open>
  The machine code of superscalar programs: the listing of every superscalar instruction, the
  proof that \<^verbatim>\<open>generateSuperscalarCode\<close> emits it and that the processor computes with it
  what \<^verbatim>\<open>executeSuperscalar\<close> computes, and the bounds of the superscalar part of the
  code buffer.
\<close>

section \<open>Listings\<close>

fun super_listing :: "u64 \<Rightarrow> SuperscalarInstructionType \<Rightarrow> nat \<Rightarrow> nat \<Rightarrow> Instruction \<Rightarrow> listing" where
  "super_listing q S_ISUB_R d s i = [(REX_SUB_RR @ [modrm 3 d s], X_ALU A_SUB True (d + 8) (Reg (s + 8)))]"
| "super_listing q S_IXOR_R d s i = [(REX_XOR_RR @ [modrm 3 d s], X_ALU A_XOR True (d + 8) (Reg (s + 8)))]"
| "super_listing q S_IADD_RS d s i = [(REX_LEA @ [modrm 0 d 4, modrm (getModShift i) s d],
     X_LEA True (d + 8) (Addr (d + 8) (Some (s + 8, getModShift i)) 0))]"
| "super_listing q S_IMUL_R d s i = [(REX_IMUL_RR @ [modrm 3 d s], X_IMUL (d + 8) (Reg (s + 8)))]"
| "super_listing q S_IROR_C d s i = [(REX_ROT_I8 @ [modrm 3 1 d, of_nat (unat (getImm32 i AND 63))],
     X_ROT False (d + 8) (Some (unat (getImm32 i AND 63))))]"
| "super_listing q S_IADD_C7 d s i = [(REX_81 @ modrm 3 0 d # bytes32 (getImm32 i), X_ALU_I A_ADD True (d + 8) (scast (getImm32 i)))]"
| "super_listing q S_IADD_C8 d s i = [(REX_81 @ modrm 3 0 d # bytes32 (getImm32 i), X_ALU_I A_ADD True (d + 8) (scast (getImm32 i)))]"
| "super_listing q S_IADD_C9 d s i = [(REX_81 @ modrm 3 0 d # bytes32 (getImm32 i), X_ALU_I A_ADD True (d + 8) (scast (getImm32 i)))]"
| "super_listing q S_IXOR_C7 d s i = [(REX_XOR_RI @ modrm 3 6 d # bytes32 (getImm32 i), X_ALU_I A_XOR True (d + 8) (scast (getImm32 i)))]"
| "super_listing q S_IXOR_C8 d s i = [(REX_XOR_RI @ modrm 3 6 d # bytes32 (getImm32 i), X_ALU_I A_XOR True (d + 8) (scast (getImm32 i)))]"
| "super_listing q S_IXOR_C9 d s i = [(REX_XOR_RI @ modrm 3 6 d # bytes32 (getImm32 i), X_ALU_I A_XOR True (d + 8) (scast (getImm32 i)))]"
| "super_listing q S_IMULH_R d s i =
     [(REX_MOV_RR64 @ [modrm 3 0 d], X_MOV True 0 (Reg (d + 8))),
      (REX_MUL_R @ [modrm 3 4 s], X_MUL1 (Reg (s + 8))),
      (REX_MOV_R64R @ [modrm 3 d 2], X_MOV True (d + 8) (Reg 2))]"
| "super_listing q S_ISMULH_R d s i =
     [(REX_MOV_RR64 @ [modrm 3 0 d], X_MOV True 0 (Reg (d + 8))),
      (REX_MUL_R @ [modrm 3 5 s], X_IMUL1 (Reg (s + 8))),
      (REX_MOV_R64R @ [modrm 3 d 2], X_MOV True (d + 8) (Reg 2))]"
| "super_listing q S_IMUL_RCP d s i =
     [(MOV_RAX_I @ bytes64 q, X_MOV_I 0 q), (REX_IMUL_RM @ [modrm 3 d 0], X_IMUL (d + 8) (Reg 0))]"
| "super_listing q S_INVALID d s i = []"

text \<open>What the code needs of an instruction. The encoding of \<^verbatim>\<open>IADD_RS\<close> has no base
  register \<^verbatim>\<open>r13\<close>.\<close>

definition super_code_ok :: "u64 list \<Rightarrow> Instruction \<Rightarrow> bool" where
  "super_code_ok cache i \<longleftrightarrow> (\<exists>t. stype_of (unat (i_opcode i)) = Some t \<and> dst_n i < 8 \<and> src_n i < 8 \<and>
     (t = S_IADD_RS \<longrightarrow> dst_n i \<noteq> 5) \<and> (t = S_IROR_C \<longrightarrow> unat (getImm32 i) < 64) \<and>
     (t = S_IMUL_RCP \<longrightarrow> unat (getImm32 i) < length cache))"

definition listing_of :: "u64 list \<Rightarrow> Instruction \<Rightarrow> listing" where
  "listing_of cache i = super_listing (cache ! unat (getImm32 i)) (the (stype_of (unat (i_opcode i)))) (dst_n i) (src_n i) i"

lemma stype_valid: "stype_of n \<noteq> Some S_INVALID"
  by (auto simp: stype_of_def less_Suc_eq numeral_eq_Suc split: if_splits)

lemma super_code_okE:
  assumes "super_code_ok cache i"
  obtains t where "stype_of (unat (i_opcode i)) = Some t" "dst_n i < 8" "src_n i < 8" "t = S_IADD_RS \<Longrightarrow> dst_n i \<noteq> 5"
    "t = S_IROR_C \<Longrightarrow> unat (getImm32 i) < 64"
    "t = S_IMUL_RCP \<Longrightarrow> unat (getImm32 i) < length cache" "t \<noteq> S_INVALID"
    "listing_of cache i = super_listing (cache ! unat (getImm32 i)) t (dst_n i) (src_n i) i"
  using assms stype_valid unfolding super_code_ok_def listing_of_def by (metis option.sel)

lemma encoded_super:
  assumes "super_code_ok cache i"
  shows "encoded (listing_of cache i)" "length (listing_bytes (listing_of cache i)) \<le> MaxSuperscalarInstrSize"
    "\<forall>y\<in>set (listing_of cache i). straight (snd y)"
proof -
  obtain t where t: "dst_n i < 8" "src_n i < 8" "t = S_IADD_RS \<Longrightarrow> dst_n i \<noteq> 5"
    and l: "listing_of cache i = super_listing (cache ! unat (getImm32 i)) t (dst_n i) (src_n i) i"
    using assms by (rule super_code_okE) blast
  have and63: "unat (getImm32 i AND 63) < 64" by (simp add: unat_and_63)
  note rules = encodes_registers [OF t(1,2)] encodes_temporaries [OF t(1)] encodes_temporaries [OF t(2)]
    encodes_immediates [OF t(1)] encodes_immediates(8) [OF t(1) and63, simplified] encodes_lea(1) [OF t(1,2) getModShift_less]
  show "encoded (listing_of cache i)"
    unfolding l using t by (cases t) (simp_all add: rules)
  show "length (listing_bytes (listing_of cache i)) \<le> MaxSuperscalarInstrSize"
    unfolding l by (cases t) (simp_all add: x86_const)
  show "\<forall>y\<in>set (listing_of cache i). straight (snd y)"
    unfolding l by (cases t) simp_all
qed

text \<open>The emitter of an instruction appends the bytes of its listing.\<close>

lemma emits_super:
  assumes "super_code_ok cache i"
  shows "\<exists>m. generateSuperscalarCode i cache = Some m \<and>
    (\<forall>j. run_state m j = ((), appended (listing_bytes (listing_of cache i)) j))"
proof -
  obtain t where t: "stype_of (unat (i_opcode i)) = Some t" "dst_n i < 8" "src_n i < 8"
      "t = S_IMUL_RCP \<Longrightarrow> unat (getImm32 i) < length cache" "t \<noteq> S_INVALID"
    and l: "listing_of cache i = super_listing (cache ! unat (getImm32 i)) t (dst_n i) (src_n i) i"
    using assms by (rule super_code_okE) blast
  show ?thesis
    unfolding l using t
    by (cases t) (simp_all add: generateSuperscalarCode_def run_emitByte_modrm run_emitByte_value run_genSIB)
qed

section \<open>Execution\<close>

text \<open>\<open>registers x\<close> are the registers of the superscalar machine; \<open>same_frame\<close> is what the
  code leaves alone.\<close>

definition registers :: "xstate \<Rightarrow> nat \<Rightarrow> u64" where "registers x k = x_reg x (k + 8)"

definition same_frame :: "xstate \<Rightarrow> xstate \<Rightarrow> bool" where
  "same_frame x x' \<longleftrightarrow> (\<forall>r\<in>{3, 4, 5, 6, 7}. x_reg x' r = x_reg x r) \<and> x_mem x' = x_mem x \<and> x_xmm x' = x_xmm x \<and>
     x_mxcsr x' = x_mxcsr x"

lemma same_frame_trans [trans]: "same_frame x y \<Longrightarrow> same_frame y z \<Longrightarrow> same_frame x z"
  by (simp add: same_frame_def)

lemma registers_set [simp]:
  "registers (set_reg (k + 8) v x) = (registers x)(k := v)" "r < 8 \<Longrightarrow> registers (set_reg r v x) = registers x"
  "registers (set_zf z x) = registers x"
  by (auto simp: registers_def fun_eq_iff)

lemma same_frame_set [simp]:
  "same_frame x (set_reg (k + 8) v y) \<longleftrightarrow> same_frame x y" "r < 3 \<Longrightarrow> same_frame x (set_reg r v y) \<longleftrightarrow> same_frame x y"
  "same_frame x (set_zf z y) \<longleftrightarrow> same_frame x y" "same_frame x x"
  by (auto simp: same_frame_def)

lemma sim_super:
  assumes "super_code_ok cache i"
  shows "execute_super (Some cache) i (registers x) = Some (registers (effect fp (listing_of cache i) x))"
    "same_frame x (effect fp (listing_of cache i) x)"
proof -
  obtain t where t: "stype_of (unat (i_opcode i)) = Some t" "dst_n i < 8" "src_n i < 8"
      "t = S_IROR_C \<Longrightarrow> unat (getImm32 i) < 64"
      "t = S_IMUL_RCP \<Longrightarrow> unat (getImm32 i) < length cache" "t \<noteq> S_INVALID"
    and l: "listing_of cache i = super_listing (cache ! unat (getImm32 i)) t (dst_n i) (src_n i) i"
    using assms by (rule super_code_okE) blast
  have r: "x_reg x (k + 8) = registers x k" for k by (simp add: registers_def)
  show "execute_super (Some cache) i (registers x) = Some (registers (effect fp (listing_of cache i) x))"
    unfolding l execute_super_def using t
    by (cases t) (simp_all add: Let_def sized_def r signExtend2sCompl_def [symmetric] rotr_eq_word_rotr unat_and_63
      minus_eq_not_plus_1)
  show "same_frame x (effect fp (listing_of cache i) x)"
    unfolding l by (cases t) (simp_all add: Let_def)
qed

text \<open>A program: its emitters one after the other, its code, its effect.\<close>

definition super_emitters :: "u64 list \<Rightarrow> Instruction list \<Rightarrow> emitter option" where
  "super_emitters cache is = in_order (map (\<lambda>i. generateSuperscalarCode i cache) is)"

definition program_listing :: "u64 list \<Rightarrow> Instruction list \<Rightarrow> listing" where
  "program_listing cache is = concat (map (listing_of cache) is)"

lemma in_order_run:
  assumes "list_all2 (\<lambda>e bs. \<exists>m. e = Some m \<and> (\<forall>j. run_state m j = ((), appended bs j))) es bss"
  shows "\<exists>m. in_order es = Some m \<and> (\<forall>j. run_state m j = ((), appended (concat bss) j))"
  using assms
proof (induction rule: list_all2_induct)
  case (Cons e es bs bss)
  then show ?case by auto
qed simp

lemma program_listing_simps [simp]:
  "program_listing cache [] = []" "program_listing cache (i # is) = listing_of cache i @ program_listing cache is"
  by (simp_all add: program_listing_def)

lemma listing_bytes_concat: "listing_bytes (program_listing cache is) = concat (map (\<lambda>i. listing_bytes (listing_of cache i)) is)"
  by (induction "is") simp_all

lemma super_emitters_run:
  assumes "\<forall>i\<in>set is. super_code_ok cache i"
  shows "\<exists>m. super_emitters cache is = Some m \<and>
    (\<forall>j. run_state m j = ((), appended (listing_bytes (program_listing cache is)) j))"
  unfolding super_emitters_def listing_bytes_concat
  by (rule in_order_run) (use assms emits_super in \<open>auto simp: list_all2_conv_all_nth\<close>)

lemma program_listing_ok:
  assumes "\<forall>i\<in>set is. super_code_ok cache i"
  shows "encoded (program_listing cache is)" "\<forall>y\<in>set (program_listing cache is). straight (snd y)"
    "length (listing_bytes (program_listing cache is)) \<le> MaxSuperscalarInstrSize * length is"
  using assms
proof (induction "is")
  case (Cons i "is")
  { case 1 then show ?case using Cons encoded_super(1) by simp }
  { case 2 then show ?case using Cons encoded_super(3) by auto }
  { case 3 then show ?case using Cons(3) encoded_super(2) [of cache i] by simp }
qed simp_all

fun exec_super :: "u64 list option \<Rightarrow> Instruction list \<Rightarrow> (nat \<Rightarrow> u64) \<Rightarrow> (nat \<Rightarrow> u64) option" where
  "exec_super rc [] r = Some r"
| "exec_super rc (i # is) r = Option.bind (execute_super rc i r) (exec_super rc is)"

lemma exec_super_append: "exec_super rc (is @ js) r = Option.bind (exec_super rc is r) (exec_super rc js)"
  by (induction "is" arbitrary: r) (simp_all add: bind_assoc cong: Option.bind_cong)

lemma executeSuperscalar_list:
  assumes "sp_size sp \<le> length (sp_buffer sp)"
  shows "executeSuperscalar rc sp r = exec_super rc (take (sp_size sp) (sp_buffer sp)) r"
proof -
  have "for_range 0 n (\<lambda>j s. Option.bind s (execute_super rc (sp_buffer sp ! j))) (Some r) = exec_super rc (take n (sp_buffer sp)) r"
    if "n \<le> sp_size sp" for n
    using that
  proof (induction n)
    case (Suc n)
    then have "take (Suc n) (sp_buffer sp) = take n (sp_buffer sp) @ [sp_buffer sp ! n]"
      using assms by (simp add: take_Suc_conv_app_nth)
    with Suc show ?case by (simp add: exec_super_append cong: Option.bind_cong)
  qed simp
  then show ?thesis by (simp add: executeSuperscalar_def)
qed

lemma sim_program:
  assumes "\<forall>i\<in>set is. super_code_ok cache i"
  shows "exec_super (Some cache) is (registers x) = Some (registers (effect fp (program_listing cache is) x)) \<and>
    same_frame x (effect fp (program_listing cache is) x)"
  using assms
proof (induction "is" arbitrary: x)
  case (Cons i "is")
  let ?y = "effect fp (listing_of cache i) x"
  have "super_code_ok cache i" using Cons.prems by simp
  note i = sim_super [OF this, where fp = fp and x = x]
  have "exec_super (Some cache) is (registers ?y) = Some (registers (effect fp (program_listing cache is) ?y)) \<and>
    same_frame ?y (effect fp (program_listing cache is) ?y)" using Cons by simp
  with i show ?case by (auto intro: same_frame_trans)
qed simp

section \<open>Programs from the cache\<close>

lemma super_code_ok_extend: "super_code_ok rc i \<Longrightarrow> super_code_ok (rc @ ext) i"
  by (auto simp: super_code_ok_def)

lemma patched_code_ok:
  assumes "n \<le> length buf" "length rc + n \<le> 4294967296" "\<forall>j<n. super_instr_ok (buf ! j)"
    "for_range 0 n patch_instr (buf, rc) = (buf', rc')"
  shows "\<forall>j<n. super_code_ok rc' (buf' ! j)"
  using assms
proof (induction n arbitrary: buf' rc')
  case (Suc n)
  obtain b1 r1 where before: "for_range 0 n patch_instr (buf, rc) = (b1, r1)" by fastforce
  then have IH: "\<forall>j<n. super_code_ok r1 (b1 ! j)" using Suc.IH [OF _ _ _ before] Suc.prems by simp
  have b1: "length b1 = length buf" "b1 ! n = buf ! n" and r1: "length r1 < 4294967296"
    using patch_loop [OF _ _ before] Suc.prems by auto
  have step: "patch_instr n (b1, r1) = (buf', rc')" using Suc.prems(4) before by simp
  have n: "super_instr_ok (buf ! n)" "n < length b1" using Suc.prems b1 by simp_all
  then obtain t where t: "stype_of (unat (i_opcode (buf ! n))) = Some t" "dst_n (buf ! n) < 8" "src_n (buf ! n) < 8"
    "t = S_IADD_RS \<longrightarrow> dst_n (buf ! n) \<noteq> 5" "t = S_IROR_C \<longrightarrow> unat (getImm32 (buf ! n)) < 64"
    by (auto simp: super_instr_ok_def RegisterNeedsDisplacement_def)
  show ?case
  proof (cases "t = S_IMUL_RCP")
    case True
    then have res: "buf' = b1[n := setImm32 (of_nat (length r1)) (buf ! n)]"
        "rc' = r1 @ [randomx_reciprocal (getImm32 (buf ! n))]"
      using step t(1) b1(2) by (simp_all add: patch_instr_def Let_def)
    have "super_code_ok rc' (buf' ! n)"
      unfolding super_code_ok_def using n(2) t r1 True
      by (intro exI [of _ t]) (simp add: res setImm32_def getImm32_def unsigned_of_nat take_bit_nat_eq_self)
    with IH show ?thesis by (auto simp: res less_Suc_eq intro: super_code_ok_extend)
  next
    case False
    then have res: "buf' = b1" "rc' = r1" using step t(1) b1(2) by (simp_all add: patch_instr_def Let_def)
    have "super_code_ok r1 (b1 ! n)"
      unfolding super_code_ok_def using t False by (intro exI [of _ t]) (simp add: b1(2))
    with IH show ?thesis by (auto simp: res less_Suc_eq)
  qed
qed simp

lemma patched_program_code_ok:
  assumes "generateSuperscalar H prog g = Some (sp, g')" "length prog = SuperscalarMaxSize"
    "patch_program sp rc = (sp', rc')" "length rc + SuperscalarMaxSize \<le> 4294967296"
  shows "\<forall>i\<in>set (take (sp_size sp') (sp_buffer sp')). super_code_ok (rc' @ ext) i"
    "sp_size sp' \<le> SuperscalarMaxSize" "sp_size sp' \<le> length (sp_buffer sp')"
proof -
  note ok = generated_ok [OF assms(1,2)]
  obtain buf where loop: "for_range 0 (sp_size sp) patch_instr (sp_buffer sp, rc) = (buf, rc')"
    and sp': "sp' = sp\<lparr>sp_buffer := buf\<rparr>"
    using assms(3) by (auto simp: patch_program_def split: prod.splits)
  have len: "sp_size sp \<le> length (sp_buffer sp)" "length rc + sp_size sp \<le> 4294967296" using ok assms(4) by simp_all
  have buf: "length buf = length (sp_buffer sp)" using patch_loop [OF len loop] by simp
  show "sp_size sp' \<le> SuperscalarMaxSize" "sp_size sp' \<le> length (sp_buffer sp')"
    using ok len(1) by (simp_all add: sp' buf)
  show "\<forall>i\<in>set (take (sp_size sp') (sp_buffer sp')). super_code_ok (rc' @ ext) i"
  proof -
    have "\<forall>j < sp_size sp. super_code_ok (rc' @ ext) (buf ! j)"
      using patched_code_ok [OF len ok(3) loop] super_code_ok_extend by blast
    then show ?thesis using len(1) by (auto simp: sp' in_set_conv_nth buf)
  qed
qed

lemma patched_reciprocals:
  "patch_program sp rc = (sp', rc') \<Longrightarrow> sp_size sp \<le> length (sp_buffer sp) \<Longrightarrow> length rc + sp_size sp \<le> 4294967296 \<Longrightarrow>
    \<exists>new. rc' = rc @ new \<and> length new \<le> sp_size sp"
  by (rule patch_program_ok(1))

text \<open>Every program of an initialised cache, with the reciprocals of that cache.\<close>

definition program_code :: "SuperscalarProgram \<Rightarrow> Instruction list" where
  "program_code sp = take (sp_size sp) (sp_buffer sp)"

definition program_ok :: "u64 list \<Rightarrow> SuperscalarProgram \<Rightarrow> bool" where
  "program_ok rc sp \<longleftrightarrow> sp_size sp \<le> SuperscalarMaxSize \<and> sp_size sp \<le> length (sp_buffer sp) \<and>
     (\<forall>i\<in>set (program_code sp). super_code_ok rc i)"

lemma cache_loop_code_ok:
  assumes "n \<le> length progs0" "n \<le> 8" "\<forall>sp\<in>set progs0. length (sp_buffer sp) = SuperscalarMaxSize"
    "for_range 0 n (cache_step H) (Some (progs0, [], g0)) = Some (progs, rc, g)"
  shows "\<forall>i<n. program_ok rc (progs ! i)"
  using assms
proof (induction n arbitrary: progs rc g)
  case (Suc n)
  from Suc.prems(4) obtain p1 r1 g1 where before: "for_range 0 n (cache_step H) (Some (progs0, [], g0)) = Some (p1, r1, g1)"
    by (cases "for_range 0 n (cache_step H) (Some (progs0, [], g0))") auto
  then have IH: "\<forall>i<n. program_ok r1 (p1 ! i)" using Suc.IH [OF _ _ _ before] Suc.prems by simp
  have p1: "length p1 = length progs0" "p1 ! n = progs0 ! n" "length r1 \<le> n * SuperscalarMaxSize"
    using cache_loop [OF _ _ Suc.prems(3) before] Suc.prems(1,2) by auto
  have "cache_step H n (Some (p1, r1, g1)) = Some (progs, rc, g)" using Suc.prems(4) before by simp
  with p1(2) obtain sp sp' where gen: "generateSuperscalar H (sp_buffer (progs0 ! n)) g1 = Some (sp, g)"
    and patch: "patch_program sp r1 = (sp', rc)" and progs: "progs = p1[n := sp']"
    by (auto simp: cache_step_def split: option.splits prod.splits)
  have b: "length (sp_buffer (progs0 ! n)) = SuperscalarMaxSize" using Suc.prems(1,3) by simp
  have short: "length r1 + SuperscalarMaxSize \<le> 4294967296"
    using p1(3) Suc.prems(2) by (simp add: SuperscalarMaxSize_def RANDOMX_SUPERSCALAR_LATENCY_def)
  note ok = patched_program_code_ok(1) [OF gen b patch short, where ext = "[]"]
    patched_program_code_ok(2,3) [OF gen b patch short]
  have "program_ok rc sp'" using ok(1-3) by (simp add: program_ok_def program_code_def)
  moreover have "program_ok rc (p1 ! i)" if "i < n" for i
  proof -
    obtain new where "rc = r1 @ new"
      using patched_reciprocals [OF patch] generated_ok(1,2) [OF gen b] short by auto
    then show ?thesis using IH that super_code_ok_extend by (auto simp: program_ok_def)
  qed
  ultimately show ?case using Suc.prems(1) p1(1) by (auto simp: progs less_Suc_eq)
qed simp

lemma cache_code_ok:
  assumes "initCache argon H cache key = Some c" "cache_shape cache"
  shows "length (ca_programs c) = RANDOMX_CACHE_ACCESSES"
    "i < RANDOMX_CACHE_ACCESSES \<Longrightarrow> program_ok (ca_reciprocals c) (ca_programs c ! i)"
proof -
  from assms(1) obtain progs rc g where loop:
      "for_range 0 RANDOMX_CACHE_ACCESSES (cache_step H) (Some (ca_programs cache, [], Blake2Generator_init key 0)) = Some (progs, rc, g)"
    and c: "c = cache\<lparr>ca_memory := argon key, ca_programs := progs, ca_reciprocals := rc\<rparr>"
    by (auto simp: initCache_def split: option.splits prod.splits)
  have shape: "RANDOMX_CACHE_ACCESSES \<le> length (ca_programs cache)" "RANDOMX_CACHE_ACCESSES \<le> 8"
    "\<forall>sp\<in>set (ca_programs cache). length (sp_buffer sp) = SuperscalarMaxSize"
    using assms(2) by (simp_all add: cache_shape_def RANDOMX_CACHE_ACCESSES_def)
  show "length (ca_programs c) = RANDOMX_CACHE_ACCESSES"
    using cache_loop [OF shape loop] assms(2) by (simp add: c cache_shape_def)
  show "i < RANDOMX_CACHE_ACCESSES \<Longrightarrow> program_ok (ca_reciprocals c) (ca_programs c ! i)"
    using cache_loop_code_ok [OF shape loop] by (simp add: c)
qed

lemma program_emitters:
  assumes "program_ok rc sp"
  shows "\<exists>m. in_order (map (\<lambda>i. generateSuperscalarCode (sp_buffer sp ! i) rc) [0..<sp_size sp]) = Some m \<and>
    (\<forall>j. run_state m j = ((), appended (listing_bytes (program_listing rc (program_code sp))) j))"
proof -
  have "map (\<lambda>i. generateSuperscalarCode (sp_buffer sp ! i) rc) [0..<sp_size sp] =
      map (\<lambda>i. generateSuperscalarCode i rc) (program_code sp)"
    using assms by (intro nth_equalityI) (simp_all add: program_code_def program_ok_def)
  then show ?thesis
    using super_emitters_run [of "program_code sp" rc] assms by (simp add: super_emitters_def program_ok_def)
qed

lemma program_runs:
  assumes "program_ok rc sp"
  shows "\<exists>m. in_order (map (\<lambda>i. generateSuperscalarCode (sp_buffer sp ! i) rc) [0..<sp_size sp]) = Some m \<and>
    (\<forall>j fp x. \<exists>n x'. xrun fp (j_code (snd (run_state m j))) n (j_pos j, x) = Some (j_pos (snd (run_state m j)), x') \<and>
       executeSuperscalar (Some rc) sp (registers x) = Some (registers x') \<and> same_frame x x')"
proof -
  let ?l = "program_listing rc (program_code sp)"
  have ok: "\<forall>i\<in>set (program_code sp). super_code_ok rc i" "sp_size sp \<le> length (sp_buffer sp)"
    using assms by (simp_all add: program_ok_def)
  obtain m where m: "in_order (map (\<lambda>i. generateSuperscalarCode (sp_buffer sp ! i) rc) [0..<sp_size sp]) = Some m"
    and run: "\<And>j. run_state m j = ((), appended (listing_bytes ?l) j)" using program_emitters [OF assms] by blast
  have "xrun fp (j_code (appended (listing_bytes ?l) j)) (length ?l) (j_pos j, x) =
      Some (j_pos (appended (listing_bytes ?l) j), effect fp ?l x)" for fp j x
    using run_listing [OF program_listing_ok(1) [OF ok(1)] _ program_listing_ok(2) [OF ok(1)]]
    by (simp add: appended_def code_at_written)
  with m show ?thesis
    using sim_program [OF ok(1)] executeSuperscalar_list [OF ok(2)] by (simp add: run program_code_def [symmetric]) blast
qed

text \<open>The code of all programs.\<close>

lemma in_order_append: "in_order (os @ ps) = (case (in_order os, in_order ps) of
    (Some a, Some b) \<Rightarrow> Some (do { a; b }) | _ \<Rightarrow> None)"
  by (induction os) (auto split: option.splits)

definition appends_some :: "nat \<Rightarrow> emitter option \<Rightarrow> bool" where
  "appends_some n e \<longleftrightarrow> (\<exists>m. e = Some m \<and> appends n m)"

lemma appends_in_order:
  "list_all2 appends_some ns es \<Longrightarrow> appends_some (sum_list ns) (in_order es)"
proof (induction rule: list_all2_induct)
  case (Cons n ns e es)
  then show ?case by (auto simp: appends_some_def intro!: appends_bind)
qed (simp add: appends_some_def appends_emit)

lemma appends_in_order_append:
  "appends_some n (in_order es) \<Longrightarrow> appends_some k (in_order fs) \<Longrightarrow> appends_some (n + k) (in_order (es @ fs))"
  by (auto simp: appends_some_def in_order_append intro!: appends_bind)

lemma program_appends:
  assumes "program_ok rc sp"
  shows "appends_some (MaxSuperscalarInstrSize * SuperscalarMaxSize)
    (in_order (map (\<lambda>i. generateSuperscalarCode (sp_buffer sp ! i) rc) [0..<sp_size sp]))"
proof -
  let ?l = "listing_bytes (program_listing rc (program_code sp))"
  obtain m where m: "in_order (map (\<lambda>i. generateSuperscalarCode (sp_buffer sp ! i) rc) [0..<sp_size sp]) = Some m"
    and run: "\<And>j. run_state m j = ((), appended ?l j)" using program_emitters [OF assms] by blast
  have "length ?l \<le> MaxSuperscalarInstrSize * SuperscalarMaxSize"
    using program_listing_ok(3) [of "program_code sp" rc] assms
    by (simp add: program_ok_def program_code_def x86_const)
  moreover have "appends (length ?l) m" by (simp add: appends_def Let_def run appended_def write_bytes_def)
  ultimately show ?thesis unfolding appends_some_def m by (blast intro: appends_weaken)
qed

lemma body_appends:
  assumes "program_ok rc (ps ! i)" "length (codeShhLoad sc) + 3 + length (codeShhPrefetch sc) \<le> SuperscalarProgramHeader"
  shows "appends_some (SuperscalarProgramHeader + MaxSuperscalarInstrSize * SuperscalarMaxSize)
    (in_order (superscalar_body sc ps rc i))"
proof -
  let ?next = "if i < length ps - 1 then do { emit_bytes REX_MOV_RR64; emitByte (0xd8 + sp_addrReg (ps ! i));
      emit_bytes (codeShhPrefetch sc) } else State_Monad.return ()"
  have "appends (max (2 + (1 + length (codeShhPrefetch sc))) 0) ?next"
    by (intro appends_if appends_bind appends_emit appends_bytes) (simp add: x86_const)
  then have "list_all2 appends_some [length (codeShhLoad sc), max (2 + (1 + length (codeShhPrefetch sc))) 0]
    [Some (emit_bytes (codeShhLoad sc)), Some ?next]"
    by (simp add: appends_some_def appends_emit)
  then have "appends_some (sum_list [length (codeShhLoad sc), max (2 + (1 + length (codeShhPrefetch sc))) 0])
    (in_order [Some (emit_bytes (codeShhLoad sc)), Some ?next])" by (rule appends_in_order)
  moreover have "sum_list [length (codeShhLoad sc), max (2 + (1 + length (codeShhPrefetch sc))) 0] =
    length (codeShhLoad sc) + (3 + length (codeShhPrefetch sc))" by simp
  ultimately have "appends_some (length (codeShhLoad sc) + (3 + length (codeShhPrefetch sc)))
    (in_order [Some (emit_bytes (codeShhLoad sc)), Some ?next])" by (simp only:)
  from appends_in_order_append [OF program_appends [OF assms(1)] this]
  have "appends_some (MaxSuperscalarInstrSize * SuperscalarMaxSize + (length (codeShhLoad sc) + (3 + length (codeShhPrefetch sc))))
    (in_order (superscalar_body sc ps rc i))" by (simp add: superscalar_body_def Let_def)
  moreover have "MaxSuperscalarInstrSize * SuperscalarMaxSize + (length (codeShhLoad sc) + (3 + length (codeShhPrefetch sc)))
    \<le> SuperscalarProgramHeader + MaxSuperscalarInstrSize * SuperscalarMaxSize" using assms(2) by simp
  ultimately show ?thesis unfolding appends_some_def by (blast intro: appends_weaken)
qed

lemma bodies_append:
  assumes "\<And>i. i \<in> set is \<Longrightarrow> appends_some n (in_order (f i))"
  shows "appends_some (n * length is) (in_order (concat (map f is)))"
  using assms
proof (induction "is")
  case (Cons i "is")
  from appends_in_order_append [of n "f i"] Cons show ?case by simp
qed (simp add: appends_some_def appends_emit)

lemma superscalar_hash_layout:
  assumes ok: "\<And>i. i < length ps \<Longrightarrow> program_ok rc (ps ! i)" and n: "length ps = RANDOMX_CACHE_ACCESSES"
    and init: "length (codeShhInit sc) < ReserveCodeSize"
    and header: "length (codeShhLoad sc) + 3 + length (codeShhPrefetch sc) \<le> SuperscalarProgramHeader"
  shows "\<exists>m. generateSuperscalarHash sc ps rc = Some m \<and>
    (\<forall>j. j_pos (snd (run_state m j)) \<le> CodeSize - 3072 \<and>
      (\<forall>a. a < superScalarHashOffset \<or> CodeSize - 3072 \<le> a \<longrightarrow> j_code (snd (run_state m j)) a = j_code j a))"
proof -
  let ?n = "SuperscalarProgramHeader + MaxSuperscalarInstrSize * SuperscalarMaxSize"
  have "appends_some (?n * length [0..<length ps]) (in_order (concat (map (superscalar_body sc ps rc) [0..<length ps])))"
    by (rule bodies_append) (use ok header in \<open>auto intro: body_appends\<close>)
  moreover have "appends_some (sum_list [1]) (in_order [Some (emitByte RET)])"
    by (rule appends_in_order) (simp add: appends_some_def appends_emit(2) [unfolded One_nat_def])
  ultimately have "appends_some (?n * length [0..<length ps] + 1)
    (in_order (concat (map (superscalar_body sc ps rc) [0..<length ps]) @ [Some (emitByte RET)]))"
    by (intro appends_in_order_append) simp_all
  moreover have "?n * length [0..<length ps] + 1 = 58369"
    by (simp add: n x86_const SuperscalarMaxSize_def RANDOMX_SUPERSCALAR_LATENCY_def RANDOMX_CACHE_ACCESSES_def)
  ultimately obtain m where m: "in_order (concat (map (superscalar_body sc ps rc) [0..<length ps]) @ [Some (emitByte RET)]) = Some m"
    and ap: "appends 58369 m" by (auto simp: appends_some_def)
  define M where "M = do { copy_to superScalarHashOffset (codeShhInit sc);
    set_pos (superScalarHashOffset + length (codeShhInit sc)); m }"
  have "generateSuperscalarHash sc ps rc = Some M"
    by (simp add: generateSuperscalarHash_def m M_def)
  moreover have "j_pos (snd (run_state M j)) \<le> CodeSize - 3072 \<and>
      (\<forall>a. a < superScalarHashOffset \<or> CodeSize - 3072 \<le> a \<longrightarrow> j_code (snd (run_state M j)) a = j_code j a)" for j
  proof -
    define j1 where "j1 = j\<lparr>j_code := write_bytes (j_code j) superScalarHashOffset (codeShhInit sc),
      j_pos := superScalarHashOffset + length (codeShhInit sc)\<rparr>"
    have run: "snd (run_state M j) = snd (run_state m j1)"
      by (simp add: M_def j1_def copy_to_def set_pos_def)
    have p: "j_pos j1 = 16384 + length (codeShhInit sc)" by (simp add: j1_def x86_const)
    have "length (codeShhInit sc) < 4096" using init by (simp add: x86_const)
    moreover have "j_code j1 a = j_code j a" if "a < 16384 \<or> 16384 + length (codeShhInit sc) \<le> a" for a
      using that by (auto simp: j1_def write_bytes_def x86_const)
    moreover have "j_pos j1 \<le> j_pos (snd (run_state m j1)) \<and> j_pos (snd (run_state m j1)) \<le> j_pos j1 + 58369 \<and>
      (\<forall>a<j_pos j1. j_code (snd (run_state m j1)) a = j_code j1 a) \<and>
      (\<forall>a\<ge>j_pos (snd (run_state m j1)). j_code (snd (run_state m j1)) a = j_code j1 a)"
      using ap unfolding appends_def Let_def by blast
    ultimately show ?thesis unfolding run by (auto simp: p x86_const)
  qed
  ultimately show ?thesis by blast
qed

section \<open>Properties\<close>

text \<open>C7: The machine code of a program of an initialised cache does what
  \<^verbatim>\<open>executeSuperscalar\<close> does with that program and the reciprocals of the cache, from
  every state of the processor and at every place of the code buffer. It leaves the memory, the
  stack pointer and the pointers of the caller as they are.\<close>

theorem jit_superscalar_simulates:
  assumes "initCache argon H cache key = Some c" "cache_shape cache" "i < RANDOMX_CACHE_ACCESSES"
  shows "\<exists>m. in_order (map (\<lambda>k. generateSuperscalarCode (sp_buffer (ca_programs c ! i) ! k) (ca_reciprocals c))
      [0..<sp_size (ca_programs c ! i)]) = Some m \<and>
    (\<forall>j fp x. \<exists>n x'. xrun fp (j_code (snd (run_state m j))) n (j_pos j, x) = Some (j_pos (snd (run_state m j)), x') \<and>
       executeSuperscalar (Some (ca_reciprocals c)) (ca_programs c ! i) (registers x) = Some (registers x') \<and>
       same_frame x x')"
  by (rule program_runs) (rule cache_code_ok(2) [OF assms])

theorem jit_superscalar_simulates_witness:
  "\<exists>c m n x'. initCache (\<lambda>_ _. 3) sevens empty_cache [1, 2] = Some c \<and>
    in_order (map (\<lambda>k. generateSuperscalarCode (sp_buffer (ca_programs c ! 0) ! k) (ca_reciprocals c))
      [0..<sp_size (ca_programs c ! 0)]) = Some m \<and>
    xrun fpu0 (j_code (snd (run_state m jit0))) n (0, xstate0) = Some (j_pos (snd (run_state m jit0)), x') \<and>
    executeSuperscalar (Some (ca_reciprocals c)) (ca_programs c ! 0) (registers xstate0) = Some (registers x')"
proof -
  obtain c where c: "initCache (\<lambda>_ _. 3) sevens empty_cache [1, 2] = Some c" by (rule example_cache)
  have "j_pos jit0 = 0" by (simp add: jit0_def JitCompilerX86_def)
  with jit_superscalar_simulates [OF c empty_cache_shape, of 0] c show ?thesis
    by (simp add: RANDOMX_CACHE_ACCESSES_def) metis
qed

text \<open>C9: The superscalar code of an initialised cache stays in its part of the code
  buffer: it is written completely, the randomx program before it is left alone, and so are the
  last 3072 bytes of the buffer, where the epilogue stands.\<close>

theorem jit_superscalar_in_bounds:
  assumes "initCache argon H cache key = Some c" "cache_shape cache" "length (codeShhInit sc) < ReserveCodeSize"
    "length (codeShhLoad sc) + 3 + length (codeShhPrefetch sc) \<le> SuperscalarProgramHeader"
  shows "\<exists>m. generateSuperscalarHash sc (ca_programs c) (ca_reciprocals c) = Some m \<and>
    (\<forall>j. j_pos (snd (run_state m j)) \<le> CodeSize - 3072 \<and>
      (\<forall>a. a < superScalarHashOffset \<or> CodeSize - 3072 \<le> a \<longrightarrow> j_code (snd (run_state m j)) a = j_code j a))"
  by (rule superscalar_hash_layout) (use cache_code_ok [OF assms(1,2)] assms(3,4) in simp_all)

theorem jit_superscalar_in_bounds_witness:
  "\<exists>c m. initCache (\<lambda>_ _. 3) sevens empty_cache [1, 2] = Some c \<and>
    generateSuperscalarHash sc0 (ca_programs c) (ca_reciprocals c) = Some m \<and>
    j_pos (snd (run_state m jit0)) \<le> 78848 \<and> j_code (snd (run_state m jit0)) 81919 = 0xc3"
proof -
  obtain c where c: "initCache (\<lambda>_ _. 3) sevens empty_cache [1, 2] = Some c" by (rule example_cache)
  have "length (codeShhInit sc0) < ReserveCodeSize"
    "length (codeShhLoad sc0) + 3 + length (codeShhPrefetch sc0) \<le> SuperscalarProgramHeader"
    by (simp_all add: sc0_def x86_const)
  from jit_superscalar_in_bounds [OF c empty_cache_shape this]
  obtain m where m: "generateSuperscalarHash sc0 (ca_programs c) (ca_reciprocals c) = Some m"
    "j_pos (snd (run_state m jit0)) \<le> 78848" "j_code (snd (run_state m jit0)) 81919 = j_code jit0 81919"
    by (auto simp: x86_const)
  have "j_code jit0 81919 = 0xc3"
    by (simp add: jit0_def JitCompilerX86_def sc0_def epilogueOffset_def write_bytes_def x86_const)
  with c m show ?thesis by auto
qed

end
