(* ===== verification/Argon2.thy ===== *)
theory Argon2
  imports Dataset
begin

text \<open>
  Argon2d as RandomX uses it to fill the cache (\<^verbatim>\<open>argon2.h\<close>, \<^verbatim>\<open>argon2_core.c\<close>,
  \<^verbatim>\<open>argon2_ref.c\<close>, \<^verbatim>\<open>blake2/blamka-round-ref.h\<close> and the first half of
  \<^verbatim>\<open>initCache\<close> in \<^verbatim>\<open>dataset.cpp\<close>): validation of the inputs, the initial
  hash, the first blocks, the choice of the reference block and the filling of a segment.

  A block is the list of its 128 words, the memory the list of its blocks. An array that may be
  \<^verbatim>\<open>NULL\<close> is an option. An access outside the memory or an array is \<open>None\<close>. Offsets keep
  the width they have in the code.
\<close>

section \<open>Constants and data\<close>

definition ARGON2_MIN_LANES :: u32 where "ARGON2_MIN_LANES = 1"
definition ARGON2_MAX_LANES :: u32 where "ARGON2_MAX_LANES = 0xFFFFFF"
definition ARGON2_MIN_THREADS :: u32 where "ARGON2_MIN_THREADS = 1"
definition ARGON2_MAX_THREADS :: u32 where "ARGON2_MAX_THREADS = 0xFFFFFF"
definition ARGON2_SYNC_POINTS :: u32 where "ARGON2_SYNC_POINTS = 4"
definition ARGON2_MIN_MEMORY :: u32 where "ARGON2_MIN_MEMORY = 2 * ARGON2_SYNC_POINTS"
definition ARGON2_MAX_MEMORY_BITS :: u32 where "ARGON2_MAX_MEMORY_BITS = min 32 (8 * 8 - 10 - 1)"
definition ARGON2_MAX_MEMORY :: u64 where
  "ARGON2_MAX_MEMORY = min 0xFFFFFFFF (push_bit (unat ARGON2_MAX_MEMORY_BITS) 1)"
definition ARGON2_MIN_TIME :: u32 where "ARGON2_MIN_TIME = 1"
definition ARGON2_MAX_TIME :: u32 where "ARGON2_MAX_TIME = 0xFFFFFFFF"
definition ARGON2_MIN_PWD_LENGTH :: u32 where "ARGON2_MIN_PWD_LENGTH = 0"
definition ARGON2_MAX_PWD_LENGTH :: u32 where "ARGON2_MAX_PWD_LENGTH = 0xFFFFFFFF"
definition ARGON2_MIN_AD_LENGTH :: u32 where "ARGON2_MIN_AD_LENGTH = 0"
definition ARGON2_MAX_AD_LENGTH :: u32 where "ARGON2_MAX_AD_LENGTH = 0xFFFFFFFF"
definition ARGON2_MIN_SALT_LENGTH :: u32 where "ARGON2_MIN_SALT_LENGTH = 8"
definition ARGON2_MAX_SALT_LENGTH :: u32 where "ARGON2_MAX_SALT_LENGTH = 0xFFFFFFFF"
definition ARGON2_MIN_SECRET :: u32 where "ARGON2_MIN_SECRET = 0"
definition ARGON2_MAX_SECRET :: u32 where "ARGON2_MAX_SECRET = 0xFFFFFFFF"
definition ARGON2_DEFAULT_FLAGS :: u32 where "ARGON2_DEFAULT_FLAGS = 0"
definition ARGON2_BLOCK_SIZE :: nat where "ARGON2_BLOCK_SIZE = 1024"
definition ARGON2_QWORDS_IN_BLOCK :: nat where "ARGON2_QWORDS_IN_BLOCK = ARGON2_BLOCK_SIZE div 8"
definition ARGON2_OWORDS_IN_BLOCK :: nat where "ARGON2_OWORDS_IN_BLOCK = ARGON2_BLOCK_SIZE div 16"
definition ARGON2_HWORDS_IN_BLOCK :: nat where "ARGON2_HWORDS_IN_BLOCK = ARGON2_BLOCK_SIZE div 32"
definition ARGON2_PREHASH_DIGEST_LENGTH :: nat where "ARGON2_PREHASH_DIGEST_LENGTH = 64"
definition ARGON2_PREHASH_SEED_LENGTH :: nat where "ARGON2_PREHASH_SEED_LENGTH = 72"
definition ARGON2_VERSION_10 :: u32 where "ARGON2_VERSION_10 = 0x10"
definition ARGON2_VERSION_13 :: u32 where "ARGON2_VERSION_13 = 0x13"
definition ARGON2_VERSION_NUMBER :: u32 where "ARGON2_VERSION_NUMBER = ARGON2_VERSION_13"

lemmas argon_limits = ARGON2_MIN_LANES_def ARGON2_MAX_LANES_def ARGON2_MIN_THREADS_def ARGON2_MAX_THREADS_def
  ARGON2_SYNC_POINTS_def ARGON2_MIN_MEMORY_def ARGON2_MAX_MEMORY_BITS_def ARGON2_MAX_MEMORY_def ARGON2_MIN_TIME_def
  ARGON2_MAX_TIME_def ARGON2_MIN_PWD_LENGTH_def ARGON2_MAX_PWD_LENGTH_def ARGON2_MIN_AD_LENGTH_def
  ARGON2_MAX_AD_LENGTH_def ARGON2_MIN_SALT_LENGTH_def ARGON2_MAX_SALT_LENGTH_def ARGON2_MIN_SECRET_def
  ARGON2_MAX_SECRET_def

lemmas argon_sizes = ARGON2_BLOCK_SIZE_def ARGON2_QWORDS_IN_BLOCK_def ARGON2_OWORDS_IN_BLOCK_def
  ARGON2_HWORDS_IN_BLOCK_def ARGON2_PREHASH_DIGEST_LENGTH_def ARGON2_PREHASH_SEED_LENGTH_def

datatype argon2_error_codes =
    ARGON2_OK | ARGON2_OUTPUT_PTR_NULL | ARGON2_OUTPUT_TOO_SHORT | ARGON2_OUTPUT_TOO_LONG
  | ARGON2_PWD_TOO_SHORT | ARGON2_PWD_TOO_LONG | ARGON2_SALT_TOO_SHORT | ARGON2_SALT_TOO_LONG
  | ARGON2_AD_TOO_SHORT | ARGON2_AD_TOO_LONG | ARGON2_SECRET_TOO_SHORT | ARGON2_SECRET_TOO_LONG
  | ARGON2_TIME_TOO_SMALL | ARGON2_TIME_TOO_LARGE | ARGON2_MEMORY_TOO_LITTLE | ARGON2_MEMORY_TOO_MUCH
  | ARGON2_LANES_TOO_FEW | ARGON2_LANES_TOO_MANY | ARGON2_PWD_PTR_MISMATCH | ARGON2_SALT_PTR_MISMATCH
  | ARGON2_SECRET_PTR_MISMATCH | ARGON2_AD_PTR_MISMATCH | ARGON2_MEMORY_ALLOCATION_ERROR
  | ARGON2_FREE_MEMORY_CBK_NULL | ARGON2_ALLOCATE_MEMORY_CBK_NULL | ARGON2_INCORRECT_PARAMETER
  | ARGON2_INCORRECT_TYPE | ARGON2_OUT_PTR_MISMATCH | ARGON2_THREADS_TOO_FEW | ARGON2_THREADS_TOO_MANY
  | ARGON2_MISSING_ARGS | ARGON2_ENCODING_FAIL | ARGON2_DECODING_FAIL | ARGON2_THREAD_FAIL
  | ARGON2_DECODING_LENGTH_FAIL | ARGON2_VERIFY_MISMATCH

datatype argon2_type = Argon2_d | Argon2_i | Argon2_id

fun type_number :: "argon2_type \<Rightarrow> u32" where
  "type_number Argon2_d = 0" | "type_number Argon2_i = 1" | "type_number Argon2_id = 2"

text \<open>The two callbacks are only compared with \<^verbatim>\<open>NULL\<close>.\<close>

record argon2_context =
  c_outlen :: u32
  c_pwd :: "u8 list option"
  c_pwdlen :: u32
  c_salt :: "u8 list option"
  c_saltlen :: u32
  c_secret :: "u8 list option"
  c_secretlen :: u32
  c_ad :: "u8 list option"
  c_adlen :: u32
  c_t_cost :: u32
  c_m_cost :: u32
  c_lanes :: u32
  c_threads :: u32
  c_version :: u32
  c_allocate_cbk :: bool
  c_free_cbk :: bool
  c_flags :: u32

type_synonym block = "u64 list"

record argon2_instance =
  in_version :: u32
  in_passes :: u32
  in_memory_blocks :: u32
  in_segment_length :: u32
  in_lane_length :: u32
  in_lanes :: u32
  in_threads :: u32
  in_type :: argon2_type
  in_impl :: argon2_impl

record argon2_position =
  pos_pass :: u32
  pos_lane :: u32
  pos_slice :: u8
  pos_index :: u32

section \<open>Validation\<close>

definition randomx_argon2_validate_inputs :: "argon2_context option \<Rightarrow> argon2_error_codes" where
  "randomx_argon2_validate_inputs ctx =
    (case ctx of None \<Rightarrow> ARGON2_INCORRECT_PARAMETER
     | Some c \<Rightarrow>
        if c_pwd c = None \<and> c_pwdlen c \<noteq> 0 then ARGON2_PWD_PTR_MISMATCH
        else if ARGON2_MIN_PWD_LENGTH > c_pwdlen c then ARGON2_PWD_TOO_SHORT
        else if ARGON2_MAX_PWD_LENGTH < c_pwdlen c then ARGON2_PWD_TOO_LONG
        else if c_salt c = None \<and> c_saltlen c \<noteq> 0 then ARGON2_SALT_PTR_MISMATCH
        else if ARGON2_MIN_SALT_LENGTH > c_saltlen c then ARGON2_SALT_TOO_SHORT
        else if ARGON2_MAX_SALT_LENGTH < c_saltlen c then ARGON2_SALT_TOO_LONG
        else if c_secret c = None \<and> c_secretlen c \<noteq> 0 then ARGON2_SECRET_PTR_MISMATCH
        else if c_secret c \<noteq> None \<and> ARGON2_MIN_SECRET > c_secretlen c then ARGON2_SECRET_TOO_SHORT
        else if c_secret c \<noteq> None \<and> ARGON2_MAX_SECRET < c_secretlen c then ARGON2_SECRET_TOO_LONG
        else if c_ad c = None \<and> c_adlen c \<noteq> 0 then ARGON2_AD_PTR_MISMATCH
        else if c_ad c \<noteq> None \<and> ARGON2_MIN_AD_LENGTH > c_adlen c then ARGON2_AD_TOO_SHORT
        else if c_ad c \<noteq> None \<and> ARGON2_MAX_AD_LENGTH < c_adlen c then ARGON2_AD_TOO_LONG
        else if ARGON2_MIN_MEMORY > c_m_cost c then ARGON2_MEMORY_TOO_LITTLE
        else if ARGON2_MAX_MEMORY < ucast (c_m_cost c) then ARGON2_MEMORY_TOO_MUCH
        else if c_m_cost c < 8 * c_lanes c then ARGON2_MEMORY_TOO_LITTLE
        else if ARGON2_MIN_TIME > c_t_cost c then ARGON2_TIME_TOO_SMALL
        else if ARGON2_MAX_TIME < c_t_cost c then ARGON2_TIME_TOO_LARGE
        else if ARGON2_MIN_LANES > c_lanes c then ARGON2_LANES_TOO_FEW
        else if ARGON2_MAX_LANES < c_lanes c then ARGON2_LANES_TOO_MANY
        else if ARGON2_MIN_THREADS > c_threads c then ARGON2_THREADS_TOO_FEW
        else if ARGON2_MAX_THREADS < c_threads c then ARGON2_THREADS_TOO_MANY
        else if c_allocate_cbk c \<and> \<not> c_free_cbk c then ARGON2_FREE_MEMORY_CBK_NULL
        else if \<not> c_allocate_cbk c \<and> c_free_cbk c then ARGON2_ALLOCATE_MEMORY_CBK_NULL
        else ARGON2_OK)"

section \<open>The compression function\<close>

definition fBlaMka :: "u64 \<Rightarrow> u64 \<Rightarrow> u64" where
  "fBlaMka x y = (let m = 0xFFFFFFFF; xy = (x AND m) * (y AND m) in x + y + 2 * xy)"

text \<open>The macro \<^verbatim>\<open>G\<close>: its four variables before and after.\<close>

definition argon_G :: "u64 \<Rightarrow> u64 \<Rightarrow> u64 \<Rightarrow> u64 \<Rightarrow> u64 \<times> u64 \<times> u64 \<times> u64" where
  "argon_G a b c d =
    (let a = fBlaMka a b; d = rotr64 (d XOR a) 32;
         c = fBlaMka c d; b = rotr64 (b XOR c) 24;
         a = fBlaMka a b; d = rotr64 (d XOR a) 16;
         c = fBlaMka c d; b = rotr64 (b XOR c) 63
     in (a, b, c, d))"

text \<open>Applied to four of the sixteen variables of the round.\<close>

definition G_at :: "nat \<Rightarrow> nat \<Rightarrow> nat \<Rightarrow> nat \<Rightarrow> u64 list \<Rightarrow> u64 list" where
  "G_at i j k l v = (case argon_G (v ! i) (v ! j) (v ! k) (v ! l) of
     (a, b, c, d) \<Rightarrow> v[i := a, j := b, k := c, l := d])"

definition BLAKE2_ROUND_NOMSG :: "u64 list \<Rightarrow> u64 list" where
  "BLAKE2_ROUND_NOMSG v =
    (let v = G_at 0 4 8 12 v; v = G_at 1 5 9 13 v; v = G_at 2 6 10 14 v; v = G_at 3 7 11 15 v;
         v = G_at 0 5 10 15 v; v = G_at 1 6 11 12 v; v = G_at 2 7 8 13 v; v = G_at 3 4 9 14 v
     in v)"

text \<open>A macro with arguments that are variables of an array: it reads and assigns the elements
  at these positions.\<close>

fun assign_at :: "nat list \<Rightarrow> 'a list \<Rightarrow> 'a list \<Rightarrow> 'a list" where
  "assign_at (i # is) (x # xs) v = assign_at is xs (v[i := x])"
| "assign_at is xs v = v"

definition apply_at :: "nat list \<Rightarrow> ('a list \<Rightarrow> 'a list) \<Rightarrow> 'a list \<Rightarrow> 'a list" where
  "apply_at is f v = assign_at is (f (map (\<lambda>i. v ! i) is)) v"

definition copy_block :: "block \<Rightarrow> block" where "copy_block b = b"

definition xor_block :: "block \<Rightarrow> block \<Rightarrow> block" where
  "xor_block dst src = map2 (XOR) dst src"

definition row_words :: "nat \<Rightarrow> nat list" where
  "row_words i = map (\<lambda>k. 16 * i + k) [0..<16]"

definition column_words :: "nat \<Rightarrow> nat list" where
  "column_words i = [2 * i, 2 * i + 1, 2 * i + 16, 2 * i + 17, 2 * i + 32, 2 * i + 33, 2 * i + 48, 2 * i + 49,
     2 * i + 64, 2 * i + 65, 2 * i + 80, 2 * i + 81, 2 * i + 96, 2 * i + 97, 2 * i + 112, 2 * i + 113]"

text \<open>The new contents of \<^verbatim>\<open>next_block\<close>.\<close>

definition fill_block :: "block \<Rightarrow> block \<Rightarrow> block \<Rightarrow> bool \<Rightarrow> block" where
  "fill_block prev_block ref_block next_block with_xor =
    (let blockR = copy_block ref_block;
         blockR = xor_block blockR prev_block;
         block_tmp = copy_block blockR;
         block_tmp = (if with_xor then xor_block block_tmp next_block else block_tmp);
         blockR = for_range 0 8 (\<lambda>i. apply_at (row_words i) BLAKE2_ROUND_NOMSG) blockR;
         blockR = for_range 0 8 (\<lambda>i. apply_at (column_words i) BLAKE2_ROUND_NOMSG) blockR;
         next_block = copy_block block_tmp
     in xor_block next_block blockR)"

section \<open>Reference blocks\<close>

definition randomx_argon2_index_alpha :: "argon2_instance \<Rightarrow> argon2_position \<Rightarrow> u32 \<Rightarrow> bool \<Rightarrow> u32" where
  "randomx_argon2_index_alpha inst pos pseudo_rand same_lane =
    (let slice = ucast (pos_slice pos) :: u32;
         reference_area_size =
          (if pos_pass pos = 0
           then if slice = 0 then pos_index pos - 1
                else if same_lane then slice * in_segment_length inst + pos_index pos - 1
                else slice * in_segment_length inst + (if pos_index pos = 0 then -1 else 0)
           else if same_lane then in_lane_length inst - in_segment_length inst + pos_index pos - 1
                else in_lane_length inst - in_segment_length inst + (if pos_index pos = 0 then -1 else 0));
         relative_position = ucast pseudo_rand :: u64;
         relative_position = drop_bit 32 (relative_position * relative_position);
         relative_position = ucast (reference_area_size - 1)
            - drop_bit 32 (ucast reference_area_size * relative_position);
         start_position =
          (if pos_pass pos \<noteq> 0
           then if slice = ARGON2_SYNC_POINTS - 1 then 0 else (slice + 1) * in_segment_length inst
           else 0)
     in ucast ((ucast start_position + relative_position) mod ucast (in_lane_length inst) :: u64))"

section \<open>Segments\<close>

definition block_at :: "block list \<Rightarrow> nat \<Rightarrow> block option" where
  "block_at m i = (if i < length m then Some (m ! i) else None)"

text \<open>The offsets of the current and of the previous block at the start of a segment.\<close>

definition first_index :: "argon2_position \<Rightarrow> nat" where
  "first_index pos = (if pos_pass pos = 0 \<and> pos_slice pos = 0 then 2 else 0)"

definition first_offset :: "argon2_instance \<Rightarrow> argon2_position \<Rightarrow> u32" where
  "first_offset inst pos = pos_lane pos * in_lane_length inst + ucast (pos_slice pos) * in_segment_length inst
     + of_nat (first_index pos)"

definition offset_before :: "argon2_instance \<Rightarrow> u32 \<Rightarrow> u32" where
  "offset_before inst curr_offset =
    (if curr_offset mod in_lane_length inst = 0 then curr_offset + in_lane_length inst - 1 else curr_offset - 1)"

text \<open>Lane and index of the reference block of block \<open>i\<close> of the segment.\<close>

definition reference_of :: "argon2_instance \<Rightarrow> argon2_position \<Rightarrow> u64 \<Rightarrow> nat \<Rightarrow> u64 \<times> u64" where
  "reference_of inst pos pseudo_rand i =
    (let ref_lane = drop_bit 32 pseudo_rand mod ucast (in_lanes inst);
         ref_lane = (if pos_pass pos = 0 \<and> pos_slice pos = 0 then ucast (pos_lane pos) else ref_lane);
         pos = pos\<lparr>pos_index := of_nat i\<rparr>;
         ref_index = randomx_argon2_index_alpha inst pos (ucast (pseudo_rand AND 0xFFFFFFFF)) (ref_lane = ucast (pos_lane pos))
     in (ref_lane, ucast ref_index))"

definition xor_needed :: "argon2_instance \<Rightarrow> argon2_position \<Rightarrow> bool" where
  "xor_needed inst pos =
    (if ARGON2_VERSION_10 = in_version inst then False else if 0 = pos_pass pos then False else True)"

definition segment_step :: "argon2_instance \<Rightarrow> argon2_position \<Rightarrow> nat
    \<Rightarrow> (block list \<times> u32 \<times> u32) option \<Rightarrow> (block list \<times> u32 \<times> u32) option" where
  "segment_step inst pos i s = do {
     (m, curr_offset, prev_offset) \<leftarrow> s;
     let prev_offset = (if curr_offset mod in_lane_length inst = 1 then curr_offset - 1 else prev_offset);
     prev \<leftarrow> block_at m (unat prev_offset);
     let (ref_lane, ref_index) = reference_of inst pos (prev ! 0) i;
     ref_block \<leftarrow> block_at m (unat (ucast (in_lane_length inst) * ref_lane + ref_index));
     curr \<leftarrow> block_at m (unat curr_offset);
     Some (m[unat curr_offset := fill_block prev ref_block curr (xor_needed inst pos)], curr_offset + 1, prev_offset + 1) }"

definition randomx_argon2_fill_segment_ref :: "argon2_instance option \<Rightarrow> argon2_position \<Rightarrow> block list \<Rightarrow> block list option" where
  "randomx_argon2_fill_segment_ref inst pos m =
    (case inst of None \<Rightarrow> Some m
     | Some inst \<Rightarrow>
        let curr_offset = first_offset inst pos
        in map_option fst (for_range (first_index pos) (unat (in_segment_length inst)) (segment_step inst pos)
             (Some (m, curr_offset, offset_before inst curr_offset))))"

section \<open>Initial hash and first blocks\<close>

text \<open>The result codes of \<^verbatim>\<open>blake2b_update\<close> are not looked at.\<close>

definition update_with :: "blake2b_state \<Rightarrow> u8 list \<Rightarrow> blake2b_state" where
  "update_with S bs = (case blake2b_update S bs of None \<Rightarrow> S | Some S' \<Rightarrow> S')"

definition le32 :: "u32 \<Rightarrow> u8 list" where
  "le32 v = read_bytes (store32 (\<lambda>_. 0) 0 v) 0 4"

text \<open>A length and, when the array is there, its bytes.\<close>

definition update_field :: "u32 \<Rightarrow> u8 list option \<Rightarrow> blake2b_state \<Rightarrow> blake2b_state option" where
  "update_field n arr S =
    (let S = update_with S (le32 n)
     in case arr of None \<Rightarrow> Some S
        | Some bs \<Rightarrow> if unat n \<le> length bs then Some (update_with S (take (unat n) bs)) else None)"

definition rxa2_initial_hash :: "argon2_context \<Rightarrow> argon2_type \<Rightarrow> u8 list option" where
  "rxa2_initial_hash c t = do {
     S \<leftarrow> blake2b_init ARGON2_PREHASH_DIGEST_LENGTH;
     let S = update_with S (le32 (c_lanes c));
     let S = update_with S (le32 (c_outlen c));
     let S = update_with S (le32 (c_m_cost c));
     let S = update_with S (le32 (c_t_cost c));
     let S = update_with S (le32 (c_version c));
     let S = update_with S (le32 (type_number t));
     S \<leftarrow> update_field (c_pwdlen c) (c_pwd c) S;
     S \<leftarrow> update_field (c_saltlen c) (c_salt c) S;
     S \<leftarrow> update_field (c_secretlen c) (c_secret c) S;
     S \<leftarrow> update_field (c_adlen c) (c_ad c) S;
     blake2b_final S ARGON2_PREHASH_DIGEST_LENGTH }"

definition load_block :: "u8 list \<Rightarrow> block" where
  "load_block input = map (\<lambda>i. load64 (bytes_mem input) (i * 8)) [0..<ARGON2_QWORDS_IN_BLOCK]"

definition first_block :: "u8 list \<Rightarrow> u32 \<Rightarrow> u32 \<Rightarrow> block option" where
  "first_block blockhash k l =
    map_option load_block (blake2b_long ARGON2_BLOCK_SIZE (take ARGON2_PREHASH_DIGEST_LENGTH blockhash @ le32 k @ le32 l))"

text \<open>\<^verbatim>\<open>blockhash\<close> is the 64 bytes of the hash and room for two words.\<close>

definition first_blocks_step :: "u8 list \<Rightarrow> argon2_instance \<Rightarrow> nat \<Rightarrow> block list option \<Rightarrow> block list option" where
  "first_blocks_step blockhash inst l s = do {
     m \<leftarrow> s;
     let p = unat (of_nat l * in_lane_length inst + 0);
     let q = unat (of_nat l * in_lane_length inst + 1);
     b0 \<leftarrow> first_block blockhash 0 (of_nat l);
     block_at m p;
     b1 \<leftarrow> first_block blockhash 1 (of_nat l);
     block_at m q;
     Some (m[p := b0, q := b1]) }"

definition rxa2_fill_first_blocks :: "u8 list \<Rightarrow> argon2_instance \<Rightarrow> block list \<Rightarrow> block list option" where
  "rxa2_fill_first_blocks blockhash inst m =
     for_range 0 (unat (in_lanes inst)) (first_blocks_step blockhash inst) (Some m)"

definition randomx_argon2_initialize ::
  "argon2_instance option \<Rightarrow> argon2_context option \<Rightarrow> block list \<Rightarrow> (argon2_error_codes \<times> block list) option" where
  "randomx_argon2_initialize inst c m =
    (case (inst, c) of
       (Some inst, Some c) \<Rightarrow> do {
         blockhash \<leftarrow> rxa2_initial_hash c (in_type inst);
         m \<leftarrow> rxa2_fill_first_blocks blockhash inst m;
         Some (ARGON2_OK, m) }
     | _ \<Rightarrow> Some (ARGON2_INCORRECT_PARAMETER, m))"

end
