(* ===== verification/Simd.thy ===== *)
theory Simd
  imports Blake2b
begin

text \<open>
  The vector intrinsics that the SSSE3 and AVX2 routines use, as their documentation defines
  them, on the register contents: a 128-bit register is its two 64-bit words, low word first, and
  a 256-bit register is its two 128-bit lanes. Operations on bytes and 32-bit words go through
  the bytes or words of the lane. The lemmas say what the operations are on whole words.
\<close>

section \<open>Registers\<close>

type_synonym m128 = "u64 \<times> u64"
type_synonym m256 = "m128 \<times> m128"

definition word_bytes8 :: "u64 \<Rightarrow> u8 list" where
  "word_bytes8 w = map (\<lambda>i. ucast (drop_bit (8 * i) w)) [0..<8]"

definition m128_bytes :: "m128 \<Rightarrow> u8 list" where
  "m128_bytes v = word_bytes8 (fst v) @ word_bytes8 (snd v)"

definition m128_of_bytes :: "u8 list \<Rightarrow> m128" where
  "m128_of_bytes bs = (load64 (bytes_mem bs) 0, load64 (bytes_mem bs) 8)"

definition m128_dwords :: "m128 \<Rightarrow> u32 list" where
  "m128_dwords v = [ucast (fst v), ucast (drop_bit 32 (fst v)), ucast (snd v), ucast (drop_bit 32 (snd v))]"

definition m128_of_dwords :: "u32 list \<Rightarrow> m128" where
  "m128_of_dwords ds = (ucast (ds ! 0) OR push_bit 32 (ucast (ds ! 1)), ucast (ds ! 2) OR push_bit 32 (ucast (ds ! 3)))"

text \<open>Both lanes.\<close>

definition lanes1 :: "(m128 \<Rightarrow> m128) \<Rightarrow> m256 \<Rightarrow> m256" where
  "lanes1 f v = (f (fst v), f (snd v))"

definition lanewise :: "(m128 \<Rightarrow> m128 \<Rightarrow> m128) \<Rightarrow> m256 \<Rightarrow> m256 \<Rightarrow> m256" where
  "lanewise f v w = (f (fst v) (fst w), f (snd v) (snd w))"

section \<open>Intrinsics\<close>

text \<open>\<^verbatim>\<open>_MM_SHUFFLE\<close>, and the two-bit selectors of an immediate.\<close>

definition MM_SHUFFLE :: "nat \<Rightarrow> nat \<Rightarrow> nat \<Rightarrow> nat \<Rightarrow> nat" where
  "MM_SHUFFLE z y x w = z * 64 + y * 16 + x * 4 + w"

definition selector :: "nat \<Rightarrow> nat \<Rightarrow> nat" where "selector imm i = imm div 4 ^ i mod 4"

definition mm_add_epi64 :: "m128 \<Rightarrow> m128 \<Rightarrow> m128" where
  "mm_add_epi64 v w = (fst v + fst w, snd v + snd w)"

definition mm_xor_si128 :: "m128 \<Rightarrow> m128 \<Rightarrow> m128" where
  "mm_xor_si128 v w = (fst v XOR fst w, snd v XOR snd w)"

definition mm_mul_epu32 :: "m128 \<Rightarrow> m128 \<Rightarrow> m128" where
  "mm_mul_epu32 v w = (ucast (ucast (fst v) :: u32) * ucast (ucast (fst w) :: u32),
     ucast (ucast (snd v) :: u32) * ucast (ucast (snd w) :: u32))"

definition mm_srli_epi64 :: "m128 \<Rightarrow> nat \<Rightarrow> m128" where
  "mm_srli_epi64 v n = (drop_bit n (fst v), drop_bit n (snd v))"

definition mm_slli_epi64 :: "m128 \<Rightarrow> nat \<Rightarrow> m128" where
  "mm_slli_epi64 v n = (push_bit n (fst v), push_bit n (snd v))"

definition mm_shuffle_epi32 :: "m128 \<Rightarrow> nat \<Rightarrow> m128" where
  "mm_shuffle_epi32 v imm = m128_of_dwords (map (\<lambda>i. m128_dwords v ! selector imm i) [0..<4])"

definition mm_shuffle_epi8 :: "m128 \<Rightarrow> u8 list \<Rightarrow> m128" where
  "mm_shuffle_epi8 v ctl = m128_of_bytes (map (\<lambda>i. if bit (ctl ! i) 7 then 0
     else m128_bytes v ! (unat (ctl ! i) mod 16)) [0..<16])"

definition mm_alignr_epi8 :: "m128 \<Rightarrow> m128 \<Rightarrow> nat \<Rightarrow> m128" where
  "mm_alignr_epi8 v w n = m128_of_bytes (take 16 (drop n (m128_bytes w @ m128_bytes v @ replicate 16 0)))"

definition mm_unpacklo_epi64 :: "m128 \<Rightarrow> m128 \<Rightarrow> m128" where "mm_unpacklo_epi64 v w = (fst v, fst w)"
definition mm_unpackhi_epi64 :: "m128 \<Rightarrow> m128 \<Rightarrow> m128" where "mm_unpackhi_epi64 v w = (snd v, snd w)"

definition mm_blend_epi32 :: "m128 \<Rightarrow> m128 \<Rightarrow> nat \<Rightarrow> m128" where
  "mm_blend_epi32 v w imm =
     m128_of_dwords (map (\<lambda>i. if bit imm i then m128_dwords w ! i else m128_dwords v ! i) [0..<4])"

definition mm256_add_epi64 :: "m256 \<Rightarrow> m256 \<Rightarrow> m256" where "mm256_add_epi64 = lanewise mm_add_epi64"
definition mm256_xor_si256 :: "m256 \<Rightarrow> m256 \<Rightarrow> m256" where "mm256_xor_si256 = lanewise mm_xor_si128"
definition mm256_mul_epu32 :: "m256 \<Rightarrow> m256 \<Rightarrow> m256" where "mm256_mul_epu32 = lanewise mm_mul_epu32"
definition mm256_srli_epi64 :: "m256 \<Rightarrow> nat \<Rightarrow> m256" where "mm256_srli_epi64 v n = lanes1 (\<lambda>x. mm_srli_epi64 x n) v"
definition mm256_shuffle_epi32 :: "m256 \<Rightarrow> nat \<Rightarrow> m256" where
  "mm256_shuffle_epi32 v imm = lanes1 (\<lambda>x. mm_shuffle_epi32 x imm) v"
definition mm256_shuffle_epi8 :: "m256 \<Rightarrow> u8 list \<Rightarrow> m256" where
  "mm256_shuffle_epi8 v ctl = (mm_shuffle_epi8 (fst v) (take 16 ctl), mm_shuffle_epi8 (snd v) (drop 16 ctl))"
definition mm256_unpacklo_epi64 :: "m256 \<Rightarrow> m256 \<Rightarrow> m256" where "mm256_unpacklo_epi64 = lanewise mm_unpacklo_epi64"
definition mm256_unpackhi_epi64 :: "m256 \<Rightarrow> m256 \<Rightarrow> m256" where "mm256_unpackhi_epi64 = lanewise mm_unpackhi_epi64"
definition mm256_alignr_epi8 :: "m256 \<Rightarrow> m256 \<Rightarrow> nat \<Rightarrow> m256" where
  "mm256_alignr_epi8 v w n = lanewise (\<lambda>x y. mm_alignr_epi8 x y n) v w"
definition mm256_blend_epi32 :: "m256 \<Rightarrow> m256 \<Rightarrow> nat \<Rightarrow> m256" where
  "mm256_blend_epi32 v w imm = (mm_blend_epi32 (fst v) (fst w) imm, mm_blend_epi32 (snd v) (snd w) (imm div 16))"
definition mm256_permute4x64_epi64 :: "m256 \<Rightarrow> nat \<Rightarrow> m256" where
  "mm256_permute4x64_epi64 v imm =
    (let q = [fst (fst v), snd (fst v), fst (snd v), snd (snd v)]
     in ((q ! selector imm 0, q ! selector imm 1), (q ! selector imm 2, q ! selector imm 3)))"
definition mm256_broadcastsi128_si256 :: "m128 \<Rightarrow> m256" where "mm256_broadcastsi128_si256 v = (v, v)"
definition mm256_set_epi64x :: "u64 \<Rightarrow> u64 \<Rightarrow> u64 \<Rightarrow> u64 \<Rightarrow> m256" where
  "mm256_set_epi64x d c b a = ((a, b), (c, d))"

section \<open>What they are on words\<close>

named_theorems simd \<open>intrinsics on words\<close>

lemma dwords_join: "(ucast (ucast w :: u32) :: u64) OR push_bit 32 (ucast (ucast (drop_bit 32 w) :: u32)) = w"
  by (rule bit_word_eqI) (auto simp: bit_simps)

lemma dwords_swap: "(ucast (ucast (drop_bit 32 w) :: u32) :: u64) OR push_bit 32 (ucast (ucast w :: u32)) = rotr64 w 32"
  by (rule bit_word_eqI) (auto simp: rotr64_def bit_simps dest: bit_imp_le_length)

lemma blend_simps [simd]:
  "mm256_blend_epi32 ((a, b), (c, d)) ((e, f), (g, h)) 0xF0 = ((a, b), (g, h))"
  "mm256_blend_epi32 ((a, b), (c, d)) ((e, f), (g, h)) 0x0F = ((e, f), (c, d))"
  "mm256_blend_epi32 ((a, b), (c, d)) ((e, f), (g, h)) 0x33 = ((e, b), (g, d))"
  "mm256_blend_epi32 ((a, b), (c, d)) ((e, f), (g, h)) 0xCC = ((a, f), (c, h))"
  by (simp_all add: mm256_blend_epi32_def mm_blend_epi32_def m128_dwords_def m128_of_dwords_def upt_rec dwords_join
      bit_iff_odd)

lemma permute_simps [simd]:
  "mm256_permute4x64_epi64 ((a, b), (c, d)) (MM_SHUFFLE 0 3 2 1) = ((b, c), (d, a))"
  "mm256_permute4x64_epi64 ((a, b), (c, d)) (MM_SHUFFLE 1 0 3 2) = ((c, d), (a, b))"
  "mm256_permute4x64_epi64 ((a, b), (c, d)) (MM_SHUFFLE 2 1 0 3) = ((d, a), (b, c))"
  "mm256_permute4x64_epi64 ((a, b), (c, d)) (MM_SHUFFLE 2 3 0 1) = ((b, a), (d, c))"
  by (simp_all add: mm256_permute4x64_epi64_def MM_SHUFFLE_def selector_def)

lemma swap_simps [simd]:
  "mm_shuffle_epi32 (a, b) (MM_SHUFFLE 2 3 0 1) = (rotr64 a 32, rotr64 b 32)"
  by (simp_all add: mm_shuffle_epi32_def MM_SHUFFLE_def selector_def m128_dwords_def m128_of_dwords_def upt_rec dwords_swap)

lemma byte_bit: "i < 8 \<Longrightarrow> bit (word_bytes8 w ! i) j \<longleftrightarrow> j < 8 \<and> bit w (8 * i + j)"
  by (simp add: word_bytes8_def bit_simps ac_simps) (auto simp: numeral_eq_Suc)

lemma length_word_bytes [simp]: "length (word_bytes8 w) = 8" "length (m128_bytes v) = 16"
  by (simp_all add: word_bytes8_def m128_bytes_def)

lemma load_word_bytes: "load64 (bytes_mem (word_bytes8 w @ r)) 0 = w" "load64 (bytes_mem (word_bytes8 v @ word_bytes8 w @ r)) 8 = w"
proof -
  show "load64 (bytes_mem (word_bytes8 w @ r)) 0 = w"
    by (rule bit_word_eqI) (simp add: bit_load64 bytes_mem_def nth_append byte_bit div_less_iff_less_mult)
  show "load64 (bytes_mem (word_bytes8 v @ word_bytes8 w @ r)) 8 = w"
    by (rule bit_word_eqI) (simp add: bit_load64 bytes_mem_def nth_append byte_bit div_less_iff_less_mult)
qed

lemma shuffle_simps [simd]:
  "mm_shuffle_epi8 (a, b) [3, 4, 5, 6, 7, 0, 1, 2, 11, 12, 13, 14, 15, 8, 9, 10] = (rotr64 a 24, rotr64 b 24)"
  "mm_shuffle_epi8 (a, b) [2, 3, 4, 5, 6, 7, 0, 1, 10, 11, 12, 13, 14, 15, 8, 9] = (rotr64 a 16, rotr64 b 16)"
  "mm_alignr_epi8 (a, b) (c, d) 8 = (d, a)"
proof -
  have rot: "load64 (\<lambda>i. word_bytes8 w ! ((i + k) mod 8)) 0 = rotr64 w (8 * k)" if "0 < k" "k < 8" for k w
  proof (rule bit_word_eqI)
    fix n :: nat assume "n < LENGTH(64)"
    then have n: "n < 64" by simp
    define q r where "q = n div 8" and "r = n mod 8"
    have nqr: "n = 8 * q + r" "q < 8" "r < 8" using n by (simp_all add: q_def r_def)
    have "bit (load64 (\<lambda>i. word_bytes8 w ! ((i + k) mod 8)) 0) n = bit w (8 * ((q + k) mod 8) + r)"
      using n by (simp add: bit_load64 byte_bit q_def [symmetric] r_def [symmetric] nqr(3))
    also have "\<dots> = bit (rotr64 w (8 * k)) n"
    proof (cases "q + k < 8")
      case True
      then show ?thesis using nqr that by (auto simp: rotr64_def bit_simps algebra_simps)
    next
      case False
      then have m: "(q + k) mod 8 = q + k - 8" using nqr(2) that by (simp add: mod_if)
      have "\<not> bit w (8 * k + n)" using False nqr by (auto dest!: bit_imp_le_length)
      moreover have "8 * (q + k - 8) + r = n - (64 - 8 * k)" "64 - 8 * k \<le> n" using False nqr that by simp_all
      ultimately show ?thesis using n by (simp add: rotr64_def bit_simps m)
    qed
    finally show "bit (load64 (\<lambda>i. word_bytes8 w ! ((i + k) mod 8)) 0) n = bit (rotr64 w (8 * k)) n" .
  qed
  have cong: "load64 m p = load64 m' 0" if "\<And>i. i < 8 \<Longrightarrow> m (p + i) = m' i" for m m' p
    by (rule bit_word_eqI) (use that in \<open>simp add: bit_load64\<close>)
  have parts: "load64 (bytes_mem (map (\<lambda>i. word_bytes8 v ! ((i + k) mod 8)) [0..<8] @
        map (\<lambda>i. word_bytes8 w ! ((i + k) mod 8)) [0..<8])) 0 = rotr64 v (8 * k)"
      "load64 (bytes_mem (map (\<lambda>i. word_bytes8 v ! ((i + k) mod 8)) [0..<8] @
        map (\<lambda>i. word_bytes8 w ! ((i + k) mod 8)) [0..<8])) 8 = rotr64 w (8 * k)" if "0 < k" "k < 8" for k v w
    unfolding rot [OF that, symmetric] by (rule cong; simp add: bytes_mem_def nth_append)+
  show "mm_shuffle_epi8 (a, b) [3, 4, 5, 6, 7, 0, 1, 2, 11, 12, 13, 14, 15, 8, 9, 10] = (rotr64 a 24, rotr64 b 24)"
    using parts [of 3 a b] by (simp add: mm_shuffle_epi8_def m128_of_bytes_def upt_rec m128_bytes_def nth_append)
  show "mm_shuffle_epi8 (a, b) [2, 3, 4, 5, 6, 7, 0, 1, 10, 11, 12, 13, 14, 15, 8, 9] = (rotr64 a 16, rotr64 b 16)"
    using parts [of 2 a b] by (simp add: mm_shuffle_epi8_def m128_of_bytes_def upt_rec m128_bytes_def nth_append del: add_2_eq_Suc add_2_eq_Suc')
  show "mm_alignr_epi8 (a, b) (c, d) 8 = (d, a)"
    by (simp add: mm_alignr_epi8_def m128_of_bytes_def m128_bytes_def load_word_bytes load_word_bytes [where r = "[]", simplified])
qed

end
