(* ===== verification/Argon2_Simd.thy ===== *)
theory Argon2_Simd
  imports Argon2 Simd
begin

text \<open>
  The vector versions of the segment filler (\<^verbatim>\<open>argon2_ssse3.c\<close>, \<^verbatim>\<open>argon2_avx2.c\<close>,
  \<^verbatim>\<open>blake2/blamka-round-ssse3.h\<close>, \<^verbatim>\<open>blake2/blamka-round-avx2.h\<close>) and the
  code around the fillers: the loop over passes, slices and lanes, and the preparation of the
  cache memory in \<^verbatim>\<open>initCache\<close>. A macro maps the tuple of its variables before to
  the tuple after; a block in registers is the list of its vectors.
\<close>

section \<open>SSSE3\<close>

definition r16 :: "u8 list" where "r16 = [2, 3, 4, 5, 6, 7, 0, 1, 10, 11, 12, 13, 14, 15, 8, 9]"
definition r24 :: "u8 list" where "r24 = [3, 4, 5, 6, 7, 0, 1, 2, 11, 12, 13, 14, 15, 8, 9, 10]"

text \<open>The second argument of \<^verbatim>\<open>_mm_roti_epi64\<close> is given without its sign.\<close>

definition mm_roti_epi64 :: "m128 \<Rightarrow> nat \<Rightarrow> m128" where
  "mm_roti_epi64 x c =
    (if c = 32 then mm_shuffle_epi32 x (MM_SHUFFLE 2 3 0 1)
     else if c = 24 then mm_shuffle_epi8 x r24
     else if c = 16 then mm_shuffle_epi8 x r16
     else if c = 63 then mm_xor_si128 (mm_srli_epi64 x c) (mm_add_epi64 x x)
     else mm_xor_si128 (mm_srli_epi64 x c) (mm_slli_epi64 x (64 - c)))"

definition fBlaMka128 :: "m128 \<Rightarrow> m128 \<Rightarrow> m128" where
  "fBlaMka128 x y = (let z = mm_mul_epu32 x y in mm_add_epi64 (mm_add_epi64 x y) (mm_add_epi64 z z))"

type_synonym 'a eight = "'a \<times> 'a \<times> 'a \<times> 'a \<times> 'a \<times> 'a \<times> 'a \<times> 'a"

fun ssse3_G1 :: "m128 eight \<Rightarrow> m128 eight" where
  "ssse3_G1 (A0, B0, C0, D0, A1, B1, C1, D1) =
    (let A0 = fBlaMka128 A0 B0; A1 = fBlaMka128 A1 B1;
         D0 = mm_xor_si128 D0 A0; D1 = mm_xor_si128 D1 A1;
         D0 = mm_roti_epi64 D0 32; D1 = mm_roti_epi64 D1 32;
         C0 = fBlaMka128 C0 D0; C1 = fBlaMka128 C1 D1;
         B0 = mm_xor_si128 B0 C0; B1 = mm_xor_si128 B1 C1;
         B0 = mm_roti_epi64 B0 24; B1 = mm_roti_epi64 B1 24
     in (A0, B0, C0, D0, A1, B1, C1, D1))"

fun ssse3_G2 :: "m128 eight \<Rightarrow> m128 eight" where
  "ssse3_G2 (A0, B0, C0, D0, A1, B1, C1, D1) =
    (let A0 = fBlaMka128 A0 B0; A1 = fBlaMka128 A1 B1;
         D0 = mm_xor_si128 D0 A0; D1 = mm_xor_si128 D1 A1;
         D0 = mm_roti_epi64 D0 16; D1 = mm_roti_epi64 D1 16;
         C0 = fBlaMka128 C0 D0; C1 = fBlaMka128 C1 D1;
         B0 = mm_xor_si128 B0 C0; B1 = mm_xor_si128 B1 C1;
         B0 = mm_roti_epi64 B0 63; B1 = mm_roti_epi64 B1 63
     in (A0, B0, C0, D0, A1, B1, C1, D1))"

fun ssse3_DIAGONALIZE :: "m128 eight \<Rightarrow> m128 eight" where
  "ssse3_DIAGONALIZE (A0, B0, C0, D0, A1, B1, C1, D1) =
    (let t0 = mm_alignr_epi8 B1 B0 8; t1 = mm_alignr_epi8 B0 B1 8; B0 = t0; B1 = t1;
         t0 = C0; C0 = C1; C1 = t0;
         t0 = mm_alignr_epi8 D1 D0 8; t1 = mm_alignr_epi8 D0 D1 8; D0 = t1; D1 = t0
     in (A0, B0, C0, D0, A1, B1, C1, D1))"

fun ssse3_UNDIAGONALIZE :: "m128 eight \<Rightarrow> m128 eight" where
  "ssse3_UNDIAGONALIZE (A0, B0, C0, D0, A1, B1, C1, D1) =
    (let t0 = mm_alignr_epi8 B0 B1 8; t1 = mm_alignr_epi8 B1 B0 8; B0 = t0; B1 = t1;
         t0 = C0; C0 = C1; C1 = t0;
         t0 = mm_alignr_epi8 D0 D1 8; t1 = mm_alignr_epi8 D1 D0 8; D0 = t1; D1 = t0
     in (A0, B0, C0, D0, A1, B1, C1, D1))"

text \<open>The arguments of the round are \<^verbatim>\<open>A0, A1, B0, B1, C0, C1, D0, D1\<close>.\<close>

definition ssse3_BLAKE2_ROUND :: "m128 list \<Rightarrow> m128 list" where
  "ssse3_BLAKE2_ROUND v =
    (case ssse3_UNDIAGONALIZE (ssse3_G2 (ssse3_G1 (ssse3_DIAGONALIZE (ssse3_G2 (ssse3_G1
        (v ! 0, v ! 2, v ! 4, v ! 6, v ! 1, v ! 3, v ! 5, v ! 7)))))) of
       (A0, B0, C0, D0, A1, B1, C1, D1) \<Rightarrow> [A0, A1, B0, B1, C0, C1, D0, D1])"

definition load_m128s :: "block \<Rightarrow> m128 list" where
  "load_m128s b = map (\<lambda>i. (b ! (2 * i), b ! (2 * i + 1))) [0..<ARGON2_OWORDS_IN_BLOCK]"

definition store_m128s :: "m128 list \<Rightarrow> block" where
  "store_m128s s = concat (map (\<lambda>v. [fst v, snd v]) s)"

text \<open>The registers and the block after filling.\<close>

definition fill_block_ssse3 :: "m128 list \<Rightarrow> block \<Rightarrow> block \<Rightarrow> bool \<Rightarrow> m128 list \<times> block" where
  "fill_block_ssse3 state ref_block next_block with_xor =
    (let state = map2 mm_xor_si128 state (load_m128s ref_block);
         block_XY = (if with_xor then map2 mm_xor_si128 state (load_m128s next_block) else state);
         state = for_range 0 8 (\<lambda>i. apply_at (map (\<lambda>k. 8 * i + k) [0..<8]) ssse3_BLAKE2_ROUND) state;
         state = for_range 0 8 (\<lambda>i. apply_at (map (\<lambda>k. 8 * k + i) [0..<8]) ssse3_BLAKE2_ROUND) state;
         state = map2 mm_xor_si128 state block_XY
     in (state, store_m128s state))"

section \<open>AVX2\<close>

definition avx2_rotr32 :: "m256 \<Rightarrow> m256" where "avx2_rotr32 x = mm256_shuffle_epi32 x (MM_SHUFFLE 2 3 0 1)"
definition avx2_rotr24 :: "m256 \<Rightarrow> m256" where
  "avx2_rotr24 x = mm256_shuffle_epi8 x [3, 4, 5, 6, 7, 0, 1, 2, 11, 12, 13, 14, 15, 8, 9, 10,
     3, 4, 5, 6, 7, 0, 1, 2, 11, 12, 13, 14, 15, 8, 9, 10]"
definition avx2_rotr16 :: "m256 \<Rightarrow> m256" where
  "avx2_rotr16 x = mm256_shuffle_epi8 x [2, 3, 4, 5, 6, 7, 0, 1, 10, 11, 12, 13, 14, 15, 8, 9,
     2, 3, 4, 5, 6, 7, 0, 1, 10, 11, 12, 13, 14, 15, 8, 9]"
definition avx2_rotr63 :: "m256 \<Rightarrow> m256" where
  "avx2_rotr63 x = mm256_xor_si256 (mm256_srli_epi64 x 63) (mm256_add_epi64 x x)"

fun G1_AVX2 :: "m256 eight \<Rightarrow> m256 eight" where
  "G1_AVX2 (A0, A1, B0, B1, C0, C1, D0, D1) =
    (let ml = mm256_mul_epu32 A0 B0; ml = mm256_add_epi64 ml ml;
         A0 = mm256_add_epi64 A0 (mm256_add_epi64 B0 ml);
         D0 = mm256_xor_si256 D0 A0; D0 = avx2_rotr32 D0;
         ml = mm256_mul_epu32 C0 D0; ml = mm256_add_epi64 ml ml;
         C0 = mm256_add_epi64 C0 (mm256_add_epi64 D0 ml);
         B0 = mm256_xor_si256 B0 C0; B0 = avx2_rotr24 B0;
         ml = mm256_mul_epu32 A1 B1; ml = mm256_add_epi64 ml ml;
         A1 = mm256_add_epi64 A1 (mm256_add_epi64 B1 ml);
         D1 = mm256_xor_si256 D1 A1; D1 = avx2_rotr32 D1;
         ml = mm256_mul_epu32 C1 D1; ml = mm256_add_epi64 ml ml;
         C1 = mm256_add_epi64 C1 (mm256_add_epi64 D1 ml);
         B1 = mm256_xor_si256 B1 C1; B1 = avx2_rotr24 B1
     in (A0, A1, B0, B1, C0, C1, D0, D1))"

fun G2_AVX2 :: "m256 eight \<Rightarrow> m256 eight" where
  "G2_AVX2 (A0, A1, B0, B1, C0, C1, D0, D1) =
    (let ml = mm256_mul_epu32 A0 B0; ml = mm256_add_epi64 ml ml;
         A0 = mm256_add_epi64 A0 (mm256_add_epi64 B0 ml);
         D0 = mm256_xor_si256 D0 A0; D0 = avx2_rotr16 D0;
         ml = mm256_mul_epu32 C0 D0; ml = mm256_add_epi64 ml ml;
         C0 = mm256_add_epi64 C0 (mm256_add_epi64 D0 ml);
         B0 = mm256_xor_si256 B0 C0; B0 = avx2_rotr63 B0;
         ml = mm256_mul_epu32 A1 B1; ml = mm256_add_epi64 ml ml;
         A1 = mm256_add_epi64 A1 (mm256_add_epi64 B1 ml);
         D1 = mm256_xor_si256 D1 A1; D1 = avx2_rotr16 D1;
         ml = mm256_mul_epu32 C1 D1; ml = mm256_add_epi64 ml ml;
         C1 = mm256_add_epi64 C1 (mm256_add_epi64 D1 ml);
         B1 = mm256_xor_si256 B1 C1; B1 = avx2_rotr63 B1
     in (A0, A1, B0, B1, C0, C1, D0, D1))"

fun DIAGONALIZE_1 :: "m256 eight \<Rightarrow> m256 eight" where
  "DIAGONALIZE_1 (A0, A1, B0, B1, C0, C1, D0, D1) =
    (A0, A1, mm256_permute4x64_epi64 B0 (MM_SHUFFLE 0 3 2 1), mm256_permute4x64_epi64 B1 (MM_SHUFFLE 0 3 2 1),
     mm256_permute4x64_epi64 C0 (MM_SHUFFLE 1 0 3 2), mm256_permute4x64_epi64 C1 (MM_SHUFFLE 1 0 3 2),
     mm256_permute4x64_epi64 D0 (MM_SHUFFLE 2 1 0 3), mm256_permute4x64_epi64 D1 (MM_SHUFFLE 2 1 0 3))"

fun UNDIAGONALIZE_1 :: "m256 eight \<Rightarrow> m256 eight" where
  "UNDIAGONALIZE_1 (A0, A1, B0, B1, C0, C1, D0, D1) =
    (A0, A1, mm256_permute4x64_epi64 B0 (MM_SHUFFLE 2 1 0 3), mm256_permute4x64_epi64 B1 (MM_SHUFFLE 2 1 0 3),
     mm256_permute4x64_epi64 C0 (MM_SHUFFLE 1 0 3 2), mm256_permute4x64_epi64 C1 (MM_SHUFFLE 1 0 3 2),
     mm256_permute4x64_epi64 D0 (MM_SHUFFLE 0 3 2 1), mm256_permute4x64_epi64 D1 (MM_SHUFFLE 0 3 2 1))"

fun DIAGONALIZE_2 :: "m256 eight \<Rightarrow> m256 eight" where
  "DIAGONALIZE_2 (A0, A1, B0, B1, C0, C1, D0, D1) =
    (let tmp1 = mm256_blend_epi32 B0 B1 0xCC; tmp2 = mm256_blend_epi32 B0 B1 0x33;
         B1 = mm256_permute4x64_epi64 tmp1 (MM_SHUFFLE 2 3 0 1);
         B0 = mm256_permute4x64_epi64 tmp2 (MM_SHUFFLE 2 3 0 1);
         tmp1 = C0; C0 = C1; C1 = tmp1;
         tmp1 = mm256_blend_epi32 D0 D1 0xCC; tmp2 = mm256_blend_epi32 D0 D1 0x33;
         D0 = mm256_permute4x64_epi64 tmp1 (MM_SHUFFLE 2 3 0 1);
         D1 = mm256_permute4x64_epi64 tmp2 (MM_SHUFFLE 2 3 0 1)
     in (A0, A1, B0, B1, C0, C1, D0, D1))"

fun UNDIAGONALIZE_2 :: "m256 eight \<Rightarrow> m256 eight" where
  "UNDIAGONALIZE_2 (A0, A1, B0, B1, C0, C1, D0, D1) =
    (let tmp1 = mm256_blend_epi32 B0 B1 0xCC; tmp2 = mm256_blend_epi32 B0 B1 0x33;
         B0 = mm256_permute4x64_epi64 tmp1 (MM_SHUFFLE 2 3 0 1);
         B1 = mm256_permute4x64_epi64 tmp2 (MM_SHUFFLE 2 3 0 1);
         tmp1 = C0; C0 = C1; C1 = tmp1;
         tmp1 = mm256_blend_epi32 D0 D1 0x33; tmp2 = mm256_blend_epi32 D0 D1 0xCC;
         D0 = mm256_permute4x64_epi64 tmp1 (MM_SHUFFLE 2 3 0 1);
         D1 = mm256_permute4x64_epi64 tmp2 (MM_SHUFFLE 2 3 0 1)
     in (A0, A1, B0, B1, C0, C1, D0, D1))"

text \<open>The arguments of a round, and its results assigned back.\<close>

definition round_of :: "('a eight \<Rightarrow> 'a eight) \<Rightarrow> 'a list \<Rightarrow> 'a list" where
  "round_of f v = (case f (v ! 0, v ! 1, v ! 2, v ! 3, v ! 4, v ! 5, v ! 6, v ! 7) of
     (a, b, c, d, e, f, g, h) \<Rightarrow> [a, b, c, d, e, f, g, h])"

definition BLAKE2_ROUND_1 :: "m256 list \<Rightarrow> m256 list" where
  "BLAKE2_ROUND_1 =
     round_of (\<lambda>v. UNDIAGONALIZE_1 (G2_AVX2 (G1_AVX2 (DIAGONALIZE_1 (G2_AVX2 (G1_AVX2 v))))))"

definition BLAKE2_ROUND_2 :: "m256 list \<Rightarrow> m256 list" where
  "BLAKE2_ROUND_2 =
     round_of (\<lambda>v. UNDIAGONALIZE_2 (G2_AVX2 (G1_AVX2 (DIAGONALIZE_2 (G2_AVX2 (G1_AVX2 v))))))"

definition load_m256s :: "block \<Rightarrow> m256 list" where
  "load_m256s b = map (\<lambda>i. ((b ! (4 * i), b ! (4 * i + 1)), (b ! (4 * i + 2), b ! (4 * i + 3)))) [0..<ARGON2_HWORDS_IN_BLOCK]"

definition store_m256s :: "m256 list \<Rightarrow> block" where
  "store_m256s s = concat (map (\<lambda>v. [fst (fst v), snd (fst v), fst (snd v), snd (snd v)]) s)"

definition avx2_row :: "nat \<Rightarrow> nat list" where
  "avx2_row i = [8 * i + 0, 8 * i + 4, 8 * i + 1, 8 * i + 5, 8 * i + 2, 8 * i + 6, 8 * i + 3, 8 * i + 7]"

definition avx2_column :: "nat \<Rightarrow> nat list" where
  "avx2_column i = [0 + i, 4 + i, 8 + i, 12 + i, 16 + i, 20 + i, 24 + i, 28 + i]"

definition fill_block_avx2 :: "m256 list \<Rightarrow> block \<Rightarrow> block \<Rightarrow> bool \<Rightarrow> m256 list \<times> block" where
  "fill_block_avx2 state ref_block next_block with_xor =
    (let state = map2 mm256_xor_si256 state (load_m256s ref_block);
         block_XY = (if with_xor then map2 mm256_xor_si256 state (load_m256s next_block) else state);
         state = for_range 0 4 (\<lambda>i. apply_at (avx2_row i) BLAKE2_ROUND_1) state;
         state = for_range 0 4 (\<lambda>i. apply_at (avx2_column i) BLAKE2_ROUND_2) state;
         state = map2 mm256_xor_si256 state block_XY
     in (state, store_m256s state))"

section \<open>Segments\<close>

text \<open>Both vector versions keep the previous block in the registers.\<close>

definition vector_step :: "('v list \<Rightarrow> block \<Rightarrow> block \<Rightarrow> bool \<Rightarrow> 'v list \<times> block) \<Rightarrow> argon2_instance \<Rightarrow> argon2_position \<Rightarrow> nat
    \<Rightarrow> (block list \<times> 'v list \<times> u32 \<times> u32) option \<Rightarrow> (block list \<times> 'v list \<times> u32 \<times> u32) option" where
  "vector_step fill inst pos i s = do {
     (m, state, curr_offset, prev_offset) \<leftarrow> s;
     let prev_offset = (if curr_offset mod in_lane_length inst = 1 then curr_offset - 1 else prev_offset);
     prev \<leftarrow> block_at m (unat prev_offset);
     let (ref_lane, ref_index) = reference_of inst pos (prev ! 0) i;
     ref_block \<leftarrow> block_at m (unat (ucast (in_lane_length inst) * ref_lane + ref_index));
     curr \<leftarrow> block_at m (unat curr_offset);
     let (state, curr) = fill state ref_block curr (xor_needed inst pos);
     Some (m[unat curr_offset := curr], state, curr_offset + 1, prev_offset + 1) }"

definition vector_segment :: "(block \<Rightarrow> 'v list) \<Rightarrow> ('v list \<Rightarrow> block \<Rightarrow> block \<Rightarrow> bool \<Rightarrow> 'v list \<times> block)
    \<Rightarrow> argon2_instance option \<Rightarrow> argon2_position \<Rightarrow> block list \<Rightarrow> block list option" where
  "vector_segment load fill inst pos m =
    (case inst of None \<Rightarrow> Some m
     | Some inst \<Rightarrow>
        let curr_offset = first_offset inst pos; prev_offset = offset_before inst curr_offset
        in do {
          prev \<leftarrow> block_at m (unat prev_offset);
          map_option fst (for_range (first_index pos) (unat (in_segment_length inst)) (vector_step fill inst pos)
            (Some (m, load prev, curr_offset, prev_offset))) })"

definition randomx_argon2_fill_segment_ssse3 ::
  "argon2_instance option \<Rightarrow> argon2_position \<Rightarrow> block list \<Rightarrow> block list option" where
  "randomx_argon2_fill_segment_ssse3 = vector_segment load_m128s fill_block_ssse3"

definition randomx_argon2_fill_segment_avx2 ::
  "argon2_instance option \<Rightarrow> argon2_position \<Rightarrow> block list \<Rightarrow> block list option" where
  "randomx_argon2_fill_segment_avx2 = vector_segment load_m256s fill_block_avx2"

section \<open>Filling the memory\<close>

text \<open>The call through \<^verbatim>\<open>instance->impl\<close>.\<close>

fun call_impl :: "argon2_impl \<Rightarrow> argon2_instance option \<Rightarrow> argon2_position \<Rightarrow> block list \<Rightarrow> block list option" where
  "call_impl Argon2_ref = randomx_argon2_fill_segment_ref"
| "call_impl Argon2_ssse3 = randomx_argon2_fill_segment_ssse3"
| "call_impl Argon2_avx2 = randomx_argon2_fill_segment_avx2"

definition fill_memory_blocks_st :: "argon2_instance \<Rightarrow> block list \<Rightarrow> block list option" where
  "fill_memory_blocks_st inst m =
     for_range 0 (unat (in_passes inst)) (\<lambda>r. for_range 0 (unat ARGON2_SYNC_POINTS) (\<lambda>s. for_range 0 (unat (in_lanes inst))
       (\<lambda>l m. Option.bind m (call_impl (in_impl inst) (Some inst)
          \<lparr>pos_pass = of_nat r, pos_lane = of_nat l, pos_slice = of_nat s, pos_index = 0\<rparr>))))
       (Some m)"

definition randomx_argon2_fill_memory_blocks ::
  "argon2_instance option \<Rightarrow> block list \<Rightarrow> (argon2_error_codes \<times> block list) option" where
  "randomx_argon2_fill_memory_blocks inst m =
    (case inst of None \<Rightarrow> Some (ARGON2_INCORRECT_PARAMETER, m)
     | Some i \<Rightarrow> if in_lanes i = 0 then Some (ARGON2_INCORRECT_PARAMETER, m)
        else map_option (\<lambda>m. (ARGON2_OK, m)) (fill_memory_blocks_st i m))"

section \<open>The memory of the cache\<close>

definition cache_context :: "u8 list option \<Rightarrow> u64 \<Rightarrow> argon2_context" where
  "cache_context key keySize = \<lparr>c_outlen = 0, c_pwd = key, c_pwdlen = ucast keySize,
     c_salt = Some RANDOMX_ARGON_SALT, c_saltlen = of_nat ArgonSaltSize, c_secret = None, c_secretlen = 0,
     c_ad = None, c_adlen = 0, c_t_cost = of_nat RANDOMX_ARGON_ITERATIONS, c_m_cost = of_nat RANDOMX_ARGON_MEMORY,
     c_lanes = of_nat RANDOMX_ARGON_LANES, c_threads = 1, c_version = ARGON2_VERSION_NUMBER,
     c_allocate_cbk = False, c_free_cbk = False, c_flags = ARGON2_DEFAULT_FLAGS\<rparr>"

definition cache_instance :: "argon2_impl \<Rightarrow> argon2_context \<Rightarrow> argon2_instance" where
  "cache_instance impl c =
    (let memory_blocks = c_m_cost c; segment_length = memory_blocks div (c_lanes c * ARGON2_SYNC_POINTS);
         i = \<lparr>in_version = c_version c, in_passes = c_t_cost c, in_memory_blocks = memory_blocks,
              in_segment_length = segment_length, in_lane_length = segment_length * ARGON2_SYNC_POINTS,
              in_lanes = c_lanes c, in_threads = c_threads c, in_type = Argon2_d, in_impl = impl\<rparr>
     in if in_threads i > in_lanes i then i\<lparr>in_threads := in_lanes i\<rparr> else i)"

text \<open>The blocks of the cache after \<^verbatim>\<open>initCache\<close> has filled them.\<close>

definition fill_cache :: "argon2_impl \<Rightarrow> u8 list option \<Rightarrow> u64 \<Rightarrow> block list \<Rightarrow> block list option" where
  "fill_cache impl key keySize m =
    (let c = cache_context key keySize; inst = cache_instance impl c
     in do { (r, m) \<leftarrow> randomx_argon2_initialize (Some inst) (Some c) m;
             (r, m) \<leftarrow> randomx_argon2_fill_memory_blocks (Some inst) m;
             Some m })"

end
