(* ===== verification/Argon2_Vector.thy ===== *)
theory Argon2_Vector
  imports Argon2_Simd
begin

text \<open>
  The vector versions of the segment filler compute what the reference version computes: first
  on the four variables of \<^verbatim>\<open>G\<close>, then on a round, on a block, and on a segment.
\<close>

section \<open>Lanes\<close>

definition gA :: "u64 \<Rightarrow> u64 \<Rightarrow> u64 \<Rightarrow> u64 \<Rightarrow> u64" where "gA a b c d = fst (argon_G a b c d)"
definition gB :: "u64 \<Rightarrow> u64 \<Rightarrow> u64 \<Rightarrow> u64 \<Rightarrow> u64" where "gB a b c d = fst (snd (argon_G a b c d))"
definition gC :: "u64 \<Rightarrow> u64 \<Rightarrow> u64 \<Rightarrow> u64 \<Rightarrow> u64" where "gC a b c d = fst (snd (snd (argon_G a b c d)))"
definition gD :: "u64 \<Rightarrow> u64 \<Rightarrow> u64 \<Rightarrow> u64 \<Rightarrow> u64" where "gD a b c d = snd (snd (snd (argon_G a b c d)))"

lemmas g_defs = gA_def gB_def gC_def gD_def argon_G_def Let_def fst_conv snd_conv

lemma G_at_parts:
  "G_at i j k l v = v[i := gA (v ! i) (v ! j) (v ! k) (v ! l), j := gB (v ! i) (v ! j) (v ! k) (v ! l),
     k := gC (v ! i) (v ! j) (v ! k) (v ! l), l := gD (v ! i) (v ! j) (v ! k) (v ! l)]"
  by (simp add: G_at_def gA_def gB_def gC_def gD_def split: prod.splits)

lemma ands: "(x :: u64) AND 0xFFFFFFFF = ucast (ucast x :: u32)"
proof -
  have m: "(0xFFFFFFFF :: u64) = mask 32" by (simp add: mask_eq_decr_exp)
  have "x AND mask 32 = ucast (ucast x :: u32)" by (rule bit_word_eqI) (auto simp: bit_simps)
  then show ?thesis by (simp only: m)
qed

lemma rotr63: "rotr64 x 63 = drop_bit 63 x XOR (x + x)"
proof -
  have m: "x + x = push_bit 1 x" by (simp add: push_bit_eq_mult mult_2_right)
  have "drop_bit 63 x OR push_bit 1 x = drop_bit 63 x XOR push_bit 1 x"
    by (rule bit_word_eqI)
      (simp only: bit_or_iff bit_xor_iff bit_drop_bit_eq bit_push_bit_iff o_def, auto dest: bit_imp_le_length)
  then show ?thesis by (simp only: m) (simp add: rotr64_def)
qed

lemma vector_simps [simd]:
  "fBlaMka128 (a, b) (c, d) = (fBlaMka a c, fBlaMka b d)"
  "mm_xor_si128 (a, b) (c, d) = (a XOR c, b XOR d)"
  "mm_roti_epi64 (a, b) 32 = (rotr64 a 32, rotr64 b 32)" "mm_roti_epi64 (a, b) 24 = (rotr64 a 24, rotr64 b 24)"
  "mm_roti_epi64 (a, b) 16 = (rotr64 a 16, rotr64 b 16)" "mm_roti_epi64 (a, b) 63 = (rotr64 a 63, rotr64 b 63)"
  by (simp_all add: fBlaMka128_def mm_add_epi64_def mm_mul_epu32_def mm_xor_si128_def mm_srli_epi64_def fBlaMka_def
      Let_def ands mm_roti_epi64_def simd r24_def r16_def rotr63 del: One_nat_def)

lemma vector_simps256 [simd]:
  "mm256_add_epi64 x (mm256_add_epi64 y (mm256_add_epi64 (mm256_mul_epu32 x y) (mm256_mul_epu32 x y))) = lanewise fBlaMka128 x y"
  "mm256_xor_si256 x y = lanewise mm_xor_si128 x y"
  "avx2_rotr32 x = lanes1 (\<lambda>v. mm_roti_epi64 v 32) x" "avx2_rotr24 x = lanes1 (\<lambda>v. mm_roti_epi64 v 24) x"
  "avx2_rotr16 x = lanes1 (\<lambda>v. mm_roti_epi64 v 16) x" "avx2_rotr63 x = lanes1 (\<lambda>v. mm_roti_epi64 v 63) x"
  by (simp_all add: mm256_add_epi64_def mm256_mul_epu32_def mm256_xor_si256_def lanewise_def fBlaMka128_def Let_def
      mm_add_epi64_def mm_mul_epu32_def add.assoc avx2_rotr32_def avx2_rotr24_def avx2_rotr16_def avx2_rotr63_def
      mm256_shuffle_epi32_def mm256_shuffle_epi8_def mm256_srli_epi64_def lanes1_def mm_roti_epi64_def r24_def r16_def)

lemma ssse3_G:
  "ssse3_G2 (ssse3_G1 ((a0, a1), (b0, b1), (c0, c1), (d0, d1), (a2, a3), (b2, b3), (c2, c3), (d2, d3))) =
    ((gA a0 b0 c0 d0, gA a1 b1 c1 d1), (gB a0 b0 c0 d0, gB a1 b1 c1 d1), (gC a0 b0 c0 d0, gC a1 b1 c1 d1),
     (gD a0 b0 c0 d0, gD a1 b1 c1 d1), (gA a2 b2 c2 d2, gA a3 b3 c3 d3), (gB a2 b2 c2 d2, gB a3 b3 c3 d3),
     (gC a2 b2 c2 d2, gC a3 b3 c3 d3), (gD a2 b2 c2 d2, gD a3 b3 c3 d3))"
  by (simp add: g_defs simd)

definition G256 :: "m256 \<Rightarrow> m256 \<Rightarrow> m256 \<Rightarrow> m256 \<Rightarrow> m256 \<times> m256 \<times> m256 \<times> m256" where
  "G256 A B C D = (case (A, B, C, D) of
     (((a0, a1), (a2, a3)), ((b0, b1), (b2, b3)), ((c0, c1), (c2, c3)), ((d0, d1), (d2, d3))) \<Rightarrow>
       (((gA a0 b0 c0 d0, gA a1 b1 c1 d1), (gA a2 b2 c2 d2, gA a3 b3 c3 d3)),
        ((gB a0 b0 c0 d0, gB a1 b1 c1 d1), (gB a2 b2 c2 d2, gB a3 b3 c3 d3)),
        ((gC a0 b0 c0 d0, gC a1 b1 c1 d1), (gC a2 b2 c2 d2, gC a3 b3 c3 d3)),
        ((gD a0 b0 c0 d0, gD a1 b1 c1 d1), (gD a2 b2 c2 d2, gD a3 b3 c3 d3))))"

lemma avx2_G:
  "G2_AVX2 (G1_AVX2 (A0, A1, B0, B1, C0, C1, D0, D1)) =
    (case (G256 A0 B0 C0 D0, G256 A1 B1 C1 D1) of
      ((a, b, c, d), (e, f, g, h)) \<Rightarrow> (a, e, b, f, c, g, d, h))"
proof -
  obtain a0 a1 a2 a3 b0 b1 b2 b3 c0 c1 c2 c3 d0 d1 d2 d3 where
    0: "A0 = ((a0, a1), (a2, a3))" "B0 = ((b0, b1), (b2, b3))" "C0 = ((c0, c1), (c2, c3))" "D0 = ((d0, d1), (d2, d3))"
    by (metis prod.collapse)
  obtain e0 e1 e2 e3 f0 f1 f2 f3 g0 g1 g2 g3 h0 h1 h2 h3 where
    1: "A1 = ((e0, e1), (e2, e3))" "B1 = ((f0, f1), (f2, f3))" "C1 = ((g0, g1), (g2, g3))" "D1 = ((h0, h1), (h2, h3))"
    by (metis prod.collapse)
  show ?thesis
    by (simp add: 0 1 Let_def simd) (simp add: lanewise_def lanes1_def simd G256_def g_defs)
qed

section \<open>Rounds\<close>

fun pairs :: "'a list \<Rightarrow> ('a \<times> 'a) list" where
  "pairs (x # y # zs) = (x, y) # pairs zs"
| "pairs zs = []"

lemma sixteen:
  assumes "length v = 16"
  obtains v0 v1 v2 v3 v4 v5 v6 v7 v8 v9 v10 v11 v12 v13 v14 v15 where
    "v = [v0, v1, v2, v3, v4, v5, v6, v7, v8, v9, v10, v11, v12, v13, v14, v15]"
  using assms by (auto simp: numeral_eq_Suc length_Suc_conv)

lemma round_words:
  "BLAKE2_ROUND_NOMSG [v0, v1, v2, v3, v4, v5, v6, v7, v8, v9, v10, v11, v12, v13, v14, v15] =
    G_at 3 4 9 14 (G_at 2 7 8 13 (G_at 1 6 11 12 (G_at 0 5 10 15
     [gA v0 v4 v8 v12, gA v1 v5 v9 v13, gA v2 v6 v10 v14, gA v3 v7 v11 v15,
      gB v0 v4 v8 v12, gB v1 v5 v9 v13, gB v2 v6 v10 v14, gB v3 v7 v11 v15,
      gC v0 v4 v8 v12, gC v1 v5 v9 v13, gC v2 v6 v10 v14, gC v3 v7 v11 v15,
      gD v0 v4 v8 v12, gD v1 v5 v9 v13, gD v2 v6 v10 v14, gD v3 v7 v11 v15])))"
  by (simp add: BLAKE2_ROUND_NOMSG_def Let_def G_at_parts)

lemma round_diagonals:
  "G_at 3 4 9 14 (G_at 2 7 8 13 (G_at 1 6 11 12 (G_at 0 5 10 15
     [v0, v1, v2, v3, v4, v5, v6, v7, v8, v9, v10, v11, v12, v13, v14, v15]))) =
    [gA v0 v5 v10 v15, gA v1 v6 v11 v12, gA v2 v7 v8 v13, gA v3 v4 v9 v14,
     gB v3 v4 v9 v14, gB v0 v5 v10 v15, gB v1 v6 v11 v12, gB v2 v7 v8 v13,
     gC v2 v7 v8 v13, gC v3 v4 v9 v14, gC v0 v5 v10 v15, gC v1 v6 v11 v12,
     gD v1 v6 v11 v12, gD v2 v7 v8 v13, gD v3 v4 v9 v14, gD v0 v5 v10 v15]"
  by (simp add: G_at_parts)

lemma length_round [simp]: "length (BLAKE2_ROUND_NOMSG v) = length v"
  by (simp add: BLAKE2_ROUND_NOMSG_def Let_def G_at_parts)

lemma ssse3_round:
  assumes "length v = 16"
  shows "ssse3_BLAKE2_ROUND (pairs v) = pairs (BLAKE2_ROUND_NOMSG v)"
  using assms
proof (rule sixteen)
  fix v0 v1 v2 v3 v4 v5 v6 v7 v8 v9 v10 v11 v12 v13 v14 v15
  assume v: "v = [v0, v1, v2, v3, v4, v5, v6, v7, v8, v9, v10, v11, v12, v13, v14, v15]"
  show ?thesis
    by (simp add: v round_words round_diagonals ssse3_BLAKE2_ROUND_def ssse3_G simd Let_def
        del: ssse3_G1.simps ssse3_G2.simps One_nat_def)
qed


text \<open>Two rounds side by side in the vectors of AVX2: for the rows a vector holds four words of
  one round, for the columns two words of each.\<close>

definition quads :: "u64 list \<Rightarrow> m256 list" where "quads v = pairs (pairs v)"

fun riffle :: "'a list \<Rightarrow> 'a list \<Rightarrow> 'a list" where
  "riffle (x # xs) (y # ys) = x # y # riffle xs ys"
| "riffle xs ys = []"

lemma avx2_round_1:
  assumes "length v = 16" "length w = 16"
  shows "BLAKE2_ROUND_1 (riffle (quads v) (quads w)) =
    riffle (quads (BLAKE2_ROUND_NOMSG v)) (quads (BLAKE2_ROUND_NOMSG w))"
proof -
  obtain v0 v1 v2 v3 v4 v5 v6 v7 v8 v9 v10 v11 v12 v13 v14 v15 where
    v: "v = [v0, v1, v2, v3, v4, v5, v6, v7, v8, v9, v10, v11, v12, v13, v14, v15]" by (rule sixteen [OF assms(1)])
  obtain w0 w1 w2 w3 w4 w5 w6 w7 w8 w9 w10 w11 w12 w13 w14 w15 where
    w: "w = [w0, w1, w2, w3, w4, w5, w6, w7, w8, w9, w10, w11, w12, w13, w14, w15]" by (rule sixteen [OF assms(2)])
  show ?thesis
    by (simp add: v w quads_def round_words round_diagonals BLAKE2_ROUND_1_def round_of_def avx2_G G256_def simd
        del: G1_AVX2.simps G2_AVX2.simps One_nat_def)
qed

lemma avx2_round_2:
  assumes "length v = 16" "length w = 16"
  shows "BLAKE2_ROUND_2 (zip (pairs v) (pairs w)) =
    zip (pairs (BLAKE2_ROUND_NOMSG v)) (pairs (BLAKE2_ROUND_NOMSG w))"
proof -
  obtain v0 v1 v2 v3 v4 v5 v6 v7 v8 v9 v10 v11 v12 v13 v14 v15 where
    v: "v = [v0, v1, v2, v3, v4, v5, v6, v7, v8, v9, v10, v11, v12, v13, v14, v15]" by (rule sixteen [OF assms(1)])
  obtain w0 w1 w2 w3 w4 w5 w6 w7 w8 w9 w10 w11 w12 w13 w14 w15 where
    w: "w = [w0, w1, w2, w3, w4, w5, w6, w7, w8, w9, w10, w11, w12, w13, w14, w15]" by (rule sixteen [OF assms(2)])
  show ?thesis
    by (simp add: v w round_words round_diagonals BLAKE2_ROUND_2_def round_of_def avx2_G G256_def simd Let_def
        del: G1_AVX2.simps G2_AVX2.simps One_nat_def)
qed


section \<open>Blocks\<close>

lemma length_pairs [simp]: "length (pairs v) = length v div 2"
  by (induction v rule: pairs.induct) auto

lemma nth_pairs: "2 * k + 1 < length v \<Longrightarrow> pairs v ! k = (v ! (2 * k), v ! (2 * k + 1))"
proof (induction v arbitrary: k rule: pairs.induct)
  case (1 x y zs)
  then show ?case by (cases k) simp_all
qed simp_all

lemma load_m128s_eq: "length b = 128 \<Longrightarrow> load_m128s b = pairs b"
  by (rule nth_equalityI) (simp_all add: load_m128s_def argon_sizes nth_pairs)

lemma load_m256s_eq: "length b = 128 \<Longrightarrow> load_m256s b = quads b"
  by (rule nth_equalityI) (simp_all add: load_m256s_def argon_sizes nth_pairs quads_def, simp add: numeral_eq_Suc)

lemma length_assign_at [simp]: "length (assign_at ks xs v) = length v"
  by (induction ks xs v rule: assign_at.induct) simp_all

lemma length_apply_at [simp]: "length (apply_at ks f v) = length v"
  by (simp add: apply_at_def)

lemma assign_at_outside: "j \<notin> set ks \<Longrightarrow> assign_at ks xs v ! j = v ! j"
  by (induction ks xs v rule: assign_at.induct) auto

lemma assign_at_inside:
  "distinct ks \<Longrightarrow> k < length ks \<Longrightarrow> length xs = length ks \<Longrightarrow> set ks \<subseteq> {..<length v} \<Longrightarrow>
    assign_at ks xs v ! (ks ! k) = xs ! k"
proof (induction ks xs v arbitrary: k rule: assign_at.induct)
  case (1 i "is" x xs v)
  then show ?case by (cases k) (simp_all add: assign_at_outside)
qed simp_all

definition gather :: "nat list \<Rightarrow> 'a list \<Rightarrow> 'a list" where "gather ks v = map (\<lambda>i. v ! i) ks"

lemma length_gather [simp]: "length (gather ks v) = length ks" by (simp add: gather_def)

lemma apply_at_nth:
  assumes "set ks \<subseteq> {..<length v}" "length (f (gather ks v)) = length ks"
  shows "j \<notin> set ks \<Longrightarrow> apply_at ks f v ! j = v ! j"
    "distinct ks \<Longrightarrow> k < length ks \<Longrightarrow> apply_at ks f v ! (ks ! k) = f (gather ks v) ! k"
  using assms by (simp_all add: apply_at_def assign_at_outside assign_at_inside gather_def)

text \<open>A vector position stands for the two positions of its halves.\<close>

fun halves :: "nat list \<Rightarrow> nat list" where
  "halves [] = []"
| "halves (k # ks) = (2 * k) # (2 * k + 1) # halves ks"

lemma pairs_update:
  "2 * k + 1 < length v \<Longrightarrow> pairs (v[2 * k := x, 2 * k + 1 := y]) = (pairs v)[k := (x, y)]"
proof (induction v arbitrary: k rule: pairs.induct)
  case (1 a b zs)
  then show ?case by (cases k) simp_all
qed simp_all

lemma pairs_assign:
  "length xs = 2 * length ks \<Longrightarrow> set ks \<subseteq> {..<length v div 2} \<Longrightarrow>
    pairs (assign_at (halves ks) xs v) = assign_at ks (pairs xs) (pairs v)"
proof (induction ks arbitrary: xs v)
  case (Cons k ks)
  then obtain x y zs where xs: "xs = x # y # zs" by (cases xs rule: pairs.cases) auto
  have "2 * k + 1 < length v" using Cons.prems(2) by auto
  then show ?case using Cons by (simp add: xs pairs_update [simplified])
qed simp

lemma pairs_gather: "set ks \<subseteq> {..<length v div 2} \<Longrightarrow> pairs (gather (halves ks) v) = gather ks (pairs v)"
proof (induction ks)
  case (Cons k ks)
  then have "2 * k + 1 < length v" by auto
  then show ?case using Cons nth_pairs [of k v] by (simp add: gather_def)
qed (simp add: gather_def)

lemma length_halves [simp]: "length (halves ks) = 2 * length ks"
  by (induction ks) simp_all

lemma pairs_apply:
  assumes "set ks \<subseteq> {..<length v div 2}" "pairs (f (gather (halves ks) v)) = g (pairs (gather (halves ks) v))"
    "length (f (gather (halves ks) v)) = 2 * length ks"
  shows "pairs (apply_at (halves ks) f v) = apply_at ks g (pairs v)"
  using assms pairs_assign [OF assms(3,1)] pairs_gather [OF assms(1)]
  by (simp add: apply_at_def gather_def)

lemma halves_rows: "halves (map (\<lambda>k. 8 * i + k) [0..<8]) = row_words i"
  by (simp add: row_words_def upt_rec)

lemma halves_columns: "halves (map (\<lambda>k. 8 * k + i) [0..<8]) = column_words i"
  by (simp add: column_words_def upt_rec)

lemma ssse3_apply:
  assumes "length v = 128" "set ks \<subseteq> {..<64}" "length ks = 8"
  shows "pairs (apply_at (halves ks) BLAKE2_ROUND_NOMSG v) = apply_at ks ssse3_BLAKE2_ROUND (pairs v)"
  by (rule pairs_apply) (use assms in \<open>simp_all add: ssse3_round\<close>)

lemma loop_map:
  assumes "P v" "\<And>i v. i < n \<Longrightarrow> P v \<Longrightarrow> P (f i v) \<and> h (f i v) = g i (h v)"
  shows "P (for_range 0 n f v) \<and> h (for_range 0 n f v) = for_range 0 n g (h v)"
  using assms by (induction n) simp_all

lemma pairs_map2: "length v = length w \<Longrightarrow> even (length v) \<Longrightarrow> pairs (xor_block v w) = map2 mm_xor_si128 (pairs v) (pairs w)"
proof (induction v arbitrary: w rule: pairs.induct)
  case (1 x y zs)
  then obtain a b cs where w: "w = a # b # cs" by (cases w rule: pairs.cases) auto
  then show ?case using 1 by (simp add: xor_block_def mm_xor_si128_def)
qed (auto simp: xor_block_def)

lemma length_xor_block [simp]: "length (xor_block v w) = min (length v) (length w)"
  by (simp add: xor_block_def)

lemma xor_block_commute: "xor_block v w = xor_block w v"
  by (auto simp: xor_block_def list_eq_iff_nth_eq xor.commute)

lemma store_pairs: "even (length b) \<Longrightarrow> store_m128s (pairs b) = b"
  by (induction b rule: pairs.induct) (simp_all add: store_m128s_def)

text \<open>The block before the final exclusive or.\<close>

definition mixed :: "block \<Rightarrow> block" where
  "mixed b = for_range 0 8 (\<lambda>i. apply_at (column_words i) BLAKE2_ROUND_NOMSG)
     (for_range 0 8 (\<lambda>i. apply_at (row_words i) BLAKE2_ROUND_NOMSG) b)"

lemma fill_block_mixed:
  "fill_block p r n x = xor_block (if x then xor_block (xor_block r p) n else xor_block r p) (mixed (xor_block r p))"
  by (simp add: fill_block_def Let_def copy_block_def mixed_def)

lemma mixed_pairs:
  assumes "length b = 128"
  shows "length (mixed b) = 128 \<and> pairs (mixed b) =
    for_range 0 8 (\<lambda>i. apply_at (map (\<lambda>k. 8 * k + i) [0..<8]) ssse3_BLAKE2_ROUND)
     (for_range 0 8 (\<lambda>i. apply_at (map (\<lambda>k. 8 * i + k) [0..<8]) ssse3_BLAKE2_ROUND) (pairs b))"
proof -
  have rows: "length (for_range 0 8 (\<lambda>i. apply_at (row_words i) BLAKE2_ROUND_NOMSG) b) = 128 \<and>
      pairs (for_range 0 8 (\<lambda>i. apply_at (row_words i) BLAKE2_ROUND_NOMSG) b) =
      for_range 0 8 (\<lambda>i. apply_at (map (\<lambda>k. 8 * i + k) [0..<8]) ssse3_BLAKE2_ROUND) (pairs b)"
  proof (rule loop_map [where P = "\<lambda>v. length v = 128"])
    fix i :: nat and v :: block assume *: "i < 8" "length v = 128"
    have "set (map (\<lambda>k. 8 * i + k) [0..<8]) \<subseteq> {..<64}" using *(1) by auto
    from ssse3_apply [OF *(2) this] show "length (apply_at (row_words i) BLAKE2_ROUND_NOMSG v) = 128 \<and>
        pairs (apply_at (row_words i) BLAKE2_ROUND_NOMSG v) =
        apply_at (map (\<lambda>k. 8 * i + k) [0..<8]) ssse3_BLAKE2_ROUND (pairs v)"
      using * by (simp add: halves_rows)
  qed (rule assms)
  show ?thesis unfolding mixed_def rows [THEN conjunct2, symmetric]
  proof (rule loop_map [where P = "\<lambda>v. length v = 128"])
    fix i :: nat and v :: block assume *: "i < 8" "length v = 128"
    have "set (map (\<lambda>k. 8 * k + i) [0..<8]) \<subseteq> {..<64}" using *(1) by auto
    from ssse3_apply [OF *(2) this] show "length (apply_at (column_words i) BLAKE2_ROUND_NOMSG v) = 128 \<and>
        pairs (apply_at (column_words i) BLAKE2_ROUND_NOMSG v) =
        apply_at (map (\<lambda>k. 8 * k + i) [0..<8]) ssse3_BLAKE2_ROUND (pairs v)"
      using * by (simp add: halves_columns)
  qed (rule rows [THEN conjunct1])
qed

lemma length_fill_block: "length p = 128 \<Longrightarrow> length r = 128 \<Longrightarrow> length n = 128 \<Longrightarrow> length (fill_block p r n x) = 128"
  by (simp add: fill_block_mixed mixed_pairs)

lemma fill_block_ssse3_eq:
  assumes "length p = 128" "length r = 128" "length n = 128"
  shows "fill_block_ssse3 (load_m128s p) r n x = (load_m128s (fill_block p r n x), fill_block p r n x)"
proof -
  let ?b = "xor_block r p"
  have b: "length ?b = 128" "map2 mm_xor_si128 (pairs p) (pairs r) = pairs ?b"
    using assms by (simp_all add: xor_block_commute [of r p] pairs_map2)
  have "map2 mm_xor_si128 (pairs (mixed ?b)) (pairs (if x then xor_block ?b n else ?b)) = pairs (fill_block p r n x)"
    using assms mixed_pairs [OF b(1)] by (simp add: fill_block_mixed xor_block_commute [of _ "mixed _"] pairs_map2)
  moreover have "(if x then map2 mm_xor_si128 (pairs ?b) (pairs n) else pairs ?b) = pairs (if x then xor_block ?b n else ?b)"
    using assms by (simp add: pairs_map2)
  ultimately show ?thesis
    using assms mixed_pairs [OF b(1)] length_fill_block [OF assms, of x]
    by (cases x) (simp_all add: fill_block_ssse3_def Let_def load_m128s_eq b(2) store_pairs)
qed

end
