(* ===== verification/Argon2_Wide.thy ===== *)
theory Argon2_Wide
  imports Argon2_Vector
begin

text \<open>
  The AVX2 filler on a block: four pairs of rows and four pairs of columns at a time are the
  eight rows and the eight columns of the reference version.
\<close>

section \<open>Assignments at interleaved positions\<close>

lemma assign_at_update: "j \<notin> set ks \<Longrightarrow> (assign_at ks xs v)[j := y] = assign_at ks xs (v[j := y])"
  by (induction ks xs v rule: assign_at.induct) (simp_all add: list_update_swap)

lemma assign_riffle:
  assumes "length a = length b" "length x = length a" "length y = length a" "set a \<inter> set b = {}"
  shows "assign_at (riffle a b) (riffle x y) v = assign_at b y (assign_at a x v)"
  using assms
proof (induction a b arbitrary: x y v rule: list_induct2')
  case (4 i a j b)
  then obtain p x' q y' where xy: "x = p # x'" "y = q # y'" by (cases x; cases y) auto
  show ?case using 4 by (simp add: xy assign_at_update)
qed auto

lemma assign_zip:
  assumes "length x = length ks" "length y = length ks" "set ks \<subseteq> {..<length p div 2}"
  shows "assign_at ks (zip x y) (pairs p) = pairs (assign_at (map (\<lambda>k. 2 * k + 1) ks) y (assign_at (map (\<lambda>k. 2 * k) ks) x p))"
  using assms
proof (induction ks arbitrary: x y p)
  case (Cons k ks)
  then obtain a x' b y' where xy: "x = a # x'" "y = b # y'" by (cases x; cases y) auto
  have "2 * k + 1 < length p" using Cons.prems(3) by auto
  moreover have "2 * k + 1 \<notin> set (map (\<lambda>k. 2 * k) ks)" by auto presburger
  ultimately show ?case using Cons by (simp add: xy assign_at_update pairs_update [symmetric, simplified] del: length_map)
qed simp

lemma gather_assign: "set ks \<inter> set js = {} \<Longrightarrow> gather ks (assign_at js xs v) = gather ks v"
  unfolding gather_def by (rule map_cong [OF refl], rule assign_at_outside) blast

lemma gather_riffle: "length a = length b \<Longrightarrow> gather (riffle a b) v = riffle (gather a v) (gather b v)"
  by (induction a b rule: list_induct2) (simp_all add: gather_def)

lemma gather_zip:
  "set ks \<subseteq> {..<length p div 2} \<Longrightarrow> gather ks (pairs p) = zip (gather (map (\<lambda>k. 2 * k) ks) p) (gather (map (\<lambda>k. 2 * k + 1) ks) p)"
proof (induction ks)
  case (Cons k ks)
  then have "2 * k + 1 < length p" by auto
  then show ?case using Cons nth_pairs [of k p] by (simp add: gather_def)
qed (simp add: gather_def)

lemma length_quads [simp]: "length (quads v) = length v div 4"
  by (simp add: quads_def div_mult2_eq [symmetric])

lemma apply_at_eq: "apply_at ks f v = assign_at ks (f (gather ks v)) v"
  by (simp add: apply_at_def gather_def)

lemma quads_gather:
  assumes "set ks \<subseteq> {..<length v div 4}"
  shows "quads (gather (halves (halves ks)) v) = gather ks (quads v)"
proof -
  have "set (halves ks) \<subseteq> {..<length v div 2}" using assms by (induction ks) auto
  then show ?thesis using assms pairs_gather [of "halves ks" v] pairs_gather [of ks "pairs v"]
    by (simp add: quads_def div_mult2_eq [symmetric])
qed

lemma quads_assign:
  assumes "length xs = 4 * length ks" "set ks \<subseteq> {..<length v div 4}"
  shows "quads (assign_at (halves (halves ks)) xs v) = assign_at ks (quads xs) (quads v)"
proof -
  have "set (halves ks) \<subseteq> {..<length v div 2}" using assms(2) by (induction ks) auto
  then show ?thesis using assms pairs_assign [of xs "halves ks" v] pairs_assign [of "pairs xs" ks "pairs v"]
    by (simp add: quads_def div_mult2_eq [symmetric])
qed

section \<open>Rows and columns\<close>

abbreviation quad_row :: "nat \<Rightarrow> nat list" where "quad_row i \<equiv> map (\<lambda>k. 4 * i + k) [0..<4]"

lemma quad_row_words: "halves (halves (quad_row i)) = row_words i"
  by (simp add: row_words_def upt_rec)

lemma avx2_row_riffle: "avx2_row i = riffle (quad_row (2 * i)) (quad_row (2 * i + 1))"
  by (simp add: avx2_row_def upt_rec)

lemma two_rows:
  assumes "length v = 128" "i < 4"
  shows "quads (apply_at (row_words (2 * i + 1)) BLAKE2_ROUND_NOMSG (apply_at (row_words (2 * i)) BLAKE2_ROUND_NOMSG v)) =
    apply_at (avx2_row i) BLAKE2_ROUND_1 (quads v)"
proof -
  let ?a = "quad_row (2 * i)" and ?b = "quad_row (2 * i + 1)"
  let ?x = "gather (row_words (2 * i)) v" and ?y = "gather (row_words (2 * i + 1)) v"
  have sub: "set ?a \<subseteq> {..<length v div 4}" "set ?b \<subseteq> {..<length v div 4}" using assms by auto
  have dis: "set ?a \<inter> set ?b = {}" by auto
  have wdis: "set (row_words (2 * i + 1)) \<inter> set (row_words (2 * i)) = {}" by (auto simp: row_words_def)
  have len: "length ?x = 16" "length ?y = 16" by (simp_all add: row_words_def)
  have "apply_at (avx2_row i) BLAKE2_ROUND_1 (quads v) =
      assign_at (riffle ?a ?b) (riffle (quads (BLAKE2_ROUND_NOMSG ?x)) (quads (BLAKE2_ROUND_NOMSG ?y))) (quads v)"
    unfolding apply_at_eq avx2_row_riffle using quads_gather [OF sub(1)] quads_gather [OF sub(2)] avx2_round_1 [OF len]
    by (simp only: gather_riffle length_map quad_row_words)
  also have "\<dots> = assign_at ?b (quads (BLAKE2_ROUND_NOMSG ?y)) (assign_at ?a (quads (BLAKE2_ROUND_NOMSG ?x)) (quads v))"
    by (rule assign_riffle) (use len dis in simp_all)
  also have "\<dots> = quads (assign_at (row_words (2 * i + 1)) (BLAKE2_ROUND_NOMSG ?y)
      (assign_at (row_words (2 * i)) (BLAKE2_ROUND_NOMSG ?x) v))"
    using sub len quads_assign [of "BLAKE2_ROUND_NOMSG ?x" ?a v]
      quads_assign [of "BLAKE2_ROUND_NOMSG ?y" ?b "assign_at (row_words (2 * i)) (BLAKE2_ROUND_NOMSG ?x) v"]
    by (simp only: quad_row_words length_round length_map length_assign_at length_upt)
  finally show ?thesis by (simp only: apply_at_eq gather_assign [OF wdis])
qed

abbreviation pair_column :: "nat \<Rightarrow> nat list" where "pair_column i \<equiv> map (\<lambda>k. 8 * k + i) [0..<8]"

lemma avx2_column_pairs:
  "map (\<lambda>k. 2 * k) (avx2_column i) = pair_column (2 * i)" "map (\<lambda>k. 2 * k + 1) (avx2_column i) = pair_column (2 * i + 1)"
  by (simp_all add: avx2_column_def upt_rec)

lemma two_columns:
  assumes "length v = 128" "i < 4"
  shows "quads (apply_at (column_words (2 * i + 1)) BLAKE2_ROUND_NOMSG (apply_at (column_words (2 * i)) BLAKE2_ROUND_NOMSG v)) =
    apply_at (avx2_column i) BLAKE2_ROUND_2 (quads v)"
proof -
  let ?a = "pair_column (2 * i)" and ?b = "pair_column (2 * i + 1)" and ?k = "avx2_column i"
  let ?x = "gather (column_words (2 * i)) v" and ?y = "gather (column_words (2 * i + 1)) v"
  let ?u = "assign_at (column_words (2 * i)) (BLAKE2_ROUND_NOMSG ?x) v"
  have sub: "set ?a \<subseteq> {..<length v div 2}" "set ?b \<subseteq> {..<length v div 2}" "set ?k \<subseteq> {..<length (pairs v) div 2}"
    using assms by (auto simp: avx2_column_def)
  have wdis: "set (column_words (2 * i + 1)) \<inter> set (column_words (2 * i)) = {}"
    using assms(2) by (auto simp: column_words_def)
  have len: "length ?x = 16" "length ?y = 16" "length ?k = 8" by (simp_all add: column_words_def avx2_column_def)
  have "gather ?k (quads v) = zip (pairs ?x) (pairs ?y)"
    using gather_zip [OF sub(3)] pairs_gather [OF sub(1)] pairs_gather [OF sub(2)]
    by (simp only: quads_def avx2_column_pairs halves_columns)
  then have "apply_at ?k BLAKE2_ROUND_2 (quads v) =
      assign_at ?k (zip (pairs (BLAKE2_ROUND_NOMSG ?x)) (pairs (BLAKE2_ROUND_NOMSG ?y))) (quads v)"
    using avx2_round_2 [OF len(1,2)] by (simp only: apply_at_eq)
  also have "\<dots> = pairs (assign_at ?b (pairs (BLAKE2_ROUND_NOMSG ?y)) (assign_at ?a (pairs (BLAKE2_ROUND_NOMSG ?x)) (pairs v)))"
    unfolding quads_def avx2_column_pairs [symmetric] by (rule assign_zip) (use len sub in simp_all)
  also have "\<dots> = quads (assign_at (column_words (2 * i + 1)) (BLAKE2_ROUND_NOMSG ?y) ?u)"
    using sub len pairs_assign [of "BLAKE2_ROUND_NOMSG ?x" ?a v] pairs_assign [of "BLAKE2_ROUND_NOMSG ?y" ?b ?u]
    by (simp only: halves_columns length_round length_map length_assign_at length_upt quads_def)
  finally show ?thesis by (simp only: apply_at_eq gather_assign [OF wdis])
qed

lemma loop_two: "for_range 0 (2 * n) f s = for_range 0 n (\<lambda>i s. f (2 * i + 1) (f (2 * i) s)) s"
  by (induction n) simp_all

lemma mixed_quads:
  assumes "length b = 128"
  shows "quads (mixed b) = for_range 0 4 (\<lambda>i. apply_at (avx2_column i) BLAKE2_ROUND_2)
     (for_range 0 4 (\<lambda>i. apply_at (avx2_row i) BLAKE2_ROUND_1) (quads b))"
proof -
  let ?r = "\<lambda>i. apply_at (row_words i) BLAKE2_ROUND_NOMSG" and ?c = "\<lambda>i. apply_at (column_words i) BLAKE2_ROUND_NOMSG"
  have rows: "length (for_range 0 4 (\<lambda>i s. ?r (2 * i + 1) (?r (2 * i) s)) b) = 128 \<and>
      quads (for_range 0 4 (\<lambda>i s. ?r (2 * i + 1) (?r (2 * i) s)) b) =
      for_range 0 4 (\<lambda>i. apply_at (avx2_row i) BLAKE2_ROUND_1) (quads b)"
    by (rule loop_map [where P = "\<lambda>v. length v = 128"]) (use assms two_rows in simp_all)
  have "length (for_range 0 4 (\<lambda>i s. ?c (2 * i + 1) (?c (2 * i) s)) v) = 128 \<and>
      quads (for_range 0 4 (\<lambda>i s. ?c (2 * i + 1) (?c (2 * i) s)) v) =
      for_range 0 4 (\<lambda>i. apply_at (avx2_column i) BLAKE2_ROUND_2) (quads v)" if "length v = 128" for v
    by (rule loop_map [where P = "\<lambda>v. length v = 128"]) (use that two_columns in simp_all)
  from this [OF rows [THEN conjunct1]] show ?thesis
    using loop_two [of 4 ?r b] loop_two [of 4 ?c "for_range 0 8 ?r b"] rows
    by (simp only: mixed_def) simp
qed

section \<open>Blocks\<close>

lemma pairs_map2_gen:
  assumes "length v = length w" "even (length v)"
  shows "pairs (map2 f v w) = map2 (\<lambda>a b. (f (fst a) (fst b), f (snd a) (snd b))) (pairs v) (pairs w)"
  using assms
proof (induction v arbitrary: w rule: pairs.induct)
  case (1 x y zs)
  then obtain a b cs where w: "w = a # b # cs" by (cases w rule: pairs.cases) auto
  then show ?case using 1 by simp
qed auto

lemma quads_xor:
  assumes "length v = 128" "length w = 128"
  shows "quads (xor_block v w) = map2 mm256_xor_si256 (quads v) (quads w)"
proof -
  have "mm256_xor_si256 = (\<lambda>a b. (mm_xor_si128 (fst a) (fst b), mm_xor_si128 (snd a) (snd b)))"
    by (simp add: fun_eq_iff mm256_xor_si256_def lanewise_def)
  then show ?thesis using assms pairs_map2_gen [of "pairs v" "pairs w" mm_xor_si128]
    by (simp add: quads_def pairs_map2)
qed

lemma concat_pairs: "even (length b) \<Longrightarrow> concat (map (\<lambda>v. [fst v, snd v]) (pairs b)) = b"
  by (induction b rule: pairs.induct) simp_all

lemma store_quads:
  assumes "length b = 128"
  shows "store_m256s (quads b) = b"
proof -
  have "store_m256s s = store_m128s (concat (map (\<lambda>v. [fst v, snd v]) s))" for s
    by (induction s) (simp_all add: store_m256s_def store_m128s_def)
  then show ?thesis using assms by (simp add: quads_def concat_pairs store_pairs)
qed

lemma fill_block_avx2_eq:
  assumes "length p = 128" "length r = 128" "length n = 128"
  shows "fill_block_avx2 (load_m256s p) r n x = (load_m256s (fill_block p r n x), fill_block p r n x)"
proof -
  let ?b = "xor_block r p"
  have b: "length ?b = 128" "map2 mm256_xor_si256 (quads p) (quads r) = quads ?b"
    using assms by (simp_all add: xor_block_commute [of r p] quads_xor)
  have "map2 mm256_xor_si256 (quads (mixed ?b)) (quads (if x then xor_block ?b n else ?b)) = quads (fill_block p r n x)"
    using assms mixed_pairs [OF b(1)] by (simp add: fill_block_mixed xor_block_commute [of _ "mixed _"] quads_xor)
  moreover have "(if x then map2 mm256_xor_si256 (quads ?b) (quads n) else quads ?b) = quads (if x then xor_block ?b n else ?b)"
    using assms by (simp add: quads_xor)
  ultimately show ?thesis
    using assms mixed_quads [OF b(1)] length_fill_block [OF assms, of x]
    by (cases x) (simp_all add: fill_block_avx2_def Let_def load_m256s_eq b(2) store_quads)
qed

end
