(* ===== verification/Argon2_Segment.thy ===== *)
theory Argon2_Segment
  imports Argon2_Wide
begin

text \<open>
  The three fillers on the memory of the cache: one lane of \<open>4 * 65536\<close> blocks, three
  passes. Every step of every filler is one update of the memory, \<open>fill_at\<close>, that no offset
  leaves; hence the fillers agree and none of them fails. In the first pass the reference block
  always lies before the block that is written, so nothing of what was in the memory before is read.
\<close>

section \<open>The instance of the cache\<close>

definition cache_inst :: "argon2_instance \<Rightarrow> bool" where
  "cache_inst inst \<longleftrightarrow> in_lanes inst = 1 \<and> in_segment_length inst = 65536 \<and> in_lane_length inst = 262144 \<and>
     in_passes inst = 3 \<and> in_version inst = 0x13"

definition memory_ok :: "block list \<Rightarrow> bool" where
  "memory_ok m \<longleftrightarrow> length m = 262144 \<and> (\<forall>b \<in> set m. length b = 128)"

definition position :: "nat \<Rightarrow> nat \<Rightarrow> argon2_position" where
  "position r s = \<lparr>pos_pass = of_nat r, pos_lane = 0, pos_slice = of_nat s, pos_index = 0\<rparr>"

definition before :: "nat \<Rightarrow> nat" where "before k = (if k = 0 then 262143 else k - 1)"

definition ref_pos :: "argon2_instance \<Rightarrow> argon2_position \<Rightarrow> u64 \<Rightarrow> nat \<Rightarrow> nat" where
  "ref_pos inst pos x i = (case reference_of inst pos x i of (ref_lane, ref_index) \<Rightarrow>
     unat (ucast (in_lane_length inst) * ref_lane + ref_index))"

text \<open>The update of block \<open>k\<close>, the \<open>i\<close>-th of its segment.\<close>

definition fill_at :: "argon2_instance \<Rightarrow> argon2_position \<Rightarrow> nat \<Rightarrow> nat \<Rightarrow> block list \<Rightarrow> block list" where
  "fill_at inst pos k i m =
    (let p = m ! before k
     in m[k := fill_block p (m ! ref_pos inst pos (p ! 0) i) (m ! k) (xor_needed inst pos)])"

lemma cache_instance_ok: "cache_inst (cache_instance impl (cache_context key n))"
  by (simp add: cache_inst_def cache_instance_def cache_context_def Let_def ARGON2_SYNC_POINTS_def
      RANDOMX_ARGON_MEMORY_def RANDOMX_ARGON_LANES_def RANDOMX_ARGON_ITERATIONS_def ARGON2_VERSION_NUMBER_def
      ARGON2_VERSION_13_def)

lemma unat_u32 [simp]: "k < 2 ^ 32 \<Longrightarrow> unat (of_nat k :: u32) = k"
  by (simp add: unsigned_of_nat take_bit_nat_eq_self)

lemma mod_u32: "k < 2 ^ 32 \<Longrightarrow> (of_nat k :: u32) mod 262144 = of_nat (k mod 262144)"
proof -
  assume k: "k < 2 ^ 32"
  have "k mod 262144 < 2 ^ 32" by (rule less_trans [of _ 262144]) simp_all
  then show ?thesis using k by (intro word_unat_eq_iff [THEN iffD2]) (simp add: unat_mod_distrib del: of_nat_mod)
qed

lemma memory_nth: "memory_ok m \<Longrightarrow> k < 262144 \<Longrightarrow> length (m ! k) = 128"
  by (simp add: memory_ok_def)

lemma before_less: "k < 262144 \<Longrightarrow> before k < 262144"
  by (auto simp: before_def)

section \<open>The reference block\<close>

lemma index_less:
  assumes "in_lane_length inst = 262144"
  shows "unat (randomx_argon2_index_alpha inst pos x l) < 262144"
proof -
  have "unat (ucast (y mod (262144 :: u64)) :: u32) < 262144" for y :: u64
  proof -
    have "unat (y mod 262144) < 262144" by (simp add: unat_mod_distrib)
    then show ?thesis by (simp add: unsigned_ucast_eq take_bit_nat_eq_self)
  qed
  then show ?thesis by (simp add: randomx_argon2_index_alpha_def Let_def assms)
qed

lemma reference_lane:
  assumes "cache_inst inst" "pos_lane pos = 0"
  shows "reference_of inst pos x i =
    (0, ucast (randomx_argon2_index_alpha inst (pos\<lparr>pos_index := of_nat i\<rparr>) (ucast (x AND 0xFFFFFFFF)) True))"
  using assms by (simp add: reference_of_def cache_inst_def Let_def)

lemma unat_up [simp]: "unat (ucast (w :: u32) :: u64) = unat w"
proof -
  have "unat w < 2 ^ 32" using unsigned_less [of w, where 'a = nat] by simp
  then have "unat w < 2 ^ 64" by (rule less_trans) simp
  then show ?thesis by (simp add: unsigned_ucast_eq take_bit_nat_eq_self_iff)
qed

lemma ref_pos_eq:
  assumes "cache_inst inst" "pos_lane pos = 0"
  shows "ref_pos inst pos x i =
    unat (randomx_argon2_index_alpha inst (pos\<lparr>pos_index := of_nat i\<rparr>) (ucast (x AND 0xFFFFFFFF)) True)"
  by (simp add: ref_pos_def reference_lane [OF assms])

lemma ref_pos_less: "cache_inst inst \<Longrightarrow> pos_lane pos = 0 \<Longrightarrow> ref_pos inst pos x i < 262144"
  using index_less [of inst] by (simp add: ref_pos_eq cache_inst_def)

text \<open>In the first pass it lies before the block that is written.\<close>

lemma relative_less:
  fixes A y :: u32
  assumes "A \<noteq> 0"
  shows "unat (ucast (A - 1) - drop_bit 32 (ucast A * ucast y :: u64) :: u64) < unat A"
proof -
  let ?p = "ucast A * ucast y :: u64"
  have a: "0 < unat A" using assms by (simp add: unat_gt_0)
  have y: "unat y < 2 ^ 32" using unsigned_less [of y] by simp
  have A: "unat A < 2 ^ 32" using unsigned_less [of A] by simp
  have "unat A * unat y < 2 ^ 32 * 2 ^ 32" using A y by (intro mult_strict_mono) simp_all
  then have p: "unat ?p = unat A * unat y"
    by (simp add: unat_word_ariths)
  have "unat (drop_bit 32 ?p) = unat A * unat y div 2 ^ 32"
    unfolding p [symmetric] by (simp add: unsigned_drop_bit_eq drop_bit_eq_div unat_div_distrib)
  moreover have "unat A * unat y div 2 ^ 32 < unat A"
    using a y by (simp add: div_less_iff_less_mult)
  moreover have "unat (ucast (A - 1) :: u64) = unat A - 1"
    using assms a by (simp add: unsigned_ucast_eq unat_minus_one take_bit_nat_eq_self)
  ultimately show ?thesis using a by (simp add: unat_sub word_le_nat_alt)
qed

lemma alpha_first_pass:
  assumes "in_lane_length inst = 262144" "in_segment_length inst = 65536" "s < 4" "i < 65536" "2 \<le> 65536 * s + i"
    "pos_pass pos = 0" "pos_slice pos = of_nat s" "pos_index pos = of_nat i"
  shows "unat (randomx_argon2_index_alpha inst pos x True) + 1 < 65536 * s + i"
proof -
  define A :: u32 where "A = of_nat (65536 * s + i - 1)"
  have lt: "65536 * s + i - 1 < 262144" using assms(3,4) by linarith
  have uA: "unat A = 65536 * s + i - 1" using lt by (simp add: A_def)
  then have nz: "A \<noteq> 0" using assms(5) by auto
  define y :: u32 where "y = ucast (drop_bit 32 (ucast x * ucast x :: u64))"
  have y: "ucast y = drop_bit 32 (ucast x * ucast x :: u64)"
    unfolding y_def by (rule bit_word_eqI) (auto simp: bit_simps dest: bit_imp_le_length)
  define R :: u64 where "R = ucast (A - 1) - drop_bit 32 (ucast A * ucast y)"
  have R: "unat R < 65536 * s + i - 1" using relative_less [OF nz, of y] by (simp add: R_def uA)
  have sl: "(ucast (of_nat s :: u8) :: u32) = of_nat s" using assms(3) by (simp add: unsigned_of_nat take_bit_nat_eq_self)
  have area: "of_nat (65536 * s + i - 1) = (of_nat s * 65536 + of_nat i - 1 :: u32)"
    using assms(5) by (subst of_nat_diff) (simp_all add: mult.commute)
  have "randomx_argon2_index_alpha inst pos x True = ucast (R mod 262144)"
    using area assms(3) unfolding randomx_argon2_index_alpha_def Let_def
    by (cases "s = 0") (simp_all add: assms(1,2,6-8) sl R_def A_def y mult.commute)
  moreover have "unat (R mod 262144) = unat R" using R lt by (simp add: unat_mod_distrib)
  ultimately show ?thesis using R lt assms(5) by (simp add: unsigned_ucast_eq take_bit_nat_eq_self)
qed

section \<open>A step\<close>

lemma memory_fill_at:
  assumes "cache_inst inst" "pos_lane pos = 0" "memory_ok m" "k < 262144"
  shows "memory_ok (fill_at inst pos k i m)"
proof -
  have "length (fill_block (m ! before k) (m ! ref_pos inst pos (m ! before k ! 0) i) (m ! k) w) = 128" for w
    using assms before_less ref_pos_less by (intro length_fill_block memory_nth) simp_all
  then show ?thesis using assms(3) unfolding memory_ok_def fill_at_def Let_def
    by (auto dest!: set_update_subset_insert [THEN subsetD])
qed

text \<open>The variable \<^verbatim>\<open>prev_offset\<close> at the top of the loop body, after its correction.\<close>

abbreviation corrected :: "u32 \<Rightarrow> u32 \<Rightarrow> u32" where
  "corrected c p \<equiv> if c mod 262144 = 1 then c - 1 else p"

lemma corrected_next:
  assumes "k < 262144"
  shows "corrected (of_nat k + 1) (of_nat (before k) + 1) = of_nat (before (k + 1))"
proof (cases "k = 0")
  case False
  then have "of_nat (before k) + 1 = (of_nat k :: u32)" by (simp add: before_def of_nat_diff)
  then show ?thesis by (simp add: before_def)
qed (simp add: before_def)

lemma before_Suc [simp]: "before (k + 1) = k" "before (Suc k) = k"
  by (simp_all add: before_def)

lemma u32_offset: "k < 262144 \<Longrightarrow> unat (of_nat k :: u32) = k"
  by simp

lemma block_at_some: "k < length m \<Longrightarrow> block_at m k = Some (m ! k)"
  by (simp add: block_at_def)

lemma segment_step_eq:
  assumes "cache_inst inst" "pos_lane pos = 0" "memory_ok m" "k < 262144" "corrected (of_nat k) p = of_nat (before k)"
  shows "segment_step inst pos i (Some (m, of_nat k, p)) =
    Some (fill_at inst pos k i m, of_nat k + 1, of_nat (before k) + 1)"
proof -
  have L: "in_lane_length inst = 262144" "length m = 262144" using assms(1,3) by (simp_all add: cache_inst_def memory_ok_def)
  have b: "block_at m (unat (of_nat (before k) :: u32)) = Some (m ! before k)" "block_at m k = Some (m ! k)"
    using assms(4) before_less [OF assms(4)] L(2) by (simp_all add: u32_offset block_at_some)
  have r: "block_at m (ref_pos inst pos x i) = Some (m ! ref_pos inst pos x i)" for x
    by (rule block_at_some) (simp add: L(2) ref_pos_less [OF assms(1,2)])
  show ?thesis
    using r [of "m ! before k ! 0"] assms(5) unfolding segment_step_def
    by (simp add: L b fill_at_def ref_pos_def Let_def u32_offset [OF assms(4)] split: prod.splits)
qed

section \<open>A segment\<close>

definition fill_part :: "argon2_instance \<Rightarrow> nat \<Rightarrow> nat \<Rightarrow> nat \<Rightarrow> block list \<Rightarrow> block list" where
  "fill_part inst r s b m =
     for_range (first_index (position r s)) b (\<lambda>i. fill_at inst (position r s) (65536 * s + i) i) m"

lemma position_lane [simp]: "pos_lane (position r s) = 0"
  by (simp add: position_def)

lemma first_index_le: "first_index pos \<le> 2"
  by (simp add: first_index_def)

lemma memory_fill_part:
  assumes "cache_inst inst" "memory_ok m" "s < 4" "b \<le> 65536"
  shows "memory_ok (fill_part inst r s b m)"
  using assms(4)
proof (induction b)
  case (Suc b)
  then show ?case
    using memory_fill_at [OF assms(1), of "position r s" "fill_part inst r s b m" "65536 * s + b" b] assms(3)
    by (cases "first_index (position r s) \<le> b") (simp_all add: fill_part_def assms(2))
qed (simp add: fill_part_def assms(2))

lemma offset_before_eq:
  assumes "in_lane_length inst = 262144" "k < 262144"
  shows "offset_before inst (of_nat k) = of_nat (before k)"
proof (cases "k = 0")
  case False
  have "unat (of_nat k :: u32) = k" using assms(2) by simp
  then have nz: "(of_nat k :: u32) \<noteq> 0" using False by (metis unat_0)
  have "of_nat k mod (262144 :: u32) = of_nat k" using assms(2) mod_u32 [of k] by simp
  then show ?thesis using False nz by (simp add: offset_before_def assms(1) before_def of_nat_diff)
qed (simp add: offset_before_def assms(1) before_def)

lemma first_offset_eq:
  assumes "cache_inst inst" "s < 4"
  shows "first_offset inst (position r s) = of_nat (65536 * s + first_index (position r s))"
proof -
  have sl: "(ucast (of_nat s :: u8) :: u32) = of_nat s" using assms(2) by (simp add: unsigned_of_nat take_bit_nat_eq_self)
  have "first_offset inst (position r s) = of_nat s * 65536 + of_nat (first_index (position r s))"
    using assms(1) by (simp add: first_offset_def cache_inst_def) (simp add: position_def sl)
  then show ?thesis by (simp only: of_nat_add of_nat_mult of_nat_numeral mult.commute)
qed

lemma segment_index_less: "s < 4 \<Longrightarrow> i < 65536 \<Longrightarrow> 65536 * s + i < (262144 :: nat)"
  by linarith

lemma corrected_before:
  assumes "k < 262144"
  shows "corrected (of_nat k) (of_nat (before k)) = of_nat (before k)"
proof (cases "k = 0")
  case False
  then show ?thesis by (simp add: before_def of_nat_diff)
qed (simp add: before_def)

lemma fill_part_Suc:
  "first_index (position r s) \<le> b \<Longrightarrow>
    fill_part inst r s (Suc b) m = fill_at inst (position r s) (65536 * s + b) b (fill_part inst r s b m)"
  by (simp add: fill_part_def)

lemma segment_loop:
  assumes "cache_inst inst" "memory_ok m" "s < 4" "first_index (position r s) \<le> b" "b \<le> 65536"
  shows "\<exists>p. for_range (first_index (position r s)) b (segment_step inst (position r s))
      (Some (m, of_nat (65536 * s + first_index (position r s)), of_nat (before (65536 * s + first_index (position r s))))) =
        Some (fill_part inst r s b m, of_nat (65536 * s + b), p) \<and>
      (b < 65536 \<longrightarrow> corrected (of_nat (65536 * s + b)) p = of_nat (before (65536 * s + b)))"
  using assms(4,5)
proof (induction b rule: dec_induct)
  case base
  let ?k = "65536 * s + first_index (position r s)"
  have "?k < 262144" using assms(3) first_index_le [of "position r s"] by linarith
  then show ?case using corrected_before [of ?k] by (simp add: fill_part_def)
next
  case (step b)
  let ?k = "65536 * s + b"
  have b: "b < 65536" "b \<le> 65536" using step.prems by simp_all
  then have k: "?k < 262144" using assms(3) by linarith
  obtain p where p: "for_range (first_index (position r s)) b (segment_step inst (position r s))
      (Some (m, of_nat (65536 * s + first_index (position r s)), of_nat (before (65536 * s + first_index (position r s))))) =
        Some (fill_part inst r s b m, of_nat ?k, p)" "corrected (of_nat ?k) p = of_nat (before ?k)"
    using step.IH [OF b(2)] b(1) by blast
  note ok = memory_fill_part [OF assms(1-3) b(2), of r]
  have sum: "of_nat ?k + 1 = (of_nat (65536 * s + Suc b) :: u32)" "?k + 1 = 65536 * s + Suc b" by simp_all
  note stepped = segment_step_eq [OF assms(1) position_lane [of r s] ok k p(2), where i = b, unfolded sum fill_part_Suc [OF step.hyps(1), symmetric]]
  show ?case unfolding for_range_Suc [OF step.hyps(1)] p(1) stepped
    using corrected_next [OF k] by (intro exI [of _ "of_nat (before ?k) + 1"]) (simp only: sum simp_thms)
qed

lemma segment_ref:
  assumes "cache_inst inst" "memory_ok m" "s < 4"
  shows "randomx_argon2_fill_segment_ref (Some inst) (position r s) m = Some (fill_part inst r s 65536 m)"
proof -
  let ?f = "first_index (position r s)"
  have L: "in_lane_length inst = 262144" "unat (in_segment_length inst) = 65536" using assms(1) by (simp_all add: cache_inst_def)
  have k: "65536 * s + ?f < 262144" "?f \<le> 65536" using assms(3) first_index_le [of "position r s"] by linarith+
  from segment_loop [OF assms k(2) order_refl] show ?thesis
    unfolding randomx_argon2_fill_segment_ref_def option.case Let_def L(2) first_offset_eq [OF assms(1,3)] offset_before_eq [OF L(1) k(1)]
    by auto
qed

section \<open>The vector versions\<close>

text \<open>What a vector version needs of its block filler: it takes the previous block from the
  registers and leaves the new one in them and in the memory.\<close>

locale vector_filler =
  fixes load :: "block \<Rightarrow> 'v list" and fill :: "'v list \<Rightarrow> block \<Rightarrow> block \<Rightarrow> bool \<Rightarrow> 'v list \<times> block"
  assumes fill_block_eq: "length p = 128 \<Longrightarrow> length r = 128 \<Longrightarrow> length n = 128 \<Longrightarrow>
    fill (load p) r n x = (load (fill_block p r n x), fill_block p r n x)"
begin

lemma vector_step_eq:
  assumes "cache_inst inst" "pos_lane pos = 0" "memory_ok m" "k < 262144" "corrected (of_nat k) p = of_nat (before k)"
  shows "vector_step fill inst pos i (Some (m, load (m ! before k), of_nat k, p)) =
    Some (fill_at inst pos k i m, load (fill_at inst pos k i m ! before (k + 1)), of_nat k + 1, of_nat (before k) + 1)"
proof -
  have L: "in_lane_length inst = 262144" "length m = 262144" using assms(1,3) by (simp_all add: cache_inst_def memory_ok_def)
  have b: "block_at m (unat (of_nat (before k) :: u32)) = Some (m ! before k)" "block_at m k = Some (m ! k)"
    using assms(4) before_less [OF assms(4)] L(2) by (simp_all add: u32_offset block_at_some)
  have r: "block_at m (ref_pos inst pos x i) = Some (m ! ref_pos inst pos x i)" for x
    by (rule block_at_some) (simp add: L(2) ref_pos_less [OF assms(1,2)])
  have f: "fill (load (m ! before k)) (m ! ref_pos inst pos (m ! before k ! 0) i) (m ! k) x =
      (load (fill_block (m ! before k) (m ! ref_pos inst pos (m ! before k ! 0) i) (m ! k) x),
       fill_block (m ! before k) (m ! ref_pos inst pos (m ! before k ! 0) i) (m ! k) x)" for x
    using assms(1-4) before_less ref_pos_less by (intro fill_block_eq memory_nth) simp_all
  show ?thesis
    using r [of "m ! before k ! 0"] f assms(5) unfolding vector_step_def
    by (simp add: L b fill_at_def ref_pos_def Let_def u32_offset [OF assms(4)] assms(4) split: prod.splits)
qed

lemma vector_loop:
  assumes "cache_inst inst" "memory_ok m" "s < 4" "first_index (position r s) \<le> b" "b \<le> 65536"
  shows "\<exists>p. for_range (first_index (position r s)) b (vector_step fill inst (position r s))
      (Some (m, load (m ! before (65536 * s + first_index (position r s))), of_nat (65536 * s + first_index (position r s)),
        of_nat (before (65536 * s + first_index (position r s))))) =
        Some (fill_part inst r s b m, load (fill_part inst r s b m ! before (65536 * s + b)), of_nat (65536 * s + b), p) \<and>
      (b < 65536 \<longrightarrow> corrected (of_nat (65536 * s + b)) p = of_nat (before (65536 * s + b)))"
  using assms(4,5)
proof (induction b rule: dec_induct)
  case base
  let ?k = "65536 * s + first_index (position r s)"
  have "?k < 262144" using assms(3) first_index_le [of "position r s"] by linarith
  then show ?case using corrected_before [of ?k] by (simp add: fill_part_def)
next
  case (step b)
  let ?k = "65536 * s + b"
  have b: "b < 65536" "b \<le> 65536" using step.prems by simp_all
  then have k: "?k < 262144" using assms(3) by linarith
  obtain p where p: "for_range (first_index (position r s)) b (vector_step fill inst (position r s))
      (Some (m, load (m ! before (65536 * s + first_index (position r s))), of_nat (65536 * s + first_index (position r s)),
        of_nat (before (65536 * s + first_index (position r s))))) =
        Some (fill_part inst r s b m, load (fill_part inst r s b m ! before ?k), of_nat ?k, p)"
      "corrected (of_nat ?k) p = of_nat (before ?k)"
    using step.IH [OF b(2)] b(1) by blast
  note ok = memory_fill_part [OF assms(1-3) b(2), of r]
  have sum: "of_nat ?k + 1 = (of_nat (65536 * s + Suc b) :: u32)" "?k + 1 = 65536 * s + Suc b" by simp_all
  note stepped = vector_step_eq [OF assms(1) position_lane [of r s] ok k p(2), where i = b, unfolded sum fill_part_Suc [OF step.hyps(1), symmetric]]
  show ?case unfolding for_range_Suc [OF step.hyps(1)] p(1) stepped
    using corrected_next [OF k] by (intro exI [of _ "of_nat (before ?k) + 1"]) (simp only: sum simp_thms)
qed

lemma segment_vector:
  assumes "cache_inst inst" "memory_ok m" "s < 4"
  shows "vector_segment load fill (Some inst) (position r s) m = Some (fill_part inst r s 65536 m)"
proof -
  let ?f = "first_index (position r s)"
  have L: "in_lane_length inst = 262144" "unat (in_segment_length inst) = 65536" using assms(1) by (simp_all add: cache_inst_def)
  have k: "65536 * s + ?f < 262144" "?f \<le> 65536" using assms(3) first_index_le [of "position r s"] by linarith+
  have "block_at m (unat (of_nat (before (65536 * s + ?f)) :: u32)) = Some (m ! before (65536 * s + ?f))"
    using before_less [OF k(1)] assms(2) by (simp add: u32_offset block_at_some memory_ok_def)
  moreover obtain p where "for_range ?f 65536 (vector_step fill inst (position r s))
      (Some (m, load (m ! before (65536 * s + ?f)), of_nat (65536 * s + ?f), of_nat (before (65536 * s + ?f)))) =
      Some (fill_part inst r s 65536 m, load (fill_part inst r s 65536 m ! before (65536 * s + 65536)), of_nat (65536 * s + 65536), p)"
    using vector_loop [OF assms(1-3) k(2) order_refl] by blast
  ultimately show ?thesis
    unfolding vector_segment_def option.case Let_def L(2) first_offset_eq [OF assms(1,3)] offset_before_eq [OF L(1) k(1)]
    by (simp only: Option.bind.bind_lunit option.map fst_conv)
qed

end

interpretation ssse3_filler: vector_filler load_m128s fill_block_ssse3
  by unfold_locales (rule fill_block_ssse3_eq)

interpretation avx2_filler: vector_filler load_m256s fill_block_avx2
  by unfold_locales (rule fill_block_avx2_eq)

lemma call_impl_eq:
  assumes "cache_inst inst" "memory_ok m" "s < 4"
  shows "call_impl impl (Some inst) (position r s) m = Some (fill_part inst r s 65536 m)"
  using segment_ref [OF assms] ssse3_filler.segment_vector [OF assms] avx2_filler.segment_vector [OF assms]
  by (cases impl) (simp_all add: randomx_argon2_fill_segment_ssse3_def randomx_argon2_fill_segment_avx2_def)

section \<open>The passes\<close>

definition fill_slices :: "argon2_instance \<Rightarrow> nat \<Rightarrow> nat \<Rightarrow> block list \<Rightarrow> block list" where
  "fill_slices inst r n m = for_range 0 n (\<lambda>s. fill_part inst r s 65536) m"

definition fill_passes :: "argon2_instance \<Rightarrow> nat \<Rightarrow> block list \<Rightarrow> block list" where
  "fill_passes inst n m = for_range 0 n (\<lambda>r. fill_slices inst r 4) m"

lemma memory_slices: "cache_inst inst \<Longrightarrow> memory_ok m \<Longrightarrow> n \<le> 4 \<Longrightarrow> memory_ok (fill_slices inst r n m)"
  by (induction n) (simp_all add: fill_slices_def memory_fill_part)

lemma memory_passes: "cache_inst inst \<Longrightarrow> memory_ok m \<Longrightarrow> memory_ok (fill_passes inst n m)"
  by (induction n) (simp_all add: fill_passes_def memory_slices)

lemma fill_memory_eq:
  assumes "cache_inst inst" "memory_ok m"
  shows "fill_memory_blocks_st inst m = Some (fill_passes inst 3 m)"
proof -
  let ?call = "\<lambda>r s m. Option.bind m (call_impl (in_impl inst) (Some inst) (position r s))"
  have slices: "for_range 0 n (?call r) (Some m) = Some (fill_slices inst r n m)" if "memory_ok m" "n \<le> 4" for r n m
    using that(2) by (induction n)
      (simp_all add: fill_slices_def call_impl_eq assms(1) memory_slices [unfolded fill_slices_def] that(1))
  have passes: "for_range 0 n (\<lambda>r. for_range 0 4 (?call r)) (Some m) = Some (fill_passes inst n m)" for n
    by (induction n) (simp_all add: fill_passes_def slices memory_passes [unfolded fill_passes_def] assms)
  have n: "unat (in_lanes inst) = 1" "unat (in_passes inst) = 3" "unat ARGON2_SYNC_POINTS = 4"
    using assms(1) by (simp_all add: cache_inst_def ARGON2_SYNC_POINTS_def)
  have one: "for_range 0 1 f x = f 0 x" for f :: "nat \<Rightarrow> 'x \<Rightarrow> 'x" and x by (simp add: for_range_def)
  show ?thesis unfolding fill_memory_blocks_st_def n one using passes [of 3] by (simp add: position_def)
qed

end
