(* ===== verification/Argon2_Facts.thy ===== *)
theory Argon2_Facts
  imports Argon2_Segment
begin

text \<open>
  The memory of the cache is a function of the key: it depends neither on the filler nor on what
  was in the memory before, and no input makes a filler leave the memory. This is what the model
  of \<^verbatim>\<open>initCache\<close> takes for granted of its argument \<open>argon\<close>.
\<close>

section \<open>The initial hash\<close>

lemma update_with_absorbed: "absorbed S0 S d \<Longrightarrow> absorbed S0 (update_with S bs) (d @ bs)"
  using update_absorbed [of S0 S d bs] by (auto simp: update_with_def)

text \<open>The bytes that \<open>update_field\<close> feeds to the hash.\<close>

definition field_bytes :: "u32 \<Rightarrow> u8 list option \<Rightarrow> u8 list" where
  "field_bytes n arr = le32 n @ (case arr of None \<Rightarrow> [] | Some bs \<Rightarrow> take (unat n) bs)"

definition field_ok :: "u32 \<Rightarrow> u8 list option \<Rightarrow> bool" where
  "field_ok n arr \<longleftrightarrow> (case arr of None \<Rightarrow> True | Some bs \<Rightarrow> unat n \<le> length bs)"

lemma update_field_absorbed:
  assumes "absorbed S0 S d" "field_ok n arr"
  obtains S' where "update_field n arr S = Some S'" "absorbed S0 S' (d @ field_bytes n arr)"
proof (cases arr)
  case None
  then show ?thesis using that update_with_absorbed [OF assms(1), of "le32 n"] by (simp add: update_field_def field_bytes_def)
next
  case (Some bs)
  then show ?thesis
    using that assms(2) update_with_absorbed [OF update_with_absorbed [OF assms(1), of "le32 n"], of "take (unat n) bs"]
    by (simp add: update_field_def field_bytes_def field_ok_def)
qed

definition hash_input :: "argon2_context \<Rightarrow> argon2_type \<Rightarrow> u8 list" where
  "hash_input c t = le32 (c_lanes c) @ le32 (c_outlen c) @ le32 (c_m_cost c) @ le32 (c_t_cost c) @ le32 (c_version c) @
     le32 (type_number t) @ field_bytes (c_pwdlen c) (c_pwd c) @ field_bytes (c_saltlen c) (c_salt c) @
     field_bytes (c_secretlen c) (c_secret c) @ field_bytes (c_adlen c) (c_ad c)"

lemma initial_hash_eq:
  assumes "field_ok (c_pwdlen c) (c_pwd c)" "field_ok (c_saltlen c) (c_salt c)"
    "field_ok (c_secretlen c) (c_secret c)" "field_ok (c_adlen c) (c_ad c)"
  shows "rxa2_initial_hash c t = blake2b 64 (hash_input c t) []"
proof -
  define S0 where "S0 = blake2b_init_param (blake2b_param 64 0)"
  have init: "blake2b_init 64 = Some S0"
    by (simp add: blake2b_init_def S0_def blake_sizes argon_sizes)
  define S6 where "S6 = update_with (update_with (update_with (update_with (update_with (update_with S0 (le32 (c_lanes c)))
    (le32 (c_outlen c))) (le32 (c_m_cost c))) (le32 (c_t_cost c))) (le32 (c_version c))) (le32 (type_number t))"
  have start: "absorbed S0 S0 []" unfolding S0_def by (rule init_param_fields)
  let ?d6 = "((((([] @ le32 (c_lanes c)) @ le32 (c_outlen c)) @ le32 (c_m_cost c)) @ le32 (c_t_cost c)) @
      le32 (c_version c)) @ le32 (type_number t)"
  let ?d7 = "?d6 @ field_bytes (c_pwdlen c) (c_pwd c)" let ?d8 = "?d7 @ field_bytes (c_saltlen c) (c_salt c)"
  let ?d9 = "?d8 @ field_bytes (c_secretlen c) (c_secret c)"
  have S6: "absorbed S0 S6 ?d6" unfolding S6_def by (intro update_with_absorbed start)
  obtain S7 where S7: "update_field (c_pwdlen c) (c_pwd c) S6 = Some S7" and a7: "absorbed S0 S7 (?d6 @ field_bytes (c_pwdlen c) (c_pwd c))"
    using update_field_absorbed [OF S6 assms(1)] by blast
  obtain S8 where S8: "update_field (c_saltlen c) (c_salt c) S7 = Some S8" and a8: "absorbed S0 S8 (?d7 @ field_bytes (c_saltlen c) (c_salt c))"
    using update_field_absorbed [OF a7 assms(2)] by blast
  obtain S9 where S9: "update_field (c_secretlen c) (c_secret c) S8 = Some S9" and a9: "absorbed S0 S9 (?d8 @ field_bytes (c_secretlen c) (c_secret c))"
    using update_field_absorbed [OF a8 assms(3)] by blast
  obtain S10 where S10: "update_field (c_adlen c) (c_ad c) S9 = Some S10" and a10: "absorbed S0 S10 (?d9 @ field_bytes (c_adlen c) (c_ad c))"
    using update_field_absorbed [OF a9 assms(4)] by blast
  have "rxa2_initial_hash c t = blake2b_final S10 64"
    unfolding rxa2_initial_hash_def Let_def by (simp add: init S6_def [symmetric] S7 S8 S9 S10 ARGON2_PREHASH_DIGEST_LENGTH_def)
  also have "\<dots> = digest_of S0 (hash_input c t) 64"
    using final_absorbed [OF a10] by (simp add: hash_input_def)
  also have "\<dots> = blake2b 64 (hash_input c t) []"
    using digest_ref [of 64 0 "hash_input c t"] by (simp add: S0_def blake2b_is_ref)
  finally show ?thesis .
qed

lemma cache_fields_ok:
  assumes "unat (ucast n :: u32) \<le> length key"
  defines "c \<equiv> cache_context (Some key) n"
  shows "field_ok (c_pwdlen c) (c_pwd c)" "field_ok (c_saltlen c) (c_salt c)"
    "field_ok (c_secretlen c) (c_secret c)" "field_ok (c_adlen c) (c_ad c)"
  using assms(1) by (simp_all add: c_def cache_context_def field_ok_def ArgonSaltSize_def RANDOMX_ARGON_SALT_def)

text \<open>The context of \<^verbatim>\<open>initCache\<close> passes the validation that the code checks with an assertion.\<close>

theorem cache_context_valid: "randomx_argon2_validate_inputs (Some (cache_context (Some key) n)) = ARGON2_OK"
proof -
  have "unat (ucast n :: u32) \<le> 4294967295"
    using unsigned_less [of "ucast n :: u32", where 'a = nat] by (subst less_Suc_eq_le [symmetric]) simp
  then show ?thesis
    by (simp add: randomx_argon2_validate_inputs_def cache_context_def argon_limits ArgonSaltSize_def RANDOMX_ARGON_SALT_def
      RANDOMX_ARGON_MEMORY_def RANDOMX_ARGON_LANES_def RANDOMX_ARGON_ITERATIONS_def not_less word_le_nat_alt)
qed

section \<open>The first blocks\<close>

lemma first_block_some: "\<exists>b. first_block h k l = Some b \<and> length b = 128"
  using blake2b_long_length [of 1024 "take 64 h @ le32 k @ le32 l"] by (auto simp: first_block_def load_block_def argon_sizes)

lemma initialize_eq:
  assumes "cache_inst inst" "rxa2_initial_hash c (in_type inst) = Some h" "first_block h 0 0 = Some b0" "first_block h 1 0 = Some b1"
    "memory_ok m"
  shows "randomx_argon2_initialize (Some inst) (Some c) m = Some (ARGON2_OK, m[0 := b0, 1 := b1])"
proof -
  have "unat (in_lanes inst) = 1" "in_lane_length inst = 262144" "length m = 262144"
    using assms(1,5) by (simp_all add: cache_inst_def memory_ok_def)
  then show ?thesis using assms(2-4) unfolding rxa2_fill_first_blocks_def for_range_def
    by (auto simp: randomx_argon2_initialize_def rxa2_fill_first_blocks_def for_range_def first_blocks_step_def block_at_def Let_def)
qed

lemma memory_first_blocks: "memory_ok m \<Longrightarrow> length b0 = 128 \<Longrightarrow> length b1 = 128 \<Longrightarrow> memory_ok (m[0 := b0, 1 := b1])"
  by (auto simp: memory_ok_def dest!: set_update_subset_insert [THEN subsetD])

section \<open>The first pass reads only what it has written\<close>

lemma take_update: "k < length m \<Longrightarrow> take (Suc k) (m[k := x]) = take k m @ [x]"
  by (simp add: take_Suc_conv_app_nth)

lemma take_nth_eq: "take k m = take k m' \<Longrightarrow> j < k \<Longrightarrow> m ! j = m' ! j"
  by (metis nth_take)

lemma xor_first_pass: "\<not> xor_needed inst (position 0 s)"
  by (simp add: xor_needed_def position_def)

lemma fill_at_agree:
  assumes "cache_inst inst" "memory_ok m" "memory_ok m'" "s < 4" "i < 65536" "2 \<le> 65536 * s + i"
    "take (65536 * s + i) m = take (65536 * s + i) m'"
  shows "take (Suc (65536 * s + i)) (fill_at inst (position 0 s) (65536 * s + i) i m) =
    take (Suc (65536 * s + i)) (fill_at inst (position 0 s) (65536 * s + i) i m')"
proof -
  let ?k = "65536 * s + i" and ?pos = "position 0 s"
  have k: "?k < length m" "?k < length m'" using assms(2-5) segment_index_less by (simp_all add: memory_ok_def)
  have p: "m ! before ?k = m' ! before ?k"
    by (rule take_nth_eq [OF assms(7)]) (use assms(6) in \<open>auto simp: before_def\<close>)
  have "ref_pos inst ?pos x i + 1 < ?k" for x
    unfolding ref_pos_eq [OF assms(1) position_lane]
    by (rule alpha_first_pass) (use assms in \<open>simp_all add: cache_inst_def position_def\<close>)
  then have "ref_pos inst ?pos x i < ?k" for x using add_lessD1 by blast
  then have r: "m ! ref_pos inst ?pos x i = m' ! ref_pos inst ?pos x i" for x
    by (rule take_nth_eq [OF assms(7)])
  show ?thesis
    unfolding fill_at_def Let_def take_update [OF k(1)] take_update [OF k(2)] p r fill_block_mixed
    using xor_first_pass [of inst s] assms(7) by simp
qed

lemma fill_part_agree:
  assumes "cache_inst inst" "memory_ok m" "memory_ok m'" "s < 4" "first_index (position 0 s) \<le> b" "b \<le> 65536"
    "take (65536 * s + first_index (position 0 s)) m = take (65536 * s + first_index (position 0 s)) m'"
  shows "take (65536 * s + b) (fill_part inst 0 s b m) = take (65536 * s + b) (fill_part inst 0 s b m')"
  using assms(5,6)
proof (induction b rule: dec_induct)
  case base
  then show ?case using assms(7) by (simp add: fill_part_def)
next
  case (step b)
  have "s = 0 \<Longrightarrow> 2 \<le> b" using step.hyps(1) by (simp add: first_index_def position_def)
  then have "2 \<le> 65536 * s + b" by (cases "s = 0") simp_all
  with step assms(1-4) memory_fill_part [of inst _ s b 0]
  have "take (Suc (65536 * s + b)) (fill_at inst (position 0 s) (65536 * s + b) b (fill_part inst 0 s b m)) =
    take (Suc (65536 * s + b)) (fill_at inst (position 0 s) (65536 * s + b) b (fill_part inst 0 s b m'))"
    by (intro fill_at_agree) simp_all
  then show ?case using step.hyps(1) by (simp add: fill_part_Suc)
qed

lemma slices_agree:
  assumes "cache_inst inst" "memory_ok m" "memory_ok m'" "take 2 m = take 2 m'" "n < 4"
  shows "take (65536 * Suc n) (fill_slices inst 0 (Suc n) m) = take (65536 * Suc n) (fill_slices inst 0 (Suc n) m')"
  using assms(5)
proof (induction n)
  case 0
  have "first_index (position 0 0) = 2" by (simp add: first_index_def position_def)
  then show ?case using fill_part_agree [OF assms(1-3), of 0 65536] assms(4)
    by (simp add: fill_slices_def del: add_2_eq_Suc add_2_eq_Suc')
next
  case (Suc n)
  then have n: "n = 0 \<or> n = 1 \<or> n = 2" by auto
  have "first_index (position 0 (Suc n)) = 0" using n by (auto simp: first_index_def position_def)
  moreover have "memory_ok (fill_slices inst 0 (Suc n) m)" "memory_ok (fill_slices inst 0 (Suc n) m')"
    using assms(1-3) Suc.prems by (simp_all add: memory_slices)
  ultimately have "take (65536 * Suc n + 65536) (fill_part inst 0 (Suc n) 65536 (fill_slices inst 0 (Suc n) m)) =
    take (65536 * Suc n + 65536) (fill_part inst 0 (Suc n) 65536 (fill_slices inst 0 (Suc n) m'))"
    using Suc by (intro fill_part_agree) (simp_all add: assms(1))
  then show ?case by (simp add: fill_slices_def add.commute)
qed

lemma passes_agree:
  assumes "cache_inst inst" "memory_ok m" "memory_ok m'" "take 2 m = take 2 m'"
  shows "fill_passes inst 3 m = fill_passes inst 3 m'"
proof -
  have "memory_ok (fill_slices inst 0 4 m)" "memory_ok (fill_slices inst 0 4 m')"
    using assms(1-3) by (simp_all add: memory_slices)
  then have "fill_slices inst 0 4 m = fill_slices inst 0 4 m'"
    using slices_agree [OF assms, of 3] by (simp add: memory_ok_def)
  then show ?thesis by (simp add: fill_passes_def numeral_3_eq_3)
qed

section \<open>The memory of the cache\<close>

lemma fill_at_instance:
  assumes "in_lanes a = in_lanes b" "in_segment_length a = in_segment_length b" "in_lane_length a = in_lane_length b"
    "in_version a = in_version b"
  shows "fill_at a = fill_at b"
proof -
  have "randomx_argon2_index_alpha a = randomx_argon2_index_alpha b" "xor_needed a = xor_needed b"
    by (intro ext, simp only: randomx_argon2_index_alpha_def xor_needed_def assms)+
  then show ?thesis by (intro ext, simp only: fill_at_def ref_pos_def reference_of_def assms)
qed

lemma cache_fill_eq:
  assumes "unat (ucast n :: u32) \<le> length key" "memory_ok m" "memory_ok m'"
  shows "\<exists>c. fill_cache impl (Some key) n m = Some c \<and> fill_cache impl' (Some key) n m' = Some c \<and> memory_ok c"
proof -
  let ?c = "cache_context (Some key) n"
  let ?i = "cache_instance impl ?c" and ?i' = "cache_instance impl' ?c"
  have ok: "cache_inst ?i" "cache_inst ?i'" by (rule cache_instance_ok)+
  have ty: "in_type ?i = Argon2_d" "in_type ?i' = Argon2_d" by (simp_all add: cache_instance_def Let_def)
  obtain h where h: "rxa2_initial_hash ?c Argon2_d = Some h"
    using initial_hash_eq [OF cache_fields_ok [OF assms(1)], of Argon2_d] blake2b_some [of 64] by auto
  obtain b0 b1 where b: "first_block h 0 0 = Some b0" "first_block h 1 0 = Some b1" "length b0 = 128" "length b1 = 128"
    using first_block_some by meson
  define w where "w = m[0 := b0, 1 := b1]"
  define w' where "w' = m'[0 := b0, 1 := b1]"
  have w: "memory_ok w" "memory_ok w'" using assms(2,3) b(3,4) by (simp_all only: w_def w'_def memory_first_blocks)
  have "take 2 w = [b0, b1]" "take 2 w' = [b0, b1]"
    using assms(2,3) by (auto simp: w_def w'_def memory_ok_def list_eq_iff_nth_eq nth_list_update less_Suc_eq numeral_2_eq_2)
  then have two: "take 2 w = take 2 w'" by simp
  have same: "fill_passes ?i' 3 w' = fill_passes ?i 3 w'" for w'
  proof -
    have "in_lanes ?i' = in_lanes ?i" "in_segment_length ?i' = in_segment_length ?i" "in_lane_length ?i' = in_lane_length ?i"
      "in_version ?i' = in_version ?i" by (simp_all add: cache_instance_def Let_def)
    then have "fill_at ?i' = fill_at ?i" by (rule fill_at_instance)
    then show ?thesis by (simp add: fill_passes_def fill_slices_def [abs_def] fill_part_def [abs_def])
  qed
  have lanes: "in_lanes ?i \<noteq> 0" "in_lanes ?i' \<noteq> 0" using ok by (simp_all add: cache_inst_def)
  have "fill_cache impl (Some key) n m = Some (fill_passes ?i 3 w)"
    using initialize_eq [OF ok(1) h [folded ty(1)] b(1,2) assms(2)] fill_memory_eq [OF ok(1) w(1)] lanes
    by (simp add: fill_cache_def Let_def randomx_argon2_fill_memory_blocks_def w_def)
  moreover have "fill_cache impl' (Some key) n m' = Some (fill_passes ?i' 3 w')"
    using initialize_eq [OF ok(2) h [folded ty(2)] b(1,2) assms(3)] fill_memory_eq [OF ok(2) w(2)] lanes
    by (simp add: fill_cache_def Let_def randomx_argon2_fill_memory_blocks_def w'_def)
  ultimately show ?thesis
    using passes_agree [OF ok(1) w two] memory_passes [OF ok(1) w(1), of 3] by (simp add: same)
qed

text \<open>C11: Filling the memory of the cache succeeds for every key, and the 262144 blocks that it leaves
  depend neither on which of the three fillers runs nor on what the memory held before.\<close>

theorem cache_fill_same:
  assumes "unat (ucast n :: u32) \<le> length key"
    "length m = 262144" "\<forall>b \<in> set m. length b = 128" "length m' = 262144" "\<forall>b \<in> set m'. length b = 128"
  shows "\<exists>c. fill_cache impl (Some key) n m = Some c \<and> fill_cache impl' (Some key) n m' = Some c \<and>
    length c = 262144 \<and> (\<forall>b \<in> set c. length b = 128)"
  using cache_fill_eq [of n key m m' impl impl'] assms by (simp add: memory_ok_def)

theorem cache_fill_same_witness:
  "\<exists>c. fill_cache Argon2_avx2 (Some [1, 2, 3]) 3 (replicate 262144 (replicate 128 0)) = Some c \<and>
    fill_cache Argon2_ref (Some [1, 2, 3]) 3 (replicate 262144 (replicate 128 7)) = Some c \<and>
    length c = 262144 \<and> (\<forall>b \<in> set c. length b = 128)"
  by (rule cache_fill_same) simp_all

text \<open>The bytes of the blocks; they are the argument of \<^verbatim>\<open>initCache\<close>.\<close>

definition blocks_mem :: "block list \<Rightarrow> mem" where
  "blocks_mem c a = (if a < 1024 * length c then ucast (drop_bit (8 * (a mod 8)) (c ! (a div 1024) ! (a div 8 mod 128))) else 0)"

definition cache_argon :: "argon2_impl \<Rightarrow> block list \<Rightarrow> u8 list \<Rightarrow> mem" where
  "cache_argon impl m key =
     (case fill_cache impl (Some key) (of_nat (length key)) m of None \<Rightarrow> (\<lambda>_. 0) | Some c \<Rightarrow> blocks_mem c)"

theorem cache_argon_key:
  assumes "memory_ok m" "memory_ok m'" "length key < 2 ^ 64"
  shows "cache_argon impl m key = cache_argon impl' m' key"
proof -
  have "unat (ucast (of_nat (length key) :: u64) :: u32) \<le> length key"
    by (simp add: unsigned_ucast_eq unsigned_of_nat take_bit_nat_less_eq_self)
  from cache_fill_eq [OF this assms(1,2), of impl impl'] show ?thesis by (auto simp: cache_argon_def)
qed

end
