(* ===== verification/Blake2_Simd.thy ===== *)
theory Blake2_Simd
  imports Argon2_Facts
begin

text \<open>
  The vector versions of BLAKE2b: the SSE4.1 compression function (\<^verbatim>\<open>blake2/blake2b_sse41.c\<close>,
  \<^verbatim>\<open>blake2/blake2b-round.h\<close>) and the AVX2 hash of a whole message (\<^verbatim>\<open>blake2/avx2/blake2b_avx2.c\<close>,
  \<^verbatim>\<open>blake2b-common.h\<close>, \<^verbatim>\<open>blake2b-load-avx2.h\<close>). A macro maps the tuple of
  its variables before to the tuple after; the message words and the block are further arguments.
\<close>

section \<open>SSE4.1\<close>

definition blake2b_sigma_sse41 :: "nat list list" where
  "blake2b_sigma_sse41 = [
    [0, 2, 4, 6, 1, 3, 5, 7, 8, 10, 12, 14, 9, 11, 13, 15],
    [14, 4, 9, 13, 10, 8, 15, 6, 1, 0, 11, 5, 12, 2, 7, 3],
    [11, 12, 5, 15, 8, 0, 2, 13, 10, 3, 7, 9, 14, 6, 1, 4],
    [7, 3, 13, 11, 9, 1, 12, 14, 2, 5, 4, 15, 6, 10, 0, 8],
    [9, 5, 2, 10, 0, 7, 4, 15, 14, 11, 6, 3, 1, 12, 8, 13],
    [2, 6, 0, 8, 12, 10, 11, 3, 4, 7, 15, 1, 13, 5, 14, 9],
    [12, 1, 14, 4, 5, 15, 13, 10, 0, 6, 9, 8, 7, 3, 2, 11],
    [13, 7, 12, 3, 11, 14, 1, 9, 5, 15, 8, 2, 0, 4, 6, 10],
    [6, 14, 11, 0, 15, 9, 3, 8, 12, 13, 1, 10, 2, 7, 4, 5],
    [10, 8, 7, 1, 2, 4, 6, 5, 15, 9, 3, 13, 11, 14, 12, 0],
    [0, 2, 4, 6, 1, 3, 5, 7, 8, 10, 12, 14, 9, 11, 13, 15],
    [14, 4, 9, 13, 10, 8, 15, 6, 1, 0, 11, 5, 12, 2, 7, 3]]"

definition sse41_r16 :: "u8 list" where "sse41_r16 = [2, 3, 4, 5, 6, 7, 0, 1, 10, 11, 12, 13, 14, 15, 8, 9]"
definition sse41_r24 :: "u8 list" where "sse41_r24 = [3, 4, 5, 6, 7, 0, 1, 2, 11, 12, 13, 14, 15, 8, 9, 10]"

text \<open>The second argument is given without its sign.\<close>

definition sse41_roti_epi64 :: "m128 \<Rightarrow> nat \<Rightarrow> m128" where
  "sse41_roti_epi64 x c =
    (if c = 32 then mm_shuffle_epi32 x (MM_SHUFFLE 2 3 0 1)
     else if c = 24 then mm_shuffle_epi8 x sse41_r24
     else if c = 16 then mm_shuffle_epi8 x sse41_r16
     else if c = 63 then mm_xor_si128 (mm_srli_epi64 x c) (mm_add_epi64 x x)
     else mm_xor_si128 (mm_srli_epi64 x c) (mm_slli_epi64 x (64 - c)))"

fun sse41_G1 :: "m128 \<times> m128 \<Rightarrow> m128 eight \<Rightarrow> m128 eight" where
  "sse41_G1 (b0, b1) (row1l, row2l, row3l, row4l, row1h, row2h, row3h, row4h) =
    (let row1l = mm_add_epi64 (mm_add_epi64 row1l b0) row2l; row1h = mm_add_epi64 (mm_add_epi64 row1h b1) row2h;
         row4l = mm_xor_si128 row4l row1l; row4h = mm_xor_si128 row4h row1h;
         row4l = sse41_roti_epi64 row4l 32; row4h = sse41_roti_epi64 row4h 32;
         row3l = mm_add_epi64 row3l row4l; row3h = mm_add_epi64 row3h row4h;
         row2l = mm_xor_si128 row2l row3l; row2h = mm_xor_si128 row2h row3h;
         row2l = sse41_roti_epi64 row2l 24; row2h = sse41_roti_epi64 row2h 24
     in (row1l, row2l, row3l, row4l, row1h, row2h, row3h, row4h))"

fun sse41_G2 :: "m128 \<times> m128 \<Rightarrow> m128 eight \<Rightarrow> m128 eight" where
  "sse41_G2 (b0, b1) (row1l, row2l, row3l, row4l, row1h, row2h, row3h, row4h) =
    (let row1l = mm_add_epi64 (mm_add_epi64 row1l b0) row2l; row1h = mm_add_epi64 (mm_add_epi64 row1h b1) row2h;
         row4l = mm_xor_si128 row4l row1l; row4h = mm_xor_si128 row4h row1h;
         row4l = sse41_roti_epi64 row4l 16; row4h = sse41_roti_epi64 row4h 16;
         row3l = mm_add_epi64 row3l row4l; row3h = mm_add_epi64 row3h row4h;
         row2l = mm_xor_si128 row2l row3l; row2h = mm_xor_si128 row2h row3h;
         row2l = sse41_roti_epi64 row2l 63; row2h = sse41_roti_epi64 row2h 63
     in (row1l, row2l, row3l, row4l, row1h, row2h, row3h, row4h))"

fun sse41_DIAGONALIZE :: "m128 eight \<Rightarrow> m128 eight" where
  "sse41_DIAGONALIZE (row1l, row2l, row3l, row4l, row1h, row2h, row3h, row4h) =
    (let t0 = mm_alignr_epi8 row2h row2l 8; t1 = mm_alignr_epi8 row2l row2h 8; row2l = t0; row2h = t1;
         t0 = row3l; row3l = row3h; row3h = t0;
         t0 = mm_alignr_epi8 row4h row4l 8; t1 = mm_alignr_epi8 row4l row4h 8; row4l = t1; row4h = t0
     in (row1l, row2l, row3l, row4l, row1h, row2h, row3h, row4h))"

fun sse41_UNDIAGONALIZE :: "m128 eight \<Rightarrow> m128 eight" where
  "sse41_UNDIAGONALIZE (row1l, row2l, row3l, row4l, row1h, row2h, row3h, row4h) =
    (let t0 = mm_alignr_epi8 row2l row2h 8; t1 = mm_alignr_epi8 row2h row2l 8; row2l = t0; row2h = t1;
         t0 = row3l; row3l = row3h; row3h = t0;
         t0 = mm_alignr_epi8 row4l row4h 8; t1 = mm_alignr_epi8 row4h row4l 8; row4l = t1; row4h = t0
     in (row1l, row2l, row3l, row4l, row1h, row2h, row3h, row4h))"

definition sse41_LOAD_MSG :: "u64 list \<Rightarrow> nat \<Rightarrow> nat \<Rightarrow> m128 \<times> m128" where
  "sse41_LOAD_MSG m r i = (let s = blake2b_sigma_sse41 ! r in
     ((m ! (s ! (i * 4 + 0)), m ! (s ! (i * 4 + 1))), (m ! (s ! (i * 4 + 2)), m ! (s ! (i * 4 + 3)))))"

definition sse41_ROUND :: "u64 list \<Rightarrow> nat \<Rightarrow> m128 eight \<Rightarrow> m128 eight" where
  "sse41_ROUND m r v =
    (let v = sse41_G1 (sse41_LOAD_MSG m r 0) v; v = sse41_G2 (sse41_LOAD_MSG m r 1) v;
         v = sse41_DIAGONALIZE v;
         v = sse41_G1 (sse41_LOAD_MSG m r 2) v; v = sse41_G2 (sse41_LOAD_MSG m r 3) v
     in sse41_UNDIAGONALIZE v)"

text \<open>\<^verbatim>\<open>LOADU(&p[i])\<close> of an array of words.\<close>

definition sse41_LOADU :: "u64 list \<Rightarrow> nat \<Rightarrow> m128" where "sse41_LOADU p i = (p ! i, p ! (i + 1))"

definition sse41_STOREU :: "nat \<Rightarrow> m128 \<Rightarrow> u64 list \<Rightarrow> u64 list" where
  "sse41_STOREU i v p = p[i := fst v, i + 1 := snd v]"

definition rx_blake2b_compress_sse41 :: "blake2b_state \<Rightarrow> u8 list \<Rightarrow> blake2b_state" where
  "rx_blake2b_compress_sse41 S block =
    (let hs = b2_h S;
         row4l = mm_xor_si128 (sse41_LOADU blake2b_IV 4) (b2_t0 S, b2_t1 S);
         row4h = mm_xor_si128 (sse41_LOADU blake2b_IV 6) (b2_f0 S, b2_f1 S);
         m = map (\<lambda>i. load64 (bytes_mem block) (i * 8)) [0..<16]
     in case for_range 0 12 (sse41_ROUND m)
           (sse41_LOADU hs 0, sse41_LOADU hs 4, sse41_LOADU blake2b_IV 0, row4l,
            sse41_LOADU hs 2, sse41_LOADU hs 6, sse41_LOADU blake2b_IV 2, row4h) of
          (row1l, row2l, row3l, row4l, row1h, row2h, row3h, row4h) \<Rightarrow>
            let row1l = mm_xor_si128 row3l row1l; row1h = mm_xor_si128 row3h row1h;
                hs = sse41_STOREU 0 (mm_xor_si128 (sse41_LOADU hs 0) row1l) hs;
                hs = sse41_STOREU 2 (mm_xor_si128 (sse41_LOADU hs 2) row1h) hs;
                row2l = mm_xor_si128 row4l row2l; row2h = mm_xor_si128 row4h row2h;
                hs = sse41_STOREU 4 (mm_xor_si128 (sse41_LOADU hs 4) row2l) hs;
                hs = sse41_STOREU 6 (mm_xor_si128 (sse41_LOADU hs 6) row2h) hs
            in S\<lparr>b2_h := hs\<rparr>)"

section \<open>AVX2: rotations and mixing\<close>

definition mm256_or_si256 :: "m256 \<Rightarrow> m256 \<Rightarrow> m256" where
  "mm256_or_si256 = lanewise (\<lambda>v w. (fst v OR fst w, snd v OR snd w))"

definition ROTATE16 :: "u8 list" where
  "ROTATE16 = [2, 3, 4, 5, 6, 7, 0, 1, 10, 11, 12, 13, 14, 15, 8, 9, 2, 3, 4, 5, 6, 7, 0, 1, 10, 11, 12, 13, 14, 15, 8, 9]"
definition ROTATE24 :: "u8 list" where
  "ROTATE24 = [3, 4, 5, 6, 7, 0, 1, 2, 11, 12, 13, 14, 15, 8, 9, 10, 3, 4, 5, 6, 7, 0, 1, 2, 11, 12, 13, 14, 15, 8, 9, 10]"
definition ROT32 :: "m256 \<Rightarrow> m256" where "ROT32 x = mm256_shuffle_epi32 x (MM_SHUFFLE 2 3 0 1)"
definition ROT24 :: "m256 \<Rightarrow> m256" where "ROT24 x = mm256_shuffle_epi8 x ROTATE24"
definition ROT16 :: "m256 \<Rightarrow> m256" where "ROT16 x = mm256_shuffle_epi8 x ROTATE16"
definition ROT63 :: "m256 \<Rightarrow> m256" where "ROT63 x = mm256_or_si256 (mm256_srli_epi64 x 63) (mm256_add_epi64 x x)"

type_synonym 'a four = "'a \<times> 'a \<times> 'a \<times> 'a"

fun BLAKE2B_G1_V1 :: "m256 \<Rightarrow> m256 four \<Rightarrow> m256 four" where
  "BLAKE2B_G1_V1 m (a, b, c, d) =
    (let a = mm256_add_epi64 a m; a = mm256_add_epi64 a b; d = mm256_xor_si256 d a; d = ROT32 d;
         c = mm256_add_epi64 c d; b = mm256_xor_si256 b c; b = ROT24 b in (a, b, c, d))"

fun BLAKE2B_G2_V1 :: "m256 \<Rightarrow> m256 four \<Rightarrow> m256 four" where
  "BLAKE2B_G2_V1 m (a, b, c, d) =
    (let a = mm256_add_epi64 a m; a = mm256_add_epi64 a b; d = mm256_xor_si256 d a; d = ROT16 d;
         c = mm256_add_epi64 c d; b = mm256_xor_si256 b c; b = ROT63 b in (a, b, c, d))"

fun BLAKE2B_DIAG_V1 :: "m256 four \<Rightarrow> m256 four" where
  "BLAKE2B_DIAG_V1 (a, b, c, d) =
    (mm256_permute4x64_epi64 a (MM_SHUFFLE 2 1 0 3), b,
     mm256_permute4x64_epi64 c (MM_SHUFFLE 0 3 2 1), mm256_permute4x64_epi64 d (MM_SHUFFLE 1 0 3 2))"

fun BLAKE2B_UNDIAG_V1 :: "m256 four \<Rightarrow> m256 four" where
  "BLAKE2B_UNDIAG_V1 (a, b, c, d) =
    (mm256_permute4x64_epi64 a (MM_SHUFFLE 0 3 2 1), b,
     mm256_permute4x64_epi64 c (MM_SHUFFLE 2 1 0 3), mm256_permute4x64_epi64 d (MM_SHUFFLE 1 0 3 2))"

section \<open>AVX2: message words\<close>

text \<open>The variables \<^verbatim>\<open>m0\<close> to \<^verbatim>\<open>m7\<close>.\<close>

definition DECLARE_MESSAGE_WORDS :: "u8 list \<Rightarrow> m256 list" where
  "DECLARE_MESSAGE_WORDS m =
     map (\<lambda>i. mm256_broadcastsi128_si256 (load64 (bytes_mem m) (16 * i), load64 (bytes_mem m) (16 * i + 8))) [0..<8]"

definition BLAKE2B_LOAD_MSG_0_1 :: "m256 list \<Rightarrow> m256" where
  "BLAKE2B_LOAD_MSG_0_1 m = (let t0 = mm256_unpacklo_epi64 (m ! 0) (m ! 1); t1 = mm256_unpacklo_epi64 (m ! 2) (m ! 3) in mm256_blend_epi32 t0 t1 0xF0)"

definition BLAKE2B_LOAD_MSG_0_2 :: "m256 list \<Rightarrow> m256" where
  "BLAKE2B_LOAD_MSG_0_2 m = (let t0 = mm256_unpackhi_epi64 (m ! 0) (m ! 1); t1 = mm256_unpackhi_epi64 (m ! 2) (m ! 3) in mm256_blend_epi32 t0 t1 0xF0)"

definition BLAKE2B_LOAD_MSG_0_3 :: "m256 list \<Rightarrow> m256" where
  "BLAKE2B_LOAD_MSG_0_3 m = (let t0 = mm256_unpacklo_epi64 (m ! 7) (m ! 4); t1 = mm256_unpacklo_epi64 (m ! 5) (m ! 6) in mm256_blend_epi32 t0 t1 0xF0)"

definition BLAKE2B_LOAD_MSG_0_4 :: "m256 list \<Rightarrow> m256" where
  "BLAKE2B_LOAD_MSG_0_4 m = (let t0 = mm256_unpackhi_epi64 (m ! 7) (m ! 4); t1 = mm256_unpackhi_epi64 (m ! 5) (m ! 6) in mm256_blend_epi32 t0 t1 0xF0)"

definition BLAKE2B_LOAD_MSG_1_1 :: "m256 list \<Rightarrow> m256" where
  "BLAKE2B_LOAD_MSG_1_1 m = (let t0 = mm256_unpacklo_epi64 (m ! 7) (m ! 2); t1 = mm256_unpackhi_epi64 (m ! 4) (m ! 6) in mm256_blend_epi32 t0 t1 0xF0)"

definition BLAKE2B_LOAD_MSG_1_2 :: "m256 list \<Rightarrow> m256" where
  "BLAKE2B_LOAD_MSG_1_2 m = (let t0 = mm256_unpacklo_epi64 (m ! 5) (m ! 4); t1 = mm256_alignr_epi8 (m ! 3) (m ! 7) 8 in mm256_blend_epi32 t0 t1 0xF0)"

definition BLAKE2B_LOAD_MSG_1_3 :: "m256 list \<Rightarrow> m256" where
  "BLAKE2B_LOAD_MSG_1_3 m = (let t0 = mm256_unpackhi_epi64 (m ! 2) (m ! 0); t1 = mm256_blend_epi32 (m ! 5) (m ! 0) 0x33 in mm256_blend_epi32 t0 t1 0xF0)"

definition BLAKE2B_LOAD_MSG_1_4 :: "m256 list \<Rightarrow> m256" where
  "BLAKE2B_LOAD_MSG_1_4 m = (let t0 = mm256_alignr_epi8 (m ! 6) (m ! 1) 8; t1 = mm256_blend_epi32 (m ! 3) (m ! 1) 0x33 in mm256_blend_epi32 t0 t1 0xF0)"

definition BLAKE2B_LOAD_MSG_2_1 :: "m256 list \<Rightarrow> m256" where
  "BLAKE2B_LOAD_MSG_2_1 m = (let t0 = mm256_alignr_epi8 (m ! 6) (m ! 5) 8; t1 = mm256_unpackhi_epi64 (m ! 2) (m ! 7) in mm256_blend_epi32 t0 t1 0xF0)"

definition BLAKE2B_LOAD_MSG_2_2 :: "m256 list \<Rightarrow> m256" where
  "BLAKE2B_LOAD_MSG_2_2 m = (let t0 = mm256_unpacklo_epi64 (m ! 4) (m ! 0); t1 = mm256_blend_epi32 (m ! 6) (m ! 1) 0x33 in mm256_blend_epi32 t0 t1 0xF0)"

definition BLAKE2B_LOAD_MSG_2_3 :: "m256 list \<Rightarrow> m256" where
  "BLAKE2B_LOAD_MSG_2_3 m = (let t0 = mm256_alignr_epi8 (m ! 5) (m ! 4) 8; t1 = mm256_unpackhi_epi64 (m ! 1) (m ! 3) in mm256_blend_epi32 t0 t1 0xF0)"

definition BLAKE2B_LOAD_MSG_2_4 :: "m256 list \<Rightarrow> m256" where
  "BLAKE2B_LOAD_MSG_2_4 m = (let t0 = mm256_unpacklo_epi64 (m ! 2) (m ! 7); t1 = mm256_blend_epi32 (m ! 0) (m ! 3) 0x33 in mm256_blend_epi32 t0 t1 0xF0)"

definition BLAKE2B_LOAD_MSG_3_1 :: "m256 list \<Rightarrow> m256" where
  "BLAKE2B_LOAD_MSG_3_1 m = (let t0 = mm256_unpackhi_epi64 (m ! 3) (m ! 1); t1 = mm256_unpackhi_epi64 (m ! 6) (m ! 5) in mm256_blend_epi32 t0 t1 0xF0)"

definition BLAKE2B_LOAD_MSG_3_2 :: "m256 list \<Rightarrow> m256" where
  "BLAKE2B_LOAD_MSG_3_2 m = (let t0 = mm256_unpackhi_epi64 (m ! 4) (m ! 0); t1 = mm256_unpacklo_epi64 (m ! 6) (m ! 7) in mm256_blend_epi32 t0 t1 0xF0)"

definition BLAKE2B_LOAD_MSG_3_3 :: "m256 list \<Rightarrow> m256" where
  "BLAKE2B_LOAD_MSG_3_3 m = (let t0 = mm256_alignr_epi8 (m ! 1) (m ! 7) 8; t1 = mm256_shuffle_epi32 (m ! 2) (MM_SHUFFLE 1 0 3 2) in mm256_blend_epi32 t0 t1 0xF0)"

definition BLAKE2B_LOAD_MSG_3_4 :: "m256 list \<Rightarrow> m256" where
  "BLAKE2B_LOAD_MSG_3_4 m = (let t0 = mm256_unpacklo_epi64 (m ! 4) (m ! 3); t1 = mm256_unpacklo_epi64 (m ! 5) (m ! 0) in mm256_blend_epi32 t0 t1 0xF0)"

definition BLAKE2B_LOAD_MSG_4_1 :: "m256 list \<Rightarrow> m256" where
  "BLAKE2B_LOAD_MSG_4_1 m = (let t0 = mm256_unpackhi_epi64 (m ! 4) (m ! 2); t1 = mm256_unpacklo_epi64 (m ! 1) (m ! 5) in mm256_blend_epi32 t0 t1 0xF0)"

definition BLAKE2B_LOAD_MSG_4_2 :: "m256 list \<Rightarrow> m256" where
  "BLAKE2B_LOAD_MSG_4_2 m = (let t0 = mm256_blend_epi32 (m ! 3) (m ! 0) 0x33; t1 = mm256_blend_epi32 (m ! 7) (m ! 2) 0x33 in mm256_blend_epi32 t0 t1 0xF0)"

definition BLAKE2B_LOAD_MSG_4_3 :: "m256 list \<Rightarrow> m256" where
  "BLAKE2B_LOAD_MSG_4_3 m = (let t0 = mm256_alignr_epi8 (m ! 7) (m ! 1) 8; t1 = mm256_alignr_epi8 (m ! 3) (m ! 5) 8 in mm256_blend_epi32 t0 t1 0xF0)"

definition BLAKE2B_LOAD_MSG_4_4 :: "m256 list \<Rightarrow> m256" where
  "BLAKE2B_LOAD_MSG_4_4 m = (let t0 = mm256_unpackhi_epi64 (m ! 6) (m ! 0); t1 = mm256_unpacklo_epi64 (m ! 6) (m ! 4) in mm256_blend_epi32 t0 t1 0xF0)"

definition BLAKE2B_LOAD_MSG_5_1 :: "m256 list \<Rightarrow> m256" where
  "BLAKE2B_LOAD_MSG_5_1 m = (let t0 = mm256_unpacklo_epi64 (m ! 1) (m ! 3); t1 = mm256_unpacklo_epi64 (m ! 0) (m ! 4) in mm256_blend_epi32 t0 t1 0xF0)"

definition BLAKE2B_LOAD_MSG_5_2 :: "m256 list \<Rightarrow> m256" where
  "BLAKE2B_LOAD_MSG_5_2 m = (let t0 = mm256_unpacklo_epi64 (m ! 6) (m ! 5); t1 = mm256_unpackhi_epi64 (m ! 5) (m ! 1) in mm256_blend_epi32 t0 t1 0xF0)"

definition BLAKE2B_LOAD_MSG_5_3 :: "m256 list \<Rightarrow> m256" where
  "BLAKE2B_LOAD_MSG_5_3 m = (let t0 = mm256_alignr_epi8 (m ! 2) (m ! 0) 8; t1 = mm256_unpackhi_epi64 (m ! 3) (m ! 7) in mm256_blend_epi32 t0 t1 0xF0)"

definition BLAKE2B_LOAD_MSG_5_4 :: "m256 list \<Rightarrow> m256" where
  "BLAKE2B_LOAD_MSG_5_4 m = (let t0 = mm256_unpackhi_epi64 (m ! 4) (m ! 6); t1 = mm256_alignr_epi8 (m ! 7) (m ! 2) 8 in mm256_blend_epi32 t0 t1 0xF0)"

definition BLAKE2B_LOAD_MSG_6_1 :: "m256 list \<Rightarrow> m256" where
  "BLAKE2B_LOAD_MSG_6_1 m = (let t0 = mm256_blend_epi32 (m ! 0) (m ! 6) 0x33; t1 = mm256_unpacklo_epi64 (m ! 7) (m ! 2) in mm256_blend_epi32 t0 t1 0xF0)"

definition BLAKE2B_LOAD_MSG_6_2 :: "m256 list \<Rightarrow> m256" where
  "BLAKE2B_LOAD_MSG_6_2 m = (let t0 = mm256_unpackhi_epi64 (m ! 2) (m ! 7); t1 = mm256_alignr_epi8 (m ! 5) (m ! 6) 8 in mm256_blend_epi32 t0 t1 0xF0)"

definition BLAKE2B_LOAD_MSG_6_3 :: "m256 list \<Rightarrow> m256" where
  "BLAKE2B_LOAD_MSG_6_3 m = (let t0 = mm256_unpacklo_epi64 (m ! 4) (m ! 0); t1 = mm256_blend_epi32 (m ! 4) (m ! 3) 0x33 in mm256_blend_epi32 t0 t1 0xF0)"

definition BLAKE2B_LOAD_MSG_6_4 :: "m256 list \<Rightarrow> m256" where
  "BLAKE2B_LOAD_MSG_6_4 m = (let t0 = mm256_unpackhi_epi64 (m ! 5) (m ! 3); t1 = mm256_shuffle_epi32 (m ! 1) (MM_SHUFFLE 1 0 3 2) in mm256_blend_epi32 t0 t1 0xF0)"

definition BLAKE2B_LOAD_MSG_7_1 :: "m256 list \<Rightarrow> m256" where
  "BLAKE2B_LOAD_MSG_7_1 m = (let t0 = mm256_unpackhi_epi64 (m ! 6) (m ! 3); t1 = mm256_blend_epi32 (m ! 1) (m ! 6) 0x33 in mm256_blend_epi32 t0 t1 0xF0)"

definition BLAKE2B_LOAD_MSG_7_2 :: "m256 list \<Rightarrow> m256" where
  "BLAKE2B_LOAD_MSG_7_2 m = (let t0 = mm256_alignr_epi8 (m ! 7) (m ! 5) 8; t1 = mm256_unpackhi_epi64 (m ! 0) (m ! 4) in mm256_blend_epi32 t0 t1 0xF0)"

definition BLAKE2B_LOAD_MSG_7_3 :: "m256 list \<Rightarrow> m256" where
  "BLAKE2B_LOAD_MSG_7_3 m = (let t0 = mm256_blend_epi32 (m ! 2) (m ! 1) 0x33; t1 = mm256_alignr_epi8 (m ! 4) (m ! 7) 8 in mm256_blend_epi32 t0 t1 0xF0)"

definition BLAKE2B_LOAD_MSG_7_4 :: "m256 list \<Rightarrow> m256" where
  "BLAKE2B_LOAD_MSG_7_4 m = (let t0 = mm256_unpacklo_epi64 (m ! 5) (m ! 0); t1 = mm256_unpacklo_epi64 (m ! 2) (m ! 3) in mm256_blend_epi32 t0 t1 0xF0)"

definition BLAKE2B_LOAD_MSG_8_1 :: "m256 list \<Rightarrow> m256" where
  "BLAKE2B_LOAD_MSG_8_1 m = (let t0 = mm256_unpacklo_epi64 (m ! 3) (m ! 7); t1 = mm256_alignr_epi8 (m ! 0) (m ! 5) 8 in mm256_blend_epi32 t0 t1 0xF0)"

definition BLAKE2B_LOAD_MSG_8_2 :: "m256 list \<Rightarrow> m256" where
  "BLAKE2B_LOAD_MSG_8_2 m = (let t0 = mm256_unpackhi_epi64 (m ! 7) (m ! 4); t1 = mm256_alignr_epi8 (m ! 4) (m ! 1) 8 in mm256_blend_epi32 t0 t1 0xF0)"

definition BLAKE2B_LOAD_MSG_8_3 :: "m256 list \<Rightarrow> m256" where
  "BLAKE2B_LOAD_MSG_8_3 m = (let t0 = mm256_unpacklo_epi64 (m ! 5) (m ! 6); t1 = mm256_unpackhi_epi64 (m ! 6) (m ! 0) in mm256_blend_epi32 t0 t1 0xF0)"

definition BLAKE2B_LOAD_MSG_8_4 :: "m256 list \<Rightarrow> m256" where
  "BLAKE2B_LOAD_MSG_8_4 m = (let t0 = mm256_alignr_epi8 (m ! 1) (m ! 2) 8; t1 = mm256_alignr_epi8 (m ! 2) (m ! 3) 8 in mm256_blend_epi32 t0 t1 0xF0)"

definition BLAKE2B_LOAD_MSG_9_1 :: "m256 list \<Rightarrow> m256" where
  "BLAKE2B_LOAD_MSG_9_1 m = (let t0 = mm256_unpacklo_epi64 (m ! 5) (m ! 4); t1 = mm256_unpackhi_epi64 (m ! 3) (m ! 0) in mm256_blend_epi32 t0 t1 0xF0)"

definition BLAKE2B_LOAD_MSG_9_2 :: "m256 list \<Rightarrow> m256" where
  "BLAKE2B_LOAD_MSG_9_2 m = (let t0 = mm256_unpacklo_epi64 (m ! 1) (m ! 2); t1 = mm256_blend_epi32 (m ! 2) (m ! 3) 0x33 in mm256_blend_epi32 t0 t1 0xF0)"

definition BLAKE2B_LOAD_MSG_9_3 :: "m256 list \<Rightarrow> m256" where
  "BLAKE2B_LOAD_MSG_9_3 m = (let t0 = mm256_unpackhi_epi64 (m ! 6) (m ! 7); t1 = mm256_unpackhi_epi64 (m ! 4) (m ! 1) in mm256_blend_epi32 t0 t1 0xF0)"

definition BLAKE2B_LOAD_MSG_9_4 :: "m256 list \<Rightarrow> m256" where
  "BLAKE2B_LOAD_MSG_9_4 m = (let t0 = mm256_blend_epi32 (m ! 5) (m ! 0) 0x33; t1 = mm256_unpacklo_epi64 (m ! 7) (m ! 6) in mm256_blend_epi32 t0 t1 0xF0)"

definition BLAKE2B_LOAD_MSG_10_1 :: "m256 list \<Rightarrow> m256" where
  "BLAKE2B_LOAD_MSG_10_1 m = (let t0 = mm256_unpacklo_epi64 (m ! 0) (m ! 1); t1 = mm256_unpacklo_epi64 (m ! 2) (m ! 3) in mm256_blend_epi32 t0 t1 0xF0)"

definition BLAKE2B_LOAD_MSG_10_2 :: "m256 list \<Rightarrow> m256" where
  "BLAKE2B_LOAD_MSG_10_2 m = (let t0 = mm256_unpackhi_epi64 (m ! 0) (m ! 1); t1 = mm256_unpackhi_epi64 (m ! 2) (m ! 3) in mm256_blend_epi32 t0 t1 0xF0)"

definition BLAKE2B_LOAD_MSG_10_3 :: "m256 list \<Rightarrow> m256" where
  "BLAKE2B_LOAD_MSG_10_3 m = (let t0 = mm256_unpacklo_epi64 (m ! 7) (m ! 4); t1 = mm256_unpacklo_epi64 (m ! 5) (m ! 6) in mm256_blend_epi32 t0 t1 0xF0)"

definition BLAKE2B_LOAD_MSG_10_4 :: "m256 list \<Rightarrow> m256" where
  "BLAKE2B_LOAD_MSG_10_4 m = (let t0 = mm256_unpackhi_epi64 (m ! 7) (m ! 4); t1 = mm256_unpackhi_epi64 (m ! 5) (m ! 6) in mm256_blend_epi32 t0 t1 0xF0)"

definition BLAKE2B_LOAD_MSG_11_1 :: "m256 list \<Rightarrow> m256" where
  "BLAKE2B_LOAD_MSG_11_1 m = (let t0 = mm256_unpacklo_epi64 (m ! 7) (m ! 2); t1 = mm256_unpackhi_epi64 (m ! 4) (m ! 6) in mm256_blend_epi32 t0 t1 0xF0)"

definition BLAKE2B_LOAD_MSG_11_2 :: "m256 list \<Rightarrow> m256" where
  "BLAKE2B_LOAD_MSG_11_2 m = (let t0 = mm256_unpacklo_epi64 (m ! 5) (m ! 4); t1 = mm256_alignr_epi8 (m ! 3) (m ! 7) 8 in mm256_blend_epi32 t0 t1 0xF0)"

definition BLAKE2B_LOAD_MSG_11_3 :: "m256 list \<Rightarrow> m256" where
  "BLAKE2B_LOAD_MSG_11_3 m = (let t0 = mm256_unpackhi_epi64 (m ! 2) (m ! 0); t1 = mm256_blend_epi32 (m ! 5) (m ! 0) 0x33 in mm256_blend_epi32 t0 t1 0xF0)"

definition BLAKE2B_LOAD_MSG_11_4 :: "m256 list \<Rightarrow> m256" where
  "BLAKE2B_LOAD_MSG_11_4 m = (let t0 = mm256_alignr_epi8 (m ! 6) (m ! 1) 8; t1 = mm256_blend_epi32 (m ! 3) (m ! 1) 0x33 in mm256_blend_epi32 t0 t1 0xF0)"

text \<open>The four loads of a round; the macro pastes the number of the round into their names.\<close>

definition BLAKE2B_LOAD_MSG :: "nat \<Rightarrow> (m256 list \<Rightarrow> m256) list" where
  "BLAKE2B_LOAD_MSG r = [
    [BLAKE2B_LOAD_MSG_0_1, BLAKE2B_LOAD_MSG_0_2, BLAKE2B_LOAD_MSG_0_3, BLAKE2B_LOAD_MSG_0_4],
    [BLAKE2B_LOAD_MSG_1_1, BLAKE2B_LOAD_MSG_1_2, BLAKE2B_LOAD_MSG_1_3, BLAKE2B_LOAD_MSG_1_4],
    [BLAKE2B_LOAD_MSG_2_1, BLAKE2B_LOAD_MSG_2_2, BLAKE2B_LOAD_MSG_2_3, BLAKE2B_LOAD_MSG_2_4],
    [BLAKE2B_LOAD_MSG_3_1, BLAKE2B_LOAD_MSG_3_2, BLAKE2B_LOAD_MSG_3_3, BLAKE2B_LOAD_MSG_3_4],
    [BLAKE2B_LOAD_MSG_4_1, BLAKE2B_LOAD_MSG_4_2, BLAKE2B_LOAD_MSG_4_3, BLAKE2B_LOAD_MSG_4_4],
    [BLAKE2B_LOAD_MSG_5_1, BLAKE2B_LOAD_MSG_5_2, BLAKE2B_LOAD_MSG_5_3, BLAKE2B_LOAD_MSG_5_4],
    [BLAKE2B_LOAD_MSG_6_1, BLAKE2B_LOAD_MSG_6_2, BLAKE2B_LOAD_MSG_6_3, BLAKE2B_LOAD_MSG_6_4],
    [BLAKE2B_LOAD_MSG_7_1, BLAKE2B_LOAD_MSG_7_2, BLAKE2B_LOAD_MSG_7_3, BLAKE2B_LOAD_MSG_7_4],
    [BLAKE2B_LOAD_MSG_8_1, BLAKE2B_LOAD_MSG_8_2, BLAKE2B_LOAD_MSG_8_3, BLAKE2B_LOAD_MSG_8_4],
    [BLAKE2B_LOAD_MSG_9_1, BLAKE2B_LOAD_MSG_9_2, BLAKE2B_LOAD_MSG_9_3, BLAKE2B_LOAD_MSG_9_4],
    [BLAKE2B_LOAD_MSG_10_1, BLAKE2B_LOAD_MSG_10_2, BLAKE2B_LOAD_MSG_10_3, BLAKE2B_LOAD_MSG_10_4],
    [BLAKE2B_LOAD_MSG_11_1, BLAKE2B_LOAD_MSG_11_2, BLAKE2B_LOAD_MSG_11_3, BLAKE2B_LOAD_MSG_11_4]] ! r"

lemmas load_msg_defs = BLAKE2B_LOAD_MSG_0_1_def BLAKE2B_LOAD_MSG_0_2_def BLAKE2B_LOAD_MSG_0_3_def BLAKE2B_LOAD_MSG_0_4_def BLAKE2B_LOAD_MSG_1_1_def BLAKE2B_LOAD_MSG_1_2_def BLAKE2B_LOAD_MSG_1_3_def BLAKE2B_LOAD_MSG_1_4_def BLAKE2B_LOAD_MSG_2_1_def BLAKE2B_LOAD_MSG_2_2_def BLAKE2B_LOAD_MSG_2_3_def BLAKE2B_LOAD_MSG_2_4_def BLAKE2B_LOAD_MSG_3_1_def BLAKE2B_LOAD_MSG_3_2_def BLAKE2B_LOAD_MSG_3_3_def BLAKE2B_LOAD_MSG_3_4_def BLAKE2B_LOAD_MSG_4_1_def BLAKE2B_LOAD_MSG_4_2_def BLAKE2B_LOAD_MSG_4_3_def BLAKE2B_LOAD_MSG_4_4_def BLAKE2B_LOAD_MSG_5_1_def BLAKE2B_LOAD_MSG_5_2_def BLAKE2B_LOAD_MSG_5_3_def BLAKE2B_LOAD_MSG_5_4_def BLAKE2B_LOAD_MSG_6_1_def BLAKE2B_LOAD_MSG_6_2_def BLAKE2B_LOAD_MSG_6_3_def BLAKE2B_LOAD_MSG_6_4_def BLAKE2B_LOAD_MSG_7_1_def BLAKE2B_LOAD_MSG_7_2_def BLAKE2B_LOAD_MSG_7_3_def BLAKE2B_LOAD_MSG_7_4_def BLAKE2B_LOAD_MSG_8_1_def BLAKE2B_LOAD_MSG_8_2_def BLAKE2B_LOAD_MSG_8_3_def BLAKE2B_LOAD_MSG_8_4_def BLAKE2B_LOAD_MSG_9_1_def BLAKE2B_LOAD_MSG_9_2_def BLAKE2B_LOAD_MSG_9_3_def BLAKE2B_LOAD_MSG_9_4_def BLAKE2B_LOAD_MSG_10_1_def BLAKE2B_LOAD_MSG_10_2_def BLAKE2B_LOAD_MSG_10_3_def BLAKE2B_LOAD_MSG_10_4_def BLAKE2B_LOAD_MSG_11_1_def BLAKE2B_LOAD_MSG_11_2_def BLAKE2B_LOAD_MSG_11_3_def BLAKE2B_LOAD_MSG_11_4_def BLAKE2B_LOAD_MSG_def

section \<open>AVX2: the hash\<close>

definition BLAKE2B_ROUND_V1 :: "m256 list \<Rightarrow> nat \<Rightarrow> m256 four \<Rightarrow> m256 four" where
  "BLAKE2B_ROUND_V1 m r v =
    (let l = BLAKE2B_LOAD_MSG r;
         v = BLAKE2B_G1_V1 ((l ! 0) m) v; v = BLAKE2B_G2_V1 ((l ! 1) m) v;
         v = BLAKE2B_DIAG_V1 v;
         v = BLAKE2B_G1_V1 ((l ! 2) m) v; v = BLAKE2B_G2_V1 ((l ! 3) m) v
     in BLAKE2B_UNDIAG_V1 v)"

definition BLAKE2B_ROUNDS_V1 :: "m256 list \<Rightarrow> m256 four \<Rightarrow> m256 four" where
  "BLAKE2B_ROUNDS_V1 m v = fold (BLAKE2B_ROUND_V1 m) [0, 1, 2, 3, 4, 5, 6, 7, 8, 9, 10, 11] v"

text \<open>Four words of an array, as the register that holds them.\<close>

definition load4 :: "u64 list \<Rightarrow> nat \<Rightarrow> m256" where
  "load4 p i = ((p ! i, p ! (i + 1)), (p ! (i + 2), p ! (i + 3)))"

definition BLAKE2B_COMPRESS_V1 :: "u8 list \<Rightarrow> u64 \<Rightarrow> u64 \<Rightarrow> u64 \<Rightarrow> u64 \<Rightarrow> m256 \<times> m256 \<Rightarrow> m256 \<times> m256" where
  "BLAKE2B_COMPRESS_V1 m t0 t1 f0 f1 s =
    (case s of (a, b) \<Rightarrow>
      let iv0 = a; iv1 = b; c = load4 blake2b_IV 0;
          d = mm256_xor_si256 (load4 blake2b_IV 4) (mm256_set_epi64x f1 f0 t1 t0)
      in case BLAKE2B_ROUNDS_V1 (DECLARE_MESSAGE_WORDS m) (a, b, c, d) of
           (a, b, c, d) \<Rightarrow>
             let a = mm256_xor_si256 a c; b = mm256_xor_si256 b d;
                 a = mm256_xor_si256 a iv0; b = mm256_xor_si256 b iv1 in (a, b))"

text \<open>The loop; its body runs once before the length is looked at.\<close>

function blake2b_avx2_loop :: "u64 \<Rightarrow> u8 list \<Rightarrow> m256 \<times> m256 \<Rightarrow> m256 \<times> m256" where
  "blake2b_avx2_loop counter inp s =
    (let flag = (if length inp \<le> BLAKE2B_BLOCKBYTES then -1 else 0);
         (block_size, block) =
           (if length inp < BLAKE2B_BLOCKBYTES
            then (length inp, inp @ replicate (BLAKE2B_BLOCKBYTES - length inp) 0)
            else (BLAKE2B_BLOCKBYTES, take BLAKE2B_BLOCKBYTES inp));
         counter = counter + of_nat block_size;
         s = BLAKE2B_COMPRESS_V1 block counter 0 flag 0 s;
         inp = drop block_size inp
     in if inp = [] then s else blake2b_avx2_loop counter inp s)"
  by pat_completeness auto
termination by (relation "measure (\<lambda>(_, inp, _). length inp)") (auto simp: BLAKE2B_BLOCKBYTES_def split: if_splits)

declare blake2b_avx2_loop.simps [simp del]

definition m256_bytes :: "m256 \<Rightarrow> u8 list" where
  "m256_bytes v = m128_bytes (fst v) @ m128_bytes (snd v)"

text \<open>The \<^verbatim>\<open>outlen\<close> bytes that are written; the result code is always 0.\<close>

definition blake2b_avx2 :: "nat \<Rightarrow> u8 list \<Rightarrow> u8 list" where
  "blake2b_avx2 outlen inp =
    (let parameter_block = mm256_set_epi64x 0 0 0 (0x01010000 OR ucast (of_nat outlen :: u32));
         a = mm256_xor_si256 (load4 blake2b_IV 0) parameter_block; b = load4 blake2b_IV 4
     in case blake2b_avx2_loop 0 inp (a, b) of
          (a, b) \<Rightarrow> if outlen = 64 then m256_bytes a @ m256_bytes b
                    else if outlen = 32 then m256_bytes a
                    else take outlen (m256_bytes a @ m256_bytes b))"

section \<open>Dispatch\<close>

text \<open>\<^verbatim>\<open>blake2b\<close> with the functions that \<open>SelectBlake2Impl\<close> has chosen: the one-shot function
  takes the messages without key, for output lengths that are allowed.\<close>

definition blake2b_simd :: "bool \<Rightarrow> nat \<Rightarrow> u8 list \<Rightarrow> u8 list \<Rightarrow> u8 list option" where
  "blake2b_simd have_simd n inp key =
    (if have_simd \<and> key = [] \<and> n > 0 \<and> n \<le> BLAKE2B_OUTBYTES then Some (blake2b_avx2 n inp)
     else blake2b n inp key)"

end
