(* ===== verification/Blake2_Simd_Facts.thy ===== *)
theory Blake2_Simd_Facts
  imports Blake2_Simd
begin

text \<open>
  The vector versions of BLAKE2b compute what the integer version computes: the SSE4.1
  compression function on every state and block, the AVX2 hash on every message. The words of a
  round go to the lanes of the registers; the message tables agree with \<^verbatim>\<open>blake2b_sigma\<close>
  up to this placement.
\<close>

section \<open>The mixing function\<close>

definition bA :: "u64 \<Rightarrow> u64 \<Rightarrow> u64 \<Rightarrow> u64 \<Rightarrow> u64 \<Rightarrow> u64 \<Rightarrow> u64" where
  "bA x y a b c d = (let a = a + b + x; d = rotr64 (d XOR a) 32; c = c + d; b = rotr64 (b XOR c) 24 in a + b + y)"
definition bD :: "u64 \<Rightarrow> u64 \<Rightarrow> u64 \<Rightarrow> u64 \<Rightarrow> u64 \<Rightarrow> u64 \<Rightarrow> u64" where
  "bD x y a b c d = rotr64 (rotr64 (d XOR (a + b + x)) 32 XOR bA x y a b c d) 16"
definition bC :: "u64 \<Rightarrow> u64 \<Rightarrow> u64 \<Rightarrow> u64 \<Rightarrow> u64 \<Rightarrow> u64 \<Rightarrow> u64" where
  "bC x y a b c d = c + rotr64 (d XOR (a + b + x)) 32 + bD x y a b c d"
definition bB :: "u64 \<Rightarrow> u64 \<Rightarrow> u64 \<Rightarrow> u64 \<Rightarrow> u64 \<Rightarrow> u64 \<Rightarrow> u64" where
  "bB x y a b c d = rotr64 (rotr64 (b XOR (c + rotr64 (d XOR (a + b + x)) 32)) 24 XOR bC x y a b c d) 63"

lemmas b_defs = bB_def bC_def bD_def bA_def Let_def

lemma blake_G_parts:
  assumes "distinct [i, j, k, l]" "i < length v" "j < length v" "k < length v" "l < length v"
  shows "blake_G m r q i j k l v = (let s = blake2b_sigma ! r; x = m ! (s ! (2 * q)); y = m ! (s ! (2 * q + 1)) in
    v[i := bA x y (v ! i) (v ! j) (v ! k) (v ! l), j := bB x y (v ! i) (v ! j) (v ! k) (v ! l),
      k := bC x y (v ! i) (v ! j) (v ! k) (v ! l), l := bD x y (v ! i) (v ! j) (v ! k) (v ! l)])"
  using assms by (intro nth_equalityI) (auto simp: blake_G_def b_defs nth_list_update)

text \<open>The message words of a round, in the order of the reference version.\<close>

abbreviation msg :: "u64 list \<Rightarrow> nat \<Rightarrow> nat \<Rightarrow> u64" where "msg m r i \<equiv> m ! (blake2b_sigma ! r ! i)"

lemma round_parts:
  "blake_ROUND m r [v0, v1, v2, v3, v4, v5, v6, v7, v8, v9, v10, v11, v12, v13, v14, v15] =
    (let a0 = bA (msg m r 0) (msg m r 1) v0 v4 v8 v12; b0 = bB (msg m r 0) (msg m r 1) v0 v4 v8 v12;
         c0 = bC (msg m r 0) (msg m r 1) v0 v4 v8 v12; d0 = bD (msg m r 0) (msg m r 1) v0 v4 v8 v12;
         a1 = bA (msg m r 2) (msg m r 3) v1 v5 v9 v13; b1 = bB (msg m r 2) (msg m r 3) v1 v5 v9 v13;
         c1 = bC (msg m r 2) (msg m r 3) v1 v5 v9 v13; d1 = bD (msg m r 2) (msg m r 3) v1 v5 v9 v13;
         a2 = bA (msg m r 4) (msg m r 5) v2 v6 v10 v14; b2 = bB (msg m r 4) (msg m r 5) v2 v6 v10 v14;
         c2 = bC (msg m r 4) (msg m r 5) v2 v6 v10 v14; d2 = bD (msg m r 4) (msg m r 5) v2 v6 v10 v14;
         a3 = bA (msg m r 6) (msg m r 7) v3 v7 v11 v15; b3 = bB (msg m r 6) (msg m r 7) v3 v7 v11 v15;
         c3 = bC (msg m r 6) (msg m r 7) v3 v7 v11 v15; d3 = bD (msg m r 6) (msg m r 7) v3 v7 v11 v15
     in [bA (msg m r 8) (msg m r 9) a0 b1 c2 d3, bA (msg m r 10) (msg m r 11) a1 b2 c3 d0,
         bA (msg m r 12) (msg m r 13) a2 b3 c0 d1, bA (msg m r 14) (msg m r 15) a3 b0 c1 d2,
         bB (msg m r 14) (msg m r 15) a3 b0 c1 d2, bB (msg m r 8) (msg m r 9) a0 b1 c2 d3,
         bB (msg m r 10) (msg m r 11) a1 b2 c3 d0, bB (msg m r 12) (msg m r 13) a2 b3 c0 d1,
         bC (msg m r 12) (msg m r 13) a2 b3 c0 d1, bC (msg m r 14) (msg m r 15) a3 b0 c1 d2,
         bC (msg m r 8) (msg m r 9) a0 b1 c2 d3, bC (msg m r 10) (msg m r 11) a1 b2 c3 d0,
         bD (msg m r 10) (msg m r 11) a1 b2 c3 d0, bD (msg m r 12) (msg m r 13) a2 b3 c0 d1,
         bD (msg m r 14) (msg m r 15) a3 b0 c1 d2, bD (msg m r 8) (msg m r 9) a0 b1 c2 d3])"
  by (simp add: blake_ROUND_def Let_def blake_G_parts)

section \<open>SSE4.1\<close>

lemma sse41_roti: "sse41_roti_epi64 = mm_roti_epi64"
  by (simp add: fun_eq_iff sse41_roti_epi64_def mm_roti_epi64_def sse41_r16_def sse41_r24_def r16_def r24_def)

lemma mm_add_simp [simd]: "mm_add_epi64 (a, b) (c, d) = (a + c, b + d)"
  by (simp add: mm_add_epi64_def)

lemma add_swap: "(a :: u64) + x + b = a + b + x"
  by (simp add: ac_simps)

lemma sse41_mix:
  "sse41_G2 ((y0, y1), (y2, y3)) (sse41_G1 ((x0, x1), (x2, x3))
      ((a0, a1), (b0, b1), (c0, c1), (d0, d1), (a2, a3), (b2, b3), (c2, c3), (d2, d3))) =
    ((bA x0 y0 a0 b0 c0 d0, bA x1 y1 a1 b1 c1 d1), (bB x0 y0 a0 b0 c0 d0, bB x1 y1 a1 b1 c1 d1),
     (bC x0 y0 a0 b0 c0 d0, bC x1 y1 a1 b1 c1 d1), (bD x0 y0 a0 b0 c0 d0, bD x1 y1 a1 b1 c1 d1),
     (bA x2 y2 a2 b2 c2 d2, bA x3 y3 a3 b3 c3 d3), (bB x2 y2 a2 b2 c2 d2, bB x3 y3 a3 b3 c3 d3),
     (bC x2 y2 a2 b2 c2 d2, bC x3 y3 a3 b3 c3 d3), (bD x2 y2 a2 b2 c2 d2, bD x3 y3 a3 b3 c3 d3))"
  by (simp add: b_defs sse41_roti simd add_swap)

lemma sse41_sigma:
  assumes "r < 12"
  shows "blake2b_sigma_sse41 ! r = map (\<lambda>i. blake2b_sigma ! r ! i) [0, 2, 4, 6, 1, 3, 5, 7, 8, 10, 12, 14, 9, 11, 13, 15]"
proof -
  have "r = 0 \<or> r = 1 \<or> r = 2 \<or> r = 3 \<or> r = 4 \<or> r = 5 \<or> r = 6 \<or> r = 7 \<or> r = 8 \<or> r = 9 \<or> r = 10 \<or> r = 11"
    using assms by presburger
  then show ?thesis by (elim disjE) (simp_all add: blake2b_sigma_sse41_def blake2b_sigma_def)
qed

lemma sse41_loads:
  assumes "r < 12"
  shows "sse41_LOAD_MSG m r 0 = ((msg m r 0, msg m r 2), (msg m r 4, msg m r 6))"
    "sse41_LOAD_MSG m r 1 = ((msg m r 1, msg m r 3), (msg m r 5, msg m r 7))"
    "sse41_LOAD_MSG m r 2 = ((msg m r 8, msg m r 10), (msg m r 12, msg m r 14))"
    "sse41_LOAD_MSG m r 3 = ((msg m r 9, msg m r 11), (msg m r 13, msg m r 15))"
  by (simp_all add: sse41_LOAD_MSG_def sse41_sigma [OF assms] Let_def)

definition rows_of :: "u64 list \<Rightarrow> m128 eight" where
  "rows_of v = ((v ! 0, v ! 1), (v ! 4, v ! 5), (v ! 8, v ! 9), (v ! 12, v ! 13),
     (v ! 2, v ! 3), (v ! 6, v ! 7), (v ! 10, v ! 11), (v ! 14, v ! 15))"

lemma sse41_round:
  assumes "r < 12" "length v = 16"
  shows "sse41_ROUND m r (rows_of v) = rows_of (blake_ROUND m r v)"
  using assms(2)
proof (rule sixteen)
  fix v0 v1 v2 v3 v4 v5 v6 v7 v8 v9 v10 v11 v12 v13 v14 v15
  assume v: "v = [v0, v1, v2, v3, v4, v5, v6, v7, v8, v9, v10, v11, v12, v13, v14, v15]"
  show ?thesis
    by (simp add: v rows_of_def sse41_ROUND_def Let_def sse41_loads [OF assms(1)] sse41_mix round_parts simd
        del: sse41_G1.simps sse41_G2.simps One_nat_def)
qed

lemma length_blake_G [simp]: "length (blake_G m r q i j k l v) = length v"
  by (simp only: blake_G_def Let_def length_list_update)

lemma length_blake_round [simp]: "length (blake_ROUND m r v) = length v"
  by (simp add: blake_ROUND_def Let_def)

lemma rounds_map:
  assumes "length v = 16" "n \<le> 12" "\<And>r v. r < 12 \<Longrightarrow> length v = 16 \<Longrightarrow> f r (g v) = g (blake_ROUND m r v)"
  shows "length (for_range 0 n (blake_ROUND m) v) = 16 \<and> for_range 0 n f (g v) = g (for_range 0 n (blake_ROUND m) v)"
  using assms(2)
proof (induction n)
  case 0
  show ?case by (simp only: for_range_empty order_refl assms(1) simp_thms)
next
  case (Suc n)
  have n: "n < 12" using Suc.prems by linarith
  then have "n \<le> 12" by linarith
  note IH = Suc.IH [OF this]
  show ?case unfolding for_range_Suc [OF le0] IH [THEN conjunct2] assms(3) [OF n IH [THEN conjunct1]]
    by (simp only: length_blake_round IH [THEN conjunct1] simp_thms)
qed

lemma upt8: "[0..<8] = [0, 1, 2, 3, 4, 5, 6, 7]"
  by (simp add: upt_rec)

lemma eight:
  assumes "length v = 8"
  obtains v0 v1 v2 v3 v4 v5 v6 v7 where "v = [v0, v1, v2, v3, v4, v5, v6, v7]"
  using assms by (auto simp: numeral_eq_Suc length_Suc_conv)

definition start_words :: "u64 list \<Rightarrow> u64 \<Rightarrow> u64 \<Rightarrow> u64 \<Rightarrow> u64 \<Rightarrow> u64 list" where
  "start_words hs c0 c1 l0 l1 = take 8 hs @ [blake2b_IV ! 0, blake2b_IV ! 1, blake2b_IV ! 2, blake2b_IV ! 3,
     blake2b_IV ! 4 XOR c0, blake2b_IV ! 5 XOR c1, blake2b_IV ! 6 XOR l0, blake2b_IV ! 7 XOR l1]"

lemma compress_sse41_eq:
  assumes "length (b2_h S) = 8"
  shows "rx_blake2b_compress_sse41 S block = randomx_blake2b_compress_integer S block"
proof -
  define m where "m = map (\<lambda>i. load64 (bytes_mem block) (i * 8)) [0..<16]"
  define v where "v = start_words (b2_h S) (b2_t0 S) (b2_t1 S) (b2_f0 S) (b2_f1 S)"
  define w where "w = for_range 0 12 (blake_ROUND m) v"
  have v: "length v = 16" using assms by (simp add: v_def start_words_def)
  obtain h0 h1 h2 h3 h4 h5 h6 h7 where h: "b2_h S = [h0, h1, h2, h3, h4, h5, h6, h7]" by (rule eight [OF assms])
  have rows: "rows_of v = (sse41_LOADU (b2_h S) 0, sse41_LOADU (b2_h S) 4, sse41_LOADU blake2b_IV 0,
      mm_xor_si128 (sse41_LOADU blake2b_IV 4) (b2_t0 S, b2_t1 S),
      sse41_LOADU (b2_h S) 2, sse41_LOADU (b2_h S) 6, sse41_LOADU blake2b_IV 2,
      mm_xor_si128 (sse41_LOADU blake2b_IV 6) (b2_f0 S, b2_f1 S))"
    by (simp add: rows_of_def v_def start_words_def h sse41_LOADU_def simd)
  have run: "for_range 0 12 (sse41_ROUND m) (rows_of v) = rows_of w" "length w = 16"
    using rounds_map [of v 12 "sse41_ROUND m" rows_of m, OF v order_refl sse41_round] by (simp_all add: w_def)
  have "randomx_blake2b_compress_integer S block = S\<lparr>b2_h := map (\<lambda>i. b2_h S ! i XOR w ! i XOR w ! (i + 8)) [0..<8]\<rparr>"
    by (simp add: randomx_blake2b_compress_integer_def blake2b_compress_words_def Let_def m_def [symmetric] w_def
        v_def start_words_def)
  moreover have "rx_blake2b_compress_sse41 S block = S\<lparr>b2_h := map (\<lambda>i. b2_h S ! i XOR w ! i XOR w ! (i + 8)) [0..<8]\<rparr>"
    unfolding rx_blake2b_compress_sse41_def Let_def m_def [symmetric] rows [symmetric] run(1)
    by (simp add: rows_of_def h sse41_LOADU_def sse41_STOREU_def simd upt8 ac_simps)
  ultimately show ?thesis by simp
qed

section \<open>AVX2: message words\<close>

lemma unpack_simps [simd]:
  "mm256_unpacklo_epi64 ((a, b), (c, d)) ((e, f), (g, h)) = ((a, e), (c, g))"
  "mm256_unpackhi_epi64 ((a, b), (c, d)) ((e, f), (g, h)) = ((b, f), (d, h))"
  "mm256_alignr_epi8 ((a, b), (c, d)) ((e, f), (g, h)) 8 = ((f, a), (h, c))"
  "mm256_shuffle_epi32 ((a, b), (c, d)) (MM_SHUFFLE 1 0 3 2) = ((b, a), (d, c))"
  by (simp_all add: mm256_unpacklo_epi64_def mm256_unpackhi_epi64_def mm256_alignr_epi8_def lanewise_def
      mm_unpacklo_epi64_def mm_unpackhi_epi64_def shuffle_simps mm256_shuffle_epi32_def lanes1_def mm_shuffle_epi32_def
      MM_SHUFFLE_def selector_def m128_dwords_def m128_of_dwords_def upt_rec dwords_join)

definition message_vectors :: "u64 list \<Rightarrow> m256 list" where
  "message_vectors m = map (\<lambda>i. ((m ! (2 * i), m ! (2 * i + 1)), (m ! (2 * i), m ! (2 * i + 1)))) [0..<8]"

lemma message_vectors_eq:
  "DECLARE_MESSAGE_WORDS block = message_vectors (map (\<lambda>i. load64 (bytes_mem block) (i * 8)) [0..<16])"
  by (simp add: DECLARE_MESSAGE_WORDS_def message_vectors_def mm256_broadcastsi128_si256_def ac_simps)

lemma message_vectors_nth:
  "message_vectors m = [((m ! 0, m ! 1), (m ! 0, m ! 1)), ((m ! 2, m ! 3), (m ! 2, m ! 3)),
    ((m ! 4, m ! 5), (m ! 4, m ! 5)), ((m ! 6, m ! 7), (m ! 6, m ! 7)), ((m ! 8, m ! 9), (m ! 8, m ! 9)),
    ((m ! 10, m ! 11), (m ! 10, m ! 11)), ((m ! 12, m ! 13), (m ! 12, m ! 13)), ((m ! 14, m ! 15), (m ! 14, m ! 15))]"
  by (simp add: message_vectors_def upt8)

text \<open>The words that the four loads of a round put into the lanes.\<close>

definition avx2_words :: "u64 list \<Rightarrow> nat \<Rightarrow> m256 list" where
  "avx2_words m r =
    [((msg m r 0, msg m r 2), (msg m r 4, msg m r 6)), ((msg m r 1, msg m r 3), (msg m r 5, msg m r 7)),
     ((msg m r 14, msg m r 8), (msg m r 10, msg m r 12)), ((msg m r 15, msg m r 9), (msg m r 11, msg m r 13))]"

lemma avx2_loads:
  assumes "r < 12"
  shows "map (\<lambda>f. f (message_vectors m)) (BLAKE2B_LOAD_MSG r) = avx2_words m r"
proof -
  have "r = 0 \<or> r = 1 \<or> r = 2 \<or> r = 3 \<or> r = 4 \<or> r = 5 \<or> r = 6 \<or> r = 7 \<or> r = 8 \<or> r = 9 \<or> r = 10 \<or> r = 11"
    using assms by presburger
  then show ?thesis
    by (elim disjE) (simp_all add: load_msg_defs avx2_words_def blake2b_sigma_def message_vectors_nth Let_def simd del: One_nat_def)
qed

lemma avx2_load_nth:
  assumes "r < 12"
  shows "(BLAKE2B_LOAD_MSG r ! 0) (message_vectors m) = ((msg m r 0, msg m r 2), (msg m r 4, msg m r 6))"
    "(BLAKE2B_LOAD_MSG r ! 1) (message_vectors m) = ((msg m r 1, msg m r 3), (msg m r 5, msg m r 7))"
    "(BLAKE2B_LOAD_MSG r ! 2) (message_vectors m) = ((msg m r 14, msg m r 8), (msg m r 10, msg m r 12))"
    "(BLAKE2B_LOAD_MSG r ! 3) (message_vectors m) = ((msg m r 15, msg m r 9), (msg m r 11, msg m r 13))"
proof -
  have len: "length (BLAKE2B_LOAD_MSG r) = 4"
    using arg_cong [OF avx2_loads [OF assms, of m], of length] by (simp add: avx2_words_def)
  have "(BLAKE2B_LOAD_MSG r ! i) (message_vectors m) = avx2_words m r ! i" if "i < 4" for i
    using arg_cong [OF avx2_loads [OF assms, of m], of "\<lambda>l. l ! i"] that len by simp
  from this [of 0] this [of 1] this [of 2] this [of 3]
  show "(BLAKE2B_LOAD_MSG r ! 0) (message_vectors m) = ((msg m r 0, msg m r 2), (msg m r 4, msg m r 6))"
    "(BLAKE2B_LOAD_MSG r ! 1) (message_vectors m) = ((msg m r 1, msg m r 3), (msg m r 5, msg m r 7))"
    "(BLAKE2B_LOAD_MSG r ! 2) (message_vectors m) = ((msg m r 14, msg m r 8), (msg m r 10, msg m r 12))"
    "(BLAKE2B_LOAD_MSG r ! 3) (message_vectors m) = ((msg m r 15, msg m r 9), (msg m r 11, msg m r 13))"
    by (simp_all add: avx2_words_def)
qed

section \<open>AVX2: compression\<close>

lemma rot_simps [simd]:
  "ROT32 ((a, b), (c, d)) = ((rotr64 a 32, rotr64 b 32), (rotr64 c 32, rotr64 d 32))"
  "ROT24 ((a, b), (c, d)) = ((rotr64 a 24, rotr64 b 24), (rotr64 c 24, rotr64 d 24))"
  "ROT16 ((a, b), (c, d)) = ((rotr64 a 16, rotr64 b 16), (rotr64 c 16, rotr64 d 16))"
  "mm256_add_epi64 ((a, b), (c, d)) ((e, f), (g, h)) = ((a + e, b + f), (c + g, d + h))"
  "mm256_xor_si256 ((a, b), (c, d)) ((e, f), (g, h)) = ((a XOR e, b XOR f), (c XOR g, d XOR h))"
  by (simp_all add: ROT32_def ROT24_def ROT16_def ROTATE24_def ROTATE16_def mm256_shuffle_epi32_def mm256_shuffle_epi8_def
      lanes1_def simd lanewise_def mm256_add_epi64_def mm256_xor_si256_def mm_xor_si128_def del: One_nat_def)

lemma rotr63_or: "drop_bit 63 x OR (2 * x) = rotr64 x 63"
  by (simp add: rotr64_def push_bit_eq_mult mult.commute)

lemma rot63_simp [simd]:
  "ROT63 ((a, b), (c, d)) = ((rotr64 a 63, rotr64 b 63), (rotr64 c 63, rotr64 d 63))"
  by (simp add: ROT63_def mm256_or_si256_def lanewise_def mm256_srli_epi64_def lanes1_def mm_srli_epi64_def
      mm256_add_epi64_def mm_add_epi64_def rotr63_or)

lemma avx2_mix:
  "BLAKE2B_G2_V1 ((y0, y1), (y2, y3)) (BLAKE2B_G1_V1 ((x0, x1), (x2, x3))
      (((a0, a1), (a2, a3)), ((b0, b1), (b2, b3)), ((c0, c1), (c2, c3)), ((d0, d1), (d2, d3)))) =
    (((bA x0 y0 a0 b0 c0 d0, bA x1 y1 a1 b1 c1 d1), (bA x2 y2 a2 b2 c2 d2, bA x3 y3 a3 b3 c3 d3)),
     ((bB x0 y0 a0 b0 c0 d0, bB x1 y1 a1 b1 c1 d1), (bB x2 y2 a2 b2 c2 d2, bB x3 y3 a3 b3 c3 d3)),
     ((bC x0 y0 a0 b0 c0 d0, bC x1 y1 a1 b1 c1 d1), (bC x2 y2 a2 b2 c2 d2, bC x3 y3 a3 b3 c3 d3)),
     ((bD x0 y0 a0 b0 c0 d0, bD x1 y1 a1 b1 c1 d1), (bD x2 y2 a2 b2 c2 d2, bD x3 y3 a3 b3 c3 d3)))"
  by (simp add: b_defs simd add_swap lanewise_def del: One_nat_def)

definition vectors_of :: "u64 list \<Rightarrow> m256 four" where
  "vectors_of v = (load4 v 0, load4 v 4, load4 v 8, load4 v 12)"

lemma avx2_round:
  assumes "r < 12" "length v = 16"
  shows "BLAKE2B_ROUND_V1 (message_vectors m) r (vectors_of v) = vectors_of (blake_ROUND m r v)"
  using assms(2)
proof (rule sixteen)
  fix v0 v1 v2 v3 v4 v5 v6 v7 v8 v9 v10 v11 v12 v13 v14 v15
  assume v: "v = [v0, v1, v2, v3, v4, v5, v6, v7, v8, v9, v10, v11, v12, v13, v14, v15]"
  show ?thesis
    by (simp add: v vectors_of_def load4_def BLAKE2B_ROUND_V1_def Let_def avx2_load_nth [OF assms(1)] avx2_mix round_parts simd
        del: BLAKE2B_G1_V1.simps BLAKE2B_G2_V1.simps One_nat_def)
qed

lemma rounds_upt: "BLAKE2B_ROUNDS_V1 m v = for_range 0 12 (BLAKE2B_ROUND_V1 m) v"
proof -
  have "[0..<12] = [0, 1, 2, 3, 4, 5, 6, 7, 8, 9, 10, 11]" by (simp add: upt_rec)
  then show ?thesis by (simp only: BLAKE2B_ROUNDS_V1_def for_range_def)
qed

text \<open>The two registers that hold the eight words of the state.\<close>

definition regs_of :: "u64 list \<Rightarrow> m256 \<times> m256" where "regs_of hs = (load4 hs 0, load4 hs 4)"

lemma compress_avx2_eq:
  assumes "length hs = 8"
  shows "BLAKE2B_COMPRESS_V1 block t0 t1 f0 f1 (regs_of hs) = regs_of (blake2b_compress_words hs t0 t1 f0 f1 block)"
proof -
  define m where "m = map (\<lambda>i. load64 (bytes_mem block) (i * 8)) [0..<16]"
  define v where "v = start_words hs t0 t1 f0 f1"
  define w where "w = for_range 0 12 (blake_ROUND m) v"
  have v: "length v = 16" using assms by (simp add: v_def start_words_def)
  obtain h0 h1 h2 h3 h4 h5 h6 h7 where h: "hs = [h0, h1, h2, h3, h4, h5, h6, h7]" by (rule eight [OF assms])
  have rows: "vectors_of v = (load4 hs 0, load4 hs 4, load4 blake2b_IV 0,
      mm256_xor_si256 (load4 blake2b_IV 4) (mm256_set_epi64x f1 f0 t1 t0))"
    by (simp add: vectors_of_def v_def start_words_def h load4_def mm256_set_epi64x_def simd lanewise_def numeral_2_eq_2)
  have run: "BLAKE2B_ROUNDS_V1 (message_vectors m) (vectors_of v) = vectors_of w"
    using rounds_map [of v 12 "BLAKE2B_ROUND_V1 (message_vectors m)" vectors_of m, OF v order_refl avx2_round]
    by (simp add: rounds_upt w_def)
  have "blake2b_compress_words hs t0 t1 f0 f1 block = map (\<lambda>i. hs ! i XOR w ! i XOR w ! (i + 8)) [0..<8]"
    by (simp add: blake2b_compress_words_def Let_def m_def [symmetric] w_def v_def start_words_def)
  moreover have "BLAKE2B_COMPRESS_V1 block t0 t1 f0 f1 (regs_of hs) =
      regs_of (map (\<lambda>i. hs ! i XOR w ! i XOR w ! (i + 8)) [0..<8])"
    unfolding BLAKE2B_COMPRESS_V1_def regs_of_def Let_def prod.case message_vectors_eq m_def [symmetric] rows [symmetric] run
    by (simp add: vectors_of_def h load4_def simd upt8 lanewise_def numeral_2_eq_2 ac_simps)
  ultimately show ?thesis by simp
qed

section \<open>AVX2: the hash\<close>

lemma length_compress [simp]: "length (blake2b_compress_words hs c0 c1 l0 l1 block) = 8"
  by (simp add: blake2b_compress_words_def Let_def)

text \<open>The state and the counter after the full blocks, from any state.\<close>

definition chain_from :: "u64 list \<Rightarrow> nat \<Rightarrow> u8 list list \<Rightarrow> u64 list \<times> nat" where
  "chain_from hs t bs = foldl (\<lambda>(hs, t) b. (ref_compress hs (t + 128) False b, t + 128)) (hs, t) bs"

lemma avx2_loop_eq:
  assumes "length hs = 8" "t + length inp < 2 ^ 64"
  shows "blake2b_avx2_loop (of_nat t) inp (regs_of hs) =
    (case chain_from hs t (full_blocks inp) of (hs', t') \<Rightarrow>
      regs_of (ref_compress hs' (t' + length (last_block inp)) True
        (last_block inp @ replicate (128 - length (last_block inp)) 0)))"
  using assms
proof (induction inp arbitrary: hs t rule: full_blocks.induct)
  case (1 inp)
  have small: "n div 2 ^ 64 = 0" if "n \<le> t + length inp" for n :: nat using that 1(3) by simp
  show ?case
  proof (cases "length inp > 128")
    case True
    let ?hs = "ref_compress hs (t + 128) False (take 128 inp)"
    have "BLAKE2B_COMPRESS_V1 (take 128 inp) (of_nat t + 128) 0 0 0 (regs_of hs) = regs_of ?hs"
      using compress_avx2_eq [OF 1(2)] small [of "t + 128"] True by (simp add: ref_compress_def add.commute)
    moreover have "blake2b_avx2_loop (of_nat (t + 128)) (drop 128 inp) (regs_of ?hs) =
      (case chain_from ?hs (t + 128) (full_blocks (drop 128 inp)) of (hs', t') \<Rightarrow>
        regs_of (ref_compress hs' (t' + length (last_block (drop 128 inp))) True
          (last_block (drop 128 inp) @ replicate (128 - length (last_block (drop 128 inp))) 0)))"
      using True 1(3) by (intro 1(1)) (simp_all add: ref_compress_def)
    ultimately show ?thesis using True
      by (subst blake2b_avx2_loop.simps)
        (simp add: BLAKE2B_BLOCKBYTES_def chain_from_def full_blocks.simps [of inp] last_block.simps [of inp] add.commute)
  next
    case False
    then have "take 128 inp = inp" by simp
    then have block: "(if length inp < 128 then (length inp, inp @ replicate (128 - length inp) 0) else (128, take 128 inp)) =
        (length inp, inp @ replicate (128 - length inp) 0)"
      using False by simp
    have "BLAKE2B_COMPRESS_V1 (inp @ replicate (128 - length inp) 0) (of_nat t + of_nat (length inp)) 0 (- 1) 0 (regs_of hs) =
        regs_of (ref_compress hs (t + length inp) True (inp @ replicate (128 - length inp) 0))"
      using compress_avx2_eq [OF 1(2)] small [of "t + length inp"] by (simp add: ref_compress_def)
    then show ?thesis using False
      by (subst blake2b_avx2_loop.simps)
        (simp only: BLAKE2B_BLOCKBYTES_def block Let_def prod.case chain_from_def full_blocks.simps [of inp]
          last_block.simps [of inp] if_False, simp)
  qed
qed

lemma chain_from_ref: "chain_from hs 0 bs = ref_chain hs bs"
  by (simp add: chain_from_def ref_chain_def)

lemma ref_chain_count: "snd (ref_chain hs bs) = 128 * length bs"
  by (induction bs rule: rev_induct) (auto simp: ref_chain_def split: prod.splits)

lemma regs_bytes:
  assumes "length hs = 8" "n \<le> 64"
  shows "take n (m256_bytes (fst (regs_of hs)) @ m256_bytes (snd (regs_of hs))) =
    map (\<lambda>i. ucast (drop_bit (8 * (i mod 8)) (hs ! (i div 8)))) [0..<n]"
proof -
  obtain h0 h1 h2 h3 h4 h5 h6 h7 where h: "hs = [h0, h1, h2, h3, h4, h5, h6, h7]" by (rule eight [OF assms(1)])
  have "m256_bytes (fst (regs_of hs)) @ m256_bytes (snd (regs_of hs)) =
      map (\<lambda>i. ucast (drop_bit (8 * (i mod 8)) (hs ! (i div 8)))) [0..<64]"
    by (simp add: h regs_of_def load4_def m256_bytes_def m128_bytes_def word_bytes8_def upt_rec)
  then show ?thesis using assms(2) by (simp add: take_map)
qed

lemma blake2b_avx2_ref:
  assumes "1 \<le> n" "n \<le> 64" "length d < 2 ^ 64"
  shows "blake2b_avx2 n d = ref_blake2b n 0 d"
proof -
  have n: "(ucast (of_nat n :: u32) :: u64) = of_nat n" using assms(2) by (simp add: unsigned_of_nat take_bit_nat_eq_self)
  have start: "(mm256_xor_si256 (load4 blake2b_IV 0) (mm256_set_epi64x 0 0 0 (0x01010000 OR ucast (of_nat n :: u32))),
      load4 blake2b_IV 4) = regs_of (ref_h0 n 0)"
    by (simp add: regs_of_def ref_h0_def load4_def mm256_set_epi64x_def simd lanewise_def n upt8 or.commute numeral_2_eq_2)
  have l0: "length (ref_h0 n 0) = 8" by (simp add: ref_h0_def)
  let ?c = "ref_chain (ref_h0 n 0) (full_blocks d)"
  let ?hs = "ref_compress (fst ?c) (length d) True (last_block d @ replicate (128 - length (last_block d)) 0)"
  have "128 * length (full_blocks d) + length (last_block d) = length d" using length_split [of d] by simp
  then have loop: "blake2b_avx2_loop 0 d (regs_of (ref_h0 n 0)) = regs_of ?hs"
    using avx2_loop_eq [OF l0, of 0 d] assms(3) ref_chain_count [of "ref_h0 n 0" "full_blocks d"]
    by (simp add: chain_from_ref split: prod.splits)
  have len: "length ?hs = 8" by (simp add: ref_compress_def)
  have lb: "length (m256_bytes v) = 32" for v by (simp add: m256_bytes_def)
  have full: "m256_bytes (fst (regs_of ?hs)) @ m256_bytes (snd (regs_of ?hs)) =
      take 64 (m256_bytes (fst (regs_of ?hs)) @ m256_bytes (snd (regs_of ?hs)))"
    "m256_bytes (fst (regs_of ?hs)) = take 32 (m256_bytes (fst (regs_of ?hs)) @ m256_bytes (snd (regs_of ?hs)))"
    by (simp_all add: m256_bytes_def)
  show ?thesis
    unfolding blake2b_avx2_def Let_def start loop ref_blake2b_def
    using regs_bytes [OF len assms(2)] full by (auto simp: lb split: prod.splits)
qed

text \<open>C22: All versions of BLAKE2b agree: the SSE4.1 compression function is the integer one on every
  state, and the hash that AVX2 computes in one go is the digest of the streaming version, for
  every message shorter than the address space.\<close>

theorem blake2_versions_agree:
  assumes "length (b2_h S) = 8" "1 \<le> n" "n \<le> 64" "length d < 2 ^ 64"
  shows "rx_blake2b_compress_sse41 S block = randomx_blake2b_compress_integer S block \<and>
    blake2b n d [] = Some (blake2b_avx2 n d)"
  using compress_sse41_eq [OF assms(1)] blake2b_avx2_ref [OF assms(2-4)] blake2b_is_ref [of n d "[]"] assms(2,3)
  by simp

theorem blake2_versions_agree_witness:
  "rx_blake2b_compress_sse41 (blake2b_init_param (blake2b_param 64 0)) (replicate 128 1) =
      randomx_blake2b_compress_integer (blake2b_init_param (blake2b_param 64 0)) (replicate 128 1) \<and>
    blake2b 64 [1, 2, 3] [] = Some (blake2b_avx2 64 [1, 2, 3])"
  by (rule blake2_versions_agree) (simp_all add: blake2b_init_param_def)

end
