(* ===== verification/Aes_Vector.thy ===== *)
theory Aes_Vector
  imports Aes_Hash
begin

text \<open>
  The other versions of the AES hash and generators: VAES with 512-bit registers
  (\<^verbatim>\<open>aes_hash_vaes512.cpp\<close>), the RISC-V cipher extension
  (\<^verbatim>\<open>aes_hash_rv64_zvkned.cpp\<close>) and table lookups in RISC-V vector registers
  (\<^verbatim>\<open>aes_hash_rv64_vector.cpp\<close>). The instructions are modelled as their specifications
  document them, the AES rounds by those of FIPS-197. A 512-bit register is its four lanes; a
  RISC-V register is the list of its eight 32-bit elements, with registers of 256 bits (the
  gathering of bytes reads zero at index 255 for every register length up to 2040 bits). The
  prefetches have no effect on the values and are left out.
\<close>

section \<open>VAES: instructions\<close>

definition mm512_aesenc_epi128 :: "lanes4 \<Rightarrow> lanes4 \<Rightarrow> lanes4" where
  "mm512_aesenc_epi128 a k = Lanes (aes_round (lane0 a) (lane0 k)) (aes_round (lane1 a) (lane1 k))
     (aes_round (lane2 a) (lane2 k)) (aes_round (lane3 a) (lane3 k))"

definition mm512_aesdec_epi128 :: "lanes4 \<Rightarrow> lanes4 \<Rightarrow> lanes4" where
  "mm512_aesdec_epi128 a k = Lanes (aes_inv_round (lane0 a) (lane0 k)) (aes_inv_round (lane1 a) (lane1 k))
     (aes_inv_round (lane2 a) (lane2 k)) (aes_inv_round (lane3 a) (lane3 k))"

text \<open>Bit \<open>i\<close> of the mask takes the 64-bit element \<open>i\<close> from the second operand.\<close>

definition blend_lane :: "bool \<Rightarrow> bool \<Rightarrow> vec_i128 \<Rightarrow> vec_i128 \<Rightarrow> vec_i128" where
  "blend_lane lo hi a b = (case (a, b) of ((x, y, z, w), (x', y', z', w')) \<Rightarrow>
     (if lo then x' else x, if lo then y' else y, if hi then z' else z, if hi then w' else w))"

definition mm512_mask_blend_epi64 :: "nat \<Rightarrow> lanes4 \<Rightarrow> lanes4 \<Rightarrow> lanes4" where
  "mm512_mask_blend_epi64 k a b =
     Lanes (blend_lane (bit k 0) (bit k 1) (lane0 a) (lane0 b)) (blend_lane (bit k 2) (bit k 3) (lane1 a) (lane1 b))
       (blend_lane (bit k 4) (bit k 5) (lane2 a) (lane2 b)) (blend_lane (bit k 6) (bit k 7) (lane3 a) (lane3 b))"

text \<open>A register loaded from an array of sixteen words.\<close>

definition load_words :: "u32 list \<Rightarrow> lanes4" where
  "load_words t = (let l = (\<lambda>i. (t ! i, t ! (i + 1), t ! (i + 2), t ! (i + 3))) in Lanes (l 0) (l 4) (l 8) (l 12))"

section \<open>VAES: the functions\<close>

definition REVERSE_4 :: "u32 \<Rightarrow> u32 \<Rightarrow> u32 \<Rightarrow> u32 \<Rightarrow> u32 list" where "REVERSE_4 a b c d = [d, c, b, a]"

definition VAES_HASH_1R_STATE :: "u32 list" where
  "VAES_HASH_1R_STATE = REVERSE_4 0xd7983aad 0xcc82db47 0x9fa856de 0x92b52c0d @
     REVERSE_4 0xace78057 0xf59e125a 0x15c7b798 0x338d996e @ REVERSE_4 0xe8a07ce4 0x5079506b 0xae62c7d0 0x6a770017 @
     REVERSE_4 0x7e994948 0x79a10005 0x07ad828d 0x630a240c"
definition VAES_GEN_1R_KEY :: "u32 list" where
  "VAES_GEN_1R_KEY = REVERSE_4 0xb4f44917 0xdbb5552b 0x62716609 0x6daca553 @
     REVERSE_4 0x0da1dc4e 0x1725d378 0x846a710d 0x6d7caf07 @ REVERSE_4 0x3e20e345 0xf4c0794f 0x9f947ec6 0x3f1262f1 @
     REVERSE_4 0x49169154 0x16314c88 0xb1ba317c 0x6aef8135"
definition VAES_HASH_1R_XKEY0 :: "u32 list" where
  "VAES_HASH_1R_XKEY0 = REVERSE_4 0x06890201 0x90dc56bf 0x8b24949f 0xf6fa8389 @
     REVERSE_4 0x06890201 0x90dc56bf 0x8b24949f 0xf6fa8389 @ REVERSE_4 0x06890201 0x90dc56bf 0x8b24949f 0xf6fa8389 @
     REVERSE_4 0x06890201 0x90dc56bf 0x8b24949f 0xf6fa8389"
definition VAES_HASH_1R_XKEY1 :: "u32 list" where
  "VAES_HASH_1R_XKEY1 = REVERSE_4 0xed18f99b 0xee1043c6 0x51f4e03c 0x61b263d1 @
     REVERSE_4 0xed18f99b 0xee1043c6 0x51f4e03c 0x61b263d1 @ REVERSE_4 0xed18f99b 0xee1043c6 0x51f4e03c 0x61b263d1 @
     REVERSE_4 0xed18f99b 0xee1043c6 0x51f4e03c 0x61b263d1"

definition vaes_mask :: nat where "vaes_mask = 0xCC"
definition VAES_PREFETCH_DISTANCE :: nat where "VAES_PREFETCH_DISTANCE = 7168"

text \<open>The inner loops up to an end that may lie before the start.\<close>

function vaes_fused_loop :: "nat \<Rightarrow> int \<Rightarrow> lanes4 \<Rightarrow> lanes4 \<Rightarrow> mem \<Rightarrow> nat \<times> lanes4 \<times> lanes4 \<times> mem" where
  "vaes_fused_loop p e enc_data dec_data m =
     (if int p < e
      then let scratchpad_data = load_lanes m p; fill_key = load_words VAES_GEN_1R_KEY;
               enc_data = mm512_aesenc_epi128 enc_data (mm512_mask_blend_epi64 vaes_mask scratchpad_data fill_key);
               dec_data = mm512_aesdec_epi128 dec_data (mm512_mask_blend_epi64 vaes_mask fill_key scratchpad_data)
           in vaes_fused_loop (p + 64) e enc_data dec_data
                (store_lanes m p (mm512_mask_blend_epi64 vaes_mask dec_data enc_data))
      else (p, enc_data, dec_data, m))"
  by pat_completeness auto
termination by (relation "measure (\<lambda>(p, e, _). nat (e - int p))") auto

function vaes_hash_loop :: "mem \<Rightarrow> nat \<Rightarrow> int \<Rightarrow> lanes4 \<Rightarrow> lanes4 \<Rightarrow> nat \<times> lanes4 \<times> lanes4" where
  "vaes_hash_loop m p e enc_data dec_data =
     (if int p < e
      then let scratchpad_data = load_lanes m p
           in vaes_hash_loop m (p + 64) e (mm512_aesenc_epi128 enc_data scratchpad_data)
                (mm512_aesdec_epi128 dec_data scratchpad_data)
      else (p, enc_data, dec_data))"
  by pat_completeness auto
termination by (relation "measure (\<lambda>(m, p, e, _). nat (e - int p))") auto

declare vaes_fused_loop.simps [simp del] vaes_hash_loop.simps [simp del]

definition vaes_finish :: "lanes4 \<Rightarrow> lanes4 \<Rightarrow> lanes4" where
  "vaes_finish enc_data dec_data =
    (let xkey0 = load_words VAES_HASH_1R_XKEY0; xkey1 = load_words VAES_HASH_1R_XKEY1;
         enc_data = mm512_aesenc_epi128 enc_data xkey0; dec_data = mm512_aesdec_epi128 dec_data xkey0;
         enc_data = mm512_aesenc_epi128 enc_data xkey1; dec_data = mm512_aesdec_epi128 dec_data xkey1
     in mm512_mask_blend_epi64 vaes_mask enc_data dec_data)"

text \<open>The new scratchpad, hash and generator state.\<close>

definition hashAndFillAes1Rx4_VAES512 :: "mem \<Rightarrow> nat \<Rightarrow> mem \<Rightarrow> mem \<Rightarrow> mem \<times> mem \<times> mem" where
  "hashAndFillAes1Rx4_VAES512 scratchpad scratchpadSize hash fill_state =
    (let initial_hash_state = load_words VAES_HASH_1R_STATE; initial_fill_state = load_lanes fill_state 0;
         enc_data = mm512_mask_blend_epi64 vaes_mask initial_hash_state initial_fill_state;
         dec_data = mm512_mask_blend_epi64 vaes_mask initial_fill_state initial_hash_state;
         e = int scratchpadSize - int VAES_PREFETCH_DISTANCE in
     case vaes_fused_loop 0 e enc_data dec_data scratchpad of (p1, enc1, dec1, m1) \<Rightarrow>
     case vaes_fused_loop p1 (e + int VAES_PREFETCH_DISTANCE) enc1 dec1 m1 of (p2, enc2, dec2, m2) \<Rightarrow>
       (m2, store_lanes hash 0 (vaes_finish enc2 dec2),
        store_lanes fill_state 0 (mm512_mask_blend_epi64 vaes_mask dec2 enc2)))"

definition hashAes1Rx4_VAES512 :: "mem \<Rightarrow> nat \<Rightarrow> mem \<Rightarrow> mem" where
  "hashAes1Rx4_VAES512 scratchpad scratchpadSize hash =
    (let enc_data = load_words VAES_HASH_1R_STATE; dec_data = load_words VAES_HASH_1R_STATE;
         e = int scratchpadSize - int VAES_PREFETCH_DISTANCE in
     case vaes_hash_loop scratchpad 0 e enc_data dec_data of (p1, enc1, dec1) \<Rightarrow>
     case vaes_hash_loop scratchpad p1 (e + int VAES_PREFETCH_DISTANCE) enc1 dec1 of (p2, enc2, dec2) \<Rightarrow>
       store_lanes hash 0 (vaes_finish enc2 dec2))"

section \<open>RISC-V: instructions\<close>

text \<open>Indexed loads and stores of eight words, the indices in bytes; the gathering of bytes, an
  index beyond the register giving zero; the two middle rounds of the cipher extension on each
  group of four words, the inverse one adding the key before the columns are mixed.\<close>

definition vluxei32 :: "mem \<Rightarrow> nat \<Rightarrow> u32 list \<Rightarrow> u32 list" where
  "vluxei32 m base idx = map (\<lambda>i. load32 m (base + unat i)) idx"

definition vluxei32_table :: "u32 list \<Rightarrow> u32 list \<Rightarrow> u32 list" where
  "vluxei32_table t idx = map (\<lambda>i. t ! (unat i div 4)) idx"

definition vsuxei32 :: "mem \<Rightarrow> nat \<Rightarrow> u32 list \<Rightarrow> u32 list \<Rightarrow> mem" where
  "vsuxei32 m base idx v = fold (\<lambda>(i, w) m. store32 m (base + unat i) w) (zip idx v) m"

definition vxor :: "u32 list \<Rightarrow> u32 list \<Rightarrow> u32 list" where "vxor = map2 (XOR)"
definition vsll :: "u32 list \<Rightarrow> nat \<Rightarrow> u32 list" where "vsll v n = map (push_bit n) v"

definition vreinterpret_u8 :: "u32 list \<Rightarrow> u8 list" where
  "vreinterpret_u8 v = concat (map (\<lambda>w. [ucast w, ucast (drop_bit 8 w), ucast (drop_bit 16 w), ucast (drop_bit 24 w)]) v)"

definition vreinterpret_u32 :: "u8 list \<Rightarrow> u32 list" where
  "vreinterpret_u32 b = map (\<lambda>i. word_of_bytes (b ! (4 * i)) (b ! (4 * i + 1)) (b ! (4 * i + 2)) (b ! (4 * i + 3))) [0..<8]"

definition vrgather :: "u8 list \<Rightarrow> u8 list \<Rightarrow> u8 list" where
  "vrgather v idx = map (\<lambda>i. if unat i < 32 then v ! unat i else 0) idx"

definition v_group :: "u32 list \<Rightarrow> nat \<Rightarrow> vec_i128" where
  "v_group v g = (v ! (4 * g), v ! (4 * g + 1), v ! (4 * g + 2), v ! (4 * g + 3))"

definition v_words :: "vec_i128 \<Rightarrow> u32 list" where
  "v_words a = (case a of (x, y, z, w) \<Rightarrow> [x, y, z, w])"

definition vaesem :: "u32 list \<Rightarrow> u32 list \<Rightarrow> u32 list" where
  "vaesem v k = v_words (aes_round (v_group v 0) (v_group k 0)) @ v_words (aes_round (v_group v 1) (v_group k 1))"

definition inv_mix_word :: "u32 \<Rightarrow> u32" where
  "inv_mix_word w = inv_mix_column (ucast w) (ucast (drop_bit 8 w)) (ucast (drop_bit 16 w)) (ucast (drop_bit 24 w))"

definition vaesdm_group :: "vec_i128 \<Rightarrow> vec_i128 \<Rightarrow> vec_i128" where
  "vaesdm_group st key =
    (let col = (\<lambda>c. inv_mix_word (word_of_bytes (sub inv_sbox (lane st c) 0) (sub inv_sbox (lane st (c + 3)) 1)
                  (sub inv_sbox (lane st (c + 2)) 2) (sub inv_sbox (lane st (c + 1)) 3) XOR lane key c))
     in (col 0, col 1, col 2, col 3))"

definition vaesdm :: "u32 list \<Rightarrow> u32 list \<Rightarrow> u32 list" where
  "vaesdm v k = v_words (vaesdm_group (v_group v 0) (v_group k 0)) @ v_words (vaesdm_group (v_group v 1) (v_group k 1))"

section \<open>RISC-V: rounds\<close>

definition aesenc_zvkned :: "u32 list \<Rightarrow> u32 list \<Rightarrow> u32 list" where "aesenc_zvkned a b = vaesem a b"
definition aesdec_zvkned :: "u32 list \<Rightarrow> u32 list \<Rightarrow> u32 list" where
  "aesdec_zvkned a b = (let zero = replicate 8 0 in vxor (vaesdm a zero) b)"

definition randomx_aes_lut_enc_index :: "u8 list list" where
  "randomx_aes_lut_enc_index = [
    [0, 255, 255, 255, 4, 255, 255, 255, 8, 255, 255, 255, 12, 255, 255, 255,
     16, 255, 255, 255, 20, 255, 255, 255, 24, 255, 255, 255, 28, 255, 255, 255],
    [5, 255, 255, 255, 9, 255, 255, 255, 13, 255, 255, 255, 1, 255, 255, 255,
     21, 255, 255, 255, 25, 255, 255, 255, 29, 255, 255, 255, 17, 255, 255, 255],
    [10, 255, 255, 255, 14, 255, 255, 255, 2, 255, 255, 255, 6, 255, 255, 255,
     26, 255, 255, 255, 30, 255, 255, 255, 18, 255, 255, 255, 22, 255, 255, 255],
    [15, 255, 255, 255, 3, 255, 255, 255, 7, 255, 255, 255, 11, 255, 255, 255,
     31, 255, 255, 255, 19, 255, 255, 255, 23, 255, 255, 255, 27, 255, 255, 255]]"

definition randomx_aes_lut_dec_index :: "u8 list list" where
  "randomx_aes_lut_dec_index = [
    [0, 255, 255, 255, 4, 255, 255, 255, 8, 255, 255, 255, 12, 255, 255, 255,
     16, 255, 255, 255, 20, 255, 255, 255, 24, 255, 255, 255, 28, 255, 255, 255],
    [13, 255, 255, 255, 1, 255, 255, 255, 5, 255, 255, 255, 9, 255, 255, 255,
     29, 255, 255, 255, 17, 255, 255, 255, 21, 255, 255, 255, 25, 255, 255, 255],
    [10, 255, 255, 255, 14, 255, 255, 255, 2, 255, 255, 255, 6, 255, 255, 255,
     26, 255, 255, 255, 30, 255, 255, 255, 18, 255, 255, 255, 22, 255, 255, 255],
    [7, 255, 255, 255, 11, 255, 255, 255, 15, 255, 255, 255, 3, 255, 255, 255,
     23, 255, 255, 255, 27, 255, 255, 255, 31, 255, 255, 255, 19, 255, 255, 255]]"

definition softaes_vector_double ::
  "u32 list \<Rightarrow> u32 list \<Rightarrow> u8 list \<Rightarrow> u8 list \<Rightarrow> u8 list \<Rightarrow> u8 list \<Rightarrow> u32 list \<Rightarrow> u32 list \<Rightarrow> u32 list \<Rightarrow> u32 list \<Rightarrow> u32 list" where
  "softaes_vector_double inp key i0 i1 i2 i3 lut0 lut1 lut2 lut3 =
    (let in8 = vreinterpret_u8 inp;
         index0 = vreinterpret_u32 (vrgather in8 i0); index1 = vreinterpret_u32 (vrgather in8 i1);
         index2 = vreinterpret_u32 (vrgather in8 i2); index3 = vreinterpret_u32 (vrgather in8 i3);
         s0 = vluxei32_table lut0 (vsll index0 2); s1 = vluxei32_table lut1 (vsll index1 2);
         s2 = vluxei32_table lut2 (vsll index2 2); s3 = vluxei32_table lut3 (vsll index3 2);
         s0 = vxor s0 s1; s2 = vxor s2 s3; s0 = vxor s0 s2
     in vxor s0 key)"

text \<open>The calls with the tables of the encryption and of the decryption, which shares two index
  vectors with it.\<close>

definition rvv_enc :: "u32 list \<Rightarrow> u32 list \<Rightarrow> u32 list" where
  "rvv_enc inp key = (let I = randomx_aes_lut_enc_index; L = randomx_aes_lut_enc in
     softaes_vector_double inp key (I ! 0) (I ! 1) (I ! 2) (I ! 3) (L ! 0) (L ! 1) (L ! 2) (L ! 3))"

definition rvv_dec :: "u32 list \<Rightarrow> u32 list \<Rightarrow> u32 list" where
  "rvv_dec inp key = (let E = randomx_aes_lut_enc_index; I = randomx_aes_lut_dec_index; L = randomx_aes_lut_dec in
     softaes_vector_double inp key (E ! 0) (I ! 1) (E ! 2) (I ! 3) (L ! 0) (L ! 1) (L ! 2) (L ! 3))"

section \<open>RISC-V: the functions\<close>

definition AES_HASH_1R_STATE02 :: "u32 list" where
  "AES_HASH_1R_STATE02 = [0x92b52c0d, 0x9fa856de, 0xcc82db47, 0xd7983aad, 0x6a770017, 0xae62c7d0, 0x5079506b, 0xe8a07ce4]"
definition AES_HASH_1R_STATE13 :: "u32 list" where
  "AES_HASH_1R_STATE13 = [0x338d996e, 0x15c7b798, 0xf59e125a, 0xace78057, 0x630a240c, 0x07ad828d, 0x79a10005, 0x7e994948]"
definition AES_GEN_1R_KEY02 :: "u32 list" where
  "AES_GEN_1R_KEY02 = [0x6daca553, 0x62716609, 0xdbb5552b, 0xb4f44917, 0x3f1262f1, 0x9f947ec6, 0xf4c0794f, 0x3e20e345]"
definition AES_GEN_1R_KEY13 :: "u32 list" where
  "AES_GEN_1R_KEY13 = [0x6d7caf07, 0x846a710d, 0x1725d378, 0x0da1dc4e, 0x6aef8135, 0xb1ba317c, 0x16314c88, 0x49169154]"
definition AES_HASH_1R_XKEY00 :: "u32 list" where
  "AES_HASH_1R_XKEY00 = [0xf6fa8389, 0x8b24949f, 0x90dc56bf, 0x06890201, 0xf6fa8389, 0x8b24949f, 0x90dc56bf, 0x06890201]"
definition AES_HASH_1R_XKEY11 :: "u32 list" where
  "AES_HASH_1R_XKEY11 = [0x61b263d1, 0x51f4e03c, 0xee1043c6, 0xed18f99b, 0x61b263d1, 0x51f4e03c, 0xee1043c6, 0xed18f99b]"
definition AES_HASH_STRIDE_X2 :: "u32 list" where "AES_HASH_STRIDE_X2 = [0, 4, 8, 12, 32, 36, 40, 44]"
definition AES_HASH_STRIDE_X4 :: "u32 list" where "AES_HASH_STRIDE_X4 = [12, 8, 4, 0, 76, 72, 68, 64]"

definition fillAes4Rx4_Key :: "u32 list" where
  "fillAes4Rx4_Key = [
    0x99e5d23f, 0x2f546d2b, 0xd1833ddb, 0x6421aadd, 0xa5dfcde5, 0x06f79d53, 0xb6913f55, 0xb20e3450,
    0x171c02bf, 0x0aa4679f, 0x515e7baf, 0x5c3ed904, 0xd8ded291, 0xcd673785, 0xe78f5d08, 0x85623763,
    0x229effb4, 0x3d518b6d, 0xe3d6a7a6, 0xb5826f73, 0xb272b7d2, 0xe9024d4e, 0x9c10b3d9, 0xc7566bf3,
    0xf63befa7, 0x2ba9660a, 0xf765a38b, 0xf273c9e7, 0xc0b0762d, 0x0c06d1fd, 0x915839de, 0x7a7cd609]"

type_synonym rv_round = "u32 list \<Rightarrow> u32 list \<Rightarrow> u32 list"

text \<open>The two registers at an address, and one round of the hash and of the generator on them.\<close>

definition rv_load :: "mem \<Rightarrow> nat \<Rightarrow> u32 list \<times> u32 list" where
  "rv_load m p = (vluxei32 m p AES_HASH_STRIDE_X2, vluxei32 m (p + 16) AES_HASH_STRIDE_X2)"

definition rv_store :: "mem \<Rightarrow> nat \<Rightarrow> u32 list \<times> u32 list \<Rightarrow> mem" where
  "rv_store m p s = vsuxei32 (vsuxei32 m p AES_HASH_STRIDE_X2 (fst s)) (p + 16) AES_HASH_STRIDE_X2 (snd s)"

definition rv_hash_step :: "rv_round \<Rightarrow> rv_round \<Rightarrow> u32 list \<times> u32 list \<Rightarrow> u32 list \<times> u32 list \<Rightarrow> u32 list \<times> u32 list" where
  "rv_hash_step enc dec s k = (enc (fst s) (fst k), dec (snd s) (snd k))"

definition rv_fill_step :: "rv_round \<Rightarrow> rv_round \<Rightarrow> u32 list \<times> u32 list \<Rightarrow> u32 list \<times> u32 list \<Rightarrow> u32 list \<times> u32 list" where
  "rv_fill_step enc dec s k = (dec (fst s) (fst k), enc (snd s) (snd k))"

function rv_hash_loop :: "rv_round \<Rightarrow> rv_round \<Rightarrow> mem \<Rightarrow> nat \<Rightarrow> nat \<Rightarrow> u32 list \<times> u32 list \<Rightarrow> u32 list \<times> u32 list" where
  "rv_hash_loop enc dec m inptr inputEnd s =
     (if inptr < inputEnd then rv_hash_loop enc dec m (inptr + 64) inputEnd (rv_hash_step enc dec s (rv_load m inptr)) else s)"
  by pat_completeness auto
termination by (relation "measure (\<lambda>(_, _, _, p, e, _). e - p)") auto

function rv_fill_loop :: "(u32 list \<times> u32 list \<Rightarrow> u32 list \<times> u32 list) \<Rightarrow> nat \<Rightarrow> nat \<Rightarrow> u32 list \<times> u32 list \<Rightarrow> mem
    \<Rightarrow> (u32 list \<times> u32 list) \<times> mem" where
  "rv_fill_loop step outptr outputEnd s m =
     (if outptr < outputEnd then rv_fill_loop step (outptr + 64) outputEnd (step s) (rv_store m outptr (step s)) else (s, m))"
  by pat_completeness auto
termination by (relation "measure (\<lambda>(_, p, e, _, _). e - p)") auto

text \<open>The fused loops: 64 bytes at a time, and 128 bytes at a time.\<close>

function rv_fused_loop :: "rv_round \<Rightarrow> rv_round \<Rightarrow> nat \<Rightarrow> nat \<Rightarrow> u32 list \<times> u32 list \<Rightarrow> u32 list \<times> u32 list \<Rightarrow> mem
    \<Rightarrow> (u32 list \<times> u32 list) \<times> (u32 list \<times> u32 list) \<times> mem" where
  "rv_fused_loop enc dec p e hs fs m =
     (if p < e
      then let hs = rv_hash_step enc dec hs (rv_load m p); fs = rv_fill_step enc dec fs (AES_GEN_1R_KEY02, AES_GEN_1R_KEY13)
           in rv_fused_loop enc dec (p + 64) e hs fs (rv_store m p fs)
      else (hs, fs, m))"
  by pat_completeness auto
termination by (relation "measure (\<lambda>(_, _, p, e, _). e - p)") auto

function rvv_fused_loop :: "rv_round \<Rightarrow> rv_round \<Rightarrow> nat \<Rightarrow> nat \<Rightarrow> u32 list \<times> u32 list \<Rightarrow> u32 list \<times> u32 list \<Rightarrow> mem
    \<Rightarrow> (u32 list \<times> u32 list) \<times> (u32 list \<times> u32 list) \<times> mem" where
  "rvv_fused_loop enc dec p e hs fs m =
     (if p < e
      then let hs = rv_hash_step enc dec hs (rv_load m p); hs = rv_hash_step enc dec hs (rv_load m (p + 64));
               fs = rv_fill_step enc dec fs (AES_GEN_1R_KEY02, AES_GEN_1R_KEY13); m = rv_store m p fs;
               fs = rv_fill_step enc dec fs (AES_GEN_1R_KEY02, AES_GEN_1R_KEY13); m = rv_store m (p + 64) fs
           in rvv_fused_loop enc dec (p + 128) e hs fs m
      else (hs, fs, m))"
  by pat_completeness auto
termination by (relation "measure (\<lambda>(_, _, p, e, _). e - p)") auto

declare rv_hash_loop.simps [simp del] rv_fill_loop.simps [simp del] rv_fused_loop.simps [simp del] rvv_fused_loop.simps [simp del]

definition rv_finish :: "rv_round \<Rightarrow> rv_round \<Rightarrow> u32 list \<times> u32 list \<Rightarrow> u32 list \<times> u32 list" where
  "rv_finish enc dec s =
    (let s = rv_hash_step enc dec s (AES_HASH_1R_XKEY00, AES_HASH_1R_XKEY00)
     in rv_hash_step enc dec s (AES_HASH_1R_XKEY11, AES_HASH_1R_XKEY11))"

text \<open>Both files have the same four functions, with their own rounds.\<close>

definition rv_hashAes1Rx4 :: "rv_round \<Rightarrow> rv_round \<Rightarrow> mem \<Rightarrow> nat \<Rightarrow> mem \<Rightarrow> mem" where
  "rv_hashAes1Rx4 enc dec inp inputSize hash =
     rv_store hash 0 (rv_finish enc dec (rv_hash_loop enc dec inp 0 inputSize (AES_HASH_1R_STATE02, AES_HASH_1R_STATE13)))"

definition rv_fillAes1Rx4 :: "rv_round \<Rightarrow> rv_round \<Rightarrow> mem \<Rightarrow> nat \<Rightarrow> nat \<Rightarrow> mem \<Rightarrow> mem \<times> mem" where
  "rv_fillAes1Rx4 enc dec st outputSize outp buffer =
    (case rv_fill_loop (\<lambda>s. rv_fill_step enc dec s (AES_GEN_1R_KEY02, AES_GEN_1R_KEY13)) outp (outp + outputSize)
        (rv_load st 0) buffer of
       (s, buffer') \<Rightarrow> (rv_store st 0 s, buffer'))"

definition rv_key4 :: "nat \<Rightarrow> u32 list" where
  "rv_key4 i = vluxei32_table (drop i fillAes4Rx4_Key) AES_HASH_STRIDE_X4"

definition rv_gen_4R :: "rv_round \<Rightarrow> rv_round \<Rightarrow> u32 list \<times> u32 list \<Rightarrow> u32 list \<times> u32 list" where
  "rv_gen_4R enc dec s =
    (let key04 = rv_key4 0; key15 = rv_key4 4; key26 = rv_key4 8; key37 = rv_key4 12;
         s = rv_fill_step enc dec s (key04, key04); s = rv_fill_step enc dec s (key15, key15);
         s = rv_fill_step enc dec s (key26, key26)
     in rv_fill_step enc dec s (key37, key37))"

definition rv_fillAes4Rx4 :: "rv_round \<Rightarrow> rv_round \<Rightarrow> mem \<Rightarrow> nat \<Rightarrow> mem \<Rightarrow> mem" where
  "rv_fillAes4Rx4 enc dec st outputSize buffer = snd (rv_fill_loop (rv_gen_4R enc dec) 0 outputSize (rv_load st 0) buffer)"

definition hashAes1Rx4_zvkned :: "mem \<Rightarrow> nat \<Rightarrow> mem \<Rightarrow> mem" where
  "hashAes1Rx4_zvkned = rv_hashAes1Rx4 aesenc_zvkned aesdec_zvkned"
definition fillAes1Rx4_zvkned :: "mem \<Rightarrow> nat \<Rightarrow> nat \<Rightarrow> mem \<Rightarrow> mem \<times> mem" where
  "fillAes1Rx4_zvkned = rv_fillAes1Rx4 aesenc_zvkned aesdec_zvkned"
definition fillAes4Rx4_zvkned :: "mem \<Rightarrow> nat \<Rightarrow> mem \<Rightarrow> mem" where
  "fillAes4Rx4_zvkned = rv_fillAes4Rx4 aesenc_zvkned aesdec_zvkned"
definition hashAndFillAes1Rx4_zvkned :: "mem \<Rightarrow> nat \<Rightarrow> mem \<Rightarrow> mem \<Rightarrow> mem \<times> mem \<times> mem" where
  "hashAndFillAes1Rx4_zvkned scratchpad scratchpadSize hash fill_state =
    (case rv_fused_loop aesenc_zvkned aesdec_zvkned 0 scratchpadSize (AES_HASH_1R_STATE02, AES_HASH_1R_STATE13)
        (rv_load fill_state 0) scratchpad of
       (hs, fs, m) \<Rightarrow> (m, rv_store hash 0 (rv_finish aesenc_zvkned aesdec_zvkned hs), rv_store fill_state 0 fs))"

definition hashAes1Rx4_RVV :: "mem \<Rightarrow> nat \<Rightarrow> mem \<Rightarrow> mem" where
  "hashAes1Rx4_RVV = rv_hashAes1Rx4 rvv_enc rvv_dec"
definition fillAes1Rx4_RVV :: "mem \<Rightarrow> nat \<Rightarrow> nat \<Rightarrow> mem \<Rightarrow> mem \<times> mem" where
  "fillAes1Rx4_RVV = rv_fillAes1Rx4 rvv_enc rvv_dec"
definition fillAes4Rx4_RVV :: "mem \<Rightarrow> nat \<Rightarrow> mem \<Rightarrow> mem" where
  "fillAes4Rx4_RVV = rv_fillAes4Rx4 rvv_enc rvv_dec"
definition hashAndFillAes1Rx4_RVV :: "mem \<Rightarrow> nat \<Rightarrow> mem \<Rightarrow> mem \<Rightarrow> mem \<times> mem \<times> mem" where
  "hashAndFillAes1Rx4_RVV scratchpad scratchpadSize hash fill_state =
    (case rvv_fused_loop rvv_enc rvv_dec 0 scratchpadSize (AES_HASH_1R_STATE02, AES_HASH_1R_STATE13)
        (rv_load fill_state 0) scratchpad of
       (hs, fs, m) \<Rightarrow> (m, rv_store hash 0 (rv_finish rvv_enc rvv_dec hs), rv_store fill_state 0 fs))"

end
