(* ===== verification/Aes_Vector_Facts.thy ===== *)
theory Aes_Vector_Facts
  imports Aes_Vector
begin

text \<open>
  The vector versions of the AES hash and generators compute what the portable version computes.
  The two RISC-V versions share everything but their rounds: the contract of the rounds is the
  locale \<open>rv_rounds\<close>, interpreted on both.
\<close>

section \<open>VAES\<close>

lemma blend_mask: "mm512_mask_blend_epi64 vaes_mask a b = Lanes (lane0 a) (lane1 b) (lane2 a) (lane3 b)"
proof -
  have "blend_lane False False x y = x" "blend_lane True True x y = y" for x y
    by (simp_all add: blend_lane_def split: prod.splits)
  moreover have "bit vaes_mask 0 = False" "bit vaes_mask 1 = False" "bit vaes_mask 2 = True" "bit vaes_mask 3 = True"
    "bit vaes_mask 4 = False" "bit vaes_mask 5 = False" "bit vaes_mask 6 = True" "bit vaes_mask 7 = True"
    by (simp_all add: vaes_mask_def bit_iff_odd)
  ultimately show ?thesis by (simp only: mm512_mask_blend_epi64_def)
qed

lemma soft_rounds: "aesenc True hw v k = aes_round v k" "aesdec True hw v k = aes_inv_round v k"
  by (simp_all add: aesenc_def aesdec_def soft_aes.enc_round soft_aes.dec_round)

lemma vaes_constants:
  "load_words VAES_HASH_1R_STATE = hash_init" "load_words VAES_GEN_1R_KEY = gen_1R_keys"
  "load_words VAES_HASH_1R_XKEY0 = Lanes AES_HASH_1R_XKEY0 AES_HASH_1R_XKEY0 AES_HASH_1R_XKEY0 AES_HASH_1R_XKEY0"
  "load_words VAES_HASH_1R_XKEY1 = Lanes AES_HASH_1R_XKEY1 AES_HASH_1R_XKEY1 AES_HASH_1R_XKEY1 AES_HASH_1R_XKEY1"
  by (simp_all add: load_words_def VAES_HASH_1R_STATE_def VAES_GEN_1R_KEY_def VAES_HASH_1R_XKEY0_def VAES_HASH_1R_XKEY1_def
      REVERSE_4_def hash_init_def gen_1R_keys_def AES_HASH_1R_STATE0_def AES_HASH_1R_STATE1_def AES_HASH_1R_STATE2_def
      AES_HASH_1R_STATE3_def AES_GEN_1R_KEY0_def AES_GEN_1R_KEY1_def AES_GEN_1R_KEY2_def AES_GEN_1R_KEY3_def
      AES_HASH_1R_XKEY0_def AES_HASH_1R_XKEY1_def rx_set_int_vec_i128_def Let_def)

text \<open>The registers hold the lanes of the hash that encrypt and those of the generator that do,
  and the others.\<close>

definition enc_of :: "lanes4 \<Rightarrow> lanes4 \<Rightarrow> lanes4" where
  "enc_of hs fs = Lanes (lane0 hs) (lane1 fs) (lane2 hs) (lane3 fs)"

lemma vaes_step:
  "mm512_aesenc_epi128 (enc_of hs fs) (enc_of d k) = enc_of (hash_round True hw hs d) (fill_round True hw fs k)"
  "mm512_aesdec_epi128 (enc_of fs hs) (enc_of k d) = enc_of (fill_round True hw fs k) (hash_round True hw hs d)"
  by (simp_all add: mm512_aesenc_epi128_def mm512_aesdec_epi128_def enc_of_def hash_round_def fill_round_def soft_rounds)

lemma enc_of_same [simp]: "enc_of s s = s" "enc_of (enc_of a b) (enc_of b a) = a"
  by (simp_all add: enc_of_def)

lemma vaes_fused_eq:
  "vaes_fused_loop p e (enc_of hs fs) (enc_of fs hs) m =
    (case fused_loop True hw p e hs fs m of (p', hs', fs', m') \<Rightarrow> (p', enc_of hs' fs', enc_of fs' hs', m'))"
proof (induction "True" hw p e hs fs m rule: fused_loop.induct)
  case (1 hw p e hs fs m)
  show ?case
    by (subst vaes_fused_loop.simps, subst fused_loop.simps)
      (simp add: blend_mask [folded enc_of_def] vaes_constants vaes_step [where hw = hw] 1 Let_def)
qed

lemma vaes_hash_eq:
  "\<exists>fe fd. vaes_hash_loop m p e (enc_of hs fs) (enc_of fs' hs) =
    (blocks_end p (nat e), enc_of (hash_loop True hw m p (nat e) hs) fe, enc_of fd (hash_loop True hw m p (nat e) hs))"
proof (induction m p e "enc_of hs fs" "enc_of fs' hs" arbitrary: hs fs fs' rule: vaes_hash_loop.induct)
  case (1 m p e)
  let ?d = "load_lanes m p"
  have step: "mm512_aesenc_epi128 (enc_of hs fs) ?d = enc_of (hash_round True hw hs ?d) (fill_round True hw fs ?d)"
    "mm512_aesdec_epi128 (enc_of fs' hs) ?d = enc_of (fill_round True hw fs' ?d) (hash_round True hw hs ?d)"
    using vaes_step(1) [of hs fs ?d ?d hw] vaes_step(2) [of fs' hs ?d ?d hw] by simp_all
  show ?case
  proof (cases "int p < e")
    case True
    then have "p < nat e" by simp
    then show ?thesis using 1 [OF True refl step] True
      by (subst vaes_hash_loop.simps) (simp add: Let_def step hash_loop_step blocks_end_step)
  next
    case False
    then have "nat e \<le> p" by simp
    then show ?thesis using False by (subst vaes_hash_loop.simps) (auto simp: blocks_end_done)
  qed
qed

lemma vaes_finish_eq: "vaes_finish (enc_of hs fs) (enc_of fs' hs) = hash_finish True hw hs"
  by (simp add: vaes_finish_def hash_finish_def Let_def vaes_constants blend_mask mm512_aesenc_epi128_def
      mm512_aesdec_epi128_def enc_of_def hash_round_def soft_rounds)

lemma vaes_hash: "hashAes1Rx4_VAES512 m n hash = hashAes1Rx4 True hw m n hash"
proof -
  let ?e = "int n - int VAES_PREFETCH_DISTANCE"
  have e: "nat ?e \<le> n" "?e + int VAES_PREFETCH_DISTANCE = int n" by simp_all
  obtain f1 d1 where 1: "vaes_hash_loop m 0 ?e hash_init hash_init =
      (blocks_end 0 (nat ?e), enc_of (hash_loop True hw m 0 (nat ?e) hash_init) f1,
       enc_of d1 (hash_loop True hw m 0 (nat ?e) hash_init))"
    using vaes_hash_eq [of m 0 ?e hash_init hash_init hash_init hw] by auto
  obtain f2 d2 where 2: "vaes_hash_loop m (blocks_end 0 (nat ?e)) (int n)
      (enc_of (hash_loop True hw m 0 (nat ?e) hash_init) f1) (enc_of d1 (hash_loop True hw m 0 (nat ?e) hash_init)) =
      (blocks_end (blocks_end 0 (nat ?e)) n, enc_of (hash_loop True hw m 0 n hash_init) f2,
       enc_of d2 (hash_loop True hw m 0 n hash_init))"
    using vaes_hash_eq [of m "blocks_end 0 (nat ?e)" "int n" "hash_loop True hw m 0 (nat ?e) hash_init" f1 d1 hw]
      hash_loop_split [OF e(1), of True hw m 0 hash_init] by auto
  show ?thesis
    by (simp add: hashAes1Rx4_VAES512_def Let_def vaes_constants 1 2 vaes_finish_eq [where hw = hw] hashAes1Rx4_def)
qed

text \<open>The fused loop in two calls, whatever the prefetch distance.\<close>

lemma fused_in_two:
  "(case fused_loop soft hw 0 (int n - int k) hs fs m of (p1, hs1, fs1, m1) \<Rightarrow>
      case fused_loop soft hw p1 (int n) hs1 fs1 m1 of (p2, hs2, fs2, m2) \<Rightarrow> (hs2, fs2, m2)) =
    (hash_loop soft hw m 0 n hs, fill_loop (gen_1R soft hw) 0 n fs m)"
proof -
  let ?g = "gen_1R soft hw" let ?e = "nat (int n - int k)"
  have le: "?e \<le> n" by simp
  obtain s1 m1 where 1: "fill_loop ?g 0 ?e fs m = (s1, m1)" by fastforce
  have "m1 i = m i" if "blocks_end 0 ?e \<le> i" for i
    using fill_loop_outside [of i 0 ?e ?g fs m] 1 that by simp
  then have "hash_loop soft hw m1 (blocks_end 0 ?e) n s = hash_loop soft hw m (blocks_end 0 ?e) n s" for s
    by (rule hash_loop_cong)
  then show ?thesis
    using fill_loop_split [OF le, of ?g 0 fs m] hash_loop_split [OF le, of soft hw m 0 hs] 1
    by (simp add: fused_loop_eq)
qed

lemma vaes_hash_and_fill: "hashAndFillAes1Rx4_VAES512 m n hash st = hashAndFillAes1Rx4 True hw m n hash st"
proof -
  let ?f = "load_lanes st 0"
  obtain p1 hs1 fs1 m1 where 1: "fused_loop True hw 0 (int n - int VAES_PREFETCH_DISTANCE) hash_init ?f m = (p1, hs1, fs1, m1)"
    by (metis prod_cases4)
  obtain p2 hs2 fs2 m2 where 2: "fused_loop True hw p1 (int n) hs1 fs1 m1 = (p2, hs2, fs2, m2)" by (metis prod_cases4)
  obtain p3 hs3 fs3 m3 where 3: "fused_loop True hw 0 (int n - int PREFETCH_DISTANCE) hash_init ?f m = (p3, hs3, fs3, m3)"
    by (metis prod_cases4)
  obtain p4 hs4 fs4 m4 where 4: "fused_loop True hw p3 (int n) hs3 fs3 m3 = (p4, hs4, fs4, m4)" by (metis prod_cases4)
  have "(hs2, fs2, m2) = (hs4, fs4, m4)"
    using fused_in_two [of True hw n VAES_PREFETCH_DISTANCE hash_init ?f m]
      fused_in_two [of True hw n PREFETCH_DISTANCE hash_init ?f m] 1 2 3 4 by simp
  then show ?thesis
    by (simp add: hashAndFillAes1Rx4_VAES512_def hashAndFillAes1Rx4_def Let_def vaes_constants blend_mask [folded enc_of_def]
        vaes_fused_eq [where hw = hw] vaes_finish_eq [where hw = hw] 1 2 3 4)
qed

section \<open>RISC-V: registers\<close>

text \<open>The four lanes in two registers: lanes 0 and 2, lanes 1 and 3.\<close>

definition rv_pack :: "lanes4 \<Rightarrow> u32 list \<times> u32 list" where
  "rv_pack s = (v_words (lane0 s) @ v_words (lane2 s), v_words (lane1 s) @ v_words (lane3 s))"

lemma v_words_tuple [simp]: "v_words (x, y, z, w) = [x, y, z, w]"
  by (simp add: v_words_def)

lemma v_group_words [simp]: "v_group (v_words a @ v_words b) 0 = a" "v_group (v_words a @ v_words b) 1 = b"
  by (cases a; cases b; simp add: v_group_def)+

lemma rv_load_eq: "rv_load m p = rv_pack (load_lanes m p)"
  by (simp add: rv_load_def rv_pack_def load_lanes_def rx_load_vec_i128_def vluxei32_def AES_HASH_STRIDE_X2_def add.assoc)

lemma vsuxei32_eq:
  "vsuxei32 m p AES_HASH_STRIDE_X2 (v_words a @ v_words b) = rx_store_vec_i128 (rx_store_vec_i128 m p a) (p + 32) b"
  by (cases a; cases b) (simp add: vsuxei32_def AES_HASH_STRIDE_X2_def rx_store_vec_i128_def add.assoc)

lemma rv_store_eq: "rv_store m p (rv_pack s) = store_lanes m p s"
  by (simp add: rv_store_def rv_pack_def vsuxei32_eq store_lanes_def add.assoc c128.store_commute [of "p + 16" "p + 32"])

lemma rv_constants:
  "(AES_HASH_1R_STATE02, AES_HASH_1R_STATE13) = rv_pack hash_init"
  "(AES_GEN_1R_KEY02, AES_GEN_1R_KEY13) = rv_pack gen_1R_keys"
  "(AES_HASH_1R_XKEY00, AES_HASH_1R_XKEY00) = rv_pack (Lanes AES_HASH_1R_XKEY0 AES_HASH_1R_XKEY0 AES_HASH_1R_XKEY0 AES_HASH_1R_XKEY0)"
  "(AES_HASH_1R_XKEY11, AES_HASH_1R_XKEY11) = rv_pack (Lanes AES_HASH_1R_XKEY1 AES_HASH_1R_XKEY1 AES_HASH_1R_XKEY1 AES_HASH_1R_XKEY1)"
  "(rv_key4 0, rv_key4 0) = rv_pack (Lanes AES_GEN_4R_KEY0 AES_GEN_4R_KEY0 AES_GEN_4R_KEY4 AES_GEN_4R_KEY4)"
  "(rv_key4 4, rv_key4 4) = rv_pack (Lanes AES_GEN_4R_KEY1 AES_GEN_4R_KEY1 AES_GEN_4R_KEY5 AES_GEN_4R_KEY5)"
  "(rv_key4 8, rv_key4 8) = rv_pack (Lanes AES_GEN_4R_KEY2 AES_GEN_4R_KEY2 AES_GEN_4R_KEY6 AES_GEN_4R_KEY6)"
  "(rv_key4 12, rv_key4 12) = rv_pack (Lanes AES_GEN_4R_KEY3 AES_GEN_4R_KEY3 AES_GEN_4R_KEY7 AES_GEN_4R_KEY7)"
  by (simp_all add: rv_pack_def rx_set_int_vec_i128_def
      AES_HASH_1R_STATE02_def AES_HASH_1R_STATE13_def AES_GEN_1R_KEY02_def AES_GEN_1R_KEY13_def AES_HASH_1R_XKEY00_def
      AES_HASH_1R_XKEY11_def hash_init_def gen_1R_keys_def AES_HASH_1R_STATE0_def AES_HASH_1R_STATE1_def AES_HASH_1R_STATE2_def
      AES_HASH_1R_STATE3_def AES_GEN_1R_KEY0_def AES_GEN_1R_KEY1_def AES_GEN_1R_KEY2_def AES_GEN_1R_KEY3_def
      AES_HASH_1R_XKEY0_def AES_HASH_1R_XKEY1_def rv_key4_def vluxei32_table_def AES_HASH_STRIDE_X4_def fillAes4Rx4_Key_def
      AES_GEN_4R_KEY0_def AES_GEN_4R_KEY1_def AES_GEN_4R_KEY2_def AES_GEN_4R_KEY3_def AES_GEN_4R_KEY4_def
      AES_GEN_4R_KEY5_def AES_GEN_4R_KEY6_def AES_GEN_4R_KEY7_def)

section \<open>RISC-V: the contract of the rounds\<close>

locale rv_rounds =
  fixes enc dec :: rv_round
  assumes enc_words: "enc (v_words a @ v_words b) (v_words k @ v_words l) = v_words (aes_round a k) @ v_words (aes_round b l)"
    and dec_words: "dec (v_words a @ v_words b) (v_words k @ v_words l) = v_words (aes_inv_round a k) @ v_words (aes_inv_round b l)"
begin

lemma hash_step: "rv_hash_step enc dec (rv_pack s) (rv_pack k) = rv_pack (hash_round True hw s k)"
  by (simp add: rv_hash_step_def rv_pack_def hash_round_def enc_words dec_words soft_rounds)

lemma fill_step: "rv_fill_step enc dec (rv_pack s) (rv_pack k) = rv_pack (fill_round True hw s k)"
  by (simp add: rv_fill_step_def rv_pack_def fill_round_def enc_words dec_words soft_rounds)

lemma hash_loop_eq: "rv_hash_loop enc dec m p e (rv_pack s) = rv_pack (hash_loop True hw m p e s)"
proof (induction "True" hw m p e s rule: hash_loop.induct)
  case (1 hw m p e s)
  then show ?case
    by (subst rv_hash_loop.simps, subst hash_loop.simps) (simp add: rv_load_eq hash_step [where hw = hw])
qed

lemma fill_loop_eq:
  assumes "\<And>s. step (rv_pack s) = rv_pack (g s)"
  shows "rv_fill_loop step p e (rv_pack s) m = (case fill_loop g p e s m of (s', m') \<Rightarrow> (rv_pack s', m'))"
  using assms
proof (induction g p e s m rule: fill_loop.induct)
  case (1 g p e s m)
  then show ?case
    by (subst rv_fill_loop.simps, subst fill_loop.simps) (simp add: rv_store_eq)
qed

lemma finish_eq: "rv_finish enc dec (rv_pack s) = rv_pack (hash_finish True hw s)"
  by (simp add: rv_finish_def hash_finish_def Let_def rv_constants hash_step [where hw = hw])

lemma gen_4R_eq: "rv_gen_4R enc dec (rv_pack s) = rv_pack (gen_4R True hw s)"
  by (simp add: rv_gen_4R_def gen_4R_def Let_def rv_constants fill_step [where hw = hw])

lemma functions_eq:
  "rv_hashAes1Rx4 enc dec m n h = hashAes1Rx4 True hw m n h"
  "rv_fillAes1Rx4 enc dec st n p buf = fillAes1Rx4 True hw st n p buf"
  "rv_fillAes4Rx4 enc dec st n buf = fillAes4Rx4 True hw st n buf"
proof -
  show "rv_hashAes1Rx4 enc dec m n h = hashAes1Rx4 True hw m n h"
    by (simp add: rv_hashAes1Rx4_def hashAes1Rx4_def rv_constants hash_loop_eq [where hw = hw] finish_eq [where hw = hw] rv_store_eq)
  have "rv_fill_step enc dec (rv_pack s) (rv_pack gen_1R_keys) = rv_pack (gen_1R True hw s)" for s
    by (simp add: gen_1R_def fill_step [where hw = hw])
  note fill_loop_eq [where g = "gen_1R True hw", OF this]
  then show "rv_fillAes1Rx4 enc dec st n p buf = fillAes1Rx4 True hw st n p buf"
    by (simp add: rv_fillAes1Rx4_def fillAes1Rx4_def rv_constants rv_load_eq rv_store_eq split: prod.splits)
  show "rv_fillAes4Rx4 enc dec st n buf = fillAes4Rx4 True hw st n buf"
    by (simp add: rv_fillAes4Rx4_def fillAes4Rx4_def rv_load_eq fill_loop_eq [where g = "gen_4R True hw" and step = "rv_gen_4R enc dec", OF gen_4R_eq] split: prod.splits)
qed

lemma fused_eq: "rv_fused_loop enc dec p e (rv_pack hs) (rv_pack fs) m =
    (rv_pack (hash_loop True hw m p e hs), rv_pack (fst (fill_loop (gen_1R True hw) p e fs m)),
     snd (fill_loop (gen_1R True hw) p e fs m))"
proof -
  have "rv_fused_loop enc dec p e (rv_pack hs) (rv_pack fs) m =
      (case fused_loop True hw p (int e) hs fs m of (_, hs', fs', m') \<Rightarrow> (rv_pack hs', rv_pack fs', m'))"
  proof (induction "True" hw p "int e" hs fs m rule: fused_loop.induct)
    case (1 hw p hs fs m)
    then show ?case
      by (subst rv_fused_loop.simps, subst fused_loop.simps)
        (simp add: Let_def rv_load_eq rv_store_eq rv_constants hash_step [where hw = hw] fill_step [where hw = hw])
  qed
  then show ?thesis by (simp add: fused_loop_eq split: prod.splits)
qed

text \<open>Two blocks at a time: the second one is read before the first one is written.\<close>

lemma fused_by_two:
  "p \<le> e \<Longrightarrow> 128 dvd e - p \<Longrightarrow>
    rvv_fused_loop enc dec p e (rv_pack hs) (rv_pack fs) m = rv_fused_loop enc dec p e (rv_pack hs) (rv_pack fs) m"
proof (induction "e - p" arbitrary: p hs fs m rule: less_induct)
  case less
  let ?h = "hash_round True hw" and ?g = "gen_1R True hw"
  show ?case
  proof (cases "p < e")
    case True
    have ge: "128 \<le> e - p" using less.prems True by (intro dvd_imp_le) auto
    have "128 dvd e - (p + 128)" using less.prems ge by (metis diff_diff_left dvd_diff_nat dvd_refl)
    moreover have "p + 64 < e" using ge True by linarith
    ultimately show ?thesis using True ge
      by (subst rvv_fused_loop.simps, subst rv_fused_loop.simps)
       (simp add: less.hyps Let_def rv_load_eq rv_store_eq rv_constants c512.load_store_other hash_step [where hw = hw]
          fill_step [where hw = hw] rv_fused_loop.simps [of enc dec "p + 64"] add.commute [of 128])
  qed (simp add: rvv_fused_loop.simps rv_fused_loop.simps)
qed

lemma hash_and_fill_eq:
  "(case rv_fused_loop enc dec 0 n (AES_HASH_1R_STATE02, AES_HASH_1R_STATE13) (rv_load st 0) m of
      (hs, fs, m') \<Rightarrow> (m', rv_store h 0 (rv_finish enc dec hs), rv_store st 0 fs)) = hashAndFillAes1Rx4 True hw m n h st"
  by (simp add: hashAndFill_eq fillAes1Rx4_def hashAes1Rx4_def rv_constants rv_load_eq fused_eq [where hw = hw]
      finish_eq [where hw = hw] rv_store_eq split: prod.splits)

end

section \<open>RISC-V: the two rounds\<close>

lemma word_of_bytes_of [simp]:
  "ucast (word_of_bytes a b c d) = a" "ucast (drop_bit 8 (word_of_bytes a b c d)) = b"
  "ucast (drop_bit 16 (word_of_bytes a b c d)) = c" "ucast (drop_bit 24 (word_of_bytes a b c d)) = d"
  by (rule bit_eqI, simp add: bit_simps bit_word_of_bytes, fastforce?)+

lemma vaesdm_group_zero: "vaesdm_group a (0, 0, 0, 0) = aes_inv_round a (0, 0, 0, 0)"
  by (simp add: vaesdm_group_def aes_inv_round_def inv_mix_word_def Let_def lane_def)

lemma aes_inv_round_key: "aes_inv_round a k = rx_xor_vec_i128 (aes_inv_round a (0, 0, 0, 0)) k"
  by (cases k) (simp add: aes_inv_round_def rx_xor_vec_i128_def Let_def lane_def)

lemma vxor_words [simp]:
  "vxor (v_words a @ v_words b) (v_words k @ v_words l) = v_words (rx_xor_vec_i128 a k) @ v_words (rx_xor_vec_i128 b l)"
  by (cases a; cases b; cases k; cases l) (simp add: vxor_def rx_xor_vec_i128_def)

lemma zero_words: "replicate 8 0 = v_words (0, 0, 0, 0) @ v_words (0, 0, 0, 0)"
  by (simp add: numeral_eq_Suc)

interpretation zvkned: rv_rounds aesenc_zvkned aesdec_zvkned
proof unfold_locales
  show "aesenc_zvkned (v_words a @ v_words b) (v_words k @ v_words l) = v_words (aes_round a k) @ v_words (aes_round b l)" for a b k l
    by (simp add: aesenc_zvkned_def vaesem_def del: One_nat_def v_words_tuple)
  show "aesdec_zvkned (v_words a @ v_words b) (v_words k @ v_words l) = v_words (aes_inv_round a k) @ v_words (aes_inv_round b l)" for a b k l
    by (simp add: aesdec_zvkned_def vaesdm_def zero_words vaesdm_group_zero aes_inv_round_key [of _ k] aes_inv_round_key [of _ l]
        del: One_nat_def v_words_tuple)
qed

text \<open>A gathered byte, shifted left by two, is the offset of its table entry.\<close>

lemma gathered_index: "unat (push_bit 2 (word_of_bytes b 0 0 0)) div 4 = unat b"
proof -
  have "word_of_bytes b 0 0 0 = ucast b" by (rule bit_eqI) (auto simp: bit_simps bit_word_of_bytes bit_u8_ge)
  moreover have "unat b mod 4294967296 = unat b" "unat b * 4 mod 4294967296 = unat b * 4"
    by (rule mod_less, insert unat_u8_less [of b], linarith)+
  ultimately show ?thesis by (simp add: push_bit_eq_mult unat_word_ariths unsigned_ucast_eq take_bit_eq_mod)
qed

lemmas rvv_evals = softaes_vector_double_def Let_def vreinterpret_u8_def vrgather_def vreinterpret_u32_def upt_rec vsll_def
  vluxei32_table_def gathered_index vxor_def lane_defs lut_def byte_unat xor.assoc

lemma rvv_words:
  "rvv_enc (v_words a @ v_words b) (v_words k @ v_words l) = v_words (soft_aesenc a k) @ v_words (soft_aesenc b l)"
  "rvv_dec (v_words a @ v_words b) (v_words k @ v_words l) = v_words (soft_aesdec a k) @ v_words (soft_aesdec b l)"
proof -
  show "rvv_enc (v_words a @ v_words b) (v_words k @ v_words l) = v_words (soft_aesenc a k) @ v_words (soft_aesenc b l)"
    by (cases a; cases b; cases k; cases l)
      (simp add: rvv_enc_def rvv_evals randomx_aes_lut_enc_index_def soft_aesenc_def del: One_nat_def)
  show "rvv_dec (v_words a @ v_words b) (v_words k @ v_words l) = v_words (soft_aesdec a k) @ v_words (soft_aesdec b l)"
    by (cases a; cases b; cases k; cases l)
      (simp add: rvv_dec_def rvv_evals randomx_aes_lut_enc_index_def randomx_aes_lut_dec_index_def soft_aesdec_def del: One_nat_def)
qed

interpretation rvv: rv_rounds rvv_enc rvv_dec
  by unfold_locales (simp_all add: rvv_words soft_aes.enc_round soft_aes.dec_round del: v_words_tuple)

section \<open>Agreement\<close>

lemma zvkned_functions:
  "hashAes1Rx4_zvkned m n h = hashAes1Rx4 True hw m n h"
  "fillAes1Rx4_zvkned st n p buf = fillAes1Rx4 True hw st n p buf"
  "fillAes4Rx4_zvkned st n buf = fillAes4Rx4 True hw st n buf"
  "hashAndFillAes1Rx4_zvkned m n h st = hashAndFillAes1Rx4 True hw m n h st"
  by (simp_all add: hashAes1Rx4_zvkned_def fillAes1Rx4_zvkned_def fillAes4Rx4_zvkned_def hashAndFillAes1Rx4_zvkned_def
      zvkned.functions_eq [where hw = hw] zvkned.hash_and_fill_eq [where hw = hw])

lemma rvv_functions:
  "hashAes1Rx4_RVV m n h = hashAes1Rx4 True hw m n h"
  "fillAes1Rx4_RVV st n p buf = fillAes1Rx4 True hw st n p buf"
  "fillAes4Rx4_RVV st n buf = fillAes4Rx4 True hw st n buf"
  "128 dvd n \<Longrightarrow> hashAndFillAes1Rx4_RVV m n h st = hashAndFillAes1Rx4 True hw m n h st"
proof -
  show "hashAndFillAes1Rx4_RVV m n h st = hashAndFillAes1Rx4 True hw m n h st" if "128 dvd n"
    using rvv.fused_by_two [where p = 0 and e = n and hs = hash_init and fs = "load_lanes st 0" and m = m]
      rvv.hash_and_fill_eq [where n = n and st = st and m = m and h = h and hw = hw] that
    by (simp add: hashAndFillAes1Rx4_RVV_def rv_constants rv_load_eq)
qed (simp_all add: hashAes1Rx4_RVV_def fillAes1Rx4_RVV_def fillAes4Rx4_RVV_def rvv.functions_eq [where hw = hw])

text \<open>C29: every version of the AES hash and generators returns the same bytes: the two functions
  with VAES, the four with the RISC-V cipher extension and the four with table lookups in RISC-V
  vector registers, and the portable ones with software or hardware rounds; the fused function
  with table lookups, which takes two blocks at a time, for sizes that are multiples of 128.\<close>

theorem aes_versions_agree:
  assumes "\<And>v k. hw_enc v k = aes_round v k" "\<And>v k. hw_dec v k = aes_inv_round v k" "128 dvd (n :: nat)"
  shows "hashAes1Rx4_VAES512 m n h = hashAes1Rx4 soft (hw_enc, hw_dec) m n h \<and>
    hashAes1Rx4_zvkned m n h = hashAes1Rx4 soft (hw_enc, hw_dec) m n h \<and>
    hashAes1Rx4_RVV m n h = hashAes1Rx4 soft (hw_enc, hw_dec) m n h \<and>
    fillAes1Rx4_zvkned st n p buf = fillAes1Rx4 soft (hw_enc, hw_dec) st n p buf \<and>
    fillAes1Rx4_RVV st n p buf = fillAes1Rx4 soft (hw_enc, hw_dec) st n p buf \<and>
    fillAes4Rx4_zvkned st n buf = fillAes4Rx4 soft (hw_enc, hw_dec) st n buf \<and>
    fillAes4Rx4_RVV st n buf = fillAes4Rx4 soft (hw_enc, hw_dec) st n buf \<and>
    hashAndFillAes1Rx4_VAES512 m n h st = hashAndFillAes1Rx4 soft (hw_enc, hw_dec) m n h st \<and>
    hashAndFillAes1Rx4_zvkned m n h st = hashAndFillAes1Rx4 soft (hw_enc, hw_dec) m n h st \<and>
    hashAndFillAes1Rx4_RVV m n h st = hashAndFillAes1Rx4 soft (hw_enc, hw_dec) m n h st"
proof -
  have unit: "aes_unit hw_enc hw_dec" by unfold_locales (simp_all add: assms)
  note any = aes_unit.functions_any [OF unit, of soft, where hw = "(hw_enc, hw_dec)"]
    and vec = vaes_hash [where hw = "(hw_enc, hw_dec)"] vaes_hash_and_fill [where hw = "(hw_enc, hw_dec)"]
      zvkned_functions [where hw = "(hw_enc, hw_dec)"] rvv_functions [where hw = "(hw_enc, hw_dec)"]
  show ?thesis using assms(3) by (simp add: vec any hashAndFill_eq)
qed

theorem aes_versions_agree_witness:
  "hashAndFillAes1Rx4_RVV (\<lambda>i. of_nat i) 2097152 (\<lambda>_. 0) (\<lambda>_. 1) =
     hashAndFillAes1Rx4 False (aes_round, aes_inv_round) (\<lambda>i. of_nat i) 2097152 (\<lambda>_. 0) (\<lambda>_. 1)"
  by (intro aes_versions_agree [where hw_enc = aes_round and hw_dec = aes_inv_round, THEN conjunct2, THEN conjunct2,
        THEN conjunct2, THEN conjunct2, THEN conjunct2, THEN conjunct2, THEN conjunct2, THEN conjunct2, THEN conjunct2]) simp_all

end
