(* ===== verification/Spec2Isabelle.thy ===== *)
theory Spec2Isabelle
  imports Rx_Steps Miner_Facts Jit_X86_Super Blake2_Simd_Facts Aes_Vector_Facts
begin

text \<open>
  NMiner is a RandomX miner that runs as a native module of Node.js. A JavaScript process holds an
  \<^verbatim>\<open>Rx\<close> object (\<^verbatim>\<open>rx.cpp\<close>) with a cache and datasets, and \<^verbatim>\<open>RxJob\<close> objects
  (\<^verbatim>\<open>rx_job.cpp\<close>) whose threads take nonces, hash the blob of the current job with a virtual
  machine of the RandomX library and report the hashes that meet the target. This development
  models that code function by function and proves what makes it correct. All paths below are
  relative to \<^verbatim>\<open>src/src/algo/randomx/\<close>.

  \<^bold>\<open>The program and its theories, from the bottom up.\<close>

  \<^item> \<open>Prelude\<close>: machine integers as words, byte memories as functions of the offset, loads and
    stores of \<^verbatim>\<open>blake2/endian.h\<close>, sign extension; the \<open>named_theorems\<close> collections and the
    lemmas on words and memories that all components share. \<open>Config\<close>: \<^verbatim>\<open>configuration.h\<close> and the
    constants and \<^verbatim>\<open>static_assert\<close>s of \<^verbatim>\<open>common.hpp\<close>. \<open>Portable_Arith\<close>:
    \<^verbatim>\<open>instructions_portable.cpp\<close>, \<^verbatim>\<open>reciprocal.c\<close>.
  \<^item> \<open>Blake2b\<close>, \<open>Blake2_Gen\<close>: \<^verbatim>\<open>blake2/blake2b.c\<close>, \<^verbatim>\<open>blake2_generator.cpp\<close>. \<open>Simd\<close>: the
    vector instructions that the SSE and AVX2 code uses. \<open>Blake2_Simd\<close>, \<open>Blake2_Simd_Facts\<close>:
    \<^verbatim>\<open>blake2/blake2b_sse41.c\<close>, \<^verbatim>\<open>blake2/avx2/\<close>.
  \<^item> \<open>Soft_Aes\<close>, \<open>Aes_Hash\<close>: \<^verbatim>\<open>soft_aes.cpp\<close>, \<^verbatim>\<open>aes_hash.cpp\<close>. \<open>Aes_Vector\<close>,
    \<open>Aes_Vector_Facts\<close>: the VAES and the two RISC-V versions (\<^verbatim>\<open>aes_hash_vaes512.cpp\<close>,
    \<^verbatim>\<open>aes_hash_rv64_zvkned.cpp\<close>, \<^verbatim>\<open>aes_hash_rv64_vector.cpp\<close>).
  \<^item> \<open>Argon2\<close>: \<^verbatim>\<open>argon2_core.c\<close>, \<^verbatim>\<open>argon2_ref.c\<close>; \<open>Argon2_Simd\<close>, \<open>Argon2_Vector\<close>, \<open>Argon2_Wide\<close>,
    \<open>Argon2_Segment\<close>, \<open>Argon2_Facts\<close>: \<^verbatim>\<open>argon2_ssse3.c\<close>, \<^verbatim>\<open>argon2_avx2.c\<close> and their agreement.
  \<^item> \<open>Instr\<close>: \<^verbatim>\<open>instruction.hpp\<close>, \<^verbatim>\<open>instruction.cpp\<close>. \<open>Bytecode\<close>, \<open>Bytecode_Facts\<close>: the
    compiler to bytecode and its interpreter, \<^verbatim>\<open>bytecode_machine.hpp\<close>/\<^verbatim>\<open>.cpp\<close>.
  \<^item> \<open>Superscalar\<close>, \<open>Superscalar_Facts\<close>, \<open>Initialized\<close>: the generator of superscalar programs and
    their execution, \<^verbatim>\<open>superscalar.cpp\<close>, \<^verbatim>\<open>superscalar.hpp\<close>.
  \<^item> \<open>Dataset\<close>: \<^verbatim>\<open>dataset.cpp\<close>, the cache and the items computed from it. \<open>VM\<close>, \<open>VM_Facts\<close>,
    \<open>VM_Runs\<close>: \<^verbatim>\<open>virtual_machine.cpp\<close>, \<^verbatim>\<open>vm_interpreted.cpp\<close>, \<^verbatim>\<open>vm_interpreted_light.cpp\<close>.
  \<^item> \<open>Jit_X86\<close>: \<^verbatim>\<open>jit_compiler_x86.cpp\<close>; \<open>X86\<close>: the instructions of the processor that it emits;
    \<open>Jit_X86_Code\<close>, \<open>Jit_X86_Sim\<close>, \<open>Jit_X86_Run\<close>, \<open>Jit_X86_Prog\<close>, \<open>Jit_X86_Gen\<close>, \<open>Jit_X86_Facts\<close>,
    \<open>Jit_X86_Super\<close>: the machine code does what the bytecode and the superscalar program do.
  \<^item> \<open>Hashing\<close>, \<open>Pipeline\<close>, \<open>Api\<close>, \<open>Api_Facts\<close>: \<^verbatim>\<open>randomx.cpp\<close>, the hash functions (single and
    pipelined), creation and release of caches, datasets and machines, and the threads that
    initialise a dataset.
  \<^item> \<open>Rx_Job\<close>, \<open>Job_Facts\<close>: a job and the calls of the main thread on it, \<^verbatim>\<open>rx_job.h\<close>,
    \<^verbatim>\<open>rx_job.cpp\<close>. \<open>Nonces\<close>: the threads that share its nonces. \<open>Miner\<close>, \<open>Miner_Facts\<close>: the
    mining thread. \<open>Rx\<close>, \<open>Rx_Facts\<close>, \<open>Rx_Steps\<close>: \<^verbatim>\<open>rx.cpp\<close>, \<^verbatim>\<open>rx_worker.cpp\<close>, the object that
    owns cache and datasets, its allocation worker and its threads.

  \<^bold>\<open>How the code is represented.\<close> A \<^verbatim>\<open>struct\<close> or class is a \<open>record\<close>, an \<^verbatim>\<open>enum\<close> a
  \<open>datatype\<close>, an integer a word of its width; functions pass their state explicitly, the compilers
  through \<open>State_Monad\<close>. Undefined behaviour (an index out of range, a null pointer, the default of
  a switch that the compiler assumes away) is \<open>None\<close>, and the safety properties say that it is not
  reached. Threads are step relations: one rule for each access to shared state, in the order of
  the source (\<open>nonce_step\<close>, \<open>rx_step\<close>, the rounds of \<open>Miner\<close>); properties hold in every
  interleaving. Floating-point arithmetic, the AES instructions, the Argon2 memory (where only its
  being a function of the key matters), the allocator and JavaScript are arguments of the
  definitions, with their documented behaviour as named hypotheses. The processor instructions of
  \<open>X86\<close>, \<open>Simd\<close> and \<open>Aes_Vector\<close> follow the manuals of the processors.

  \<^bold>\<open>Interfaces.\<close> \<open>cell_access\<close> (a load and a store of a fixed width; interpreted for words, vectors
  and 64-byte blocks), \<open>aes_unit\<close> (two AES rounds; the table-driven ones), \<open>rv_rounds\<close> (two rounds
  on a pair of blocks; cipher extension and table lookups), \<open>vector_filler\<close> (the block function of
  an Argon2 filler; SSSE3 and AVX2), \<open>dataset_init\<close> (a routine that writes dataset items; the
  portable one), \<open>hash_vm\<close> (the pipelined hash calls, which the mining thread uses; those of
  \<^verbatim>\<open>randomx.cpp\<close>), \<open>simulation\<close> (a step relation refined by another; the nonce threads against
  an abstract queue).

  \<^bold>\<open>What is shown.\<close> From the outside in: a thread only reports shares that are hashes of the right
  blob and meet the target; no nonce is handed out twice and none is lost; machines never outlive
  what they read; an allocation ends in one of four consistent ways, and all of them can finish.
  A hash is a function of its input, light and fast machines agree, pipelined calls return the
  hashes of single calls. Compiled programs terminate, stay in the scratchpad, and the x86 machine
  code for them and for the superscalar programs computes the same. The superscalar generator
  terminates and returns valid programs that can be executed. The cache depends on the key only.
  Every accelerated version of AES, BLAKE2b and Argon2 computes what the portable one does, and
  the portable AES rounds and BLAKE2b are the standard ones.

  \<^bold>\<open>Bounds and fuel.\<close> \<open>executeBytecode\<close> gets three rounds for each instruction, which is enough
  because a branch goes back behind the last write of its register and can only be taken twice
  in a row. \<open>generateSuperscalar\<close> gets fuel only for its two loops that draw until a value is
  acceptable; its termination property says that nothing else needs any. The drain of an
  allocation makes 1001 looks as the code does. All other loops are structural or have a measure.

  \<^bold>\<open>Not modelled.\<close> The compilers for ARM and RISC-V (\<^verbatim>\<open>jit_compiler_a64.cpp\<close>,
  \<^verbatim>\<open>jit_compiler_rv64.cpp\<close>, \<^verbatim>\<open>jit_compiler_rv64_vector.cpp\<close>): other back ends for the same
  programs. The hand-written assembly (\<^verbatim>\<open>*_static.S\<close>): its blocks are byte lists that the model of
  the compiler copies, so that \<open>vm_compiled*.cpp\<close>, which only jumps into them, has no model
  either. \<^verbatim>\<open>assembly_generator_x86.cpp\<close>, which prints listings and is called by no other file.
  \<^verbatim>\<open>virtual_memory.c\<close> (calls of the operating system: whether an allocation succeeds is an argument
  of the model), \<^verbatim>\<open>cpu.cpp\<close> (processor queries; their results are arguments). The vector types of
  \<^verbatim>\<open>intrin_portable.h\<close> for processors other than the portable ones. \<^verbatim>\<open>main.cpp\<close> and the
  TypeScript files, which register and call the module. The waking of waiting threads
  (condition variables, thread affinity) carries no state of the model: a thread may take its next
  step at any time.
\<close>

end
